(* ===== verification/Prelude.thy ===== *)
theory Prelude
  imports Main "HOL-Library.State_Monad" "HOL-Library.List_Lexorder" "HOL-Library.Char_ord"
    "HOL-Library.Multiset"
begin

section \<open>Shared vocabulary of the development\<close>

text \<open>
  What every component uses: Go's \<^verbatim>\<open>error\<close> values with \<^verbatim>\<open>errors.Join\<close> and the
  Kubernetes reason tests, Go maps as sorted association lists (so that the equality of two
  maps is the equality of their representations), the part of \<^verbatim>\<open>strings\<close> the sources
  call, collecting loops, and a small weakest-precondition calculus for the state monad in
  which the controllers are written.
\<close>

named_theorems go_simps \<open>defining equations that unfold in component proofs\<close>
named_theorems wp_rules \<open>rules that compute what holds after a monadic step\<close>
named_theorems frame_intros \<open>rules that bound what a monadic step writes\<close>

declare split_paired_All [simp del] split_paired_Ex [simp del]

type_synonym nsname = "string \<times> string" \<comment> \<open>types.NamespacedName: namespace, then name\<close>

abbreviation ret :: "'a \<Rightarrow> ('s, 'a) state" where
  "ret \<equiv> State_Monad.return"

subsection \<open>Errors\<close>

text \<open>
  A Go error is one of: an API status with its reason, a plain message
  (\<^verbatim>\<open>errors.New\<close>, \<^verbatim>\<open>fmt.Errorf\<close> without \<^verbatim>\<open>%w\<close>), a package-level sentinel compared by
  identity, a wrapped error (\<^verbatim>\<open>%w\<close>), or the value of \<^verbatim>\<open>errors.Join\<close>. A nil dereference or an
  index out of range is the value \<open>Panic\<close>: a function that meets it returns it at once.
\<close>

datatype reason = NotFound | AlreadyExists | Conflict | BadRequest | InvalidReason | UnknownReason string

datatype err =
    Status reason string
  | Plain string
  | Sentinel string
  | Wrapped string err
  | Joined "err list"
  | Panic string

fun is_panic :: "err \<Rightarrow> bool" where
  "is_panic (Panic _) = True"
| "is_panic _ = False"

definition panicked :: "err option \<Rightarrow> bool" where
  "panicked r = (case r of Some e \<Rightarrow> is_panic e | None \<Rightarrow> False)"

text \<open>
  \<^verbatim>\<open>errors.As\<close> walks the tree depth first and stops at the first API status; the reason tests
  look at that status only.
\<close>

primrec status_reason :: "err \<Rightarrow> reason option"
  and status_reasons :: "err list \<Rightarrow> reason option"
where
  "status_reason (Status r _) = Some r"
| "status_reason (Plain _) = None"
| "status_reason (Sentinel _) = None"
| "status_reason (Wrapped _ e) = status_reason e"
| "status_reason (Joined es) = status_reasons es"
| "status_reason (Panic _) = None"
| "status_reasons [] = None"
| "status_reasons (e # es) =
     (case status_reason e of Some r \<Rightarrow> Some r | None \<Rightarrow> status_reasons es)"

definition IsNotFound :: "err \<Rightarrow> bool" where
  "IsNotFound e = (status_reason e = Some NotFound)"

definition IsAlreadyExists :: "err \<Rightarrow> bool" where
  "IsAlreadyExists e = (status_reason e = Some AlreadyExists)"

definition IgnoreNotFound :: "err \<Rightarrow> err option" where
  "IgnoreNotFound e = (if IsNotFound e then None else Some e)"

primrec errors_is :: "err \<Rightarrow> string \<Rightarrow> bool"
  and errors_are :: "err list \<Rightarrow> string \<Rightarrow> bool"
where
  "errors_is (Status _ _) t = False"
| "errors_is (Plain _) t = False"
| "errors_is (Sentinel n) t = (n = t)"
| "errors_is (Wrapped _ e) t = errors_is e t"
| "errors_is (Joined es) t = errors_are es t"
| "errors_is (Panic _) t = False"
| "errors_are [] t = False"
| "errors_are (e # es) t = (errors_is e t \<or> errors_are es t)"

text \<open>The text \<^verbatim>\<open>Error()\<close> renders.\<close>

primrec err_text :: "err \<Rightarrow> string"
  and err_texts :: "err list \<Rightarrow> string"
where
  "err_text (Status _ m) = m"
| "err_text (Plain m) = m"
| "err_text (Sentinel n) = n"
| "err_text (Wrapped m e) = m @ '': '' @ err_text e"
| "err_text (Joined es) = err_texts es"
| "err_text (Panic m) = m"
| "err_texts [] = ''''"
| "err_texts (e # es) = err_text e @ (if es = [] then '''' else CHR 0x0A # err_texts es)"

text \<open>\<^verbatim>\<open>errors.Join\<close> on the errors that are not nil; nil when there is none.\<close>

definition errors_Join :: "err list \<Rightarrow> err option" where
  "errors_Join es = (if es = [] then None else Some (Joined es))"

definition opt_list :: "'a option \<Rightarrow> 'a list" where
  "opt_list x = (case x of None \<Rightarrow> [] | Some a \<Rightarrow> [a])"

definition errors_Join_opt :: "err option list \<Rightarrow> err option" where
  "errors_Join_opt es = errors_Join (concat (map opt_list es))"

subsection \<open>Go maps with ordered keys\<close>

type_synonym ('k, 'v) gomap = "('k \<times> 'v) list"

fun gm_put :: "'k::linorder \<Rightarrow> 'v \<Rightarrow> ('k, 'v) gomap \<Rightarrow> ('k, 'v) gomap" where
  "gm_put k v [] = [(k, v)]"
| "gm_put k v (p # m) =
     (if k = fst p then (k, v) # m
      else if k < fst p then (k, v) # p # m
      else p # gm_put k v m)"

definition gm_get :: "('k, 'v) gomap \<Rightarrow> 'k \<Rightarrow> 'v option" where
  "gm_get m k = map_of m k"

definition gm_del :: "'k \<Rightarrow> ('k, 'v) gomap \<Rightarrow> ('k, 'v) gomap" where
  "gm_del k m = filter (\<lambda>p. fst p \<noteq> k) m"

definition gm_wf :: "('k::linorder, 'v) gomap \<Rightarrow> bool" where
  "gm_wf m = (sorted (map fst m) \<and> distinct (map fst m))"

definition gm_of_list :: "('k::linorder \<times> 'v) list \<Rightarrow> ('k, 'v) gomap" where
  "gm_of_list ps = fold (\<lambda>(k, v). gm_put k v) ps []"

subsection \<open>Strings\<close>

definition has_prefix :: "string \<Rightarrow> string \<Rightarrow> bool" where
  "has_prefix s p = (take (length p) s = p)"

definition trim_prefix :: "string \<Rightarrow> string \<Rightarrow> string" where
  "trim_prefix s p = (if has_prefix s p then drop (length p) s else s)"

text \<open>A number printed with \<^verbatim>\<open>%d\<close>.\<close>

definition digit_char :: "nat \<Rightarrow> char" where
  "digit_char d = ''0123456789'' ! d"

fun incr_digits :: "nat list \<Rightarrow> nat list" where
  "incr_digits [] = [1]"
| "incr_digits (d # ds) = (if d < 9 then Suc d # ds else 0 # incr_digits ds)"

primrec decimal_digits :: "nat \<Rightarrow> nat list" where \<comment> \<open>lowest digit first\<close>
  "decimal_digits 0 = [0]"
| "decimal_digits (Suc n) = incr_digits (decimal_digits n)"

definition show_nat :: "nat \<Rightarrow> string" where
  "show_nat n = map digit_char (rev (decimal_digits n))"

subsection \<open>Loops that collect errors\<close>

text \<open>
  The shape \<^verbatim>\<open>for \_, x := range xs { if err := f(x); err != nil { errs = append(errs, err) } }\<close>.
  A panic in the body leaves the loop and the function (\<open>Inl\<close>).
\<close>

fun for_collect :: "('a \<Rightarrow> ('s, err option) state) \<Rightarrow> 'a list \<Rightarrow> ('s, err + err list) state" where
  "for_collect f [] = ret (Inr [])"
| "for_collect f (x # xs) = do {
     r \<leftarrow> f x;
     case r of
       Some e \<Rightarrow>
         if is_panic e then ret (Inl e)
         else do {
           rest \<leftarrow> for_collect f xs;
           ret (case rest of Inl p \<Rightarrow> Inl p | Inr es \<Rightarrow> Inr (e # es))
         }
     | None \<Rightarrow> for_collect f xs
   }"

text \<open>\<^verbatim>\<open>return errors.Join(errs...)\<close> after such a loop.\<close>

definition join_collected :: "err + err list \<Rightarrow> err option" where
  "join_collected r = (case r of Inl p \<Rightarrow> Some p | Inr es \<Rightarrow> errors_Join es)"

text \<open>The shape \<^verbatim>\<open>for \_, x := range xs { if err := f(x); err != nil { return err } }\<close>.\<close>

fun for_first :: "('a \<Rightarrow> ('s, err option) state) \<Rightarrow> 'a list \<Rightarrow> ('s, err option) state" where
  "for_first f [] = ret None"
| "for_first f (x # xs) = do {
     r \<leftarrow> f x;
     case r of Some e \<Rightarrow> ret (Some e) | None \<Rightarrow> for_first f xs
   }"

text \<open>The same loop when it keeps the elements that failed instead of their errors.\<close>

fun for_failing :: "('a \<Rightarrow> ('s, err option) state) \<Rightarrow> 'a list \<Rightarrow> ('s, err + 'a list) state" where
  "for_failing f [] = ret (Inr [])"
| "for_failing f (x # xs) = do {
     r \<leftarrow> f x;
     case r of
       Some e \<Rightarrow>
         if is_panic e then ret (Inl e)
         else do {
           rest \<leftarrow> for_failing f xs;
           ret (case rest of Inl p \<Rightarrow> Inl p | Inr ys \<Rightarrow> Inr (x # ys))
         }
     | None \<Rightarrow> for_failing f xs
   }"

text \<open>A slice of strings printed with \<^verbatim>\<open>%v\<close>.\<close>

fun spaced :: "string list \<Rightarrow> string" where
  "spaced [] = ''''"
| "spaced [x] = x"
| "spaced (x # xs) = x @ '' '' @ spaced xs"

definition show_list :: "string list \<Rightarrow> string" where
  "show_list xs = ''['' @ spaced xs @ '']''"

text \<open>A string between apostrophes.\<close>

definition quoted :: "string \<Rightarrow> string" where
  "quoted s = [CHR 0x27] @ s @ [CHR 0x27]"

subsection \<open>What holds after a step\<close>

definition wp :: "('s, 'a) state \<Rightarrow> ('a \<Rightarrow> 's \<Rightarrow> bool) \<Rightarrow> 's \<Rightarrow> bool" where
  "wp m Q s = (case run_state m s of (r, s') \<Rightarrow> Q r s')"

text \<open>A step keeps a relation between the state before and the state after.\<close>

definition keeps :: "('s \<Rightarrow> 's \<Rightarrow> bool) \<Rightarrow> ('s, 'a) state \<Rightarrow> bool" where
  "keeps R m = (\<forall>s. R s (snd (run_state m s)))"

section \<open>Lemmas\<close>

subsection \<open>Errors\<close>

lemma errors_Join_None_iff [simp]: "errors_Join es = None \<longleftrightarrow> es = []"
  by (simp add: errors_Join_def)

lemma opt_list_simps [simp]: "opt_list None = []" "opt_list (Some a) = [a]"
  by (simp_all add: opt_list_def)

lemma opt_list_Nil_iff [simp]: "opt_list x = [] \<longleftrightarrow> x = None"
  by (cases x) simp_all

lemma errors_Join_opt_None_iff [simp]: "errors_Join_opt es = None \<longleftrightarrow> (\<forall>e\<in>set es. e = None)"
  by (simp add: errors_Join_opt_def)

lemma join_collected_None_iff [simp]: "join_collected r = None \<longleftrightarrow> r = Inr []"
  by (auto simp: join_collected_def split: sum.splits)

lemma IgnoreNotFound_None_iff: "IgnoreNotFound e = None \<longleftrightarrow> IsNotFound e"
  by (simp add: IgnoreNotFound_def)

lemma IsNotFound_simps [simp]:
  "IsNotFound (Status r m) \<longleftrightarrow> r = NotFound"
  "\<not> IsNotFound (Plain m)"
  "\<not> IsNotFound (Sentinel m)"
  "\<not> IsNotFound (Panic m)"
  "IsNotFound (Wrapped m e) \<longleftrightarrow> IsNotFound e"
  by (simp_all add: IsNotFound_def)

subsection \<open>Go maps\<close>

lemma gm_get_Nil [simp]: "gm_get [] k = None"
  by (simp add: gm_get_def)

lemma gm_get_put: "gm_get (gm_put k v m) k' = (if k' = k then Some v else gm_get m k')"
  by (induction k v m rule: gm_put.induct) (auto simp: gm_get_def)

lemma gm_get_put_same [simp]: "gm_get (gm_put k v m) k = Some v"
  by (simp add: gm_get_put)

lemma gm_get_put_other [simp]: "k' \<noteq> k \<Longrightarrow> gm_get (gm_put k v m) k' = gm_get m k'"
  by (simp add: gm_get_put)

lemma gm_get_del: "gm_get (gm_del k m) k' = (if k' = k then None else gm_get m k')"
  by (induction m) (auto simp: gm_get_def gm_del_def)

lemma keys_gm_put: "fst ` set (gm_put k v m) = insert k (fst ` set m)"
  by (induction k v m rule: gm_put.induct) auto

lemma gm_wf_put: "gm_wf m \<Longrightarrow> gm_wf (gm_put k v m)"
proof (induction m)
  case Nil
  then show ?case by (simp add: gm_wf_def)
next
  case (Cons p m)
  then have wf: "gm_wf m" and le: "\<forall>x\<in>fst ` set m. fst p \<le> x" and ni: "fst p \<notin> fst ` set m"
    by (auto simp: gm_wf_def)
  from Cons.IH [OF wf] have ih: "gm_wf (gm_put k v m)" .
  show ?case
  proof (cases "k = fst p \<or> k < fst p")
    case True
    with Cons.prems show ?thesis by (fastforce simp: gm_wf_def)
  next
    case False
    then have "fst p < k" by auto
    with False ih le ni have "\<forall>x\<in>fst ` set (gm_put k v m). fst p \<le> x \<and> x \<noteq> fst p"
      by (metis insert_iff keys_gm_put less_irrefl less_imp_le)
    with False ih show ?thesis by (auto simp: gm_wf_def)
  qed
qed

lemma gm_wf_del: "gm_wf m \<Longrightarrow> gm_wf (gm_del k m)"
  by (auto simp: gm_wf_def gm_del_def sorted_filter distinct_map_filter)

lemma find_Some_holds: "find P xs = Some x \<Longrightarrow> P x"
  by (induction xs) (auto split: if_splits)

lemma find_Some_in: "find P xs = Some x \<Longrightarrow> x \<in> set xs"
  by (induction xs) (auto split: if_splits)

lemma find_append_option:
  "find P (xs @ ys) = (case find P xs of Some x \<Rightarrow> Some x | None \<Rightarrow> find P ys)"
  by (induction xs) simp_all

lemma gm_get_fold_put:
  "gm_get (fold (\<lambda>x. gm_put (f x) (g x)) xs m) k =
     (case find (\<lambda>x. f x = k) (rev xs) of Some x \<Rightarrow> Some (g x) | None \<Rightarrow> gm_get m k)"
proof (induction xs arbitrary: m)
  case Nil
  then show ?case by simp
next
  case (Cons x xs)
  then show ?case by (auto simp: gm_get_put find_append_option split: option.splits)
qed

subsection \<open>Strings\<close>

lemma has_prefix_iff: "has_prefix s p \<longleftrightarrow> (\<exists>t. s = p @ t)"
  unfolding has_prefix_def by (metis append_eq_conv_conj append_take_drop_id)

lemma trim_prefix_append [simp]: "trim_prefix (p @ s) p = s"
  by (simp add: trim_prefix_def has_prefix_def)

lemma decimal_digits_value:
  "foldr (\<lambda>d v. d + 10 * v) (decimal_digits n) 0 = n \<and> (\<forall>d\<in>set (decimal_digits n). d < 10)"
proof -
  have "foldr (\<lambda>d v. d + 10 * v) (incr_digits ds) 0 = Suc (foldr (\<lambda>d v. d + 10 * v) ds 0) \<and>
      (\<forall>d\<in>set (incr_digits ds). d < 10)" if "\<forall>d\<in>set ds. d < 10" for ds :: "nat list"
    using that by (induction ds rule: incr_digits.induct) auto
  then show ?thesis by (induction n) auto
qed

subsection \<open>The calculus\<close>

lemma wp_ret [simp]: "wp (ret x) Q s = Q x s"
  by (simp add: wp_def)

lemma wp_bind [simp]: "wp (State_Monad.bind m f) Q s = wp m (\<lambda>r. wp (f r) Q) s"
  by (simp add: wp_def split: prod.splits)

lemma wp_mono: "wp m P s \<Longrightarrow> (\<And>r s'. P r s' \<Longrightarrow> Q r s') \<Longrightarrow> wp m Q s"
  by (auto simp: wp_def split: prod.splits)

lemma wp_run: "wp m Q s \<Longrightarrow> run_state m s = (r, s') \<Longrightarrow> Q r s'"
  by (simp add: wp_def)

lemma wp_if [simp]: "wp (if b then m else n) Q s = (if b then wp m Q s else wp n Q s)"
  by simp

lemma wpI: "(\<And>r s'. run_state m s = (r, s') \<Longrightarrow> Q r s') \<Longrightarrow> wp m Q s"
  by (auto simp: wp_def split: prod.splits)

lemma wp_conj: "wp m P s \<Longrightarrow> wp m Q s \<Longrightarrow> wp m (\<lambda>r s'. P r s' \<and> Q r s') s"
  by (auto simp: wp_def split: prod.splits)

lemma keeps_ret: "(\<And>s. R s s) \<Longrightarrow> keeps R (ret x)"
  by (simp add: keeps_def)

lemma keeps_bind:
  assumes "\<And>s t u. R s t \<Longrightarrow> R t u \<Longrightarrow> R s u" and "keeps R m" and "\<And>x. keeps R (f x)"
  shows "keeps R (State_Monad.bind m f)"
proof -
  have "R s (snd (run_state (State_Monad.bind m f) s))" for s
  proof -
    obtain x t where x: "run_state m s = (x, t)" by (cases "run_state m s")
    with assms(2) have "R s t" unfolding keeps_def by (metis snd_conv)
    moreover have "R t (snd (run_state (f x) t))" using assms(3) by (simp add: keeps_def)
    ultimately show ?thesis using x assms(1) by simp
  qed
  then show ?thesis by (simp add: keeps_def)
qed

lemma keeps_run: "keeps R m \<Longrightarrow> run_state m s = (r, s') \<Longrightarrow> R s s'"
  by (metis keeps_def snd_conv)

lemma keeps_for_collect:
  assumes "\<And>s. R s s" and "\<And>s t u. R s t \<Longrightarrow> R t u \<Longrightarrow> R s u" and "\<And>x. x \<in> set xs \<Longrightarrow> keeps R (f x)"
  shows "keeps R (for_collect f xs)"
  using assms(3)
proof (induction xs)
  case Nil
  then show ?case by (simp add: keeps_ret assms(1))
next
  case (Cons x xs)
  then have "keeps R (for_collect f xs)" by simp
  with Cons.prems show ?case
    by (auto intro!: keeps_bind [OF assms(2)] keeps_ret assms(1) split: option.splits)
qed

lemma keeps_for_failing:
  assumes "\<And>s. R s s" and "\<And>s t u. R s t \<Longrightarrow> R t u \<Longrightarrow> R s u" and "\<And>x. x \<in> set xs \<Longrightarrow> keeps R (f x)"
  shows "keeps R (for_failing f xs)"
  using assms(3)
proof (induction xs)
  case Nil
  then show ?case by (simp add: keeps_ret assms(1))
next
  case (Cons x xs)
  then have "keeps R (for_failing f xs)" by simp
  with Cons.prems show ?case
    by (auto intro!: keeps_bind [OF assms(2)] keeps_ret assms(1) split: option.splits)
qed

lemma keeps_for_first:
  assumes "\<And>s. R s s" and "\<And>s t u. R s t \<Longrightarrow> R t u \<Longrightarrow> R s u" and "\<And>x. x \<in> set xs \<Longrightarrow> keeps R (f x)"
  shows "keeps R (for_first f xs)"
  using assms(3)
proof (induction xs)
  case Nil
  then show ?case by (simp add: keeps_ret assms(1))
next
  case (Cons x xs)
  then have "keeps R (for_first f xs)" by simp
  with Cons.prems show ?case
    by (auto intro!: keeps_bind [OF assms(2)] keeps_ret assms(1) split: option.splits)
qed

text \<open>
  What a loop that reports no error has achieved: if a turn without an error establishes \<open>P x\<close> and
  keeps what the other turns have established, then \<open>P\<close> holds of every element at the end.
\<close>

definition establishes :: "('a \<Rightarrow> 's \<Rightarrow> bool) \<Rightarrow> 'a set \<Rightarrow> ('a \<Rightarrow> ('s, err option) state) \<Rightarrow> bool" where
  "establishes P A f =
     (\<forall>x\<in>A. \<forall>s s'. run_state (f x) s = (None, s') \<longrightarrow> P x s' \<and> (\<forall>y\<in>A. P y s \<longrightarrow> P y s'))"

lemma establishesI:
  assumes "\<And>x s s'. x \<in> A \<Longrightarrow> run_state (f x) s = (None, s') \<Longrightarrow> P x s'"
    and "\<And>x y s s'. x \<in> A \<Longrightarrow> y \<in> A \<Longrightarrow> y \<noteq> x \<Longrightarrow> P y s \<Longrightarrow> run_state (f x) s = (None, s') \<Longrightarrow> P y s'"
  shows "establishes P A f"
  unfolding establishes_def using assms by metis

lemma establishesD:
  assumes "establishes P A f" and "x \<in> A" and "run_state (f x) s = (None, s')"
  shows "P x s'" and "y \<in> A \<Longrightarrow> P y s \<Longrightarrow> P y s'"
  using assms unfolding establishes_def by blast+

lemma for_first_establishes:
  assumes "establishes P A f" and "set xs \<subseteq> A" and "run_state (for_first f xs) s = (None, s')"
  shows "(\<forall>x\<in>set xs. P x s') \<and> (\<forall>y\<in>A. P y s \<longrightarrow> P y s')"
  using assms(2,3)
proof (induction xs arbitrary: s)
  case (Cons x xs)
  obtain q t where q: "run_state (f x) s = (q, t)" by fastforce
  from Cons.prems q have qN: "q = None" and r2: "run_state (for_first f xs) t = (None, s')"
    by (auto split: option.splits)
  from Cons.prems have x: "x \<in> A" and xs: "set xs \<subseteq> A" by auto
  from q qN have "run_state (f x) s = (None, t)" by simp
  with Cons.IH [OF xs r2] establishesD [OF assms(1) x] x show ?case by (metis set_ConsD)
qed simp

text \<open>What every turn without an error does, the loop without an error does.\<close>

lemma for_first_chain:
  assumes "run_state (for_first f xs) s = (None, s')" and "\<And>s. R s s" and "\<And>s t u. R s t \<Longrightarrow> R t u \<Longrightarrow> R s u"
    and "\<And>x s s'. x \<in> set xs \<Longrightarrow> run_state (f x) s = (None, s') \<Longrightarrow> R s s'"
  shows "R s s'"
  using assms(1,4)
proof (induction xs arbitrary: s)
  case Nil
  then show ?case by (simp add: assms(2))
next
  case (Cons x xs)
  then obtain t where t: "run_state (f x) s = (None, t)" "run_state (for_first f xs) t = (None, s')"
    by (auto split: prod.splits option.splits)
  from Cons.prems(2) [OF _ t(1)] have "R s t" by simp
  moreover have "R t s'" by (rule Cons.IH [OF t(2)]) (auto intro: Cons.prems(2))
  ultimately show ?case by (rule assms(3))
qed

text \<open>The collecting loops without an error run like the loop that stops at the first one.\<close>

lemma for_collect_none:
  "run_state (for_collect f xs) s = (Inr [], s') \<Longrightarrow> run_state (for_first f xs) s = (None, s')"
  by (induction xs arbitrary: s) (auto split: prod.splits option.splits sum.splits if_splits)

lemma for_failing_none:
  "run_state (for_failing f xs) s = (Inr [], s') \<Longrightarrow> run_state (for_first f xs) s = (None, s')"
  by (induction xs arbitrary: s) (auto split: prod.splits option.splits sum.splits if_splits)

lemmas for_collect_establishes = for_first_establishes [OF _ _ for_collect_none]
lemmas for_failing_establishes = for_first_establishes [OF _ _ for_failing_none]

text \<open>
  The same when a turn needs a precondition of its own element, which the other turns keep.
\<close>

lemma for_first_each:
  assumes "run_state (for_first f xs) s = (None, s')" and "distinct xs" and "\<forall>x\<in>set xs. Pre x s"
    and turn: "\<And>x s s'. x \<in> set xs \<Longrightarrow> Pre x s \<Longrightarrow> run_state (f x) s = (None, s') \<Longrightarrow> Post x s'"
    and frame: "\<And>x y s s'. x \<in> set xs \<Longrightarrow> y \<in> set xs \<Longrightarrow> x \<noteq> y \<Longrightarrow> run_state (f x) s = (None, s') \<Longrightarrow>
      (Pre y s \<longrightarrow> Pre y s') \<and> (Post y s \<longrightarrow> Post y s')"
  shows "\<forall>x\<in>set xs. Post x s'"
proof -
  have "\<forall>x\<in>set ys \<union> D. Post x s'"
    if "run_state (for_first f ys) s = (None, s')" "distinct ys" "set ys \<union> D \<subseteq> set xs" "set ys \<inter> D = {}"
      "\<forall>x\<in>set ys. Pre x s" "\<forall>x\<in>D. Post x s" for ys D s
    using that
  proof (induction ys arbitrary: s D)
    case (Cons y ys)
    obtain t where t: "run_state (f y) s = (None, t)" "run_state (for_first f ys) t = (None, s')"
      using Cons.prems(1) by (auto split: prod.splits option.splits)
    have y: "y \<in> set xs" "Post y t" using turn [OF _ _ t(1)] Cons.prems(3,5) by auto
    have keep: "(Pre x s \<longrightarrow> Pre x t) \<and> (Post x s \<longrightarrow> Post x t)" if "x \<in> set ys \<union> D" for x
    proof -
      from that Cons.prems(2,4) have "y \<noteq> x" by auto
      with that Cons.prems(3) y(1) show ?thesis by (intro frame [OF _ _ _ t(1)]) auto
    qed
    have "\<forall>x\<in>set ys \<union> insert y D. Post x s'"
      by (rule Cons.IH [OF t(2)]) (use Cons.prems y keep in auto)
    then show ?case by auto
  qed simp
  from this [where ys = xs and D = "{}"] assms(1-3) show ?thesis by simp
qed

lemmas for_collect_each = for_first_each [OF for_collect_none]

end
