(* ===== verification/Envtag.thy ===== *)
theory Envtag
  imports Prelude
begin

section \<open>Matching an environment against constraints: \<^verbatim>\<open>pkg/envtag\<close>\<close>

text \<open>
  \<^verbatim>\<open>envtag.Match\<close> decides in which environments a registered service or a service class may be
  used. A constraint is an environment name, or a name after an exclamation mark, which excludes
  that environment. The loop of the source is \<open>match_loop\<close>, its variable \<^verbatim>\<open>v\<close> the second argument.
\<close>

definition NegativeConstraintSymbol :: string where
  "NegativeConstraintSymbol = ''!''"

datatype matchResult = matched | unmatched | forbidden

definition match :: "string \<Rightarrow> string \<Rightarrow> matchResult" where
  "match environment constraint =
     (if has_prefix constraint NegativeConstraintSymbol then
        let pc = trim_prefix constraint NegativeConstraintSymbol
        in if environment = pc then forbidden else matched
      else if environment = constraint then matched
      else unmatched)"

fun match_loop :: "string \<Rightarrow> bool \<Rightarrow> string list \<Rightarrow> bool" where
  "match_loop environment v [] = v"
| "match_loop environment v (m # ms) =
     (case match environment m of
        matched \<Rightarrow> match_loop environment True ms
      | forbidden \<Rightarrow> False
      | unmatched \<Rightarrow> match_loop environment v ms)"

definition Match :: "string \<Rightarrow> string list \<Rightarrow> bool" where
  "Match environment constraints =
     (if length constraints = 0 then True else match_loop environment False constraints)"

subsection \<open>Lemmas\<close>

lemma match_forbidden_iff: "match env c = forbidden \<longleftrightarrow> c = ''!'' @ env"
  by (auto simp: match_def Let_def NegativeConstraintSymbol_def has_prefix_iff trim_prefix_def)

lemma match_matched_iff:
  "match env c = matched \<longleftrightarrow> c \<noteq> ''!'' @ env \<and> (c = env \<or> (\<exists>t. c = ''!'' @ t))"
  by (auto simp: match_def Let_def NegativeConstraintSymbol_def has_prefix_iff trim_prefix_def)

lemma match_loop_iff:
  "match_loop env v cs \<longleftrightarrow>
     (\<forall>c\<in>set cs. match env c \<noteq> forbidden) \<and> (v \<or> (\<exists>c\<in>set cs. match env c = matched))"
proof (induction cs arbitrary: v)
  case Nil
  then show ?case by simp
next
  case (Cons c cs)
  then show ?case by (cases "match env c") auto
qed

lemma Match_Nil [simp]: "Match env []"
  by (simp add: Match_def)

lemma Match_singleton_self: "Match env [''!'' @ env] = False"
  by (simp add: Match_def match_def NegativeConstraintSymbol_def has_prefix_def trim_prefix_def)

text \<open>\<^verbatim>\<open>envtag.Match\<close> accepts an environment exactly when there is no constraint at all, or the
  environment is not excluded by name and some constraint either names it or excludes another one.\<close>

theorem Match_spec:
  "Match env cs \<longleftrightarrow>
     cs = [] \<or> (''!'' @ env \<notin> set cs \<and> (env \<in> set cs \<or> (\<exists>t. ''!'' @ t \<in> set cs)))"
proof (cases "cs = []")
  case False
  then have "Match env cs = match_loop env False cs" by (simp add: Match_def)
  then have "Match env cs \<longleftrightarrow> (\<forall>c\<in>set cs. c \<noteq> ''!'' @ env) \<and>
      (\<exists>c\<in>set cs. c \<noteq> ''!'' @ env \<and> (c = env \<or> (\<exists>t. c = ''!'' @ t)))"
    by (simp only: match_loop_iff match_forbidden_iff match_matched_iff simp_thms)
  moreover have "env \<noteq> ''!'' @ env" by simp
  ultimately show ?thesis using False by metis
qed simp

lemma Match_set: "cs \<noteq> [] \<Longrightarrow> set cs = set cs' \<Longrightarrow> Match env cs = Match env cs'"
  unfolding Match_def match_loop_iff by (metis length_0_conv set_empty)

end
