(* ===== verification/Slices.thy ===== *)
theory Slices
  imports Prelude
begin

section \<open>Set difference of slices: \<^verbatim>\<open>pkg/slices\<close>\<close>

text \<open>
  \<^verbatim>\<open>Subtract\<close> goes through a map whose keys are the elements; the result lists the remaining keys in
  the order in which Go iterates over that map, which the language leaves open. The model takes
  this order as the argument \<open>ord\<close>, a rearrangement of the keys (\<open>iteration_order\<close>).
\<close>

definition iteration_order :: "('a list \<Rightarrow> 'a list) \<Rightarrow> bool" where
  "iteration_order ord = (\<forall>xs. mset (ord xs) = mset xs)"

fun insert_keys :: "'a list \<Rightarrow> 'a list \<Rightarrow> 'a list" where
  "insert_keys m [] = m"
| "insert_keys m (e # es) = insert_keys (if e \<in> set m then m else m @ [e]) es"

fun delete_keys :: "'a list \<Rightarrow> 'a list \<Rightarrow> 'a list" where
  "delete_keys m [] = m"
| "delete_keys m (e # es) = delete_keys (filter (\<lambda>k. k \<noteq> e) m) es"

definition Subtract :: "('a list \<Rightarrow> 'a list) \<Rightarrow> 'a list \<Rightarrow> 'a list \<Rightarrow> 'a list" where
  "Subtract ord os s = ord (delete_keys (insert_keys [] os) s)"

subsection \<open>Lemmas\<close>

lemma iteration_order_set: "iteration_order ord \<Longrightarrow> set (ord xs) = set xs"
  by (metis iteration_order_def set_mset_mset)

lemma iteration_order_distinct: "iteration_order ord \<Longrightarrow> distinct (ord xs) = distinct xs"
  by (metis iteration_order_def distinct_count_atmost_1 set_mset_mset)

lemma iteration_order_id: "iteration_order (\<lambda>xs. xs)"
  by (simp add: iteration_order_def)

lemma iteration_order_rev: "iteration_order rev"
  by (simp add: iteration_order_def)

lemma set_insert_keys [simp]: "set (insert_keys m es) = set m \<union> set es"
  by (induction m es rule: insert_keys.induct) auto

lemma distinct_insert_keys: "distinct m \<Longrightarrow> distinct (insert_keys m es)"
  by (induction m es rule: insert_keys.induct) auto

lemma set_delete_keys [simp]: "set (delete_keys m es) = set m - set es"
  by (induction m es rule: delete_keys.induct) auto

lemma distinct_delete_keys: "distinct m \<Longrightarrow> distinct (delete_keys m es)"
  by (induction m es rule: delete_keys.induct) auto

lemma set_Subtract: "iteration_order ord \<Longrightarrow> set (Subtract ord os s) = set os - set s"
  by (simp add: Subtract_def iteration_order_set)

lemma distinct_Subtract: "iteration_order ord \<Longrightarrow> distinct (Subtract ord os s)"
  by (simp add: Subtract_def iteration_order_distinct distinct_insert_keys distinct_delete_keys)

text \<open>Whatever the iteration order of Go's maps, \<^verbatim>\<open>slices.Subtract\<close> returns each element of the
  first slice that is not in the second exactly once, and nothing else.\<close>

theorem Subtract_spec:
  assumes "iteration_order ord"
  shows "set (Subtract ord os s) = set os - set s \<and> distinct (Subtract ord os s)"
  using assms by (simp add: set_Subtract distinct_Subtract)

theorem Subtract_spec_witness:
  "iteration_order (rev :: nat list \<Rightarrow> nat list) \<and>
   set (Subtract rev [1, 2, 2, 3 :: nat] [2]) = set [1, 2, 2, 3] - set [2] \<and>
   distinct (Subtract rev [1, 2, 2, 3 :: nat] [2])"
  using Subtract_spec [OF iteration_order_rev, of "[1, 2, 2, 3 :: nat]" "[2]"] iteration_order_rev
  by blast

end
