(* ===== verification/Api_Types.thy ===== *)
theory Api_Types
  imports Prelude
begin

section \<open>The resources: \<^verbatim>\<open>api/v1alpha1\<close> and what the sources read of the Kubernetes types\<close>

text \<open>
  One record per struct, with the struct's fields in the struct's order. A pointer is an
  \<open>option\<close>, a string-typed enum is a datatype with a constructor for the empty string, a nil map or
  slice is the empty one. Kubernetes objects carry the fields of \<^verbatim>\<open>ObjectMeta\<close> that the sources read
  or write; \<open>om_deletion\<close> says that \<^verbatim>\<open>DeletionTimestamp\<close> is set.
\<close>

subsection \<open>Metadata and conditions\<close>

record owner_ref =
  or_apiVersion :: string
  or_kind :: string
  or_name :: string
  or_uid :: string
  or_controller :: bool

record object_meta =
  om_name :: string
  om_namespace :: string
  om_uid :: string
  om_resourceVersion :: string
  om_deletion :: bool
  om_finalizers :: "string list"
  om_labels :: "(string, string) gomap"
  om_annotations :: "(string, string) gomap"
  om_owners :: "owner_ref list"

definition new_meta :: "string \<Rightarrow> string \<Rightarrow> object_meta" where
  "new_meta ns n = \<lparr>om_name = n, om_namespace = ns, om_uid = '''', om_resourceVersion = '''',
     om_deletion = False, om_finalizers = [], om_labels = [], om_annotations = [], om_owners = []\<rparr>"

datatype condition_status = CondTrue | CondFalse | CondUnknown

record condition =
  co_type :: string
  co_status :: condition_status
  co_observedGeneration :: nat
  co_lastTransitionTime :: nat \<comment> \<open>0 is the zero time\<close>
  co_reason :: string
  co_message :: string

subsection \<open>\<^verbatim>\<open>types.go\<close>\<close>

record ServiceClassIdentityItem =
  sci_Name :: string
  sci_Value :: string

record LabelSelector =
  ls_MatchLabels :: "(string, string) gomap"
  ls_MatchExpressions :: "string list"

record ApplicationSelector =
  as_APIVersion :: string
  as_Kind :: string
  as_Name :: string
  as_Selector :: "LabelSelector option"

record Environment =
  env_Name :: string
  env_Key :: string

record HealthCheckContainer =
  hc_Image :: string
  hc_Command :: "string list"
  hc_Minutes :: nat

subsection \<open>\<^verbatim>\<open>serviceclaim\_types.go\<close>\<close>

datatype ServiceClaimState = ClaimStateUnset | ClaimPending | ClaimResolved | ClaimInvalid

record ServiceClaimApplicationClusterContext =
  acc_ClusterEnvironmentName :: string
  acc_Namespace :: string

record ServiceClaimTarget =
  sct_EnvironmentTag :: string
  sct_ApplicationClusterContext :: "ServiceClaimApplicationClusterContext option"

record ServiceClaimSpec =
  scsp_ServiceClassIdentity :: "ServiceClassIdentityItem list"
  scsp_ServiceEndpointDefinitionKeys :: "string list"
  scsp_Application :: ApplicationSelector
  scsp_Target :: "ServiceClaimTarget option"
  scsp_Envs :: "Environment list"

record ObjectReference =
  ref_Name :: string
  ref_UID :: string

record ServiceClaimStatus =
  scst_State :: ServiceClaimState
  scst_ClaimID :: string
  scst_RegisteredService :: "ObjectReference option"
  scst_Conditions :: "condition list"

record ServiceClaim =
  sc_meta :: object_meta
  sc_Spec :: ServiceClaimSpec
  sc_Status :: ServiceClaimStatus

subsection \<open>\<^verbatim>\<open>registeredservice\_types.go\<close>\<close>

datatype RegisteredServiceState = RSUnset | RSAvailable | RSClaimed | RSUnknown | RSUnreachable

record ServiceEndpointDefinitionSecretRef =
  ssr_Name :: string
  ssr_Key :: string

record ServiceEndpointDefinitionItem =
  sed_Name :: string
  sed_Value :: string
  sed_ValueFromSecret :: "ServiceEndpointDefinitionSecretRef option"

record RegisteredServiceSpec =
  rssp_Constraints :: "string list option" \<comment> \<open>the Environments of the constraints\<close>
  rssp_HealthCheck :: "HealthCheckContainer option"
  rssp_SLA :: string
  rssp_ServiceClassIdentity :: "ServiceClassIdentityItem list"
  rssp_ServiceEndpointDefinition :: "ServiceEndpointDefinitionItem list"

record RegisteredService =
  rs_meta :: object_meta
  rs_Spec :: RegisteredServiceSpec
  rs_State :: RegisteredServiceState

definition GetEnvironmentConstraints :: "RegisteredServiceSpec \<Rightarrow> string list" where
  "GetEnvironmentConstraints s = (case rssp_Constraints s of Some es \<Rightarrow> es | None \<Rightarrow> [])"

subsection \<open>\<^verbatim>\<open>servicecatalog\_types.go\<close>\<close>

record ServiceCatalogService =
  scs_Name :: string
  scs_ServiceClassIdentity :: "ServiceClassIdentityItem list"
  scs_ServiceEndpointDefinitionKeys :: "string list"

record ServiceCatalogServiceByLabel =
  sbl_Service :: ServiceCatalogService
  sbl_Labels :: "LabelSelector option"

record ServiceCatalogSpec =
  cat_Services :: "ServiceCatalogService list"
  cat_ClaimedByLabels :: "ServiceCatalogServiceByLabel list"

record ServiceCatalog =
  cat_meta :: object_meta
  cat_Spec :: ServiceCatalogSpec

subsection \<open>\<^verbatim>\<open>serviceclass\_types.go\<close>\<close>

record ServiceClassResourceFieldMapping =
  rf_Name :: string
  rf_JsonPath :: string
  rf_Secret :: bool

record FieldMapping =
  fm_Constant :: "string option"
  fm_JsonPathExpr :: "string option"

record ServiceClassSecretRefFieldMapping =
  srf_Name :: string
  srf_SecretName :: FieldMapping
  srf_SecretKey :: FieldMapping

record ServiceClassResource =
  scr_APIVersion :: string
  scr_Kind :: string
  scr_ResourceFields :: "ServiceClassResourceFieldMapping list"
  scr_SecretRefFields :: "ServiceClassSecretRefFieldMapping list"

record ServiceClassSpec =
  clsp_Constraints :: "string list option" \<comment> \<open>the Environments of the constraints\<close>
  clsp_HealthCheck :: "HealthCheckContainer option"
  clsp_Resource :: ServiceClassResource
  clsp_ServiceClassIdentity :: "ServiceClassIdentityItem list"

record ServiceClass =
  cl_meta :: object_meta
  cl_Spec :: ServiceClassSpec
  cl_Conditions :: "condition list"

definition class_GetEnvironmentConstraints :: "ServiceClassSpec \<Rightarrow> string list" where
  "class_GetEnvironmentConstraints s = (case clsp_Constraints s of Some es \<Rightarrow> es | None \<Rightarrow> [])"

subsection \<open>\<^verbatim>\<open>servicebinding\_types.go\<close>\<close>

datatype ServiceBindingState = SBStateUnset | SBReady | SBMalformed

record ServiceBindingSpec =
  sbsp_ServiceEndpointDefinitionSecret :: string
  sbsp_Application :: ApplicationSelector
  sbsp_Envs :: "Environment list"

record ServiceBindingStatus =
  sbst_Conditions :: "condition list"
  sbst_State :: ServiceBindingState
  sbst_Connections :: "string list" \<comment> \<open>the Name of each BoundWorkload\<close>

record ServiceBinding =
  sb_meta :: object_meta
  sb_Spec :: ServiceBindingSpec
  sb_Status :: ServiceBindingStatus

subsection \<open>\<^verbatim>\<open>clusterenvironment\_types.go\<close>\<close>

datatype SynchronizationStrategy = SyncPull | SyncPush

definition synchronizationStrategies :: "(string \<times> SynchronizationStrategy) list" where
  "synchronizationStrategies = [(''Pull'', SyncPull), (''Push'', SyncPush)]"

definition ParseSynchronizationStrategy :: "string \<Rightarrow> err + SynchronizationStrategy" where
  "ParseSynchronizationStrategy s =
     (case map_of synchronizationStrategies s of
        Some p \<Rightarrow> Inr p
      | None \<Rightarrow> Inl (Plain (''cannot parse '' @ quoted s @ '' as SynchronizationStrategy'')))"

datatype ClusterEnvironmentState = CEStateUnset | CEOnline | CEPartial | CEOffline

record ClusterEnvironmentSpec =
  cesp_EnvironmentName :: string
  cesp_ClusterContextSecret :: string
  cesp_Description :: string
  cesp_Labels :: "string list"
  cesp_ApplicationNamespaces :: "string list"
  cesp_ServiceNamespaces :: "string list"
  cesp_ContactInfo :: string
  cesp_SynchronizationStrategy :: SynchronizationStrategy

record ClusterEnvironment =
  ce_meta :: object_meta
  ce_Spec :: ClusterEnvironmentSpec
  ce_State :: ClusterEnvironmentState
  ce_Conditions :: "condition list"

subsection \<open>Kubernetes resources the sources read or write\<close>

record Secret =
  sec_meta :: object_meta
  sec_Data :: "(string, string) gomap"
  sec_StringData :: "(string, string) gomap"

record CronJob =
  cj_meta :: object_meta
  cj_Schedule :: string
  cj_Command :: "string list"
  cj_Image :: string
  cj_ActiveDeadlineSeconds :: int
  cj_BackoffLimit :: int
  cj_RunAsUser :: int

record Job =
  job_meta :: object_meta
  job_Conditions :: "(string \<times> string) list" \<comment> \<open>type and status\<close>

record RoleBinding =
  rb_meta :: object_meta
  rb_RoleRef :: string
  rb_Subjects :: "(string \<times> string) list" \<comment> \<open>kind and name\<close>

record Deployment =
  dep_meta :: object_meta
  dep_Images :: "string list"
  dep_TemplateLabels :: "(string, string) gomap"

record ConfigMap =
  cm_meta :: object_meta
  cm_Data :: "(string, string) gomap"

subsection \<open>Unstructured workloads\<close>

text \<open>
  A workload is an \<^verbatim>\<open>unstructured.Unstructured\<close>: the paths the sources walk
  (\<^verbatim>\<open>spec.template.spec.volumes\<close>, \<^verbatim>\<open>containers\<close>, \<^verbatim>\<open>initContainers\<close>) may be absent or hold something
  that is no list, and an element of a list may be no map. \<open>u_content\<close> is everything else.
\<close>

datatype 'a nested = Absent | NotASlice | Slice "'a list"

datatype volume_source = SecretVolume string bool nat | OtherVolume string

record Volume =
  vol_Name :: string
  vol_Source :: volume_source

datatype raw_volume = MapVolume Volume | BadVolume

datatype env_source = SecretKeyRef string string | OtherSource string \<comment> \<open>secret name and key\<close>

record EnvVar =
  ev_Name :: string
  ev_Value :: string
  ev_ValueFrom :: "env_source option"

record VolumeMount =
  vm_Name :: string
  vm_MountPath :: string
  vm_ReadOnly :: bool
  vm_SubPath :: string

record Container =
  ctr_Name :: string
  ctr_Env :: "EnvVar list"
  ctr_VolumeMounts :: "VolumeMount list"
  ctr_Other :: string

datatype raw_container = MapContainer Container | BadContainer | UnconvertibleContainer

record Unstructured =
  u_APIVersion :: string
  u_Kind :: string
  u_meta :: object_meta
  u_volumes :: "raw_volume nested"
  u_containers :: "raw_container nested"
  u_initContainers :: "raw_container nested"
  u_content :: string

subsection \<open>Objects of any kind\<close>

datatype okind =
    KServiceClaim | KRegisteredService | KServiceCatalog | KServiceClass | KServiceBinding
  | KClusterEnvironment | KSecret | KCronJob | KJob | KRoleBinding | KDeployment | KConfigMap
  | KUnstructured string string

datatype obj =
    OServiceClaim ServiceClaim
  | ORegisteredService RegisteredService
  | OServiceCatalog ServiceCatalog
  | OServiceClass ServiceClass
  | OServiceBinding ServiceBinding
  | OClusterEnvironment ClusterEnvironment
  | OSecret Secret
  | OCronJob CronJob
  | OJob Job
  | ORoleBinding RoleBinding
  | ODeployment Deployment
  | OConfigMap ConfigMap
  | OUnstructured Unstructured

fun obj_kind :: "obj \<Rightarrow> okind" where
  "obj_kind (OServiceClaim _) = KServiceClaim"
| "obj_kind (ORegisteredService _) = KRegisteredService"
| "obj_kind (OServiceCatalog _) = KServiceCatalog"
| "obj_kind (OServiceClass _) = KServiceClass"
| "obj_kind (OServiceBinding _) = KServiceBinding"
| "obj_kind (OClusterEnvironment _) = KClusterEnvironment"
| "obj_kind (OSecret _) = KSecret"
| "obj_kind (OCronJob _) = KCronJob"
| "obj_kind (OJob _) = KJob"
| "obj_kind (ORoleBinding _) = KRoleBinding"
| "obj_kind (ODeployment _) = KDeployment"
| "obj_kind (OConfigMap _) = KConfigMap"
| "obj_kind (OUnstructured u) = KUnstructured (u_APIVersion u) (u_Kind u)"

fun obj_meta :: "obj \<Rightarrow> object_meta" where
  "obj_meta (OServiceClaim x) = sc_meta x"
| "obj_meta (ORegisteredService x) = rs_meta x"
| "obj_meta (OServiceCatalog x) = cat_meta x"
| "obj_meta (OServiceClass x) = cl_meta x"
| "obj_meta (OServiceBinding x) = sb_meta x"
| "obj_meta (OClusterEnvironment x) = ce_meta x"
| "obj_meta (OSecret x) = sec_meta x"
| "obj_meta (OCronJob x) = cj_meta x"
| "obj_meta (OJob x) = job_meta x"
| "obj_meta (ORoleBinding x) = rb_meta x"
| "obj_meta (ODeployment x) = dep_meta x"
| "obj_meta (OConfigMap x) = cm_meta x"
| "obj_meta (OUnstructured x) = u_meta x"

fun map_obj_meta :: "(object_meta \<Rightarrow> object_meta) \<Rightarrow> obj \<Rightarrow> obj" where
  "map_obj_meta f (OServiceClaim x) = OServiceClaim (x\<lparr>sc_meta := f (sc_meta x)\<rparr>)"
| "map_obj_meta f (ORegisteredService x) = ORegisteredService (x\<lparr>rs_meta := f (rs_meta x)\<rparr>)"
| "map_obj_meta f (OServiceCatalog x) = OServiceCatalog (x\<lparr>cat_meta := f (cat_meta x)\<rparr>)"
| "map_obj_meta f (OServiceClass x) = OServiceClass (x\<lparr>cl_meta := f (cl_meta x)\<rparr>)"
| "map_obj_meta f (OServiceBinding x) = OServiceBinding (x\<lparr>sb_meta := f (sb_meta x)\<rparr>)"
| "map_obj_meta f (OClusterEnvironment x) = OClusterEnvironment (x\<lparr>ce_meta := f (ce_meta x)\<rparr>)"
| "map_obj_meta f (OSecret x) = OSecret (x\<lparr>sec_meta := f (sec_meta x)\<rparr>)"
| "map_obj_meta f (OCronJob x) = OCronJob (x\<lparr>cj_meta := f (cj_meta x)\<rparr>)"
| "map_obj_meta f (OJob x) = OJob (x\<lparr>job_meta := f (job_meta x)\<rparr>)"
| "map_obj_meta f (ORoleBinding x) = ORoleBinding (x\<lparr>rb_meta := f (rb_meta x)\<rparr>)"
| "map_obj_meta f (ODeployment x) = ODeployment (x\<lparr>dep_meta := f (dep_meta x)\<rparr>)"
| "map_obj_meta f (OConfigMap x) = OConfigMap (x\<lparr>cm_meta := f (cm_meta x)\<rparr>)"
| "map_obj_meta f (OUnstructured x) = OUnstructured (x\<lparr>u_meta := f (u_meta x)\<rparr>)"

definition meta_key :: "object_meta \<Rightarrow> nsname" where
  "meta_key m = (om_namespace m, om_name m)"

definition obj_key :: "obj \<Rightarrow> nsname" where
  "obj_key x = meta_key (obj_meta x)"

text \<open>The status of an object is the part its status subresource owns.\<close>

fun copy_status :: "obj \<Rightarrow> obj \<Rightarrow> obj" where
  "copy_status (OServiceClaim a) (OServiceClaim b) = OServiceClaim (b\<lparr>sc_Status := sc_Status a\<rparr>)"
| "copy_status (ORegisteredService a) (ORegisteredService b) =
     ORegisteredService (b\<lparr>rs_State := rs_State a\<rparr>)"
| "copy_status (OServiceClass a) (OServiceClass b) =
     OServiceClass (b\<lparr>cl_Conditions := cl_Conditions a\<rparr>)"
| "copy_status (OServiceBinding a) (OServiceBinding b) =
     OServiceBinding (b\<lparr>sb_Status := sb_Status a\<rparr>)"
| "copy_status (OClusterEnvironment a) (OClusterEnvironment b) =
     OClusterEnvironment (b\<lparr>ce_State := ce_State a, ce_Conditions := ce_Conditions a\<rparr>)"
| "copy_status _ b = b"

fun has_status_subresource :: "okind \<Rightarrow> bool" where
  "has_status_subresource KServiceClaim = True"
| "has_status_subresource KRegisteredService = True"
| "has_status_subresource KServiceCatalog = True"
| "has_status_subresource KServiceClass = True"
| "has_status_subresource KServiceBinding = True"
| "has_status_subresource KClusterEnvironment = True"
| "has_status_subresource _ = False"

section \<open>Lemmas\<close>

lemma new_meta_simps [simp]:
  "om_name (new_meta ns n) = n" "om_namespace (new_meta ns n) = ns" "om_uid (new_meta ns n) = ''''"
  "om_resourceVersion (new_meta ns n) = ''''" "om_deletion (new_meta ns n) = False"
  "om_finalizers (new_meta ns n) = []" "om_labels (new_meta ns n) = []"
  "om_annotations (new_meta ns n) = []" "om_owners (new_meta ns n) = []"
  by (simp_all add: new_meta_def)

lemma meta_key_new [simp]: "meta_key (new_meta ns n) = (ns, n)"
  by (simp add: meta_key_def)

lemma obj_kind_map_meta [simp]: "obj_kind (map_obj_meta f x) = obj_kind x"
  by (cases x) simp_all

lemma obj_meta_map_meta [simp]: "obj_meta (map_obj_meta f x) = f (obj_meta x)"
  by (cases x) simp_all

lemma obj_kind_copy_status [simp]: "obj_kind (copy_status a b) = obj_kind b"
  by (cases a; cases b) simp_all

lemma obj_meta_copy_status [simp]: "obj_meta (copy_status a b) = obj_meta b"
  by (cases a; cases b) simp_all

lemma obj_key_copy_status [simp]: "obj_key (copy_status a b) = obj_key b"
  by (simp add: obj_key_def)

text \<open>Parsing a synchronization strategy succeeds exactly on the two names of the strategies, each
  for its own strategy, and every other text is an error.\<close>

theorem ParseSynchronizationStrategy_spec:
  "ParseSynchronizationStrategy s = Inr p \<longleftrightarrow>
     (s = ''Pull'' \<and> p = SyncPull) \<or> (s = ''Push'' \<and> p = SyncPush)"
  by (auto simp: ParseSynchronizationStrategy_def synchronizationStrategies_def split: if_splits)

end
