(* ===== verification/Kube.thy ===== *)
theory Kube
  imports Api_Types
begin

section \<open>The Kubernetes API and the controller runtime\<close>

text \<open>
  The API servers, the clock and the random identifiers are not part of the program: they are the
  record \<open>'s kube\<close>, an argument of every controller, over a state \<open>'s\<close> the program never looks
  into. A cluster is named by a number; \<open>k_self\<close> is the cluster of the client a process was started
  with. What the controllers rely on is the locale \<open>kube_store\<close> below, the documented contract of
  the API: what a read returns, what a successful write leaves behind and that a request about one
  object leaves the others alone. The helpers of \<^verbatim>\<open>controllerutil\<close>, \<^verbatim>\<open>meta\<close> and \<^verbatim>\<open>apierrors\<close> are
  translated from the vendored sources.
\<close>

type_synonym cluster = nat

text \<open>What an access review asks, and a rule as a rules review lists it (\<^verbatim>\<open>k8s.io/api/authorization/v1\<close>).\<close>

record ResourceAttributes =
  ra_Namespace :: string
  ra_Verb :: string
  ra_Group :: string
  ra_Version :: string
  ra_Resource :: string
  ra_Name :: string

record ResourceRule =
  rr_Verbs :: "string list"
  rr_APIGroups :: "string list"
  rr_Resources :: "string list"
  rr_ResourceNames :: "string list"

record 's kube =
  k_self :: cluster
  k_get :: "cluster \<Rightarrow> okind \<Rightarrow> nsname \<Rightarrow> ('s, err + obj) state"
  k_list :: "cluster \<Rightarrow> okind \<Rightarrow> string \<Rightarrow> (string, string) gomap \<Rightarrow> ('s, err + obj list) state"
  k_create :: "cluster \<Rightarrow> obj \<Rightarrow> ('s, err + obj) state"
  k_update :: "cluster \<Rightarrow> obj \<Rightarrow> ('s, err + obj) state"
  k_status_update :: "cluster \<Rightarrow> obj \<Rightarrow> ('s, err + obj) state"
  k_delete :: "cluster \<Rightarrow> okind \<Rightarrow> nsname \<Rightarrow> ('s, err option) state"
  k_delete_all :: "cluster \<Rightarrow> okind \<Rightarrow> string \<Rightarrow> ('s, err option) state"
  k_now :: "('s, nat) state"
  k_uuid :: "('s, string) state"
  k_rest_config :: "string \<Rightarrow> err + string" \<comment> \<open>a kubeconfig to a client configuration\<close>
  k_new_client :: "string \<Rightarrow> err + cluster" \<comment> \<open>the cluster a configuration leads to\<close>
  k_server_version :: "cluster \<Rightarrow> ('s, err + string) state"
  k_access :: "cluster \<Rightarrow> ResourceAttributes \<Rightarrow> ('s, err + bool) state"
  k_rules :: "cluster \<Rightarrow> string \<Rightarrow> ('s, err + ResourceRule list) state"
  k_in_cluster :: "err option" \<comment> \<open>why the in-cluster configuration cannot be used, if so\<close>
  k_range :: "string list \<Rightarrow> string list" \<comment> \<open>the order in which a map is iterated\<close>

subsection \<open>Typed requests\<close>

definition decode_err :: err where
  "decode_err = Plain ''unexpected object kind''"

definition get_claim :: "'s kube \<Rightarrow> cluster \<Rightarrow> nsname \<Rightarrow> ('s, err + ServiceClaim) state" where
  "get_claim api c n = do {
     r \<leftarrow> k_get api c KServiceClaim n;
     ret (case r of Inl e \<Rightarrow> Inl e | Inr (OServiceClaim x) \<Rightarrow> Inr x | Inr _ \<Rightarrow> Inl decode_err) }"

definition get_service :: "'s kube \<Rightarrow> cluster \<Rightarrow> nsname \<Rightarrow> ('s, err + RegisteredService) state" where
  "get_service api c n = do {
     r \<leftarrow> k_get api c KRegisteredService n;
     ret (case r of Inl e \<Rightarrow> Inl e | Inr (ORegisteredService x) \<Rightarrow> Inr x | Inr _ \<Rightarrow> Inl decode_err) }"

definition get_catalog :: "'s kube \<Rightarrow> cluster \<Rightarrow> nsname \<Rightarrow> ('s, err + ServiceCatalog) state" where
  "get_catalog api c n = do {
     r \<leftarrow> k_get api c KServiceCatalog n;
     ret (case r of Inl e \<Rightarrow> Inl e | Inr (OServiceCatalog x) \<Rightarrow> Inr x | Inr _ \<Rightarrow> Inl decode_err) }"

definition get_class :: "'s kube \<Rightarrow> cluster \<Rightarrow> nsname \<Rightarrow> ('s, err + ServiceClass) state" where
  "get_class api c n = do {
     r \<leftarrow> k_get api c KServiceClass n;
     ret (case r of Inl e \<Rightarrow> Inl e | Inr (OServiceClass x) \<Rightarrow> Inr x | Inr _ \<Rightarrow> Inl decode_err) }"

definition get_binding :: "'s kube \<Rightarrow> cluster \<Rightarrow> nsname \<Rightarrow> ('s, err + ServiceBinding) state" where
  "get_binding api c n = do {
     r \<leftarrow> k_get api c KServiceBinding n;
     ret (case r of Inl e \<Rightarrow> Inl e | Inr (OServiceBinding x) \<Rightarrow> Inr x | Inr _ \<Rightarrow> Inl decode_err) }"

definition get_env :: "'s kube \<Rightarrow> cluster \<Rightarrow> nsname \<Rightarrow> ('s, err + ClusterEnvironment) state" where
  "get_env api c n = do {
     r \<leftarrow> k_get api c KClusterEnvironment n;
     ret (case r of Inl e \<Rightarrow> Inl e | Inr (OClusterEnvironment x) \<Rightarrow> Inr x | Inr _ \<Rightarrow> Inl decode_err) }"

definition get_secret :: "'s kube \<Rightarrow> cluster \<Rightarrow> nsname \<Rightarrow> ('s, err + Secret) state" where
  "get_secret api c n = do {
     r \<leftarrow> k_get api c KSecret n;
     ret (case r of Inl e \<Rightarrow> Inl e | Inr (OSecret x) \<Rightarrow> Inr x | Inr _ \<Rightarrow> Inl decode_err) }"

definition get_cronjob :: "'s kube \<Rightarrow> cluster \<Rightarrow> nsname \<Rightarrow> ('s, err + CronJob) state" where
  "get_cronjob api c n = do {
     r \<leftarrow> k_get api c KCronJob n;
     ret (case r of Inl e \<Rightarrow> Inl e | Inr (OCronJob x) \<Rightarrow> Inr x | Inr _ \<Rightarrow> Inl decode_err) }"

definition get_deployment :: "'s kube \<Rightarrow> cluster \<Rightarrow> nsname \<Rightarrow> ('s, err + Deployment) state" where
  "get_deployment api c n = do {
     r \<leftarrow> k_get api c KDeployment n;
     ret (case r of Inl e \<Rightarrow> Inl e | Inr (ODeployment x) \<Rightarrow> Inr x | Inr _ \<Rightarrow> Inl decode_err) }"

definition get_unstructured ::
  "'s kube \<Rightarrow> cluster \<Rightarrow> string \<Rightarrow> string \<Rightarrow> nsname \<Rightarrow> ('s, err + Unstructured) state" where
  "get_unstructured api c av k n = do {
     r \<leftarrow> k_get api c (KUnstructured av k) n;
     ret (case r of Inl e \<Rightarrow> Inl e | Inr (OUnstructured x) \<Rightarrow> Inr x | Inr _ \<Rightarrow> Inl decode_err) }"

text \<open>A list request decodes the items of its own kind.\<close>

definition claims_of :: "obj list \<Rightarrow> ServiceClaim list" where
  "claims_of = List.map_filter (\<lambda>x. case x of OServiceClaim y \<Rightarrow> Some y | _ \<Rightarrow> None)"
definition services_of :: "obj list \<Rightarrow> RegisteredService list" where
  "services_of = List.map_filter (\<lambda>x. case x of ORegisteredService y \<Rightarrow> Some y | _ \<Rightarrow> None)"
definition catalogs_of :: "obj list \<Rightarrow> ServiceCatalog list" where
  "catalogs_of = List.map_filter (\<lambda>x. case x of OServiceCatalog y \<Rightarrow> Some y | _ \<Rightarrow> None)"
definition classes_of :: "obj list \<Rightarrow> ServiceClass list" where
  "classes_of = List.map_filter (\<lambda>x. case x of OServiceClass y \<Rightarrow> Some y | _ \<Rightarrow> None)"
definition envs_of :: "obj list \<Rightarrow> ClusterEnvironment list" where
  "envs_of = List.map_filter (\<lambda>x. case x of OClusterEnvironment y \<Rightarrow> Some y | _ \<Rightarrow> None)"
definition cronjobs_of :: "obj list \<Rightarrow> CronJob list" where
  "cronjobs_of = List.map_filter (\<lambda>x. case x of OCronJob y \<Rightarrow> Some y | _ \<Rightarrow> None)"
definition jobs_of :: "obj list \<Rightarrow> Job list" where
  "jobs_of = List.map_filter (\<lambda>x. case x of OJob y \<Rightarrow> Some y | _ \<Rightarrow> None)"
definition rolebindings_of :: "obj list \<Rightarrow> RoleBinding list" where
  "rolebindings_of = List.map_filter (\<lambda>x. case x of ORoleBinding y \<Rightarrow> Some y | _ \<Rightarrow> None)"
definition unstructured_of :: "obj list \<Rightarrow> Unstructured list" where
  "unstructured_of = List.map_filter (\<lambda>x. case x of OUnstructured y \<Rightarrow> Some y | _ \<Rightarrow> None)"

definition map_items :: "(obj list \<Rightarrow> 'a list) \<Rightarrow> err + obj list \<Rightarrow> err + 'a list" where
  "map_items f r = (case r of Inl e \<Rightarrow> Inl e | Inr xs \<Rightarrow> Inr (f xs))"

text \<open>An error of a write as the value \<^verbatim>\<open>err\<close> the callers test.\<close>

definition err_of :: "err + 'a \<Rightarrow> err option" where
  "err_of r = (case r of Inl e \<Rightarrow> Some e | Inr _ \<Rightarrow> None)"

subsection \<open>\<^verbatim>\<open>controllerutil\<close>\<close>

datatype OperationResult = OperationResultNone | OperationResultCreated | OperationResultUpdated

definition mutate :: "(obj \<Rightarrow> err + obj) \<Rightarrow> nsname \<Rightarrow> obj \<Rightarrow> err + obj" where
  "mutate f key x =
     (case f x of
        Inl e \<Rightarrow> Inl e
      | Inr y \<Rightarrow> if obj_key y \<noteq> key
                 then Inl (Plain ''MutateFn cannot mutate object name and/or object namespace'')
                 else Inr y)"

text \<open>
  \<^verbatim>\<open>CreateOrUpdate\<close> works on a pointer: the second component of its result is the object the
  pointer holds afterwards. A Get that succeeds replaces it, one that fails leaves it.
\<close>

definition CreateOrUpdate ::
  "'s kube \<Rightarrow> cluster \<Rightarrow> obj \<Rightarrow> (obj \<Rightarrow> err + obj) \<Rightarrow> ('s, (err + OperationResult) \<times> obj) state" where
  "CreateOrUpdate api c x f = do {
     let key = obj_key x;
     g \<leftarrow> k_get api c (obj_kind x) key;
     case g of
       Inl e \<Rightarrow>
         if \<not> IsNotFound e then ret (Inl e, x)
         else (case mutate f key x of
             Inl e' \<Rightarrow> ret (Inl e', x)
           | Inr y \<Rightarrow> do {
               r \<leftarrow> k_create api c y;
               ret (case r of Inl e' \<Rightarrow> (Inl e', y) | Inr z \<Rightarrow> (Inr OperationResultCreated, z)) })
     | Inr existing \<Rightarrow>
         (case mutate f key existing of
             Inl e' \<Rightarrow> ret (Inl e', existing)
           | Inr y \<Rightarrow>
               if existing = y then ret (Inr OperationResultNone, y)
               else do {
                 r \<leftarrow> k_update api c y;
                 ret (case r of Inl e' \<Rightarrow> (Inl e', y) | Inr z \<Rightarrow> (Inr OperationResultUpdated, z)) })
   }"

definition ContainsFinalizer :: "object_meta \<Rightarrow> string \<Rightarrow> bool" where
  "ContainsFinalizer m f = (f \<in> set (om_finalizers m))"

definition AddFinalizer :: "object_meta \<Rightarrow> string \<Rightarrow> bool \<times> object_meta" where
  "AddFinalizer m f =
     (if f \<in> set (om_finalizers m) then (False, m)
      else (True, m\<lparr>om_finalizers := om_finalizers m @ [f]\<rparr>))"

fun remove_finalizers :: "string \<Rightarrow> string list \<Rightarrow> string list" where
  "remove_finalizers f [] = []"
| "remove_finalizers f (x # xs) =
     (if x = f then remove_finalizers f xs else x # remove_finalizers f xs)"

definition RemoveFinalizer :: "object_meta \<Rightarrow> string \<Rightarrow> bool \<times> object_meta" where
  "RemoveFinalizer m f =
     (f \<in> set (om_finalizers m), m\<lparr>om_finalizers := remove_finalizers f (om_finalizers m)\<rparr>)"

text \<open>\<^verbatim>\<open>schema.ParseGroupVersion\<close>: the group before the only slash; more than one slash is an error.\<close>

definition api_group :: "string \<Rightarrow> string option" where
  "api_group gv =
     (if gv = '''' \<or> gv = ''/'' then Some ''''
      else case count_list gv (CHR ''/'') of
          0 \<Rightarrow> Some ''''
        | Suc 0 \<Rightarrow> Some (takeWhile (\<lambda>ch. ch \<noteq> CHR ''/'') gv)
        | _ \<Rightarrow> None)"

definition referSameObject :: "owner_ref \<Rightarrow> owner_ref \<Rightarrow> bool" where
  "referSameObject a b =
     (case (api_group (or_apiVersion a), api_group (or_apiVersion b)) of
        (Some ga, Some gb) \<Rightarrow> ga = gb \<and> or_kind a = or_kind b \<and> or_name a = or_name b
      | _ \<Rightarrow> False)"

fun upsert_owner :: "owner_ref \<Rightarrow> owner_ref list \<Rightarrow> owner_ref list" where
  "upsert_owner r [] = [r]"
| "upsert_owner r (x # xs) = (if referSameObject x r then r # xs else x # upsert_owner r xs)"

definition validateOwner :: "object_meta \<Rightarrow> object_meta \<Rightarrow> err option" where
  "validateOwner owner object =
     (if om_namespace owner \<noteq> '''' then
        if om_namespace object = '''' then
          Some (Plain ''cluster-scoped resource must not have a namespace-scoped owner'')
        else if om_namespace owner \<noteq> om_namespace object then
          Some (Plain ''cross-namespace owner references are disallowed'')
        else None
      else None)"

definition SetControllerReference ::
  "string \<times> string \<Rightarrow> object_meta \<Rightarrow> object_meta \<Rightarrow> err + object_meta" where
  "SetControllerReference gvk owner controlled =
     (case validateOwner owner controlled of
        Some e \<Rightarrow> Inl e
      | None \<Rightarrow>
          let r = \<lparr>or_apiVersion = fst gvk, or_kind = snd gvk, or_name = om_name owner,
                   or_uid = om_uid owner, or_controller = True\<rparr>
          in case find or_controller (om_owners controlled) of
               Some existing \<Rightarrow>
                 if \<not> referSameObject existing r then Inl (Plain ''already owned'')
                 else Inr (controlled\<lparr>om_owners := upsert_owner r (om_owners controlled)\<rparr>)
             | None \<Rightarrow> Inr (controlled\<lparr>om_owners := upsert_owner r (om_owners controlled)\<rparr>))"

definition SetOwnerReference ::
  "string \<times> string \<Rightarrow> object_meta \<Rightarrow> object_meta \<Rightarrow> err + object_meta" where
  "SetOwnerReference gvk owner controlled =
     (case validateOwner owner controlled of
        Some e \<Rightarrow> Inl e
      | None \<Rightarrow>
          let r = \<lparr>or_apiVersion = fst gvk, or_kind = snd gvk, or_name = om_name owner,
                   or_uid = om_uid owner, or_controller = False\<rparr>
          in Inr (controlled\<lparr>om_owners := upsert_owner r (om_owners controlled)\<rparr>))"

subsection \<open>\<^verbatim>\<open>meta.SetStatusCondition\<close>\<close>

fun SetStatusCondition :: "nat \<Rightarrow> condition \<Rightarrow> condition list \<Rightarrow> condition list" where
  "SetStatusCondition now new [] =
     [if co_lastTransitionTime new = 0 then new\<lparr>co_lastTransitionTime := now\<rparr> else new]"
| "SetStatusCondition now new (c # cs) =
     (if co_type c = co_type new then
        let c1 = (if co_status c \<noteq> co_status new
                  then c\<lparr>co_status := co_status new, co_lastTransitionTime :=
                     (if co_lastTransitionTime new \<noteq> 0 then co_lastTransitionTime new else now)\<rparr>
                  else c)
        in c1\<lparr>co_reason := co_reason new, co_message := co_message new,
              co_observedGeneration := co_observedGeneration new\<rparr> # cs
      else c # SetStatusCondition now new cs)"

subsection \<open>The contract of the API server\<close>

text \<open>
  \<open>objs s c k n\<close> is the object stored in cluster \<open>c\<close> under a kind, a namespace and a name.
  \<open>written old v x\<close> is what a successful update of \<open>old\<close> by \<open>x\<close> leaves: the version \<open>v\<close>, the
  write-only string data of a secret merged into its data, a status subresource untouched.
\<close>

definition set_version :: "string \<Rightarrow> obj \<Rightarrow> obj" where
  "set_version v x = map_obj_meta (\<lambda>m. m\<lparr>om_resourceVersion := v\<rparr>) x"

fun merge_string_data :: "obj \<Rightarrow> obj" where
  "merge_string_data (OSecret s) =
     OSecret (s\<lparr>sec_Data := fold (\<lambda>p. gm_put (fst p) (snd p)) (sec_StringData s) (sec_Data s),
                sec_StringData := []\<rparr>)"
| "merge_string_data x = x"

fun labels_match :: "(string, string) gomap \<Rightarrow> object_meta \<Rightarrow> bool" where
  "labels_match sel m = (\<forall>p\<in>set sel. gm_get (om_labels m) (fst p) = Some (snd p))"

text \<open>What the clusters store, by cluster, kind and key.\<close>

type_synonym objects = "cluster \<Rightarrow> okind \<Rightarrow> nsname \<Rightarrow> obj option"

definition same_but :: "(cluster \<times> okind \<times> nsname) set \<Rightarrow> objects \<Rightarrow> objects \<Rightarrow> bool" where
  "same_but K f g = (\<forall>c k n. (c, k, n) \<notin> K \<longrightarrow> g c k n = f c k n)"

definition populated :: "string \<Rightarrow> string \<Rightarrow> obj \<Rightarrow> obj" where
  "populated u v x =
     map_obj_meta (\<lambda>m. m\<lparr>om_uid := u, om_resourceVersion := v, om_deletion := False\<rparr>) x"

text \<open>The identifier and the deletion mark of a stored object are the server's.\<close>

definition keep_server_fields :: "obj \<Rightarrow> obj \<Rightarrow> obj" where
  "keep_server_fields old x =
     map_obj_meta (\<lambda>m. m\<lparr>om_uid := om_uid (obj_meta old), om_deletion := om_deletion (obj_meta old)\<rparr>) x"

definition written :: "obj \<Rightarrow> string \<Rightarrow> obj \<Rightarrow> obj" where
  "written old v x =
     set_version v (keep_server_fields old (merge_string_data
       (if has_status_subresource (obj_kind x) then copy_status old x else x)))"

definition modifies :: "('s \<Rightarrow> cluster \<Rightarrow> okind \<Rightarrow> nsname \<Rightarrow> obj option) \<Rightarrow>
    (cluster \<times> okind \<times> nsname) set \<Rightarrow> ('s, 'a) state \<Rightarrow> bool" where
  "modifies objs K m = keeps (\<lambda>s s'. same_but K (objs s) (objs s')) m"

lemma same_but_refl [simp]: "same_but K f f"
  by (simp add: same_but_def)

lemma same_but_trans: "same_but K f g \<Longrightarrow> same_but K g h \<Longrightarrow> same_but K f h"
  by (simp add: same_but_def)

lemma same_but_mono: "same_but K f g \<Longrightarrow> K \<subseteq> L \<Longrightarrow> same_but L f g"
  unfolding same_but_def by blast

lemma modifies_ret [frame_intros]: "modifies objs K (ret x)"
  by (simp add: modifies_def keeps_ret)

lemma modifies_bind [frame_intros]:
  "modifies objs K m \<Longrightarrow> (\<And>x. modifies objs K (f x)) \<Longrightarrow> modifies objs K (State_Monad.bind m f)"
  unfolding modifies_def by (rule keeps_bind) (auto intro: same_but_trans)

lemma modifies_for_collect [frame_intros]:
  "(\<And>x. x \<in> set xs \<Longrightarrow> modifies objs K (f x)) \<Longrightarrow> modifies objs K (for_collect f xs)"
  unfolding modifies_def by (rule keeps_for_collect) (auto intro: same_but_trans)

lemma modifies_for_failing [frame_intros]:
  "(\<And>x. x \<in> set xs \<Longrightarrow> modifies objs K (f x)) \<Longrightarrow> modifies objs K (for_failing f xs)"
  unfolding modifies_def by (rule keeps_for_failing) (auto intro: same_but_trans)

lemma modifies_for_first [frame_intros]:
  "(\<And>x. x \<in> set xs \<Longrightarrow> modifies objs K (f x)) \<Longrightarrow> modifies objs K (for_first f xs)"
  unfolding modifies_def by (rule keeps_for_first) (auto intro: same_but_trans)

lemma modifies_mono: "modifies objs K m \<Longrightarrow> K \<subseteq> L \<Longrightarrow> modifies objs L m"
  unfolding modifies_def keeps_def by (auto intro: same_but_mono)

lemma modifiesI:
  "(\<And>s r s'. run_state m s = (r, s') \<Longrightarrow> same_but K (objs s) (objs s')) \<Longrightarrow> modifies objs K m"
  by (simp add: modifies_def keeps_def) (metis prod.collapse)

lemma modifies_run: "modifies objs K m \<Longrightarrow> run_state m s = (r, s') \<Longrightarrow> same_but K (objs s) (objs s')"
  unfolding modifies_def by (rule keeps_run)

lemma modifies_wp: "modifies objs K m \<Longrightarrow> wp m (\<lambda>r s'. same_but K (objs s) (objs s')) s"
  by (rule wpI) (rule modifies_run)

text \<open>A step that may write nothing leaves every object as it is.\<close>

lemma reads_only: "modifies objs {} m \<Longrightarrow> run_state m s = (r, s') \<Longrightarrow> objs s' = objs s"
  by (drule (1) modifies_run) (auto simp: same_but_def fun_eq_iff)

text \<open>Everything of some kinds, in every cluster.\<close>

definition of_kinds :: "okind set \<Rightarrow> (cluster \<times> okind \<times> nsname) set" where
  "of_kinds A = {(c, k, n). k \<in> A}"

lemma in_of_kinds [simp]: "(c, k, n) \<in> of_kinds A \<longleftrightarrow> k \<in> A"
  by (simp add: of_kinds_def)

lemma same_but_of_kinds: "same_but (of_kinds A) (objs s) (objs s') \<Longrightarrow> k \<notin> A \<Longrightarrow> objs s' c k n = objs s c k n"
  by (simp add: same_but_def)

text \<open>What a list of conditions says about one type.\<close>

definition condition_of :: "string \<Rightarrow> condition list \<Rightarrow> condition option" where
  "condition_of ty cs = find (\<lambda>c. co_type c = ty) cs"

lemma condition_of_set_same:
  "\<exists>c. condition_of (co_type new) (SetStatusCondition now new cs) = Some c \<and> co_status c = co_status new \<and>
     co_reason c = co_reason new \<and> co_message c = co_message new"
  by (induction now new cs rule: SetStatusCondition.induct) (auto simp: condition_of_def Let_def)

lemma condition_of_set_other:
  "ty \<noteq> co_type new \<Longrightarrow> condition_of ty (SetStatusCondition now new cs) = condition_of ty cs"
  by (induction now new cs rule: SetStatusCondition.induct) (auto simp: condition_of_def Let_def)

lemma obj_key_map_meta:
  "(\<And>m. meta_key (f m) = meta_key m) \<Longrightarrow> obj_key (map_obj_meta f x) = obj_key x"
  by (simp add: obj_key_def)

lemma merge_string_data_same [simp]:
  "obj_kind (merge_string_data x) = obj_kind x" "obj_meta (merge_string_data x) = obj_meta x"
  "obj_key (merge_string_data x) = obj_key x"
  by (cases x; simp add: obj_key_def)+

lemma populated_same [simp]:
  "obj_kind (populated u v x) = obj_kind x" "obj_key (populated u v x) = obj_key x"
  "om_resourceVersion (obj_meta (populated u v x)) = v"
  by (simp_all add: populated_def obj_key_def meta_key_def)

lemma set_version_same [simp]:
  "obj_kind (set_version v x) = obj_kind x" "obj_key (set_version v x) = obj_key x"
  by (simp_all add: set_version_def obj_key_def meta_key_def)

lemma written_same [simp]:
  "obj_kind (written old v x) = obj_kind x" "obj_key (written old v x) = obj_key x"
  by (simp_all add: written_def keep_server_fields_def obj_key_def meta_key_def set_version_def)

text \<open>
  A function given to \<^verbatim>\<open>CreateOrUpdate\<close> keeps the kind of its object; it mutates to \<open>Q\<close> if in
  addition its results satisfy \<open>Q\<close> and have the finalizers they had. \<open>Q\<close> is stable if what the server
  adds to an object it stores cannot destroy it.
\<close>

definition keeps_kind :: "(obj \<Rightarrow> err + obj) \<Rightarrow> bool" where
  "keeps_kind f = (\<forall>w y. f w = Inr y \<longrightarrow> obj_kind y = obj_kind w)"

definition mutates_to :: "(obj \<Rightarrow> bool) \<Rightarrow> (obj \<Rightarrow> err + obj) \<Rightarrow> bool" where
  "mutates_to Q f = (\<forall>w y. f w = Inr y \<longrightarrow> obj_kind y = obj_kind w \<and> Q y \<and>
     om_finalizers (obj_meta y) = om_finalizers (obj_meta w))"

definition storage_stable :: "(obj \<Rightarrow> bool) \<Rightarrow> bool" where
  "storage_stable Q = (\<forall>y. Q y \<longrightarrow> (\<forall>u v st. Q (populated u v (copy_status st (merge_string_data y)))) \<and>
     (\<forall>old v. Q (written old v y)))"

lemma mutates_to_keeps_kind: "mutates_to Q f \<Longrightarrow> keeps_kind f"
  by (simp add: mutates_to_def keeps_kind_def)

lemma decode_err_not_found [simp]: "\<not> IsNotFound decode_err"
  by (simp add: decode_err_def)

locale kube_store =
  fixes api :: "'s kube"
    and objs :: "'s \<Rightarrow> cluster \<Rightarrow> okind \<Rightarrow> nsname \<Rightarrow> obj option"
  assumes keyed: "objs s c k n = Some x \<Longrightarrow> obj_kind x = k \<and> obj_key x = n"
    and live: "objs s c k n = Some x \<Longrightarrow> om_deletion (obj_meta x) \<Longrightarrow> om_finalizers (obj_meta x) \<noteq> []"
    and get_reads: "run_state (k_get api c k n) s = (r, s') \<Longrightarrow> objs s' = objs s"
    and get_found: "run_state (k_get api c k n) s = (Inr x, s') \<Longrightarrow> objs s c k n = Some x"
    and get_missing: "run_state (k_get api c k n) s = (Inl e, s') \<Longrightarrow> IsNotFound e \<Longrightarrow> objs s c k n = None"
    and list_reads: "run_state (k_list api c k ns sel) s = (rl, s') \<Longrightarrow> objs s' = objs s"
    and list_found: "run_state (k_list api c k ns sel) s = (Inr xs, s') \<Longrightarrow>
      distinct (map obj_key xs) \<and>
      set xs = {x. \<exists>n. objs s c k n = Some x \<and> (ns = '''' \<or> fst n = ns) \<and> labels_match sel (obj_meta x)}"
    and list_missing: "run_state (k_list api c k ns sel) s = (Inl e, s') \<Longrightarrow> IsNotFound e \<Longrightarrow> objs s c k n = None"
    and create_ok: "run_state (k_create api c x) s = (Inr y, s') \<Longrightarrow>
      objs s c (obj_kind x) (obj_key x) = None \<and> om_resourceVersion (obj_meta x) = '''' \<and>
      objs s' c (obj_kind x) (obj_key x) = Some y \<and> om_resourceVersion (obj_meta y) \<noteq> '''' \<and>
      (\<exists>u v st. y = populated u v (copy_status st (merge_string_data x)))"
    and create_others: "run_state (k_create api c x) s = (r, s') \<Longrightarrow>
      same_but {(c, obj_kind x, obj_key x)} (objs s) (objs s')"
    and create_exists: "run_state (k_create api c x) s = (Inl e, s') \<Longrightarrow> IsAlreadyExists e \<Longrightarrow>
      objs s c (obj_kind x) (obj_key x) \<noteq> None \<and> objs s' = objs s"
    and update_ok: "run_state (k_update api c x) s = (Inr y, s') \<Longrightarrow>
      \<exists>old v. objs s c (obj_kind x) (obj_key x) = Some old \<and> v \<noteq> '''' \<and>
        y = written old v x \<and>
        objs s' c (obj_kind x) (obj_key x) =
          (if om_deletion (obj_meta old) \<and> om_finalizers (obj_meta x) = [] then None else Some y)"
    and update_stale: "objs s c (obj_kind x) (obj_key x) = Some old \<Longrightarrow> om_resourceVersion (obj_meta x) \<noteq> '''' \<Longrightarrow>
      om_resourceVersion (obj_meta x) \<noteq> om_resourceVersion (obj_meta old) \<Longrightarrow>
      run_state (k_update api c x) s = (r, s') \<Longrightarrow> (\<exists>e. r = Inl e) \<and> objs s' = objs s"
    and update_failed: "run_state (k_update api c x) s = (Inl e, s') \<Longrightarrow>
      objs s' = objs s \<or> (\<exists>old v. objs s c (obj_kind x) (obj_key x) = Some old \<and>
        objs s' c (obj_kind x) (obj_key x) =
          (if om_deletion (obj_meta old) \<and> om_finalizers (obj_meta x) = [] then None
           else Some (written old v x)))"
    and update_others: "run_state (k_update api c x) s = (r, s') \<Longrightarrow>
      same_but {(c, obj_kind x, obj_key x)} (objs s) (objs s')"
    and status_ok: "run_state (k_status_update api c x) s = (Inr y, s') \<Longrightarrow>
      \<exists>old v. objs s c (obj_kind x) (obj_key x) = Some old \<and> v \<noteq> '''' \<and>
        (v = om_resourceVersion (obj_meta old) \<longrightarrow> y = old) \<and>
        y = set_version v (copy_status x old) \<and> objs s' c (obj_kind x) (obj_key x) = Some y"
    and status_stale: "objs s c (obj_kind x) (obj_key x) = Some old \<Longrightarrow> om_resourceVersion (obj_meta x) \<noteq> '''' \<Longrightarrow>
      om_resourceVersion (obj_meta x) \<noteq> om_resourceVersion (obj_meta old) \<Longrightarrow>
      run_state (k_status_update api c x) s = (r, s') \<Longrightarrow> (\<exists>e. r = Inl e) \<and> objs s' = objs s"
    and status_failed: "run_state (k_status_update api c x) s = (Inl e, s') \<Longrightarrow>
      objs s' = objs s \<or> (\<exists>old v. objs s c (obj_kind x) (obj_key x) = Some old \<and> v \<noteq> '''' \<and>
        (v = om_resourceVersion (obj_meta old) \<longrightarrow> set_version v (copy_status x old) = old) \<and>
        objs s' c (obj_kind x) (obj_key x) = Some (set_version v (copy_status x old)))"
    and status_others: "run_state (k_status_update api c x) s = (r, s') \<Longrightarrow>
      same_but {(c, obj_kind x, obj_key x)} (objs s) (objs s')"
    and delete_ok: "run_state (k_delete api c k n) s = (None, s') \<Longrightarrow>
      \<exists>old. objs s c k n = Some old \<and>
        (if om_finalizers (obj_meta old) = [] then objs s' c k n = None
         else \<exists>y. objs s' c k n = Some y \<and> om_deletion (obj_meta y))"
    and delete_missing: "run_state (k_delete api c k n) s = (Some e, s') \<Longrightarrow> IsNotFound e \<Longrightarrow>
      objs s c k n = None \<and> objs s' = objs s"
    and delete_others: "run_state (k_delete api c k n) s = (ro, s') \<Longrightarrow> same_but {(c, k, n)} (objs s) (objs s')"
    and delete_all_ok: "run_state (k_delete_all api c k ns) s = (None, s') \<Longrightarrow>
      fst n = ns \<Longrightarrow> objs s' c k n = Some y \<Longrightarrow> om_deletion (obj_meta y) \<and> om_finalizers (obj_meta y) \<noteq> []"
    and delete_all_others: "run_state (k_delete_all api c k ns) s = (ro, s') \<Longrightarrow>
      same_but {(c, k, n) | n. fst n = ns} (objs s) (objs s')"
    and now_reads: "run_state (k_now api) s = (t, s') \<Longrightarrow> objs s' = objs s"
    and uuid_reads: "run_state (k_uuid api) s = (u, s') \<Longrightarrow> objs s' = objs s"
    and version_reads: "run_state (k_server_version api c) s = (rv, s') \<Longrightarrow> objs s' = objs s"
    and access_reads: "run_state (k_access api c ra) s = (rb, s') \<Longrightarrow> objs s' = objs s"
    and rules_reads: "run_state (k_rules api c ns) s = (rr, s') \<Longrightarrow> objs s' = objs s"
begin

text \<open>The contract as rules of the calculus: one per request.\<close>

lemma wp_get [wp_rules]:
  assumes "\<And>e s'. objs s' = objs s \<Longrightarrow> (IsNotFound e \<Longrightarrow> objs s c k n = None) \<Longrightarrow> Q (Inl e) s'"
    and "\<And>x s'. objs s' = objs s \<Longrightarrow> objs s c k n = Some x \<Longrightarrow> Q (Inr x) s'"
  shows "wp (k_get api c k n) Q s"
proof (rule wpI)
  fix r s' assume r: "run_state (k_get api c k n) s = (r, s')"
  from get_reads [OF r] have rd: "objs s' = objs s" .
  show "Q r s'"
  proof (cases r)
    case (Inl e)
    with r have "IsNotFound e \<Longrightarrow> objs s c k n = None" by (simp add: get_missing)
    with rd Inl assms(1) show ?thesis by simp
  next
    case (Inr x)
    with r have "objs s c k n = Some x" by (simp add: get_found)
    with rd Inr assms(2) show ?thesis by simp
  qed
qed

lemma wp_list [wp_rules]:
  assumes "\<And>e s'. objs s' = objs s \<Longrightarrow> Q (Inl e) s'"
    and "\<And>xs s'. objs s' = objs s \<Longrightarrow> distinct (map obj_key xs) \<Longrightarrow>
      set xs = {x. \<exists>n. objs s c k n = Some x \<and> (ns = '''' \<or> fst n = ns) \<and> labels_match sel (obj_meta x)} \<Longrightarrow>
      Q (Inr xs) s'"
  shows "wp (k_list api c k ns sel) Q s"
proof (rule wpI)
  fix r s' assume r: "run_state (k_list api c k ns sel) s = (r, s')"
  from list_reads [OF r] have rd: "objs s' = objs s" .
  show "Q r s'"
  proof (cases r)
    case (Inr xs)
    from list_found [OF r [unfolded Inr]] show ?thesis unfolding Inr
      by (elim conjE) (rule assms(2) [OF rd])
  qed (simp add: rd assms(1))
qed

lemma modifies_get [frame_intros]: "modifies objs K (k_get api c k n)"
  by (rule modifiesI) (simp add: get_reads)

lemma modifies_list [frame_intros]: "modifies objs K (k_list api c k ns sel)"
  by (rule modifiesI) (simp add: list_reads)

lemma modifies_now [frame_intros]: "modifies objs K (k_now api)"
  by (rule modifiesI) (simp add: now_reads)

lemma modifies_uuid [frame_intros]: "modifies objs K (k_uuid api)"
  by (rule modifiesI) (simp add: uuid_reads)

lemma modifies_version [frame_intros]: "modifies objs K (k_server_version api c)"
  by (rule modifiesI) (simp add: version_reads)

lemma modifies_access [frame_intros]: "modifies objs K (k_access api c ra)"
  by (rule modifiesI) (simp add: access_reads)

lemma modifies_rules [frame_intros]: "modifies objs K (k_rules api c ns)"
  by (rule modifiesI) (simp add: rules_reads)

lemma modifies_create [frame_intros]:
  "(c, obj_kind x, obj_key x) \<in> K \<Longrightarrow> modifies objs K (k_create api c x)"
  by (rule modifiesI, rule same_but_mono [OF create_others]) simp_all

lemma modifies_update [frame_intros]:
  "(c, obj_kind x, obj_key x) \<in> K \<Longrightarrow> modifies objs K (k_update api c x)"
  by (rule modifiesI, rule same_but_mono [OF update_others]) simp_all

lemma modifies_status [frame_intros]:
  "(c, obj_kind x, obj_key x) \<in> K \<Longrightarrow> modifies objs K (k_status_update api c x)"
  by (rule modifiesI, rule same_but_mono [OF status_others]) simp_all

lemma modifies_delete [frame_intros]:
  "(c, k, n) \<in> K \<Longrightarrow> modifies objs K (k_delete api c k n)"
  by (rule modifiesI, rule same_but_mono [OF delete_others]) simp_all

lemma modifies_delete_all [frame_intros]:
  "{(c, k, n) | n. fst n = ns} \<subseteq> K \<Longrightarrow> modifies objs K (k_delete_all api c k ns)"
  by (rule modifiesI, rule same_but_mono [OF delete_all_others])

lemmas modifies_typed_gets [frame_intros] =
  modifies_bind [OF modifies_get modifies_ret]

lemma modifies_CreateOrUpdate [frame_intros]:
  assumes "(c, obj_kind x, obj_key x) \<in> K" and "keeps_kind f"
  shows "modifies objs K (CreateOrUpdate api c x f)"
proof (rule modifiesI)
  fix s r s' assume run: "run_state (CreateOrUpdate api c x f) s = (r, s')"
  obtain g s1 where g: "run_state (k_get api c (obj_kind x) (obj_key x)) s = (g, s1)" by fastforce
  then have s1: "objs s1 = objs s" by (rule get_reads)
  have mut: "obj_kind y = obj_kind z \<and> obj_key y = obj_key x" if "mutate f (obj_key x) z = Inr y" for z y
    using that assms(2) by (auto simp: mutate_def keeps_kind_def split: sum.splits if_splits)
  have kind: "obj_kind z = obj_kind x" if "g = Inr z" for z
    using g that get_found keyed by blast
  have step: "same_but K (objs s1) (objs s2)"
    if "obj_kind y = obj_kind x" "obj_key y = obj_key x"
      "run_state (k_create api c y) s1 = (q, s2) \<or> run_state (k_update api c y) s1 = (q, s2)" for y q s2
    using that assms(1) by (metis create_others update_others same_but_mono singletonD subsetI)
  from run g show "same_but K (objs s) (objs s')"
    unfolding CreateOrUpdate_def Let_def s1 [symmetric]
    by (auto split: sum.splits if_splits prod.splits dest!: mut simp: kind intro: step)
qed

text \<open>What a successful \<^verbatim>\<open>CreateOrUpdate\<close> has done, by its three outcomes.\<close>

lemma CreateOrUpdate_ok:
  assumes run: "run_state (CreateOrUpdate api c x f) s = ((Inr op, z), s')"
    and kinds: "keeps_kind f"
  shows "(\<exists>y u v st. objs s c (obj_kind x) (obj_key x) = None \<and> f x = Inr y \<and> obj_key y = obj_key x \<and>
      om_resourceVersion (obj_meta y) = '''' \<and> om_resourceVersion (obj_meta z) \<noteq> '''' \<and>
      z = populated u v (copy_status st (merge_string_data y)) \<and>
      objs s' c (obj_kind x) (obj_key x) = Some z) \<or>
    (\<exists>old. objs s c (obj_kind x) (obj_key x) = Some old \<and> f old = Inr old \<and> z = old \<and>
      objs s' = objs s) \<or>
    (\<exists>old y v. objs s c (obj_kind x) (obj_key x) = Some old \<and> f old = Inr y \<and> obj_key y = obj_key x \<and>
      z = written old v y \<and>
      objs s' c (obj_kind x) (obj_key x) =
        (if om_deletion (obj_meta old) \<and> om_finalizers (obj_meta y) = [] then None else Some z))"
proof -
  have kind: "obj_kind y = obj_kind w" if "f w = Inr y" for w y
    using kinds that by (simp add: keeps_kind_def)
  obtain g s1 where g: "run_state (k_get api c (obj_kind x) (obj_key x)) s = (g, s1)" by fastforce
  then have s1: "objs s1 = objs s" by (rule get_reads)
  show ?thesis
  proof (cases g)
    case (Inl e)
    from run g Inl obtain y where nf: "IsNotFound e" and y: "mutate f (obj_key x) x = Inr y"
      and c: "run_state (k_create api c y) s1 = (Inr z, s')"
      by (auto simp: CreateOrUpdate_def Let_def split: if_splits sum.splits prod.splits)
    from y have fy: "f x = Inr y" "obj_key y = obj_key x"
      by (auto simp: mutate_def split: sum.splits if_splits)
    with create_ok [OF c] kind [OF fy(1)] s1 show ?thesis by metis
  next
    case (Inr old)
    from get_found [OF g [unfolded Inr]] have old: "objs s c (obj_kind x) (obj_key x) = Some old" .
    from run g Inr obtain y where y: "mutate f (obj_key x) old = Inr y"
      and u: "old = y \<and> z = y \<and> s' = s1 \<or> run_state (k_update api c y) s1 = (Inr z, s')"
      by (auto simp: CreateOrUpdate_def Let_def split: if_splits sum.splits prod.splits)
    from y have fy: "f old = Inr y" "obj_key y = obj_key x"
      by (auto simp: mutate_def split: sum.splits if_splits)
    from keyed [OF old] kind [OF fy(1)] have ky: "obj_kind y = obj_kind x" by simp
    from u show ?thesis
    proof
      assume "old = y \<and> z = y \<and> s' = s1"
      with old fy s1 show ?thesis by blast
    next
      assume up: "run_state (k_update api c y) s1 = (Inr z, s')"
      from update_ok [OF up] obtain v where "z = written old v y"
        "objs s' c (obj_kind x) (obj_key x) =
          (if om_deletion (obj_meta old) \<and> om_finalizers (obj_meta y) = [] then None else Some z)"
        using old s1 ky fy by auto
      with old fy show ?thesis by blast
    qed
  qed
qed

lemma CreateOrUpdate_stores:
  assumes run: "run_state (CreateOrUpdate api c x f) s = ((Inr op, z), s')"
    and mut: "mutates_to Q f" and stable: "storage_stable Q"
  shows "objs s' c (obj_kind x) (obj_key x) = Some z \<and> Q z"
proof -
  have f: "Q y \<and> om_finalizers (obj_meta y) = om_finalizers (obj_meta w)" if "f w = Inr y" for w y
    using mut that by (simp add: mutates_to_def)
  have create: "Q (populated u v (copy_status st (merge_string_data y)))"
    and update: "Q (written old v y)" if "Q y" for y u v st old
    using stable that by (simp_all add: storage_stable_def)
  from CreateOrUpdate_ok [OF run mutates_to_keeps_kind [OF mut]] show ?thesis
  proof (elim disjE exE conjE)
    fix y u v st assume "f x = Inr y" "z = populated u v (copy_status st (merge_string_data y))"
      "objs s' c (obj_kind x) (obj_key x) = Some z"
    with f create show ?thesis by blast
  next
    fix old assume "objs s c (obj_kind x) (obj_key x) = Some old" "f old = Inr old" "z = old" "objs s' = objs s"
    with f show ?thesis by metis
  next
    fix old y v assume old: "objs s c (obj_kind x) (obj_key x) = Some old" and y: "f old = Inr y"
      and z: "z = written old v y" and s': "objs s' c (obj_kind x) (obj_key x) =
        (if om_deletion (obj_meta old) \<and> om_finalizers (obj_meta y) = [] then None else Some z)"
    from f [OF y] live [OF old] have "\<not> (om_deletion (obj_meta old) \<and> om_finalizers (obj_meta y) = [])" by auto
    with s' have "objs s' c (obj_kind x) (obj_key x) = Some z" by presburger
    moreover from f [OF y] update have "Q z" unfolding z by blast
    ultimately show ?thesis ..
  qed
qed

text \<open>The typed reads.\<close>

lemma modifies_get_service [frame_intros]: "modifies objs K (get_service api c n)"
  unfolding get_service_def by (intro frame_intros)

lemma get_service_found:
  assumes "run_state (get_service api c n) s = (Inr x, s')"
  shows "objs s c KRegisteredService n = Some (ORegisteredService x)"
proof -
  from assms have "run_state (k_get api c KRegisteredService n) s = (Inr (ORegisteredService x), s')"
    by (auto simp: get_service_def split: prod.splits sum.splits obj.splits)
  then show ?thesis by (rule get_found)
qed

lemma get_service_missing:
  assumes "run_state (get_service api c n) s = (Inl e, s')" and "IsNotFound e"
  shows "objs s c KRegisteredService n = None"
proof -
  from assms have "run_state (k_get api c KRegisteredService n) s = (Inl e, s')"
    by (auto simp: get_service_def split: prod.splits sum.splits obj.splits)
  then show ?thesis using assms(2) by (rule get_missing)
qed

lemma modifies_get_claim [frame_intros]: "modifies objs K (get_claim api c n)"
  unfolding get_claim_def by (intro frame_intros)

lemma get_claim_found:
  assumes "run_state (get_claim api c n) s = (Inr x, s')"
  shows "objs s c KServiceClaim n = Some (OServiceClaim x)"
proof -
  from assms have "run_state (k_get api c KServiceClaim n) s = (Inr (OServiceClaim x), s')"
    by (auto simp: get_claim_def split: prod.splits sum.splits obj.splits)
  then show ?thesis by (rule get_found)
qed

lemma get_claim_missing:
  assumes "run_state (get_claim api c n) s = (Inl e, s')" and "IsNotFound e"
  shows "objs s c KServiceClaim n = None"
proof -
  from assms have "run_state (k_get api c KServiceClaim n) s = (Inl e, s')"
    by (auto simp: get_claim_def split: prod.splits sum.splits obj.splits)
  then show ?thesis using assms(2) by (rule get_missing)
qed

lemma modifies_get_catalog [frame_intros]: "modifies objs K (get_catalog api c n)"
  unfolding get_catalog_def by (intro frame_intros)

lemma get_catalog_found:
  assumes "run_state (get_catalog api c n) s = (Inr x, s')"
  shows "objs s c KServiceCatalog n = Some (OServiceCatalog x)"
proof -
  from assms have "run_state (k_get api c KServiceCatalog n) s = (Inr (OServiceCatalog x), s')"
    by (auto simp: get_catalog_def split: prod.splits sum.splits obj.splits)
  then show ?thesis by (rule get_found)
qed

lemma get_catalog_missing:
  assumes "run_state (get_catalog api c n) s = (Inl e, s')" and "IsNotFound e"
  shows "objs s c KServiceCatalog n = None"
proof -
  from assms have "run_state (k_get api c KServiceCatalog n) s = (Inl e, s')"
    by (auto simp: get_catalog_def split: prod.splits sum.splits obj.splits)
  then show ?thesis using assms(2) by (rule get_missing)
qed

lemma modifies_get_class [frame_intros]: "modifies objs K (get_class api c n)"
  unfolding get_class_def by (intro frame_intros)

lemma get_class_found:
  assumes "run_state (get_class api c n) s = (Inr x, s')"
  shows "objs s c KServiceClass n = Some (OServiceClass x)"
proof -
  from assms have "run_state (k_get api c KServiceClass n) s = (Inr (OServiceClass x), s')"
    by (auto simp: get_class_def split: prod.splits sum.splits obj.splits)
  then show ?thesis by (rule get_found)
qed

lemma get_class_missing:
  assumes "run_state (get_class api c n) s = (Inl e, s')" and "IsNotFound e"
  shows "objs s c KServiceClass n = None"
proof -
  from assms have "run_state (k_get api c KServiceClass n) s = (Inl e, s')"
    by (auto simp: get_class_def split: prod.splits sum.splits obj.splits)
  then show ?thesis using assms(2) by (rule get_missing)
qed

lemma modifies_get_binding [frame_intros]: "modifies objs K (get_binding api c n)"
  unfolding get_binding_def by (intro frame_intros)

lemma get_binding_found:
  assumes "run_state (get_binding api c n) s = (Inr x, s')"
  shows "objs s c KServiceBinding n = Some (OServiceBinding x)"
proof -
  from assms have "run_state (k_get api c KServiceBinding n) s = (Inr (OServiceBinding x), s')"
    by (auto simp: get_binding_def split: prod.splits sum.splits obj.splits)
  then show ?thesis by (rule get_found)
qed

lemma get_binding_missing:
  assumes "run_state (get_binding api c n) s = (Inl e, s')" and "IsNotFound e"
  shows "objs s c KServiceBinding n = None"
proof -
  from assms have "run_state (k_get api c KServiceBinding n) s = (Inl e, s')"
    by (auto simp: get_binding_def split: prod.splits sum.splits obj.splits)
  then show ?thesis using assms(2) by (rule get_missing)
qed

lemma modifies_get_env [frame_intros]: "modifies objs K (get_env api c n)"
  unfolding get_env_def by (intro frame_intros)

lemma get_env_found:
  assumes "run_state (get_env api c n) s = (Inr x, s')"
  shows "objs s c KClusterEnvironment n = Some (OClusterEnvironment x)"
proof -
  from assms have "run_state (k_get api c KClusterEnvironment n) s = (Inr (OClusterEnvironment x), s')"
    by (auto simp: get_env_def split: prod.splits sum.splits obj.splits)
  then show ?thesis by (rule get_found)
qed

lemma get_env_missing:
  assumes "run_state (get_env api c n) s = (Inl e, s')" and "IsNotFound e"
  shows "objs s c KClusterEnvironment n = None"
proof -
  from assms have "run_state (k_get api c KClusterEnvironment n) s = (Inl e, s')"
    by (auto simp: get_env_def split: prod.splits sum.splits obj.splits)
  then show ?thesis using assms(2) by (rule get_missing)
qed

lemma modifies_get_secret [frame_intros]: "modifies objs K (get_secret api c n)"
  unfolding get_secret_def by (intro frame_intros)

lemma get_secret_found:
  assumes "run_state (get_secret api c n) s = (Inr x, s')"
  shows "objs s c KSecret n = Some (OSecret x)"
proof -
  from assms have "run_state (k_get api c KSecret n) s = (Inr (OSecret x), s')"
    by (auto simp: get_secret_def split: prod.splits sum.splits obj.splits)
  then show ?thesis by (rule get_found)
qed

lemma get_secret_missing:
  assumes "run_state (get_secret api c n) s = (Inl e, s')" and "IsNotFound e"
  shows "objs s c KSecret n = None"
proof -
  from assms have "run_state (k_get api c KSecret n) s = (Inl e, s')"
    by (auto simp: get_secret_def split: prod.splits sum.splits obj.splits)
  then show ?thesis using assms(2) by (rule get_missing)
qed

lemma modifies_get_cronjob [frame_intros]: "modifies objs K (get_cronjob api c n)"
  unfolding get_cronjob_def by (intro frame_intros)

lemma get_cronjob_found:
  assumes "run_state (get_cronjob api c n) s = (Inr x, s')"
  shows "objs s c KCronJob n = Some (OCronJob x)"
proof -
  from assms have "run_state (k_get api c KCronJob n) s = (Inr (OCronJob x), s')"
    by (auto simp: get_cronjob_def split: prod.splits sum.splits obj.splits)
  then show ?thesis by (rule get_found)
qed

lemma get_cronjob_missing:
  assumes "run_state (get_cronjob api c n) s = (Inl e, s')" and "IsNotFound e"
  shows "objs s c KCronJob n = None"
proof -
  from assms have "run_state (k_get api c KCronJob n) s = (Inl e, s')"
    by (auto simp: get_cronjob_def split: prod.splits sum.splits obj.splits)
  then show ?thesis using assms(2) by (rule get_missing)
qed

lemma modifies_get_deployment [frame_intros]: "modifies objs K (get_deployment api c n)"
  unfolding get_deployment_def by (intro frame_intros)

lemma get_deployment_found:
  assumes "run_state (get_deployment api c n) s = (Inr x, s')"
  shows "objs s c KDeployment n = Some (ODeployment x)"
proof -
  from assms have "run_state (k_get api c KDeployment n) s = (Inr (ODeployment x), s')"
    by (auto simp: get_deployment_def split: prod.splits sum.splits obj.splits)
  then show ?thesis by (rule get_found)
qed

lemma get_deployment_missing:
  assumes "run_state (get_deployment api c n) s = (Inl e, s')" and "IsNotFound e"
  shows "objs s c KDeployment n = None"
proof -
  from assms have "run_state (k_get api c KDeployment n) s = (Inl e, s')"
    by (auto simp: get_deployment_def split: prod.splits sum.splits obj.splits)
  then show ?thesis using assms(2) by (rule get_missing)
qed

lemma modifies_get_unstructured [frame_intros]: "modifies objs K (get_unstructured api c av kd n)"
  unfolding get_unstructured_def by (intro frame_intros)

end

subsection \<open>The items of a listing\<close>

lemma claims_of_in: "x \<in> set (claims_of xs) \<longleftrightarrow> OServiceClaim x \<in> set xs"
  by (induction xs) (auto simp: claims_of_def List.map_filter_simps split: obj.splits)

lemma services_of_in: "x \<in> set (services_of xs) \<longleftrightarrow> ORegisteredService x \<in> set xs"
  by (induction xs) (auto simp: services_of_def List.map_filter_simps split: obj.splits)

lemma distinct_service_keys:
  "distinct (map obj_key xs) \<Longrightarrow> distinct (map (\<lambda>rs. meta_key (rs_meta rs)) (services_of xs))"
proof (induction xs)
  case (Cons x xs)
  have "obj_key x \<notin> (\<lambda>rs. meta_key (rs_meta rs)) ` set (services_of xs)"
    using Cons.prems by (auto simp: services_of_in obj_key_def image_iff) (metis image_eqI obj_meta.simps(2))
  with Cons show ?case by (cases x) (auto simp: services_of_def List.map_filter_def obj_key_def)
qed (simp add: services_of_def)

lemma catalogs_of_in: "x \<in> set (catalogs_of xs) \<longleftrightarrow> OServiceCatalog x \<in> set xs"
  by (induction xs) (auto simp: catalogs_of_def List.map_filter_simps split: obj.splits)

lemma classes_of_in: "x \<in> set (classes_of xs) \<longleftrightarrow> OServiceClass x \<in> set xs"
  by (induction xs) (auto simp: classes_of_def List.map_filter_simps split: obj.splits)

lemma envs_of_in: "x \<in> set (envs_of xs) \<longleftrightarrow> OClusterEnvironment x \<in> set xs"
  by (induction xs) (auto simp: envs_of_def List.map_filter_simps split: obj.splits)

lemma unstructured_of_in: "x \<in> set (unstructured_of xs) \<longleftrightarrow> OUnstructured x \<in> set xs"
  by (induction xs) (auto simp: unstructured_of_def List.map_filter_simps split: obj.splits)

context kube_store
begin

lemma list_kind:
  assumes "run_state (k_list api c k ns []) s = (Inr xs, s')" and "ns \<noteq> ''''"
  shows "objs s' = objs s \<and> distinct (map obj_key xs) \<and>
    (\<forall>x. x \<in> set xs \<longleftrightarrow> fst (obj_key x) = ns \<and> objs s c k (obj_key x) = Some x)"
proof -
  from list_found [OF assms(1)] assms(2)
  have xs: "distinct (map obj_key xs)" "set xs = {x. \<exists>n. objs s c k n = Some x \<and> fst n = ns}" by auto
  have "objs s c k n = Some x \<Longrightarrow> obj_key x = n" for x n using keyed by blast
  with xs list_reads [OF assms(1)] show ?thesis by auto
qed

end

text \<open>Other answers to the reviews keep the contract.\<close>

lemma kube_store_with_reviews:
  assumes "kube_store api objs"
    and "\<And>c a s r s'. run_state (f c a) s = (r, s') \<Longrightarrow> objs s' = objs s"
    and "\<And>c n s r s'. run_state (g c n) s = (r, s') \<Longrightarrow> objs s' = objs s"
  shows "kube_store (api\<lparr>k_access := f, k_rules := g\<rparr>) objs"
proof -
  let ?api = "api\<lparr>k_access := f, k_rules := g\<rparr>"
  have same: "k_get ?api = k_get api" "k_list ?api = k_list api" "k_create ?api = k_create api"
    "k_update ?api = k_update api" "k_status_update ?api = k_status_update api" "k_delete ?api = k_delete api"
    "k_delete_all ?api = k_delete_all api" "k_now ?api = k_now api" "k_uuid ?api = k_uuid api"
    "k_server_version ?api = k_server_version api" "k_access ?api = f" "k_rules ?api = g"
    by simp_all
  from assms(1) show ?thesis
    unfolding kube_store_def same
    by (elim conjE, intro conjI) (assumption | (intro allI impI, erule assms(2)) | (intro allI impI, erule assms(3)))+
qed

end
