(* ===== verification/Mem_Api.thy ===== *)
theory Mem_Api
  imports Kube
begin

section \<open>An API server in memory\<close>

text \<open>
  A concrete API that fulfils \<open>kube_store\<close>: the objects of all clusters in one list, with the rules
  of the tracker behind controller-runtime's fake client
  (\<^verbatim>\<open>vendor/sigs.k8s.io/controller-runtime/pkg/client/fake\<close>): a Create refuses an object that has a
  resource version or exists, an Update refuses a missing object and a stale version, a Delete of
  an object with finalizers only marks it. Clusters listed in \<open>m_down\<close> answer every request with a
  timeout. It is the instance on which the properties of the controllers are exhibited.
\<close>

record mem =
  m_objs :: "(cluster \<times> obj) list"
  m_tick :: nat
  m_down :: "cluster list"
  m_rules :: "(cluster \<times> string \<times> ResourceRule) list" \<comment> \<open>what the client may do, by namespace\<close>

definition is_at :: "cluster \<Rightarrow> okind \<Rightarrow> nsname \<Rightarrow> cluster \<times> obj \<Rightarrow> bool" where
  "is_at c k n p = (fst p = c \<and> obj_kind (snd p) = k \<and> obj_key (snd p) = n)"

text \<open>An object that is marked for deletion and waits for no finalizer is gone.\<close>

definition zombie :: "obj \<Rightarrow> bool" where
  "zombie x = (om_deletion (obj_meta x) \<and> om_finalizers (obj_meta x) = [])"

definition mem_objs :: "mem \<Rightarrow> cluster \<Rightarrow> okind \<Rightarrow> nsname \<Rightarrow> obj option" where
  "mem_objs s c k n =
     (case map_option snd (find (is_at c k n) (m_objs s)) of
        Some x \<Rightarrow> if zombie x then None else Some x
      | None \<Rightarrow> None)"

definition mem_remove :: "cluster \<Rightarrow> okind \<Rightarrow> nsname \<Rightarrow> mem \<Rightarrow> mem" where
  "mem_remove c k n s = s\<lparr>m_objs := filter (\<lambda>p. \<not> is_at c k n p) (m_objs s)\<rparr>"

definition mem_store :: "cluster \<Rightarrow> obj \<Rightarrow> mem \<Rightarrow> mem" where
  "mem_store c x s =
     s\<lparr>m_objs := (c, x) # filter (\<lambda>p. \<not> is_at c (obj_kind x) (obj_key x) p) (m_objs s),
       m_tick := Suc (m_tick s)\<rparr>"

definition version_of :: "mem \<Rightarrow> string" where
  "version_of s = replicate (Suc (m_tick s)) CHR ''1''"

fun first_by_key :: "nsname list \<Rightarrow> obj list \<Rightarrow> obj list" where
  "first_by_key seen [] = []"
| "first_by_key seen (x # xs) =
     (if obj_key x \<in> set seen then first_by_key seen xs
      else x # first_by_key (obj_key x # seen) xs)"

definition mem_kind :: "cluster \<Rightarrow> okind \<Rightarrow> mem \<Rightarrow> obj list" where
  "mem_kind c k s =
     filter (\<lambda>x. \<not> zombie x)
       (first_by_key [] (map snd (filter (\<lambda>p. fst p = c \<and> obj_kind (snd p) = k) (m_objs s))))"

definition unreachable :: err where
  "unreachable = Status (UnknownReason ''Timeout'') ''the cluster does not answer''"

definition not_found :: err where
  "not_found = Status NotFound ''not found''"

definition mem_get :: "cluster \<Rightarrow> okind \<Rightarrow> nsname \<Rightarrow> (mem, err + obj) state" where
  "mem_get c k n = State (\<lambda>s.
     (if c \<in> set (m_down s) then Inl unreachable
      else case mem_objs s c k n of None \<Rightarrow> Inl not_found | Some x \<Rightarrow> Inr x, s))"

definition mem_list ::
  "cluster \<Rightarrow> okind \<Rightarrow> string \<Rightarrow> (string, string) gomap \<Rightarrow> (mem, err + obj list) state" where
  "mem_list c k ns sel = State (\<lambda>s.
     (if c \<in> set (m_down s) then Inl unreachable
      else Inr (filter (\<lambda>x. (ns = '''' \<or> fst (obj_key x) = ns) \<and> labels_match sel (obj_meta x))
                  (mem_kind c k s)), s))"

definition mem_create :: "cluster \<Rightarrow> obj \<Rightarrow> (mem, err + obj) state" where
  "mem_create c x = State (\<lambda>s.
     if c \<in> set (m_down s) then (Inl unreachable, s)
     else if om_resourceVersion (obj_meta x) \<noteq> '''' then
       (Inl (Status BadRequest ''resourceVersion can not be set for Create requests''), s)
     else if mem_objs s c (obj_kind x) (obj_key x) \<noteq> None then
       (Inl (Status AlreadyExists ''already exists''), s)
     else let y = populated (CHR ''u'' # version_of s) (version_of s) (merge_string_data x)
          in (Inr y, mem_store c y s))"

definition mem_update :: "cluster \<Rightarrow> obj \<Rightarrow> (mem, err + obj) state" where
  "mem_update c x = State (\<lambda>s.
     if c \<in> set (m_down s) then (Inl unreachable, s)
     else case mem_objs s c (obj_kind x) (obj_key x) of
       None \<Rightarrow> (Inl not_found, s)
     | Some old \<Rightarrow>
         if om_resourceVersion (obj_meta x) \<noteq> '''' \<and>
            om_resourceVersion (obj_meta x) \<noteq> om_resourceVersion (obj_meta old)
         then (Inl (Status Conflict ''object was modified''), s)
         else let y = written old (version_of s) x
              in (Inr y, if om_deletion (obj_meta old) \<and> om_finalizers (obj_meta x) = []
                         then mem_remove c (obj_kind x) (obj_key x) s else mem_store c y s))"

definition mem_status_update :: "cluster \<Rightarrow> obj \<Rightarrow> (mem, err + obj) state" where
  "mem_status_update c x = State (\<lambda>s.
     if c \<in> set (m_down s) then (Inl unreachable, s)
     else case mem_objs s c (obj_kind x) (obj_key x) of
       None \<Rightarrow> (Inl not_found, s)
     | Some old \<Rightarrow>
         if om_resourceVersion (obj_meta x) \<noteq> '''' \<and>
            om_resourceVersion (obj_meta x) \<noteq> om_resourceVersion (obj_meta old)
         then (Inl (Status Conflict ''object was modified''), s)
         else let y = set_version (version_of s @ om_resourceVersion (obj_meta old)) (copy_status x old)
              in (Inr y, mem_store c y s))"

definition mem_mark :: "cluster \<Rightarrow> obj \<Rightarrow> mem \<Rightarrow> mem" where
  "mem_mark c x s =
     (if om_finalizers (obj_meta x) = [] then mem_remove c (obj_kind x) (obj_key x) s
      else mem_store c (set_version (version_of s) (map_obj_meta (\<lambda>m. m\<lparr>om_deletion := True\<rparr>) x)) s)"

definition mem_delete :: "cluster \<Rightarrow> okind \<Rightarrow> nsname \<Rightarrow> (mem, err option) state" where
  "mem_delete c k n = State (\<lambda>s.
     if c \<in> set (m_down s) then (Some unreachable, s)
     else case mem_objs s c k n of
       None \<Rightarrow> (Some not_found, s)
     | Some old \<Rightarrow> (None, mem_mark c old s))"

definition mem_delete_all :: "cluster \<Rightarrow> okind \<Rightarrow> string \<Rightarrow> (mem, err option) state" where
  "mem_delete_all c k ns = State (\<lambda>s.
     if c \<in> set (m_down s) then (Some unreachable, s)
     else (None, fold (mem_mark c) (filter (\<lambda>x. fst (obj_key x) = ns) (mem_kind c k s)) s))"

definition mem_now :: "(mem, nat) state" where
  "mem_now = State (\<lambda>s. (Suc (m_tick s), s\<lparr>m_tick := Suc (m_tick s)\<rparr>))"

definition mem_uuid :: "(mem, string) state" where
  "mem_uuid = State (\<lambda>s. (''uuid-'' @ version_of s, s\<lparr>m_tick := Suc (m_tick s)\<rparr>))"

definition mem_version :: "cluster \<Rightarrow> (mem, err + string) state" where
  "mem_version c = State (\<lambda>s. (if c \<in> set (m_down s) then Inl unreachable else Inr ''v1.27'', s))"

definition covers :: "ResourceRule \<Rightarrow> ResourceAttributes \<Rightarrow> bool" where
  "covers r a =
     ((ra_Verb a \<in> set (rr_Verbs r) \<or> ''*'' \<in> set (rr_Verbs r)) \<and>
      (ra_Group a \<in> set (rr_APIGroups r) \<or> ''*'' \<in> set (rr_APIGroups r)) \<and>
      (ra_Resource a \<in> set (rr_Resources r) \<or> ''*'' \<in> set (rr_Resources r)) \<and>
      (rr_ResourceNames r = [] \<or> ra_Name a \<in> set (rr_ResourceNames r)))"

definition mem_access :: "cluster \<Rightarrow> ResourceAttributes \<Rightarrow> (mem, err + bool) state" where
  "mem_access c a = State (\<lambda>s.
     (if c \<in> set (m_down s) then Inl unreachable
      else Inr (\<exists>p\<in>set (m_rules s). fst p = c \<and> fst (snd p) = ra_Namespace a \<and> covers (snd (snd p)) a), s))"

definition mem_rules :: "cluster \<Rightarrow> string \<Rightarrow> (mem, err + ResourceRule list) state" where
  "mem_rules c ns = State (\<lambda>s.
     (if c \<in> set (m_down s) then Inl unreachable
      else Inr (map (snd \<circ> snd) (filter (\<lambda>p. fst p = c \<and> fst (snd p) = ns) (m_rules s))), s))"

text \<open>\<open>cfgs\<close> lists the kubeconfigs that are well formed, each with the cluster it leads to.\<close>

definition mem_api :: "(string \<times> cluster) list \<Rightarrow> cluster \<Rightarrow> mem kube" where
  "mem_api cfgs self =
     \<lparr>k_self = self, k_get = mem_get, k_list = mem_list, k_create = mem_create,
      k_update = mem_update, k_status_update = mem_status_update, k_delete = mem_delete,
      k_delete_all = mem_delete_all, k_now = mem_now, k_uuid = mem_uuid,
      k_rest_config = (\<lambda>kc. case map_of cfgs kc of
         None \<Rightarrow> Inl (Plain ''invalid configuration'') | Some _ \<Rightarrow> Inr kc),
      k_new_client = (\<lambda>cfg. case map_of cfgs cfg of
         None \<Rightarrow> Inl (Plain ''invalid configuration'') | Some c \<Rightarrow> Inr c),
      k_server_version = mem_version, k_access = mem_access, k_rules = mem_rules, k_in_cluster = None,
      k_range = (\<lambda>xs. xs)\<rparr>"

lemma mem_api_simps [simp]:
  "k_self (mem_api cfgs self) = self"
  "k_get (mem_api cfgs self) = mem_get"
  "k_list (mem_api cfgs self) = mem_list"
  "k_create (mem_api cfgs self) = mem_create"
  "k_update (mem_api cfgs self) = mem_update"
  "k_status_update (mem_api cfgs self) = mem_status_update"
  "k_delete (mem_api cfgs self) = mem_delete"
  "k_delete_all (mem_api cfgs self) = mem_delete_all"
  "k_now (mem_api cfgs self) = mem_now"
  "k_uuid (mem_api cfgs self) = mem_uuid"
  "k_server_version (mem_api cfgs self) = mem_version"
  "k_access (mem_api cfgs self) = mem_access"
  "k_rules (mem_api cfgs self) = mem_rules"
  "k_in_cluster (mem_api cfgs self) = None"
  "k_range (mem_api cfgs self) = (\<lambda>xs. xs)"
  by (simp_all add: mem_api_def)

lemmas mem_ops = mem_get_def mem_list_def mem_create_def mem_update_def mem_status_update_def
  mem_delete_def mem_delete_all_def mem_now_def mem_uuid_def mem_version_def
  mem_access_def mem_rules_def

subsection \<open>The contract holds\<close>

lemma find_filter: "find P (filter Q xs) = find (\<lambda>x. P x \<and> Q x) xs"
  by (induction xs) auto

lemma mem_objs_tick [simp]: "mem_objs (s\<lparr>m_tick := t\<rparr>) = mem_objs s"
  by (simp add: mem_objs_def fun_eq_iff)


lemma mem_objs_keyed: "mem_objs s c k n = Some x \<Longrightarrow> obj_kind x = k \<and> obj_key x = n"
  by (auto simp: mem_objs_def is_at_def split: option.splits if_splits dest!: find_Some_holds)

lemma mem_objs_live: "mem_objs s c k n = Some x \<Longrightarrow> \<not> zombie x"
  by (auto simp: mem_objs_def split: option.splits if_splits)

lemma mem_objs_in: "mem_objs s c k n = Some x \<Longrightarrow> (c, x) \<in> set (m_objs s)"
proof -
  assume "mem_objs s c k n = Some x"
  then obtain p where p: "find (is_at c k n) (m_objs s) = Some p" "snd p = x"
    by (auto simp: mem_objs_def split: option.splits if_splits)
  from find_Some_holds [OF p(1)] find_Some_in [OF p(1)] p(2) show ?thesis
    by (auto simp: is_at_def)
qed

lemma find_key_filter:
  "find (\<lambda>p. f p = a) (filter (\<lambda>p. f p \<noteq> b) xs) = (if a = b then None else find (\<lambda>p. f p = a) xs)"
  by (induction xs) auto

lemma is_at_key: "is_at c k n = (\<lambda>p. (fst p, obj_kind (snd p), obj_key (snd p)) = (c, k, n))"
  by (simp add: is_at_def fun_eq_iff)

lemma find_at_filter:
  "find (is_at c' k' n') (filter (\<lambda>p. \<not> is_at c k n p) xs) =
     (if (c', k', n') = (c, k, n) then None else find (is_at c' k' n') xs)"
  unfolding is_at_key by (rule find_key_filter)

lemma mem_objs_remove:
  "mem_objs (mem_remove c k n s) c' k' n' =
     (if (c', k', n') = (c, k, n) then None else mem_objs s c' k' n')"
  by (simp add: mem_objs_def mem_remove_def find_at_filter)

lemma mem_objs_store:
  "mem_objs (mem_store c x s) c' k' n' =
     (if (c', k', n') = (c, obj_kind x, obj_key x) then if zombie x then None else Some x
      else mem_objs s c' k' n')"
  by (simp add: mem_objs_def mem_store_def find_at_filter) (auto simp: is_at_def)

lemma same_but_remove: "same_but {(c, k, n)} (mem_objs s) (mem_objs (mem_remove c k n s))"
  by (simp add: same_but_def mem_objs_remove)

lemma same_but_store:
  "(c, obj_kind x, obj_key x) \<in> K \<Longrightarrow> same_but K (mem_objs s) (mem_objs (mem_store c x s))"
  by (auto simp: same_but_def mem_objs_store)

lemma zombie_simps [simp]:
  "zombie (set_version v x) = zombie x" "zombie (copy_status a x) = zombie x"
  "\<not> zombie (populated u v x)"
  "zombie (written old v x) \<longleftrightarrow> om_deletion (obj_meta old) \<and> om_finalizers (obj_meta x) = []"
  by (auto simp: zombie_def set_version_def populated_def written_def keep_server_fields_def)

lemma zombie_marked [simp]:
  "zombie (map_obj_meta (\<lambda>m. m\<lparr>om_deletion := True\<rparr>) x) \<longleftrightarrow> om_finalizers (obj_meta x) = []"
  by (simp add: zombie_def)

lemma version_of_nonempty [simp]: "version_of s \<noteq> ''''"
  by (simp add: version_of_def)

lemma first_by_key_keys:
  "distinct (map obj_key (first_by_key seen xs)) \<and>
   set (map obj_key (first_by_key seen xs)) \<inter> set seen = {}"
  by (induction seen xs rule: first_by_key.induct) auto

lemma set_first_by_key:
  "x \<in> set (first_by_key seen xs) \<longleftrightarrow>
     obj_key x \<notin> set seen \<and> find (\<lambda>y. obj_key y = obj_key x) xs = Some x"
  by (induction seen xs rule: first_by_key.induct) auto

lemma find_map_snd:
  "find (\<lambda>y. obj_key y = n) (map snd (filter (\<lambda>p. fst p = c \<and> obj_kind (snd p) = k) xs)) =
     map_option snd (find (is_at c k n) xs)"
  by (induction xs) (auto simp: is_at_def)

lemma set_mem_kind: "x \<in> set (mem_kind c k s) \<longleftrightarrow> mem_objs s c k (obj_key x) = Some x"
  by (auto simp: mem_kind_def set_first_by_key find_map_snd mem_objs_def split: option.splits)

lemma distinct_mem_kind: "distinct (map obj_key (mem_kind c k s))"
  using first_by_key_keys [of "[]"] by (simp add: mem_kind_def distinct_map_filter)

lemma mem_mark_same_but:
  "same_but {(c, obj_kind x, obj_key x)} (mem_objs s) (mem_objs (mem_mark c x s))"
  unfolding mem_mark_def
  by (auto simp: same_but_remove intro!: same_but_store)
    (simp add: obj_key_def meta_key_def set_version_def)

lemma mem_mark_result:
  "mem_objs (mem_mark c x s) c (obj_kind x) (obj_key x) = Some y \<Longrightarrow>
     om_deletion (obj_meta y) \<and> om_finalizers (obj_meta y) \<noteq> []"
  by (auto simp: mem_mark_def mem_objs_remove mem_objs_store set_version_def obj_key_def meta_key_def
      split: if_splits)

lemma fold_mem_mark_same_but:
  "(\<And>x. x \<in> set xs \<Longrightarrow> (c, obj_kind x, obj_key x) \<in> K) \<Longrightarrow>
     same_but K (mem_objs s) (mem_objs (fold (mem_mark c) xs s))"
proof (induction xs arbitrary: s)
  case (Cons x xs)
  have "same_but K (mem_objs s) (mem_objs (mem_mark c x s))"
    by (rule same_but_mono [OF mem_mark_same_but]) (simp add: Cons.prems)
  also have "same_but K (mem_objs (mem_mark c x s)) (mem_objs (fold (mem_mark c) xs (mem_mark c x s)))"
    by (rule Cons.IH) (simp add: Cons.prems)
  finally (same_but_trans) show ?case by simp
qed simp

lemma fold_mem_mark_marked:
  assumes "distinct (map obj_key xs)" and "x \<in> set xs"
    and "mem_objs (fold (mem_mark c) xs s) c (obj_kind x) (obj_key x) = Some y"
  shows "om_deletion (obj_meta y) \<and> om_finalizers (obj_meta y) \<noteq> []"
  using assms
proof (induction xs arbitrary: s)
  case (Cons z zs)
  show ?case
  proof (cases "x = z")
    case True
    with Cons.prems(1) have other: "w \<in> set zs \<Longrightarrow> (c, obj_kind w, obj_key w) \<in> - {(c, obj_kind x, obj_key x)}" for w
      by (metis ComplI Pair_inject distinct.simps(2) imageI list.set_map list.simps(9) singletonD)
    have "same_but (- {(c, obj_kind x, obj_key x)}) (mem_objs (mem_mark c x s))
        (mem_objs (fold (mem_mark c) zs (mem_mark c x s)))"
      by (rule fold_mem_mark_same_but) (rule other)
    with Cons.prems(3) True have "mem_objs (mem_mark c x s) c (obj_kind x) (obj_key x) = Some y"
      by (simp add: same_but_def)
    then show ?thesis by (rule mem_mark_result)
  next
    case False
    with Cons show ?thesis by simp
  qed
qed simp

lemma mem_create_ok:
  assumes "run_state (mem_create c x) s = (Inr y, s')"
  shows "mem_objs s c (obj_kind x) (obj_key x) = None \<and> om_resourceVersion (obj_meta x) = '''' \<and>
    mem_objs s' c (obj_kind x) (obj_key x) = Some y \<and> om_resourceVersion (obj_meta y) \<noteq> '''' \<and>
    (\<exists>u v st. y = populated u v (copy_status st (merge_string_data x)))"
proof -
  have "copy_status (merge_string_data x) (merge_string_data x) = merge_string_data x" by (cases x) simp_all
  moreover from assms have "y = populated (CHR ''u'' # version_of s) (version_of s) (merge_string_data x)"
    "s' = mem_store c y s" "mem_objs s c (obj_kind x) (obj_key x) = None" "om_resourceVersion (obj_meta x) = ''''"
    by (auto simp: mem_create_def Let_def split: if_splits)
  ultimately show ?thesis
    by (intro conjI exI [of _ "CHR ''u'' # version_of s"] exI [of _ "version_of s"]
        exI [of _ "merge_string_data x"]) (simp_all add: mem_objs_store)
qed

lemma mem_update_ok:
  assumes "run_state (mem_update c x) s = (Inr y, s')"
  shows "\<exists>old v. mem_objs s c (obj_kind x) (obj_key x) = Some old \<and> v \<noteq> '''' \<and> y = written old v x \<and>
    mem_objs s' c (obj_kind x) (obj_key x) =
      (if om_deletion (obj_meta old) \<and> om_finalizers (obj_meta x) = [] then None else Some y)"
proof -
  from assms obtain old where old: "mem_objs s c (obj_kind x) (obj_key x) = Some old"
    by (auto simp: mem_update_def split: if_splits option.splits)
  with assms have "y = written old (version_of s) x"
    "s' = (if om_deletion (obj_meta old) \<and> om_finalizers (obj_meta x) = []
           then mem_remove c (obj_kind x) (obj_key x) s else mem_store c y s)"
    by (auto simp: mem_update_def Let_def split: if_splits)
  with old show ?thesis
    by (intro exI [of _ old] exI [of _ "version_of s"]) (simp add: mem_objs_store mem_objs_remove)
qed

lemma mem_status_ok:
  assumes "run_state (mem_status_update c x) s = (Inr y, s')"
  shows "\<exists>old v. mem_objs s c (obj_kind x) (obj_key x) = Some old \<and> v \<noteq> '''' \<and>
    (v = om_resourceVersion (obj_meta old) \<longrightarrow> y = old) \<and>
    y = set_version v (copy_status x old) \<and> mem_objs s' c (obj_kind x) (obj_key x) = Some y"
proof -
  from assms obtain old where old: "mem_objs s c (obj_kind x) (obj_key x) = Some old"
    by (auto simp: mem_status_update_def split: if_splits option.splits)
  let ?v = "version_of s @ om_resourceVersion (obj_meta old)"
  from assms old have "y = set_version ?v (copy_status x old)" "s' = mem_store c y s"
    by (auto simp: mem_status_update_def Let_def split: if_splits)
  with old mem_objs_keyed [OF old] mem_objs_live [OF old] show ?thesis
    by (intro exI [of _ old] exI [of _ ?v]) (simp add: mem_objs_store)
qed

lemma mem_stale:
  assumes "mem_objs s c (obj_kind x) (obj_key x) = Some old" and "om_resourceVersion (obj_meta x) \<noteq> ''''"
    and "om_resourceVersion (obj_meta x) \<noteq> om_resourceVersion (obj_meta old)"
  shows "run_state (mem_update c x) s = (r, s') \<Longrightarrow> (\<exists>e. r = Inl e) \<and> mem_objs s' = mem_objs s"
    and "run_state (mem_status_update c x) s = (r, s') \<Longrightarrow> (\<exists>e. r = Inl e) \<and> mem_objs s' = mem_objs s"
  using assms by (auto simp: mem_update_def mem_status_update_def split: if_splits)

lemma mem_others:
  "run_state (mem_create c x) s = (r, s') \<Longrightarrow> same_but {(c, obj_kind x, obj_key x)} (mem_objs s) (mem_objs s')"
  "run_state (mem_update c x) s = (r, s') \<Longrightarrow> same_but {(c, obj_kind x, obj_key x)} (mem_objs s) (mem_objs s')"
  "run_state (mem_status_update c x) s = (r, s') \<Longrightarrow> same_but {(c, obj_kind x, obj_key x)} (mem_objs s) (mem_objs s')"
  by (auto simp: mem_ops Let_def same_but_remove split: if_splits option.splits
      dest!: mem_objs_keyed intro!: same_but_store)

lemma mem_delete_ok:
  assumes "run_state (mem_delete c k n) s = (None, s')"
  shows "\<exists>old. mem_objs s c k n = Some old \<and>
    (if om_finalizers (obj_meta old) = [] then mem_objs s' c k n = None
     else \<exists>y. mem_objs s' c k n = Some y \<and> om_deletion (obj_meta y))"
proof -
  from assms obtain old where old: "mem_objs s c k n = Some old" and s': "s' = mem_mark c old s"
    by (auto simp: mem_delete_def split: if_splits option.splits)
  with mem_objs_keyed [OF old] show ?thesis
    by (auto simp: mem_mark_def mem_objs_remove mem_objs_store obj_key_map_meta meta_key_def)
      (simp add: set_version_def)
qed

lemma mem_delete_others:
  assumes "run_state (mem_delete c k n) s = (r, s')"
  shows "same_but {(c, k, n)} (mem_objs s) (mem_objs s')"
proof (cases "mem_objs s c k n")
  case (Some old)
  with mem_objs_keyed [OF Some] mem_mark_same_but [of c old s] assms show ?thesis
    by (auto simp: mem_delete_def split: if_splits)
qed (use assms in \<open>auto simp: mem_delete_def split: if_splits\<close>)

lemma mem_delete_all_ok:
  assumes "run_state (mem_delete_all c k ns) s = (None, s')" and "fst n = ns" and "mem_objs s' c k n = Some y"
  shows "om_deletion (obj_meta y) \<and> om_finalizers (obj_meta y) \<noteq> []"
proof -
  let ?xs = "filter (\<lambda>x. fst (obj_key x) = ns) (mem_kind c k s)"
  from assms(1) have s': "s' = fold (mem_mark c) ?xs s"
    by (auto simp: mem_delete_all_def split: if_splits)
  have kinds: "x \<in> set ?xs \<Longrightarrow> obj_kind x = k" for x
    by (auto simp: set_mem_kind dest: mem_objs_keyed)
  have dist: "distinct (map obj_key ?xs)" using distinct_mem_kind by (rule distinct_map_filter)
  show ?thesis
  proof (cases "\<exists>x\<in>set ?xs. obj_key x = n")
    case True
    with fold_mem_mark_marked [OF dist] kinds assms(3) s' show ?thesis by blast
  next
    case False
    then have "mem_objs s c k n = None"
      using assms(2) mem_objs_keyed [of s c k n]
      by (cases "mem_objs s c k n") (auto simp: set_mem_kind)
    moreover have "same_but (- {(c, k, n)}) (mem_objs s) (mem_objs s')"
      unfolding s' by (rule fold_mem_mark_same_but) (use False in auto)
    ultimately show ?thesis using assms(3) by (simp add: same_but_def)
  qed
qed

lemma mem_delete_all_others:
  assumes "run_state (mem_delete_all c k ns) s = (r, s')"
  shows "same_but {(c, k, n) | n. fst n = ns} (mem_objs s) (mem_objs s')"
proof -
  have "same_but {(c, k, n) | n. fst n = ns} (mem_objs s)
      (mem_objs (fold (mem_mark c) (filter (\<lambda>x. fst (obj_key x) = ns) (mem_kind c k s)) s))"
    by (rule fold_mem_mark_same_but) (auto simp: set_mem_kind dest: mem_objs_keyed)
  with assms show ?thesis by (auto simp: mem_delete_all_def split: if_splits)
qed

lemma mem_list_found:
  assumes "run_state (mem_list c k ns sel) s = (Inr xs, s')"
  shows "distinct (map obj_key xs) \<and>
    set xs = {x. \<exists>n. mem_objs s c k n = Some x \<and> (ns = '''' \<or> fst n = ns) \<and> labels_match sel (obj_meta x)}"
proof -
  let ?P = "\<lambda>x. (ns = '''' \<or> fst (obj_key x) = ns) \<and> labels_match sel (obj_meta x)"
  from assms have xs: "xs = filter ?P (mem_kind c k s)" by (auto simp: mem_list_def split: if_splits)
  have "x \<in> set (mem_kind c k s) \<longleftrightarrow> (\<exists>n. mem_objs s c k n = Some x)" for x
    by (metis set_mem_kind mem_objs_keyed)
  moreover have "mem_objs s c k n = Some x \<Longrightarrow> obj_key x = n" for x n by (simp add: mem_objs_keyed)
  ultimately show ?thesis unfolding xs
    by (auto simp: distinct_map_filter [OF distinct_mem_kind])
qed

interpretation mem: kube_store "mem_api cfgs self" mem_objs
proof unfold_locales
  fix s c k n x and s' :: mem and e :: err and r :: "err + obj"
  show "mem_objs s c k n = Some x \<Longrightarrow> obj_kind x = k \<and> obj_key x = n" by (rule mem_objs_keyed)
  show "mem_objs s c k n = Some x \<Longrightarrow> om_deletion (obj_meta x) \<Longrightarrow> om_finalizers (obj_meta x) \<noteq> []"
    by (auto dest: mem_objs_live simp: zombie_def)
  show "run_state (k_status_update (mem_api cfgs self) c x) s = (Inl e, s') \<Longrightarrow>
      mem_objs s' = mem_objs s \<or> (\<exists>old v. mem_objs s c (obj_kind x) (obj_key x) = Some old \<and> v \<noteq> '''' \<and>
        (v = om_resourceVersion (obj_meta old) \<longrightarrow> set_version v (copy_status x old) = old) \<and>
        mem_objs s' c (obj_kind x) (obj_key x) = Some (set_version v (copy_status x old)))"
    by (auto simp: mem_status_update_def Let_def split: if_splits option.splits)
  show "run_state (k_update (mem_api cfgs self) c x) s = (Inl e, s') \<Longrightarrow>
      mem_objs s' = mem_objs s \<or> (\<exists>old v. mem_objs s c (obj_kind x) (obj_key x) = Some old \<and>
        mem_objs s' c (obj_kind x) (obj_key x) =
          (if om_deletion (obj_meta old) \<and> om_finalizers (obj_meta x) = [] then None
           else Some (written old v x)))"
    by (auto simp: mem_update_def Let_def split: if_splits option.splits)
  show "run_state (k_create (mem_api cfgs self) c x) s = (Inl e, s') \<Longrightarrow> IsAlreadyExists e \<Longrightarrow>
      mem_objs s c (obj_kind x) (obj_key x) \<noteq> None \<and> mem_objs s' = mem_objs s"
    by (auto simp: mem_create_def unreachable_def IsAlreadyExists_def Let_def split: if_splits)

  show "run_state (k_get (mem_api cfgs self) c k n) s = (r, s') \<Longrightarrow> mem_objs s' = mem_objs s"
    by (auto simp: mem_get_def)
  show "run_state (k_get (mem_api cfgs self) c k n) s = (Inr x, s') \<Longrightarrow> mem_objs s c k n = Some x"
    by (auto simp: mem_get_def split: if_splits option.splits)
  show "run_state (k_get (mem_api cfgs self) c k n) s = (Inl e, s') \<Longrightarrow> IsNotFound e \<Longrightarrow>
      mem_objs s c k n = None"
    by (auto simp: mem_get_def unreachable_def split: if_splits option.splits)
  show "run_state (k_list (mem_api cfgs self) c k ns sel) s = (Inl e, s') \<Longrightarrow> IsNotFound e \<Longrightarrow>
      mem_objs s c k n = None" for ns sel
    by (auto simp: mem_list_def unreachable_def split: if_splits)
  show "run_state (k_delete (mem_api cfgs self) c k n) s = (Some e, s') \<Longrightarrow> IsNotFound e \<Longrightarrow>
      mem_objs s c k n = None \<and> mem_objs s' = mem_objs s"
    by (auto simp: mem_delete_def unreachable_def split: if_splits option.splits)
qed (simp_all only: mem_api_simps,
  (erule mem_list_found mem_create_ok mem_update_ok mem_status_ok mem_others mem_delete_ok
     mem_delete_others mem_delete_all_others | erule (2) mem_delete_all_ok |
   erule (3) mem_stale(1) | erule (3) mem_stale(2) |
   (auto simp: mem_list_def mem_now_def mem_uuid_def mem_version_def
     mem_access_def mem_rules_def)[1])+)

text \<open>A state with the given objects.\<close>

definition mem_of :: "(cluster \<times> obj) list \<Rightarrow> mem" where
  "mem_of xs = \<lparr>m_objs = xs, m_tick = 1, m_down = [], m_rules = []\<rparr>"

end
