(* ===== verification/Webhook.thy ===== *)
theory Webhook
  imports Mem_Api
begin

section \<open>Admission of service classes: \<^verbatim>\<open>serviceclass\_webhook.go\<close>\<close>

text \<open>
  The validating webhook of \<^verbatim>\<open>ServiceClass\<close>. A \<^verbatim>\<open>field.Error\<close> keeps its path, its kind, the value it
  is about and its detail; \<^verbatim>\<open>ToAggregate\<close> drops repetitions and is nil on the empty list. Whether an
  expression is well-formed JSONPath is the argument \<open>jp_parse\<close> (\<^verbatim>\<open>k8s.io/client-go/util/jsonpath\<close>).
\<close>

datatype path_elem = PChild string | PIndex nat

datatype field_error =
    FInvalid "path_elem list" string string
  | FDuplicate "path_elem list" string
  | FForbidden "path_elem list" string

datatype admission_error = AdmissionErr err | Aggregate "field_error list"

fun first_occurrences :: "'a list \<Rightarrow> 'a list \<Rightarrow> 'a list" where
  "first_occurrences seen [] = []"
| "first_occurrences seen (x # xs) =
     (if x \<in> set seen then first_occurrences seen xs
      else x # first_occurrences (x # seen) xs)"

definition ToAggregate :: "field_error list \<Rightarrow> admission_error option" where
  "ToAggregate es = (if es = [] then None else Some (Aggregate (first_occurrences [] es)))"

text \<open>\<^verbatim>\<open>ValidateMapping\<close>: \<open>i\<close> is the index and \<open>names\<close> the set of the names met so far.\<close>

fun ValidateMapping_loop ::
  "(string \<Rightarrow> bool) \<Rightarrow> nat \<Rightarrow> string list \<Rightarrow> ServiceClassResourceFieldMapping list \<Rightarrow> field_error list" where
  "ValidateMapping_loop jp_parse i names [] = []"
| "ValidateMapping_loop jp_parse i names (mapping # ms) =
     (let path = [PChild ''spec'', PChild ''resource'',
                  PChild ''serviceEndpointDefinitionMapping'', PIndex i];
          formatted = ''{'' @ rf_JsonPath mapping @ ''}'';
          e1 = (if \<not> jp_parse formatted
                then [FInvalid (path @ [PChild ''jsonPath'']) (rf_JsonPath mapping) ''Invalid JSONPath'']
                else []);
          e2 = (if rf_Name mapping \<in> set names
                then [FDuplicate (path @ [PChild ''name'']) (rf_Name mapping)] else []);
          names' = (if rf_Name mapping \<in> set names then names else rf_Name mapping # names)
      in e1 @ e2 @ ValidateMapping_loop jp_parse (Suc i) names' ms)"

definition ValidateMapping :: "(string \<Rightarrow> bool) \<Rightarrow> ServiceClassResource \<Rightarrow> field_error list" where
  "ValidateMapping jp_parse r = ValidateMapping_loop jp_parse 0 [] (scr_ResourceFields r)"

text \<open>\<^verbatim>\<open>IsDuplicateClass\<close>: the first listed class of another name for the same type is reported.\<close>

definition same_type_other_name :: "ServiceClass \<Rightarrow> ServiceClass \<Rightarrow> bool" where
  "same_type_other_name c item =
     (om_name (cl_meta c) \<noteq> om_name (cl_meta item) \<and>
      scr_Kind (clsp_Resource (cl_Spec c)) = scr_Kind (clsp_Resource (cl_Spec item)) \<and>
      scr_APIVersion (clsp_Resource (cl_Spec c)) = scr_APIVersion (clsp_Resource (cl_Spec item)))"

definition duplicate_errors :: "ServiceClass list \<Rightarrow> ServiceClass \<Rightarrow> field_error list" where
  "duplicate_errors items c =
     (case find (same_type_other_name c) items of
        Some item \<Rightarrow>
          [FForbidden [PChild ''spec'', PChild ''resource'']
             (''Service Class '' @ om_name (cl_meta item) @ '' already manages services of type '' @
              scr_Kind (clsp_Resource (cl_Spec item)) @ ''.'' @
              scr_APIVersion (clsp_Resource (cl_Spec item)))]
      | None \<Rightarrow> [])"

definition IsDuplicateClass ::
  "'s kube \<Rightarrow> ServiceClass \<Rightarrow> ('s, err + field_error list) state" where
  "IsDuplicateClass api serviceClass = do {
     r \<leftarrow> k_list api (k_self api) KServiceClass '''' [];
     ret (case map_items classes_of r of
            Inl e \<Rightarrow> Inl e
          | Inr items \<Rightarrow> Inr (duplicate_errors items serviceClass)) }"

definition ValidateCreate ::
  "(string \<Rightarrow> bool) \<Rightarrow> 's kube \<Rightarrow> obj \<Rightarrow> ('s, admission_error option) state" where
  "ValidateCreate jp_parse api x =
     (case x of
        OServiceClass r \<Rightarrow> do {
          d \<leftarrow> IsDuplicateClass api r;
          ret (case d of
                 Inl e \<Rightarrow> Some (AdmissionErr e)
               | Inr errs \<Rightarrow> ToAggregate (errs @ ValidateMapping jp_parse (clsp_Resource (cl_Spec r)))) }
      | _ \<Rightarrow> ret (Some (AdmissionErr (Plain ''Object is not a Service Class''))))"

definition ValidateDelete :: "obj \<Rightarrow> admission_error option" where
  "ValidateDelete x =
     (case x of
        OServiceClass r \<Rightarrow> None
      | _ \<Rightarrow> Some (AdmissionErr (Plain ''Object is not a Service Class'')))"

text \<open>The part of \<^verbatim>\<open>ValidateUpdate\<close> that compares the two versions; the maps used as sets are sets.\<close>

definition immutable_errors :: "ServiceClassResource \<Rightarrow> ServiceClassResource \<Rightarrow> field_error list" where
  "immutable_errors old new =
     (let childPath = [PChild ''spec'', PChild ''resource'']
      in (if scr_APIVersion old \<noteq> scr_APIVersion new
          then [FInvalid (childPath @ [PChild ''apiVersion'']) (scr_APIVersion new)
                  ''APIVersion is immutable''] else []) @
         (if scr_Kind old \<noteq> scr_Kind new
          then [FInvalid (childPath @ [PChild ''kind'']) (scr_Kind new) ''Kind is immutable''] else []) @
         (if set (scr_ResourceFields old) \<noteq> set (scr_ResourceFields new)
          then [FInvalid (childPath @ [PChild ''serviceEndpointDefinitionMapping'']) ''mappings''
                  ''ServiceEndpointDefinitionMapping is immutable''] else []))"

definition ValidateUpdate ::
  "(string \<Rightarrow> bool) \<Rightarrow> 's kube \<Rightarrow> obj \<Rightarrow> obj \<Rightarrow> ('s, admission_error option) state" where
  "ValidateUpdate jp_parse api oldObj newObj =
     (case newObj of
        OServiceClass newClass \<Rightarrow>
          (case oldObj of
             OServiceClass oldClass \<Rightarrow> do {
               let new = clsp_Resource (cl_Spec newClass);
               let errs = immutable_errors (clsp_Resource (cl_Spec oldClass)) new @
                          ValidateMapping jp_parse new;
               d \<leftarrow> IsDuplicateClass api newClass;
               ret (case d of
                      Inl e \<Rightarrow> Some (AdmissionErr e)
                    | Inr l \<Rightarrow> ToAggregate (errs @ l)) }
           | _ \<Rightarrow> ret (Some (AdmissionErr (Plain ''Old object is not a ServiceClass''))))
      | _ \<Rightarrow> ret (Some (AdmissionErr (Plain ''Object is not a Service Class''))))"

subsection \<open>Lemmas\<close>

lemma ToAggregate_None_iff [simp]: "ToAggregate es = None \<longleftrightarrow> es = []"
  by (simp add: ToAggregate_def)

lemma ValidateMapping_loop_Nil_iff:
  "ValidateMapping_loop jp i names ms = [] \<longleftrightarrow>
     (\<forall>m\<in>set ms. jp (''{'' @ rf_JsonPath m @ ''}'')) \<and> distinct (map rf_Name ms) \<and>
     set names \<inter> rf_Name ` set ms = {}"
proof (induction ms arbitrary: i names)
  case Nil
  then show ?case by simp
next
  case (Cons m ms)
  show ?case
    by (cases "rf_Name m \<in> set names") (auto simp: Let_def Cons.IH)
qed

lemma ValidateMapping_Nil_iff:
  "ValidateMapping jp r = [] \<longleftrightarrow>
     (\<forall>m\<in>set (scr_ResourceFields r). jp (''{'' @ rf_JsonPath m @ ''}'')) \<and>
     distinct (map rf_Name (scr_ResourceFields r))"
  by (simp add: ValidateMapping_def ValidateMapping_loop_Nil_iff)

lemma duplicate_errors_Nil_iff:
  "duplicate_errors items c = [] \<longleftrightarrow> (\<forall>i\<in>set items. \<not> same_type_other_name c i)"
  by (auto simp: duplicate_errors_def find_None_iff find_Some_iff split: option.splits)

lemma immutable_errors_Nil_iff:
  "immutable_errors old new = [] \<longleftrightarrow>
     scr_APIVersion old = scr_APIVersion new \<and> scr_Kind old = scr_Kind new \<and>
     set (scr_ResourceFields old) = set (scr_ResourceFields new)"
  by (simp add: immutable_errors_def Let_def)

subsection \<open>What admission keeps of the stored classes\<close>

text \<open>
  The stored service classes of a control plane, as the API server shows them to the webhook, and
  the three requests that change them. A request is carried out when the webhook returns nil; the
  server itself refuses to create a second object of the same name in the watched namespace.
\<close>

definition listing :: "'s kube \<Rightarrow> 's \<Rightarrow> ServiceClass list \<Rightarrow> bool" where
  "listing api s cs =
     (\<exists>xs. run_state (k_list api (k_self api) KServiceClass '''' []) s = (Inr xs, s) \<and> classes_of xs = cs)"

inductive admitted :: "(string \<Rightarrow> bool) \<Rightarrow> 's kube \<Rightarrow> ServiceClass list \<Rightarrow> ServiceClass list \<Rightarrow> bool" for jp api where
  admit_create:
    "listing api s cs \<Longrightarrow>
     om_name (cl_meta c) \<notin> (om_name \<circ> cl_meta) ` set cs \<Longrightarrow>
     fst (run_state (ValidateCreate jp api (OServiceClass c)) s) = None \<Longrightarrow>
     admitted jp api cs (c # cs)"
| admit_update:
    "listing api s (pre @ old # post) \<Longrightarrow>
     om_name (cl_meta c) = om_name (cl_meta old) \<Longrightarrow>
     fst (run_state (ValidateUpdate jp api (OServiceClass old) (OServiceClass c)) s) = None \<Longrightarrow>
     admitted jp api (pre @ old # post) (pre @ c # post)"
| admit_delete:
    "ValidateDelete (OServiceClass old) = None \<Longrightarrow>
     admitted jp api (pre @ old # post) (pre @ post)"

inductive_simps admitted_Nil: "admitted jp api [] cs"

definition classes_unique :: "ServiceClass list \<Rightarrow> bool" where
  "classes_unique cs =
     (distinct (map (om_name \<circ> cl_meta) cs) \<and>
      (\<forall>a\<in>set cs. \<forall>b\<in>set cs. \<not> same_type_other_name a b))"

definition mappings_valid :: "(string \<Rightarrow> bool) \<Rightarrow> ServiceClass list \<Rightarrow> bool" where
  "mappings_valid jp cs = (\<forall>c\<in>set cs. ValidateMapping jp (clsp_Resource (cl_Spec c)) = [])"

lemma same_type_sym: "same_type_other_name a b \<Longrightarrow> same_type_other_name b a"
  by (auto simp: same_type_other_name_def)

lemma same_type_irrefl [simp]: "\<not> same_type_other_name a a"
  by (simp add: same_type_other_name_def)

lemma run_IsDuplicateClass:
  "listing api s cs \<Longrightarrow> run_state (IsDuplicateClass api c) s = (Inr (duplicate_errors cs c), s)"
  by (auto simp: listing_def IsDuplicateClass_def map_items_def)

lemma ValidateCreate_listed:
  assumes "listing api s cs"
  shows "fst (run_state (ValidateCreate jp api (OServiceClass c)) s) = None \<longleftrightarrow>
    (\<forall>i\<in>set cs. \<not> same_type_other_name c i) \<and> ValidateMapping jp (clsp_Resource (cl_Spec c)) = []"
  using run_IsDuplicateClass [OF assms, of c]
  by (simp add: ValidateCreate_def duplicate_errors_Nil_iff)

lemma ValidateUpdate_listed:
  assumes "listing api s cs"
  shows "fst (run_state (ValidateUpdate jp api (OServiceClass old) (OServiceClass c)) s) = None \<longleftrightarrow>
    (\<forall>i\<in>set cs. \<not> same_type_other_name c i) \<and> ValidateMapping jp (clsp_Resource (cl_Spec c)) = [] \<and>
    immutable_errors (clsp_Resource (cl_Spec old)) (clsp_Resource (cl_Spec c)) = []"
  using run_IsDuplicateClass [OF assms, of c]
  by (auto simp: ValidateUpdate_def Let_def duplicate_errors_Nil_iff)

lemma classes_unique_step:
  "admitted jp api cs cs' \<Longrightarrow> classes_unique cs \<Longrightarrow> classes_unique cs'"
proof (induction rule: admitted.induct)
  case (admit_create s cs c)
  then show ?case
    by (auto simp: classes_unique_def ValidateCreate_listed dest: same_type_sym)
next
  case (admit_update s pre old post c)
  then show ?case
    by (auto simp: classes_unique_def ValidateUpdate_listed dest: same_type_sym)
next
  case (admit_delete old pre post)
  then show ?case by (auto simp: classes_unique_def)
qed

lemma mappings_valid_step:
  "admitted jp api cs cs' \<Longrightarrow> mappings_valid jp cs \<Longrightarrow> mappings_valid jp cs'"
  by (induction rule: admitted.induct)
    (auto simp: mappings_valid_def ValidateCreate_listed ValidateUpdate_listed)

text \<open>C14: starting from no service class and whatever requests are made, the classes that pass the
  webhook never contain two of different names for one type of resource, their names are distinct,
  and in each of them every JSONPath parses and no field name is mapped twice.\<close>

theorem admitted_classes_unique:
  assumes "(admitted jp api)\<^sup>*\<^sup>* [] cs"
  shows "distinct (map (om_name \<circ> cl_meta) cs) \<and>
    (\<forall>a\<in>set cs. \<forall>b\<in>set cs.
       scr_Kind (clsp_Resource (cl_Spec a)) = scr_Kind (clsp_Resource (cl_Spec b)) \<and>
       scr_APIVersion (clsp_Resource (cl_Spec a)) = scr_APIVersion (clsp_Resource (cl_Spec b)) \<longrightarrow>
       om_name (cl_meta a) = om_name (cl_meta b)) \<and>
    (\<forall>a\<in>set cs. distinct (map rf_Name (scr_ResourceFields (clsp_Resource (cl_Spec a)))) \<and>
       (\<forall>m\<in>set (scr_ResourceFields (clsp_Resource (cl_Spec a))). jp (''{'' @ rf_JsonPath m @ ''}'')))"
proof -
  from assms have "classes_unique cs \<and> mappings_valid jp cs"
    by (induction rule: rtranclp_induct)
      (auto simp: classes_unique_def [of "[]"] mappings_valid_def [of _ "[]"]
        dest: classes_unique_step mappings_valid_step)
  then show ?thesis
    by (simp add: classes_unique_def mappings_valid_def same_type_other_name_def ValidateMapping_Nil_iff)
       blast
qed

definition sample_class :: "string \<Rightarrow> string \<Rightarrow> ServiceClass" where
  "sample_class n k =
     \<lparr>cl_meta = new_meta ''primaza-system'' n,
      cl_Spec = \<lparr>clsp_Constraints = None, clsp_HealthCheck = None,
        clsp_Resource = \<lparr>scr_APIVersion = ''v1'', scr_Kind = k,
          scr_ResourceFields = [\<lparr>rf_Name = ''host'', rf_JsonPath = ''.spec.host'', rf_Secret = False\<rparr>],
          scr_SecretRefFields = []\<rparr>,
        clsp_ServiceClassIdentity = []\<rparr>,
      cl_Conditions = []\<rparr>"

definition classes_state :: "ServiceClass list \<Rightarrow> mem" where
  "classes_state cs = \<lparr>m_objs = map (\<lambda>c. (0, OServiceClass c)) cs, m_tick = 0, m_down = [], m_rules = []\<rparr>"

lemma listing_sample:
  "listing (mem_api [] 0) (classes_state []) []"
  "listing (mem_api [] 0) (classes_state [sample_class n k]) [sample_class n k]"
  by (auto simp: listing_def mem_list_def mem_kind_def classes_state_def classes_of_def
      List.map_filter_simps zombie_def sample_class_def)

theorem admitted_classes_unique_witness:
  "\<exists>cs. (admitted (\<lambda>_. True) (mem_api [] 0))\<^sup>*\<^sup>* [] cs \<and>
     cs = [sample_class ''b'' ''Queue'', sample_class ''a'' ''Database''] \<and>
     distinct (map (om_name \<circ> cl_meta) cs)"
proof -
  let ?a = "sample_class ''a'' ''Database''" and ?b = "sample_class ''b'' ''Queue''"
  have "admitted (\<lambda>_. True) (mem_api [] 0) [] [?a]"
    by (rule admit_create [OF listing_sample(1)])
      (simp_all add: ValidateCreate_listed [OF listing_sample(1)] ValidateMapping_Nil_iff sample_class_def)
  moreover have "admitted (\<lambda>_. True) (mem_api [] 0) [?a] [?b, ?a]"
    by (rule admit_create [OF listing_sample(2)])
      (simp_all only: ValidateCreate_listed [OF listing_sample(2)] ValidateMapping_Nil_iff,
        simp_all add: sample_class_def same_type_other_name_def)
  ultimately have r: "(admitted (\<lambda>_. True) (mem_api [] 0))\<^sup>*\<^sup>* [] [?b, ?a]" by simp
  from admitted_classes_unique [OF r] r show ?thesis by blast
qed

text \<open>C25: an update of a service class that the webhook accepts leaves the type of the resource and the
  set of its resource field mappings as they were.\<close>

theorem ValidateUpdate_immutable:
  assumes "run_state (ValidateUpdate jp api (OServiceClass old) (OServiceClass new)) s = (None, s')"
  shows "scr_APIVersion (clsp_Resource (cl_Spec new)) = scr_APIVersion (clsp_Resource (cl_Spec old)) \<and>
    scr_Kind (clsp_Resource (cl_Spec new)) = scr_Kind (clsp_Resource (cl_Spec old)) \<and>
    set (scr_ResourceFields (clsp_Resource (cl_Spec new))) =
      set (scr_ResourceFields (clsp_Resource (cl_Spec old)))"
  using assms
  by (auto simp: ValidateUpdate_def Let_def immutable_errors_Nil_iff split: sum.splits prod.splits)

theorem ValidateUpdate_immutable_witness:
  "let c = sample_class ''a'' ''Database'' in
     run_state (ValidateUpdate (\<lambda>_. True) (mem_api [] 0) (OServiceClass c) (OServiceClass c)) (classes_state [c])
       = (None, classes_state [c]) \<and>
     scr_Kind (clsp_Resource (cl_Spec c)) = ''Database''"
proof -
  let ?c = "sample_class ''a'' ''Database''"
  have r: "run_state (ValidateUpdate (\<lambda>_. True) (mem_api [] 0) (OServiceClass ?c) (OServiceClass ?c))
      (classes_state [?c]) = (None, classes_state [?c])"
    by (simp add: ValidateUpdate_def Let_def run_IsDuplicateClass [OF listing_sample(2)]
        immutable_errors_Nil_iff ValidateMapping_Nil_iff duplicate_errors_Nil_iff)
      (simp add: sample_class_def)
  from ValidateUpdate_immutable [OF r] r show ?thesis by (simp add: sample_class_def)
qed

end
