(* ===== verification/Clustercontext.thy ===== *)
theory Clustercontext
  imports Mem_Api
begin

section \<open>Clients of worker clusters: \<^verbatim>\<open>pkg/primaza/clustercontext\<close>\<close>

text \<open>
  A cluster environment names a secret that holds a kubeconfig. A missing secret is reported as the
  sentinel \<^verbatim>\<open>ErrSecretNotFound\<close> joined with the API's own error, so both \<^verbatim>\<open>errors.Is\<close> and
  \<^verbatim>\<open>IsNotFound\<close> recognise it. A client is the cluster it leads to.
\<close>

definition ErrSecretNotFound :: string where
  "ErrSecretNotFound = ''Cluster Context Secret not found''"

definition getSecret :: "'s kube \<Rightarrow> string \<Rightarrow> string \<Rightarrow> ('s, err + Secret) state" where
  "getSecret api secretNamespace secretName = do {
     r \<leftarrow> get_secret api (k_self api) (secretNamespace, secretName);
     ret (case r of
            Inl e \<Rightarrow> if IsNotFound e then Inl (Joined [Sentinel ErrSecretNotFound, e]) else Inl e
          | Inr s \<Rightarrow> Inr s) }"

text \<open>A missing key of \<^verbatim>\<open>secret.Data\<close> reads as the empty kubeconfig.\<close>

definition ExtractClusterRESTConfig :: "'s kube \<Rightarrow> Secret \<Rightarrow> err + string" where
  "ExtractClusterRESTConfig api secret =
     k_rest_config api (case gm_get (sec_Data secret) ''kubeconfig'' of Some kc \<Rightarrow> kc | None \<Rightarrow> '''')"

definition GetClusterRESTConfig :: "'s kube \<Rightarrow> string \<Rightarrow> string \<Rightarrow> ('s, err + string) state" where
  "GetClusterRESTConfig api secretNamespace secretName = do {
     r \<leftarrow> getSecret api secretNamespace secretName;
     ret (case r of Inl e \<Rightarrow> Inl e | Inr s \<Rightarrow> ExtractClusterRESTConfig api s) }"

definition CreateClient :: "'s kube \<Rightarrow> ClusterEnvironment \<Rightarrow> ('s, err + cluster) state" where
  "CreateClient api ce = do {
     cfg \<leftarrow> GetClusterRESTConfig api (om_namespace (ce_meta ce)) (cesp_ClusterContextSecret (ce_Spec ce));
     ret (case cfg of Inl e \<Rightarrow> Inl e | Inr c \<Rightarrow> k_new_client api c) }"

definition GetClusterContextSecret :: "'s kube \<Rightarrow> ClusterEnvironment \<Rightarrow> ('s, err + Secret) state" where
  "GetClusterContextSecret api ce =
     getSecret api (om_namespace (ce_meta ce)) (cesp_ClusterContextSecret (ce_Spec ce))"

subsection \<open>Lemmas\<close>

context kube_store
begin

lemma modifies_getSecret [frame_intros]: "modifies objs K (getSecret api ns n)"
  unfolding getSecret_def get_secret_def by (intro frame_intros)

lemma modifies_CreateClient [frame_intros]: "modifies objs K (CreateClient api ce)"
  unfolding CreateClient_def GetClusterRESTConfig_def by (intro frame_intros)

lemma modifies_GetClusterContextSecret [frame_intros]: "modifies objs K (GetClusterContextSecret api ce)"
  unfolding GetClusterContextSecret_def by (intro frame_intros)

lemma run_getSecret_error:
  assumes "run_state (getSecret api ns n) s = (Inl e, s')"
  shows "errors_is e ErrSecretNotFound \<and> IsNotFound e \<and> objs s (k_self api) KSecret (ns, n) = None \<or>
    \<not> IsNotFound e"
proof -
  obtain r s1 where r: "run_state (k_get api (k_self api) KSecret (ns, n)) s = (r, s1)" by fastforce
  with assms have s1: "s1 = s'" by (auto simp: getSecret_def get_secret_def)
  show ?thesis
  proof (cases r)
    case (Inl e0)
    with assms r have "e = (if IsNotFound e0 then Joined [Sentinel ErrSecretNotFound, e0] else e0)"
      by (auto simp: getSecret_def get_secret_def split: if_splits)
    moreover have "IsNotFound e0 \<Longrightarrow> objs s (k_self api) KSecret (ns, n) = None"
      using get_missing r Inl by blast
    ultimately show ?thesis by (auto simp: IsNotFound_def)
  next
    case (Inr x)
    with assms r show ?thesis
      by (cases x) (auto simp: getSecret_def get_secret_def)
  qed
qed

end

end
