(* ===== verification/Sed.thy ===== *)
theory Sed
  imports Mem_Api
begin

section \<open>Service endpoint definitions: \<^verbatim>\<open>pkg/primaza/sed\<close>\<close>

text \<open>
  How the value of one key of a service endpoint definition is read. \<^verbatim>\<open>SEDMapping\<close> is a Go
  interface; here it is the record of its methods, and each implementation is a struct with the
  function that makes the interface value from it. JSONPath is the argument \<open>jp\<close>
  (\<^verbatim>\<open>k8s.io/client-go/util/jsonpath\<close>): parsing an expression, and the results of a parsed
  expression on a resource, printed with \<^verbatim>\<open>%v\<close>.
\<close>

record jsonpath =
  jp_parse :: "string \<Rightarrow> err option"
  jp_find :: "string \<Rightarrow> Unstructured \<Rightarrow> err + string list list"

record 's SEDMapping =
  sm_Key :: string
  sm_ReadKey :: "('s, err + string) state"
  sm_InSecret :: bool

definition braced :: "string \<Rightarrow> string" where
  "braced p = ''{'' @ p @ ''}''"

definition multiple_results :: err where
  "multiple_results = Plain ''jsonPath lookup into resource returned multiple results''"

definition readSingleJsonPath :: "jsonpath \<Rightarrow> string \<Rightarrow> Unstructured \<Rightarrow> err + string" where
  "readSingleJsonPath jp path resource =
     (case jp_find jp path resource of
        Inl e \<Rightarrow> Inl e
      | Inr results \<Rightarrow>
          (case results of
             [[v]] \<Rightarrow> Inr v
           | _ \<Rightarrow> Inl multiple_results))"

subsection \<open>\<^verbatim>\<open>resourcemapping.go\<close>\<close>

record SEDResourceMapping =
  srm_resource :: Unstructured
  srm_key :: string
  srm_path :: string
  srm_secret :: bool

definition NewSEDResourceMapping ::
  "jsonpath \<Rightarrow> Unstructured \<Rightarrow> ServiceClassResourceFieldMapping \<Rightarrow> err + SEDResourceMapping" where
  "NewSEDResourceMapping jp resource mapping =
     (case jp_parse jp (braced (rf_JsonPath mapping)) of
        Some e \<Rightarrow> Inl e
      | None \<Rightarrow> Inr \<lparr>srm_resource = resource, srm_key = rf_Name mapping,
                     srm_path = braced (rf_JsonPath mapping), srm_secret = rf_Secret mapping\<rparr>)"

definition resource_ReadKey :: "jsonpath \<Rightarrow> SEDResourceMapping \<Rightarrow> err + string" where
  "resource_ReadKey jp m = readSingleJsonPath jp (srm_path m) (srm_resource m)"

definition resource_mapping :: "jsonpath \<Rightarrow> SEDResourceMapping \<Rightarrow> 's SEDMapping" where
  "resource_mapping jp m =
     \<lparr>sm_Key = srm_key m, sm_ReadKey = ret (resource_ReadKey jp m), sm_InSecret = srm_secret m\<rparr>"

subsection \<open>\<^verbatim>\<open>secretmapping.go\<close>\<close>

record SEDSecretRefMapping =
  ssm_namespace :: string
  ssm_resource :: Unstructured
  ssm_key :: string
  ssm_secretName :: FieldMapping
  ssm_secretKey :: FieldMapping

definition NewSEDSecretRefMapping ::
  "string \<Rightarrow> Unstructured \<Rightarrow> ServiceClassSecretRefFieldMapping \<Rightarrow> SEDSecretRefMapping" where
  "NewSEDSecretRefMapping namespace resource mapping =
     \<lparr>ssm_namespace = namespace, ssm_resource = resource, ssm_key = srf_Name mapping,
      ssm_secretName = srf_SecretName mapping, ssm_secretKey = srf_SecretKey mapping\<rparr>"

definition readValue :: "jsonpath \<Rightarrow> FieldMapping \<Rightarrow> Unstructured \<Rightarrow> err + string" where
  "readValue jp mapping resource =
     (case fm_Constant mapping of
        Some c \<Rightarrow> Inr c
      | None \<Rightarrow>
          (case fm_JsonPathExpr mapping of
             Some p \<Rightarrow>
               (case jp_parse jp (braced p) of
                  Some e \<Rightarrow> Inl e
                | None \<Rightarrow> readSingleJsonPath jp (braced p) resource)
           | None \<Rightarrow> Inl (Plain ''invalid mapping: neither Constant nor JsonPathExpr defined'')))"

definition secret_ReadKey ::
  "jsonpath \<Rightarrow> 's kube \<Rightarrow> cluster \<Rightarrow> SEDSecretRefMapping \<Rightarrow> ('s, err + string) state" where
  "secret_ReadKey jp api cli m =
     (case readValue jp (ssm_secretKey m) (ssm_resource m) of
        Inl e \<Rightarrow> ret (Inl e)
      | Inr secKey \<Rightarrow>
          (case readValue jp (ssm_secretName m) (ssm_resource m) of
             Inl e \<Rightarrow> ret (Inl e)
           | Inr secName \<Rightarrow> do {
               r \<leftarrow> get_secret api cli (ssm_namespace m, secName);
               ret (case r of
                      Inl e \<Rightarrow> Inl e
                    | Inr s \<Rightarrow>
                        (case gm_get (sec_Data s) secKey of
                           Some v \<Rightarrow> Inr v
                         | None \<Rightarrow> Inl (Plain (''secret key '' @ ssm_namespace m @ ''/'' @ secName @
                             '':'' @ secKey @ '' not Found'')))) }))"

definition secret_mapping ::
  "jsonpath \<Rightarrow> 's kube \<Rightarrow> cluster \<Rightarrow> SEDSecretRefMapping \<Rightarrow> 's SEDMapping" where
  "secret_mapping jp api cli m =
     \<lparr>sm_Key = ssm_key m, sm_ReadKey = secret_ReadKey jp api cli m, sm_InSecret = True\<rparr>"

subsection \<open>The interface\<close>

text \<open>
  What the service agent relies on when it calls the methods of a mapping: reading a key changes no
  stored object.
\<close>

locale sed_mapping =
  fixes objs :: "'s \<Rightarrow> cluster \<Rightarrow> okind \<Rightarrow> nsname \<Rightarrow> obj option" and m :: "'s SEDMapping"
  assumes read_only: "run_state (sm_ReadKey m) s = (r, s') \<Longrightarrow> objs s' = objs s"
begin

lemma modifies_ReadKey [frame_intros]: "modifies objs K (sm_ReadKey m)"
  by (rule modifiesI) (simp add: read_only)

end

interpretation resource_mapping: sed_mapping objs "resource_mapping jp m"
  by unfold_locales (simp add: resource_mapping_def)

context kube_store
begin

lemma secret_mapping_read_only: "sed_mapping objs (secret_mapping jp api cli m)"
proof
  have "modifies objs {} (sm_ReadKey (secret_mapping jp api cli m))"
    unfolding secret_mapping_def secret_ReadKey_def get_secret_def SEDMapping.simps
    by (auto intro!: frame_intros split: sum.split)
  then show "run_state (sm_ReadKey (secret_mapping jp api cli m)) s = (r, s') \<Longrightarrow> objs s' = objs s" for s r s'
    by (auto dest: modifies_run simp: same_but_def fun_eq_iff)
qed

end

interpretation secret_mapping: sed_mapping mem_objs "secret_mapping jp (mem_api cfgs self) cli m"
  by (rule mem.secret_mapping_read_only)

subsection \<open>Lemmas\<close>

lemma readSingleJsonPath_Inr_iff:
  "readSingleJsonPath jp p u = Inr v \<longleftrightarrow> jp_find jp p u = Inr [[v]]"
  by (auto simp: readSingleJsonPath_def split: sum.splits list.splits)

lemma readValue_constant [simp]: "fm_Constant f = Some c \<Longrightarrow> readValue jp f u = Inr c"
  by (simp add: readValue_def)

end
