(* ===== verification/Authz.thy ===== *)
theory Authz
  imports Mem_Api
begin

section \<open>Permission checks: \<^verbatim>\<open>pkg/authz\<close> and \<^verbatim>\<open>workercluster/authz\<close>\<close>

text \<open>
  Primaza asks each worker cluster whether it holds the permissions it needs in a namespace
  (\<^verbatim>\<open>TestResourcePermissions\<close>) and whether its service account holds more than the published lists
  (\<^verbatim>\<open>AccessList\<close>). The reviews themselves are the API server's (\<open>k_access\<close>, \<open>k_rules\<close>); the Go map
  \<^verbatim>\<open>definedRules\<close>, used as a set of quadruples, is the list of its keys.
\<close>

subsection \<open>\<^verbatim>\<open>types.go\<close>\<close>

record ResourcePermissions =
  rp_Verbs :: "string list"
  rp_Group :: string
  rp_Version :: string
  rp_Resource :: string
  rp_Name :: string

record NamespacedPermission =
  np_Verb :: string
  np_Group :: string
  np_Version :: string
  np_Resource :: string
  np_Namespace :: string
  np_Name :: string

definition toNamespacedPermissions :: "ResourcePermissions \<Rightarrow> string \<Rightarrow> NamespacedPermission list" where
  "toNamespacedPermissions r namespace =
     map (\<lambda>v. \<lparr>np_Verb = v, np_Group = rp_Group r, np_Version = rp_Version r,
               np_Resource = rp_Resource r, np_Namespace = namespace, np_Name = rp_Name r\<rparr>)
       (rp_Verbs r)"

definition np_String :: "NamespacedPermission \<Rightarrow> string" where
  "np_String p =
     (if np_Name p = '''' then
        np_Verb p @ '' '' @ np_Resource p @ ''.'' @ np_Group p @ ''/'' @ np_Version p @ '' in '' @
        np_Namespace p
      else
        np_Verb p @ '' '' @ np_Resource p @ ''.'' @ np_Group p @ ''/'' @ np_Version p @ '' '' @
        np_Name p @ '' in '' @ np_Namespace p)"

definition selfSubjectAccessReview :: "NamespacedPermission \<Rightarrow> ResourceAttributes" where
  "selfSubjectAccessReview p =
     \<lparr>ra_Namespace = np_Namespace p, ra_Verb = np_Verb p, ra_Group = np_Group p,
      ra_Version = np_Version p, ra_Resource = np_Resource p, ra_Name = np_Name p\<rparr>"

record NamespacedPermissionsReport =
  npr_Satisfied :: "NamespacedPermission list"
  npr_Failed :: "NamespacedPermission list"
  npr_InError :: "(NamespacedPermission \<times> err) list" \<comment> \<open>a map: the newest entry of a key first\<close>

definition AllSatisfied :: "NamespacedPermissionsReport \<Rightarrow> bool" where
  "AllSatisfied r = (length (npr_Failed r) = 0 \<and> length (npr_InError r) = 0)"

definition report_satisfied :: "NamespacedPermission \<Rightarrow> NamespacedPermissionsReport \<Rightarrow> NamespacedPermissionsReport" where
  "report_satisfied p r = r\<lparr>npr_Satisfied := npr_Satisfied r @ [p]\<rparr>"

definition report_failed :: "NamespacedPermission \<Rightarrow> NamespacedPermissionsReport \<Rightarrow> NamespacedPermissionsReport" where
  "report_failed p r = r\<lparr>npr_Failed := npr_Failed r @ [p]\<rparr>"

definition report_inError ::
  "NamespacedPermission \<Rightarrow> err \<Rightarrow> NamespacedPermissionsReport \<Rightarrow> NamespacedPermissionsReport" where
  "report_inError p e r =
     r\<lparr>npr_InError := (p, e) # filter (\<lambda>q. fst q \<noteq> p) (npr_InError r)\<rparr>"

subsection \<open>\<^verbatim>\<open>permissions.go\<close>: required permissions\<close>

definition checkAccess :: "'s kube \<Rightarrow> cluster \<Rightarrow> NamespacedPermission \<Rightarrow> ('s, err + bool) state" where
  "checkAccess api c np = k_access api c (selfSubjectAccessReview np)"

fun check_loop ::
  "'s kube \<Rightarrow> cluster \<Rightarrow> NamespacedPermissionsReport \<Rightarrow> NamespacedPermission list \<Rightarrow>
     ('s, NamespacedPermissionsReport) state" where
  "check_loop api c r [] = ret r"
| "check_loop api c r (np # nps) = do {
     a \<leftarrow> checkAccess api c np;
     check_loop api c
       (case a of
          Inl e \<Rightarrow> report_inError np e r
        | Inr ok \<Rightarrow> if \<not> ok then report_failed np r else report_satisfied np r) nps }"

definition checkPermissionsInNamespace ::
  "'s kube \<Rightarrow> cluster \<Rightarrow> string \<Rightarrow> ResourcePermissions list \<Rightarrow> ('s, NamespacedPermissionsReport) state" where
  "checkPermissionsInNamespace api c namespace permissions =
     check_loop api c \<lparr>npr_Satisfied = [], npr_Failed = [], npr_InError = []\<rparr>
       (concat (map (\<lambda>p. toNamespacedPermissions p namespace) permissions))"

fun checkPermissions ::
  "'s kube \<Rightarrow> cluster \<Rightarrow> (string, NamespacedPermissionsReport) gomap \<Rightarrow> string list \<Rightarrow>
     ResourcePermissions list \<Rightarrow> ('s, (string, NamespacedPermissionsReport) gomap) state" where
  "checkPermissions api c rr [] permissions = ret rr"
| "checkPermissions api c rr (ns # nss) permissions = do {
     r \<leftarrow> checkPermissionsInNamespace api c ns permissions;
     checkPermissions api c (gm_put ns r rr) nss permissions }"

definition TestResourcePermissions ::
  "'s kube \<Rightarrow> string \<Rightarrow> string list \<Rightarrow> ResourcePermissions list \<Rightarrow>
     ('s, err + (string, NamespacedPermissionsReport) gomap) state" where
  "TestResourcePermissions api cfg namespaces permissions =
     (case k_new_client api cfg of
        Inl e \<Rightarrow> ret (Inl (Wrapped ''error creating the client'' e))
      | Inr c \<Rightarrow> do { rr \<leftarrow> checkPermissions api c [] namespaces permissions; ret (Inr rr) })"

subsection \<open>\<^verbatim>\<open>permissions.go\<close>: excess permissions\<close>

record Permission =
  pm_APIGroups :: "string list"
  pm_Resources :: "string list"
  pm_ResourceNames :: "string list"
  pm_Namespace :: string
  pm_Name :: string
  pm_Verbs :: "string list"

definition or_empty_string :: "string list \<Rightarrow> string list" where
  "or_empty_string xs = (if length xs = 0 then [''''] else xs)"

definition quadruples ::
  "string list \<Rightarrow> string list \<Rightarrow> string list \<Rightarrow> string list \<Rightarrow> (string \<times> string \<times> string \<times> string) list" where
  "quadruples groups resources names verbs =
     [(ag, rs, rn, vb). ag \<leftarrow> or_empty_string groups, rs \<leftarrow> resources,
                        rn \<leftarrow> or_empty_string names, vb \<leftarrow> verbs]"

definition excess_message :: "string \<Rightarrow> string \<times> string \<times> string \<times> string \<Rightarrow> string" where
  "excess_message ns q =
     (case q of (ag, rs, rn, vb) \<Rightarrow>
        ''Excess permission: namespace='' @ ns @ '',resource='' @ rs @ ''.'' @ ag @
        '',resource-name='' @ rn @ '',verbs='' @ vb)"

definition createUnwantedPermissions ::
  "ResourceRule list \<Rightarrow> string \<Rightarrow> (string \<times> string \<times> string \<times> string) list \<Rightarrow> string list" where
  "createUnwantedPermissions resourceRules ns definedRules =
     concat (map (\<lambda>rr.
       concat (map (\<lambda>q.
         (if fst q = ''*'' \<or> fst (snd q) = ''*'' then [excess_message ns q] else []) @
         (if q \<notin> set definedRules then [excess_message ns q] else []))
         (quadruples (rr_APIGroups rr) (rr_Resources rr) (rr_ResourceNames rr) (rr_Verbs rr))))
       resourceRules)"

definition createUnwantedPermissionsList ::
  "'s kube \<Rightarrow> string \<Rightarrow> string \<Rightarrow> (string \<times> string \<times> string \<times> string) list \<Rightarrow> ('s, err + string list) state" where
  "createUnwantedPermissionsList api cfg ns definedRules =
     (case k_new_client api cfg of
        Inl e \<Rightarrow> ret (Inl (Wrapped ''error creating the client'' e))
      | Inr c \<Rightarrow> do {
          r \<leftarrow> k_rules api c ns;
          ret (case r of
                 Inl e \<Rightarrow> Inl e
               | Inr resourceRules \<Rightarrow> Inr (createUnwantedPermissions resourceRules ns definedRules)) })"

definition defined_rules :: "Permission list \<Rightarrow> (string \<times> string \<times> string \<times> string) list" where
  "defined_rules pl =
     concat (map (\<lambda>p. quadruples (pm_APIGroups p) (pm_Resources p) (pm_ResourceNames p) (pm_Verbs p)) pl)"

fun AccessList_loop ::
  "'s kube \<Rightarrow> string \<Rightarrow> string list \<Rightarrow> Permission list \<Rightarrow> string list \<Rightarrow> ('s, err + string list) state" where
  "AccessList_loop api cfg [] pl acc = ret (Inr acc)"
| "AccessList_loop api cfg (ns # nss) pl acc = do {
     up \<leftarrow> createUnwantedPermissionsList api cfg ns (defined_rules pl);
     case up of
       Inl e \<Rightarrow> ret (Inl e)
     | Inr us \<Rightarrow> AccessList_loop api cfg nss pl (acc @ us) }"

definition AccessList ::
  "'s kube \<Rightarrow> string \<Rightarrow> string list \<Rightarrow> Permission list \<Rightarrow> ('s, err + string list) state" where
  "AccessList api cfg namespaces pl = AccessList_loop api cfg namespaces pl []"

subsection \<open>The published lists and what the control plane needs\<close>

definition perm :: "string \<Rightarrow> string list \<Rightarrow> string list \<Rightarrow> string \<Rightarrow> string list \<Rightarrow> Permission" where
  "perm grp resources names role verbs =
     \<lparr>pm_APIGroups = [grp], pm_Resources = resources, pm_ResourceNames = names,
      pm_Namespace = ''system'', pm_Name = role, pm_Verbs = verbs\<rparr>"

definition SvcPermissionList :: "Permission list" where
  "SvcPermissionList =
    [perm ''primaza.io'' [''serviceclasses'', ''registeredservices''] [] ''primaza:svc:manager''
       [''create'', ''delete'', ''deletecollection'', ''get'', ''list'', ''patch'', ''update'', ''watch''],
     perm ''primaza.io'' [''serviceclasses/status''] [] ''primaza:svc:manager''
       [''get'', ''patch'', ''update''],
     perm '''' [''secrets''] [] ''primaza:svc:manager''
       [''create'', ''delete'', ''update'', ''get'', ''list'', ''watch''],
     perm ''apps'' [''deployments''] [] ''primaza:svc:manager'' [''get'', ''list'', ''watch''],
     perm ''apps'' [''deployments'', ''deployments/finalizers''] [''primaza-svc-agent'']
       ''primaza:svc:manager'' [''update''],
     perm '''' [''configmaps''] [] ''primaza:svc:leader-election''
       [''get'', ''list'', ''watch'', ''create'', ''update'', ''patch'', ''delete''],
     perm ''coordination.k8s.io'' [''leases''] [] ''primaza:svc:leader-election''
       [''get'', ''list'', ''watch'', ''create'', ''update'', ''patch'', ''delete''],
     perm '''' [''events''] [] ''primaza:svc:leader-election'' [''create'', ''patch'']]"

definition AppPermissionList :: "Permission list" where
  "AppPermissionList =
    [perm ''primaza.io'' [''servicebindings'', ''serviceclaims'', ''servicecatalogs''] []
       ''primaza:app:manager''
       [''get'', ''list'', ''watch'', ''update'', ''patch'', ''delete'', ''deletecollection''],
     perm ''primaza.io'' [''serviceclaims/status''] [] ''primaza:app:manager''
       [''get'', ''list'', ''watch'', ''update''],
     perm ''primaza.io'' [''servicebindings/status''] [] ''primaza:app:manager''
       [''get'', ''list'', ''watch'', ''update''],
     perm ''apps'' [''deployments''] [] ''primaza:app:manager''
       [''get'', ''list'', ''watch'', ''update'', ''patch''],
     perm ''apps'' [''deployments'', ''deployments/finalizers''] [''primaza-app-agent'']
       ''primaza:app:manager'' [''update''],
     perm '''' [''secrets''] [] ''primaza:app:manager''
       [''list'', ''get'', ''delete'', ''watch'', ''update''],
     perm ''primaza.io'' [''servicebindings/finalizers''] [] ''primaza:app:manager'' [''update''],
     perm ''coordination.k8s.io'' [''leases''] [] ''primaza:app:leader-election''
       [''get'', ''list'', ''watch'', ''create'', ''update'', ''patch'', ''delete''],
     perm '''' [''events''] [] ''primaza:app:leader-election'' [''create'', ''patch'']]"

definition required :: "string \<Rightarrow> ResourcePermissions list" where
  "required agent =
    [\<lparr>rp_Verbs = [''create''], rp_Group = ''apps'', rp_Version = '''', rp_Resource = ''deployments'',
      rp_Name = ''''\<rparr>,
     \<lparr>rp_Verbs = [''delete''], rp_Group = ''apps'', rp_Version = '''', rp_Resource = ''deployments'',
      rp_Name = agent\<rparr>]"

definition GetAgentAppRequiredPermissions :: "ResourcePermissions list" where
  "GetAgentAppRequiredPermissions = required ''primaza-app-agent''"

definition GetAgentSvcRequiredPermissions :: "ResourcePermissions list" where
  "GetAgentSvcRequiredPermissions = required ''primaza-svc-agent''"

definition GetAppPermissionList :: "Permission list" where
  "GetAppPermissionList = AppPermissionList"

definition GetSvcPermissionList :: "Permission list" where
  "GetSvcPermissionList = SvcPermissionList"

subsection \<open>Lemmas\<close>

text \<open>\<open>granting api c ac\<close>: the cluster answers access reviews by the function \<open>ac\<close>.\<close>

definition granting :: "'s kube \<Rightarrow> cluster \<Rightarrow> (ResourceAttributes \<Rightarrow> err + bool) \<Rightarrow> bool" where
  "granting api c ac = (\<forall>a s. run_state (k_access api c a) s = (ac a, s))"

lemma run_checkAccess:
  "granting api c ac \<Longrightarrow> run_state (checkAccess api c np) s = (ac (selfSubjectAccessReview np), s)"
  by (simp add: granting_def checkAccess_def)

lemma check_loop_report:
  assumes "granting api c ac" and "run_state (check_loop api c r nps) s = (r', s')"
  shows "s' = s \<and>
    npr_Satisfied r' = npr_Satisfied r @ filter (\<lambda>p. ac (selfSubjectAccessReview p) = Inr True) nps \<and>
    npr_Failed r' = npr_Failed r @ filter (\<lambda>p. ac (selfSubjectAccessReview p) = Inr False) nps \<and>
    fst ` set (npr_InError r') = fst ` set (npr_InError r) \<union>
      {p \<in> set nps. \<exists>e. ac (selfSubjectAccessReview p) = Inl e}"
  using assms(2)
proof (induction nps arbitrary: r)
  case Nil
  then show ?case by simp
next
  case (Cons p nps)
  let ?a = "ac (selfSubjectAccessReview p)"
  let ?r = "case ?a of Inl e \<Rightarrow> report_inError p e r
        | Inr ok \<Rightarrow> if \<not> ok then report_failed p r else report_satisfied p r"
  from Cons.prems have "run_state (check_loop api c ?r nps) s = (r', s')"
    by (simp add: run_checkAccess [OF assms(1)])
  note ih = Cons.IH [OF this]
  consider e where "?a = Inl e" | "?a = Inr True" | "?a = Inr False" by (cases ?a) auto
  then show ?case
  proof cases
    case (1 e)
    have "fst ` set (npr_InError (report_inError p e r)) = insert p (fst ` set (npr_InError r))"
      by (force simp: report_inError_def)
    with 1 ih show ?thesis by (auto simp: report_inError_def)
  qed (use ih in \<open>auto simp: report_failed_def report_satisfied_def\<close>)
qed

lemma AllSatisfied_iff:
  assumes "granting api c ac"
    and "run_state (checkPermissionsInNamespace api c ns ps) s = (r, s')"
  shows "AllSatisfied r \<longleftrightarrow> (\<forall>p\<in>set ps. \<forall>np\<in>set (toNamespacedPermissions p ns).
      ac (selfSubjectAccessReview np) = Inr True)"
proof -
  let ?nps = "concat (map (\<lambda>p. toNamespacedPermissions p ns) ps)"
  have rep: "npr_Failed r = filter (\<lambda>p. ac (selfSubjectAccessReview p) = Inr False) ?nps"
    "fst ` set (npr_InError r) = {p \<in> set ?nps. \<exists>e. ac (selfSubjectAccessReview p) = Inl e}"
    using check_loop_report [OF assms(1) assms(2) [unfolded checkPermissionsInNamespace_def]] by auto
  have "npr_InError r = [] \<longleftrightarrow> fst ` set (npr_InError r) = {}" by simp
  then have "AllSatisfied r \<longleftrightarrow> (\<forall>np\<in>set ?nps. ac (selfSubjectAccessReview np) \<noteq> Inr False) \<and>
      (\<forall>np\<in>set ?nps. \<not> (\<exists>e. ac (selfSubjectAccessReview np) = Inl e))"
    unfolding AllSatisfied_def length_0_conv rep by (auto simp: filter_empty_conv)
  also have "\<dots> \<longleftrightarrow> (\<forall>np\<in>set ?nps. ac (selfSubjectAccessReview np) = Inr True)"
  proof -
    have "x \<noteq> Inr False \<and> \<not> (\<exists>e. x = Inl e) \<longleftrightarrow> x = Inr True" for x :: "err + bool"
      by (cases x) auto
    then show ?thesis by blast
  qed
  finally show ?thesis by simp
qed

lemma createUnwantedPermissions_Nil_iff:
  "createUnwantedPermissions rules ns defined = [] \<longleftrightarrow>
     (\<forall>rr\<in>set rules.
        \<forall>q\<in>set (quadruples (rr_APIGroups rr) (rr_Resources rr) (rr_ResourceNames rr) (rr_Verbs rr)).
          fst q \<noteq> ''*'' \<and> fst (snd q) \<noteq> ''*'' \<and> q \<in> set defined)"
  by (auto simp: createUnwantedPermissions_def)

lemma set_quadruples:
  "(ag, rs, rn, vb) \<in> set (quadruples gs rss ns vs) \<longleftrightarrow>
     ag \<in> set (or_empty_string gs) \<and> rs \<in> set rss \<and> rn \<in> set (or_empty_string ns) \<and> vb \<in> set vs"
  by (auto simp: quadruples_def)

lemma run_checkPermissionsInNamespace:
  assumes "granting api c ac"
  obtains r where "\<And>s. run_state (checkPermissionsInNamespace api c ns ps) s = (r, s)"
proof -
  have "\<exists>r'. \<forall>s. run_state (check_loop api c r nps) s = (r', s)" for r nps
    by (induction nps arbitrary: r) (simp_all add: run_checkAccess [OF assms])
  then show ?thesis using that unfolding checkPermissionsInNamespace_def by metis
qed

lemma run_checkPermissions:
  assumes "granting api c ac"
  shows "\<exists>rr'. \<forall>s. run_state (checkPermissions api c rr nss ps) s = (rr', s) \<and>
    (\<forall>ns. gm_get rr' ns =
      (if ns \<in> set nss then Some (fst (run_state (checkPermissionsInNamespace api c ns ps) s))
       else gm_get rr ns))"
proof (induction nss arbitrary: rr)
  case Nil
  then show ?case by simp
next
  case (Cons ns nss)
  obtain r where r: "\<And>s. run_state (checkPermissionsInNamespace api c ns ps) s = (r, s)"
    using run_checkPermissionsInNamespace [OF assms] by blast
  from Cons.IH [of "gm_put ns r rr"] obtain rr' where
    "\<And>s. run_state (checkPermissions api c (gm_put ns r rr) nss ps) s = (rr', s) \<and>
      (\<forall>n. gm_get rr' n =
        (if n \<in> set nss then Some (fst (run_state (checkPermissionsInNamespace api c n ps) s))
         else gm_get (gm_put ns r rr) n))" by blast
  then have get: "gm_get rr' n = (if n \<in> set nss then Some (fst (run_state (checkPermissionsInNamespace api c n ps) s))
      else if n = ns then Some r else gm_get rr n)"
    and run: "run_state (checkPermissions api c (gm_put ns r rr) nss ps) s = (rr', s)" for n s
    by (metis gm_get_put)+
  show ?case
  proof (intro exI [of _ rr'] allI conjI)
    show "run_state (checkPermissions api c rr (ns # nss) ps) s = (rr', s)" for s
      by (simp add: r run)
    show "gm_get rr' n = (if n \<in> set (ns # nss)
        then Some (fst (run_state (checkPermissionsInNamespace api c n ps) s)) else gm_get rr n)" for s n
      using get [of n s] r [of s] by (cases "n = ns") auto
  qed
qed

lemma TestResourcePermissions_report:
  assumes "k_new_client api cfg = Inr c" and "granting api c ac"
  shows "\<exists>rr. run_state (TestResourcePermissions api cfg nss ps) s = (Inr rr, s) \<and>
    (\<forall>ns. (gm_get rr ns = None \<longleftrightarrow> ns \<notin> set nss) \<and>
      (\<forall>r. gm_get rr ns = Some r \<longrightarrow>
        (AllSatisfied r \<longleftrightarrow> (\<forall>p\<in>set ps. \<forall>v\<in>set (rp_Verbs p).
           ac \<lparr>ra_Namespace = ns, ra_Verb = v, ra_Group = rp_Group p, ra_Version = rp_Version p,
               ra_Resource = rp_Resource p, ra_Name = rp_Name p\<rparr> = Inr True))))"
proof -
  from run_checkPermissions [OF assms(2)] obtain rr where
    run: "run_state (checkPermissions api c [] nss ps) s = (rr, s)" and
    get: "\<And>ns. gm_get rr ns =
      (if ns \<in> set nss then Some (fst (run_state (checkPermissionsInNamespace api c ns ps) s)) else None)"
    by (metis gm_get_Nil)
  have "AllSatisfied r \<longleftrightarrow> (\<forall>p\<in>set ps. \<forall>v\<in>set (rp_Verbs p).
      ac \<lparr>ra_Namespace = ns, ra_Verb = v, ra_Group = rp_Group p, ra_Version = rp_Version p,
          ra_Resource = rp_Resource p, ra_Name = rp_Name p\<rparr> = Inr True)"
    if "gm_get rr ns = Some r" for ns r
  proof -
    from that get have "run_state (checkPermissionsInNamespace api c ns ps) s =
        (r, snd (run_state (checkPermissionsInNamespace api c ns ps) s))"
      by (metis option.distinct(1) option.inject prod.collapse)
    from AllSatisfied_iff [OF assms(2) this] show ?thesis
      by (simp add: toNamespacedPermissions_def selfSubjectAccessReview_def)
  qed
  moreover have "run_state (TestResourcePermissions api cfg nss ps) s = (Inr rr, s)"
    by (simp add: TestResourcePermissions_def assms(1) run)
  ultimately show ?thesis using get by (intro exI [of _ rr]) auto
qed

text \<open>\<open>ruling api c rl\<close>: a rules review in a namespace answers by the function \<open>rl\<close>.\<close>

definition ruling :: "'s kube \<Rightarrow> cluster \<Rightarrow> (string \<Rightarrow> ResourceRule list) \<Rightarrow> bool" where
  "ruling api c rl = (\<forall>ns s. run_state (k_rules api c ns) s = (Inr (rl ns), s))"

lemma run_AccessList_loop:
  assumes "ruling api c rl" and "k_new_client api cfg = Inr c"
  shows "run_state (AccessList_loop api cfg nss pl acc) s =
    (Inr (acc @ concat (map (\<lambda>ns. createUnwantedPermissions (rl ns) ns (defined_rules pl)) nss)), s)"
  using assms
  by (induction nss arbitrary: acc) (simp_all add: createUnwantedPermissionsList_def ruling_def)

lemma set_defined_rules:
  "(ag, rs, rn, vb) \<in> set (defined_rules pl) \<longleftrightarrow>
     (\<exists>p\<in>set pl. ag \<in> set (or_empty_string (pm_APIGroups p)) \<and> rs \<in> set (pm_Resources p) \<and>
        rn \<in> set (or_empty_string (pm_ResourceNames p)) \<and> vb \<in> set (pm_Verbs p))"
  by (auto simp: defined_rules_def set_quadruples)

subsection \<open>Properties\<close>

text \<open>When the cluster answers the access reviews, the permission test reports on exactly the given
  namespaces, and a namespace's report is all satisfied exactly when every verb of every required
  permission is granted there: a refusal or a failed review of any of them is never overlooked.\<close>

theorem TestResourcePermissions_spec:
  assumes "k_new_client api cfg = Inr c" and "granting api c ac"
  shows "\<exists>rr. run_state (TestResourcePermissions api cfg nss ps) s = (Inr rr, s) \<and>
    (\<forall>ns. (gm_get rr ns = None \<longleftrightarrow> ns \<notin> set nss) \<and>
      (\<forall>r. gm_get rr ns = Some r \<longrightarrow>
        (AllSatisfied r \<longleftrightarrow> (\<forall>p\<in>set ps. \<forall>v\<in>set (rp_Verbs p).
           ac \<lparr>ra_Namespace = ns, ra_Verb = v, ra_Group = rp_Group p, ra_Version = rp_Version p,
               ra_Resource = rp_Resource p, ra_Name = rp_Name p\<rparr> = Inr True))))"
  using assms by (rule TestResourcePermissions_report)

definition deploy_rule :: ResourceRule where
  "deploy_rule = \<lparr>rr_Verbs = [''create'', ''delete''], rr_APIGroups = [''apps''],
     rr_Resources = [''deployments''], rr_ResourceNames = []\<rparr>"

text \<open>A cluster that grants the same rules in every state.\<close>

definition fixed_rules_api :: "(string \<times> ResourceRule) list \<Rightarrow> mem kube" where
  "fixed_rules_api rules = (mem_api [(''worker'', 1)] 0)
     \<lparr>k_access := \<lambda>c a. ret (Inr (\<exists>p\<in>set rules. fst p = ra_Namespace a \<and> covers (snd p) a)),
      k_rules := \<lambda>c ns. ret (Inr (map snd (filter (\<lambda>p. fst p = ns) rules)))\<rparr>"

lemma fixed_rules_api_granting:
  "granting (fixed_rules_api rules) c
     (\<lambda>a. Inr (\<exists>p\<in>set rules. fst p = ra_Namespace a \<and> covers (snd p) a))"
  "ruling (fixed_rules_api rules) c (\<lambda>ns. map snd (filter (\<lambda>p. fst p = ns) rules))"
  "k_new_client (fixed_rules_api rules) ''worker'' = Inr 1"
  by (simp_all add: granting_def ruling_def fixed_rules_api_def mem_api_def)

lemma fixed_rules_store: "kube_store (fixed_rules_api rules) mem_objs"
  unfolding fixed_rules_api_def
  by (rule kube_store_with_reviews [OF mem.kube_store_axioms]) auto

theorem TestResourcePermissions_spec_witness:
  "\<forall>s. \<exists>rr r. run_state (TestResourcePermissions (fixed_rules_api [(''apps'', deploy_rule)]) ''worker''
          [''apps'', ''other''] GetAgentAppRequiredPermissions) s = (Inr rr, s) \<and>
     gm_get rr ''apps'' = Some r \<and> AllSatisfied r \<and>
     (\<exists>q. gm_get rr ''other'' = Some q \<and> \<not> AllSatisfied q)"
proof
  fix s
  from TestResourcePermissions_spec [OF fixed_rules_api_granting(3) fixed_rules_api_granting(1),
      of "[(''apps'', deploy_rule)]" "[''apps'', ''other'']" GetAgentAppRequiredPermissions s]
  obtain rr where run: "run_state (TestResourcePermissions (fixed_rules_api [(''apps'', deploy_rule)]) ''worker''
        [''apps'', ''other''] GetAgentAppRequiredPermissions) s = (Inr rr, s)"
    and keys: "\<And>ns. gm_get rr ns = None \<longleftrightarrow> ns \<notin> set [''apps'', ''other'']"
    and sat: "\<And>ns r. gm_get rr ns = Some r \<Longrightarrow> AllSatisfied r \<longleftrightarrow>
      (\<forall>p\<in>set GetAgentAppRequiredPermissions. \<forall>v\<in>set (rp_Verbs p).
         \<exists>q\<in>set [(''apps'', deploy_rule)]. fst q = ns \<and> covers (snd q)
          \<lparr>ra_Namespace = ns, ra_Verb = v, ra_Group = rp_Group p, ra_Version = rp_Version p,
           ra_Resource = rp_Resource p, ra_Name = rp_Name p\<rparr>)"
    by auto
  from keys [of "''apps''"] keys [of "''other''"] obtain r q where
    "gm_get rr ''apps'' = Some r" "gm_get rr ''other'' = Some q" by auto
  with run sat show "\<exists>rr r. run_state (TestResourcePermissions (fixed_rules_api [(''apps'', deploy_rule)])
        ''worker'' [''apps'', ''other''] GetAgentAppRequiredPermissions) s = (Inr rr, s) \<and>
     gm_get rr ''apps'' = Some r \<and> AllSatisfied r \<and>
     (\<exists>q. gm_get rr ''other'' = Some q \<and> \<not> AllSatisfied q)"
    by (intro exI [of _ rr] exI [of _ r])
      (auto simp: GetAgentAppRequiredPermissions_def required_def covers_def deploy_rule_def)
qed

text \<open>C28: When the cluster can be reached and answers the rules review of every namespace, no excess permission is
  reported exactly when every rule the cluster lists for a checked namespace grants only combinations of group,
  resource, resource name and verb of the given list, and none through a wildcard group or resource. The check
  always gives a result then and changes nothing.\<close>

theorem AccessList_spec:
  assumes "k_new_client api cfg = Inr c" and "ruling api c rl"
  shows "\<exists>us. run_state (AccessList api cfg nss pl) s = (Inr us, s) \<and>
    (us = [] \<longleftrightarrow> (\<forall>ns\<in>set nss. \<forall>rr\<in>set (rl ns).
       \<forall>ag\<in>set (or_empty_string (rr_APIGroups rr)). \<forall>rs\<in>set (rr_Resources rr).
       \<forall>rn\<in>set (or_empty_string (rr_ResourceNames rr)). \<forall>vb\<in>set (rr_Verbs rr).
         ag \<noteq> ''*'' \<and> rs \<noteq> ''*'' \<and>
         (\<exists>p\<in>set pl. ag \<in> set (or_empty_string (pm_APIGroups p)) \<and> rs \<in> set (pm_Resources p) \<and>
            rn \<in> set (or_empty_string (pm_ResourceNames p)) \<and> vb \<in> set (pm_Verbs p))))"
proof -
  let ?us = "concat (map (\<lambda>ns. createUnwantedPermissions (rl ns) ns (defined_rules pl)) nss)"
  have run: "run_state (AccessList api cfg nss pl) s = (Inr ?us, s)"
    using run_AccessList_loop [OF assms(2,1)] by (simp add: AccessList_def)
  have q: "(\<forall>q\<in>set (quadruples g r n v). P q) \<longleftrightarrow>
      (\<forall>ag\<in>set (or_empty_string g). \<forall>rs\<in>set r. \<forall>rn\<in>set (or_empty_string n). \<forall>vb\<in>set v. P (ag, rs, rn, vb))"
    for g r n v P
    by (auto simp: quadruples_def)
  have "?us = [] \<longleftrightarrow> (\<forall>ns\<in>set nss. createUnwantedPermissions (rl ns) ns (defined_rules pl) = [])"
    by auto
  then show ?thesis
    unfolding createUnwantedPermissions_Nil_iff q set_defined_rules fst_conv snd_conv using run by blast
qed

theorem AccessList_spec_witness:
  "\<forall>s. (\<exists>us. run_state (AccessList (fixed_rules_api [(''app'', deploy_rule)]) ''worker'' [''app'']
            AppPermissionList) s = (Inr us, s) \<and> us \<noteq> []) \<and>
       run_state (AccessList (fixed_rules_api [(''app'', deploy_rule)]) ''worker'' [''app'']
            [perm ''apps'' [''deployments''] [] ''role'' [''create'', ''delete'']]) s = (Inr [], s)"
proof
  fix s
  let ?api = "fixed_rules_api [(''app'', deploy_rule)]"
  note spec = AccessList_spec [OF fixed_rules_api_granting(3) fixed_rules_api_granting(2),
      of "[(''app'', deploy_rule)]" "[''app'']" _ s]
  have "\<exists>us. run_state (AccessList ?api ''worker'' [''app''] AppPermissionList) s = (Inr us, s) \<and> us \<noteq> []"
    using spec [of AppPermissionList]
    by (auto simp: deploy_rule_def AppPermissionList_def perm_def or_empty_string_def)
  moreover have "run_state (AccessList ?api ''worker'' [''app'']
      [perm ''apps'' [''deployments''] [] ''role'' [''create'', ''delete'']]) s = (Inr [], s)"
    using spec [of "[perm ''apps'' [''deployments''] [] ''role'' [''create'', ''delete'']]"]
    by (auto simp: deploy_rule_def perm_def or_empty_string_def)
  ultimately show "(\<exists>us. run_state (AccessList ?api ''worker'' [''app''] AppPermissionList) s = (Inr us, s) \<and>
      us \<noteq> []) \<and> run_state (AccessList ?api ''worker'' [''app'']
      [perm ''apps'' [''deployments''] [] ''role'' [''create'', ''delete'']]) s = (Inr [], s)" by blast
qed

end
