(* ===== verification/Workercluster.thy ===== *)
theory Workercluster
  imports Mem_Api
begin

section \<open>Agents and connections: \<^verbatim>\<open>pkg/primaza/workercluster\<close>\<close>

text \<open>
  Deploying an agent into a namespace of a worker cluster, removing it, and testing the connection.
  Decoding a manifest is \<^verbatim>\<open>sigs.k8s.io/yaml\<close>, the argument \<open>y\<close>; a manifest keeps the difference
  between a nil map and an empty one, because writing into a nil map panics.
\<close>

record DeploymentManifest =
  dm_name :: string
  dm_labels :: "(string, string) gomap option"
  dm_template_labels :: "(string, string) gomap option"
  dm_images :: "string list"

record ConfigMapManifest =
  cmm_name :: string
  cmm_labels :: "(string, string) gomap option"
  cmm_data :: "(string, string) gomap option"

record yaml =
  y_deployment :: "string \<Rightarrow> err + DeploymentManifest"
  y_configmap :: "string \<Rightarrow> err + ConfigMapManifest"

definition PrimazaClusterEnvironmentLabel :: string where
  "PrimazaClusterEnvironmentLabel = ''primaza.io/cluster-environment''"

fun strategy_string :: "SynchronizationStrategy \<Rightarrow> string" where
  "strategy_string SyncPull = ''Pull''"
| "strategy_string SyncPush = ''Push''"

subsection \<open>\<^verbatim>\<open>agents.go\<close>\<close>

definition DeleteAgent ::
  "'s kube \<Rightarrow> cluster \<Rightarrow> string \<Rightarrow> string \<Rightarrow> string \<Rightarrow> ('s, err option) state" where
  "DeleteAgent api cli namespace deploymentName configMapName = do {
     r1 \<leftarrow> k_delete api cli KDeployment (namespace, deploymentName);
     let e1 = (case r1 of
                 Some e \<Rightarrow> if IsNotFound e then [] else [Wrapped (''error deleting deployment '' @ quoted (namespace @ ''/'' @ deploymentName)) e]
               | None \<Rightarrow> []);
     r2 \<leftarrow> k_delete api cli KConfigMap (namespace, configMapName);
     let e2 = (case r2 of
                 Some e \<Rightarrow> if IsNotFound e then [] else [Wrapped (''error deleting configmap '' @ quoted (namespace @ ''/'' @ configMapName)) e]
               | None \<Rightarrow> []);
     ret (errors_Join (e1 @ e2)) }"

definition createAgentDeployment ::
  "yaml \<Rightarrow> 's kube \<Rightarrow> cluster \<Rightarrow> string \<Rightarrow> string \<Rightarrow> string \<Rightarrow> string \<Rightarrow> ('s, err option) state" where
  "createAgentDeployment y api cli namespace ceName agentManifest img =
     (case y_deployment y agentManifest of
        Inl e \<Rightarrow> ret (Some (Wrapped ''unmarshal deployment error'' e))
      | Inr dep \<Rightarrow>
          (case dm_images dep of
             [] \<Rightarrow> ret (Some (Panic ''index out of range''))
           | _ # images \<Rightarrow>
               (case (dm_labels dep, dm_template_labels dep) of
                  (Some l, Some tmpl) \<Rightarrow> do {
                    r \<leftarrow> k_create api cli (ODeployment
                      \<lparr>dep_meta = (new_meta namespace (dm_name dep))
                         \<lparr>om_labels := gm_put PrimazaClusterEnvironmentLabel ceName l\<rparr>,
                       dep_Images = img # images,
                       dep_TemplateLabels = gm_put PrimazaClusterEnvironmentLabel ceName tmpl\<rparr>);
                    ret (case r of
                           Inl e \<Rightarrow> Some (Wrapped ''error creating deployment'' e)
                         | Inr _ \<Rightarrow> None) }
                | _ \<Rightarrow> ret (Some (Panic ''assignment to entry in nil map'')))))"

definition createAgentConfigMap ::
  "yaml \<Rightarrow> 's kube \<Rightarrow> cluster \<Rightarrow> string \<Rightarrow> string \<Rightarrow> string \<Rightarrow> SynchronizationStrategy \<Rightarrow>
     ('s, err option) state" where
  "createAgentConfigMap y api cli namespace ceName configMapManifest strategy =
     (case y_configmap y configMapManifest of
        Inl e \<Rightarrow> ret (Some (Wrapped ''unmarshal deployment error'' e))
      | Inr cm \<Rightarrow>
          (let labels = (case cmm_labels cm of Some l \<Rightarrow> l | None \<Rightarrow> [])
           in case cmm_data cm of
                None \<Rightarrow> ret (Some (Panic ''assignment to entry in nil map''))
              | Some d \<Rightarrow> do {
                  r \<leftarrow> k_create api cli (OConfigMap
                    \<lparr>cm_meta = (new_meta namespace (cmm_name cm))
                       \<lparr>om_labels := gm_put PrimazaClusterEnvironmentLabel ceName labels\<rparr>,
                     cm_Data = gm_put ''synchronization-strategy'' (strategy_string strategy) d\<rparr>);
                  ret (case r of
                         Inl e \<Rightarrow> Some (Wrapped ''error creating deployment'' e)
                       | Inr _ \<Rightarrow> None) }))"

definition PushAgent ::
  "yaml \<Rightarrow> 's kube \<Rightarrow> cluster \<Rightarrow> string \<Rightarrow> string \<Rightarrow> string \<Rightarrow> string \<Rightarrow> string \<Rightarrow>
     SynchronizationStrategy \<Rightarrow> ('s, err option) state" where
  "PushAgent y api cli namespace ceName agentManifest img configManifest strategy = do {
     r1 \<leftarrow> createAgentDeployment y api cli namespace ceName agentManifest img;
     case r1 of
       Some (Panic p) \<Rightarrow> ret (Some (Panic p))
     | _ \<Rightarrow> do {
         let e1 = (case r1 of Some e \<Rightarrow> if IsAlreadyExists e then [] else [e] | None \<Rightarrow> []);
         r2 \<leftarrow> createAgentConfigMap y api cli namespace ceName configManifest strategy;
         case r2 of
           Some (Panic p) \<Rightarrow> ret (Some (Panic p))
         | _ \<Rightarrow> do {
             let e2 = (case r2 of Some e \<Rightarrow> if IsAlreadyExists e then [] else [e] | None \<Rightarrow> []);
             ret (errors_Join (e1 @ e2)) } } }"

subsection \<open>\<^verbatim>\<open>connection.go\<close>\<close>

text \<open>A string type with three constants; the controllers convert other strings to it.\<close>

datatype ConnectionStatusReason = ConnectionSuccessful | ConnectionError | ClientCreationError | OtherReason string

fun reason_string :: "ConnectionStatusReason \<Rightarrow> string" where
  "reason_string ConnectionSuccessful = ''ConnectionSuccessful''"
| "reason_string ConnectionError = ''ConnectionError''"
| "reason_string ClientCreationError = ''ClientCreationError''"
| "reason_string (OtherReason s) = s"

record ConnectionStatus =
  cs_State :: ClusterEnvironmentState
  cs_Reason :: ConnectionStatusReason
  cs_Message :: string

definition TestConnection :: "'s kube \<Rightarrow> string \<Rightarrow> ('s, ConnectionStatus) state" where
  "TestConnection api cfg =
     (case k_new_client api cfg of
        Inl e \<Rightarrow> ret \<lparr>cs_State = CEOffline, cs_Reason = ClientCreationError,
                      cs_Message = ''error creating the client: '' @ err_text e\<rparr>
      | Inr c \<Rightarrow> do {
          v \<leftarrow> k_server_version api c;
          ret (case v of
                 Inl e \<Rightarrow> \<lparr>cs_State = CEOffline, cs_Reason = ConnectionError,
                           cs_Message = ''error connecting to target cluster: '' @ err_text e\<rparr>
               | Inr ver \<Rightarrow> \<lparr>cs_State = CEOnline, cs_Reason = ConnectionSuccessful,
                             cs_Message = ''successfully connected to target cluster: kubernetes version found ''
                               @ ver\<rparr>) })"

definition Condition :: "ConnectionStatus \<Rightarrow> condition" where
  "Condition c =
     \<lparr>co_type = ''Online'', co_status = (if cs_State c = CEOnline then CondTrue else CondFalse),
      co_observedGeneration = 0, co_lastTransitionTime = 0, co_reason = reason_string (cs_Reason c),
      co_message = cs_Message c\<rparr>"

subsection \<open>Lemmas\<close>

lemma TestConnection_states:
  "run_state (TestConnection api cfg) s = (st, s') \<Longrightarrow>
     cs_State st = CEOnline \<and> cs_Reason st = ConnectionSuccessful \<or>
     cs_State st = CEOffline \<and> cs_Reason st \<noteq> ConnectionSuccessful"
  by (auto simp: TestConnection_def split: sum.splits prod.splits)

lemma Condition_status: "co_status (Condition c) = CondTrue \<longleftrightarrow> cs_State c = CEOnline"
  by (simp add: Condition_def)

lemma IsNotFound_wrapped: "IsAlreadyExists (Wrapped m e) \<longleftrightarrow> IsAlreadyExists e"
  by (simp add: IsAlreadyExists_def)

context kube_store
begin

lemma modifies_TestConnection [frame_intros]: "modifies objs K (TestConnection api cfg)"
  unfolding TestConnection_def by (auto intro!: frame_intros split: sum.split)

lemma modifies_DeleteAgent [frame_intros]:
  "(cli, KDeployment, (ns, d)) \<in> K \<Longrightarrow> (cli, KConfigMap, (ns, cm)) \<in> K \<Longrightarrow>
     modifies objs K (DeleteAgent api cli ns d cm)"
  unfolding DeleteAgent_def Let_def by (intro frame_intros)

lemma modifies_PushAgent [frame_intros]:
  assumes "\<And>n. (cli, KDeployment, (ns, n)) \<in> K" and "\<And>n. (cli, KConfigMap, (ns, n)) \<in> K"
  shows "modifies objs K (PushAgent y api cli ns ce man img cfg st)"
proof -
  have "modifies objs K (createAgentDeployment y api cli ns ce man img)"
    unfolding createAgentDeployment_def
    by (auto intro!: frame_intros assms split: sum.split list.split option.split simp: obj_key_def meta_key_def)
  moreover have "modifies objs K (createAgentConfigMap y api cli ns ce cfg st)"
    unfolding createAgentConfigMap_def Let_def
    by (auto intro!: frame_intros assms split: sum.split option.split simp: obj_key_def meta_key_def)
  ultimately show ?thesis
    unfolding PushAgent_def Let_def
    by (auto intro!: frame_intros split: err.split option.split)
qed

end

end
