(* ===== verification/Controlplane.thy ===== *)
theory Controlplane
  imports Workercluster Authz Slices
begin

section \<open>The control plane's work on worker clusters: \<^verbatim>\<open>pkg/primaza/controlplane\<close>\<close>

text \<open>
  Pushing service bindings, catalogs and classes into namespaces, binding and unbinding the
  namespaces of a cluster environment, and the permission checkers. The client of the control
  plane itself is the cluster \<open>k_self api\<close>; a worker client is the cluster it was made for.
\<close>

subsection \<open>\<^verbatim>\<open>types.go\<close>, \<^verbatim>\<open>agents.go\<close> and \<^verbatim>\<open>labels.go\<close>\<close>

datatype NamespaceType = ServiceNamespaceType | ApplicationNamespaceType

fun namespace_type_string :: "NamespaceType \<Rightarrow> string" where
  "namespace_type_string ServiceNamespaceType = ''service''"
| "namespace_type_string ApplicationNamespaceType = ''application''"

fun Short :: "NamespaceType \<Rightarrow> string" where
  "Short ServiceNamespaceType = ''svc''"
| "Short ApplicationNamespaceType = ''app''"

definition agentRoles :: "(NamespaceType \<times> string list) list" where
  "agentRoles = [(ServiceNamespaceType, [''primaza-reporter'']),
                 (ApplicationNamespaceType, [''primaza-claimer''])]"

definition getAgentRoleNames :: "NamespaceType \<Rightarrow> string list" where
  "getAgentRoleNames agentKind =
     (case map_of agentRoles agentKind of Some rr \<Rightarrow> rr | None \<Rightarrow> [])"

definition bakeRoleBindingName :: "string \<Rightarrow> string \<Rightarrow> string \<Rightarrow> string" where
  "bakeRoleBindingName role ceName namespace =
     trim_prefix role ''primaza:'' @ ''-'' @ ceName @ ''-'' @ namespace"

definition getRoleBindingsLabelSelectorOrDie :: "string \<Rightarrow> NamespaceType \<Rightarrow> (string, string) gomap" where
  "getRoleBindingsLabelSelectorOrDie ceName namespaceType =
     gm_of_list [(''app'', ''primaza''), (PrimazaClusterEnvironmentLabel, ceName),
       (''primaza.io/namespace-type'', namespace_type_string namespaceType)]"

definition bakeRoleBindingsLabels ::
  "string \<Rightarrow> string \<Rightarrow> string \<Rightarrow> NamespaceType \<Rightarrow> (string, string) gomap" where
  "bakeRoleBindingsLabels ceName tenant namespace namespaceType =
     gm_of_list [(''app'', ''primaza''), (''primaza.io/tenant'', tenant),
       (PrimazaClusterEnvironmentLabel, ceName),
       (''primaza.io/namespace-type'', namespace_type_string namespaceType),
       (''primaza.io/namespace'', namespace)]"

subsection \<open>\<^verbatim>\<open>application\_namespaces.go\<close>\<close>

definition binding_spec :: "ServiceClaim \<Rightarrow> ServiceBindingSpec" where
  "binding_spec sc =
     \<lparr>sbsp_ServiceEndpointDefinitionSecret = om_name (sc_meta sc),
      sbsp_Application = scsp_Application (sc_Spec sc), sbsp_Envs = scsp_Envs (sc_Spec sc)\<rparr>"

definition new_binding :: "ServiceClaim \<Rightarrow> string \<Rightarrow> ServiceBinding" where
  "new_binding sc namespace =
     \<lparr>sb_meta = new_meta namespace (om_name (sc_meta sc)), sb_Spec = binding_spec sc,
      sb_Status = \<lparr>sbst_Conditions = [], sbst_State = SBStateUnset, sbst_Connections = []\<rparr>\<rparr>"

text \<open>The function that \<^verbatim>\<open>CreateOrUpdate\<close> applies to the binding.\<close>

definition mutate_binding :: "ServiceClaim \<Rightarrow> obj \<Rightarrow> err + obj" where
  "mutate_binding sc x =
     (case x of
        OServiceBinding sb \<Rightarrow>
          (case scst_RegisteredService (sc_Status sc) of
             None \<Rightarrow> Inl (Panic ''nil pointer dereference'')
           | Some rs \<Rightarrow> Inr (OServiceBinding (sb
               \<lparr>sb_meta := (sb_meta sb)
                  \<lparr>om_annotations :=
                     gm_put ''primaza.io/registered-service-uid'' (ref_UID rs)
                       (gm_put ''primaza.io/registered-service-name'' (ref_Name rs)
                          (om_annotations (sb_meta sb)))\<rparr>,
                sb_Spec := binding_spec sc\<rparr>)))
      | _ \<Rightarrow> Inl decode_err)"

definition set_string_data :: "(string, string) gomap \<Rightarrow> obj \<Rightarrow> err + obj" where
  "set_string_data d x =
     (case x of OSecret s \<Rightarrow> Inr (OSecret (s\<lparr>sec_StringData := d\<rparr>)) | _ \<Rightarrow> Inl decode_err)"

definition as_secret :: "Secret \<Rightarrow> obj \<Rightarrow> Secret" where
  "as_secret s x = (case x of OSecret s' \<Rightarrow> s' | _ \<Rightarrow> s)"

text \<open>
  The secret is passed by pointer: the second component of the result is what the pointer holds
  when the function returns.
\<close>

definition pushServiceBindingToNamespace ::
  "'s kube \<Rightarrow> cluster \<Rightarrow> string \<Rightarrow> ServiceClaim \<Rightarrow> Secret \<Rightarrow> ('s, err option \<times> Secret) state" where
  "pushServiceBindingToNamespace api cli namespace sc secret = do {
     (r, _) \<leftarrow> CreateOrUpdate api cli (OServiceBinding (new_binding sc namespace)) (mutate_binding sc);
     case r of
       Inl e \<Rightarrow> ret (Some e, secret)
     | Inr _ \<Rightarrow> do {
         g \<leftarrow> get_binding api cli (namespace, om_name (sc_meta sc));
         case g of
           Inl e \<Rightarrow> ret (Some e, secret)
         | Inr sb \<Rightarrow> do {
             let secret1 = secret\<lparr>sec_meta := (sec_meta secret)
               \<lparr>om_owners := [\<lparr>or_apiVersion = ''primaza.io/v1alpha1'', or_kind = ''ServiceBinding'',
                               or_name = om_name (sc_meta sc), or_uid = om_uid (sb_meta sb),
                               or_controller = False\<rparr>],
                om_namespace := namespace\<rparr>\<rparr>;
             let data = sec_StringData secret1;
             (r2, x) \<leftarrow> CreateOrUpdate api cli (OSecret secret1) (set_string_data data);
             ret (err_of r2, as_secret secret1 x) } } }"

fun push_bindings_loop ::
  "'s kube \<Rightarrow> cluster \<Rightarrow> ServiceClaim \<Rightarrow> string option \<Rightarrow> Secret \<Rightarrow> string list \<Rightarrow>
     ('s, (err + err list) \<times> Secret) state" where
  "push_bindings_loop api cli sc nspace secret [] = ret (Inr [], secret)"
| "push_bindings_loop api cli sc nspace secret (ns # nss) =
     (if nspace = None \<or> nspace = Some ns then do {
        (r, secret') \<leftarrow> pushServiceBindingToNamespace api cli ns sc secret;
        case r of
          Some e \<Rightarrow>
            if is_panic e then ret (Inl e, secret')
            else do {
              (rest, secret'') \<leftarrow> push_bindings_loop api cli sc nspace secret' nss;
              ret (case rest of Inl p \<Rightarrow> Inl p | Inr es \<Rightarrow> Inr (e # es), secret'') }
        | None \<Rightarrow> push_bindings_loop api cli sc nspace secret' nss }
      else push_bindings_loop api cli sc nspace secret nss)"

definition PushServiceBinding ::
  "'s kube \<Rightarrow> ServiceClaim \<Rightarrow> Secret \<Rightarrow> string option \<Rightarrow> string list \<Rightarrow> string \<Rightarrow>
     ('s, err option \<times> Secret) state" where
  "PushServiceBinding api sc secret nspace applicationNamespaces cfg =
     (case k_new_client api cfg of
        Inl e \<Rightarrow> ret (Some e, secret)
      | Inr cecli \<Rightarrow> do {
          (r, secret') \<leftarrow> push_bindings_loop api cecli sc nspace secret applicationNamespaces;
          ret (join_collected r, secret') })"

definition set_catalog_spec :: "ServiceCatalog \<Rightarrow> obj \<Rightarrow> err + obj" where
  "set_catalog_spec sc x =
     (case x of OServiceCatalog c \<Rightarrow> Inr (OServiceCatalog (c\<lparr>cat_Spec := cat_Spec sc\<rparr>)) | _ \<Rightarrow> Inl decode_err)"

definition empty_catalog :: "string \<Rightarrow> string \<Rightarrow> ServiceCatalog" where
  "empty_catalog ns n = \<lparr>cat_meta = new_meta ns n, cat_Spec = \<lparr>cat_Services = [], cat_ClaimedByLabels = []\<rparr>\<rparr>"

definition push_catalog :: "'s kube \<Rightarrow> cluster \<Rightarrow> ServiceCatalog \<Rightarrow> string \<Rightarrow> ('s, err option) state" where
  "push_catalog api cli sc ns = do {
     (r, _) \<leftarrow> CreateOrUpdate api cli (OServiceCatalog (empty_catalog ns (om_name (cat_meta sc))))
                (set_catalog_spec sc);
     ret (err_of r) }"

definition PushServiceCatalogToApplicationNamespaces ::
  "'s kube \<Rightarrow> ServiceCatalog \<Rightarrow> string list \<Rightarrow> string \<Rightarrow> ('s, err option) state" where
  "PushServiceCatalogToApplicationNamespaces api sc applicationNamespaces cfg =
     (case k_new_client api cfg of
        Inl e \<Rightarrow> ret (Some e)
      | Inr cli \<Rightarrow> do {
          r \<leftarrow> for_collect (push_catalog api cli sc) applicationNamespaces;
          ret (join_collected r) })"

definition DeleteServiceBindingAndSecretFromNamespaces ::
  "'s kube \<Rightarrow> cluster \<Rightarrow> ServiceClaim \<Rightarrow> string list \<Rightarrow> ('s, err option) state" where
  "DeleteServiceBindingAndSecretFromNamespaces api cli sc namespaces = do {
     r \<leftarrow> for_collect (\<lambda>ns. do {
            d \<leftarrow> k_delete api cli KServiceBinding (ns, om_name (sc_meta sc));
            ret (case d of Some e \<Rightarrow> if \<not> IsNotFound e then Some e else None | None \<Rightarrow> None) }) namespaces;
     ret (join_collected r) }"

subsection \<open>\<^verbatim>\<open>serviceclasses.go\<close>\<close>

definition set_class_spec :: "ServiceClass \<Rightarrow> obj \<Rightarrow> err + obj" where
  "set_class_spec sc x =
     (case x of OServiceClass c \<Rightarrow> Inr (OServiceClass (c\<lparr>cl_Spec := cl_Spec sc\<rparr>)) | _ \<Rightarrow> Inl decode_err)"

definition empty_class :: "string \<Rightarrow> string \<Rightarrow> ServiceClass" where
  "empty_class ns n =
     \<lparr>cl_meta = new_meta ns n,
      cl_Spec = \<lparr>clsp_Constraints = None, clsp_HealthCheck = None,
        clsp_Resource = \<lparr>scr_APIVersion = '''', scr_Kind = '''', scr_ResourceFields = [], scr_SecretRefFields = []\<rparr>,
        clsp_ServiceClassIdentity = []\<rparr>,
      cl_Conditions = []\<rparr>"

definition PushServiceClassToNamespaces ::
  "'s kube \<Rightarrow> cluster \<Rightarrow> ServiceClass \<Rightarrow> string list \<Rightarrow> ('s, err option) state" where
  "PushServiceClassToNamespaces api cli sc namespaces =
     for_first (\<lambda>ns. do {
       (r, _) \<leftarrow> CreateOrUpdate api cli (OServiceClass (empty_class ns (om_name (cl_meta sc)))) (set_class_spec sc);
       ret (err_of r) }) namespaces"

definition DeleteServiceClassFromNamespaces ::
  "'s kube \<Rightarrow> cluster \<Rightarrow> ServiceClass \<Rightarrow> string list \<Rightarrow> ('s, err option) state" where
  "DeleteServiceClassFromNamespaces api cli sc namespaces =
     for_first (\<lambda>ns. k_delete api cli KServiceClass (ns, om_name (cl_meta sc))) namespaces"

subsection \<open>\<^verbatim>\<open>namespaces\_binder.go\<close>\<close>

record namespacesBinder =
  nb_wcli :: cluster
  nb_kind :: NamespaceType
  nb_agentManifest :: string
  nb_agentImage :: string
  nb_agentConfig :: string
  nb_strategy :: SynchronizationStrategy

definition NewApplicationNamespacesBinder ::
  "cluster \<Rightarrow> string \<Rightarrow> string \<Rightarrow> string \<Rightarrow> SynchronizationStrategy \<Rightarrow> namespacesBinder" where
  "NewApplicationNamespacesBinder wcli manifest img config strategy =
     \<lparr>nb_wcli = wcli, nb_kind = ApplicationNamespaceType, nb_agentManifest = manifest,
      nb_agentImage = img, nb_agentConfig = config, nb_strategy = strategy\<rparr>"

definition NewServiceNamespacesBinder ::
  "cluster \<Rightarrow> string \<Rightarrow> string \<Rightarrow> string \<Rightarrow> SynchronizationStrategy \<Rightarrow> namespacesBinder" where
  "NewServiceNamespacesBinder wcli manifest img config strategy =
     \<lparr>nb_wcli = wcli, nb_kind = ServiceNamespaceType, nb_agentManifest = manifest,
      nb_agentImage = img, nb_agentConfig = config, nb_strategy = strategy\<rparr>"

definition bakeServiceAccountName :: "namespacesBinder \<Rightarrow> string \<Rightarrow> string \<Rightarrow> string" where
  "bakeServiceAccountName b ceName namespace =
     ''primaza-'' @ Short (nb_kind b) @ ''-'' @ ceName @ ''-'' @ namespace"

definition role_binding :: "namespacesBinder \<Rightarrow> string \<Rightarrow> string \<Rightarrow> string \<Rightarrow> string \<Rightarrow> RoleBinding" where
  "role_binding b ceName ceNamespace namespace role =
     \<lparr>rb_meta = (new_meta ceNamespace (bakeRoleBindingName role ceName namespace))
        \<lparr>om_labels := bakeRoleBindingsLabels ceName ceNamespace namespace (nb_kind b)\<rparr>,
      rb_RoleRef = role,
      rb_Subjects = [(''ServiceAccount'', bakeServiceAccountName b ceName namespace)]\<rparr>"

definition createRoleBinding ::
  "'s kube \<Rightarrow> namespacesBinder \<Rightarrow> string \<Rightarrow> string \<Rightarrow> string \<Rightarrow> string \<Rightarrow> ('s, err option) state" where
  "createRoleBinding api b ceName ceNamespace namespace role = do {
     r \<leftarrow> k_create api (k_self api) (ORoleBinding (role_binding b ceName ceNamespace namespace role));
     ret (case r of
            Inl e \<Rightarrow> if \<not> IsAlreadyExists e then Some e else None
          | Inr _ \<Rightarrow> None) }"

definition createRoleBindings ::
  "'s kube \<Rightarrow> namespacesBinder \<Rightarrow> string \<Rightarrow> string \<Rightarrow> string \<Rightarrow> ('s, err option) state" where
  "createRoleBindings api b ceName ceNamespace namespace = do {
     r \<leftarrow> for_collect (createRoleBinding api b ceName ceNamespace namespace) (getAgentRoleNames (nb_kind b));
     ret (join_collected r) }"

definition bindNamespace ::
  "yaml \<Rightarrow> 's kube \<Rightarrow> namespacesBinder \<Rightarrow> string \<Rightarrow> string \<Rightarrow> string \<Rightarrow> ('s, err option) state" where
  "bindNamespace y api b ceName ceNamespace namespace = do {
     r \<leftarrow> createRoleBindings api b ceName ceNamespace namespace;
     case r of
       Some e \<Rightarrow> ret (Some e)
     | None \<Rightarrow> PushAgent y api (nb_wcli b) namespace ceName (nb_agentManifest b) (nb_agentImage b)
                 (nb_agentConfig b) (nb_strategy b) }"

definition BindNamespaces ::
  "yaml \<Rightarrow> 's kube \<Rightarrow> namespacesBinder \<Rightarrow> string \<Rightarrow> string \<Rightarrow> string list \<Rightarrow> ('s, err option) state" where
  "BindNamespaces y api b ceName ceNamespace namespaces = do {
     r \<leftarrow> for_failing (bindNamespace y api b ceName ceNamespace) namespaces;
     ret (case r of
            Inl p \<Rightarrow> Some p
          | Inr ens \<Rightarrow> if length ens \<noteq> 0 then Some (Plain (''error binding namespaces: '' @ show_list ens))
                       else None) }"

subsection \<open>\<^verbatim>\<open>namespaces\_unbinder.go\<close>\<close>

record namespacesUnbinder =
  nu_wcli :: cluster
  nu_kind :: NamespaceType
  nu_deploymentManifest :: string
  nu_configMapManifest :: string

definition NewApplicationNamespacesUnbinder :: "cluster \<Rightarrow> string \<Rightarrow> string \<Rightarrow> namespacesUnbinder" where
  "NewApplicationNamespacesUnbinder wcli d c =
     \<lparr>nu_wcli = wcli, nu_kind = ApplicationNamespaceType, nu_deploymentManifest = d, nu_configMapManifest = c\<rparr>"

definition NewServiceNamespacesUnbinder :: "cluster \<Rightarrow> string \<Rightarrow> string \<Rightarrow> namespacesUnbinder" where
  "NewServiceNamespacesUnbinder wcli d c =
     \<lparr>nu_wcli = wcli, nu_kind = ServiceNamespaceType, nu_deploymentManifest = d, nu_configMapManifest = c\<rparr>"

definition getDeploymentName :: "yaml \<Rightarrow> namespacesUnbinder \<Rightarrow> err + string" where
  "getDeploymentName y u =
     (case y_deployment y (nu_deploymentManifest u) of
        Inl e \<Rightarrow> Inl (Wrapped ''unmarshal deployment error'' e)
      | Inr dep \<Rightarrow> Inr (dm_name dep))"

definition getConfigMapName :: "yaml \<Rightarrow> namespacesUnbinder \<Rightarrow> err + string" where
  "getConfigMapName y u =
     (case y_configmap y (nu_configMapManifest u) of
        Inl e \<Rightarrow> Inl (Wrapped ''unmarshal deployment error'' e)
      | Inr cm \<Rightarrow> Inr (cmm_name cm))"

definition getRoleBindingName :: "string \<Rightarrow> string \<Rightarrow> string" where
  "getRoleBindingName ceName namespace = ''primaza-'' @ ceName @ ''-'' @ namespace"

definition deleteRoleBinding :: "'s kube \<Rightarrow> string \<Rightarrow> string \<Rightarrow> string \<Rightarrow> ('s, err option) state" where
  "deleteRoleBinding api ceName ceNamespace namespace = do {
     r \<leftarrow> k_delete api (k_self api) KRoleBinding (ceNamespace, getRoleBindingName ceName namespace);
     ret (case r of Some e \<Rightarrow> if \<not> IsAlreadyExists e then Some e else None | None \<Rightarrow> None) }"

definition unbindNamespace ::
  "yaml \<Rightarrow> 's kube \<Rightarrow> namespacesUnbinder \<Rightarrow> string \<Rightarrow> string \<Rightarrow> string \<Rightarrow> ('s, err option) state" where
  "unbindNamespace y api u ceName ceNamespace namespace = do {
     r \<leftarrow> deleteRoleBinding api ceName ceNamespace namespace;
     case (case r of Some e \<Rightarrow> IgnoreNotFound e | None \<Rightarrow> None) of
       Some e \<Rightarrow> ret (Some e)
     | None \<Rightarrow>
         (case getDeploymentName y u of
            Inl e \<Rightarrow> ret (Some e)
          | Inr d \<Rightarrow>
              (case getConfigMapName y u of
                 Inl e \<Rightarrow> ret (Some e)
               | Inr c \<Rightarrow> do {
                   q \<leftarrow> DeleteAgent api (nu_wcli u) namespace d c;
                   ret (case q of Some e \<Rightarrow> IgnoreNotFound e | None \<Rightarrow> None) })) }"

definition UnbindNamespaces ::
  "yaml \<Rightarrow> 's kube \<Rightarrow> namespacesUnbinder \<Rightarrow> string \<Rightarrow> string \<Rightarrow> string list \<Rightarrow> ('s, err option) state" where
  "UnbindNamespaces y api u ceName ceNamespace namespaces = do {
     r \<leftarrow> for_failing (unbindNamespace y api u ceName ceNamespace) namespaces;
     ret (case r of
            Inl p \<Rightarrow> Some p
          | Inr ens \<Rightarrow> if length ens \<noteq> 0 then Some (Plain (''error unbinding namespaces: '' @ show_list ens))
                       else None) }"

subsection \<open>\<^verbatim>\<open>namespaces\_reconciler.go\<close>\<close>

record ClusterEnvState =
  ces_Name :: string
  ces_Namespace :: string
  ces_ClusterConfig :: string
  ces_ApplicationNamespaces :: "string list"
  ces_ServiceNamespaces :: "string list"
  ces_AppAgentImage :: string
  ces_SvcAgentImage :: string
  ces_AppAgentManifest :: string
  ces_SvcAgentManifest :: string
  ces_AppAgentConfigManifest :: string
  ces_SvcAgentConfigManifest :: string
  ces_Strategy :: SynchronizationStrategy

record namespacesReconciler =
  nr_env :: ClusterEnvState
  nr_appBinder :: namespacesBinder
  nr_svcBinder :: namespacesBinder
  nr_appUnbinder :: namespacesUnbinder
  nr_svcUnbinder :: namespacesUnbinder

definition NewNamespaceReconciler :: "'s kube \<Rightarrow> ClusterEnvState \<Rightarrow> err + namespacesReconciler" where
  "NewNamespaceReconciler api e =
     (case k_in_cluster api of
        Some er \<Rightarrow> Inl er
      | None \<Rightarrow>
          (case k_new_client api (ces_ClusterConfig e) of
             Inl er \<Rightarrow> Inl er
           | Inr wcli \<Rightarrow> Inr
               \<lparr>nr_env = e,
                nr_appBinder = NewApplicationNamespacesBinder wcli (ces_AppAgentManifest e)
                  (ces_AppAgentImage e) (ces_AppAgentConfigManifest e) (ces_Strategy e),
                nr_svcBinder = NewServiceNamespacesBinder wcli (ces_SvcAgentManifest e)
                  (ces_SvcAgentImage e) (ces_SvcAgentConfigManifest e) (ces_Strategy e),
                nr_appUnbinder = NewApplicationNamespacesUnbinder wcli (ces_AppAgentManifest e)
                  (ces_AppAgentConfigManifest e),
                nr_svcUnbinder = NewServiceNamespacesUnbinder wcli (ces_SvcAgentManifest e)
                  (ces_SvcAgentConfigManifest e)\<rparr>))"

definition getAuthorizedNamespaces ::
  "'s kube \<Rightarrow> namespacesReconciler \<Rightarrow> string \<Rightarrow> NamespaceType \<Rightarrow> ('s, err + string list) state" where
  "getAuthorizedNamespaces api r ceName namespaceType = do {
     l \<leftarrow> k_list api (k_self api) KRoleBinding (ces_Namespace (nr_env r))
            (getRoleBindingsLabelSelectorOrDie ceName namespaceType);
     ret (case map_items rolebindings_of l of
            Inl e \<Rightarrow> Inl e
          | Inr items \<Rightarrow>
              Inr (List.map_filter (\<lambda>rb. gm_get (om_labels (rb_meta rb)) ''primaza.io/namespace'') items)) }"

definition getOrphanNamespaces ::
  "'s kube \<Rightarrow> namespacesReconciler \<Rightarrow> string \<Rightarrow> NamespaceType \<Rightarrow> string list \<Rightarrow> ('s, err + string list) state" where
  "getOrphanNamespaces api r ceName namespaceType requestedNamespaces = do {
     ann \<leftarrow> getAuthorizedNamespaces api r (ces_Name (nr_env r)) namespaceType;
     ret (case ann of
            Inl e \<Rightarrow> Inl e
          | Inr nss \<Rightarrow> Inr (Subtract (k_range api) nss requestedNamespaces)) }"

definition unbindOrphanNamespacesForType ::
  "yaml \<Rightarrow> 's kube \<Rightarrow> namespacesReconciler \<Rightarrow> namespacesUnbinder \<Rightarrow> NamespaceType \<Rightarrow> string list \<Rightarrow>
     ('s, err option) state" where
  "unbindOrphanNamespacesForType y api r ub namespaceType namespaces = do {
     nn \<leftarrow> getOrphanNamespaces api r (ces_Name (nr_env r)) namespaceType namespaces;
     case nn of
       Inl e \<Rightarrow> ret (Some e)
     | Inr nss \<Rightarrow> UnbindNamespaces y api ub (ces_Name (nr_env r)) (ces_Namespace (nr_env r)) nss }"

definition bindNamespaces :: "yaml \<Rightarrow> 's kube \<Rightarrow> namespacesReconciler \<Rightarrow> ('s, err option) state" where
  "bindNamespaces y api r = do {
     aerr \<leftarrow> BindNamespaces y api (nr_appBinder r) (ces_Name (nr_env r)) (ces_Namespace (nr_env r))
               (ces_ApplicationNamespaces (nr_env r));
     case aerr of
       Some (Panic p) \<Rightarrow> ret (Some (Panic p))
     | _ \<Rightarrow> do {
         serr \<leftarrow> BindNamespaces y api (nr_svcBinder r) (ces_Name (nr_env r)) (ces_Namespace (nr_env r))
                   (ces_ServiceNamespaces (nr_env r));
         case serr of
           Some (Panic p) \<Rightarrow> ret (Some (Panic p))
         | _ \<Rightarrow> ret (errors_Join_opt [aerr, serr]) } }"

definition unbindOrphanNamespaces :: "yaml \<Rightarrow> 's kube \<Rightarrow> namespacesReconciler \<Rightarrow> ('s, err option) state" where
  "unbindOrphanNamespaces y api r = do {
     aerr \<leftarrow> unbindOrphanNamespacesForType y api r (nr_appUnbinder r) ApplicationNamespaceType
               (ces_ApplicationNamespaces (nr_env r));
     serr \<leftarrow> unbindOrphanNamespacesForType y api r (nr_svcUnbinder r) ServiceNamespaceType
               (ces_ServiceNamespaces (nr_env r));
     ret (errors_Join_opt [aerr, serr]) }"

definition ReconcileNamespaces :: "yaml \<Rightarrow> 's kube \<Rightarrow> namespacesReconciler \<Rightarrow> ('s, err option) state" where
  "ReconcileNamespaces y api r = do {
     e1 \<leftarrow> bindNamespaces y api r;
     case e1 of
       Some (Panic p) \<Rightarrow> ret (Some (Panic p))
     | _ \<Rightarrow> do {
         e2 \<leftarrow> unbindOrphanNamespaces y api r;
         ret (errors_Join_opt [e1, e2]) } }"

subsection \<open>\<^verbatim>\<open>permission\_checker.go\<close>\<close>

record agentPermissionsChecker =
  apc_cfg :: string
  apc_getResourcePermissions :: "ResourcePermissions list"
  apc_getPermissionList :: "Permission list"

definition NewAgentAppPermissionsChecker :: "string \<Rightarrow> agentPermissionsChecker" where
  "NewAgentAppPermissionsChecker cfg =
     \<lparr>apc_cfg = cfg, apc_getResourcePermissions = GetAgentAppRequiredPermissions,
      apc_getPermissionList = GetAppPermissionList\<rparr>"

definition NewAgentSvcPermissionsChecker :: "string \<Rightarrow> agentPermissionsChecker" where
  "NewAgentSvcPermissionsChecker cfg =
     \<lparr>apc_cfg = cfg, apc_getResourcePermissions = GetAgentSvcRequiredPermissions,
      apc_getPermissionList = GetSvcPermissionList\<rparr>"

definition TestPermissions ::
  "'s kube \<Rightarrow> agentPermissionsChecker \<Rightarrow> string list \<Rightarrow>
     ('s, err + (string, NamespacedPermissionsReport) gomap) state" where
  "TestPermissions api c namespaces =
     TestResourcePermissions api (apc_cfg c) namespaces (apc_getResourcePermissions c)"

definition CheckExcessPermission ::
  "'s kube \<Rightarrow> agentPermissionsChecker \<Rightarrow> string list \<Rightarrow> ('s, err + string list) state" where
  "CheckExcessPermission api c namespaces = AccessList api (apc_cfg c) namespaces (apc_getPermissionList c)"

subsection \<open>What the pushes leave in a namespace\<close>


definition is_catalog :: "ServiceCatalogSpec \<Rightarrow> obj \<Rightarrow> bool" where
  "is_catalog S x = (\<exists>c. x = OServiceCatalog c \<and> cat_Spec c = S)"

definition is_class :: "ServiceClassSpec \<Rightarrow> obj \<Rightarrow> bool" where
  "is_class S x = (\<exists>c. x = OServiceClass c \<and> cl_Spec c = S)"

definition is_binding :: "ServiceBindingSpec \<Rightarrow> obj \<Rightarrow> bool" where
  "is_binding S x = (\<exists>b. x = OServiceBinding b \<and> sb_Spec b = S)"

text \<open>The data of a secret once the server has merged its string data.\<close>

definition secret_content :: "Secret \<Rightarrow> (string, string) gomap" where
  "secret_content s = fold (\<lambda>p. gm_put (fst p) (snd p)) (sec_StringData s) (sec_Data s)"

definition is_secret_with :: "(string, string) gomap \<Rightarrow> obj \<Rightarrow> bool" where
  "is_secret_with d x =
     (\<exists>s. x = OSecret s \<and> (\<forall>k v. gm_get d k = Some v \<longrightarrow> gm_get (secret_content s) k = Some v))"

lemma copy_status_secret: "copy_status st (OSecret s) = OSecret s"
  by (cases st) simp_all

lemma stable_catalog: "storage_stable (is_catalog S)"
  unfolding storage_stable_def
proof (intro allI impI conjI)
  fix y u v st old assume "is_catalog S y"
  then obtain c where "y = OServiceCatalog c" "cat_Spec c = S" by (auto simp: is_catalog_def)
  then show "is_catalog S (populated u v (copy_status st (merge_string_data y)))" "is_catalog S (written old v y)"
    by (cases st; cases old; simp add: is_catalog_def populated_def written_def keep_server_fields_def set_version_def)+
qed

lemma stable_class: "storage_stable (is_class S)"
  unfolding storage_stable_def
proof (intro allI impI conjI)
  fix y u v st old assume "is_class S y"
  then obtain c where "y = OServiceClass c" "cl_Spec c = S" by (auto simp: is_class_def)
  then show "is_class S (populated u v (copy_status st (merge_string_data y)))" "is_class S (written old v y)"
    by (cases st; cases old; simp add: is_class_def populated_def written_def keep_server_fields_def set_version_def)+
qed

lemma stable_binding: "storage_stable (is_binding S)"
  unfolding storage_stable_def
proof (intro allI impI conjI)
  fix y u v st old assume "is_binding S y"
  then obtain b where "y = OServiceBinding b" "sb_Spec b = S" by (auto simp: is_binding_def)
  then show "is_binding S (populated u v (copy_status st (merge_string_data y)))" "is_binding S (written old v y)"
    by (cases st; cases old; simp add: is_binding_def populated_def written_def keep_server_fields_def set_version_def)+
qed

lemma stable_secret: "storage_stable (is_secret_with d)"
  unfolding storage_stable_def
proof (intro allI impI conjI)
  fix y u v st old assume "is_secret_with d y"
  then obtain s where "y = OSecret s" "\<forall>k v. gm_get d k = Some v \<longrightarrow> gm_get (secret_content s) k = Some v"
    by (auto simp: is_secret_with_def)
  then show "is_secret_with d (populated u v (copy_status st (merge_string_data y)))"
    "is_secret_with d (written old v y)"
    by (simp_all add: is_secret_with_def populated_def written_def keep_server_fields_def set_version_def
        copy_status_secret secret_content_def)
qed

lemma set_catalog_spec_mutates: "mutates_to (is_catalog (cat_Spec sc)) (set_catalog_spec sc)"
  by (auto simp: mutates_to_def set_catalog_spec_def is_catalog_def split: obj.splits)

lemma set_class_spec_mutates: "mutates_to (is_class (cl_Spec sc)) (set_class_spec sc)"
  by (auto simp: mutates_to_def set_class_spec_def is_class_def split: obj.splits)

lemma mutate_binding_mutates: "mutates_to (is_binding (binding_spec sc)) (mutate_binding sc)"
  by (auto simp: mutates_to_def mutate_binding_def is_binding_def split: obj.splits option.splits)

lemma set_string_data_mutates:
  assumes "gm_wf d"
  shows "mutates_to (is_secret_with d) (set_string_data d)"
proof -
  have "gm_get (fold (\<lambda>p. gm_put (fst p) (snd p)) d m) k = Some v" if "gm_get d k = Some v" for m k v
  proof -
    from that assms have kv: "(k, v) \<in> set d" and dist: "distinct (map fst d)"
      by (auto simp: gm_get_def gm_wf_def dest: map_of_SomeD)
    then obtain p where "find (\<lambda>x. fst x = k) (rev d) = Some p"
      by (cases "find (\<lambda>x. fst x = k) (rev d)") (auto simp: find_None_iff)
    moreover from this have "p \<in> set d" "fst p = k"
      using find_Some_in [of _ "rev d"] find_Some_holds [of _ "rev d"] by fastforce+
    with kv dist have "p = (k, v)" by (metis eq_key_imp_eq_value prod.collapse)
    ultimately show ?thesis by (simp add: gm_get_fold_put)
  qed
  then show ?thesis
    by (auto simp: mutates_to_def set_string_data_def is_secret_with_def secret_content_def split: obj.splits)
qed

context kube_store
begin

lemma modifies_push_catalog [frame_intros]:
  "(cli, KServiceCatalog, (ns, om_name (cat_meta sc))) \<in> K \<Longrightarrow> modifies objs K (push_catalog api cli sc ns)"
  unfolding push_catalog_def
  by (auto intro!: frame_intros mutates_to_keeps_kind [OF set_catalog_spec_mutates] split: prod.split
      simp: obj_key_def empty_catalog_def)

lemma push_catalog_establishes:
  "establishes (\<lambda>ns s. \<exists>x. objs s cli KServiceCatalog (ns, om_name (cat_meta sc)) = Some x \<and>
     is_catalog (cat_Spec sc) x) UNIV (push_catalog api cli sc)"
proof (rule establishesI)
  fix ns s s' assume "run_state (push_catalog api cli sc ns) s = (None, s')"
  then obtain op z where run: "run_state (CreateOrUpdate api cli
      (OServiceCatalog (empty_catalog ns (om_name (cat_meta sc)))) (set_catalog_spec sc)) s = ((Inr op, z), s')"
    by (auto simp: push_catalog_def err_of_def split: prod.splits sum.splits)
  have "objs s' cli KServiceCatalog (ns, om_name (cat_meta sc)) = Some z \<and> is_catalog (cat_Spec sc) z"
    using CreateOrUpdate_stores [OF run set_catalog_spec_mutates stable_catalog]
    by (simp add: obj_key_def empty_catalog_def)
  then show "\<exists>x. objs s' cli KServiceCatalog (ns, om_name (cat_meta sc)) = Some x \<and> is_catalog (cat_Spec sc) x"
    by blast
next
  fix ns ns' s s' assume ne: "ns' \<noteq> ns" and run: "run_state (push_catalog api cli sc ns) s = (None, s')"
    and ex: "\<exists>x. objs s cli KServiceCatalog (ns', om_name (cat_meta sc)) = Some x \<and> is_catalog (cat_Spec sc) x"
  have "modifies objs {(cli, KServiceCatalog, (ns, om_name (cat_meta sc)))} (push_catalog api cli sc ns)"
    by (intro frame_intros) simp
  from modifies_run [OF this run] ne ex
  show "\<exists>x. objs s' cli KServiceCatalog (ns', om_name (cat_meta sc)) = Some x \<and> is_catalog (cat_Spec sc) x"
    by (simp add: same_but_def)
qed

end

subsection \<open>Names\<close>

lemma agent_roles: "role \<in> set (getAgentRoleNames k) \<Longrightarrow> role = ''primaza-reporter'' \<or> role = ''primaza-claimer''"
  by (cases k) (auto simp: getAgentRoleNames_def agentRoles_def)

lemma bakeRoleBindingName_reporter [simp]:
  "bakeRoleBindingName ''primaza-reporter'' ce ns = ''primaza-reporter-'' @ ce @ ''-'' @ ns"
  "bakeRoleBindingName ''primaza-claimer'' ce ns = ''primaza-claimer-'' @ ce @ ''-'' @ ns"
  by (simp_all add: bakeRoleBindingName_def trim_prefix_def has_prefix_def)

lemma role_binding_names_differ:
  "role \<in> set (getAgentRoleNames k) \<Longrightarrow> bakeRoleBindingName role ce ns \<noteq> getRoleBindingName ce ns"
proof
  assume "role \<in> set (getAgentRoleNames k)" and eq: "bakeRoleBindingName role ce ns = getRoleBindingName ce ns"
  then have "length (bakeRoleBindingName role ce ns) > length (getRoleBindingName ce ns)"
    by (auto dest!: agent_roles simp: getRoleBindingName_def)
  with eq show False by simp
qed

subsection \<open>Frames and effects of the other operations\<close>

context kube_store
begin

lemma modifies_push_class:
  "(cli, KServiceClass, (ns, n)) \<in> K \<Longrightarrow>
     modifies objs K (do { (r, _) \<leftarrow> CreateOrUpdate api cli (OServiceClass (empty_class ns n)) (set_class_spec sc);
                           ret (err_of r) })"
  by (auto intro!: frame_intros mutates_to_keeps_kind [OF set_class_spec_mutates] split: prod.split
      simp: obj_key_def empty_class_def)

lemma push_class_establishes:
  "establishes (\<lambda>ns s. \<exists>x. objs s cli KServiceClass (ns, n) = Some x \<and> is_class (cl_Spec sc) x) UNIV
     (\<lambda>ns. do { (r, _) \<leftarrow> CreateOrUpdate api cli (OServiceClass (empty_class ns n)) (set_class_spec sc);
               ret (err_of r) })"
proof (rule establishesI)
  fix ns s s'
  assume "run_state (do { (r, _) \<leftarrow> CreateOrUpdate api cli (OServiceClass (empty_class ns n)) (set_class_spec sc);
               ret (err_of r) }) s = (None, s')"
  then obtain op z where run: "run_state (CreateOrUpdate api cli (OServiceClass (empty_class ns n))
      (set_class_spec sc)) s = ((Inr op, z), s')"
    by (auto simp: err_of_def split: prod.splits sum.splits)
  from CreateOrUpdate_stores [OF run set_class_spec_mutates stable_class]
  show "\<exists>x. objs s' cli KServiceClass (ns, n) = Some x \<and> is_class (cl_Spec sc) x"
    by (simp add: obj_key_def empty_class_def)
next
  fix ns ns' s s'
  assume ne: "ns' \<noteq> ns" and ex: "\<exists>x. objs s cli KServiceClass (ns', n) = Some x \<and> is_class (cl_Spec sc) x"
    and run: "run_state (do { (r, _) \<leftarrow> CreateOrUpdate api cli (OServiceClass (empty_class ns n)) (set_class_spec sc);
               ret (err_of r) }) s = (None, s')"
  have "modifies objs {(cli, KServiceClass, (ns, n))}
      (do { (r, _) \<leftarrow> CreateOrUpdate api cli (OServiceClass (empty_class ns n)) (set_class_spec sc);
            ret (err_of r) })"
    by (rule modifies_push_class) simp
  from modifies_run [OF this run] ne ex
  show "\<exists>x. objs s' cli KServiceClass (ns', n) = Some x \<and> is_class (cl_Spec sc) x"
    by (simp add: same_but_def)
qed

lemma modifies_PushServiceClass [frame_intros]:
  "(\<And>ns. ns \<in> set nss \<Longrightarrow> (cli, KServiceClass, (ns, om_name (cl_meta sc))) \<in> K) \<Longrightarrow>
     modifies objs K (PushServiceClassToNamespaces api cli sc nss)"
  unfolding PushServiceClassToNamespaces_def
  by (intro modifies_for_first modifies_push_class)

lemma modifies_DeleteServiceClass [frame_intros]:
  "(\<And>ns. ns \<in> set nss \<Longrightarrow> (cli, KServiceClass, (ns, om_name (cl_meta sc))) \<in> K) \<Longrightarrow>
     modifies objs K (DeleteServiceClassFromNamespaces api cli sc nss)"
  unfolding DeleteServiceClassFromNamespaces_def by (intro frame_intros)

lemma modifies_PushServiceCatalog [frame_intros]:
  "(\<And>cli ns. k_new_client api cfg = Inr cli \<Longrightarrow> ns \<in> set nss \<Longrightarrow>
      (cli, KServiceCatalog, (ns, om_name (cat_meta sc))) \<in> K) \<Longrightarrow>
     modifies objs K (PushServiceCatalogToApplicationNamespaces api sc nss cfg)"
  unfolding PushServiceCatalogToApplicationNamespaces_def
  by (auto intro!: frame_intros split: sum.split)

lemma modifies_createRoleBinding [frame_intros]:
  "(k_self api, KRoleBinding, (cens, bakeRoleBindingName role ce ns)) \<in> K \<Longrightarrow>
     modifies objs K (createRoleBinding api b ce cens ns role)"
  unfolding createRoleBinding_def
  by (auto intro!: frame_intros simp: obj_key_def role_binding_def meta_key_def)

lemma modifies_unbindNamespace [frame_intros]:
  "(k_self api, KRoleBinding, (cens, getRoleBindingName ce ns)) \<in> K \<Longrightarrow>
   (\<And>n. (nu_wcli u, KDeployment, (ns, n)) \<in> K) \<Longrightarrow> (\<And>n. (nu_wcli u, KConfigMap, (ns, n)) \<in> K) \<Longrightarrow>
     modifies objs K (unbindNamespace y api u ce cens ns)"
  unfolding unbindNamespace_def deleteRoleBinding_def
  by (auto intro!: frame_intros split: sum.split option.split)

lemma modifies_UnbindNamespaces [frame_intros]:
  "(\<And>ns. ns \<in> set nss \<Longrightarrow> (k_self api, KRoleBinding, (cens, getRoleBindingName ce ns)) \<in> K) \<Longrightarrow>
   (\<And>ns n. (nu_wcli u, KDeployment, (ns, n)) \<in> K) \<Longrightarrow> (\<And>ns n. (nu_wcli u, KConfigMap, (ns, n)) \<in> K) \<Longrightarrow>
     modifies objs K (UnbindNamespaces y api u ce cens nss)"
  unfolding UnbindNamespaces_def by (intro frame_intros)

lemma createRoleBinding_establishes:
  "establishes (\<lambda>role s. objs s (k_self api) KRoleBinding (cens, bakeRoleBindingName role ce ns) \<noteq> None)
     (set (getAgentRoleNames k)) (createRoleBinding api b ce cens ns)"
proof (rule establishesI)
  let ?rb = "\<lambda>role. ORoleBinding (role_binding b ce cens ns role)"
  have key: "obj_kind (?rb role) = KRoleBinding" "obj_key (?rb role) = (cens, bakeRoleBindingName role ce ns)" for role
    by (simp_all add: obj_key_def role_binding_def meta_key_def)
  fix role s s' assume "run_state (createRoleBinding api b ce cens ns role) s = (None, s')"
  then obtain r where r: "run_state (k_create api (k_self api) (?rb role)) s = (r, s')"
      "\<And>e. r = Inl e \<Longrightarrow> IsAlreadyExists e"
    by (auto simp: createRoleBinding_def split: prod.splits sum.splits if_splits)
  show "objs s' (k_self api) KRoleBinding (cens, bakeRoleBindingName role ce ns) \<noteq> None"
  proof (cases r)
    case (Inl e)
    with create_exists [of "k_self api" "?rb role" s e s'] r key show ?thesis by auto
  next
    case (Inr z)
    with create_ok [of "k_self api" "?rb role" s z s'] r key show ?thesis by auto
  qed
next
  fix role role' s s'
  assume roles: "role \<in> set (getAgentRoleNames k)" "role' \<in> set (getAgentRoleNames k)" "role' \<noteq> role"
  then show "objs s' (k_self api) KRoleBinding (cens, bakeRoleBindingName role' ce ns) \<noteq> None"
    by (cases k) (auto simp: getAgentRoleNames_def agentRoles_def)
qed

end

context kube_store
begin

lemma run_createRoleBindings_ok:
  assumes "run_state (createRoleBindings api b ce cens ns) s = (None, s')"
  shows "\<forall>role\<in>set (getAgentRoleNames (nb_kind b)).
    objs s' (k_self api) KRoleBinding (cens, bakeRoleBindingName role ce ns) \<noteq> None"
proof -
  from assms have "run_state (for_collect (createRoleBinding api b ce cens ns) (getAgentRoleNames (nb_kind b))) s
      = (Inr [], s')"
    by (auto simp: createRoleBindings_def split: prod.splits)
  from for_collect_establishes [OF createRoleBinding_establishes order_refl this] show ?thesis by blast
qed

lemma modifies_bindNamespace [frame_intros]:
  "(\<And>role. role \<in> set (getAgentRoleNames (nb_kind b)) \<Longrightarrow>
      (k_self api, KRoleBinding, (cens, bakeRoleBindingName role ce ns)) \<in> K) \<Longrightarrow>
   (\<And>n. (nb_wcli b, KDeployment, (ns, n)) \<in> K) \<Longrightarrow> (\<And>n. (nb_wcli b, KConfigMap, (ns, n)) \<in> K) \<Longrightarrow>
     modifies objs K (bindNamespace y api b ce cens ns)"
  unfolding bindNamespace_def createRoleBindings_def
  by (auto intro!: frame_intros split: option.split)

lemma bindNamespace_establishes:
  "establishes (\<lambda>ns s. \<forall>role\<in>set (getAgentRoleNames (nb_kind b)).
     objs s (k_self api) KRoleBinding (cens, bakeRoleBindingName role ce ns) \<noteq> None) UNIV
     (bindNamespace y api b ce cens)"
proof (rule establishesI)
  fix ns s s' assume run: "run_state (bindNamespace y api b ce cens ns) s = (None, s')"
  then obtain t where t: "run_state (createRoleBindings api b ce cens ns) s = (None, t)"
    and p: "run_state (PushAgent y api (nb_wcli b) ns ce (nb_agentManifest b) (nb_agentImage b)
                 (nb_agentConfig b) (nb_strategy b)) t = (None, s')"
    by (auto simp: bindNamespace_def split: prod.splits option.splits)
  have "modifies objs {(c, k, n). k = KDeployment \<or> k = KConfigMap}
      (PushAgent y api (nb_wcli b) ns ce (nb_agentManifest b) (nb_agentImage b)
                 (nb_agentConfig b) (nb_strategy b))"
    by (intro frame_intros) simp_all
  from modifies_run [OF this p] run_createRoleBindings_ok [OF t]
  show "\<forall>role\<in>set (getAgentRoleNames (nb_kind b)).
     objs s' (k_self api) KRoleBinding (cens, bakeRoleBindingName role ce ns) \<noteq> None"
    by (simp add: same_but_def)
next
  fix ns ns' s s'
  assume ne: "ns' \<noteq> ns" and run: "run_state (bindNamespace y api b ce cens ns) s = (None, s')"
    and ex: "\<forall>role\<in>set (getAgentRoleNames (nb_kind b)).
     objs s (k_self api) KRoleBinding (cens, bakeRoleBindingName role ce ns') \<noteq> None"
  let ?K = "{(c, k, n). k = KDeployment \<or> k = KConfigMap} \<union>
     (\<lambda>role. (k_self api, KRoleBinding, (cens, bakeRoleBindingName role ce ns))) ` set (getAgentRoleNames (nb_kind b))"
  have "modifies objs ?K (bindNamespace y api b ce cens ns)"
    by (intro frame_intros) auto
  from modifies_run [OF this run] ne ex
  show "\<forall>role\<in>set (getAgentRoleNames (nb_kind b)).
     objs s' (k_self api) KRoleBinding (cens, bakeRoleBindingName role ce ns') \<noteq> None"
    by (cases "nb_kind b") (auto simp: same_but_def getAgentRoleNames_def agentRoles_def)
qed

lemma push_binding_steps:
  assumes "run_state (pushServiceBindingToNamespace api cli ns sc secret) s = ((None, secret'), s')"
  obtains op1 z1 s1 s2 op2 x m where
    "run_state (CreateOrUpdate api cli (OServiceBinding (new_binding sc ns)) (mutate_binding sc)) s
       = ((Inr op1, z1), s1)"
    and "objs s2 = objs s1"
    and "run_state (CreateOrUpdate api cli (OSecret (secret\<lparr>sec_meta := m\<rparr>))
       (set_string_data (sec_StringData secret))) s2 = ((Inr op2, x), s')"
    and "om_namespace m = ns" and "om_name m = om_name (sec_meta secret)"
    and "om_resourceVersion m = om_resourceVersion (sec_meta secret)"
    and "secret' = as_secret (secret\<lparr>sec_meta := m\<rparr>) x"
proof -
  from assms obtain op1 z1 s1 sb s2 op2 x where
    r1: "run_state (CreateOrUpdate api cli (OServiceBinding (new_binding sc ns)) (mutate_binding sc)) s
      = ((Inr op1, z1), s1)"
    and r2: "run_state (get_binding api cli (ns, om_name (sc_meta sc))) s1 = (Inr sb, s2)"
    and r3: "run_state (CreateOrUpdate api cli (OSecret (secret\<lparr>sec_meta := (sec_meta secret)
        \<lparr>om_owners := [\<lparr>or_apiVersion = ''primaza.io/v1alpha1'', or_kind = ''ServiceBinding'',
          or_name = om_name (sc_meta sc), or_uid = om_uid (sb_meta sb), or_controller = False\<rparr>],
         om_namespace := ns\<rparr>\<rparr>)) (set_string_data (sec_StringData secret))) s2 = ((Inr op2, x), s')"
    and x: "secret' = as_secret (secret\<lparr>sec_meta := (sec_meta secret)
        \<lparr>om_owners := [\<lparr>or_apiVersion = ''primaza.io/v1alpha1'', or_kind = ''ServiceBinding'',
          or_name = om_name (sc_meta sc), or_uid = om_uid (sb_meta sb), or_controller = False\<rparr>],
         om_namespace := ns\<rparr>\<rparr>) x"
    by (auto simp: pushServiceBindingToNamespace_def Let_def err_of_def split: prod.splits sum.splits)
  have "modifies objs {} (get_binding api cli (ns, om_name (sc_meta sc)))"
    unfolding get_binding_def by (intro frame_intros)
  from modifies_run [OF this r2] have "objs s2 = objs s1" by (auto simp: same_but_def fun_eq_iff)
  from that [OF r1 this r3 _ _ _ x] show thesis by simp
qed

lemma keeps_kind_set_string_data: "keeps_kind (set_string_data d)"
  by (auto simp: keeps_kind_def set_string_data_def split: obj.splits)

lemma new_binding_key:
  "obj_kind (OServiceBinding (new_binding sc ns)) = KServiceBinding"
  "obj_key (OServiceBinding (new_binding sc ns)) = (ns, om_name (sc_meta sc))"
  by (simp_all add: obj_key_def new_binding_def)

lemma modifies_push_binding [frame_intros]:
  assumes "(cli, KServiceBinding, (ns, om_name (sc_meta sc))) \<in> K"
    and "(cli, KSecret, (ns, om_name (sec_meta secret))) \<in> K"
  shows "modifies objs K (pushServiceBindingToNamespace api cli ns sc secret)"
  unfolding pushServiceBindingToNamespace_def get_binding_def Let_def
  using assms
  by (auto intro!: frame_intros mutates_to_keeps_kind [OF mutate_binding_mutates] keeps_kind_set_string_data
      split: prod.split sum.split simp: new_binding_def obj_key_def meta_key_def)

lemma push_binding_to_namespace_ok:
  assumes run: "run_state (pushServiceBindingToNamespace api cli ns sc secret) s = ((None, secret'), s')"
    and wf: "gm_wf (sec_StringData secret)"
  shows "\<exists>x y. objs s' cli KServiceBinding (ns, om_name (sc_meta sc)) = Some x \<and> is_binding (binding_spec sc) x \<and>
    objs s' cli KSecret (ns, om_name (sec_meta secret)) = Some y \<and> is_secret_with (sec_StringData secret) y"
proof (rule push_binding_steps [OF run])
  fix op1 z1 s1 s2 op2 x m
  assume r1: "run_state (CreateOrUpdate api cli (OServiceBinding (new_binding sc ns)) (mutate_binding sc)) s
       = ((Inr op1, z1), s1)"
    and s2: "objs s2 = objs s1"
    and r3: "run_state (CreateOrUpdate api cli (OSecret (secret\<lparr>sec_meta := m\<rparr>))
       (set_string_data (sec_StringData secret))) s2 = ((Inr op2, x), s')"
    and m: "om_namespace m = ns" "om_name m = om_name (sec_meta secret)"
  have key: "obj_kind (OSecret (secret\<lparr>sec_meta := m\<rparr>)) = KSecret"
    "obj_key (OSecret (secret\<lparr>sec_meta := m\<rparr>)) = (ns, om_name (sec_meta secret))"
    by (simp_all add: obj_key_def meta_key_def m)
  from CreateOrUpdate_stores [OF r1 mutate_binding_mutates stable_binding, unfolded new_binding_key]
  have b1: "objs s1 cli KServiceBinding (ns, om_name (sc_meta sc)) = Some z1" "is_binding (binding_spec sc) z1"
    by blast+
  have "modifies objs {(cli, KSecret, (ns, om_name (sec_meta secret)))}
      (CreateOrUpdate api cli (OSecret (secret\<lparr>sec_meta := m\<rparr>)) (set_string_data (sec_StringData secret)))"
    by (intro frame_intros keeps_kind_set_string_data) (simp add: key)
  from modifies_run [OF this r3] b1 s2
  have "objs s' cli KServiceBinding (ns, om_name (sc_meta sc)) = Some z1" by (simp add: same_but_def)
  with b1(2) CreateOrUpdate_stores [OF r3 set_string_data_mutates [OF wf] stable_secret, unfolded key]
  show ?thesis by blast
qed

text \<open>A secret that is new to the namespace comes back with a version.\<close>

lemma push_fresh_secret:
  assumes run: "run_state (pushServiceBindingToNamespace api cli ns sc secret) s = ((None, secret'), s')"
    and none: "objs s cli KSecret (ns, om_name (sec_meta secret)) = None"
  shows "om_resourceVersion (sec_meta secret) = '''' \<and> om_resourceVersion (sec_meta secret') \<noteq> '''' \<and>
    om_name (sec_meta secret') = om_name (sec_meta secret)"
proof (rule push_binding_steps [OF run])
  fix op1 z1 s1 s2 op2 x m
  assume r1: "run_state (CreateOrUpdate api cli (OServiceBinding (new_binding sc ns)) (mutate_binding sc)) s
       = ((Inr op1, z1), s1)"
    and s2: "objs s2 = objs s1"
    and r3: "run_state (CreateOrUpdate api cli (OSecret (secret\<lparr>sec_meta := m\<rparr>))
       (set_string_data (sec_StringData secret))) s2 = ((Inr op2, x), s')"
    and m: "om_namespace m = ns" "om_name m = om_name (sec_meta secret)"
      "om_resourceVersion m = om_resourceVersion (sec_meta secret)"
    and x: "secret' = as_secret (secret\<lparr>sec_meta := m\<rparr>) x"
  have key: "obj_kind (OSecret (secret\<lparr>sec_meta := m\<rparr>)) = KSecret"
    "obj_key (OSecret (secret\<lparr>sec_meta := m\<rparr>)) = (ns, om_name (sec_meta secret))"
    by (simp_all add: obj_key_def meta_key_def m)
  have "modifies objs {(cli, KServiceBinding, (ns, om_name (sc_meta sc)))}
      (CreateOrUpdate api cli (OServiceBinding (new_binding sc ns)) (mutate_binding sc))"
    by (intro frame_intros mutates_to_keeps_kind [OF mutate_binding_mutates]) (simp add: new_binding_key)
  from modifies_run [OF this r1] none s2
  have none2: "objs s2 cli KSecret (ns, om_name (sec_meta secret)) = None" by (simp add: same_but_def)
  from CreateOrUpdate_ok [OF r3 keeps_kind_set_string_data, unfolded key] none2
  obtain y where y: "set_string_data (sec_StringData secret) (OSecret (secret\<lparr>sec_meta := m\<rparr>)) = Inr y"
    and v: "om_resourceVersion (obj_meta y) = ''''" "om_resourceVersion (obj_meta x) \<noteq> ''''"
    and st: "objs s' cli KSecret (ns, om_name (sec_meta secret)) = Some x" by auto
  from keyed [OF st] obtain q where q: "x = OSecret q" by (cases x) auto
  from y v m have "om_resourceVersion (sec_meta secret) = ''''" by (auto simp: set_string_data_def)
  with x q v keyed [OF st] show ?thesis by (simp add: as_secret_def obj_key_def meta_key_def)
qed

lemma second_namespace_fails:
  assumes "ns1 \<noteq> ns2" and "objs s cli KSecret (ns1, om_name (sec_meta secret)) = None"
    and "objs s cli KSecret (ns2, om_name (sec_meta secret)) = None"
  shows "run_state (push_bindings_loop api cli sc None secret (ns1 # ns2 # nss)) s \<noteq> ((Inr [], secret'), s')"
proof
  assume "run_state (push_bindings_loop api cli sc None secret (ns1 # ns2 # nss)) s = ((Inr [], secret'), s')"
  then obtain sec1 t1 sec2 t2 where
    one: "run_state (pushServiceBindingToNamespace api cli ns1 sc secret) s = ((None, sec1), t1)" and
    two: "run_state (pushServiceBindingToNamespace api cli ns2 sc sec1) t1 = ((None, sec2), t2)"
    by (auto split: prod.splits option.splits if_splits sum.splits)
  note fresh = push_fresh_secret [OF one assms(2)]
  have "modifies objs {(cli, KServiceBinding, (ns1, om_name (sc_meta sc))),
      (cli, KSecret, (ns1, om_name (sec_meta secret)))} (pushServiceBindingToNamespace api cli ns1 sc secret)"
    by (intro frame_intros) simp_all
  from modifies_run [OF this one] assms(1,3) fresh
  have "objs t1 cli KSecret (ns2, om_name (sec_meta sec1)) = None" by (simp add: same_but_def)
  from push_fresh_secret [OF two this] fresh show False by simp
qed

end

subsection \<open>Sample objects\<close>

definition sample_claim :: "string \<Rightarrow> ServiceClaim" where
  "sample_claim n =
     \<lparr>sc_meta = new_meta ''primaza-system'' n,
      sc_Spec = \<lparr>scsp_ServiceClassIdentity = [\<lparr>sci_Name = ''type'', sci_Value = ''sql''\<rparr>],
        scsp_ServiceEndpointDefinitionKeys = [''host''],
        scsp_Application = \<lparr>as_APIVersion = ''apps/v1'', as_Kind = ''Deployment'', as_Name = ''app'',
          as_Selector = None\<rparr>,
        scsp_Target = None, scsp_Envs = []\<rparr>,
      sc_Status = \<lparr>scst_State = ClaimPending, scst_ClaimID = ''id'',
        scst_RegisteredService = Some \<lparr>ref_Name = ''db'', ref_UID = ''u''\<rparr>, scst_Conditions = []\<rparr>\<rparr>"

definition sample_secret :: "string \<Rightarrow> Secret" where
  "sample_secret n =
     \<lparr>sec_meta = new_meta '''' n, sec_Data = [], sec_StringData = [(''host'', ''db.local'')]\<rparr>"

definition empty_mem :: mem where
  "empty_mem = \<lparr>m_objs = [], m_tick = 0, m_down = [], m_rules = []\<rparr>"

lemma run_push_loop_skip:
  "ns \<notin> set nss \<Longrightarrow> push_bindings_loop api cli sc (Some ns) secret nss = ret (Inr [], secret)"
  by (induction nss arbitrary: secret) auto

lemma run_push_loop_target:
  assumes "run_state (push_bindings_loop api cli sc (Some ns) secret nss) s = ((Inr [], secret'), s')"
    and "ns \<in> set nss" and "distinct nss"
  shows "run_state (pushServiceBindingToNamespace api cli ns sc secret) s = ((None, secret'), s')"
  using assms
proof (induction nss)
  case (Cons m nss)
  show ?case
  proof (cases "m = ns")
    case True
    with Cons.prems have skip: "push_bindings_loop api cli sc (Some ns) sec nss = ret (Inr [], sec)" for sec
      by (simp add: run_push_loop_skip)
    from Cons.prems(1) True show ?thesis
      by (auto simp: skip split: prod.splits option.splits if_splits)
  next
    case False
    with Cons show ?thesis by simp
  qed
qed simp

text \<open>When the push of a service binding to the namespace of an application reports no error, that
  namespace holds the service binding with the claim's application and environment variables, and a
  secret with every key and value of the service endpoint definition.\<close>

theorem PushServiceBinding_pushes:
  assumes "kube_store api objs" and "k_new_client api cfg = Inr cli"
    and "run_state (PushServiceBinding api sc secret (Some ns) nss cfg) s = ((None, secret'), s')"
    and "ns \<in> set nss" and "distinct nss" and "gm_wf (sec_StringData secret)"
  shows "(\<exists>b. objs s' cli KServiceBinding (ns, om_name (sc_meta sc)) = Some (OServiceBinding b) \<and>
      sb_Spec b = \<lparr>sbsp_ServiceEndpointDefinitionSecret = om_name (sc_meta sc),
        sbsp_Application = scsp_Application (sc_Spec sc), sbsp_Envs = scsp_Envs (sc_Spec sc)\<rparr>) \<and>
    (\<exists>x. objs s' cli KSecret (ns, om_name (sec_meta secret)) = Some (OSecret x) \<and>
      (\<forall>k v. gm_get (sec_StringData secret) k = Some v \<longrightarrow> gm_get (secret_content x) k = Some v))"
proof -
  from assms(3) obtain r where "run_state (push_bindings_loop api cli sc (Some ns) secret nss) s = ((r, secret'), s')"
    and "join_collected r = None"
    by (auto simp: PushServiceBinding_def assms(2) split: prod.splits)
  then have "run_state (push_bindings_loop api cli sc (Some ns) secret nss) s = ((Inr [], secret'), s')" by simp
  from run_push_loop_target [OF this assms(4,5)]
  have "run_state (pushServiceBindingToNamespace api cli ns sc secret) s = ((None, secret'), s')" .
  from kube_store.push_binding_to_namespace_ok [OF assms(1) this assms(6)] show ?thesis
    by (auto simp: is_binding_def is_secret_with_def binding_spec_def)
qed

theorem PushServiceBinding_pushes_witness:
  "\<exists>secret' s'. run_state (PushServiceBinding (mem_api [(''kc'', 1)] 0) (sample_claim ''c'')
       (sample_secret ''c'') (Some ''apps'') [''other'', ''apps''] ''kc'') empty_mem = ((None, secret'), s') \<and>
     (\<exists>x. mem_objs s' 1 KSecret (''apps'', ''c'') = Some (OSecret x) \<and>
        gm_get (secret_content x) ''host'' = Some ''db.local'')"
proof -
  have "fst (fst (run_state (PushServiceBinding (mem_api [(''kc'', 1)] 0) (sample_claim ''c'')
     (sample_secret ''c'') (Some ''apps'') [''other'', ''apps''] ''kc'') empty_mem)) = None" by code_simp
  then obtain secret' s' where run: "run_state (PushServiceBinding (mem_api [(''kc'', 1)] 0) (sample_claim ''c'')
     (sample_secret ''c'') (Some ''apps'') [''other'', ''apps''] ''kc'') empty_mem = ((None, secret'), s')"
    by (metis prod.collapse)
  have "k_new_client (mem_api [(''kc'', 1)] 0) ''kc'' = Inr 1" by (simp add: mem_api_def)
  from PushServiceBinding_pushes [OF mem.kube_store_axioms this run]
  have "\<exists>x. mem_objs s' 1 KSecret (''apps'', ''c'') = Some (OSecret x) \<and>
        gm_get (secret_content x) ''host'' = Some ''db.local''"
    by (auto simp: sample_secret_def gm_wf_def gm_get_def)
  with run show ?thesis by blast
qed

text \<open>A claim without an application namespace of its own is pushed to every application namespace of
  an environment with one secret value; when the first two of them do not have the secret yet, the
  push always reports an error, because the secret carries the version it got in the first namespace
  into the second Create.\<close>

theorem PushServiceBinding_second_namespace_fails:
  assumes store: "kube_store api objs" and cli: "k_new_client api cfg = Inr cli" and "ns1 \<noteq> ns2"
    and "objs s cli KSecret (ns1, om_name (sec_meta secret)) = None"
    and "objs s cli KSecret (ns2, om_name (sec_meta secret)) = None"
  shows "fst (fst (run_state (PushServiceBinding api sc secret None (ns1 # ns2 # nss) cfg) s)) \<noteq> None"
proof
  assume "fst (fst (run_state (PushServiceBinding api sc secret None (ns1 # ns2 # nss) cfg) s)) = None"
  then obtain secret' s' where
    "run_state (push_bindings_loop api cli sc None secret (ns1 # ns2 # nss)) s = ((Inr [], secret'), s')"
    by (auto simp: PushServiceBinding_def cli split: prod.splits)
  with kube_store.second_namespace_fails [OF store assms(3,4,5)] show False by blast
qed

theorem PushServiceBinding_second_namespace_fails_witness:
  "fst (fst (run_state (PushServiceBinding (mem_api [(''kc'', 1)] 0) (sample_claim ''c'')
     (sample_secret ''c'') None [''a'', ''b''] ''kc'') empty_mem)) \<noteq> None"
  by (rule PushServiceBinding_second_namespace_fails [OF mem.kube_store_axioms, of _ _ _ 1])
    (simp_all add: mem_api_def sample_secret_def mem_objs_def empty_mem_def)

text \<open>When a service catalog is pushed to the application namespaces without an error, each of
  them holds a catalog of that name with exactly the control plane's list of services.\<close>

theorem PushServiceCatalog_pushes:
  assumes "kube_store api objs" and "k_new_client api cfg = Inr cli"
    and "run_state (PushServiceCatalogToApplicationNamespaces api sc nss cfg) s = (None, s')"
    and "ns \<in> set nss"
  shows "\<exists>c. objs s' cli KServiceCatalog (ns, om_name (cat_meta sc)) = Some (OServiceCatalog c) \<and>
    cat_Spec c = cat_Spec sc"
proof -
  from assms(2,3) have "run_state (for_collect (push_catalog api cli sc) nss) s = (Inr [], s')"
    by (auto simp: PushServiceCatalogToApplicationNamespaces_def split: prod.splits)
  from for_collect_establishes [OF kube_store.push_catalog_establishes [OF assms(1)] subset_UNIV this] assms(4)
  show ?thesis by (auto simp: is_catalog_def)
qed

definition sample_catalog :: ServiceCatalog where
  "sample_catalog = (empty_catalog ''primaza-system'' ''prod'')
     \<lparr>cat_Spec := \<lparr>cat_Services = [\<lparr>scs_Name = ''db'', scs_ServiceClassIdentity = [],
        scs_ServiceEndpointDefinitionKeys = [''host'']\<rparr>], cat_ClaimedByLabels = []\<rparr>\<rparr>"

theorem PushServiceCatalog_pushes_witness:
  "\<exists>s' c. run_state (PushServiceCatalogToApplicationNamespaces (mem_api [(''kc'', 1)] 0) sample_catalog
       [''a'', ''b''] ''kc'') empty_mem = (None, s') \<and>
     mem_objs s' 1 KServiceCatalog (''b'', ''prod'') = Some (OServiceCatalog c) \<and>
     map scs_Name (cat_Services (cat_Spec c)) = [''db'']"
proof -
  have "fst (run_state (PushServiceCatalogToApplicationNamespaces (mem_api [(''kc'', 1)] 0) sample_catalog
      [''a'', ''b''] ''kc'') empty_mem) = None" by code_simp
  then obtain s' where run: "run_state (PushServiceCatalogToApplicationNamespaces (mem_api [(''kc'', 1)] 0)
      sample_catalog [''a'', ''b''] ''kc'') empty_mem = (None, s')" by (metis prod.collapse)
  have cli: "k_new_client (mem_api [(''kc'', 1)] 0) ''kc'' = Inr 1" by (simp add: mem_api_def)
  have names: "om_name (cat_meta sample_catalog) = ''prod''"
    "map scs_Name (cat_Services (cat_Spec sample_catalog)) = [''db'']"
    by (simp_all add: sample_catalog_def empty_catalog_def)
  from PushServiceCatalog_pushes [OF mem.kube_store_axioms cli run, of "''b''"] obtain c where
    "mem_objs s' 1 KServiceCatalog (''b'', ''prod'') = Some (OServiceCatalog c)"
    "cat_Spec c = cat_Spec sample_catalog" by (auto simp: names)
  with run names(2) show ?thesis by (intro exI [of _ s'] exI [of _ c]) simp
qed

text \<open>What the role binding of an agent says: it gives the role to the agent's service account, and carries the
  labels by which the bindings of the environment are found again, with the namespace among them.\<close>

definition agent_binding :: "NamespaceType \<Rightarrow> string \<Rightarrow> string \<Rightarrow> string \<Rightarrow> RoleBinding \<Rightarrow> bool" where
  "agent_binding k ce ns role rb =
     (rb_RoleRef rb = role \<and>
      rb_Subjects rb = [(''ServiceAccount'', ''primaza-'' @ Short k @ ''-'' @ ce @ ''-'' @ ns)] \<and>
      labels_match (getRoleBindingsLabelSelectorOrDie ce k) (rb_meta rb) \<and>
      gm_get (om_labels (rb_meta rb)) ''primaza.io/namespace'' = Some ns)"

lemma agent_binding_role_binding: "agent_binding (nb_kind b) ce ns role (role_binding b ce cens ns role)"
  by (simp add: agent_binding_def role_binding_def bakeServiceAccountName_def bakeRoleBindingsLabels_def
      getRoleBindingsLabelSelectorOrDie_def PrimazaClusterEnvironmentLabel_def gm_of_list_def gm_get_def)

lemma bakeRoleBindingName_inj:
  "role \<in> set (getAgentRoleNames k) \<Longrightarrow> role' \<in> set (getAgentRoleNames k) \<Longrightarrow>
     bakeRoleBindingName role ce ns = bakeRoleBindingName role' ce ns' \<longleftrightarrow> role' = role \<and> ns' = ns"
  by (cases k) (auto simp: getAgentRoleNames_def agentRoles_def)

text \<open>A step that leaves a role binding as it is or puts the agent's one in its place.\<close>

definition binds_or_keeps :: "cluster \<Rightarrow> NamespaceType \<Rightarrow> string \<Rightarrow> string \<Rightarrow> objects \<Rightarrow> objects \<Rightarrow> bool" where
  "binds_or_keeps c k ce cens f g =
     (\<forall>ns. \<forall>role\<in>set (getAgentRoleNames k).
        g c KRoleBinding (cens, bakeRoleBindingName role ce ns) = f c KRoleBinding (cens, bakeRoleBindingName role ce ns) \<or>
        (\<exists>rb. g c KRoleBinding (cens, bakeRoleBindingName role ce ns) = Some (ORoleBinding rb) \<and> agent_binding k ce ns role rb))"

lemma binds_or_keeps_refl: "binds_or_keeps c k ce cens f f"
  by (simp add: binds_or_keeps_def)

lemma binds_or_keeps_trans:
  "binds_or_keeps c k ce cens f g \<Longrightarrow> binds_or_keeps c k ce cens g h \<Longrightarrow> binds_or_keeps c k ce cens f h"
  unfolding binds_or_keeps_def by metis

context kube_store
begin

lemma createRoleBinding_binds:
  assumes "run_state (createRoleBinding api b ce cens ns role) s = (None, s')" and "role \<in> set (getAgentRoleNames (nb_kind b))"
  shows "binds_or_keeps (k_self api) (nb_kind b) ce cens (objs s) (objs s')"
proof -
  let ?rb = "role_binding b ce cens ns role" and ?n = "(cens, bakeRoleBindingName role ce ns)"
  have key: "obj_key (ORoleBinding ?rb) = ?n" by (simp add: obj_key_def role_binding_def meta_key_def)
  from assms(1) obtain r where r: "run_state (k_create api (k_self api) (ORoleBinding ?rb)) s = (r, s')"
      "\<And>e. r = Inl e \<Longrightarrow> IsAlreadyExists e"
    by (auto simp: createRoleBinding_def split: prod.splits sum.splits if_splits)
  show ?thesis
  proof (cases r)
    case (Inl e)
    with create_exists [of "k_self api" "ORoleBinding ?rb" s e s'] r show ?thesis by (simp add: binds_or_keeps_refl)
  next
    case (Inr z)
    from create_ok [OF r(1) [unfolded Inr]] key obtain u v where
      "objs s' (k_self api) KRoleBinding ?n = Some (populated u v (ORoleBinding ?rb))" by auto
    moreover have "\<exists>m. populated u v (ORoleBinding ?rb) = ORoleBinding (?rb\<lparr>rb_meta := m\<rparr>) \<and> om_labels m = om_labels (rb_meta ?rb)"
      by (rule exI [of _ "(rb_meta ?rb)\<lparr>om_uid := u, om_resourceVersion := v, om_deletion := False\<rparr>"])
        (simp add: populated_def)
    ultimately obtain m where m: "objs s' (k_self api) KRoleBinding ?n = Some (ORoleBinding (?rb\<lparr>rb_meta := m\<rparr>))"
      "om_labels m = om_labels (rb_meta ?rb)" by auto
    have "agent_binding (nb_kind b) ce ns role (?rb\<lparr>rb_meta := m\<rparr>)"
      using agent_binding_role_binding [of b ce ns role cens] m(2) by (simp add: agent_binding_def)
    with m(1) have at: "\<exists>rb. objs s' (k_self api) KRoleBinding ?n = Some (ORoleBinding rb) \<and>
        agent_binding (nb_kind b) ce ns role rb" by blast
    have other: "objs s' (k_self api) KRoleBinding k = objs s (k_self api) KRoleBinding k" if "k \<noteq> ?n" for k
      using create_others [OF r(1)] that key by (simp add: same_but_def)
    show ?thesis
      unfolding binds_or_keeps_def
    proof (intro allI ballI)
      fix ns' role' assume role': "role' \<in> set (getAgentRoleNames (nb_kind b))"
      let ?n' = "(cens, bakeRoleBindingName role' ce ns')"
      show "objs s' (k_self api) KRoleBinding ?n' = objs s (k_self api) KRoleBinding ?n' \<or>
          (\<exists>rb. objs s' (k_self api) KRoleBinding ?n' = Some (ORoleBinding rb) \<and> agent_binding (nb_kind b) ce ns' role' rb)"
      proof (cases "?n' = ?n")
        case True
        with bakeRoleBindingName_inj [OF assms(2) role', of ce ns ns'] at show ?thesis by auto
      qed (simp add: other)
    qed
  qed
qed

lemma bindNamespace_binds:
  assumes "run_state (bindNamespace y api b ce cens ns) s = (None, s')"
  shows "binds_or_keeps (k_self api) (nb_kind b) ce cens (objs s) (objs s')"
proof -
  from assms obtain t where t: "run_state (createRoleBindings api b ce cens ns) s = (None, t)"
    and p: "run_state (PushAgent y api (nb_wcli b) ns ce (nb_agentManifest b) (nb_agentImage b)
                 (nb_agentConfig b) (nb_strategy b)) t = (None, s')"
    by (auto simp: bindNamespace_def split: prod.splits option.splits)
  from t have "run_state (for_collect (createRoleBinding api b ce cens ns) (getAgentRoleNames (nb_kind b))) s = (Inr [], t)"
    by (auto simp: createRoleBindings_def split: prod.splits)
  from for_first_chain [OF for_collect_none [OF this], of "\<lambda>s t. binds_or_keeps (k_self api) (nb_kind b) ce cens (objs s) (objs t)"]
  have st: "binds_or_keeps (k_self api) (nb_kind b) ce cens (objs s) (objs t)"
    by (metis binds_or_keeps_refl binds_or_keeps_trans createRoleBinding_binds)
  have "modifies objs {(c, k, n). k = KDeployment \<or> k = KConfigMap}
      (PushAgent y api (nb_wcli b) ns ce (nb_agentManifest b) (nb_agentImage b) (nb_agentConfig b) (nb_strategy b))"
    by (intro frame_intros) simp_all
  from modifies_run [OF this p] have "binds_or_keeps (k_self api) (nb_kind b) ce cens (objs t) (objs s')"
    by (simp add: same_but_def binds_or_keeps_def)
  with st show ?thesis by (rule binds_or_keeps_trans)
qed

lemma BindNamespaces_binds_or_keeps:
  assumes "run_state (BindNamespaces y api b ce cens nss) s = (None, s')"
  shows "binds_or_keeps (k_self api) (nb_kind b) ce cens (objs s) (objs s')"
proof -
  from assms have "run_state (for_failing (bindNamespace y api b ce cens) nss) s = (Inr [], s')"
    by (auto simp: BindNamespaces_def split: prod.splits sum.splits if_splits)
  from for_first_chain [OF for_failing_none [OF this], of "\<lambda>s t. binds_or_keeps (k_self api) (nb_kind b) ce cens (objs s) (objs t)"]
  show ?thesis by (metis binds_or_keeps_refl binds_or_keeps_trans bindNamespace_binds)
qed

end

text \<open>C24: When binding the namespaces of a cluster environment to the agents of a kind reports no error, the
  tenant's namespace holds, for every one of them and every role of the kind, a role binding with the name
  of the role, the environment and the namespace. It is the one that was there before under this name,
  unchanged, or it has just what the agent needs: its role is this role (reporter of the service agents,
  claimer of the application agents), its only subject is the service account of the agent of that kind,
  environment and namespace, and it carries the labels by which the controller finds the environment's
  role bindings of that kind again, with the namespace as the last of them.\<close>

theorem BindNamespaces_binds:
  assumes "kube_store api objs"
    and "run_state (BindNamespaces y api b ce cens nss) s = (None, s')"
    and "ns \<in> set nss" and "role \<in> set (getAgentRoleNames (nb_kind b))"
  shows "\<exists>rb. objs s' (k_self api) KRoleBinding (cens, role @ ''-'' @ ce @ ''-'' @ ns) = Some (ORoleBinding rb) \<and>
    (objs s (k_self api) KRoleBinding (cens, role @ ''-'' @ ce @ ''-'' @ ns) = Some (ORoleBinding rb) \<or>
     rb_RoleRef rb = role \<and>
     role = (case nb_kind b of ServiceNamespaceType \<Rightarrow> ''primaza-reporter'' | ApplicationNamespaceType \<Rightarrow> ''primaza-claimer'') \<and>
     rb_Subjects rb = [(''ServiceAccount'', ''primaza-'' @
       (case nb_kind b of ServiceNamespaceType \<Rightarrow> ''svc'' | ApplicationNamespaceType \<Rightarrow> ''app'') @ ''-'' @ ce @ ''-'' @ ns)] \<and>
     labels_match (getRoleBindingsLabelSelectorOrDie ce (nb_kind b)) (rb_meta rb) \<and>
     gm_get (om_labels (rb_meta rb)) ''primaza.io/namespace'' = Some ns)"
proof -
  from assms(2) have "run_state (for_failing (bindNamespace y api b ce cens) nss) s = (Inr [], s')"
    by (auto simp: BindNamespaces_def split: prod.splits sum.splits if_splits)
  from for_failing_establishes [OF kube_store.bindNamespace_establishes [OF assms(1)] subset_UNIV this] assms(3,4)
  have ex: "objs s' (k_self api) KRoleBinding (cens, bakeRoleBindingName role ce ns) \<noteq> None" by blast
  then obtain x where x: "objs s' (k_self api) KRoleBinding (cens, bakeRoleBindingName role ce ns) = Some x" by blast
  from kube_store.keyed [OF assms(1) x] obtain rb where rb: "x = ORoleBinding rb" by (cases x) auto
  have name: "bakeRoleBindingName role ce ns = role @ ''-'' @ ce @ ''-'' @ ns"
    using agent_roles [OF assms(4)] by auto
  have role: "role = (case nb_kind b of ServiceNamespaceType \<Rightarrow> ''primaza-reporter'' | ApplicationNamespaceType \<Rightarrow> ''primaza-claimer'')"
    "Short (nb_kind b) = (case nb_kind b of ServiceNamespaceType \<Rightarrow> ''svc'' | ApplicationNamespaceType \<Rightarrow> ''app'')"
    using assms(4) by (cases "nb_kind b"; simp add: getAgentRoleNames_def agentRoles_def)+
  let ?k = "(cens, bakeRoleBindingName role ce ns)"
  from kube_store.BindNamespaces_binds_or_keeps [OF assms(1), OF assms(2)] assms(4)
  have "objs s' (k_self api) KRoleBinding ?k = objs s (k_self api) KRoleBinding ?k \<or>
      (\<exists>rb. objs s' (k_self api) KRoleBinding ?k = Some (ORoleBinding rb) \<and> agent_binding (nb_kind b) ce ns role rb)"
    unfolding binds_or_keeps_def by blast
  with x rb have "objs s (k_self api) KRoleBinding ?k = Some (ORoleBinding rb) \<or> agent_binding (nb_kind b) ce ns role rb"
    by auto
  with x rb name role show ?thesis by (auto simp: agent_binding_def)
qed

definition sample_yaml :: yaml where
  "sample_yaml =
     \<lparr>y_deployment = (\<lambda>_. Inr \<lparr>dm_name = ''primaza-app-agent'', dm_labels = Some [], dm_template_labels = Some [],
        dm_images = [''agent'']\<rparr>),
      y_configmap = (\<lambda>_. Inr \<lparr>cmm_name = ''agent-config'', cmm_labels = None, cmm_data = Some []\<rparr>)\<rparr>"

theorem BindNamespaces_binds_witness:
  "\<exists>s'. run_state (BindNamespaces sample_yaml (mem_api [] 0)
       (NewApplicationNamespacesBinder 1 ''m'' ''i'' ''c'' SyncPush) ''ce'' ''primaza-system'' [''a'', ''b'']) empty_mem
       = (None, s') \<and>
     (\<exists>rb. mem_objs s' 0 KRoleBinding (''primaza-system'', ''primaza-claimer-ce-b'') = Some (ORoleBinding rb) \<and>
        rb_RoleRef rb = ''primaza-claimer'' \<and> rb_Subjects rb = [(''ServiceAccount'', ''primaza-app-ce-b'')])"
proof -
  let ?b = "NewApplicationNamespacesBinder 1 ''m'' ''i'' ''c'' SyncPush"
  have "fst (run_state (BindNamespaces sample_yaml (mem_api [] 0) ?b ''ce'' ''primaza-system'' [''a'', ''b'']) empty_mem)
      = None" by code_simp
  then obtain s' where run: "run_state (BindNamespaces sample_yaml (mem_api [] 0) ?b ''ce'' ''primaza-system''
      [''a'', ''b'']) empty_mem = (None, s')" by (metis prod.collapse)
  have "''primaza-claimer'' \<in> set (getAgentRoleNames (nb_kind ?b))"
    by (simp add: NewApplicationNamespacesBinder_def getAgentRoleNames_def agentRoles_def)
  moreover have "mem_objs empty_mem 0 k n = None" "nb_kind ?b = ApplicationNamespaceType" for k n
    by (simp_all add: empty_mem_def mem_objs_def NewApplicationNamespacesBinder_def)
  ultimately show ?thesis
    using BindNamespaces_binds [OF mem.kube_store_axioms run, of "''b''" "''primaza-claimer''"] run by auto
qed

text \<open>C40: Unbinding a single namespace, whatever its outcome, leaves the role binding of every agent role for this
  namespace exactly as it is: the name the unbinder deletes is not the name the binder gives, so the binding
  survives even when the unbinder reports success.\<close>

theorem UnbindNamespaces_keeps_role_binding:
  assumes "kube_store api objs" and "role \<in> set (getAgentRoleNames k)"
  shows "objs (snd (run_state (UnbindNamespaces y api u ce cens [ns]) s)) (k_self api) KRoleBinding
      (cens, bakeRoleBindingName role ce ns) =
    objs s (k_self api) KRoleBinding (cens, bakeRoleBindingName role ce ns)"
proof -
  have "modifies objs ({(k_self api, KRoleBinding, (cens, getRoleBindingName ce ns))} \<union>
      {(c, k, n). k = KDeployment \<or> k = KConfigMap}) (UnbindNamespaces y api u ce cens [ns])"
    by (rule kube_store.modifies_UnbindNamespaces [OF assms(1)]) auto
  from modifies_run [OF this prod.collapse [symmetric]] role_binding_names_differ [OF assms(2), of ce ns]
  show ?thesis by (simp add: same_but_def)
qed

definition bound_mem :: mem where
  "bound_mem = empty_mem\<lparr>m_objs := [(0, ORoleBinding (role_binding
     (NewApplicationNamespacesBinder 1 ''m'' ''i'' ''c'' SyncPush) ''ce'' ''primaza-system'' ''a'' ''primaza-claimer''))]\<rparr>"

theorem UnbindNamespaces_keeps_role_binding_witness:
  "\<exists>s. mem_objs s 0 KRoleBinding (''primaza-system'', ''primaza-claimer-ce-a'') \<noteq> None \<and>
     fst (run_state (UnbindNamespaces sample_yaml (mem_api [] 0)
       (NewApplicationNamespacesUnbinder 1 ''m'' ''c'') ''ce'' ''primaza-system'' [''a'']) s) = None \<and>
     mem_objs (snd (run_state (UnbindNamespaces sample_yaml (mem_api [] 0)
       (NewApplicationNamespacesUnbinder 1 ''m'' ''c'') ''ce'' ''primaza-system'' [''a'']) s)) 0
       KRoleBinding (''primaza-system'', ''primaza-claimer-ce-a'') \<noteq> None"
proof -
  let ?s = bound_mem
  have bound: "mem_objs ?s 0 KRoleBinding (''primaza-system'', ''primaza-claimer-ce-a'') \<noteq> None" by code_simp
  have ok: "fst (run_state (UnbindNamespaces sample_yaml (mem_api [] 0)
       (NewApplicationNamespacesUnbinder 1 ''m'' ''c'') ''ce'' ''primaza-system'' [''a'']) ?s) = None" by code_simp
  have role: "''primaza-claimer'' \<in> set (getAgentRoleNames ApplicationNamespaceType)"
    by (simp add: getAgentRoleNames_def agentRoles_def)
  from UnbindNamespaces_keeps_role_binding [OF mem.kube_store_axioms role, of sample_yaml "[]" 0
      "NewApplicationNamespacesUnbinder 1 ''m'' ''c''" "''ce''" "''primaza-system''" "''a''" ?s] bound
  have "mem_objs (snd (run_state (UnbindNamespaces sample_yaml (mem_api [] 0)
       (NewApplicationNamespacesUnbinder 1 ''m'' ''c'') ''ce'' ''primaza-system'' [''a'']) ?s)) 0
       KRoleBinding (''primaza-system'', ''primaza-claimer-ce-a'') \<noteq> None" by simp
  with bound ok show ?thesis by blast
qed

end
