(* ===== verification/RegisteredService_Ctrl.thy ===== *)
theory RegisteredService_Ctrl
  imports Mem_Api Envtag
begin

section \<open>Registered services: \<^verbatim>\<open>controllers/registeredservice\_controller.go\<close>\<close>

text \<open>
  The reconciler keeps two things in step with a registered service: its state (driven by the jobs of
  its health check) and the catalogs, which list the services that can be claimed in an environment;
  a catalog is named after its environment. The service is passed by pointer to the health check
  functions, which return the changed one.
\<close>

subsection \<open>Catalogs\<close>

fun ServiceInCatalog_loop :: "int \<Rightarrow> ServiceCatalogService list \<Rightarrow> string \<Rightarrow> int" where
  "ServiceInCatalog_loop i [] serviceName = -1"
| "ServiceInCatalog_loop i (service # ss) serviceName =
     (if scs_Name service = serviceName then i else ServiceInCatalog_loop (i + 1) ss serviceName)"

definition ServiceInCatalog :: "ServiceCatalog \<Rightarrow> string \<Rightarrow> int" where
  "ServiceInCatalog sc serviceName = ServiceInCatalog_loop 0 (cat_Services (cat_Spec sc)) serviceName"

definition getServiceCatalogs :: "'s kube \<Rightarrow> string \<Rightarrow> ('s, err + ServiceCatalog list) state" where
  "getServiceCatalogs api namespace = do {
     r \<leftarrow> k_list api (k_self api) KServiceCatalog namespace [];
     ret (map_items catalogs_of r) }"

text \<open>The selector of the last listed claim that names the service.\<close>

fun claim_selector :: "string \<Rightarrow> LabelSelector option \<Rightarrow> ServiceClaim list \<Rightarrow> LabelSelector option" where
  "claim_selector serviceName l [] = l"
| "claim_selector serviceName l (sclaim # cs) =
     claim_selector serviceName
       (case scst_RegisteredService (sc_Status sclaim) of
          Some r \<Rightarrow> if ref_Name r = serviceName then as_Selector (scsp_Application (sc_Spec sclaim)) else l
        | None \<Rightarrow> l) cs"

definition remove_entry :: "ServiceCatalogSpec \<Rightarrow> nat \<Rightarrow> LabelSelector option \<Rightarrow> ServiceCatalogSpec" where
  "remove_entry spec si labelSelector =
     (let s = cat_Services spec ! si;
          spec' = spec\<lparr>cat_Services := take si (cat_Services spec) @ drop (si + 1) (cat_Services spec)\<rparr>
      in if labelSelector \<noteq> None
         then spec'\<lparr>cat_ClaimedByLabels := cat_ClaimedByLabels spec' @ [\<lparr>sbl_Service = s, sbl_Labels = labelSelector\<rparr>]\<rparr>
         else spec')"

definition removeServiceFromCatalog ::
  "'s kube \<Rightarrow> string \<Rightarrow> string \<Rightarrow> ServiceCatalog \<Rightarrow> ('s, err option) state" where
  "removeServiceFromCatalog api namespace serviceName sc =
     (let si = ServiceInCatalog sc serviceName
      in if si = -1 then ret None
         else do {
           l \<leftarrow> k_list api (k_self api) KServiceClaim namespace [];
           case map_items claims_of l of
             Inl e \<Rightarrow> ret (Some e)
           | Inr sclaims \<Rightarrow> do {
               let labelSelector = claim_selector serviceName None sclaims;
               r \<leftarrow> k_update api (k_self api)
                 (OServiceCatalog (sc\<lparr>cat_Spec := remove_entry (cat_Spec sc) (nat si) labelSelector\<rparr>));
               ret (err_of r) } })"

definition removeServiceFromCatalogs :: "'s kube \<Rightarrow> string \<Rightarrow> string \<Rightarrow> ('s, err option) state" where
  "removeServiceFromCatalogs api namespace serviceName = do {
     catalogs \<leftarrow> getServiceCatalogs api namespace;
     case catalogs of
       Inl e \<Rightarrow> ret (Some e)
     | Inr items \<Rightarrow> do {
         r \<leftarrow> for_collect (removeServiceFromCatalog api namespace serviceName) items;
         ret (join_collected r) } }"

definition catalog_entry :: "RegisteredService \<Rightarrow> ServiceCatalogService" where
  "catalog_entry rs =
     \<lparr>scs_Name = om_name (rs_meta rs), scs_ServiceClassIdentity = rssp_ServiceClassIdentity (rs_Spec rs),
      scs_ServiceEndpointDefinitionKeys = map sed_Name (rssp_ServiceEndpointDefinition (rs_Spec rs))\<rparr>"

definition addServiceToCatalog :: "'s kube \<Rightarrow> RegisteredService \<Rightarrow> ServiceCatalog \<Rightarrow> ('s, err option) state" where
  "addServiceToCatalog api rs sc =
     (let scs = catalog_entry rs
      in if ServiceInCatalog sc (scs_Name scs) = -1 then do {
           r \<leftarrow> k_update api (k_self api) (OServiceCatalog
             (sc\<lparr>cat_Spec := (cat_Spec sc)\<lparr>cat_Services := cat_Services (cat_Spec sc) @ [scs]\<rparr>\<rparr>));
           ret (err_of r) }
         else ret None)"

definition reconcileCatalog :: "'s kube \<Rightarrow> RegisteredService \<Rightarrow> ServiceCatalog \<Rightarrow> ('s, err option) state" where
  "reconcileCatalog api rs sc =
     (if Match (om_name (cat_meta sc)) (GetEnvironmentConstraints (rs_Spec rs))
      then addServiceToCatalog api rs sc
      else removeServiceFromCatalog api (om_namespace (rs_meta rs)) (om_name (rs_meta rs)) sc)"

definition reconcileCatalogs :: "'s kube \<Rightarrow> RegisteredService \<Rightarrow> ('s, err option) state" where
  "reconcileCatalogs api rs = do {
     catalogs \<leftarrow> getServiceCatalogs api (om_namespace (rs_meta rs));
     case catalogs of
       Inl e \<Rightarrow> ret (Some e)
     | Inr items \<Rightarrow> do {
         r \<leftarrow> for_collect (reconcileCatalog api rs) items;
         ret (join_collected r) } }"

subsection \<open>Health checks\<close>

definition service_gvk :: "string \<times> string" where
  "service_gvk = (''primaza.io/v1alpha1'', ''RegisteredService'')"

text \<open>The function \<^verbatim>\<open>registerHealthcheck\<close> hands to \<^verbatim>\<open>CreateOrUpdate\<close>.\<close>

definition healthcheck_cronjob :: "RegisteredService \<Rightarrow> obj \<Rightarrow> err + obj" where
  "healthcheck_cronjob rs x =
     (case x of
        OCronJob cj \<Rightarrow>
          (case rssp_HealthCheck (rs_Spec rs) of
             None \<Rightarrow> Inl (Panic ''nil pointer dereference'')
           | Some hc \<Rightarrow>
               (case SetControllerReference service_gvk (rs_meta rs) (cj_meta cj) of
                  Inl e \<Rightarrow> Inl e
                | Inr m \<Rightarrow> Inr (OCronJob
                    \<lparr>cj_meta = m, cj_Schedule = ''*/'' @ show_nat (hc_Minutes hc) @ '' * * * *'',
                     cj_Command = hc_Command hc, cj_Image = hc_Image hc, cj_ActiveDeadlineSeconds = 30,
                     cj_BackoffLimit = 2, cj_RunAsUser = 65530\<rparr>)))
      | _ \<Rightarrow> Inl decode_err)"

definition empty_cronjob :: "string \<Rightarrow> string \<Rightarrow> CronJob" where
  "empty_cronjob ns n =
     \<lparr>cj_meta = new_meta ns n, cj_Schedule = '''', cj_Command = [], cj_Image = '''',
      cj_ActiveDeadlineSeconds = 0, cj_BackoffLimit = 0, cj_RunAsUser = 0\<rparr>"

definition registerHealthcheck :: "'s kube \<Rightarrow> RegisteredService \<Rightarrow> ('s, err option) state" where
  "registerHealthcheck api rs = do {
     (r, _) \<leftarrow> CreateOrUpdate api (k_self api)
       (OCronJob (empty_cronjob (om_namespace (rs_meta rs)) (om_name (rs_meta rs)))) (healthcheck_cronjob rs);
     ret (err_of r) }"

text \<open>The first condition of a job that says it is over: \<open>Some True\<close> complete, \<open>Some False\<close> failed.\<close>

fun job_outcome :: "(string \<times> string) list \<Rightarrow> bool option" where
  "job_outcome [] = None"
| "job_outcome (cond # cs) =
     (if fst cond = ''Complete'' \<and> snd cond = ''True'' then Some True
      else if fst cond = ''Failed'' \<and> snd cond = ''True'' then Some False
      else job_outcome cs)"

fun jobs_outcome :: "string \<Rightarrow> bool \<times> bool \<Rightarrow> Job list \<Rightarrow> bool \<times> bool" where
  "jobs_outcome uid (completed, failed) [] = (completed, failed)"
| "jobs_outcome uid (completed, failed) (job # js) =
     (if \<not> (\<exists>r\<in>set (om_owners (job_meta job)). or_uid r = uid)
      then jobs_outcome uid (completed, failed) js
      else case job_outcome (job_Conditions job) of
          Some True \<Rightarrow> jobs_outcome uid (True, failed) js
        | Some False \<Rightarrow> jobs_outcome uid (completed, True) js
        | None \<Rightarrow> jobs_outcome uid (completed, failed) js)"

definition next_health_state :: "bool \<times> bool \<Rightarrow> RegisteredServiceState \<Rightarrow> RegisteredServiceState" where
  "next_health_state cf st =
     (if fst cf then (if st \<noteq> RSClaimed then RSAvailable else st)
      else if snd cf then RSUnreachable
      else RSUnknown)"

definition handleHealthcheck ::
  "'s kube \<Rightarrow> RegisteredService \<Rightarrow> ('s, err option \<times> RegisteredService) state" where
  "handleHealthcheck api rs = do {
     g \<leftarrow> get_cronjob api (k_self api) (om_namespace (rs_meta rs), om_name (rs_meta rs));
     case g of
       Inl e \<Rightarrow>
         if IsNotFound e then do {
           r \<leftarrow> registerHealthcheck api rs;
           ret (r, rs\<lparr>rs_State := RSUnknown\<rparr>) }
         else ret (Some e, rs)
     | Inr cronjob \<Rightarrow> do {
         l \<leftarrow> k_list api (k_self api) KJob (om_namespace (cj_meta cronjob)) [];
         case map_items jobs_of l of
           Inl e \<Rightarrow> ret (Some e, rs)
         | Inr jobs \<Rightarrow> do {
             let cf = jobs_outcome (om_uid (cj_meta cronjob)) (False, False) jobs;
             let rs' = rs\<lparr>rs_State := next_health_state cf (rs_State rs)\<rparr>;
             r \<leftarrow> registerHealthcheck api rs';
             ret (r, rs') } } }"

definition cleanupHealthchecks :: "'s kube \<Rightarrow> RegisteredService \<Rightarrow> ('s, err option) state" where
  "cleanupHealthchecks api rs = do {
     l \<leftarrow> k_list api (k_self api) KCronJob (om_namespace (rs_meta rs)) [];
     case map_items cronjobs_of l of
       Inl e \<Rightarrow> ret (IgnoreNotFound e)
     | Inr items \<Rightarrow> do {
         r \<leftarrow> for_collect (\<lambda>cronjob.
           if (\<exists>r\<in>set (om_owners (cj_meta cronjob)). or_uid r = om_uid (rs_meta rs))
           then k_delete api (k_self api) KCronJob (meta_key (cj_meta cronjob))
           else ret None) items;
         ret (join_collected r) } }"

subsection \<open>\<^verbatim>\<open>Reconcile\<close>\<close>

definition check_health ::
  "'s kube \<Rightarrow> RegisteredService \<Rightarrow> ('s, err option \<times> RegisteredService) state" where
  "check_health api rs =
     (case rssp_HealthCheck (rs_Spec rs) of
        Some _ \<Rightarrow> handleHealthcheck api rs
      | None \<Rightarrow> do {
          r \<leftarrow> cleanupHealthchecks api rs;
          ret (r, if r \<noteq> None \<or> rs_State rs = RSClaimed then rs else rs\<lparr>rs_State := RSAvailable\<rparr>) })"

definition Reconcile :: "'s kube \<Rightarrow> nsname \<Rightarrow> ('s, err option) state" where
  "Reconcile api req = do {
     g \<leftarrow> get_service api (k_self api) req;
     case g of
       Inl e \<Rightarrow>
         if IsNotFound e then removeServiceFromCatalogs api (fst req) (snd req)
         else ret (Some e)
     | Inr rs0 \<Rightarrow> do {
         (h, rs) \<leftarrow> check_health api rs0;
         case h of
           Some e \<Rightarrow> ret (Some e)
         | None \<Rightarrow> do {
             c \<leftarrow> (if rs_State rs = RSAvailable then reconcileCatalogs api rs
                  else removeServiceFromCatalogs api (fst req) (snd req));
             case c of
               Some e \<Rightarrow> ret (Some e)
             | None \<Rightarrow> do {
                 u \<leftarrow> k_status_update api (k_self api) (ORegisteredService rs);
                 ret (err_of u) } } } }"

subsection \<open>Lemmas on catalogs\<close>

lemma ServiceInCatalog_loop_ge: "0 \<le> i \<Longrightarrow> ServiceInCatalog_loop i ss n = -1 \<or> i \<le> ServiceInCatalog_loop i ss n"
  by (induction i ss n rule: ServiceInCatalog_loop.induct) auto

lemma ServiceInCatalog_loop_spec:
  "0 \<le> i \<Longrightarrow>
     (ServiceInCatalog_loop i ss n = -1 \<longleftrightarrow> n \<notin> scs_Name ` set ss) \<and>
     (\<forall>j. ServiceInCatalog_loop i ss n = i + int j \<longrightarrow> j < length ss \<and> scs_Name (ss ! j) = n)"
proof (induction i ss n rule: ServiceInCatalog_loop.induct)
  case (2 i service ss n)
  show ?case
  proof (cases "scs_Name service = n")
    case True
    with 2 show ?thesis by auto
  next
    case False
    with 2 have ih: "(ServiceInCatalog_loop (i + 1) ss n = -1 \<longleftrightarrow> n \<notin> scs_Name ` set ss) \<and>
       (\<forall>j. ServiceInCatalog_loop (i + 1) ss n = i + 1 + int j \<longrightarrow> j < length ss \<and> scs_Name (ss ! j) = n)"
      by simp
    have "j < length (service # ss) \<and> scs_Name ((service # ss) ! j) = n"
      if "ServiceInCatalog_loop i (service # ss) n = i + int j" for j
    proof (cases j)
      case 0
      with that False ServiceInCatalog_loop_ge [of "i + 1" ss n] "2.prems" show ?thesis by auto
    next
      case (Suc k)
      with that False ih show ?thesis by (auto simp: algebra_simps)
    qed
    with ih False show ?thesis by auto
  qed
qed simp

definition service_names :: "ServiceCatalogSpec \<Rightarrow> string list" where
  "service_names spec = map scs_Name (cat_Services spec)"

lemma ServiceInCatalog_absent: "ServiceInCatalog sc n = -1 \<longleftrightarrow> n \<notin> set (service_names (cat_Spec sc))"
  using ServiceInCatalog_loop_spec [of 0] by (simp add: ServiceInCatalog_def service_names_def)

lemma ServiceInCatalog_index:
  assumes "ServiceInCatalog sc n \<noteq> -1"
  shows "nat (ServiceInCatalog sc n) < length (cat_Services (cat_Spec sc)) \<and>
    scs_Name (cat_Services (cat_Spec sc) ! nat (ServiceInCatalog sc n)) = n"
proof -
  from assms ServiceInCatalog_loop_ge [of 0] have "0 \<le> ServiceInCatalog sc n"
    by (metis ServiceInCatalog_def order_refl)
  then have "ServiceInCatalog sc n = 0 + int (nat (ServiceInCatalog sc n))" by simp
  with ServiceInCatalog_loop_spec [of 0 "cat_Services (cat_Spec sc)" n] show ?thesis
    unfolding ServiceInCatalog_def by blast
qed

lemma remove_entry_names:
  assumes "si < length (cat_Services spec)" and "scs_Name (cat_Services spec ! si) = n"
    and "distinct (service_names spec)"
  shows "set (service_names (remove_entry spec si l)) = set (service_names spec) - {n} \<and>
    distinct (service_names (remove_entry spec si l))"
proof -
  let ?xs = "service_names spec"
  have split: "?xs = take si ?xs @ n # drop (Suc si) ?xs"
    using assms(1,2) by (simp add: service_names_def id_take_nth_drop [symmetric] flip: id_take_nth_drop)
      (metis id_take_nth_drop length_map nth_map)
  have names: "service_names (remove_entry spec si l) = take si ?xs @ drop (Suc si) ?xs"
    by (simp add: remove_entry_def service_names_def Let_def take_map drop_map)
  have dist: "distinct (take si ?xs @ n # drop (Suc si) ?xs)" using assms(3) split by metis
  have "set ?xs = insert n (set (take si ?xs @ drop (Suc si) ?xs))"
    by (subst split) auto
  with dist show ?thesis unfolding names by auto
qed

lemma add_entry_names:
  "service_names (spec\<lparr>cat_Services := cat_Services spec @ [e]\<rparr>) = service_names spec @ [scs_Name e]"
  by (simp add: service_names_def)

subsection \<open>One catalog\<close>

lemma catalogs_of_listing:
  assumes "distinct (map obj_key xs)"
  shows "c \<in> set (catalogs_of xs) \<longleftrightarrow> OServiceCatalog c \<in> set xs"
    and "distinct (map (meta_key \<circ> cat_meta) (catalogs_of xs))"
proof -
  show "c \<in> set (catalogs_of xs) \<longleftrightarrow> OServiceCatalog c \<in> set xs" for c
    by (induction xs) (auto simp: catalogs_of_def List.map_filter_simps split: obj.splits)
  have sub: "meta_key (cat_meta c) \<in> obj_key ` set xs" if "c \<in> set (catalogs_of xs)" for c xs
  proof -
    from that have "OServiceCatalog c \<in> set xs"
      by (induction xs) (auto simp: catalogs_of_def List.map_filter_simps split: obj.splits)
    then show ?thesis by (force simp: obj_key_def)
  qed
  from assms show "distinct (map (meta_key \<circ> cat_meta) (catalogs_of xs))"
  proof (induction xs)
    case (Cons x xs)
    then show ?case
      using sub [of _ xs]
      by (cases x) (auto simp: catalogs_of_def List.map_filter_simps obj_key_def)
  qed (simp add: catalogs_of_def List.map_filter_simps)
qed

text \<open>\<open>catalog_at s sc\<close>: the catalog is stored as it is; \<open>offered n b sc s\<close>: the stored catalog of that key
  lists \<open>n\<close> exactly if \<open>b\<close>, and no name twice.\<close>

definition catalog_at :: "('s \<Rightarrow> cluster \<Rightarrow> okind \<Rightarrow> nsname \<Rightarrow> obj option) \<Rightarrow> cluster \<Rightarrow> ServiceCatalog \<Rightarrow> 's \<Rightarrow> bool" where
  "catalog_at objs c sc s =
     (objs s c KServiceCatalog (meta_key (cat_meta sc)) = Some (OServiceCatalog sc) \<and>
      distinct (service_names (cat_Spec sc)))"

definition offered :: "('s \<Rightarrow> cluster \<Rightarrow> okind \<Rightarrow> nsname \<Rightarrow> obj option) \<Rightarrow> cluster \<Rightarrow> string \<Rightarrow> bool \<Rightarrow>
    ServiceCatalog \<Rightarrow> 's \<Rightarrow> bool" where
  "offered objs c n b sc s =
     (\<exists>sc'. objs s c KServiceCatalog (meta_key (cat_meta sc)) = Some (OServiceCatalog sc') \<and>
        distinct (service_names (cat_Spec sc')) \<and> (n \<in> set (service_names (cat_Spec sc')) \<longleftrightarrow> b))"

lemma same_but_catalog_at:
  "same_but {(c, KServiceCatalog, k)} (objs s) (objs s') \<Longrightarrow> k \<noteq> meta_key (cat_meta sc) \<Longrightarrow>
     (catalog_at objs c sc s \<longrightarrow> catalog_at objs c sc s') \<and> (offered objs c n b sc s \<longrightarrow> offered objs c n b sc s')"
  by (auto simp: same_but_def catalog_at_def offered_def)

context kube_store
begin

lemma update_catalog_ok:
  assumes up: "run_state (k_update api c (OServiceCatalog (sc\<lparr>cat_Spec := spec\<rparr>))) s = (Inr y, s')"
    and at: "catalog_at objs c sc s"
  shows "\<exists>sc'. objs s' c KServiceCatalog (meta_key (cat_meta sc)) = Some (OServiceCatalog sc') \<and> cat_Spec sc' = spec"
proof -
  let ?x = "OServiceCatalog (sc\<lparr>cat_Spec := spec\<rparr>)"
  have key: "obj_kind ?x = KServiceCatalog" "obj_key ?x = meta_key (cat_meta sc)" by (simp_all add: obj_key_def)
  from at have old: "objs s c KServiceCatalog (meta_key (cat_meta sc)) = Some (OServiceCatalog sc)"
    by (simp add: catalog_at_def)
  from update_ok [OF up, unfolded key] old obtain v where
    y: "y = written (OServiceCatalog sc) v ?x" and
    st: "objs s' c KServiceCatalog (meta_key (cat_meta sc)) =
      (if om_deletion (cat_meta sc) \<and> om_finalizers (cat_meta sc) = [] then None else Some y)" by auto
  from live [OF old] have "\<not> (om_deletion (cat_meta sc) \<and> om_finalizers (cat_meta sc) = [])" by auto
  with st y show ?thesis
    by (auto simp: written_def keep_server_fields_def set_version_def)
qed

lemma modifies_removeServiceFromCatalog [frame_intros]:
  "(k_self api, KServiceCatalog, meta_key (cat_meta sc)) \<in> K \<Longrightarrow>
     modifies objs K (removeServiceFromCatalog api ns n sc)"
  unfolding removeServiceFromCatalog_def Let_def
  by (auto intro!: frame_intros split: sum.split simp: obj_key_def)

lemma modifies_reconcileCatalog [frame_intros]:
  "(k_self api, KServiceCatalog, meta_key (cat_meta sc)) \<in> K \<Longrightarrow> modifies objs K (reconcileCatalog api rs sc)"
  unfolding reconcileCatalog_def addServiceToCatalog_def Let_def
  by (auto intro!: frame_intros simp: obj_key_def)

lemma removeServiceFromCatalog_ok:
  assumes run: "run_state (removeServiceFromCatalog api ns n sc) s = (None, s')"
    and at: "catalog_at objs (k_self api) sc s"
  shows "offered objs (k_self api) n False sc s'"
proof (cases "ServiceInCatalog sc n = -1")
  case True
  with run at show ?thesis
    by (auto simp: removeServiceFromCatalog_def Let_def offered_def catalog_at_def ServiceInCatalog_absent)
next
  case False
  with run obtain l s1 cs y where l: "run_state (k_list api (k_self api) KServiceClaim ns []) s = (l, s1)"
    and u: "run_state (k_update api (k_self api) (OServiceCatalog (sc\<lparr>cat_Spec :=
      remove_entry (cat_Spec sc) (nat (ServiceInCatalog sc n)) (claim_selector n None cs)\<rparr>))) s1 = (Inr y, s')"
    by (auto simp: removeServiceFromCatalog_def Let_def err_of_def split: prod.splits sum.splits)
  from list_reads [OF l] at have "catalog_at objs (k_self api) sc s1" by (simp add: catalog_at_def)
  from at have dist: "distinct (service_names (cat_Spec sc))" by (simp add: catalog_at_def)
  from ServiceInCatalog_index [OF False] remove_entry_names [OF _ _ dist]
  have "set (service_names (remove_entry (cat_Spec sc) (nat (ServiceInCatalog sc n)) (claim_selector n None cs))) =
      set (service_names (cat_Spec sc)) - {n} \<and>
    distinct (service_names (remove_entry (cat_Spec sc) (nat (ServiceInCatalog sc n)) (claim_selector n None cs)))"
    by blast
  with update_catalog_ok [OF u \<open>catalog_at objs (k_self api) sc s1\<close>] show ?thesis
    by (auto simp: offered_def)
qed

lemma reconcileCatalog_ok:
  assumes run: "run_state (reconcileCatalog api rs sc) s = (None, s')"
    and at: "catalog_at objs (k_self api) sc s"
  shows "offered objs (k_self api) (om_name (rs_meta rs))
    (Match (om_name (cat_meta sc)) (GetEnvironmentConstraints (rs_Spec rs))) sc s'"
proof (cases "Match (om_name (cat_meta sc)) (GetEnvironmentConstraints (rs_Spec rs))")
  case False
  with run at show ?thesis by (simp add: reconcileCatalog_def removeServiceFromCatalog_ok)
next
  case True
  show ?thesis
  proof (cases "ServiceInCatalog sc (om_name (rs_meta rs)) = -1")
    case absent: True
    with run True obtain y where "run_state (k_update api (k_self api) (OServiceCatalog (sc\<lparr>cat_Spec :=
        (cat_Spec sc)\<lparr>cat_Services := cat_Services (cat_Spec sc) @ [catalog_entry rs]\<rparr>\<rparr>))) s = (Inr y, s')"
      by (auto simp: reconcileCatalog_def addServiceToCatalog_def Let_def catalog_entry_def err_of_def
          split: prod.splits sum.splits)
    from update_catalog_ok [OF this at] absent at True show ?thesis
      by (auto simp: offered_def catalog_at_def ServiceInCatalog_absent add_entry_names catalog_entry_def)
  next
    case present: False
    with run at True show ?thesis
      by (auto simp: reconcileCatalog_def addServiceToCatalog_def Let_def catalog_entry_def offered_def
          catalog_at_def ServiceInCatalog_absent)
  qed
qed

text \<open>The catalogs a listing of the namespace returns are the stored ones.\<close>

lemma getServiceCatalogs_ok:
  assumes "run_state (getServiceCatalogs api ns) s = (Inr items, s')"
  shows "objs s' = objs s \<and> distinct (map (meta_key \<circ> cat_meta) items) \<and>
    (\<forall>sc. sc \<in> set items \<longleftrightarrow> objs s (k_self api) KServiceCatalog (meta_key (cat_meta sc)) = Some (OServiceCatalog sc) \<and>
       (ns = '''' \<or> om_namespace (cat_meta sc) = ns))"
proof -
  from assms obtain xs where l: "run_state (k_list api (k_self api) KServiceCatalog ns []) s = (Inr xs, s')"
    and items: "items = catalogs_of xs"
    by (auto simp: getServiceCatalogs_def map_items_def split: prod.splits sum.splits)
  note found = list_found [OF l]
  have "OServiceCatalog sc \<in> set xs \<longleftrightarrow>
      objs s (k_self api) KServiceCatalog (meta_key (cat_meta sc)) = Some (OServiceCatalog sc) \<and>
      (ns = '''' \<or> om_namespace (cat_meta sc) = ns)" for sc
  proof -
    have "objs s (k_self api) KServiceCatalog n = Some (OServiceCatalog sc) \<Longrightarrow> n = meta_key (cat_meta sc)" for n
      by (drule keyed) (simp add: obj_key_def)
    then have "(\<exists>n. objs s (k_self api) KServiceCatalog n = Some (OServiceCatalog sc) \<and> (ns = '''' \<or> fst n = ns)) \<longleftrightarrow>
        objs s (k_self api) KServiceCatalog (meta_key (cat_meta sc)) = Some (OServiceCatalog sc) \<and>
        (ns = '''' \<or> om_namespace (cat_meta sc) = ns)" by (metis fst_conv meta_key_def)
    with found show ?thesis by simp
  qed
  with found list_reads [OF l] items catalogs_of_listing [of xs] show ?thesis by simp
qed

end

subsection \<open>All catalogs of a namespace\<close>

text \<open>\<open>offers objs c ns n p s\<close>: every catalog stored in the namespace lists each service once and lists \<open>n\<close>
  exactly if \<open>p\<close> holds of the catalog's name.\<close>

definition offers :: "('s \<Rightarrow> cluster \<Rightarrow> okind \<Rightarrow> nsname \<Rightarrow> obj option) \<Rightarrow> cluster \<Rightarrow> string \<Rightarrow> string \<Rightarrow>
    (string \<Rightarrow> bool) \<Rightarrow> 's \<Rightarrow> bool" where
  "offers objs c ns n p s =
     (\<forall>m sc. objs s c KServiceCatalog (ns, m) = Some (OServiceCatalog sc) \<longrightarrow>
        distinct (service_names (cat_Spec sc)) \<and> (n \<in> set (service_names (cat_Spec sc)) \<longleftrightarrow> p m))"

definition catalogs_distinct :: "('s \<Rightarrow> cluster \<Rightarrow> okind \<Rightarrow> nsname \<Rightarrow> obj option) \<Rightarrow> cluster \<Rightarrow> 's \<Rightarrow> bool" where
  "catalogs_distinct objs c s =
     (\<forall>k sc. objs s c KServiceCatalog k = Some (OServiceCatalog sc) \<longrightarrow> distinct (service_names (cat_Spec sc)))"

context kube_store
begin

lemma each_catalog:
  assumes run: "run_state (for_collect f items) s1 = (Inr [], s')"
    and items: "run_state (getServiceCatalogs api ns) s = (Inr items, s1)"
    and dist: "catalogs_distinct objs (k_self api) s"
    and ok: "\<And>sc s s'. run_state (f sc) s = (None, s') \<Longrightarrow> catalog_at objs (k_self api) sc s \<Longrightarrow>
      offered objs (k_self api) n (p (om_name (cat_meta sc))) sc s'"
    and frame: "\<And>sc. modifies objs {(k_self api, KServiceCatalog, meta_key (cat_meta sc))} (f sc)"
  shows "offers objs (k_self api) ns n p s'"
proof -
  note found = getServiceCatalogs_ok [OF items]
  have keys: "meta_key (cat_meta x) \<noteq> meta_key (cat_meta y)"
    if "x \<in> set items" "y \<in> set items" "x \<noteq> y" for x y
    using that found by (auto simp: distinct_map inj_on_def)
  have "\<forall>sc\<in>set items. offered objs (k_self api) n (p (om_name (cat_meta sc))) sc s'"
  proof (rule for_collect_each [OF run, where Pre = "catalog_at objs (k_self api)"])
    show "distinct items" using found by (simp add: distinct_map)
    show "\<forall>x\<in>set items. catalog_at objs (k_self api) x s1"
      using found dist by (auto simp: catalog_at_def catalogs_distinct_def)
    show "offered objs (k_self api) n (p (om_name (cat_meta x))) x t'"
      if "catalog_at objs (k_self api) x t" "run_state (f x) t = (None, t')" for x t t'
      using ok that by blast
    show "(catalog_at objs (k_self api) y t \<longrightarrow> catalog_at objs (k_self api) y t') \<and>
        (offered objs (k_self api) n (p (om_name (cat_meta y))) y t \<longrightarrow>
         offered objs (k_self api) n (p (om_name (cat_meta y))) y t')"
      if "x \<in> set items" "y \<in> set items" "x \<noteq> y" "run_state (f x) t = (None, t')" for x y t t'
      by (rule same_but_catalog_at [OF modifies_run [OF frame that(4)] keys [OF that(1-3)]])
  qed
  moreover have others: "objs s' (k_self api) KServiceCatalog k = objs s (k_self api) KServiceCatalog k"
    if "k \<notin> (meta_key \<circ> cat_meta) ` set items" for k
  proof -
    have "modifies objs ((\<lambda>sc. (k_self api, KServiceCatalog, meta_key (cat_meta sc))) ` set items) (for_collect f items)"
      by (rule modifies_for_collect, rule modifies_mono [OF frame]) auto
    from modifies_run [OF this run] that found show ?thesis by (auto simp: same_but_def)
  qed
  ultimately show ?thesis unfolding offers_def
  proof (intro allI impI)
    fix m sc assume st: "objs s' (k_self api) KServiceCatalog (ns, m) = Some (OServiceCatalog sc)"
    show "distinct (service_names (cat_Spec sc)) \<and> (n \<in> set (service_names (cat_Spec sc)) \<longleftrightarrow> p m)"
    proof (cases "(ns, m) \<in> (meta_key \<circ> cat_meta) ` set items")
      case True
      then obtain x where "x \<in> set items" "(ns, m) = meta_key (cat_meta x)" by auto
      with \<open>\<forall>sc\<in>set items. offered objs (k_self api) n (p (om_name (cat_meta sc))) sc s'\<close> st show ?thesis
        by (auto simp: offered_def meta_key_def)
    next
      case False
      with others st have st0: "objs s (k_self api) KServiceCatalog (ns, m) = Some (OServiceCatalog sc)" by simp
      from keyed [OF st0] have key: "meta_key (cat_meta sc) = (ns, m)" by (simp add: obj_key_def)
      with found st0 have "sc \<in> set items" by (simp add: meta_key_def)
      with False key show ?thesis by (metis comp_apply imageI)
    qed
  qed
qed

lemma removeServiceFromCatalogs_ok:
  assumes "run_state (removeServiceFromCatalogs api ns n) s = (None, s')"
    and "catalogs_distinct objs (k_self api) s"
  shows "offers objs (k_self api) ns n (\<lambda>_. False) s'"
proof -
  from assms(1) obtain items s1 where "run_state (getServiceCatalogs api ns) s = (Inr items, s1)"
    "run_state (for_collect (removeServiceFromCatalog api ns n) items) s1 = (Inr [], s')"
    by (auto simp: removeServiceFromCatalogs_def split: prod.splits sum.splits)
  then show ?thesis
    by (rule_tac each_catalog [OF _ _ assms(2), where p = "\<lambda>_. False"])
      (assumption | erule (1) removeServiceFromCatalog_ok | intro frame_intros, simp)+
qed

lemma reconcileCatalogs_ok:
  assumes "run_state (reconcileCatalogs api rs) s = (None, s')"
    and "catalogs_distinct objs (k_self api) s"
  shows "offers objs (k_self api) (om_namespace (rs_meta rs)) (om_name (rs_meta rs))
    (\<lambda>m. Match m (GetEnvironmentConstraints (rs_Spec rs))) s'"
proof -
  from assms(1) obtain items s1 where
    "run_state (getServiceCatalogs api (om_namespace (rs_meta rs))) s = (Inr items, s1)"
    "run_state (for_collect (reconcileCatalog api rs) items) s1 = (Inr [], s')"
    by (auto simp: reconcileCatalogs_def split: prod.splits sum.splits)
  then show ?thesis
    by (rule_tac each_catalog [OF _ _ assms(2),
        where p = "\<lambda>m. Match m (GetEnvironmentConstraints (rs_Spec rs))"])
      (assumption | erule (1) reconcileCatalog_ok | intro frame_intros, simp)+
qed

lemma modifies_getServiceCatalogs [frame_intros]: "modifies objs K (getServiceCatalogs api ns)"
  unfolding getServiceCatalogs_def by (intro frame_intros)

lemma modifies_catalog_loops [frame_intros]:
  assumes "\<And>k. (k_self api, KServiceCatalog, k) \<in> K"
  shows "modifies objs K (removeServiceFromCatalogs api ns n)" and "modifies objs K (reconcileCatalogs api rs)"
  unfolding removeServiceFromCatalogs_def reconcileCatalogs_def
  by (auto intro!: frame_intros assms split: sum.split)

lemma keeps_kind_healthcheck: "keeps_kind (healthcheck_cronjob rs)"
  by (auto simp: keeps_kind_def healthcheck_cronjob_def split: obj.splits option.splits sum.splits)

lemma modifies_check_health [frame_intros]:
  assumes "\<And>k. (k_self api, KCronJob, k) \<in> K"
  shows "modifies objs K (check_health api rs)"
proof -
  have reg: "modifies objs K (registerHealthcheck api rs')" for rs'
    unfolding registerHealthcheck_def
    by (auto intro!: frame_intros keeps_kind_healthcheck assms split: prod.split)
  show ?thesis
    unfolding check_health_def handleHealthcheck_def cleanupHealthchecks_def get_cronjob_def Let_def
    by (auto intro!: frame_intros reg assms split: sum.split option.split)
qed

end

subsection \<open>The whole reconciliation\<close>

lemma check_health_result:
  assumes "run_state (check_health api rs0) s = ((h, rs), s')"
  shows "rs = rs0\<lparr>rs_State := rs_State rs\<rparr>"
  using assms
  by (auto simp: check_health_def handleHealthcheck_def Let_def split: prod.splits option.splits sum.splits if_splits)

lemma check_health_none:
  assumes "run_state (check_health api rs0) s = ((None, rs), s')" and "rssp_HealthCheck (rs_Spec rs0) = None"
  shows "rs_State rs = (if rs_State rs0 = RSClaimed then RSClaimed else RSAvailable)"
  using assms
  by (auto simp: check_health_def split: prod.splits if_splits)

lemma jobs_outcome_completed:
  "fst (jobs_outcome uid cf js) \<longleftrightarrow>
     fst cf \<or> (\<exists>j\<in>set js. (\<exists>r\<in>set (om_owners (job_meta j)). or_uid r = uid) \<and> job_outcome (job_Conditions j) = Some True)"
  by (induction uid cf js rule: jobs_outcome.induct) (auto split: option.splits bool.splits)

lemma jobs_of_listing: "j \<in> set (jobs_of xs) \<longleftrightarrow> OJob j \<in> set xs"
  by (induction xs) (auto simp: jobs_of_def List.map_filter_simps split: obj.splits)

context kube_store
begin

lemma handleHealthcheck_completed:
  assumes run: "run_state (handleHealthcheck api rs0) s = ((None, rs), s')"
    and cj: "objs s (k_self api) KCronJob (meta_key (rs_meta rs0)) = Some (OCronJob cronjob)"
    and job: "objs s (k_self api) KJob (om_namespace (rs_meta rs0), m) = Some (OJob j)"
      "\<exists>r\<in>set (om_owners (job_meta j)). or_uid r = om_uid (cj_meta cronjob)" "job_outcome (job_Conditions j) = Some True"
    and st: "rs_State rs0 \<noteq> RSClaimed"
  shows "rs_State rs = RSAvailable"
proof -
  obtain g s1 where g: "run_state (k_get api (k_self api) KCronJob (meta_key (rs_meta rs0))) s = (g, s1)" by fastforce
  with cj get_missing [of "k_self api" KCronJob _ s _ s1] have "\<And>e. g = Inl e \<Longrightarrow> \<not> IsNotFound e" by fastforce
  with run g obtain x where x: "g = Inr x"
    by (cases g) (auto simp: handleHealthcheck_def get_cronjob_def meta_key_def)
  from get_found [OF g [unfolded x]] cj have gx: "x = OCronJob cronjob" by simp
  from get_reads [OF g] have s1: "objs s1 = objs s" .
  from keyed [OF cj] have ns: "om_namespace (cj_meta cronjob) = om_namespace (rs_meta rs0)"
    by (simp add: obj_key_def meta_key_def)
  from run g x gx obtain xs s2 where l: "run_state (k_list api (k_self api) KJob (om_namespace (cj_meta cronjob)) []) s1
      = (Inr xs, s2)"
    and rs: "rs = rs0\<lparr>rs_State := next_health_state
      (jobs_outcome (om_uid (cj_meta cronjob)) (False, False) (jobs_of xs)) (rs_State rs0)\<rparr>"
    by (auto simp: handleHealthcheck_def get_cronjob_def meta_key_def map_items_def Let_def
        split: prod.splits sum.splits)
  from list_found [OF l] job(1) s1 ns have "OJob j \<in> set xs" by auto
  with job(2,3) have "fst (jobs_outcome (om_uid (cj_meta cronjob)) (False, False) (jobs_of xs))"
    by (auto simp: jobs_outcome_completed jobs_of_listing)
  with rs st show ?thesis by (simp add: next_health_state_def)
qed

text \<open>The steps of a reconciliation without an error.\<close>

lemma Reconcile_steps:
  assumes run: "run_state (Reconcile api (ns, n)) s = (None, s')"
    and rs0: "objs s (k_self api) KRegisteredService (ns, n) = Some (ORegisteredService rs0)"
  obtains rs s1 s2 s3 y where "objs s1 = objs s" and "run_state (check_health api rs0) s1 = ((None, rs), s2)"
    and "run_state (if rs_State rs = RSAvailable then reconcileCatalogs api rs
        else removeServiceFromCatalogs api ns n) s2 = (None, s3)"
    and "run_state (k_status_update api (k_self api) (ORegisteredService rs)) s3 = (Inr y, s')"
proof -
  obtain g s1 where g: "run_state (get_service api (k_self api) (ns, n)) s = (g, s1)" by fastforce
  from modifies_run [OF modifies_get_service g, of "{}"] have s1: "objs s1 = objs s"
    by (auto simp: same_but_def fun_eq_iff)
  from run g get_service_missing [of "k_self api" "(ns, n)" s _ s1] rs0 obtain x where x: "g = Inr x"
    by (cases g) (auto simp: Reconcile_def split: if_splits)
  from get_service_found [OF g [unfolded x]] rs0 have "x = rs0" by simp
  with run g x obtain rs s2 s3 y where h: "run_state (check_health api rs0) s1 = ((None, rs), s2)"
    and c: "run_state (if rs_State rs = RSAvailable then reconcileCatalogs api rs
        else removeServiceFromCatalogs api (fst (ns, n)) (snd (ns, n))) s2 = (None, s3)"
    and u: "run_state (k_status_update api (k_self api) (ORegisteredService rs)) s3 = (Inr y, s')"
    by (auto simp: Reconcile_def err_of_def split: prod.splits option.splits sum.splits)
  show thesis by (rule that [OF s1 h c [unfolded fst_conv snd_conv] u])
qed

lemma modifies_offer_service:
  "modifies objs {(c, k, m). k = KServiceCatalog} (if b then reconcileCatalogs api rs else removeServiceFromCatalogs api ns n)"
  by (auto intro!: frame_intros)

text \<open>What a reconciliation without an error does to the service and to the catalogs.\<close>

lemma Reconcile_ok:
  assumes run: "run_state (Reconcile api (ns, n)) s = (None, s')"
    and rs0: "objs s (k_self api) KRegisteredService (ns, n) = Some (ORegisteredService rs0)"
    and dist: "catalogs_distinct objs (k_self api) s"
  shows "\<exists>rs rs' s1 s2. objs s1 = objs s \<and> run_state (check_health api rs0) s1 = ((None, rs), s2) \<and>
    objs s' (k_self api) KRegisteredService (ns, n) = Some (ORegisteredService rs') \<and>
    rs_Spec rs' = rs_Spec rs0 \<and> rs_State rs' = rs_State rs \<and>
    offers objs (k_self api) ns n (\<lambda>m. rs_State rs = RSAvailable \<and> Match m (GetEnvironmentConstraints (rs_Spec rs0))) s'"
proof -
  obtain rs s1 s2 s3 y where s1: "objs s1 = objs s" and h: "run_state (check_health api rs0) s1 = ((None, rs), s2)"
    and c: "run_state (if rs_State rs = RSAvailable then reconcileCatalogs api rs
        else removeServiceFromCatalogs api ns n) s2 = (None, s3)"
    and u: "run_state (k_status_update api (k_self api) (ORegisteredService rs)) s3 = (Inr y, s')"
    by (rule Reconcile_steps [OF run rs0])
  have rs: "rs_meta rs = rs_meta rs0" "rs_Spec rs = rs_Spec rs0"
    by (subst check_health_result [OF h], simp)+
  from keyed [OF rs0] have key: "om_namespace (rs_meta rs0) = ns" "om_name (rs_meta rs0) = n"
    by (simp_all add: obj_key_def meta_key_def)
  have "modifies objs {(c, k, m). k = KCronJob} (check_health api rs0)" by (intro frame_intros) simp
  from modifies_run [OF this h] have same2: "objs s2 (k_self api) k = objs s (k_self api) k" if "k \<noteq> KCronJob" for k
    using that s1 by (auto simp: same_but_def fun_eq_iff)
  have d2: "catalogs_distinct objs (k_self api) s2" using dist same2 by (simp add: catalogs_distinct_def)
  from modifies_run [OF modifies_offer_service c] same2 rs0
  have st3: "objs s3 (k_self api) KRegisteredService (ns, n) = Some (ORegisteredService rs0)"
    by (auto simp: same_but_def)
  have off: "offers objs (k_self api) ns n
      (\<lambda>m. rs_State rs = RSAvailable \<and> Match m (GetEnvironmentConstraints (rs_Spec rs0))) s3"
  proof (cases "rs_State rs = RSAvailable")
    case True
    with c reconcileCatalogs_ok [OF _ d2, of rs s3] rs key show ?thesis by simp
  next
    case False
    with c removeServiceFromCatalogs_ok [OF _ d2, of ns n s3] show ?thesis by simp
  qed
  have ukey: "obj_kind (ORegisteredService rs) = KRegisteredService" "obj_key (ORegisteredService rs) = (ns, n)"
    using rs key by (simp_all add: obj_key_def meta_key_def)
  from status_others [OF u, unfolded ukey]
  have "objs s' (k_self api) KServiceCatalog = objs s3 (k_self api) KServiceCatalog"
    by (auto simp: same_but_def fun_eq_iff)
  with off have off': "offers objs (k_self api) ns n
      (\<lambda>m. rs_State rs = RSAvailable \<and> Match m (GetEnvironmentConstraints (rs_Spec rs0))) s'"
    by (simp add: offers_def)
  from status_ok [OF u, unfolded ukey] st3 obtain v where
    "y = set_version v (copy_status (ORegisteredService rs) (ORegisteredService rs0))"
    "objs s' (k_self api) KRegisteredService (ns, n) = Some y" by auto
  then obtain rs' where "objs s' (k_self api) KRegisteredService (ns, n) = Some (ORegisteredService rs')"
    "rs_Spec rs' = rs_Spec rs0" "rs_State rs' = rs_State rs"
    by (auto simp: set_version_def)
  with s1 h off' show ?thesis by blast
qed

end

subsection \<open>Properties\<close>

definition sample_service :: "string \<Rightarrow> RegisteredServiceState \<Rightarrow> HealthCheckContainer option \<Rightarrow> RegisteredService" where
  "sample_service n st hc =
     \<lparr>rs_meta = (new_meta ''sys'' n)\<lparr>om_uid := ''u'', om_resourceVersion := ''1''\<rparr>,
      rs_Spec = \<lparr>rssp_Constraints = Some [''prod''], rssp_HealthCheck = hc, rssp_SLA = '''',
        rssp_ServiceClassIdentity = [\<lparr>sci_Name = ''type'', sci_Value = ''sql''\<rparr>],
        rssp_ServiceEndpointDefinition =
          [\<lparr>sed_Name = ''host'', sed_Value = ''db.local'', sed_ValueFromSecret = None\<rparr>]\<rparr>,
      rs_State = st\<rparr>"

definition plain_catalog :: "string \<Rightarrow> string list \<Rightarrow> ServiceCatalog" where
  "plain_catalog n ss =
     \<lparr>cat_meta = (new_meta ''sys'' n)\<lparr>om_resourceVersion := ''1''\<rparr>,
      cat_Spec = \<lparr>cat_Services = map (\<lambda>x. \<lparr>scs_Name = x, scs_ServiceClassIdentity = [],
        scs_ServiceEndpointDefinitionKeys = []\<rparr>) ss, cat_ClaimedByLabels = []\<rparr>\<rparr>"

definition offer_state :: mem where
  "offer_state = mem_of
     [(0, ORegisteredService (sample_service ''db'' RSUnset None)),
      (0, OServiceCatalog (plain_catalog ''prod'' [''mq''])),
      (0, OServiceCatalog (plain_catalog ''stage'' [''db'', ''mq'']))]"

lemma offer_state_distinct: "catalogs_distinct mem_objs 0 offer_state"
  unfolding catalogs_distinct_def
proof (intro allI impI)
  fix k sc assume "mem_objs offer_state 0 KServiceCatalog k = Some (OServiceCatalog sc)"
  from mem_objs_in [OF this] show "distinct (service_names (cat_Spec sc))"
    by (auto simp: offer_state_def mem_of_def plain_catalog_def service_names_def)
qed

text \<open>C19: Let no service catalog list a service twice. After a reconciliation of a stored registered service that
  reports no error, every service catalog of its namespace still lists no service twice, and it offers this
  service exactly when the service is available afterwards and its constraints, which are unchanged, match the
  catalog's environment.\<close>

theorem Reconcile_catalogs:
  assumes "kube_store api objs"
    and "run_state (Reconcile api (ns, n)) s = (None, s')"
    and "objs s (k_self api) KRegisteredService (ns, n) = Some (ORegisteredService rs)"
    and "catalogs_distinct objs (k_self api) s"
  shows "\<exists>rs'. objs s' (k_self api) KRegisteredService (ns, n) = Some (ORegisteredService rs') \<and>
    rs_Spec rs' = rs_Spec rs \<and>
    (\<forall>m sc. objs s' (k_self api) KServiceCatalog (ns, m) = Some (OServiceCatalog sc) \<longrightarrow>
       distinct (map scs_Name (cat_Services (cat_Spec sc))) \<and>
       (n \<in> scs_Name ` set (cat_Services (cat_Spec sc)) \<longleftrightarrow>
          rs_State rs' = RSAvailable \<and> Match m (GetEnvironmentConstraints (rs_Spec rs))))"
  using kube_store.Reconcile_ok [OF assms] by (auto simp: offers_def service_names_def)

theorem Reconcile_catalogs_witness:
  "\<exists>s' c1 c2. run_state (Reconcile (mem_api [] 0) (''sys'', ''db'')) offer_state = (None, s') \<and>
     mem_objs s' 0 KServiceCatalog (''sys'', ''prod'') = Some (OServiceCatalog c1) \<and>
     ''db'' \<in> scs_Name ` set (cat_Services (cat_Spec c1)) \<and>
     mem_objs s' 0 KServiceCatalog (''sys'', ''stage'') = Some (OServiceCatalog c2) \<and>
     ''db'' \<notin> scs_Name ` set (cat_Services (cat_Spec c2))"
proof -
  define s' where "s' = snd (run_state (Reconcile (mem_api [] 0) (''sys'', ''db'')) offer_state)"
  have ok: "fst (run_state (Reconcile (mem_api [] 0) (''sys'', ''db'')) offer_state) = None" by code_simp
  then have run: "run_state (Reconcile (mem_api [] 0) (''sys'', ''db'')) offer_state = (None, s')"
    unfolding s'_def by (metis prod.collapse)
  have rs: "mem_objs offer_state (k_self (mem_api [] 0)) KRegisteredService (''sys'', ''db'') =
      Some (ORegisteredService (sample_service ''db'' RSUnset None))" by code_simp
  have cats: "(case mem_objs s' 0 KServiceCatalog (''sys'', ''prod'') of Some (OServiceCatalog _) \<Rightarrow> True | _ \<Rightarrow> False) \<and>
      (case mem_objs s' 0 KServiceCatalog (''sys'', ''stage'') of Some (OServiceCatalog _) \<Rightarrow> True | _ \<Rightarrow> False) \<and>
      (case mem_objs s' 0 KRegisteredService (''sys'', ''db'') of
         Some (ORegisteredService r) \<Rightarrow> rs_State r = RSAvailable | _ \<Rightarrow> False)"
    unfolding s'_def by code_simp
  then obtain c1 c2 where c: "mem_objs s' 0 KServiceCatalog (''sys'', ''prod'') = Some (OServiceCatalog c1)"
      "mem_objs s' 0 KServiceCatalog (''sys'', ''stage'') = Some (OServiceCatalog c2)"
    by (auto split: option.splits obj.splits)
  from Reconcile_catalogs [OF mem.kube_store_axioms, OF run rs] offer_state_distinct cats c
  have "''db'' \<in> scs_Name ` set (cat_Services (cat_Spec c1)) \<longleftrightarrow> Match ''prod'' [''prod'']"
    and "''db'' \<in> scs_Name ` set (cat_Services (cat_Spec c2)) \<longleftrightarrow> Match ''stage'' [''prod'']"
    by (auto simp: sample_service_def GetEnvironmentConstraints_def)
  moreover have "Match ''prod'' [''prod'']" "\<not> Match ''stage'' [''prod'']" by code_simp+
  ultimately show ?thesis using run c by blast
qed

text \<open>C20: Once a registered service is gone, and provided that no catalog lists a service twice, a reconciliation of
  its name without an error leaves no catalog of its namespace that offers it.\<close>

theorem Reconcile_deleted:
  assumes "kube_store api objs"
    and "run_state (Reconcile api (ns, n)) s = (None, s')"
    and "objs s (k_self api) KRegisteredService (ns, n) = None"
    and "catalogs_distinct objs (k_self api) s"
    and "objs s' (k_self api) KServiceCatalog (ns, m) = Some (OServiceCatalog sc)"
  shows "n \<notin> scs_Name ` set (cat_Services (cat_Spec sc))"
proof -
  obtain g s1 where g: "run_state (get_service api (k_self api) (ns, n)) s = (g, s1)" by fastforce
  from modifies_run [OF kube_store.modifies_get_service [OF assms(1)] g, of "{}"] have s1: "objs s1 = objs s"
    by (auto simp: same_but_def fun_eq_iff)
  from assms(2) g kube_store.get_service_found [OF assms(1)] assms(3)
  have "run_state (removeServiceFromCatalogs api ns n) s1 = (None, s')"
    by (cases g) (auto simp: Reconcile_def split: if_splits)
  from kube_store.removeServiceFromCatalogs_ok [OF assms(1) this] assms(4,5) s1 show ?thesis
    by (auto simp: offers_def catalogs_distinct_def service_names_def)
qed

theorem Reconcile_deleted_witness:
  "\<exists>s' sc. run_state (Reconcile (mem_api [] 0) (''sys'', ''gone''))
       (mem_of [(0, OServiceCatalog (plain_catalog ''prod'' [''mq'', ''gone'']))]) = (None, s') \<and>
     mem_objs s' 0 KServiceCatalog (''sys'', ''prod'') = Some (OServiceCatalog sc) \<and>
     ''gone'' \<notin> scs_Name ` set (cat_Services (cat_Spec sc))"
proof -
  let ?s = "mem_of [(0, OServiceCatalog (plain_catalog ''prod'' [''mq'', ''gone'']))]"
  define s' where "s' = snd (run_state (Reconcile (mem_api [] 0) (''sys'', ''gone'')) ?s)"
  have "fst (run_state (Reconcile (mem_api [] 0) (''sys'', ''gone'')) ?s) = None" by code_simp
  then have run: "run_state (Reconcile (mem_api [] 0) (''sys'', ''gone'')) ?s = (None, s')"
    unfolding s'_def by (metis prod.collapse)
  have "case mem_objs s' 0 KServiceCatalog (''sys'', ''prod'') of Some (OServiceCatalog _) \<Rightarrow> True | _ \<Rightarrow> False"
    unfolding s'_def by code_simp
  then obtain sc where sc: "mem_objs s' (k_self (mem_api [] 0)) KServiceCatalog (''sys'', ''prod'') = Some (OServiceCatalog sc)"
    by (auto split: option.splits obj.splits)
  have gone: "mem_objs ?s (k_self (mem_api [] 0)) KRegisteredService (''sys'', ''gone'') = None" by code_simp
  have "catalogs_distinct mem_objs (k_self (mem_api [] 0)) ?s"
    by (auto simp: catalogs_distinct_def mem_of_def plain_catalog_def service_names_def dest!: mem_objs_in)
  from Reconcile_deleted [OF mem.kube_store_axioms, OF run gone this sc] run sc show ?thesis by auto
qed

text \<open>A registered service without a health check ends, after a reconciliation without an error, as
  claimed if it was claimed and as available otherwise.\<close>

theorem Reconcile_without_healthcheck:
  assumes "kube_store api objs"
    and "run_state (Reconcile api (ns, n)) s = (None, s')"
    and "objs s (k_self api) KRegisteredService (ns, n) = Some (ORegisteredService rs)"
    and "catalogs_distinct objs (k_self api) s" and "rssp_HealthCheck (rs_Spec rs) = None"
  shows "\<exists>rs'. objs s' (k_self api) KRegisteredService (ns, n) = Some (ORegisteredService rs') \<and>
    rs_State rs' = (if rs_State rs = RSClaimed then RSClaimed else RSAvailable)"
  using kube_store.Reconcile_ok [OF assms(1-4)] check_health_none [OF _ assms(5)] by metis

theorem Reconcile_without_healthcheck_witness:
  "\<exists>s' rs'. run_state (Reconcile (mem_api [] 0) (''sys'', ''db'')) offer_state = (None, s') \<and>
     mem_objs s' 0 KRegisteredService (''sys'', ''db'') = Some (ORegisteredService rs') \<and> rs_State rs' = RSAvailable"
proof -
  define s' where "s' = snd (run_state (Reconcile (mem_api [] 0) (''sys'', ''db'')) offer_state)"
  have "fst (run_state (Reconcile (mem_api [] 0) (''sys'', ''db'')) offer_state) = None" by code_simp
  then have run: "run_state (Reconcile (mem_api [] 0) (''sys'', ''db'')) offer_state = (None, s')"
    unfolding s'_def by (metis prod.collapse)
  have rs: "mem_objs offer_state (k_self (mem_api [] 0)) KRegisteredService (''sys'', ''db'') =
      Some (ORegisteredService (sample_service ''db'' RSUnset None))" by code_simp
  have "catalogs_distinct mem_objs (k_self (mem_api [] 0)) offer_state" using offer_state_distinct by simp
  from Reconcile_without_healthcheck [OF mem.kube_store_axioms, OF run rs this] run show ?thesis
    by (auto simp: sample_service_def)
qed

text \<open>When a job of the health check has completed, a service that is not marked as claimed becomes
  available and is offered again in every matching catalog, while all service claims stay as they
  are: a claim that still holds the service (whose mark was lost when an earlier check failed) is
  not looked at.\<close>

theorem Reconcile_ignores_claims:
  assumes "kube_store api objs"
    and "run_state (Reconcile api (ns, n)) s = (None, s')"
    and "objs s (k_self api) KRegisteredService (ns, n) = Some (ORegisteredService rs)"
    and "catalogs_distinct objs (k_self api) s"
    and "rssp_HealthCheck (rs_Spec rs) = Some hc" and "rs_State rs \<noteq> RSClaimed"
    and "objs s (k_self api) KCronJob (ns, n) = Some (OCronJob cj)"
    and "objs s (k_self api) KJob (ns, m) = Some (OJob j)"
    and "\<exists>r\<in>set (om_owners (job_meta j)). or_uid r = om_uid (cj_meta cj)"
    and "job_outcome (job_Conditions j) = Some True"
  shows "\<exists>rs'. objs s' (k_self api) KRegisteredService (ns, n) = Some (ORegisteredService rs') \<and>
    rs_State rs' = RSAvailable \<and>
    (\<forall>e sc. objs s' (k_self api) KServiceCatalog (ns, e) = Some (OServiceCatalog sc) \<longrightarrow>
       (n \<in> scs_Name ` set (cat_Services (cat_Spec sc)) \<longleftrightarrow> Match e (GetEnvironmentConstraints (rs_Spec rs))))"
proof -
  from kube_store.Reconcile_ok [OF assms(1-4)] obtain rs1 rs' s1 s2 where
    s1: "objs s1 = objs s" and h: "run_state (check_health api rs) s1 = ((None, rs1), s2)" and
    st: "objs s' (k_self api) KRegisteredService (ns, n) = Some (ORegisteredService rs')" "rs_State rs' = rs_State rs1" and
    off: "offers objs (k_self api) ns n
      (\<lambda>m. rs_State rs1 = RSAvailable \<and> Match m (GetEnvironmentConstraints (rs_Spec rs))) s'" by blast
  from h assms(5) have hh: "run_state (handleHealthcheck api rs) s1 = ((None, rs1), s2)"
    by (simp add: check_health_def)
  from kube_store.keyed [OF assms(1,3)] have key: "meta_key (rs_meta rs) = (ns, n)" by (simp add: obj_key_def)
  then have "om_namespace (rs_meta rs) = ns" by (simp add: meta_key_def)
  with kube_store.handleHealthcheck_completed [OF assms(1) hh] s1 key assms(6-10)
  have "rs_State rs1 = RSAvailable" by metis
  with st off show ?thesis by (auto simp: offers_def service_names_def)
qed

definition recheck_state :: mem where
  "recheck_state = mem_of
     [(0, ORegisteredService (sample_service ''db'' RSUnreachable
            (Some \<lparr>hc_Image = ''check'', hc_Command = [''run''], hc_Minutes = 5\<rparr>))),
      (0, OCronJob ((empty_cronjob ''sys'' ''db'')\<lparr>cj_meta := (new_meta ''sys'' ''db'')\<lparr>om_uid := ''cj''\<rparr>\<rparr>)),
      (0, OJob \<lparr>job_meta = (new_meta ''sys'' ''db-1'')\<lparr>om_owners := [\<lparr>or_apiVersion = ''batch/v1'', or_kind = ''CronJob'',
             or_name = ''db'', or_uid = ''cj'', or_controller = True\<rparr>]\<rparr>,
             job_Conditions = [(''Complete'', ''True'')]\<rparr>),
      (0, OServiceClaim \<lparr>sc_meta = new_meta ''sys'' ''claim'',
            sc_Spec = \<lparr>scsp_ServiceClassIdentity = [], scsp_ServiceEndpointDefinitionKeys = [],
              scsp_Application = \<lparr>as_APIVersion = '''', as_Kind = '''', as_Name = '''', as_Selector = None\<rparr>,
              scsp_Target = None, scsp_Envs = []\<rparr>,
            sc_Status = \<lparr>scst_State = ClaimResolved, scst_ClaimID = ''id'',
              scst_RegisteredService = Some \<lparr>ref_Name = ''db'', ref_UID = ''u''\<rparr>, scst_Conditions = []\<rparr>\<rparr>)]"

theorem Reconcile_ignores_claims_witness:
  "\<exists>s' c rs'. run_state (Reconcile (mem_api [] 0) (''sys'', ''db'')) recheck_state = (None, s') \<and>
     mem_objs recheck_state 0 KServiceClaim (''sys'', ''claim'') = Some (OServiceClaim c) \<and>
     scst_State (sc_Status c) = ClaimResolved \<and>
     scst_RegisteredService (sc_Status c) = Some \<lparr>ref_Name = ''db'', ref_UID = ''u''\<rparr> \<and>
     mem_objs s' 0 KRegisteredService (''sys'', ''db'') = Some (ORegisteredService rs') \<and> rs_State rs' = RSAvailable"
proof -
  let ?hc = "\<lparr>hc_Image = ''check'', hc_Command = [''run''], hc_Minutes = 5\<rparr>"
  define s' where "s' = snd (run_state (Reconcile (mem_api [] 0) (''sys'', ''db'')) recheck_state)"
  have "fst (run_state (Reconcile (mem_api [] 0) (''sys'', ''db'')) recheck_state) = None" by code_simp
  then have run: "run_state (Reconcile (mem_api [] 0) (''sys'', ''db'')) recheck_state = (None, s')"
    unfolding s'_def by (metis prod.collapse)
  have lookups: "mem_objs recheck_state (k_self (mem_api [] 0)) KRegisteredService (''sys'', ''db'') =
      Some (ORegisteredService (sample_service ''db'' RSUnreachable (Some ?hc)))"
    "mem_objs recheck_state (k_self (mem_api [] 0)) KCronJob (''sys'', ''db'') =
      Some (OCronJob ((empty_cronjob ''sys'' ''db'')\<lparr>cj_meta := (new_meta ''sys'' ''db'')\<lparr>om_uid := ''cj''\<rparr>\<rparr>))"
    "mem_objs recheck_state (k_self (mem_api [] 0)) KJob (''sys'', ''db-1'') =
      Some (OJob \<lparr>job_meta = (new_meta ''sys'' ''db-1'')\<lparr>om_owners := [\<lparr>or_apiVersion = ''batch/v1'', or_kind = ''CronJob'',
             or_name = ''db'', or_uid = ''cj'', or_controller = True\<rparr>]\<rparr>,
             job_Conditions = [(''Complete'', ''True'')]\<rparr>)"
    "case mem_objs recheck_state 0 KServiceClaim (''sys'', ''claim'') of
       Some (OServiceClaim c) \<Rightarrow> scst_State (sc_Status c) = ClaimResolved \<and>
         scst_RegisteredService (sc_Status c) = Some \<lparr>ref_Name = ''db'', ref_UID = ''u''\<rparr> | _ \<Rightarrow> False"
    by code_simp+
  then obtain c where c: "mem_objs recheck_state 0 KServiceClaim (''sys'', ''claim'') = Some (OServiceClaim c)"
    "scst_State (sc_Status c) = ClaimResolved"
    "scst_RegisteredService (sc_Status c) = Some \<lparr>ref_Name = ''db'', ref_UID = ''u''\<rparr>"
    by (auto split: option.splits obj.splits)
  have "catalogs_distinct mem_objs (k_self (mem_api [] 0)) recheck_state"
    by (auto simp: catalogs_distinct_def recheck_state_def mem_of_def dest!: mem_objs_in)
  note reconciled = Reconcile_ignores_claims [OF mem.kube_store_axioms, OF run lookups(1) this]
  have "\<exists>rs'. mem_objs s' (k_self (mem_api [] 0)) KRegisteredService (''sys'', ''db'') = Some (ORegisteredService rs') \<and>
      rs_State rs' = RSAvailable"
    by (rule exE [OF reconciled [OF _ _ lookups(2,3)]]) (auto simp: sample_service_def)
  with run c show ?thesis by simp
qed

end
