(* ===== verification/ServiceClaim_Ctrl.thy ===== *)
theory ServiceClaim_Ctrl
  imports Controlplane Clustercontext Envtag
begin

section \<open>The service claim controller: \<^verbatim>\<open>controllers/serviceclaim\_controller.go\<close>\<close>

text \<open>
  A claim is matched with the first available registered service whose class identity contains the
  claim's and whose constraints admit the claim's environment; the service is marked as claimed, its
  endpoint definition is pushed to the application namespaces, and the claim becomes resolved. A
  pointer that is written (\<^verbatim>\<open>\&sclaim\<close>, \<^verbatim>\<open>secret\<close>) is returned with the value it holds at the end; a
  struct passed by value (the registered service of \<^verbatim>\<open>changeServiceState\<close>) is not.
\<close>

definition ServiceClaimFinalizer :: string where
  "ServiceClaimFinalizer = ''serviceclaims.primaza.io/finalizer''"

definition nil_deref :: err where
  "nil_deref = Panic ''nil pointer dereference''"

definition as_claim :: "ServiceClaim \<Rightarrow> obj \<Rightarrow> ServiceClaim" where
  "as_claim c x = (case x of OServiceClaim c' \<Rightarrow> c' | _ \<Rightarrow> c)"

text \<open>A write of a claim through a pointer: the pointer holds the server's answer.\<close>

definition write_claim ::
  "(obj \<Rightarrow> ('s, err + obj) state) \<Rightarrow> ServiceClaim \<Rightarrow> ('s, err option \<times> ServiceClaim) state" where
  "write_claim put sc = do {
     r \<leftarrow> put (OServiceClaim sc);
     ret (case r of Inl e \<Rightarrow> (Some e, sc) | Inr x \<Rightarrow> (None, as_claim sc x)) }"

subsection \<open>Matching\<close>

text \<open>The multiset of the service's identity items, then one taken away per item of the claim.\<close>

fun count_items ::
  "(ServiceClassIdentityItem \<rightharpoonup> int) \<Rightarrow> ServiceClassIdentityItem list \<Rightarrow> ServiceClassIdentityItem \<rightharpoonup> int" where
  "count_items m [] = m"
| "count_items m (v # vs) = count_items (m(v \<mapsto> (case m v of Some n \<Rightarrow> n + 1 | None \<Rightarrow> 1))) vs"

fun take_items :: "(ServiceClassIdentityItem \<rightharpoonup> int) \<Rightarrow> ServiceClassIdentityItem list \<Rightarrow> bool" where
  "take_items m [] = True"
| "take_items m (v # vs) =
     (case m v of
        None \<Rightarrow> False
      | Some n \<Rightarrow> if n < 1 then False else take_items (m(v \<mapsto> n - 1)) vs)"

definition checkSCISubset ::
  "ServiceClassIdentityItem list \<Rightarrow> ServiceClassIdentityItem list \<Rightarrow> bool" where
  "checkSCISubset serviceClaim registeredService =
     take_items (count_items Map.empty registeredService) serviceClaim"

text \<open>The condition of the loop over the services; \<open>env\<close> is the environment to match.\<close>

definition service_matches :: "ServiceClaim \<Rightarrow> string \<Rightarrow> RegisteredService \<Rightarrow> bool" where
  "service_matches sc env rs =
     (checkSCISubset (scsp_ServiceClassIdentity (sc_Spec sc)) (rssp_ServiceClassIdentity (rs_Spec rs)) \<and>
      (case rssp_Constraints (rs_Spec rs) of None \<Rightarrow> True | Some es \<Rightarrow> Match env es))"

text \<open>The loop of \<^verbatim>\<open>processClaimMarkedForDeletion\<close> reads the target inside the condition.\<close>

fun find_bound :: "ServiceClaim \<Rightarrow> RegisteredService list \<Rightarrow> err + RegisteredService option" where
  "find_bound sc [] = Inr None"
| "find_bound sc (rs # rss) =
     (if checkSCISubset (scsp_ServiceClassIdentity (sc_Spec sc)) (rssp_ServiceClassIdentity (rs_Spec rs)) then
        (case rssp_Constraints (rs_Spec rs) of
           None \<Rightarrow> Inr (Some rs)
         | Some es \<Rightarrow>
             (case scsp_Target (sc_Spec sc) of
                None \<Rightarrow> Inl nil_deref
              | Some t \<Rightarrow> if Match (sct_EnvironmentTag t) es then Inr (Some rs) else find_bound sc rss))
      else find_bound sc rss)"

subsection \<open>The service endpoint definition\<close>

fun extract_loop ::
  "'s kube \<Rightarrow> string \<Rightarrow> string list \<Rightarrow> ServiceEndpointDefinitionItem list \<Rightarrow> int \<Rightarrow> (string, string) gomap \<Rightarrow>
     ('s, err + int \<times> (string, string) gomap) state" where
  "extract_loop api ns sedKeys [] n data = ret (Inr (n, data))"
| "extract_loop api ns sedKeys (sed # seds) n data =
     (if sed_Value sed \<noteq> '''' then
        if sed_Name sed \<in> set sedKeys
        then extract_loop api ns sedKeys seds (n + 1) (gm_put (sed_Name sed) (sed_Value sed) data)
        else extract_loop api ns sedKeys seds n data
      else (case sed_ValueFromSecret sed of
          None \<Rightarrow> ret (Inl nil_deref)
        | Some ref \<Rightarrow>
            if ssr_Key ref \<noteq> '''' \<and> sed_Name sed \<in> set sedKeys then do {
              g \<leftarrow> get_secret api (k_self api) (ns, ssr_Name ref);
              case g of
                Inl e \<Rightarrow> extract_loop api ns sedKeys seds n data
              | Inr sec \<Rightarrow>
                  extract_loop api ns sedKeys seds (n + 1)
                    (gm_put (sed_Name sed)
                       (case gm_get (sec_Data sec) (ssr_Key ref) of Some v \<Rightarrow> v | None \<Rightarrow> '''') data) }
            else extract_loop api ns sedKeys seds n data))"

definition extractServiceEndpointDefinition ::
  "'s kube \<Rightarrow> string \<Rightarrow> RegisteredService \<Rightarrow> string list \<Rightarrow> Secret \<Rightarrow> ('s, err + int \<times> Secret) state" where
  "extractServiceEndpointDefinition api namespace rs sedKeys secret = do {
     r \<leftarrow> extract_loop api namespace sedKeys (rssp_ServiceEndpointDefinition (rs_Spec rs)) 0 (sec_StringData secret);
     ret (case r of Inl e \<Rightarrow> Inl e | Inr (n, d) \<Rightarrow> Inr (n, secret\<lparr>sec_StringData := d\<rparr>)) }"

definition claim_secret :: "ServiceClaim \<Rightarrow> Secret" where
  "claim_secret sc =
     \<lparr>sec_meta = new_meta (om_namespace (sc_meta sc)) (om_name (sc_meta sc)), sec_Data = [], sec_StringData = []\<rparr>"

text \<open>The values of the class identity override those of the endpoint definition.\<close>

definition add_identity :: "ServiceClaim \<Rightarrow> Secret \<Rightarrow> Secret" where
  "add_identity sc secret =
     secret\<lparr>sec_StringData :=
       fold (\<lambda>sci. gm_put (sci_Name sci) (sci_Value sci)) (scsp_ServiceClassIdentity (sc_Spec sc))
         (sec_StringData secret)\<rparr>"

definition getServiceEndpointDefinition ::
  "'s kube \<Rightarrow> ServiceClaim \<Rightarrow> RegisteredService \<Rightarrow> ('s, err + Secret) state" where
  "getServiceEndpointDefinition api sc rs = do {
     r \<leftarrow> extractServiceEndpointDefinition api (om_namespace (sc_meta sc)) rs
            (scsp_ServiceEndpointDefinitionKeys (sc_Spec sc)) (claim_secret sc);
     ret (case r of Inl e \<Rightarrow> Inl e | Inr (_, secret) \<Rightarrow> Inr (add_identity sc secret)) }"

subsection \<open>States and environments\<close>

definition changeServiceState ::
  "'s kube \<Rightarrow> RegisteredService \<Rightarrow> RegisteredServiceState \<Rightarrow> ('s, err option) state" where
  "changeServiceState api rs st = do {
     r \<leftarrow> k_status_update api (k_self api) (ORegisteredService (rs\<lparr>rs_State := st\<rparr>));
     ret (err_of r) }"

definition getEnvironmentFromClusterEnvironment ::
  "'s kube \<Rightarrow> string \<Rightarrow> string \<Rightarrow> ('s, err + ClusterEnvironment) state" where
  "getEnvironmentFromClusterEnvironment api namespace clusterEnvironmentName =
     get_env api (k_self api) (namespace, clusterEnvironmentName)"

text \<open>
  \<^verbatim>\<open>rsc.Status.RegisteredService != sclaim.Status.RegisteredService\<close> compares pointers: the remote
  object was just decoded, so the two are equal only when both are nil.
\<close>

definition remote_differs :: "ServiceClaimStatus \<Rightarrow> ServiceClaimStatus \<Rightarrow> bool" where
  "remote_differs r l =
     (scst_RegisteredService r \<noteq> None \<or> scst_RegisteredService l \<noteq> None \<or>
      scst_State r \<noteq> scst_State l \<or> scst_Conditions r \<noteq> scst_Conditions l)"

definition updateRemoteServiceClaimStatusIfNeeded :: "'s kube \<Rightarrow> ServiceClaim \<Rightarrow> ('s, err option) state" where
  "updateRemoteServiceClaimStatusIfNeeded api sc =
     (case scsp_Target (sc_Spec sc) of
        None \<Rightarrow> ret (Some nil_deref)
      | Some t \<Rightarrow>
          (case sct_ApplicationClusterContext t of
             None \<Rightarrow> ret None
           | Some acc \<Rightarrow> do {
               c \<leftarrow> getEnvironmentFromClusterEnvironment api (om_namespace (sc_meta sc)) (acc_ClusterEnvironmentName acc);
               case c of
                 Inl e \<Rightarrow> ret (Some e)
               | Inr ce \<Rightarrow> do {
                   cfg \<leftarrow> GetClusterRESTConfig api (om_namespace (ce_meta ce)) (cesp_ClusterContextSecret (ce_Spec ce));
                   case cfg of
                     Inl e \<Rightarrow> ret (Some e)
                   | Inr cf \<Rightarrow>
                       (case k_new_client api cf of
                          Inl e \<Rightarrow> ret (Some (Wrapped (''error creating client for cluster environment '' @ om_name (ce_meta ce)) e))
                        | Inr cli \<Rightarrow> do {
                            g \<leftarrow> get_claim api cli (acc_Namespace acc, om_name (sc_meta sc));
                            case g of
                              Inl e \<Rightarrow>
                                if scst_State (sc_Status sc) = ClaimPending then ret None
                                else ret (Some (Wrapped (''error retrieving ServiceClaim from application namespace '' @ acc_Namespace acc @
                                  '' of cluster environment '' @ om_name (ce_meta ce)) e))
                            | Inr rsc \<Rightarrow>
                                if remote_differs (sc_Status rsc) (sc_Status sc) then do {
                                  u \<leftarrow> k_status_update api cli (OServiceClaim (rsc\<lparr>sc_Status := (sc_Status rsc)
                                         \<lparr>scst_RegisteredService := scst_RegisteredService (sc_Status sc),
                                          scst_State := scst_State (sc_Status sc),
                                          scst_Conditions := scst_Conditions (sc_Status sc)\<rparr>\<rparr>));
                                  ret (case u of
                                         Inl e \<Rightarrow> Some (Wrapped (''error updating ServiceClaim from application namespace '' @ acc_Namespace acc @
                                           '' of cluster environment '' @ om_name (ce_meta ce)) e)
                                       | Inr _ \<Rightarrow> None) }
                                else ret None }) } }))"

definition updateServiceClaimStatus :: "'s kube \<Rightarrow> ServiceClaim \<Rightarrow> ('s, err option \<times> ServiceClaim) state" where
  "updateServiceClaimStatus api sc = do {
     (u, sc') \<leftarrow> write_claim (k_status_update api (k_self api)) sc;
     case u of
       Some e \<Rightarrow> ret (Some e, sc')
     | None \<Rightarrow> do {
         r \<leftarrow> updateRemoteServiceClaimStatusIfNeeded api sc';
         ret (r, sc') } }"

subsection \<open>Pushing to and deleting from the cluster environments\<close>

fun push_envs_loop ::
  "'s kube \<Rightarrow> ServiceClaim \<Rightarrow> string \<Rightarrow> Secret \<Rightarrow> ClusterEnvironment list \<Rightarrow> ('s, err + err list) state" where
  "push_envs_loop api sc tag secret [] = ret (Inr [])"
| "push_envs_loop api sc tag secret (ce # ces) = do {
     cfg \<leftarrow> GetClusterRESTConfig api (om_namespace (ce_meta ce)) (cesp_ClusterContextSecret (ce_Spec ce));
     case cfg of
       Inl e \<Rightarrow> ret (Inl e)
     | Inr cf \<Rightarrow>
         if cesp_EnvironmentName (ce_Spec ce) \<noteq> tag then push_envs_loop api sc tag secret ces
         else do {
           (r, secret') \<leftarrow> PushServiceBinding api sc secret None (cesp_ApplicationNamespaces (ce_Spec ce)) cf;
           case r of
             Some e \<Rightarrow>
               if is_panic e then ret (Inl e)
               else do {
                 rest \<leftarrow> push_envs_loop api sc tag secret' ces;
                 ret (case rest of Inl p \<Rightarrow> Inl p | Inr es \<Rightarrow> Inr (e # es)) }
           | None \<Rightarrow> push_envs_loop api sc tag secret' ces } }"

definition pushToClusterEnvironments :: "'s kube \<Rightarrow> ServiceClaim \<Rightarrow> Secret \<Rightarrow> ('s, err option) state" where
  "pushToClusterEnvironments api sc secret =
     (case scsp_Target (sc_Spec sc) of
        None \<Rightarrow> ret (Some nil_deref)
      | Some t \<Rightarrow>
          (case sct_ApplicationClusterContext t of
             Some acc \<Rightarrow> do {
               c \<leftarrow> getEnvironmentFromClusterEnvironment api (om_namespace (sc_meta sc)) (acc_ClusterEnvironmentName acc);
               case c of
                 Inl e \<Rightarrow> ret (Some e)
               | Inr ce \<Rightarrow> do {
                   cfg \<leftarrow> GetClusterRESTConfig api (om_namespace (ce_meta ce)) (cesp_ClusterContextSecret (ce_Spec ce));
                   case cfg of
                     Inl e \<Rightarrow> ret (Some e)
                   | Inr cf \<Rightarrow> do {
                       (r, _) \<leftarrow> PushServiceBinding api sc secret (Some (acc_Namespace acc))
                                  (cesp_ApplicationNamespaces (ce_Spec ce)) cf;
                       ret (case r of
                              None \<Rightarrow> None
                            | Some e \<Rightarrow> if is_panic e then Some e else errors_Join [e]) } } }
           | None \<Rightarrow> do {
               l \<leftarrow> k_list api (k_self api) KClusterEnvironment '''' [];
               case map_items envs_of l of
                 Inl e \<Rightarrow> ret (IgnoreNotFound e)
               | Inr ces \<Rightarrow> do {
                   r \<leftarrow> push_envs_loop api sc (sct_EnvironmentTag t) secret ces;
                   ret (join_collected r) } }))"

fun delete_envs_loop ::
  "'s kube \<Rightarrow> ServiceClaim \<Rightarrow> string \<Rightarrow> ClusterEnvironment list \<Rightarrow> ('s, err + err list) state" where
  "delete_envs_loop api sc tag [] = ret (Inr [])"
| "delete_envs_loop api sc tag (ce # ces) = do {
     c \<leftarrow> CreateClient api ce;
     case c of
       Inl e \<Rightarrow> ret (Inl e)
     | Inr cli \<Rightarrow>
         if cesp_EnvironmentName (ce_Spec ce) \<noteq> tag then delete_envs_loop api sc tag ces
         else do {
           r \<leftarrow> DeleteServiceBindingAndSecretFromNamespaces api cli sc (cesp_ApplicationNamespaces (ce_Spec ce));
           rest \<leftarrow> delete_envs_loop api sc tag ces;
           ret (case (r, rest) of (Some e, Inr es) \<Rightarrow> Inr (e # es) | _ \<Rightarrow> rest) } }"

definition DeleteServiceBindingsAndSecret :: "'s kube \<Rightarrow> ServiceClaim \<Rightarrow> ('s, err option) state" where
  "DeleteServiceBindingsAndSecret api sc =
     (case scsp_Target (sc_Spec sc) of
        None \<Rightarrow> ret (Some nil_deref)
      | Some ot \<Rightarrow>
          (case sct_ApplicationClusterContext ot of
             Some acc \<Rightarrow> do {
               c \<leftarrow> getEnvironmentFromClusterEnvironment api (om_namespace (sc_meta sc)) (acc_ClusterEnvironmentName acc);
               case c of
                 Inl e \<Rightarrow> ret (Some e)
               | Inr ce \<Rightarrow> do {
                   cl \<leftarrow> CreateClient api ce;
                   case cl of
                     Inl e \<Rightarrow> ret (Some e)
                   | Inr cli \<Rightarrow> do {
                       r \<leftarrow> DeleteServiceBindingAndSecretFromNamespaces api cli sc [acc_Namespace acc];
                       ret (errors_Join_opt [r]) } } }
           | None \<Rightarrow> do {
               l \<leftarrow> k_list api (k_self api) KClusterEnvironment '''' [];
               case map_items envs_of l of
                 Inl e \<Rightarrow> ret (IgnoreNotFound e)
               | Inr ces \<Rightarrow> do {
                   r \<leftarrow> delete_envs_loop api sc (sct_EnvironmentTag ot) ces;
                   ret (join_collected r) } }))"

subsection \<open>Processing a claim\<close>

definition processClaimMarkedForDeletion :: "'s kube \<Rightarrow> string \<Rightarrow> ServiceClaim \<Rightarrow> ('s, err option) state" where
  "processClaimMarkedForDeletion api namespace sc = do {
     l \<leftarrow> k_list api (k_self api) KRegisteredService namespace [];
     let errs = (case l of Inl e \<Rightarrow> [IgnoreNotFound e] | Inr _ \<Rightarrow> []);
     let items = (case map_items services_of l of Inl _ \<Rightarrow> [] | Inr rss \<Rightarrow> rss);
     case find_bound sc items of
       Inl p \<Rightarrow> ret (Some p)
     | Inr found \<Rightarrow> do {
         d \<leftarrow> DeleteServiceBindingsAndSecret api sc;
         if (case d of Some e \<Rightarrow> is_panic e | None \<Rightarrow> False) then ret d
         else do {
           c \<leftarrow> (case found of
                  Some rs \<Rightarrow> changeServiceState api rs RSAvailable
                | None \<Rightarrow> ret None);
           ret (errors_Join_opt (errs @ [d, c])) } } }"

text \<open>The claim is pending with the condition that says why, and the error is returned.\<close>

definition reject_claim :: "'s kube \<Rightarrow> ServiceClaim \<Rightarrow> string \<Rightarrow> ('s, err option) state" where
  "reject_claim api sc msg = do {
     now \<leftarrow> k_now api;
     let c = \<lparr>co_type = ''Ready'', co_status = CondFalse, co_observedGeneration = 0,
              co_lastTransitionTime = now, co_reason = ''NoMatchingServiceFound'', co_message = msg\<rparr>;
     (u, _) \<leftarrow> updateServiceClaimStatus api (sc\<lparr>sc_Status := (sc_Status sc)
       \<lparr>scst_Conditions := SetStatusCondition now c (scst_Conditions (sc_Status sc)),
        scst_State := ClaimPending\<rparr>\<rparr>);
     case u of Some e \<Rightarrow> ret (Some e) | None \<Rightarrow> ret (Some (Plain msg)) }"

definition with_service :: "ServiceClaimState \<Rightarrow> RegisteredService \<Rightarrow> ServiceClaim \<Rightarrow> ServiceClaim" where
  "with_service st rs sc = sc\<lparr>sc_Status := (sc_Status sc)
     \<lparr>scst_State := st,
      scst_RegisteredService := Some \<lparr>ref_Name = om_name (rs_meta rs), ref_UID = om_uid (rs_meta rs)\<rparr>\<rparr>\<rparr>"

text \<open>
  The steps both kinds of processing end with: the claim is pending on the service, the service is
  claimed, the endpoint definition is pushed, the claim is resolved. After a push that fails the
  service is set back; \<open>rs\<close> is the service as it was read, since the write of the claimed state
  went through a copy. \<open>h\<close> is what the caller makes of the error of the push.
\<close>

definition bind_claim ::
  "'s kube \<Rightarrow> (err \<Rightarrow> err option) \<Rightarrow> ServiceClaim \<Rightarrow> RegisteredService \<Rightarrow> Secret \<Rightarrow> ('s, err option) state" where
  "bind_claim api h sc rs secret = do {
     (u, sc1) \<leftarrow> updateServiceClaimStatus api (with_service ClaimPending rs sc);
     case u of
       Some e \<Rightarrow> ret (Some e)
     | None \<Rightarrow> do {
         c \<leftarrow> changeServiceState api rs RSClaimed;
         case c of
           Some e \<Rightarrow> ret (Some e)
         | None \<Rightarrow> do {
             let sc2 = with_service ClaimResolved rs sc1;
             p \<leftarrow> pushToClusterEnvironments api sc2 secret;
             case p of
               Some e \<Rightarrow>
                 if is_panic e then ret (Some e)
                 else do {
                   _ \<leftarrow> changeServiceState api rs RSAvailable;
                   ret (h e) }
             | None \<Rightarrow> do {
                 (v, _) \<leftarrow> updateServiceClaimStatus api sc2;
                 ret v } } } }"

definition processResolvedServiceClaim :: "'s kube \<Rightarrow> ServiceClaim \<Rightarrow> ('s, err option) state" where
  "processResolvedServiceClaim api sc =
     (case scst_RegisteredService (sc_Status sc) of
        None \<Rightarrow> ret (Some (Plain (''service claim '' @ om_name (sc_meta sc) @ [CHR 0x27] @ ''s registered service name is not set'')))
      | Some ref \<Rightarrow> do {
          g \<leftarrow> get_service api (k_self api) (om_namespace (sc_meta sc), ref_Name ref);
          case g of
            Inl e \<Rightarrow> ret (Some e)
          | Inr rs \<Rightarrow> do {
              d \<leftarrow> getServiceEndpointDefinition api sc rs;
              case d of
                Inl e \<Rightarrow> ret (Some e)
              | Inr secret \<Rightarrow> bind_claim api Some sc rs secret } })"

definition claim_environment :: "'s kube \<Rightarrow> ServiceClaim \<Rightarrow> ('s, err + string) state" where
  "claim_environment api sc =
     (case scsp_Target (sc_Spec sc) of
        None \<Rightarrow> ret (Inl nil_deref)
      | Some t \<Rightarrow>
          (case sct_ApplicationClusterContext t of
             Some acc \<Rightarrow> do {
               c \<leftarrow> getEnvironmentFromClusterEnvironment api (om_namespace (sc_meta sc)) (acc_ClusterEnvironmentName acc);
               ret (case c of Inl e \<Rightarrow> Inl e | Inr ce \<Rightarrow> Inr (cesp_EnvironmentName (ce_Spec ce))) }
           | None \<Rightarrow> ret (Inr (sct_EnvironmentTag t))))"

definition processServiceClaim ::
  "'s kube \<Rightarrow> RegisteredService list \<Rightarrow> ServiceClaim \<Rightarrow> ('s, err option) state" where
  "processServiceClaim api rsl sc = do {
     v \<leftarrow> claim_environment api sc;
     case v of
       Inl e \<Rightarrow> ret (Some e)
     | Inr env \<Rightarrow>
         (case find (\<lambda>rs. rs_State rs = RSAvailable \<and> service_matches sc env rs) rsl of
            None \<Rightarrow> reject_claim api sc ''SCI is not matched''
          | Some rs \<Rightarrow> do {
              x \<leftarrow> extractServiceEndpointDefinition api (om_namespace (sc_meta sc)) rs
                     (scsp_ServiceEndpointDefinitionKeys (sc_Spec sc)) (claim_secret sc);
              case x of
                Inl e \<Rightarrow> ret (Some e)
              | Inr (n, secret) \<Rightarrow>
                  if int (length (scsp_ServiceEndpointDefinitionKeys (sc_Spec sc))) > n
                  then reject_claim api sc ''key not available in the list of SEDs''
                  else bind_claim api IgnoreNotFound sc rs (add_identity sc secret) }) }"

definition processClaim :: "'s kube \<Rightarrow> string \<Rightarrow> ServiceClaim \<Rightarrow> ('s, err option) state" where
  "processClaim api namespace sc = do {
     l \<leftarrow> k_list api (k_self api) KRegisteredService namespace [];
     case map_items services_of l of
       Inl e \<Rightarrow> ret (IgnoreNotFound e)
     | Inr rsl \<Rightarrow> processServiceClaim api rsl sc }"

definition ensureServiceClaimIsInitialized :: "'s kube \<Rightarrow> ServiceClaim \<Rightarrow> ('s, err option \<times> ServiceClaim) state" where
  "ensureServiceClaimIsInitialized api sc =
     (if scst_ClaimID (sc_Status sc) \<noteq> '''' then ret (None, sc)
      else do {
        u \<leftarrow> k_uuid api;
        write_claim (k_status_update api (k_self api))
          (sc\<lparr>sc_Status := (sc_Status sc)\<lparr>scst_ClaimID := u, scst_State := ClaimPending\<rparr>\<rparr>) })"

definition finalize_claim :: "'s kube \<Rightarrow> string \<Rightarrow> ServiceClaim \<Rightarrow> ('s, err option) state" where
  "finalize_claim api namespace sc =
     (if \<not> ContainsFinalizer (sc_meta sc) ServiceClaimFinalizer then ret None
      else do {
        r \<leftarrow> processClaimMarkedForDeletion api namespace sc;
        case r of
          Some e \<Rightarrow> ret (Some e)
        | None \<Rightarrow>
            (case RemoveFinalizer (sc_meta sc) ServiceClaimFinalizer of
               (False, _) \<Rightarrow> ret (Some (Plain ''Finalizer not removed for service claim''))
             | (True, m) \<Rightarrow> do {
                 (u, _) \<leftarrow> write_claim (k_update api (k_self api)) (sc\<lparr>sc_meta := m\<rparr>);
                 ret u }) })"

definition ensure_finalizer :: "'s kube \<Rightarrow> ServiceClaim \<Rightarrow> ('s, err option \<times> ServiceClaim) state" where
  "ensure_finalizer api sc =
     (case AddFinalizer (sc_meta sc) ServiceClaimFinalizer of
        (True, m) \<Rightarrow> write_claim (k_update api (k_self api)) (sc\<lparr>sc_meta := m\<rparr>)
      | (False, _) \<Rightarrow> ret (None, sc))"

definition ReconcileClaim :: "'s kube \<Rightarrow> nsname \<Rightarrow> ('s, err option) state" where
  "ReconcileClaim api req = do {
     g \<leftarrow> get_claim api (k_self api) req;
     case g of
       Inl e \<Rightarrow> ret (IgnoreNotFound e)
     | Inr sc0 \<Rightarrow>
         if om_deletion (sc_meta sc0) then finalize_claim api (fst req) sc0
         else do {
           (f, sc1) \<leftarrow> ensure_finalizer api sc0;
           case f of
             Some e \<Rightarrow> ret (Some e)
           | None \<Rightarrow> do {
               (i, sc2) \<leftarrow> ensureServiceClaimIsInitialized api sc1;
               case i of
                 Some e \<Rightarrow> ret (Some e)
               | None \<Rightarrow>
                   if scst_State (sc_Status sc2) = ClaimResolved
                   then processResolvedServiceClaim api sc2
                   else processClaim api (fst req) sc2 } } }"

subsection \<open>Lemmas on matching\<close>

definition stock :: "(ServiceClassIdentityItem \<rightharpoonup> int) \<Rightarrow> ServiceClassIdentityItem \<Rightarrow> int" where
  "stock m v = (case m v of None \<Rightarrow> 0 | Some n \<Rightarrow> n)"

lemma stock_upd: "stock (m(v \<mapsto> n)) u = (if u = v then n else stock m u)"
  by (simp add: stock_def)

lemma count_items_counts: "stock (count_items m vs) v = stock m v + int (count (mset vs) v)"
proof (induction vs arbitrary: m)
  case (Cons w vs)
  have "(case m w of Some n \<Rightarrow> n + 1 | None \<Rightarrow> 1) = stock m w + 1" by (simp add: stock_def split: option.split)
  then have "stock (count_items m (w # vs)) v = stock (m(w \<mapsto> stock m w + 1)) v + int (count (mset vs) v)"
    by (simp only: count_items.simps Cons)
  then show ?case by (simp only: stock_upd) simp
qed simp

lemma take_items_counts:
  "(\<And>v. stock m v = int (count M v)) \<Longrightarrow> take_items m vs \<longleftrightarrow> mset vs \<subseteq># M"
proof (induction vs arbitrary: m M)
  case (Cons v vs)
  show ?case
  proof (cases "count M v = 0")
    case True
    then have "v \<notin># M" by (simp add: count_eq_zero_iff)
    then have "\<not> mset (v # vs) \<subseteq># M" by (metis list.set_intros(1) mset_subset_eqD set_mset_mset)
    moreover have "stock m v = 0" using Cons.prems [of v] True by simp
    ultimately show ?thesis by (auto simp: stock_def split: option.splits)
  next
    case False
    obtain n where n: "m v = Some n" "n = int (count M v)"
      using False Cons.prems [of v] by (cases "m v") (auto simp: stock_def not_in_iff [symmetric])
    from False have "v \<in># M" by (simp add: count_eq_zero_iff)
    then obtain M' where M: "M = add_mset v M'" by (meson mset_add)
    have "stock (m(v \<mapsto> n - 1)) u = int (count M' u)" for u
      using Cons.prems [of u] n M by (simp only: stock_upd) simp
    then have "take_items (m(v \<mapsto> n - 1)) vs \<longleftrightarrow> mset vs \<subseteq># M'" by (rule Cons.IH)
    moreover have "\<not> n < 1" using n False by simp
    ultimately show ?thesis using n(1) M by simp
  qed
qed simp

lemma checkSCISubset_iff: "checkSCISubset c r \<longleftrightarrow> mset c \<subseteq># mset r"
  unfolding checkSCISubset_def
  by (rule take_items_counts) (simp add: count_items_counts, simp add: stock_def)

subsection \<open>Lemmas on the endpoint definition\<close>

text \<open>The value a definition item may have in a state: its own, or what the secret it names holds.\<close>

definition sed_value_in ::
  "('s \<Rightarrow> cluster \<Rightarrow> okind \<Rightarrow> nsname \<Rightarrow> obj option) \<Rightarrow> cluster \<Rightarrow> string \<Rightarrow> 's \<Rightarrow>
     ServiceEndpointDefinitionItem \<Rightarrow> string \<Rightarrow> bool" where
  "sed_value_in objs c ns s sed v =
     (if sed_Value sed \<noteq> '''' then v = sed_Value sed
      else \<exists>ref sec. sed_ValueFromSecret sed = Some ref \<and>
        objs s c KSecret (ns, ssr_Name ref) = Some (OSecret sec) \<and>
        v = (case gm_get (sec_Data sec) (ssr_Key ref) of Some w \<Rightarrow> w | None \<Rightarrow> ''''))"

text \<open>
  What the loop has done from \<open>n\<close>, \<open>d\<close> to \<open>n'\<close>, \<open>d'\<close>: new entries come from items that are asked for,
  and each of them was counted; \<open>V\<close> relates an item to its possible values.
\<close>

definition extracted :: "(ServiceEndpointDefinitionItem \<Rightarrow> string \<Rightarrow> bool) \<Rightarrow> string list \<Rightarrow>
    int \<Rightarrow> (string, string) gomap \<Rightarrow> ServiceEndpointDefinitionItem list \<Rightarrow> int \<Rightarrow> (string, string) gomap \<Rightarrow> bool" where
  "extracted V keys n d seds n' d' =
     ((\<forall>k v. gm_get d' k = Some v \<longrightarrow> gm_get d k = Some v \<or>
         (k \<in> set keys \<and> (\<exists>sed\<in>set seds. sed_Name sed = k \<and> V sed v))) \<and>
      (\<exists>names. n' = n + int (length names) \<and> fst ` set d' = fst ` set d \<union> set names \<and>
         set names \<subseteq> set keys \<and> set names \<subseteq> sed_Name ` set seds \<and>
         (distinct (map sed_Name seds) \<longrightarrow> distinct names)) \<and>
      (gm_wf d \<longrightarrow> gm_wf d'))"

lemma extracted_Nil: "extracted V keys n d [] n d"
  by (auto simp: extracted_def intro: exI [of _ "[]"])

lemma extracted_skip:
  assumes "extracted V keys n d seds n' d'"
  shows "extracted V keys n d (sed # seds) n' d'"
proof -
  from assms obtain names where "n' = n + int (length names)" "fst ` set d' = fst ` set d \<union> set names"
    "set names \<subseteq> set keys" "set names \<subseteq> sed_Name ` set seds" "distinct (map sed_Name seds) \<longrightarrow> distinct names"
    unfolding extracted_def by blast
  then have "\<exists>names. n' = n + int (length names) \<and> fst ` set d' = fst ` set d \<union> set names \<and>
         set names \<subseteq> set keys \<and> set names \<subseteq> sed_Name ` set (sed # seds) \<and>
         (distinct (map sed_Name (sed # seds)) \<longrightarrow> distinct names)"
    by (intro exI [of _ names]) auto
  with assms show ?thesis unfolding extracted_def by (metis list.set_intros(2))
qed

lemma extracted_put:
  assumes "extracted V keys (n + 1) (gm_put (sed_Name sed) v d) seds n' d'"
    and key: "sed_Name sed \<in> set keys" and v: "V sed v"
  shows "extracted V keys n d (sed # seds) n' d'"
proof -
  from assms(1) have new: "gm_get d' k = Some w \<Longrightarrow> gm_get (gm_put (sed_Name sed) v d) k = Some w \<or>
      (k \<in> set keys \<and> (\<exists>sed\<in>set seds. sed_Name sed = k \<and> V sed w))" for k w
    unfolding extracted_def by blast
  have "\<forall>k w. gm_get d' k = Some w \<longrightarrow> gm_get d k = Some w \<or>
      (k \<in> set keys \<and> (\<exists>x\<in>set (sed # seds). sed_Name x = k \<and> V x w))"
  proof (intro allI impI)
    fix k w assume "gm_get d' k = Some w"
    from new [OF this] key v show "gm_get d k = Some w \<or>
      (k \<in> set keys \<and> (\<exists>x\<in>set (sed # seds). sed_Name x = k \<and> V x w))"
      by (cases "k = sed_Name sed") auto
  qed
  moreover from assms(1) obtain names where "n' = n + 1 + int (length names)"
    "fst ` set d' = fst ` set (gm_put (sed_Name sed) v d) \<union> set names"
    "set names \<subseteq> set keys" "set names \<subseteq> sed_Name ` set seds" "distinct (map sed_Name seds) \<longrightarrow> distinct names"
    unfolding extracted_def by blast
  note names = this
  have "\<exists>names. n' = n + int (length names) \<and> fst ` set d' = fst ` set d \<union> set names \<and>
         set names \<subseteq> set keys \<and> set names \<subseteq> sed_Name ` set (sed # seds) \<and>
         (distinct (map sed_Name (sed # seds)) \<longrightarrow> distinct names)"
  proof (intro exI conjI impI)
    show "n' = n + int (length (sed_Name sed # names))" using names(1) by simp
    show "fst ` set d' = fst ` set d \<union> set (sed_Name sed # names)" using names(2) by (simp add: keys_gm_put)
    show "set (sed_Name sed # names) \<subseteq> set keys" using names(3) key by simp
    show "set (sed_Name sed # names) \<subseteq> sed_Name ` set (sed # seds)" using names(4) by auto
    assume "distinct (map sed_Name (sed # seds))"
    then show "distinct (sed_Name sed # names)" using names(4,5) by auto
  qed
  moreover have "gm_wf (gm_put (sed_Name sed) v d) \<longrightarrow> gm_wf d'" using assms(1) unfolding extracted_def by (elim conjE)
  then have "gm_wf d \<longrightarrow> gm_wf d'" by (simp add: gm_wf_put)
  ultimately show ?thesis unfolding extracted_def by blast
qed

context kube_store
begin

text \<open>
  What the loop does with one item: it stops without a value and a source, skips the item, or puts a
  value of the item; at most one secret is read.
\<close>

lemma extract_loop_step:
  obtains (stop) "run_state (extract_loop api ns keys (sed # seds) n d) s = (Inl nil_deref, s)"
      "sed_Value sed = ''''" "sed_ValueFromSecret sed = None"
    | (skip) s1 where
      "run_state (extract_loop api ns keys (sed # seds) n d) s = run_state (extract_loop api ns keys seds n d) s1"
      "s1 = s \<or> (\<exists>k g. run_state (get_secret api (k_self api) (ns, k)) s = (g, s1))"
      "sed_Name sed \<in> set keys \<Longrightarrow> sed_Value sed = '''' \<and>
        (\<exists>ref. sed_ValueFromSecret sed = Some ref \<and> (ssr_Key ref = '''' \<or>
           (\<exists>e. run_state (get_secret api (k_self api) (ns, ssr_Name ref)) s = (Inl e, s1))))"
    | (put) v s1 where
      "run_state (extract_loop api ns keys (sed # seds) n d) s =
        run_state (extract_loop api ns keys seds (n + 1) (gm_put (sed_Name sed) v d)) s1"
      "s1 = s \<or> (\<exists>k g. run_state (get_secret api (k_self api) (ns, k)) s = (g, s1))"
      "sed_Name sed \<in> set keys" "sed_value_in objs (k_self api) ns s sed v"
proof (cases "sed_Value sed = '''' \<and> sed_Name sed \<in> set keys")
  case True
  show thesis
  proof (cases "sed_ValueFromSecret sed")
    case None
    with True show thesis by (intro stop) simp_all
  next
    case (Some ref)
    obtain g s1 where g: "run_state (get_secret api (k_self api) (ns, ssr_Name ref)) s = (g, s1)" by fastforce
    show thesis
    proof (cases "ssr_Key ref = ''''")
      case True
      with Some \<open>sed_Value sed = '''' \<and> _\<close> show thesis by (intro skip [of s]) simp_all
    next
      case wanted: False
      show thesis
      proof (cases g)
        case (Inl e)
        with True Some wanted g show thesis by (intro skip [of s1]) auto
      next
        case (Inr sec)
        with g get_secret_found have "objs s (k_self api) KSecret (ns, ssr_Name ref) = Some (OSecret sec)" by blast
        with True Some wanted g Inr show thesis
          by (intro put [of "case gm_get (sec_Data sec) (ssr_Key ref) of Some v \<Rightarrow> v | None \<Rightarrow> ''''" s1])
            (auto simp: sed_value_in_def)
      qed
    qed
  qed
next
  case False
  show thesis
  proof (cases "sed_Value sed = ''''")
    case True
    with False show thesis by (cases "sed_ValueFromSecret sed") (auto intro: stop skip [of s])
  next
    case literal: False
    then show thesis
      by (cases "sed_Name sed \<in> set keys") (auto simp: sed_value_in_def intro: skip [of s] put [of "sed_Value sed" s])
  qed
qed

lemma one_read:
  assumes "s1 = s \<or> (\<exists>k g. run_state (get_secret api (k_self api) (ns, k)) s = (g, s1))"
  shows "objs s1 = objs s"
  using assms reads_only [OF modifies_get_secret] by metis

lemma extract_loop_ok:
  assumes "run_state (extract_loop api ns keys seds n d) s = (Inr (n', d'), s')"
  shows "objs s' = objs s \<and> extracted (sed_value_in objs (k_self api) ns s) keys n d seds n' d'"
  using assms
proof (induction seds arbitrary: n d s)
  case Nil
  then show ?case by (auto simp: extracted_Nil)
next
  case (Cons sed seds)
  have V: "sed_value_in objs (k_self api) ns s1 = sed_value_in objs (k_self api) ns s" if "objs s1 = objs s" for s1
    using that by (intro ext) (simp add: sed_value_in_def)
  show ?case
  proof (cases rule: extract_loop_step [of ns keys sed seds n d s])
    case stop
    with Cons.prems show ?thesis by simp
  next
    case (skip s1)
    note same = one_read [OF skip(2)]
    note ih = Cons.IH [OF Cons.prems [unfolded skip(1)], unfolded V [OF same] same]
    then show ?thesis using extracted_skip by blast
  next
    case (put v s1)
    note same = one_read [OF put(2)]
    note ih = Cons.IH [OF Cons.prems [unfolded put(1)], unfolded V [OF same] same]
    then show ?thesis using extracted_put put(3,4) by blast
  qed
qed

end

end
