(* ===== verification/ServiceClaim_Correct.thy ===== *)
theory ServiceClaim_Correct
  imports ServiceClaim_Ctrl
begin

section \<open>Correctness of the service claim controller\<close>

text \<open>
  What a reconciliation of a service claim writes (\<open>modifies\<close> lemmas, one per operation), what the writes
  of claims and of service states leave, and the properties: a resolved claim stands for a claimed
  service and a delivered endpoint definition, no other service is touched, and a deletion frees the
  first match.
\<close>

subsection \<open>What each step writes\<close>

context kube_store
begin

lemma modifies_GetClusterRESTConfig [frame_intros]: "modifies objs K (GetClusterRESTConfig api ns n)"
  unfolding GetClusterRESTConfig_def by (intro frame_intros)

lemma modifies_getEnvironment [frame_intros]: "modifies objs K (getEnvironmentFromClusterEnvironment api ns n)"
  unfolding getEnvironmentFromClusterEnvironment_def by (intro frame_intros)

lemma modifies_push_loop [frame_intros]:
  "modifies objs (of_kinds {KServiceBinding, KSecret}) (push_bindings_loop api cli sc nspace secret nss)"
proof (induction nss arbitrary: secret)
  case (Cons ns nss)
  have "modifies objs (of_kinds {KServiceBinding, KSecret}) (pushServiceBindingToNamespace api cli ns sc secret)"
    by (rule modifies_push_binding) simp_all
  with Cons show ?case by (auto intro!: frame_intros split: prod.split option.split)
qed (simp add: modifies_ret)

lemma modifies_PushServiceBinding [frame_intros]:
  "modifies objs (of_kinds {KServiceBinding, KSecret}) (PushServiceBinding api sc secret nspace nss cfg)"
  unfolding PushServiceBinding_def by (auto intro!: frame_intros split: sum.split prod.split)

lemma modifies_push_envs [frame_intros]:
  "modifies objs (of_kinds {KServiceBinding, KSecret}) (push_envs_loop api sc tag secret ces)"
proof (induction ces arbitrary: secret)
  case (Cons ce ces)
  then show ?case by (auto intro!: frame_intros split: sum.split prod.split option.split)
qed (simp add: modifies_ret)

lemma modifies_pushToClusterEnvironments [frame_intros]:
  "modifies objs (of_kinds {KServiceBinding, KSecret}) (pushToClusterEnvironments api sc secret)"
  unfolding pushToClusterEnvironments_def by (auto intro!: frame_intros split: sum.split prod.split option.split)

lemma modifies_updateRemote [frame_intros]:
  "modifies objs (of_kinds {KServiceClaim}) (updateRemoteServiceClaimStatusIfNeeded api sc)"
  unfolding updateRemoteServiceClaimStatusIfNeeded_def
  by (auto intro!: frame_intros split: sum.split option.split)

lemma modifies_write_claim [frame_intros]:
  "modifies objs K (put (OServiceClaim sc)) \<Longrightarrow> modifies objs K (write_claim put sc)"
  unfolding write_claim_def by (intro frame_intros)

lemma modifies_updateServiceClaimStatus [frame_intros]:
  "modifies objs (of_kinds {KServiceClaim}) (updateServiceClaimStatus api sc)"
  unfolding updateServiceClaimStatus_def by (auto intro!: frame_intros split: prod.split option.split)

lemma modifies_reject_claim [frame_intros]:
  "modifies objs (of_kinds {KServiceClaim}) (reject_claim api sc msg)"
  unfolding reject_claim_def Let_def by (auto intro!: frame_intros split: prod.split option.split)

lemma modifies_claim_environment [frame_intros]: "modifies objs K (claim_environment api sc)"
  unfolding claim_environment_def by (auto intro!: frame_intros split: option.split)

lemma modifies_extract_loop [frame_intros]: "modifies objs K (extract_loop api ns keys seds n d)"
  by (induction seds arbitrary: n d) (auto intro!: frame_intros split: option.split sum.split)

lemma modifies_extract [frame_intros]:
  "modifies objs K (extractServiceEndpointDefinition api ns rs keys secret)"
  unfolding extractServiceEndpointDefinition_def by (intro frame_intros)

lemma modifies_ensure_finalizer [frame_intros]:
  "modifies objs (of_kinds {KServiceClaim}) (ensure_finalizer api sc)"
  unfolding ensure_finalizer_def by (auto intro!: frame_intros split: prod.split bool.split)

lemma modifies_ensure_initialized [frame_intros]:
  "modifies objs (of_kinds {KServiceClaim}) (ensureServiceClaimIsInitialized api sc)"
  unfolding ensureServiceClaimIsInitialized_def by (auto intro!: frame_intros)

end

subsection \<open>The writes of claims and of service states\<close>

text \<open>\<open>claim_stored objs c s sc\<close>: the claim is stored as it is.\<close>

definition claim_stored ::
  "('s \<Rightarrow> cluster \<Rightarrow> okind \<Rightarrow> nsname \<Rightarrow> obj option) \<Rightarrow> cluster \<Rightarrow> 's \<Rightarrow> ServiceClaim \<Rightarrow> bool" where
  "claim_stored objs c s sc = (objs s c KServiceClaim (meta_key (sc_meta sc)) = Some (OServiceClaim sc))"

text \<open>The claim in the application's namespace with the status of the one in the control plane.\<close>

definition told_claim :: "ServiceClaim \<Rightarrow> ServiceClaim \<Rightarrow> ServiceClaim" where
  "told_claim sc rsc = rsc\<lparr>sc_Status := (sc_Status rsc)
     \<lparr>scst_RegisteredService := scst_RegisteredService (sc_Status sc),
      scst_State := scst_State (sc_Status sc), scst_Conditions := scst_Conditions (sc_Status sc)\<rparr>\<rparr>"

context kube_store
begin

lemma status_claim_ok:
  assumes "run_state (write_claim (k_status_update api c) sc) s = ((None, sc'), s')"
  shows "claim_stored objs c s' sc' \<and> sc_Status sc' = sc_Status sc \<and> meta_key (sc_meta sc') = meta_key (sc_meta sc) \<and>
    (\<exists>old. objs s c KServiceClaim (meta_key (sc_meta sc)) = Some (OServiceClaim old) \<and> sc_Spec sc' = sc_Spec old \<and>
       om_deletion (sc_meta sc') = om_deletion (sc_meta old))"
proof -
  from assms obtain y where u: "run_state (k_status_update api c (OServiceClaim sc)) s = (Inr y, s')"
    and y: "sc' = as_claim sc y"
    by (auto simp: write_claim_def split: prod.splits sum.splits)
  from status_ok [OF u] obtain old v where
    old: "objs s c KServiceClaim (meta_key (sc_meta sc)) = Some old" and
    st: "y = set_version v (copy_status (OServiceClaim sc) old)"
      "objs s' c KServiceClaim (meta_key (sc_meta sc)) = Some y" by (auto simp: obj_key_def)
  from keyed [OF old] obtain oc where oc: "old = OServiceClaim oc" "meta_key (sc_meta oc) = meta_key (sc_meta sc)"
    by (cases old) (auto simp: obj_key_def)
  with st y old show ?thesis by (auto simp: claim_stored_def set_version_def as_claim_def meta_key_def)
qed

lemma update_claim_ok:
  assumes "run_state (write_claim (k_update api c) sc) s = ((None, sc'), s')"
    and "objs s c KServiceClaim (meta_key (sc_meta sc)) = Some (OServiceClaim old)" and "\<not> om_deletion (sc_meta old)"
  shows "claim_stored objs c s' sc' \<and> sc_Spec sc' = sc_Spec sc \<and> sc_Status sc' = sc_Status old \<and>
    meta_key (sc_meta sc') = meta_key (sc_meta sc) \<and> \<not> om_deletion (sc_meta sc')"
proof -
  from assms(1) obtain y where u: "run_state (k_update api c (OServiceClaim sc)) s = (Inr y, s')"
    and y: "sc' = as_claim sc y"
    by (auto simp: write_claim_def split: prod.splits sum.splits)
  from update_ok [OF u] assms(2,3) obtain v where
    "y = written (OServiceClaim old) v (OServiceClaim sc)"
    "objs s' c KServiceClaim (meta_key (sc_meta sc)) = Some y" by (auto simp: obj_key_def)
  with y assms(3) show ?thesis
    by (auto simp: claim_stored_def written_def keep_server_fields_def set_version_def as_claim_def meta_key_def)
qed

text \<open>Either nothing is written, or the status of the claim's copy, with the values of the claim.\<close>

lemma updateRemote_cases:
  assumes "run_state (updateRemoteServiceClaimStatusIfNeeded api sc) s = (r, s')"
  obtains (same) "objs s' = objs s"
    | (wrote) cli rsc q s1 where "objs s1 = objs s" "om_name (sc_meta rsc) = om_name (sc_meta sc)"
      "run_state (k_status_update api cli (OServiceClaim (told_claim sc rsc))) s1 = (q, s')"
      "r = None \<longrightarrow> (\<exists>y. q = Inr y)"
proof (cases "\<exists>t acc. scsp_Target (sc_Spec sc) = Some t \<and> sct_ApplicationClusterContext t = Some acc")
  case False
  with assms show thesis
    by (intro same) (auto simp: updateRemoteServiceClaimStatusIfNeeded_def split: option.splits)
next
  case True
  then obtain t acc where t: "scsp_Target (sc_Spec sc) = Some t" "sct_ApplicationClusterContext t = Some acc" by blast
  note def = updateRemoteServiceClaimStatusIfNeeded_def
  obtain e s1 where e: "run_state (getEnvironmentFromClusterEnvironment api (om_namespace (sc_meta sc))
      (acc_ClusterEnvironmentName acc)) s = (e, s1)" by fastforce
  have s1: "objs s1 = objs s" by (rule reads_only [OF modifies_getEnvironment e])
  show thesis
  proof (cases e)
    case (Inl x)
    with t assms e s1 show thesis by (intro same) (auto simp: def)
  next
    case ce: (Inr ce)
    obtain cf s2 where cf: "run_state (GetClusterRESTConfig api (om_namespace (ce_meta ce))
        (cesp_ClusterContextSecret (ce_Spec ce))) s1 = (cf, s2)" by fastforce
    have s2: "objs s2 = objs s" using reads_only [OF modifies_GetClusterRESTConfig cf] s1 by simp
    show thesis
    proof (cases "\<exists>f cli. cf = Inr f \<and> k_new_client api f = Inr cli")
      case False
      with t assms e ce cf s2 show thesis by (intro same) (auto simp: def split: sum.splits)
    next
      case True
      then obtain f cli where f: "cf = Inr f" "k_new_client api f = Inr cli" by blast
      obtain g s3 where g: "run_state (get_claim api cli (acc_Namespace acc, om_name (sc_meta sc))) s2 = (g, s3)" by fastforce
      have s3: "objs s3 = objs s" using reads_only [OF modifies_get_claim g] s2 by simp
      show thesis
      proof (cases "\<exists>rsc. g = Inr rsc \<and> remote_differs (sc_Status rsc) (sc_Status sc)")
        case True
        then obtain rsc where rsc: "g = Inr rsc" "remote_differs (sc_Status rsc) (sc_Status sc)" by blast
        from get_claim_found [OF g [unfolded rsc(1)]] keyed have "om_name (sc_meta rsc) = om_name (sc_meta sc)"
          by (fastforce simp: obj_key_def meta_key_def)
        moreover from t assms e ce cf f g rsc obtain q where
          "run_state (k_status_update api cli (OServiceClaim (told_claim sc rsc))) s3 = (q, s')" "r = None \<longrightarrow> (\<exists>y. q = Inr y)"
          by (auto simp: def told_claim_def split: prod.splits sum.splits)
        ultimately show thesis using s3 by (intro wrote)
      next
        case False
        with t assms e ce cf f g have "s3 = s'" by (cases g) (auto simp: def split: if_splits)
        with s3 show thesis by (intro same) simp
      qed
    qed
  qed
qed

text \<open>The remote status is written with the values of the local one, also when both are one object.\<close>

lemma updateRemote_keeps:
  assumes "run_state (updateRemoteServiceClaimStatusIfNeeded api sc) s = (None, s')"
    and "objs s c KServiceClaim n = Some (OServiceClaim x)"
    and "P (scst_State (sc_Status x)) (scst_RegisteredService (sc_Status x))"
    and "P (scst_State (sc_Status sc)) (scst_RegisteredService (sc_Status sc))"
  shows "\<exists>x'. objs s' c KServiceClaim n = Some (OServiceClaim x') \<and>
    P (scst_State (sc_Status x')) (scst_RegisteredService (sc_Status x'))"
proof (rule updateRemote_cases [OF assms(1)])
  assume "objs s' = objs s"
  with assms show ?thesis by auto
next
  fix cli rsc q s1 assume s1: "objs s1 = objs s" and "(None :: err option) = None \<longrightarrow> (\<exists>y. q = Inr y)"
    and "run_state (k_status_update api cli (OServiceClaim (told_claim sc rsc))) s1 = (q, s')"
  then obtain y where u: "run_state (k_status_update api cli (OServiceClaim (told_claim sc rsc))) s1 = (Inr y, s')" by blast
  show ?thesis
  proof (cases "c = cli \<and> n = meta_key (sc_meta rsc)")
    case True
    from status_ok [OF u] obtain old v where
      "objs s1 cli KServiceClaim n = Some old" "objs s' cli KServiceClaim n = Some y"
      "y = set_version v (copy_status (OServiceClaim (told_claim sc rsc)) old)"
      using True by (auto simp: obj_key_def told_claim_def)
    with s1 assms(2,4) True show ?thesis by (auto simp: set_version_def told_claim_def)
  next
    case False
    with status_others [OF u] s1 assms(2,3) show ?thesis
      by (auto simp: same_but_def obj_key_def told_claim_def)
  qed
qed

lemma changeServiceState_ok:
  assumes "run_state (changeServiceState api rs st) s = (None, s')"
    and "objs s (k_self api) KRegisteredService (meta_key (rs_meta rs)) = Some (ORegisteredService old)"
  shows "\<exists>v. v \<noteq> '''' \<and> (v = om_resourceVersion (rs_meta old) \<longrightarrow> rs_State old = st) \<and>
    objs s' (k_self api) KRegisteredService (meta_key (rs_meta rs)) =
      Some (ORegisteredService (old\<lparr>rs_meta := (rs_meta old)\<lparr>om_resourceVersion := v\<rparr>, rs_State := st\<rparr>))"
proof -
  from assms(1) obtain y where
    u: "run_state (k_status_update api (k_self api) (ORegisteredService (rs\<lparr>rs_State := st\<rparr>))) s = (Inr y, s')"
    by (auto simp: changeServiceState_def err_of_def split: prod.splits sum.splits)
  from status_ok [OF u] assms(2) obtain v where v: "v \<noteq> ''''" "v = om_resourceVersion (rs_meta old) \<longrightarrow> y = ORegisteredService old"
    "y = set_version v (ORegisteredService (old\<lparr>rs_State := st\<rparr>))"
    "objs s' (k_self api) KRegisteredService (meta_key (rs_meta rs)) = Some y" by (auto simp: obj_key_def)
  moreover have "rs_State old = st" if "y = ORegisteredService old"
    using that v(3) by (cases old) (auto simp: set_version_def)
  ultimately show ?thesis by (intro exI [of _ v]) (auto simp: set_version_def)
qed

lemma modifies_changeServiceState [frame_intros]:
  "(k_self api, KRegisteredService, meta_key (rs_meta rs)) \<in> K \<Longrightarrow> modifies objs K (changeServiceState api rs st)"
  unfolding changeServiceState_def by (auto intro!: frame_intros simp: obj_key_def)

text \<open>A service that was read before somebody else wrote it cannot be given another state.\<close>

lemma changeServiceState_stale:
  assumes "run_state (changeServiceState api rs st) s = (r, s')"
    and "objs s (k_self api) KRegisteredService (meta_key (rs_meta rs)) = Some (ORegisteredService new)"
    and "om_resourceVersion (rs_meta rs) \<noteq> ''''" "om_resourceVersion (rs_meta new) \<noteq> om_resourceVersion (rs_meta rs)"
  shows "objs s' = objs s"
proof -
  from assms(1) obtain q where
    "run_state (k_status_update api (k_self api) (ORegisteredService (rs\<lparr>rs_State := st\<rparr>))) s = (q, s')"
    by (auto simp: changeServiceState_def split: prod.splits)
  from status_stale [OF _ _ _ this] assms(2-4) show ?thesis by (auto simp: obj_key_def)
qed

end

context kube_store
begin

lemma GetClusterRESTConfig_found:
  assumes "run_state (GetClusterRESTConfig api ns n) s = (Inr cf, s')"
  shows "\<exists>sec. objs s (k_self api) KSecret (ns, n) = Some (OSecret sec) \<and> ExtractClusterRESTConfig api sec = Inr cf"
proof -
  from assms obtain sec s1 where "run_state (get_secret api (k_self api) (ns, n)) s = (Inr sec, s1)"
    "ExtractClusterRESTConfig api sec = Inr cf"
    by (auto simp: GetClusterRESTConfig_def getSecret_def split: prod.splits sum.splits if_splits)
  with get_secret_found show ?thesis by blast
qed

text \<open>Whatever its result, a change of a service's state leaves the service alone or sets that state.\<close>

lemma changeServiceState_cases:
  assumes "run_state (changeServiceState api rs st) s = (r, s')"
    and "objs s (k_self api) KRegisteredService (meta_key (rs_meta rs)) = Some (ORegisteredService old)"
  shows "objs s' (k_self api) KRegisteredService (meta_key (rs_meta rs)) = Some (ORegisteredService old) \<or>
    (\<exists>v. v \<noteq> '''' \<and> (v = om_resourceVersion (rs_meta old) \<longrightarrow> rs_State old = st) \<and>
       objs s' (k_self api) KRegisteredService (meta_key (rs_meta rs)) =
         Some (ORegisteredService (old\<lparr>rs_meta := (rs_meta old)\<lparr>om_resourceVersion := v\<rparr>, rs_State := st\<rparr>)))"
proof (cases r)
  case None
  with changeServiceState_ok assms show ?thesis by blast
next
  case (Some e)
  with assms(1) have u: "run_state (k_status_update api (k_self api) (ORegisteredService (rs\<lparr>rs_State := st\<rparr>))) s = (Inl e, s')"
    by (auto simp: changeServiceState_def err_of_def split: prod.splits sum.splits)
  have eq: "rs_State old = st" if "set_version v (copy_status (ORegisteredService (rs\<lparr>rs_State := st\<rparr>)) (ORegisteredService old))
      = ORegisteredService old" for v
    using that by (cases old) (auto simp: set_version_def)
  from status_failed [OF u] show ?thesis
  proof
    assume "objs s' = objs s"
    with assms(2) show ?thesis by simp
  next
    assume "\<exists>old v. objs s (k_self api) (obj_kind (ORegisteredService (rs\<lparr>rs_State := st\<rparr>)))
        (obj_key (ORegisteredService (rs\<lparr>rs_State := st\<rparr>))) = Some old \<and> v \<noteq> '''' \<and>
      (v = om_resourceVersion (obj_meta old) \<longrightarrow>
        set_version v (copy_status (ORegisteredService (rs\<lparr>rs_State := st\<rparr>)) old) = old) \<and>
      objs s' (k_self api) (obj_kind (ORegisteredService (rs\<lparr>rs_State := st\<rparr>)))
        (obj_key (ORegisteredService (rs\<lparr>rs_State := st\<rparr>))) =
        Some (set_version v (copy_status (ORegisteredService (rs\<lparr>rs_State := st\<rparr>)) old))"
    with assms(2) obtain v where "v \<noteq> ''''"
      "v = om_resourceVersion (rs_meta old) \<longrightarrow>
        set_version v (copy_status (ORegisteredService (rs\<lparr>rs_State := st\<rparr>)) (ORegisteredService old)) = ORegisteredService old"
      "objs s' (k_self api) KRegisteredService (meta_key (rs_meta rs)) =
        Some (set_version v (copy_status (ORegisteredService (rs\<lparr>rs_State := st\<rparr>)) (ORegisteredService old)))"
      by (auto simp: obj_key_def)
    moreover from this(2) eq have "v = om_resourceVersion (rs_meta old) \<longrightarrow> rs_State old = st" by blast
    ultimately show ?thesis by (intro disjI2 exI [of _ v]) (simp add: set_version_def)
  qed
qed

end

text \<open>
  \<open>claimed_by c s s' k\<close>: the registered service of key \<open>k\<close> is the same in both states, or it was available
  and matched the claim in environment \<open>env\<close>, and is now claimed and otherwise the same.
\<close>

definition same_or_claimed ::
  "(cluster \<Rightarrow> okind \<Rightarrow> nsname \<Rightarrow> obj option) \<Rightarrow> (cluster \<Rightarrow> okind \<Rightarrow> nsname \<Rightarrow> obj option) \<Rightarrow> cluster \<Rightarrow>
     (RegisteredService \<Rightarrow> bool) \<Rightarrow> nsname \<Rightarrow> bool" where
  "same_or_claimed f g c P k =
     (g c KRegisteredService k = f c KRegisteredService k \<or>
      (\<exists>rs v. f c KRegisteredService k = Some (ORegisteredService rs) \<and> P rs \<and>
         g c KRegisteredService k = Some (ORegisteredService
           (rs\<lparr>rs_meta := (rs_meta rs)\<lparr>om_resourceVersion := v\<rparr>, rs_State := RSClaimed\<rparr>))))"

lemma same_or_claimed_refl: "g c KRegisteredService k = f c KRegisteredService k \<Longrightarrow> same_or_claimed f g c P k"
  by (simp add: same_or_claimed_def)

context kube_store
begin

text \<open>The steps of \<open>bind_claim\<close>, all of them run, and where it stops.\<close>

lemma bind_claim_cases:
  assumes run: "run_state (bind_claim api h sc rs secret) s = (r, s')"
  obtains u sc1 s1 c s2 p s3 where
    "run_state (updateServiceClaimStatus api (with_service ClaimPending rs sc)) s = ((u, sc1), s1)"
    "run_state (changeServiceState api rs RSClaimed) s1 = (c, s2)"
    "run_state (pushToClusterEnvironments api (with_service ClaimResolved rs sc1) secret) s2 = (p, s3)"
    "u \<noteq> None \<and> s' = s1 \<or> u = None \<and> c \<noteq> None \<and> s' = s2 \<or> u = None \<and> c = None \<and> p \<noteq> None \<and> s' = s3 \<or>
     u = None \<and> c = None \<and> p \<noteq> None \<and> (\<exists>q. run_state (changeServiceState api rs RSAvailable) s3 = (q, s')) \<or>
     u = None \<and> c = None \<and> p = None \<and>
       (\<exists>v sc2. run_state (updateServiceClaimStatus api (with_service ClaimResolved rs sc1)) s3 = ((v, sc2), s'))"
proof -
  obtain u sc1 s1 where r1: "run_state (updateServiceClaimStatus api (with_service ClaimPending rs sc)) s = ((u, sc1), s1)"
    by (metis prod.collapse)
  obtain c s2 where r2: "run_state (changeServiceState api rs RSClaimed) s1 = (c, s2)" by (metis prod.collapse)
  obtain p s3 where r3: "run_state (pushToClusterEnvironments api (with_service ClaimResolved rs sc1) secret) s2 = (p, s3)"
    by (metis prod.collapse)
  from run r1 r2 r3 show thesis
    by (intro that [OF r1 r2 r3]) (auto simp: bind_claim_def Let_def split: prod.splits option.splits if_splits)
qed

lemma bind_claim_services:
  assumes run: "run_state (bind_claim api h sc rs secret) s = (r, s')"
    and rs: "objs s (k_self api) KRegisteredService (meta_key (rs_meta rs)) = Some (ORegisteredService rs)"
    and avail: "rs_State rs \<noteq> RSClaimed" and rv: "om_resourceVersion (rs_meta rs) \<noteq> ''''" and P: "P rs"
  shows "same_or_claimed (objs s) (objs s') (k_self api) P k"
proof (rule bind_claim_cases [OF run])
  let ?self = "k_self api" let ?key = "meta_key (rs_meta rs)"
  fix u sc1 s1 c s2 p s3
  assume r1: "run_state (updateServiceClaimStatus api (with_service ClaimPending rs sc)) s = ((u, sc1), s1)"
    and r2: "run_state (changeServiceState api rs RSClaimed) s1 = (c, s2)"
    and r3: "run_state (pushToClusterEnvironments api (with_service ClaimResolved rs sc1) secret) s2 = (p, s3)"
    and stop: "u \<noteq> None \<and> s' = s1 \<or> u = None \<and> c \<noteq> None \<and> s' = s2 \<or> u = None \<and> c = None \<and> p \<noteq> None \<and> s' = s3 \<or>
     u = None \<and> c = None \<and> p \<noteq> None \<and> (\<exists>q. run_state (changeServiceState api rs RSAvailable) s3 = (q, s')) \<or>
     u = None \<and> c = None \<and> p = None \<and>
       (\<exists>v sc2. run_state (updateServiceClaimStatus api (with_service ClaimResolved rs sc1)) s3 = ((v, sc2), s'))"
  have k1: "objs s1 ?self KRegisteredService j = objs s ?self KRegisteredService j" for j
    using modifies_run [OF modifies_updateServiceClaimStatus r1] by (rule same_but_of_kinds) simp
  have "modifies objs {(?self, KRegisteredService, ?key)} (changeServiceState api rs RSClaimed)"
    by (intro frame_intros) simp
  from modifies_run [OF this r2] have other2: "objs s2 ?self KRegisteredService j = objs s1 ?self KRegisteredService j"
    if "j \<noteq> ?key" for j
    using that by (simp add: same_but_def)
  have two: "same_or_claimed (objs s) (objs s2) ?self P k"
  proof (cases "k = ?key")
    case True
    from changeServiceState_cases [OF r2] k1 rs have
      "objs s2 ?self KRegisteredService ?key = Some (ORegisteredService rs) \<or>
       (\<exists>v. objs s2 ?self KRegisteredService ?key = Some (ORegisteredService
         (rs\<lparr>rs_meta := (rs_meta rs)\<lparr>om_resourceVersion := v\<rparr>, rs_State := RSClaimed\<rparr>)))" by metis
    with rs P True show ?thesis by (auto simp: same_or_claimed_def)
  next
    case False
    with other2 k1 show ?thesis by (simp add: same_or_claimed_refl)
  qed
  have k3: "objs s3 ?self KRegisteredService j = objs s2 ?self KRegisteredService j" for j
    using modifies_run [OF modifies_pushToClusterEnvironments r3] by (rule same_but_of_kinds) simp
  have reverted: "objs s' = objs s3" if "c = None" "run_state (changeServiceState api rs RSAvailable) s3 = (q, s')" for q
  proof -
    from changeServiceState_ok [OF r2 [unfolded that(1)]] k1 rs obtain v where
      "v = om_resourceVersion (rs_meta rs) \<longrightarrow> rs_State rs = RSClaimed" and
      "objs s2 ?self KRegisteredService ?key = Some (ORegisteredService
        (rs\<lparr>rs_meta := (rs_meta rs)\<lparr>om_resourceVersion := v\<rparr>, rs_State := RSClaimed\<rparr>))" by metis
    with changeServiceState_stale [OF that(2) _ rv] k3 avail show ?thesis by auto
  qed
  have resolved: "objs s' ?self KRegisteredService j = objs s3 ?self KRegisteredService j"
    if "run_state (updateServiceClaimStatus api (with_service ClaimResolved rs sc1)) s3 = ((v, sc2), s')" for v sc2 j
    using modifies_run [OF modifies_updateServiceClaimStatus that] by (rule same_but_of_kinds) simp
  from stop reverted resolved have "s' = s1 \<or> (\<forall>j. objs s' ?self KRegisteredService j = objs s2 ?self KRegisteredService j)"
    using k3 by (elim disjE conjE exE) simp_all
  then show ?thesis
  proof
    assume "s' = s1"
    with k1 [of k] show ?thesis by (simp add: same_or_claimed_refl)
  next
    assume "\<forall>j. objs s' ?self KRegisteredService j = objs s2 ?self KRegisteredService j"
    with two show ?thesis by (simp add: same_or_claimed_def)
  qed
qed

end

subsection \<open>From the request to the binding\<close>

text \<open>The environment a claim is matched in: its tag, or that of the cluster environment it names.\<close>

definition env_of_claim ::
  "(cluster \<Rightarrow> okind \<Rightarrow> nsname \<Rightarrow> obj option) \<Rightarrow> cluster \<Rightarrow> ServiceClaim \<Rightarrow> string \<Rightarrow> bool" where
  "env_of_claim f c sc env =
     (\<exists>t. scsp_Target (sc_Spec sc) = Some t \<and>
        (case sct_ApplicationClusterContext t of
           None \<Rightarrow> env = sct_EnvironmentTag t
         | Some acc \<Rightarrow> \<exists>ce. f c KClusterEnvironment (om_namespace (sc_meta sc), acc_ClusterEnvironmentName acc) =
               Some (OClusterEnvironment ce) \<and> env = cesp_EnvironmentName (ce_Spec ce)))"

text \<open>The service that may serve a claim.\<close>

definition candidate :: "(cluster \<Rightarrow> okind \<Rightarrow> nsname \<Rightarrow> obj option) \<Rightarrow> cluster \<Rightarrow> ServiceClaim \<Rightarrow> RegisteredService \<Rightarrow> bool" where
  "candidate f c sc rs =
     (rs_State rs = RSAvailable \<and>
      mset (scsp_ServiceClassIdentity (sc_Spec sc)) \<subseteq># mset (rssp_ServiceClassIdentity (rs_Spec rs)) \<and>
      (\<exists>env. env_of_claim f c sc env \<and>
         (case rssp_Constraints (rs_Spec rs) of None \<Rightarrow> True | Some es \<Rightarrow> Match env es)))"

context kube_store
begin

lemma claim_environment_ok:
  assumes "run_state (claim_environment api sc) s = (Inr env, s')"
  shows "env_of_claim (objs s) (k_self api) sc env"
proof -
  from assms obtain t where t: "scsp_Target (sc_Spec sc) = Some t"
    by (cases "scsp_Target (sc_Spec sc)") (auto simp: claim_environment_def)
  show ?thesis
  proof (cases "sct_ApplicationClusterContext t")
    case None
    with assms t show ?thesis by (simp add: claim_environment_def env_of_claim_def)
  next
    case (Some acc)
    with assms t obtain ce where
      "run_state (get_env api (k_self api) (om_namespace (sc_meta sc), acc_ClusterEnvironmentName acc)) s = (Inr ce, s')"
      "env = cesp_EnvironmentName (ce_Spec ce)"
      by (auto simp: claim_environment_def getEnvironmentFromClusterEnvironment_def split: prod.splits sum.splits)
    with get_env_found t Some show ?thesis by (force simp: env_of_claim_def)
  qed
qed

lemma list_services:
  assumes "run_state (k_list api (k_self api) KRegisteredService ns []) s = (l, s')"
    and "map_items services_of l = Inr rsl"
  shows "objs s' = objs s" and "rs \<in> set rsl \<Longrightarrow>
    objs s (k_self api) KRegisteredService (meta_key (rs_meta rs)) = Some (ORegisteredService rs)"
proof -
  show "objs s' = objs s" by (rule list_reads [OF assms(1)])
  assume rs: "rs \<in> set rsl"
  from assms(2) obtain xs where xs: "l = Inr xs" "rsl = services_of xs"
    by (cases l) (auto simp: map_items_def)
  with rs services_of_in have "ORegisteredService rs \<in> set xs" by blast
  with list_found [OF assms(1) [unfolded xs(1)]] obtain n where
    n: "objs s (k_self api) KRegisteredService n = Some (ORegisteredService rs)" by blast
  from keyed [OF n] n show "objs s (k_self api) KRegisteredService (meta_key (rs_meta rs)) = Some (ORegisteredService rs)"
    by (simp add: obj_key_def)
qed

text \<open>Either nothing but claims is written, or a candidate is bound.\<close>

text \<open>The three ends of matching a claim: an error before any write, a rejection, a binding.\<close>

lemma processServiceClaim_steps:
  assumes run: "run_state (processServiceClaim api rsl sc) s = (r, s')"
  obtains (failed) "r \<noteq> None" "objs s' = objs s"
    | (rejected) msg s1 where "objs s1 = objs s" "run_state (reject_claim api sc msg) s1 = (r, s')"
    | (bound) env rs n secret s1 s2 where "run_state (claim_environment api sc) s = (Inr env, s1)"
      "rs \<in> set rsl" "rs_State rs = RSAvailable" "service_matches sc env rs" "objs s1 = objs s" "objs s2 = objs s"
      "run_state (extractServiceEndpointDefinition api (om_namespace (sc_meta sc)) rs
        (scsp_ServiceEndpointDefinitionKeys (sc_Spec sc)) (claim_secret sc)) s1 = (Inr (n, secret), s2)"
      "int (length (scsp_ServiceEndpointDefinitionKeys (sc_Spec sc))) \<le> n"
      "run_state (bind_claim api IgnoreNotFound sc rs (add_identity sc secret)) s2 = (r, s')"
proof -
  let ?keys = "scsp_ServiceEndpointDefinitionKeys (sc_Spec sc)"
  obtain v s1 where v: "run_state (claim_environment api sc) s = (v, s1)" by (metis prod.collapse)
  have s1: "objs s1 = objs s" by (rule reads_only [OF modifies_claim_environment v])
  show thesis
  proof (cases v)
    case (Inl e)
    with run v s1 show thesis by (intro failed) (auto simp: processServiceClaim_def)
  next
    case env: (Inr env)
    show thesis
    proof (cases "find (\<lambda>rs. rs_State rs = RSAvailable \<and> service_matches sc env rs) rsl")
      case None
      with run v env s1 show thesis by (intro rejected [of s1]) (simp_all add: processServiceClaim_def)
    next
      case (Some rs)
      obtain x s2 where x: "run_state (extractServiceEndpointDefinition api (om_namespace (sc_meta sc)) rs ?keys
          (claim_secret sc)) s1 = (x, s2)" by (metis prod.collapse)
      have s2: "objs s2 = objs s" using reads_only [OF modifies_extract x] s1 by simp
      show thesis
      proof (cases x)
        case (Inl e)
        with run v env Some x s2 show thesis by (intro failed) (auto simp: processServiceClaim_def)
      next
        case ok: (Inr p)
        obtain n secret where p: "p = (n, secret)" by (cases p)
        show thesis
        proof (cases "int (length ?keys) > n")
          case True
          with run v env Some x ok p s2 show thesis by (intro rejected [of s2]) (simp_all add: processServiceClaim_def)
        next
          case False
          with run v env Some x ok p s1 s2 find_Some_holds [OF Some] find_Some_in [OF Some] show thesis
            by (intro bound [of env s1 rs s2 n secret]) (simp_all add: processServiceClaim_def)
        qed
      qed
    qed
  qed
qed

lemma processServiceClaim_cases:
  assumes run: "run_state (processServiceClaim api rsl sc) s = (r, s')"
    and rsl: "\<And>rs. rs \<in> set rsl \<Longrightarrow>
      objs s (k_self api) KRegisteredService (meta_key (rs_meta rs)) = Some (ORegisteredService rs)"
  obtains (rejected) "same_but (of_kinds {KServiceClaim}) (objs s) (objs s')" "r \<noteq> None"
    | (bound) rs n secret s1 where "objs s1 = objs s"
      "run_state (bind_claim api IgnoreNotFound sc rs (add_identity sc secret)) s1 = (r, s')"
      "objs s (k_self api) KRegisteredService (meta_key (rs_meta rs)) = Some (ORegisteredService rs)"
      "candidate (objs s) (k_self api) sc rs"
      "int (length (scsp_ServiceEndpointDefinitionKeys (sc_Spec sc))) \<le> n"
      "secret = (claim_secret sc)\<lparr>sec_StringData := sec_StringData secret\<rparr>"
      "extracted (sed_value_in objs (k_self api) (om_namespace (sc_meta sc)) s)
        (scsp_ServiceEndpointDefinitionKeys (sc_Spec sc)) 0 [] (rssp_ServiceEndpointDefinition (rs_Spec rs)) n
        (sec_StringData secret)"
  using run
proof (cases rule: processServiceClaim_steps)
  case failed
  then show thesis by (intro rejected) simp_all
next
  case reject: (rejected msg s1)
  have "same_but (of_kinds {KServiceClaim}) (objs s) (objs s')"
    using modifies_run [OF modifies_reject_claim reject(2)] reject(1) by simp
  moreover from reject(2) have "r \<noteq> None" by (auto simp: reject_claim_def Let_def split: prod.splits option.splits)
  ultimately show thesis by (rule rejected)
next
  case b: (bound env rs n secret s1 s2)
  from claim_environment_ok [OF b(1)] b(3,4) have cand: "candidate (objs s) (k_self api) sc rs"
    by (auto simp: candidate_def service_matches_def checkSCISubset_iff)
  from b(7) have loop: "run_state (extract_loop api (om_namespace (sc_meta sc)) (scsp_ServiceEndpointDefinitionKeys (sc_Spec sc))
      (rssp_ServiceEndpointDefinition (rs_Spec rs)) 0 []) s1 = (Inr (n, sec_StringData secret), s2)"
    and sec: "secret = (claim_secret sc)\<lparr>sec_StringData := sec_StringData secret\<rparr>"
    by (auto simp: extractServiceEndpointDefinition_def claim_secret_def split: prod.splits sum.splits)
  have "sed_value_in objs (k_self api) (om_namespace (sc_meta sc)) s1 = sed_value_in objs (k_self api) (om_namespace (sc_meta sc)) s"
    by (intro ext) (simp add: sed_value_in_def b(5))
  with extract_loop_ok [OF loop] show thesis by (intro bound [OF b(6) b(9) rsl [OF b(2)] cand b(8) sec]) simp
qed

end

text \<open>The claim as the later steps see it, after the finalizer and the identifier are in place.\<close>

definition prepared :: "ServiceClaim \<Rightarrow> ServiceClaim \<Rightarrow> bool" where
  "prepared sc0 sc = (sc_Spec sc = sc_Spec sc0 \<and> meta_key (sc_meta sc) = meta_key (sc_meta sc0) \<and>
     (scst_State (sc_Status sc0) \<noteq> ClaimResolved \<longrightarrow> scst_State (sc_Status sc) \<noteq> ClaimResolved))"

lemma prepared_names:
  "prepared sc0 sc \<Longrightarrow> om_namespace (sc_meta sc) = om_namespace (sc_meta sc0) \<and> om_name (sc_meta sc) = om_name (sc_meta sc0)"
  by (simp add: prepared_def meta_key_def)

lemma candidate_prepared:
  assumes "prepared sc0 sc" and "\<And>n. f c KClusterEnvironment n = g c KClusterEnvironment n"
  shows "candidate f c sc rs = candidate g c sc0 rs"
proof -
  have "om_namespace (sc_meta sc) = om_namespace (sc_meta sc0)" "sc_Spec sc = sc_Spec sc0"
    using assms(1) prepared_names [OF assms(1)] by (simp_all add: prepared_def)
  then have "env_of_claim f c sc env = env_of_claim g c sc0 env" for env
    unfolding env_of_claim_def by (simp add: assms(2) cong: option.case_cong)
  with assms(1) show ?thesis by (simp add: candidate_def prepared_def)
qed

context kube_store
begin

lemma ensure_finalizer_ok:
  assumes "run_state (ensure_finalizer api sc) s = ((None, sc'), s')"
    and "claim_stored objs (k_self api) s sc" and "\<not> om_deletion (sc_meta sc)"
  shows "claim_stored objs (k_self api) s' sc' \<and> sc_Spec sc' = sc_Spec sc \<and> sc_Status sc' = sc_Status sc \<and>
    meta_key (sc_meta sc') = meta_key (sc_meta sc)"
proof (cases "AddFinalizer (sc_meta sc) ServiceClaimFinalizer")
  case (Pair b m)
  show ?thesis
  proof (cases b)
    case True
    with Pair have "m = (sc_meta sc)\<lparr>om_finalizers := om_finalizers (sc_meta sc) @ [ServiceClaimFinalizer]\<rparr>"
      by (auto simp: AddFinalizer_def split: if_splits)
    then have key: "meta_key (sc_meta (sc\<lparr>sc_meta := m\<rparr>)) = meta_key (sc_meta sc)" by (simp add: meta_key_def)
    from assms(1) Pair True have "run_state (write_claim (k_update api (k_self api)) (sc\<lparr>sc_meta := m\<rparr>)) s = ((None, sc'), s')"
      by (simp add: ensure_finalizer_def)
    from update_claim_ok [OF this] key assms(2,3)
    have "claim_stored objs (k_self api) s' sc' \<and> sc_Spec sc' = sc_Spec (sc\<lparr>sc_meta := m\<rparr>) \<and> sc_Status sc' = sc_Status sc \<and>
        meta_key (sc_meta sc') = meta_key (sc_meta (sc\<lparr>sc_meta := m\<rparr>))"
      unfolding claim_stored_def by metis
    with key show ?thesis by simp
  next
    case False
    with assms Pair show ?thesis by (simp add: ensure_finalizer_def)
  qed
qed

lemma ensure_initialized_ok:
  assumes "run_state (ensureServiceClaimIsInitialized api sc) s = ((None, sc'), s')"
    and "claim_stored objs (k_self api) s sc"
  shows "claim_stored objs (k_self api) s' sc' \<and> prepared sc sc'"
proof (cases "scst_ClaimID (sc_Status sc) = ''''")
  case False
  with assms show ?thesis by (simp add: ensureServiceClaimIsInitialized_def prepared_def)
next
  case True
  with assms(1) obtain u s1 where u: "run_state (k_uuid api) s = (u, s1)" and
    w: "run_state (write_claim (k_status_update api (k_self api))
      (sc\<lparr>sc_Status := (sc_Status sc)\<lparr>scst_ClaimID := u, scst_State := ClaimPending\<rparr>\<rparr>)) s1 = ((None, sc'), s')"
    by (auto simp: ensureServiceClaimIsInitialized_def split: prod.splits)
  from status_claim_ok [OF w] uuid_reads [OF u] assms(2) show ?thesis by (auto simp: claim_stored_def prepared_def)
qed

text \<open>
  The ends of a reconciliation of a claim that is not being deleted: an error while it is read, given its
  finalizer or initialised, or one of the two branches on the claim as it is stored by then.
\<close>

lemma ReconcileClaim_steps:
  assumes run: "run_state (ReconcileClaim api (ns, n)) s = (r, s')"
    and stored: "objs s (k_self api) KServiceClaim (ns, n) = Some (OServiceClaim sc)" and live: "\<not> om_deletion (sc_meta sc)"
  obtains (get_failed) "r \<noteq> None" "objs s' = objs s"
    | (finalizer_failed) e s1 sc1 where "r = Some e" "objs s1 = objs s"
      "run_state (ensure_finalizer api sc) s1 = ((Some e, sc1), s')"
    | (init_failed) e s1 sc1 s2 sc2 where "r = Some e" "objs s1 = objs s"
      "run_state (ensure_finalizer api sc) s1 = ((None, sc1), s2)" "claim_stored objs (k_self api) s2 sc1"
      "meta_key (sc_meta sc1) = (ns, n)" "run_state (ensureServiceClaimIsInitialized api sc1) s2 = ((Some e, sc2), s')"
    | (prepared) s1 sc1 s2 sc2 s3 where "objs s1 = objs s"
      "run_state (ensure_finalizer api sc) s1 = ((None, sc1), s2)" "claim_stored objs (k_self api) s2 sc1"
      "meta_key (sc_meta sc1) = (ns, n)" "sc_Spec sc1 = sc_Spec sc" "sc_Status sc1 = sc_Status sc"
      "run_state (ensureServiceClaimIsInitialized api sc1) s2 = ((None, sc2), s3)"
      "claim_stored objs (k_self api) s3 sc2" "meta_key (sc_meta sc2) = (ns, n)" "prepared sc sc2"
      "run_state (if scst_State (sc_Status sc2) = ClaimResolved then processResolvedServiceClaim api sc2
         else processClaim api ns sc2) s3 = (r, s')"
proof -
  obtain g s1 where g: "run_state (get_claim api (k_self api) (ns, n)) s = (g, s1)" by (metis prod.collapse)
  have s1: "objs s1 = objs s" by (rule reads_only [OF modifies_get_claim g])
  show thesis
  proof (cases g)
    case (Inl e)
    have "IgnoreNotFound e = Some e" using get_claim_missing [OF g [unfolded Inl]] stored by (auto simp: IgnoreNotFound_def)
    with run g Inl s1 have "r = Some e" "s' = s1" by (simp_all add: ReconcileClaim_def)
    with s1 show thesis by (intro get_failed) simp_all
  next
    case (Inr sc0)
    with get_claim_found g stored have sc0: "sc0 = sc" by fastforce
    from keyed [OF stored] have key: "meta_key (sc_meta sc) = (ns, n)" by (simp add: obj_key_def)
    with stored s1 have st1: "claim_stored objs (k_self api) s1 sc" by (simp add: claim_stored_def)
    obtain f sc1 s2 where f: "run_state (ensure_finalizer api sc) s1 = ((f, sc1), s2)" by (metis prod.collapse)
    show thesis
    proof (cases f)
      case (Some e)
      with run g Inr sc0 live f s1 show thesis by (intro finalizer_failed [of e s1 sc1]) (auto simp: ReconcileClaim_def)
    next
      case fN: None
      note f1 = f [unfolded fN]
      note one = ensure_finalizer_ok [OF f1 st1 live, unfolded key]
      obtain i sc2 s3 where i: "run_state (ensureServiceClaimIsInitialized api sc1) s2 = ((i, sc2), s3)" by (metis prod.collapse)
      show thesis
      proof (cases i)
        case (Some e)
        with run g Inr sc0 live f1 i have "r = Some e" "s' = s3" by (auto simp: ReconcileClaim_def)
        with i Some one show thesis by (intro init_failed [OF _ s1 f1]) simp_all
      next
        case iN: None
        note i1 = i [unfolded iN]
        from ensure_initialized_ok [OF i1] one have two: "claim_stored objs (k_self api) s3 sc2" "prepared sc1 sc2" by simp_all
        then have "meta_key (sc_meta sc2) = (ns, n)" "prepared sc sc2" using one key by (simp_all add: prepared_def)
        moreover from run g Inr sc0 live f1 i1 have "run_state (if scst_State (sc_Status sc2) = ClaimResolved
            then processResolvedServiceClaim api sc2 else processClaim api ns sc2) s3 = (r, s')"
          by (cases "scst_State (sc_Status sc2) = ClaimResolved") (simp_all add: ReconcileClaim_def)
        ultimately show thesis using one two by (intro prepared [OF s1 f1 _ _ _ _ i1]) simp_all
      qed
    qed
  qed
qed

text \<open>A reconciliation of an unresolved claim writes claims only, or processes the prepared claim.\<close>

lemma ReconcileClaim_cases:
  assumes run: "run_state (ReconcileClaim api (ns, n)) s = (r, s')"
    and stored: "objs s (k_self api) KServiceClaim (ns, n) = Some (OServiceClaim sc)"
    and live: "\<not> om_deletion (sc_meta sc)" and pending: "scst_State (sc_Status sc) \<noteq> ClaimResolved"
  obtains (stopped) "same_but (of_kinds {KServiceClaim}) (objs s) (objs s')"
      "r = None \<longrightarrow> (\<exists>sc'. claim_stored objs (k_self api) s' sc' \<and> prepared sc sc')"
    | (processed) sc' s1 rsl where "same_but (of_kinds {KServiceClaim}) (objs s) (objs s1)"
      "claim_stored objs (k_self api) s1 sc'" "prepared sc sc'"
      "run_state (processServiceClaim api rsl sc') s1 = (r, s')"
      "\<And>rs. rs \<in> set rsl \<Longrightarrow>
         objs s1 (k_self api) KRegisteredService (meta_key (rs_meta rs)) = Some (ORegisteredService rs)"
  using run stored live
proof (cases rule: ReconcileClaim_steps)
  case get_failed
  then show thesis by (intro stopped) auto
next
  case (finalizer_failed e s1 sc1)
  with modifies_run [OF modifies_ensure_finalizer finalizer_failed(3)] show thesis by (intro stopped) simp_all
next
  case (init_failed e s1 sc1 s2 sc2)
  from same_but_trans [OF modifies_run [OF modifies_ensure_finalizer init_failed(3)]
      modifies_run [OF modifies_ensure_initialized init_failed(6)]] init_failed(1,2)
  show thesis by (intro stopped) simp_all
next
  case (prepared s1 sc1 s2 sc2 s3)
  have sb3: "same_but (of_kinds {KServiceClaim}) (objs s) (objs s3)"
    using same_but_trans [OF modifies_run [OF modifies_ensure_finalizer prepared(2)]
      modifies_run [OF modifies_ensure_initialized prepared(7)]] prepared(1) by simp
  have "scst_State (sc_Status sc2) \<noteq> ClaimResolved" using prepared(10) pending by (simp add: prepared_def)
  with prepared(11) have p: "run_state (processClaim api ns sc2) s3 = (r, s')" by simp
  obtain l s4 where l: "run_state (k_list api (k_self api) KRegisteredService ns []) s3 = (l, s4)" by (metis prod.collapse)
  have s4: "objs s4 = objs s3" by (rule list_reads [OF l])
  show thesis
  proof (cases "map_items services_of l")
    case (Inl e)
    with p l have "s' = s4" by (simp add: processClaim_def)
    with s4 sb3 prepared(8,10) show thesis by (intro stopped) (auto simp: claim_stored_def)
  next
    case (Inr rsl)
    with p l have "run_state (processServiceClaim api rsl sc2) s4 = (r, s')" by (simp add: processClaim_def)
    with s4 sb3 prepared(8,10) list_services(2) [OF l Inr] show thesis
      by (intro processed [of s4 sc2 rsl]) (auto simp: claim_stored_def)
  qed
qed

lemma ReconcileClaim_services_only:
  assumes run: "run_state (ReconcileClaim api (ns, n)) s = (r, s')"
    and stored: "objs s (k_self api) KServiceClaim (ns, n) = Some (OServiceClaim sc)"
    and live: "\<not> om_deletion (sc_meta sc)" and pending: "scst_State (sc_Status sc) \<noteq> ClaimResolved"
    and versions: "\<And>k rs. objs s (k_self api) KRegisteredService k = Some (ORegisteredService rs) \<Longrightarrow>
      om_resourceVersion (rs_meta rs) \<noteq> ''''"
  shows "same_or_claimed (objs s) (objs s') (k_self api) (candidate (objs s) (k_self api) sc) k"
proof (rule ReconcileClaim_cases [OF run stored live pending])
  assume sb: "same_but (of_kinds {KServiceClaim}) (objs s) (objs s')"
  show ?thesis by (intro same_or_claimed_refl same_but_of_kinds [OF sb]) simp
next
  fix sc' s1 rsl
  assume sb: "same_but (of_kinds {KServiceClaim}) (objs s) (objs s1)" and prep: "prepared sc sc'"
    and p: "run_state (processServiceClaim api rsl sc') s1 = (r, s')"
    and rsl: "\<And>rs. rs \<in> set rsl \<Longrightarrow>
         objs s1 (k_self api) KRegisteredService (meta_key (rs_meta rs)) = Some (ORegisteredService rs)"
  have same1: "objs s1 c k n = objs s c k n" if "k \<noteq> KServiceClaim" for c k n
    using sb that by (simp add: same_but_of_kinds)
  show ?thesis
  proof (rule processServiceClaim_cases [OF p])
    show "\<And>rs. rs \<in> set rsl \<Longrightarrow>
         objs s1 (k_self api) KRegisteredService (meta_key (rs_meta rs)) = Some (ORegisteredService rs)" by (rule rsl)
  next
    assume sb': "same_but (of_kinds {KServiceClaim}) (objs s1) (objs s')"
    show ?thesis by (intro same_or_claimed_refl same_but_of_kinds [OF same_but_trans [OF sb sb']]) simp
  next
    fix rs m secret s2
    assume s2: "objs s2 = objs s1" and b: "run_state (bind_claim api IgnoreNotFound sc' rs (add_identity sc' secret)) s2 = (r, s')"
      and rs: "objs s1 (k_self api) KRegisteredService (meta_key (rs_meta rs)) = Some (ORegisteredService rs)"
      and cand: "candidate (objs s1) (k_self api) sc' rs"
    have "candidate (objs s) (k_self api) sc rs"
      using cand candidate_prepared [OF prep, of "objs s1" "k_self api" "objs s"] same1 by simp
    moreover have "om_resourceVersion (rs_meta rs) \<noteq> ''''" using versions rs same1 by simp
    moreover have "rs_State rs \<noteq> RSClaimed" using cand by (simp add: candidate_def)
    ultimately have "same_or_claimed (objs s2) (objs s') (k_self api) (candidate (objs s) (k_self api) sc) k"
      using bind_claim_services [OF b] rs s2 by simp
    then show ?thesis using same1 s2 by (simp add: same_or_claimed_def)
  qed
qed

end

subsection \<open>What a resolved claim stands for\<close>

text \<open>\<open>delivered c ns sc d s\<close>: namespace \<open>ns\<close> of cluster \<open>c\<close> holds the binding of the claim and a secret with
  the data \<open>d\<close>.\<close>

definition delivered ::
  "(cluster \<Rightarrow> okind \<Rightarrow> nsname \<Rightarrow> obj option) \<Rightarrow> cluster \<Rightarrow> string \<Rightarrow> ServiceClaim \<Rightarrow> (string, string) gomap \<Rightarrow> bool" where
  "delivered f c ns sc d =
     ((\<exists>b. f c KServiceBinding (ns, om_name (sc_meta sc)) = Some (OServiceBinding b) \<and> sb_Spec b = binding_spec sc) \<and>
      (\<exists>x. f c KSecret (ns, om_name (sc_meta sc)) = Some (OSecret x) \<and>
         (\<forall>k v. gm_get d k = Some v \<longrightarrow> gm_get (secret_content x) k = Some v)))"

text \<open>The cluster environment that a claim names, with the cluster its context secret leads to.\<close>

definition environment_client ::
  "'s kube \<Rightarrow> (cluster \<Rightarrow> okind \<Rightarrow> nsname \<Rightarrow> obj option) \<Rightarrow> nsname \<Rightarrow> ClusterEnvironment \<Rightarrow> cluster \<Rightarrow> bool" where
  "environment_client api f k ce cli =
     (f (k_self api) KClusterEnvironment k = Some (OClusterEnvironment ce) \<and>
      (\<exists>sec cf. f (k_self api) KSecret (om_namespace (ce_meta ce), cesp_ClusterContextSecret (ce_Spec ce)) = Some (OSecret sec) \<and>
         ExtractClusterRESTConfig api sec = Inr cf \<and> k_new_client api cf = Inr cli))"

context kube_store
begin

lemma updateServiceClaimStatus_ok:
  assumes "run_state (updateServiceClaimStatus api sc) s = ((None, sc'), s')"
  shows "sc_Status sc' = sc_Status sc \<and> meta_key (sc_meta sc') = meta_key (sc_meta sc) \<and>
    (\<exists>old. objs s (k_self api) KServiceClaim (meta_key (sc_meta sc)) = Some (OServiceClaim old) \<and> sc_Spec sc' = sc_Spec old) \<and>
    (\<exists>x. objs s' (k_self api) KServiceClaim (meta_key (sc_meta sc)) = Some (OServiceClaim x) \<and>
       scst_State (sc_Status x) = scst_State (sc_Status sc) \<and>
       scst_RegisteredService (sc_Status x) = scst_RegisteredService (sc_Status sc))"
proof -
  from assms obtain s1 where
    w: "run_state (write_claim (k_status_update api (k_self api)) sc) s = ((None, sc'), s1)" and
    r: "run_state (updateRemoteServiceClaimStatusIfNeeded api sc') s1 = (None, s')"
    by (auto simp: updateServiceClaimStatus_def split: prod.splits option.splits)
  from status_claim_ok [OF w] have
    one: "claim_stored objs (k_self api) s1 sc'" "sc_Status sc' = sc_Status sc"
      "meta_key (sc_meta sc') = meta_key (sc_meta sc)"
      "\<exists>old. objs s (k_self api) KServiceClaim (meta_key (sc_meta sc)) = Some (OServiceClaim old) \<and> sc_Spec sc' = sc_Spec old"
    by blast+
  from one(1,3) have at: "objs s1 (k_self api) KServiceClaim (meta_key (sc_meta sc)) = Some (OServiceClaim sc')"
    by (simp add: claim_stored_def)
  from updateRemote_keeps [OF r at, where P = "\<lambda>st ref. st = scst_State (sc_Status sc) \<and>
      ref = scst_RegisteredService (sc_Status sc)"] one(2)
  have "\<exists>x. objs s' (k_self api) KServiceClaim (meta_key (sc_meta sc)) = Some (OServiceClaim x) \<and>
       scst_State (sc_Status x) = scst_State (sc_Status sc) \<and>
       scst_RegisteredService (sc_Status x) = scst_RegisteredService (sc_Status sc)" by simp
  with one show ?thesis by blast
qed

lemma push_to_application_ok:
  assumes run: "run_state (pushToClusterEnvironments api sc secret) s = (None, s')"
    and t: "scsp_Target (sc_Spec sc) = Some t" "sct_ApplicationClusterContext t = Some acc"
    and wf: "gm_wf (sec_StringData secret)" and name: "om_name (sec_meta secret) = om_name (sc_meta sc)"
  shows "\<exists>ce cli. environment_client api (objs s) (om_namespace (sc_meta sc), acc_ClusterEnvironmentName acc) ce cli \<and>
    (acc_Namespace acc \<in> set (cesp_ApplicationNamespaces (ce_Spec ce)) \<and> distinct (cesp_ApplicationNamespaces (ce_Spec ce)) \<longrightarrow>
       delivered (objs s') cli (acc_Namespace acc) sc (sec_StringData secret))"
proof -
  from run t obtain ce s1 cf s2 q where
    e: "run_state (get_env api (k_self api) (om_namespace (sc_meta sc), acc_ClusterEnvironmentName acc)) s = (Inr ce, s1)" and
    c: "run_state (GetClusterRESTConfig api (om_namespace (ce_meta ce)) (cesp_ClusterContextSecret (ce_Spec ce))) s1 = (Inr cf, s2)" and
    p: "run_state (PushServiceBinding api sc secret (Some (acc_Namespace acc))
          (cesp_ApplicationNamespaces (ce_Spec ce)) cf) s2 = ((None, q), s')"
    by (auto simp: pushToClusterEnvironments_def getEnvironmentFromClusterEnvironment_def errors_Join_def
        split: prod.splits sum.splits option.splits if_splits)
  have s1: "objs s1 = objs s" by (rule reads_only [OF modifies_get_env e])
  from p obtain cli where cli: "k_new_client api cf = Inr cli"
    by (auto simp: PushServiceBinding_def split: sum.splits)
  with get_env_found [OF e] GetClusterRESTConfig_found [OF c] s1
  have env: "environment_client api (objs s) (om_namespace (sc_meta sc), acc_ClusterEnvironmentName acc) ce cli"
    by (auto simp: environment_client_def)
  moreover have "delivered (objs s') cli (acc_Namespace acc) sc (sec_StringData secret)"
    if ns: "acc_Namespace acc \<in> set (cesp_ApplicationNamespaces (ce_Spec ce))"
      "distinct (cesp_ApplicationNamespaces (ce_Spec ce))"
  proof -
    from p cli have "run_state (push_bindings_loop api cli sc (Some (acc_Namespace acc)) secret
        (cesp_ApplicationNamespaces (ce_Spec ce))) s2 = ((Inr [], q), s')"
      by (auto simp: PushServiceBinding_def split: prod.splits)
    from push_binding_to_namespace_ok [OF run_push_loop_target [OF this ns] wf] name show ?thesis
      by (auto simp: delivered_def is_binding_def is_secret_with_def)
  qed
  ultimately show ?thesis by blast
qed

lemma bind_claim_resolved:
  assumes run: "run_state (bind_claim api h sc rs secret) s = (None, s')"
    and claim: "claim_stored objs (k_self api) s sc"
    and rs: "objs s (k_self api) KRegisteredService (meta_key (rs_meta rs)) = Some (ORegisteredService rs)"
    and t: "scsp_Target (sc_Spec sc) = Some t" "sct_ApplicationClusterContext t = Some acc"
    and wf: "gm_wf (sec_StringData secret)" and name: "om_name (sec_meta secret) = om_name (sc_meta sc)"
    and final: "objs s' (k_self api) KServiceClaim (meta_key (sc_meta sc)) = Some (OServiceClaim x)"
      "scst_State (sc_Status x) = ClaimResolved"
  shows "scst_RegisteredService (sc_Status x) = Some \<lparr>ref_Name = om_name (rs_meta rs), ref_UID = om_uid (rs_meta rs)\<rparr>"
    and "\<exists>v. objs s' (k_self api) KRegisteredService (meta_key (rs_meta rs)) = Some (ORegisteredService
      (rs\<lparr>rs_meta := (rs_meta rs)\<lparr>om_resourceVersion := v\<rparr>, rs_State := RSClaimed\<rparr>))"
    and "\<exists>ce cli. environment_client api (objs s) (om_namespace (sc_meta sc), acc_ClusterEnvironmentName acc) ce cli \<and>
      (acc_Namespace acc \<in> set (cesp_ApplicationNamespaces (ce_Spec ce)) \<and> distinct (cesp_ApplicationNamespaces (ce_Spec ce)) \<longrightarrow>
         delivered (objs s') cli (acc_Namespace acc) sc (sec_StringData secret))"
proof -
  let ?self = "k_self api" and ?key = "meta_key (rs_meta rs)" and ?ck = "meta_key (sc_meta sc)"
  from run obtain sc1 s1 s2 p s3 where
    r1: "run_state (updateServiceClaimStatus api (with_service ClaimPending rs sc)) s = ((None, sc1), s1)" and
    r2: "run_state (changeServiceState api rs RSClaimed) s1 = (None, s2)" and
    r3: "run_state (pushToClusterEnvironments api (with_service ClaimResolved rs sc1) secret) s2 = (p, s3)"
    by (auto simp: bind_claim_def Let_def split: prod.splits option.splits)
  let ?sc2 = "with_service ClaimResolved rs sc1"
  from updateServiceClaimStatus_ok [OF r1] claim have
    sc1: "sc_Spec sc1 = sc_Spec sc" "meta_key (sc_meta sc1) = ?ck" and
    pend: "\<exists>x. objs s1 ?self KServiceClaim ?ck = Some (OServiceClaim x) \<and> scst_State (sc_Status x) = ClaimPending"
    by (auto simp: with_service_def claim_stored_def)
  then have sc2: "sc_Spec ?sc2 = sc_Spec sc" "meta_key (sc_meta ?sc2) = ?ck"
    "om_name (sc_meta ?sc2) = om_name (sc_meta sc)" "om_namespace (sc_meta ?sc2) = om_namespace (sc_meta sc)"
    by (simp_all add: with_service_def meta_key_def)
  note f1 = modifies_run [OF modifies_updateServiceClaimStatus r1]
  have "modifies objs {(?self, KRegisteredService, ?key)} (changeServiceState api rs RSClaimed)"
    by (intro frame_intros) simp
  note f2 = modifies_run [OF this r2]
  note f3 = modifies_run [OF modifies_pushToClusterEnvironments r3]
  have k1: "objs s1 ?self KRegisteredService ?key = Some (ORegisteredService rs)"
    using same_but_of_kinds [OF f1] rs by simp
  have pend3: "\<exists>x. objs s3 ?self KServiceClaim ?ck = Some (OServiceClaim x) \<and> scst_State (sc_Status x) = ClaimPending"
    using pend f2 same_but_of_kinds [OF f3] by (simp add: same_but_def)
  have pN: "p = None"
  proof (rule ccontr)
    assume "p \<noteq> None"
    then obtain e where e: "p = Some e" by blast
    with run r1 r2 r3 obtain q where ch: "run_state (changeServiceState api rs RSAvailable) s3 = (q, s')"
      by (auto simp: bind_claim_def Let_def split: prod.splits if_splits)
    have "modifies objs {(?self, KRegisteredService, ?key)} (changeServiceState api rs RSAvailable)"
      by (intro frame_intros) simp
    from modifies_run [OF this ch] pend3 final show False by (auto simp: same_but_def)
  qed
  with run r1 r2 r3 obtain w where r4: "run_state (updateServiceClaimStatus api ?sc2) s3 = ((None, w), s')"
    by (auto simp: bind_claim_def Let_def split: prod.splits)
  from updateServiceClaimStatus_ok [OF r4] final sc2(2)
  show "scst_RegisteredService (sc_Status x) = Some \<lparr>ref_Name = om_name (rs_meta rs), ref_UID = om_uid (rs_meta rs)\<rparr>"
    by (auto simp: with_service_def)
  note f4 = modifies_run [OF modifies_updateServiceClaimStatus r4]
  from changeServiceState_ok [OF r2 k1] same_but_of_kinds [OF f3] same_but_of_kinds [OF f4]
  show "\<exists>v. objs s' ?self KRegisteredService ?key = Some (ORegisteredService
      (rs\<lparr>rs_meta := (rs_meta rs)\<lparr>om_resourceVersion := v\<rparr>, rs_State := RSClaimed\<rparr>))" by auto
  have t2: "scsp_Target (sc_Spec ?sc2) = Some t" using t(1) sc2(1) by simp
  have name2: "om_name (sec_meta secret) = om_name (sc_meta ?sc2)" using name sc2(3) by simp
  have same2: "objs s2 c k n = objs s c k n" if "k \<noteq> KServiceClaim" "k \<noteq> KRegisteredService" for c k n
    using f2 same_but_of_kinds [OF f1] that by (simp add: same_but_def)
  have deliver: "delivered (objs s') cli ns sc d" if "delivered (objs s3) cli ns ?sc2 d" for cli ns d
    using that same_but_of_kinds [OF f4] sc2 by (simp add: delivered_def binding_spec_def)
  from push_to_application_ok [OF r3 [unfolded pN] t2 t(2) wf name2]
  show "\<exists>ce cli. environment_client api (objs s) (om_namespace (sc_meta sc), acc_ClusterEnvironmentName acc) ce cli \<and>
      (acc_Namespace acc \<in> set (cesp_ApplicationNamespaces (ce_Spec ce)) \<and> distinct (cesp_ApplicationNamespaces (ce_Spec ce)) \<longrightarrow>
         delivered (objs s') cli (acc_Namespace acc) sc (sec_StringData secret))"
    using deliver sc2(4) by (simp add: environment_client_def same2) blast
qed

end

text \<open>When every requested key was counted and no name is defined twice, no key is missing.\<close>

lemma extracted_complete:
  assumes "extracted V keys 0 [] seds n d" and "distinct (map sed_Name seds)" and "int (length keys) \<le> n"
  shows "fst ` set d = set keys"
proof -
  from assms obtain names where names: "n = int (length names)" "fst ` set d = set names" "set names \<subseteq> set keys" "distinct names"
    unfolding extracted_def by auto
  have "card (set keys) \<le> length keys" by (rule card_length)
  also have "\<dots> \<le> card (set names)" using names assms(3) by (simp add: distinct_card)
  finally have "set names = set keys" using names(3) by (intro card_seteq) simp_all
  with names(2) show ?thesis by simp
qed

text \<open>With no name defined twice, the count can only reach the number of requested keys when no key is
  requested twice.\<close>

lemma extracted_distinct_keys:
  assumes "extracted V keys 0 [] seds n d" and "distinct (map sed_Name seds)" and "int (length keys) \<le> n"
  shows "distinct keys"
proof -
  from assms obtain names where names: "n = int (length names)" "set names \<subseteq> set keys" "distinct names"
    unfolding extracted_def by auto
  have "length keys \<le> card (set names)" using names assms(3) by (simp add: distinct_card)
  also have "\<dots> \<le> card (set keys)" using names(2) by (intro card_mono) simp_all
  finally show ?thesis using card_length [of keys] by (intro card_distinct) simp
qed

lemma gm_get_key: "k \<in> fst ` set d \<Longrightarrow> \<exists>v. gm_get d k = Some v"
  by (simp add: gm_get_def) (metis map_of_eq_None_iff not_Some_eq)

lemma gm_wf_fold_put: "gm_wf d \<Longrightarrow> gm_wf (fold (\<lambda>x. gm_put (f x) (g x)) xs d)"
  by (induction xs arbitrary: d) (simp_all add: gm_wf_put)

lemma gm_wf_Nil [simp]: "gm_wf []"
  by (simp add: gm_wf_def)

lemma identity_value:
  assumes "distinct (map sci_Name items)" and "i \<in> set items"
  shows "gm_get (fold (\<lambda>sci. gm_put (sci_Name sci) (sci_Value sci)) items d) (sci_Name i) = Some (sci_Value i)"
proof -
  obtain j where j: "find (\<lambda>x. sci_Name x = sci_Name i) (rev items) = Some j"
    using assms(2) by (cases "find (\<lambda>x. sci_Name x = sci_Name i) (rev items)") (auto simp: find_None_iff)
  from find_Some_holds [OF j] find_Some_in [OF j] assms have "j = i"
    by (auto simp: distinct_map inj_on_def)
  with j show ?thesis by (simp add: gm_get_fold_put)
qed

lemma kept_value:
  assumes "\<exists>v. gm_get d k = Some v"
  shows "\<exists>v. gm_get (fold (\<lambda>sci. gm_put (sci_Name sci) (sci_Value sci)) items d) k = Some v"
  using assms by (simp add: gm_get_fold_put split: option.split)

text \<open>The content of a claim's secret: every requested key and every item of the identity.\<close>

lemma claim_values:
  assumes "extracted V (scsp_ServiceEndpointDefinitionKeys (sc_Spec sc)) 0 [] seds n d" and "sec_StringData secret = d"
  shows "gm_wf (sec_StringData (add_identity sc secret))"
    and "int (length (scsp_ServiceEndpointDefinitionKeys (sc_Spec sc))) \<le> n \<Longrightarrow> distinct (map sed_Name seds) \<longrightarrow>
      distinct (scsp_ServiceEndpointDefinitionKeys (sc_Spec sc)) \<and>
      (\<forall>k\<in>set (scsp_ServiceEndpointDefinitionKeys (sc_Spec sc)). \<exists>v. gm_get (sec_StringData (add_identity sc secret)) k = Some v)"
    and "distinct (map sci_Name (scsp_ServiceClassIdentity (sc_Spec sc))) \<longrightarrow>
      (\<forall>i\<in>set (scsp_ServiceClassIdentity (sc_Spec sc)).
         gm_get (sec_StringData (add_identity sc secret)) (sci_Name i) = Some (sci_Value i))"
proof -
  show "gm_wf (sec_StringData (add_identity sc secret))"
    using assms by (simp add: add_identity_def gm_wf_fold_put extracted_def)
  show "distinct (map sed_Name seds) \<longrightarrow>
      distinct (scsp_ServiceEndpointDefinitionKeys (sc_Spec sc)) \<and>
      (\<forall>k\<in>set (scsp_ServiceEndpointDefinitionKeys (sc_Spec sc)). \<exists>v. gm_get (sec_StringData (add_identity sc secret)) k = Some v)"
    if m: "int (length (scsp_ServiceEndpointDefinitionKeys (sc_Spec sc))) \<le> n"
  proof (intro impI conjI ballI)
    assume "distinct (map sed_Name seds)"
    from extracted_distinct_keys [OF assms(1) this m] show "distinct (scsp_ServiceEndpointDefinitionKeys (sc_Spec sc))" .
  next
    fix k assume "distinct (map sed_Name seds)" "k \<in> set (scsp_ServiceEndpointDefinitionKeys (sc_Spec sc))"
    with extracted_complete [OF assms(1) _ m] assms(2) have "k \<in> fst ` set (sec_StringData secret)" by simp
    from kept_value [OF gm_get_key [OF this]]
    show "\<exists>v. gm_get (sec_StringData (add_identity sc secret)) k = Some v" by (simp add: add_identity_def)
  qed
  show "distinct (map sci_Name (scsp_ServiceClassIdentity (sc_Spec sc))) \<longrightarrow>
      (\<forall>i\<in>set (scsp_ServiceClassIdentity (sc_Spec sc)).
         gm_get (sec_StringData (add_identity sc secret)) (sci_Name i) = Some (sci_Value i))"
    by (simp add: add_identity_def identity_value)
qed

context kube_store
begin

lemma ReconcileClaim_resolved:
  assumes run: "run_state (ReconcileClaim api (ns, n)) s = (None, s')"
    and stored: "objs s (k_self api) KServiceClaim (ns, n) = Some (OServiceClaim sc)"
    and live: "\<not> om_deletion (sc_meta sc)" and pending: "scst_State (sc_Status sc) \<noteq> ClaimResolved"
    and t: "scsp_Target (sc_Spec sc) = Some t" "sct_ApplicationClusterContext t = Some acc"
    and final: "objs s' (k_self api) KServiceClaim (ns, n) = Some (OServiceClaim x)"
      "scst_State (sc_Status x) = ClaimResolved"
  obtains rs v d ce cli where
    "candidate (objs s) (k_self api) sc rs"
    "objs s (k_self api) KRegisteredService (meta_key (rs_meta rs)) = Some (ORegisteredService rs)"
    "scst_RegisteredService (sc_Status x) = Some \<lparr>ref_Name = om_name (rs_meta rs), ref_UID = om_uid (rs_meta rs)\<rparr>"
    "objs s' (k_self api) KRegisteredService (meta_key (rs_meta rs)) = Some (ORegisteredService
      (rs\<lparr>rs_meta := (rs_meta rs)\<lparr>om_resourceVersion := v\<rparr>, rs_State := RSClaimed\<rparr>))"
    "environment_client api (objs s) (ns, acc_ClusterEnvironmentName acc) ce cli"
    "distinct (map sed_Name (rssp_ServiceEndpointDefinition (rs_Spec rs))) \<longrightarrow>
       distinct (scsp_ServiceEndpointDefinitionKeys (sc_Spec sc)) \<and>
       (\<forall>k\<in>set (scsp_ServiceEndpointDefinitionKeys (sc_Spec sc)). \<exists>v. gm_get d k = Some v)"
    "distinct (map sci_Name (scsp_ServiceClassIdentity (sc_Spec sc))) \<longrightarrow>
       (\<forall>i\<in>set (scsp_ServiceClassIdentity (sc_Spec sc)). gm_get d (sci_Name i) = Some (sci_Value i))"
    "acc_Namespace acc \<in> set (cesp_ApplicationNamespaces (ce_Spec ce)) \<and> distinct (cesp_ApplicationNamespaces (ce_Spec ce)) \<longrightarrow>
       delivered (objs s') cli (acc_Namespace acc) sc d"
proof -
  from keyed [OF stored] have key: "meta_key (sc_meta sc) = (ns, n)" by (simp add: obj_key_def)
  have unresolved: False if "claim_stored objs (k_self api) s' sc'" "prepared sc sc'" for sc'
    using that final pending key by (simp add: claim_stored_def prepared_def)
  show thesis
  proof (rule ReconcileClaim_cases [OF run stored live pending])
    assume "(None :: err option) = None \<longrightarrow> (\<exists>sc'. claim_stored objs (k_self api) s' sc' \<and> prepared sc sc')"
    with unresolved show thesis by blast
  next
    fix sc' s1 rsl
    assume sb: "same_but (of_kinds {KServiceClaim}) (objs s) (objs s1)"
      and st1: "claim_stored objs (k_self api) s1 sc'" and prep: "prepared sc sc'"
      and p: "run_state (processServiceClaim api rsl sc') s1 = (None, s')"
      and rsl: "\<And>rs. rs \<in> set rsl \<Longrightarrow>
           objs s1 (k_self api) KRegisteredService (meta_key (rs_meta rs)) = Some (ORegisteredService rs)"
    have same1: "objs s1 c k n = objs s c k n" if "k \<noteq> KServiceClaim" for c k n
      using sb that by (simp add: same_but_of_kinds)
    have sc': "sc_Spec sc' = sc_Spec sc" "meta_key (sc_meta sc') = (ns, n)"
      "om_namespace (sc_meta sc') = ns" "om_name (sc_meta sc') = om_name (sc_meta sc)"
      using prep key prepared_names [OF prep] by (auto simp: prepared_def meta_key_def)
    show thesis
    proof (rule processServiceClaim_cases [OF p])
      show "\<And>rs. rs \<in> set rsl \<Longrightarrow>
           objs s1 (k_self api) KRegisteredService (meta_key (rs_meta rs)) = Some (ORegisteredService rs)" by (rule rsl)
    next
      assume "(None :: err option) \<noteq> None" then show thesis by simp
    next
      fix rs m secret s2
      assume s2: "objs s2 = objs s1"
        and b: "run_state (bind_claim api IgnoreNotFound sc' rs (add_identity sc' secret)) s2 = (None, s')"
        and rs: "objs s1 (k_self api) KRegisteredService (meta_key (rs_meta rs)) = Some (ORegisteredService rs)"
        and cand: "candidate (objs s1) (k_self api) sc' rs"
        and m: "int (length (scsp_ServiceEndpointDefinitionKeys (sc_Spec sc'))) \<le> m"
        and sec: "secret = (claim_secret sc')\<lparr>sec_StringData := sec_StringData secret\<rparr>"
        and exd: "extracted (sed_value_in objs (k_self api) (om_namespace (sc_meta sc')) s1)
          (scsp_ServiceEndpointDefinitionKeys (sc_Spec sc')) 0 [] (rssp_ServiceEndpointDefinition (rs_Spec rs)) m
          (sec_StringData secret)"
      note vals = claim_values [OF exd, where secret = secret, OF refl]
      have name: "om_name (sec_meta (add_identity sc' secret)) = om_name (sc_meta sc')"
        by (subst sec) (simp add: add_identity_def claim_secret_def)
      have st2: "claim_stored objs (k_self api) s2 sc'" using st1 s2 by (simp add: claim_stored_def)
      have rs2: "objs s2 (k_self api) KRegisteredService (meta_key (rs_meta rs)) = Some (ORegisteredService rs)"
        using rs s2 by simp
      have t': "scsp_Target (sc_Spec sc') = Some t" using t sc' by simp
      have final': "objs s' (k_self api) KServiceClaim (meta_key (sc_meta sc')) = Some (OServiceClaim x)"
        using final(1) sc' by simp
      note res = bind_claim_resolved [OF b st2 rs2 t' t(2) vals(1) name final' final(2)]
      from res(2) obtain v where v: "objs s' (k_self api) KRegisteredService (meta_key (rs_meta rs)) = Some (ORegisteredService
          (rs\<lparr>rs_meta := (rs_meta rs)\<lparr>om_resourceVersion := v\<rparr>, rs_State := RSClaimed\<rparr>))" by blast
      from res(3) obtain ce cli where ce: "environment_client api (objs s2) (ns, acc_ClusterEnvironmentName acc) ce cli"
        "acc_Namespace acc \<in> set (cesp_ApplicationNamespaces (ce_Spec ce)) \<and> distinct (cesp_ApplicationNamespaces (ce_Spec ce)) \<longrightarrow>
         delivered (objs s') cli (acc_Namespace acc) sc' (sec_StringData (add_identity sc' secret))" using sc'(3) by auto
      have c0: "candidate (objs s) (k_self api) sc rs"
        using cand candidate_prepared [OF prep, of "objs s1" "k_self api" "objs s"] same1 by simp
      have ce0: "environment_client api (objs s) (ns, acc_ClusterEnvironmentName acc) ce cli"
        using ce(1) same1 s2 by (simp add: environment_client_def)
      have dl: "delivered f c a sc' d = delivered f c a sc d" for f c a d
        using sc' by (simp add: delivered_def binding_spec_def)
      have rs0: "objs s (k_self api) KRegisteredService (meta_key (rs_meta rs)) = Some (ORegisteredService rs)"
        using rs same1 by simp
      show thesis
        by (rule that [OF c0 rs0 res(1) v ce0 vals(2) [OF m, unfolded sc'(1)] vals(3) [unfolded sc'(1)]]) (use ce(2) dl in simp)
    qed
  qed
qed

end

subsection \<open>Properties\<close>

text \<open>C27: the subset test of the matching is multiset inclusion: a claim's class identity passes exactly when
  each of its items occurs in the service's identity at least as often.\<close>

theorem checkSCISubset_spec: "checkSCISubset c r \<longleftrightarrow> mset c \<subseteq># mset r"
  by (rule checkSCISubset_iff)

text \<open>C26: extracting a service endpoint definition into an empty secret writes only keys that the claim
  asks for, each with the value its item defines (directly or through a secret of the namespace);
  and when as many values as requested keys were counted and no name is defined twice, every
  requested key is there.\<close>

theorem extractServiceEndpointDefinition_spec:
  assumes "kube_store api objs"
    and "run_state (extractServiceEndpointDefinition api ns rs keys secret) s = (Inr (n, secret'), s')"
    and "sec_StringData secret = []"
  shows "(\<forall>k v. gm_get (sec_StringData secret') k = Some v \<longrightarrow>
      k \<in> set keys \<and> (\<exists>sed\<in>set (rssp_ServiceEndpointDefinition (rs_Spec rs)).
        sed_Name sed = k \<and> sed_value_in objs (k_self api) ns s sed v)) \<and>
    (int (length keys) \<le> n \<and> distinct (map sed_Name (rssp_ServiceEndpointDefinition (rs_Spec rs))) \<longrightarrow>
      (\<forall>k\<in>set keys. \<exists>v. gm_get (sec_StringData secret') k = Some v))"
proof -
  from assms(2,3) have "run_state (extract_loop api ns keys (rssp_ServiceEndpointDefinition (rs_Spec rs)) 0 []) s =
      (Inr (n, sec_StringData secret'), s')"
    by (auto simp: extractServiceEndpointDefinition_def split: prod.splits sum.splits)
  with kube_store.extract_loop_ok [OF assms(1)]
  have exd: "extracted (sed_value_in objs (k_self api) ns s) keys 0 [] (rssp_ServiceEndpointDefinition (rs_Spec rs)) n
      (sec_StringData secret')" by blast
  have "\<exists>v. gm_get (sec_StringData secret') k = Some v"
    if "int (length keys) \<le> n" "distinct (map sed_Name (rssp_ServiceEndpointDefinition (rs_Spec rs)))" "k \<in> set keys" for k
    using extracted_complete [OF exd that(2,1)] that(3) gm_get_key by metis
  with exd show ?thesis by (simp add: extracted_def)
qed

definition claim_of :: "string \<Rightarrow> ServiceClaimTarget \<Rightarrow> ServiceClaim" where
  "claim_of n t =
     \<lparr>sc_meta = (new_meta ''sys'' n)\<lparr>om_resourceVersion := ''1''\<rparr>,
      sc_Spec = \<lparr>scsp_ServiceClassIdentity = [\<lparr>sci_Name = ''type'', sci_Value = ''sql''\<rparr>],
        scsp_ServiceEndpointDefinitionKeys = [''host'', ''password''],
        scsp_Application = \<lparr>as_APIVersion = ''apps/v1'', as_Kind = ''Deployment'', as_Name = ''app'', as_Selector = None\<rparr>,
        scsp_Target = Some t, scsp_Envs = []\<rparr>,
      sc_Status = \<lparr>scst_State = ClaimStateUnset, scst_ClaimID = '''', scst_RegisteredService = None, scst_Conditions = []\<rparr>\<rparr>"

definition app_target :: ServiceClaimTarget where
  "app_target = \<lparr>sct_EnvironmentTag = '''',
     sct_ApplicationClusterContext = Some \<lparr>acc_ClusterEnvironmentName = ''ce'', acc_Namespace = ''apps''\<rparr>\<rparr>"

definition db_service :: "string \<Rightarrow> RegisteredServiceState \<Rightarrow> RegisteredService" where
  "db_service n st =
     \<lparr>rs_meta = (new_meta ''sys'' n)\<lparr>om_uid := ''u-'' @ n, om_resourceVersion := ''1''\<rparr>,
      rs_Spec = \<lparr>rssp_Constraints = Some [''prod''], rssp_HealthCheck = None, rssp_SLA = '''',
        rssp_ServiceClassIdentity = [\<lparr>sci_Name = ''type'', sci_Value = ''sql''\<rparr>, \<lparr>sci_Name = ''vendor'', sci_Value = ''x''\<rparr>],
        rssp_ServiceEndpointDefinition =
          [\<lparr>sed_Name = ''host'', sed_Value = ''db.local'', sed_ValueFromSecret = None\<rparr>,
           \<lparr>sed_Name = ''password'', sed_Value = '''',
             sed_ValueFromSecret = Some \<lparr>ssr_Name = ''db-secret'', ssr_Key = ''pw''\<rparr>\<rparr>]\<rparr>,
      rs_State = st\<rparr>"

definition prod_env :: ClusterEnvironment where
  "prod_env =
     \<lparr>ce_meta = (new_meta ''sys'' ''ce'')\<lparr>om_resourceVersion := ''1''\<rparr>,
      ce_Spec = \<lparr>cesp_EnvironmentName = ''prod'', cesp_ClusterContextSecret = ''ctx'', cesp_Description = '''',
        cesp_Labels = [], cesp_ApplicationNamespaces = [''apps''], cesp_ServiceNamespaces = [],
        cesp_ContactInfo = '''', cesp_SynchronizationStrategy = SyncPush\<rparr>,
      ce_State = CEOnline, ce_Conditions = []\<rparr>"

definition data_secret :: "string \<Rightarrow> string \<Rightarrow> string \<Rightarrow> Secret" where
  "data_secret n k v =
     \<lparr>sec_meta = (new_meta ''sys'' n)\<lparr>om_resourceVersion := ''1''\<rparr>, sec_Data = [(k, v)], sec_StringData = []\<rparr>"

definition prod_target :: ServiceClaimTarget where
  "prod_target = \<lparr>sct_EnvironmentTag = ''prod'', sct_ApplicationClusterContext = None\<rparr>"

text \<open>The same objects with and without the context secret of the cluster environment.\<close>

definition claim_objects :: "ServiceClaimTarget \<Rightarrow> (cluster \<times> obj) list" where
  "claim_objects t =
     [(0, OServiceClaim (claim_of ''claim'' t)), (0, ORegisteredService (db_service ''db'' RSAvailable)),
      (0, OClusterEnvironment prod_env), (0, OSecret (data_secret ''db-secret'' ''pw'' ''s3cr3t'')),
      (1, OServiceClaim ((claim_of ''claim'' app_target)
            \<lparr>sc_meta := (new_meta ''apps'' ''claim'')\<lparr>om_resourceVersion := ''1''\<rparr>\<rparr>))]"

definition claim_state :: mem where
  "claim_state = mem_of ((0, OSecret (data_secret ''ctx'' ''kubeconfig'' ''kc'')) # claim_objects app_target)"

theorem extractServiceEndpointDefinition_spec_witness:
  "\<exists>secret' s'. run_state (extractServiceEndpointDefinition (mem_api [] 0) ''sys'' (db_service ''db'' RSAvailable)
       [''host'', ''password''] (claim_secret (claim_of ''claim'' app_target))) claim_state = (Inr (2, secret'), s') \<and>
     (\<exists>v. gm_get (sec_StringData secret') ''password'' = Some v)"
proof -
  let ?r = "run_state (extractServiceEndpointDefinition (mem_api [] 0) ''sys'' (db_service ''db'' RSAvailable)
       [''host'', ''password''] (claim_secret (claim_of ''claim'' app_target))) claim_state"
  have "case fst ?r of Inr (n, _) \<Rightarrow> n = 2 | Inl _ \<Rightarrow> False" by code_simp
  then obtain secret' where "fst ?r = Inr (2, secret')" by (auto split: sum.splits)
  then have run: "?r = (Inr (2, secret'), snd ?r)" by (metis prod.collapse)
  have empty: "sec_StringData (claim_secret (claim_of ''claim'' app_target)) = []" by (simp add: claim_secret_def)
  from extractServiceEndpointDefinition_spec [OF mem.kube_store_axioms, OF run empty]
  have "\<exists>v. gm_get (sec_StringData secret') ''password'' = Some v" by (simp add: db_service_def)
  with run show ?thesis by blast
qed

text \<open>C2: When a claim with an application cluster context that is not being deleted and was not resolved before
  (a claim that is resolved already is only refreshed) is reconciled without an error and is resolved
  afterwards, it refers to a registered service that was available before, whose class identity includes the
  claim's and whose constraints, if it has any, admit the claim's environment; and that service is now marked
  as claimed, with an unchanged specification.\<close>

theorem ReconcileClaim_resolves:
  assumes "kube_store api objs"
    and "run_state (ReconcileClaim api (ns, n)) s = (None, s')"
    and "objs s (k_self api) KServiceClaim (ns, n) = Some (OServiceClaim sc)"
    and "\<not> om_deletion (sc_meta sc)" and "scst_State (sc_Status sc) \<noteq> ClaimResolved"
    and "scsp_Target (sc_Spec sc) = Some t" and "sct_ApplicationClusterContext t = Some acc"
    and "objs s' (k_self api) KServiceClaim (ns, n) = Some (OServiceClaim sc')"
    and "scst_State (sc_Status sc') = ClaimResolved"
  shows "\<exists>rs rs' k env.
    objs s (k_self api) KRegisteredService k = Some (ORegisteredService rs) \<and>
    rs_State rs = RSAvailable \<and>
    mset (scsp_ServiceClassIdentity (sc_Spec sc)) \<subseteq># mset (rssp_ServiceClassIdentity (rs_Spec rs)) \<and>
    env_of_claim (objs s) (k_self api) sc env \<and>
    (\<forall>es. rssp_Constraints (rs_Spec rs) = Some es \<longrightarrow> Match env es) \<and>
    scst_RegisteredService (sc_Status sc') = Some \<lparr>ref_Name = om_name (rs_meta rs), ref_UID = om_uid (rs_meta rs)\<rparr> \<and>
    objs s' (k_self api) KRegisteredService k = Some (ORegisteredService rs') \<and>
    rs_State rs' = RSClaimed \<and> rs_Spec rs' = rs_Spec rs"
proof (rule kube_store.ReconcileClaim_resolved [OF assms(1), OF assms(2-9)])
  fix rs v
  assume cand: "candidate (objs s) (k_self api) sc rs"
    and rs: "objs s (k_self api) KRegisteredService (meta_key (rs_meta rs)) = Some (ORegisteredService rs)"
      "scst_RegisteredService (sc_Status sc') = Some \<lparr>ref_Name = om_name (rs_meta rs), ref_UID = om_uid (rs_meta rs)\<rparr>"
      "objs s' (k_self api) KRegisteredService (meta_key (rs_meta rs)) = Some (ORegisteredService
        (rs\<lparr>rs_meta := (rs_meta rs)\<lparr>om_resourceVersion := v\<rparr>, rs_State := RSClaimed\<rparr>))"
  from cand obtain env where "env_of_claim (objs s) (k_self api) sc env"
    "case rssp_Constraints (rs_Spec rs) of None \<Rightarrow> True | Some es \<Rightarrow> Match env es"
    by (auto simp: candidate_def)
  with cand rs show ?thesis
    by (intro exI [of _ rs] exI [of _ env] exI [of _ "meta_key (rs_meta rs)"] exI) (auto simp: candidate_def)
qed

lemma reconciled_claim_delivered:
  assumes "kube_store api objs"
    and "run_state (ReconcileClaim api (ns, n)) s = (None, s')"
    and "objs s (k_self api) KServiceClaim (ns, n) = Some (OServiceClaim sc)"
    and "\<not> om_deletion (sc_meta sc)" and "scst_State (sc_Status sc) \<noteq> ClaimResolved"
    and "scsp_Target (sc_Spec sc) = Some t" and "sct_ApplicationClusterContext t = Some acc"
    and "objs s' (k_self api) KServiceClaim (ns, n) = Some (OServiceClaim sc')"
    and "scst_State (sc_Status sc') = ClaimResolved"
    and "objs s (k_self api) KClusterEnvironment (ns, acc_ClusterEnvironmentName acc) = Some (OClusterEnvironment ce)"
    and "acc_Namespace acc \<in> set (cesp_ApplicationNamespaces (ce_Spec ce))"
    and "distinct (cesp_ApplicationNamespaces (ce_Spec ce))"
    and "\<forall>k rs. objs s (k_self api) KRegisteredService k = Some (ORegisteredService rs) \<longrightarrow>
      distinct (map sed_Name (rssp_ServiceEndpointDefinition (rs_Spec rs)))"
    and "distinct (map sci_Name (scsp_ServiceClassIdentity (sc_Spec sc)))"
  shows "\<exists>cli b x. environment_client api (objs s) (ns, acc_ClusterEnvironmentName acc) ce cli \<and>
    objs s' cli KServiceBinding (acc_Namespace acc, n) = Some (OServiceBinding b) \<and>
    sb_Spec b = \<lparr>sbsp_ServiceEndpointDefinitionSecret = n, sbsp_Application = scsp_Application (sc_Spec sc),
      sbsp_Envs = scsp_Envs (sc_Spec sc)\<rparr> \<and>
    objs s' cli KSecret (acc_Namespace acc, n) = Some (OSecret x) \<and>
    (\<forall>k\<in>set (scsp_ServiceEndpointDefinitionKeys (sc_Spec sc)). gm_get (secret_content x) k \<noteq> None) \<and>
    (\<forall>i\<in>set (scsp_ServiceClassIdentity (sc_Spec sc)). gm_get (secret_content x) (sci_Name i) = Some (sci_Value i))"
proof (rule kube_store.ReconcileClaim_resolved [OF assms(1), OF assms(2-9)])
  fix rs d ce' cli
  assume rs: "objs s (k_self api) KRegisteredService (meta_key (rs_meta rs)) = Some (ORegisteredService rs)"
    and ce: "environment_client api (objs s) (ns, acc_ClusterEnvironmentName acc) ce' cli"
    and keys: "distinct (map sed_Name (rssp_ServiceEndpointDefinition (rs_Spec rs))) \<longrightarrow>
       distinct (scsp_ServiceEndpointDefinitionKeys (sc_Spec sc)) \<and>
       (\<forall>k\<in>set (scsp_ServiceEndpointDefinitionKeys (sc_Spec sc)). \<exists>v. gm_get d k = Some v)"
    and ids: "distinct (map sci_Name (scsp_ServiceClassIdentity (sc_Spec sc))) \<longrightarrow>
       (\<forall>i\<in>set (scsp_ServiceClassIdentity (sc_Spec sc)). gm_get d (sci_Name i) = Some (sci_Value i))"
    and del: "acc_Namespace acc \<in> set (cesp_ApplicationNamespaces (ce_Spec ce')) \<and>
       distinct (cesp_ApplicationNamespaces (ce_Spec ce')) \<longrightarrow> delivered (objs s') cli (acc_Namespace acc) sc d"
  from kube_store.keyed [OF assms(1), OF assms(3)] have name: "om_name (sc_meta sc) = n"
    by (simp add: obj_key_def meta_key_def)
  from ce assms(10) have "ce' = ce" by (simp add: environment_client_def)
  with del assms(11,12) have "delivered (objs s') cli (acc_Namespace acc) sc d" by simp
  then obtain b x where b: "objs s' cli KServiceBinding (acc_Namespace acc, n) = Some (OServiceBinding b)"
      "sb_Spec b = binding_spec sc"
    and x: "objs s' cli KSecret (acc_Namespace acc, n) = Some (OSecret x)"
      "\<And>k v. gm_get d k = Some v \<Longrightarrow> gm_get (secret_content x) k = Some v"
    by (auto simp: delivered_def name)
  have "\<forall>k\<in>set (scsp_ServiceEndpointDefinitionKeys (sc_Spec sc)). gm_get (secret_content x) k \<noteq> None"
    using keys spec [OF spec [OF assms(13)]] rs x(2) by fastforce
  moreover have "\<forall>i\<in>set (scsp_ServiceClassIdentity (sc_Spec sc)). gm_get (secret_content x) (sci_Name i) = Some (sci_Value i)"
    using ids assms(14) x(2) by blast
  ultimately show ?thesis using ce b x(1) \<open>ce' = ce\<close> name by (auto simp: binding_spec_def)
qed

text \<open>A claim that asks for a key twice is never served by services that define each endpoint name once: the keys
  that were found are counted once each, and compared with the length of the list of requested keys.\<close>

theorem duplicate_keys_never_resolved:
  assumes "kube_store api objs"
    and "run_state (ReconcileClaim api (ns, n)) s = (None, s')"
    and "objs s (k_self api) KServiceClaim (ns, n) = Some (OServiceClaim sc)"
    and "\<not> om_deletion (sc_meta sc)" and "scst_State (sc_Status sc) \<noteq> ClaimResolved"
    and "scsp_Target (sc_Spec sc) = Some t" and "sct_ApplicationClusterContext t = Some acc"
    and "\<forall>k rs. objs s (k_self api) KRegisteredService k = Some (ORegisteredService rs) \<longrightarrow>
      distinct (map sed_Name (rssp_ServiceEndpointDefinition (rs_Spec rs)))"
    and "\<not> distinct (scsp_ServiceEndpointDefinitionKeys (sc_Spec sc))"
    and "objs s' (k_self api) KServiceClaim (ns, n) = Some (OServiceClaim sc')"
  shows "scst_State (sc_Status sc') \<noteq> ClaimResolved"
proof
  assume "scst_State (sc_Status sc') = ClaimResolved"
  then show False
  proof (rule kube_store.ReconcileClaim_resolved [OF assms(1), OF assms(2-7,10)])
    fix rs d
    assume "objs s (k_self api) KRegisteredService (meta_key (rs_meta rs)) = Some (ORegisteredService rs)"
      and "distinct (map sed_Name (rssp_ServiceEndpointDefinition (rs_Spec rs))) \<longrightarrow>
         distinct (scsp_ServiceEndpointDefinitionKeys (sc_Spec sc)) \<and>
         (\<forall>k\<in>set (scsp_ServiceEndpointDefinitionKeys (sc_Spec sc)). \<exists>v. gm_get d k = Some v)"
    with spec [OF spec [OF assms(8)]] assms(9) show False by blast
  qed
qed

text \<open>C3: Let a claim with an application cluster context, not being deleted and not resolved before, be
  reconciled without an error and be resolved afterwards; let its cluster environment be stored, list the
  claim's application namespace, and list no namespace twice; let no registered service define an endpoint
  name twice and the claim name no identity item twice. Then the environment's context leads to a cluster, and
  there the application namespace holds the service binding, with the claim's application, environment variables
  and secret name, and a secret with a value for every requested key and the value of every item of the claim's
  class identity.\<close>

theorem ReconcileClaim_delivers:
  assumes "kube_store api objs"
    and "run_state (ReconcileClaim api (ns, n)) s = (None, s')"
    and "objs s (k_self api) KServiceClaim (ns, n) = Some (OServiceClaim sc)"
    and "\<not> om_deletion (sc_meta sc)" and "scst_State (sc_Status sc) \<noteq> ClaimResolved"
    and "scsp_Target (sc_Spec sc) = Some t" and "sct_ApplicationClusterContext t = Some acc"
    and "objs s' (k_self api) KServiceClaim (ns, n) = Some (OServiceClaim sc')"
    and "scst_State (sc_Status sc') = ClaimResolved"
    and "objs s (k_self api) KClusterEnvironment (ns, acc_ClusterEnvironmentName acc) = Some (OClusterEnvironment ce)"
    and "acc_Namespace acc \<in> set (cesp_ApplicationNamespaces (ce_Spec ce))"
    and "distinct (cesp_ApplicationNamespaces (ce_Spec ce))"
    and "\<And>k rs. objs s (k_self api) KRegisteredService k = Some (ORegisteredService rs) \<Longrightarrow>
      distinct (map sed_Name (rssp_ServiceEndpointDefinition (rs_Spec rs)))"
    and "distinct (map sci_Name (scsp_ServiceClassIdentity (sc_Spec sc)))"
  shows "\<exists>cli b x. environment_client api (objs s) (ns, acc_ClusterEnvironmentName acc) ce cli \<and>
    objs s' cli KServiceBinding (acc_Namespace acc, n) = Some (OServiceBinding b) \<and>
    sb_Spec b = \<lparr>sbsp_ServiceEndpointDefinitionSecret = n, sbsp_Application = scsp_Application (sc_Spec sc),
      sbsp_Envs = scsp_Envs (sc_Spec sc)\<rparr> \<and>
    objs s' cli KSecret (acc_Namespace acc, n) = Some (OSecret x) \<and>
    (\<forall>k\<in>set (scsp_ServiceEndpointDefinitionKeys (sc_Spec sc)). gm_get (secret_content x) k \<noteq> None) \<and>
    (\<forall>i\<in>set (scsp_ServiceClassIdentity (sc_Spec sc)). gm_get (secret_content x) (sci_Name i) = Some (sci_Value i))"
  by (rule reconciled_claim_delivered [OF assms(1-12) _ assms(14)]) (use assms(13) in blast)

text \<open>A run on the sample state, and what it leaves of the claim.\<close>

definition claim_in :: "mem \<Rightarrow> nsname \<Rightarrow> ServiceClaim option" where
  "claim_in s k = (case mem_objs s 0 KServiceClaim k of Some (OServiceClaim c) \<Rightarrow> Some c | _ \<Rightarrow> None)"

definition service_in :: "mem \<Rightarrow> nsname \<Rightarrow> RegisteredService option" where
  "service_in s k = (case mem_objs s 0 KRegisteredService k of Some (ORegisteredService c) \<Rightarrow> Some c | _ \<Rightarrow> None)"

lemma claim_in_Some: "claim_in s k = Some c \<longleftrightarrow> mem_objs s 0 KServiceClaim k = Some (OServiceClaim c)"
  by (auto simp: claim_in_def split: option.splits obj.splits)

lemma service_in_Some: "service_in s k = Some c \<longleftrightarrow> mem_objs s 0 KRegisteredService k = Some (ORegisteredService c)"
  by (auto simp: service_in_def split: option.splits obj.splits)

definition claim_run :: "err option \<times> mem" where
  "claim_run = run_state (ReconcileClaim (mem_api [(''kc'', 1)] 0) (''sys'', ''claim'')) claim_state"

lemma claim_run_facts:
  "fst claim_run = None"
  "map_option (\<lambda>c. scst_State (sc_Status c)) (claim_in (snd claim_run) (''sys'', ''claim'')) = Some ClaimResolved"
  unfolding claim_run_def by code_simp+

lemma claim_state_has:
  "mem_objs claim_state 0 KServiceClaim (''sys'', ''claim'') = Some (OServiceClaim (claim_of ''claim'' app_target))"
  "mem_objs claim_state 0 KClusterEnvironment (''sys'', ''ce'') = Some (OClusterEnvironment prod_env)"
  by code_simp+

theorem ReconcileClaim_resolves_witness:
  "\<exists>s' sc' rs'. run_state (ReconcileClaim (mem_api [(''kc'', 1)] 0) (''sys'', ''claim'')) claim_state = (None, s') \<and>
     mem_objs s' 0 KServiceClaim (''sys'', ''claim'') = Some (OServiceClaim sc') \<and>
     (\<exists>k. mem_objs s' 0 KRegisteredService k = Some (ORegisteredService rs') \<and> rs_State rs' = RSClaimed)"
proof -
  let ?c = "claim_of ''claim'' app_target"
  from claim_run_facts(1) have run: "run_state (ReconcileClaim (mem_api [(''kc'', 1)] 0) (''sys'', ''claim'')) claim_state
      = (None, snd claim_run)" unfolding claim_run_def by (metis prod.collapse)
  from claim_run_facts(2) obtain sc' where sc': "claim_in (snd claim_run) (''sys'', ''claim'') = Some sc'"
    "scst_State (sc_Status sc') = ClaimResolved" by auto
  have st: "mem_objs claim_state (k_self (mem_api [(''kc'', 1)] 0)) KServiceClaim (''sys'', ''claim'') = Some (OServiceClaim ?c)"
    using claim_state_has by simp
  have fin: "mem_objs (snd claim_run) (k_self (mem_api [(''kc'', 1)] 0)) KServiceClaim (''sys'', ''claim'') = Some (OServiceClaim sc')"
    using sc'(1) by (simp add: claim_in_Some)
  have props: "\<not> om_deletion (sc_meta ?c)" "scst_State (sc_Status ?c) \<noteq> ClaimResolved"
    "scsp_Target (sc_Spec ?c) = Some app_target"
    "sct_ApplicationClusterContext app_target = Some \<lparr>acc_ClusterEnvironmentName = ''ce'', acc_Namespace = ''apps''\<rparr>"
    by (simp_all add: claim_of_def app_target_def)
  from ReconcileClaim_resolves [OF mem.kube_store_axioms, OF run st props fin sc'(2)] run fin show ?thesis
    by (intro exI [of _ "snd claim_run"] exI [of _ sc']) auto
qed

theorem ReconcileClaim_delivers_witness:
  "\<exists>s' x. run_state (ReconcileClaim (mem_api [(''kc'', 1)] 0) (''sys'', ''claim'')) claim_state = (None, s') \<and>
     (\<exists>cli. mem_objs s' cli KSecret (''apps'', ''claim'') = Some (OSecret x)) \<and>
     gm_get (secret_content x) ''password'' \<noteq> None \<and> gm_get (secret_content x) ''type'' = Some ''sql''"
proof -
  let ?c = "claim_of ''claim'' app_target" and ?api = "mem_api [(''kc'', 1)] 0"
  from claim_run_facts(1) have run: "run_state (ReconcileClaim ?api (''sys'', ''claim'')) claim_state = (None, snd claim_run)"
    unfolding claim_run_def by (metis prod.collapse)
  from claim_run_facts(2) obtain sc' where sc': "claim_in (snd claim_run) (''sys'', ''claim'') = Some sc'"
    "scst_State (sc_Status sc') = ClaimResolved" by auto
  have st: "mem_objs claim_state (k_self ?api) KServiceClaim (''sys'', ''claim'') = Some (OServiceClaim ?c)"
    "mem_objs claim_state (k_self ?api) KClusterEnvironment (''sys'',
       acc_ClusterEnvironmentName \<lparr>acc_ClusterEnvironmentName = ''ce'', acc_Namespace = ''apps''\<rparr>) = Some (OClusterEnvironment prod_env)"
    using claim_state_has by simp_all
  have fin: "mem_objs (snd claim_run) (k_self ?api) KServiceClaim (''sys'', ''claim'') = Some (OServiceClaim sc')"
    using sc'(1) by (simp add: claim_in_Some)
  have props: "\<not> om_deletion (sc_meta ?c)" "scst_State (sc_Status ?c) \<noteq> ClaimResolved"
    "scsp_Target (sc_Spec ?c) = Some app_target"
    "sct_ApplicationClusterContext app_target = Some \<lparr>acc_ClusterEnvironmentName = ''ce'', acc_Namespace = ''apps''\<rparr>"
    by (simp_all add: claim_of_def app_target_def)
  have ns: "acc_Namespace \<lparr>acc_ClusterEnvironmentName = ''ce'', acc_Namespace = ''apps''\<rparr> \<in>
      set (cesp_ApplicationNamespaces (ce_Spec prod_env))" "distinct (cesp_ApplicationNamespaces (ce_Spec prod_env))"
    by (simp_all add: prod_env_def)
  have seds: "distinct (map sed_Name (rssp_ServiceEndpointDefinition (rs_Spec rs)))"
    if "mem_objs claim_state (k_self ?api) KRegisteredService k = Some (ORegisteredService rs)" for k rs
    using mem_objs_in [OF that] by (auto simp: claim_state_def claim_objects_def mem_of_def db_service_def)
  have ids: "distinct (map sci_Name (scsp_ServiceClassIdentity (sc_Spec ?c)))" by (simp add: claim_of_def)
  from ReconcileClaim_delivers [OF mem.kube_store_axioms, OF run st(1) props fin sc'(2) st(2) ns seds ids] run
  show ?thesis by (fastforce simp: claim_of_def)
qed

text \<open>C15: Whatever the outcome, error or not, of reconciling a stored claim that is neither resolved nor being
  deleted, in a state where every stored registered service carries a resource version, every registered
  service either stays exactly as it is, or was an available candidate for this claim and ends as claimed with
  nothing else changed but its version. No such reconciliation sets a service back to available: after a push
  that fails the code asks for the state Available again, but with the version from before it was claimed, and
  the request is refused. (The deletion of a claim is another path, and does free a service.)\<close>

theorem ReconcileClaim_touches_candidates:
  assumes "kube_store api objs"
    and "run_state (ReconcileClaim api (ns, n)) s = (r, s')"
    and "objs s (k_self api) KServiceClaim (ns, n) = Some (OServiceClaim sc)"
    and "\<not> om_deletion (sc_meta sc)" and "scst_State (sc_Status sc) \<noteq> ClaimResolved"
    and "\<And>k rs. objs s (k_self api) KRegisteredService k = Some (ORegisteredService rs) \<Longrightarrow>
      om_resourceVersion (rs_meta rs) \<noteq> ''''"
  shows "objs s' (k_self api) KRegisteredService k = objs s (k_self api) KRegisteredService k \<or>
    (\<exists>rs v. objs s (k_self api) KRegisteredService k = Some (ORegisteredService rs) \<and>
       candidate (objs s) (k_self api) sc rs \<and>
       objs s' (k_self api) KRegisteredService k = Some (ORegisteredService
         (rs\<lparr>rs_meta := (rs_meta rs)\<lparr>om_resourceVersion := v\<rparr>, rs_State := RSClaimed\<rparr>)))"
  using kube_store.ReconcileClaim_services_only [OF assms(1), OF assms(2-6)] unfolding same_or_claimed_def .

text \<open>Without the context secret the push to an environment fails as not found: the claim stays pending, the
  service stays claimed, and no error is returned, so that nothing is tried again.\<close>

theorem ReconcileClaim_touches_candidates_witness:
  "\<exists>s' rs'. run_state (ReconcileClaim (mem_api [(''kc'', 1)] 0) (''sys'', ''claim'')) (mem_of (claim_objects prod_target)) = (None, s') \<and>
     map_option (\<lambda>c. scst_State (sc_Status c)) (claim_in s' (''sys'', ''claim'')) = Some ClaimPending \<and>
     mem_objs s' 0 KRegisteredService (''sys'', ''db'') = Some (ORegisteredService rs') \<and> rs_State rs' = RSClaimed"
proof -
  let ?c = "claim_of ''claim'' prod_target" and ?api = "mem_api [(''kc'', 1)] 0"
  define s' where "s' = snd (run_state (ReconcileClaim ?api (''sys'', ''claim'')) (mem_of (claim_objects prod_target)))"
  have r: "fst (run_state (ReconcileClaim ?api (''sys'', ''claim'')) (mem_of (claim_objects prod_target))) = None"
    by code_simp
  then have run: "run_state (ReconcileClaim ?api (''sys'', ''claim'')) (mem_of (claim_objects prod_target)) = (None, s')"
    unfolding s'_def by (metis prod.collapse)
  have st: "mem_objs (mem_of (claim_objects prod_target)) (k_self ?api) KServiceClaim (''sys'', ''claim'') = Some (OServiceClaim ?c)"
    by code_simp
  have props: "\<not> om_deletion (sc_meta ?c)" "scst_State (sc_Status ?c) \<noteq> ClaimResolved" by (simp_all add: claim_of_def)
  have vs: "om_resourceVersion (rs_meta rs) \<noteq> ''''"
    if "mem_objs (mem_of (claim_objects prod_target)) (k_self ?api) KRegisteredService k = Some (ORegisteredService rs)" for k rs
    using mem_objs_in [OF that] by (auto simp: claim_objects_def mem_of_def db_service_def)
  have facts: "map_option (\<lambda>c. scst_State (sc_Status c)) (claim_in s' (''sys'', ''claim'')) = Some ClaimPending"
    "map_option rs_State (service_in s' (''sys'', ''db'')) \<noteq> Some RSAvailable"
    "map_option rs_State (service_in (mem_of (claim_objects prod_target)) (''sys'', ''db'')) = Some RSAvailable"
    unfolding s'_def by code_simp+
  let ?k = "(''sys'', ''db'')"
  have "mem_objs s' (k_self ?api) KRegisteredService ?k = mem_objs (mem_of (claim_objects prod_target)) (k_self ?api) KRegisteredService ?k \<or>
    (\<exists>rs v. mem_objs (mem_of (claim_objects prod_target)) (k_self ?api) KRegisteredService ?k = Some (ORegisteredService rs) \<and>
       candidate (mem_objs (mem_of (claim_objects prod_target))) (k_self ?api) ?c rs \<and>
       mem_objs s' (k_self ?api) KRegisteredService ?k = Some (ORegisteredService
         (rs\<lparr>rs_meta := (rs_meta rs)\<lparr>om_resourceVersion := v\<rparr>, rs_State := RSClaimed\<rparr>)))"
    by (rule ReconcileClaim_touches_candidates [OF mem.kube_store_axioms, OF run st props]) (rule vs)
  with facts(2,3)
  have "\<exists>rs'. mem_objs s' 0 KRegisteredService (''sys'', ''db'') = Some (ORegisteredService rs') \<and> rs_State rs' = RSClaimed"
    by (auto simp: service_in_def)
  with run facts(1) show ?thesis by blast
qed

subsection \<open>Deletion\<close>

text \<open>What the deletion of a claim asks of a service: its identity includes the claim's, and it has no
  constraints or they admit the claim's environment tag (never the environment of its application).\<close>

definition deletion_match :: "ServiceClaim \<Rightarrow> RegisteredService \<Rightarrow> bool" where
  "deletion_match sc rs =
     (mset (scsp_ServiceClassIdentity (sc_Spec sc)) \<subseteq># mset (rssp_ServiceClassIdentity (rs_Spec rs)) \<and>
      (\<forall>es. rssp_Constraints (rs_Spec rs) = Some es \<longrightarrow>
         (\<exists>t. scsp_Target (sc_Spec sc) = Some t \<and> Match (sct_EnvironmentTag t) es)))"

lemma find_bound_find: "find_bound sc rsl = Inr found \<Longrightarrow> found = find (deletion_match sc) rsl"
  by (induction sc rsl rule: find_bound.induct)
    (auto simp: checkSCISubset_iff deletion_match_def split: if_splits option.splits)


text \<open>\<open>released f g c sc found\<close>: from \<open>f\<close> to \<open>g\<close> no service changes but \<open>found\<close>, which becomes available.\<close>

definition released :: "objects \<Rightarrow> objects \<Rightarrow> cluster \<Rightarrow> RegisteredService option \<Rightarrow> bool" where
  "released f g c found =
     (case found of
        None \<Rightarrow> \<forall>k. g c KRegisteredService k = f c KRegisteredService k
      | Some rs \<Rightarrow>
          f c KRegisteredService (meta_key (rs_meta rs)) = Some (ORegisteredService rs) \<and>
          (\<exists>v. g c KRegisteredService (meta_key (rs_meta rs)) = Some (ORegisteredService
             (rs\<lparr>rs_meta := (rs_meta rs)\<lparr>om_resourceVersion := v\<rparr>, rs_State := RSAvailable\<rparr>))) \<and>
          (\<forall>k. k \<noteq> meta_key (rs_meta rs) \<longrightarrow> g c KRegisteredService k = f c KRegisteredService k))"

lemma released_keep:
  "released f g c found \<Longrightarrow> \<forall>k. h c KRegisteredService k = g c KRegisteredService k \<Longrightarrow> released f h c found"
  unfolding released_def by (cases found) (simp_all del: split_paired_All split_paired_Ex)

text \<open>The list that the server answers a deletion with, right after the claim was read; and what such a list
  holds: every registered service of the namespace once.\<close>

definition deletion_list :: "'s kube \<Rightarrow> nsname \<Rightarrow> 's \<Rightarrow> RegisteredService list" where
  "deletion_list api k s =
     (case fst (run_state (k_list api (k_self api) KRegisteredService (fst k) [])
        (snd (run_state (k_get api (k_self api) KServiceClaim k) s))) of
        Inl _ \<Rightarrow> [] | Inr xs \<Rightarrow> services_of xs)"

definition listed_services :: "objects \<Rightarrow> cluster \<Rightarrow> string \<Rightarrow> RegisteredService list \<Rightarrow> bool" where
  "listed_services f c ns items =
     (distinct (map (\<lambda>rs. meta_key (rs_meta rs)) items) \<and>
      set items = {rs. \<exists>k. (ns = '''' \<or> fst k = ns) \<and> f c KRegisteredService k = Some (ORegisteredService rs)})"

context kube_store
begin

lemma modifies_delete_bindings [frame_intros]:
  "modifies objs (of_kinds {KServiceBinding}) (DeleteServiceBindingAndSecretFromNamespaces api cli sc nss)"
  unfolding DeleteServiceBindingAndSecretFromNamespaces_def by (intro frame_intros) simp

lemma modifies_delete_envs [frame_intros]:
  "modifies objs (of_kinds {KServiceBinding}) (delete_envs_loop api sc tag ces)"
proof (induction ces)
  case (Cons ce ces)
  then show ?case by (auto intro!: frame_intros split: sum.split)
qed (simp add: modifies_ret)

lemma modifies_DeleteServiceBindingsAndSecret [frame_intros]:
  "modifies objs (of_kinds {KServiceBinding}) (DeleteServiceBindingsAndSecret api sc)"
  unfolding DeleteServiceBindingsAndSecret_def by (auto intro!: frame_intros split: sum.split option.split)

text \<open>The list that the deletion goes through: what the namespace holds, or nothing when the server knows
  no registered services.\<close>

lemma deletion_items:
  assumes "run_state (k_list api (k_self api) KRegisteredService ns []) s = (l, s')"
    and "\<And>e. l = Inl e \<Longrightarrow> IsNotFound e"
  shows "listed_services (objs s) (k_self api) ns
    (case map_items services_of l of Inl _ \<Rightarrow> [] | Inr rss \<Rightarrow> rss)"
proof (cases l)
  case (Inl e)
  from list_missing [OF assms(1) [unfolded Inl] assms(2) [OF Inl]] Inl show ?thesis
    by (simp add: listed_services_def map_items_def)
next
  case (Inr xs)
  from list_found [OF assms(1) [unfolded Inr]] have xs: "distinct (map obj_key xs)"
    "set xs = {x. \<exists>k. objs s (k_self api) KRegisteredService k = Some x \<and> (ns = '''' \<or> fst k = ns) \<and>
       labels_match [] (obj_meta x)}" by auto
  have "set (services_of xs) = {rs. \<exists>k. (ns = '''' \<or> fst k = ns) \<and>
      objs s (k_self api) KRegisteredService k = Some (ORegisteredService rs)}"
    using xs(2) by (auto simp: services_of_in)
  with distinct_service_keys [OF xs(1)] Inr show ?thesis by (simp add: listed_services_def map_items_def)
qed

text \<open>A deletion without an error releases the first listed service that matches the claim, and no other.\<close>

lemma processClaimMarkedForDeletion_ok:
  assumes run: "run_state (processClaimMarkedForDeletion api ns sc) s = (None, s')"
  shows "(\<forall>k. objs s' (k_self api) KServiceClaim k = objs s (k_self api) KServiceClaim k) \<and>
    (\<exists>items. items = (case fst (run_state (k_list api (k_self api) KRegisteredService ns []) s) of
         Inl _ \<Rightarrow> [] | Inr xs \<Rightarrow> services_of xs) \<and>
       listed_services (objs s) (k_self api) ns items \<and>
       released (objs s) (objs s') (k_self api) (find (deletion_match sc) items))"
proof -
  let ?self = "k_self api"
  obtain l s1 where l: "run_state (k_list api ?self KRegisteredService ns []) s = (l, s1)" by (metis prod.collapse)
  let ?items = "case map_items services_of l of Inl _ \<Rightarrow> [] | Inr rss \<Rightarrow> rss"
  have answer: "?items = (case fst (run_state (k_list api ?self KRegisteredService ns []) s) of
      Inl _ \<Rightarrow> [] | Inr xs \<Rightarrow> services_of xs)" by (simp add: l map_items_def split: sum.split)
  have s1: "objs s1 = objs s" by (rule list_reads [OF l])
  from run l obtain found where found: "find_bound sc ?items = Inr found"
    by (auto simp: processClaimMarkedForDeletion_def Let_def split: sum.splits)
  note first = find_bound_find [OF found]
  obtain d s2 where d: "run_state (DeleteServiceBindingsAndSecret api sc) s1 = (d, s2)" by (metis prod.collapse)
  from run l found d have dN: "d = None"
    by (auto simp: processClaimMarkedForDeletion_def Let_def split: if_splits option.splits prod.splits)
  have "IsNotFound e" if "l = Inl e" for e
    using run l found d dN that
    by (auto simp: processClaimMarkedForDeletion_def Let_def IgnoreNotFound_None_iff split: option.splits prod.splits)
  from deletion_items [OF l this] have items: "listed_services (objs s) ?self ns ?items" .
  note f2 = modifies_run [OF modifies_DeleteServiceBindingsAndSecret d]
  have same2: "objs s2 c k n = objs s c k n" if "k \<noteq> KServiceBinding" for c k n
    using same_but_of_kinds [OF f2] s1 that by simp
  show ?thesis
  proof (cases found)
    case None
    with run l found d dN have "s' = s2"
      by (auto simp: processClaimMarkedForDeletion_def Let_def)
    with same2 first None have "released (objs s) (objs s') ?self (find (deletion_match sc) ?items)"
      by (simp add: released_def)
    with \<open>s' = s2\<close> same2 items show ?thesis by (intro conjI exI [of _ ?items] answer) simp_all
  next
    case (Some rs)
    with run l found d dN have c: "run_state (changeServiceState api rs RSAvailable) s2 = (None, s')"
      by (auto simp: processClaimMarkedForDeletion_def Let_def split: prod.splits)
    from first Some have "rs \<in> set ?items" by (intro find_Some_in) simp
    with items obtain k where k: "objs s ?self KRegisteredService k = Some (ORegisteredService rs)"
      by (auto simp: listed_services_def)
    from keyed [OF k] k have rs: "objs s ?self KRegisteredService (meta_key (rs_meta rs)) = Some (ORegisteredService rs)"
      by (simp add: obj_key_def)
    have "modifies objs {(?self, KRegisteredService, meta_key (rs_meta rs))} (changeServiceState api rs RSAvailable)"
      by (intro frame_intros) simp
    note f3 = modifies_run [OF this c]
    have "objs s2 ?self KRegisteredService (meta_key (rs_meta rs)) = Some (ORegisteredService rs)" using rs same2 by simp
    from changeServiceState_ok [OF c this] obtain v where v:
      "objs s' ?self KRegisteredService (meta_key (rs_meta rs)) = Some (ORegisteredService
        (rs\<lparr>rs_meta := (rs_meta rs)\<lparr>om_resourceVersion := v\<rparr>, rs_State := RSAvailable\<rparr>))" by blast
    have other: "\<forall>k. k \<noteq> meta_key (rs_meta rs) \<longrightarrow> objs s' ?self KRegisteredService k = objs s ?self KRegisteredService k"
      using f3 same2 by (simp add: same_but_def)
    have claims: "\<forall>k. objs s' ?self KServiceClaim k = objs s ?self KServiceClaim k"
      using f3 same2 by (simp add: same_but_def)
    from v have "\<exists>v. objs s' ?self KRegisteredService (meta_key (rs_meta rs)) = Some (ORegisteredService
        (rs\<lparr>rs_meta := (rs_meta rs)\<lparr>om_resourceVersion := v\<rparr>, rs_State := RSAvailable\<rparr>))" by blast
    with rs other have "released (objs s) (objs s') ?self (Some rs)"
      unfolding released_def option.case by (intro conjI)
    with first Some have "released (objs s) (objs s') ?self (find (deletion_match sc) ?items)" by simp
    with items claims show ?thesis by (intro conjI exI [of _ ?items] answer) simp_all
  qed
qed

end

text \<open>What the reconciliation of a claim marked for deletion does to claims and services.\<close>

lemma reconciled_deletion:
  assumes "kube_store api objs"
    and "run_state (ReconcileClaim api (ns, n)) s = (None, s')"
    and "objs s (k_self api) KServiceClaim (ns, n) = Some (OServiceClaim sc)"
    and "om_deletion (sc_meta sc)" and "ServiceClaimFinalizer \<in> set (om_finalizers (sc_meta sc))"
  shows "(objs s' (k_self api) KServiceClaim (ns, n) = None \<or>
      (\<exists>sc'. objs s' (k_self api) KServiceClaim (ns, n) = Some (OServiceClaim sc') \<and>
         ServiceClaimFinalizer \<notin> set (om_finalizers (sc_meta sc')))) \<and>
    (\<forall>k. k \<noteq> (ns, n) \<longrightarrow> objs s' (k_self api) KServiceClaim k = objs s (k_self api) KServiceClaim k) \<and>
    listed_services (objs s) (k_self api) ns (deletion_list api (ns, n) s) \<and>
    released (objs s) (objs s') (k_self api) (find (deletion_match sc) (deletion_list api (ns, n) s))"
proof -
  obtain g s1 where g: "run_state (get_claim api (k_self api) (ns, n)) s = (g, s1)" by (metis prod.collapse)
  have s1: "objs s1 = objs s" by (rule reads_only [OF kube_store.modifies_get_claim [OF assms(1)] g])
  have gsc: "g = Inr sc"
  proof (cases g)
    case (Inl e)
    with assms(2) g have "IsNotFound e" by (simp add: ReconcileClaim_def IgnoreNotFound_None_iff)
    with kube_store.get_claim_missing [OF assms(1), OF g [unfolded Inl]] assms(3) show ?thesis by simp
  next
    case (Inr x)
    with kube_store.get_claim_found [OF assms(1), OF g [unfolded Inr]] assms(3) show ?thesis by simp
  qed
  let ?m = "(sc_meta sc)\<lparr>om_finalizers := remove_finalizers ServiceClaimFinalizer (om_finalizers (sc_meta sc))\<rparr>"
  from assms(2,4,5) g gsc obtain s2 z where
    p: "run_state (processClaimMarkedForDeletion api ns sc) s1 = (None, s2)" and
    w: "run_state (write_claim (k_update api (k_self api)) (sc\<lparr>sc_meta := ?m\<rparr>)) s2 = ((None, z), s')"
    by (auto simp: ReconcileClaim_def finalize_claim_def ContainsFinalizer_def RemoveFinalizer_def
        split: prod.splits option.splits)
  have "snd (run_state (k_get api (k_self api) KServiceClaim (ns, n)) s) = s1"
    using arg_cong [OF g, of snd] by (simp add: get_claim_def split: prod.splits)
  then have answer: "deletion_list api (ns, n) s =
      (case fst (run_state (k_list api (k_self api) KRegisteredService ns []) s1) of Inl _ \<Rightarrow> [] | Inr xs \<Rightarrow> services_of xs)"
    by (simp add: deletion_list_def)
  note del = kube_store.processClaimMarkedForDeletion_ok [OF assms(1), OF p, folded answer]
  from w obtain y where u: "run_state (k_update api (k_self api) (OServiceClaim (sc\<lparr>sc_meta := ?m\<rparr>))) s2 = (Inr y, s')"
    by (auto simp: write_claim_def split: prod.splits sum.splits)
  from kube_store.keyed [OF assms(1), OF assms(3)] have key: "meta_key (sc_meta sc) = (ns, n)" by (simp add: obj_key_def)
  then have key': "obj_key (OServiceClaim (sc\<lparr>sc_meta := ?m\<rparr>)) = (ns, n)" by (simp add: obj_key_def meta_key_def)
  have gone: "ServiceClaimFinalizer \<notin> set (remove_finalizers ServiceClaimFinalizer fs)" for fs
    by (induction fs) auto
  have s2: "objs s2 (k_self api) KServiceClaim (ns, n) = Some (OServiceClaim sc)" using del s1 assms(3) by simp
  from kube_store.update_ok [OF assms(1), OF u, unfolded key'] s2 obtain v b where
    "objs s' (k_self api) KServiceClaim (ns, n) =
      (if b then None else Some (written (OServiceClaim sc) v (OServiceClaim (sc\<lparr>sc_meta := ?m\<rparr>))))" by auto
  with gone have "objs s' (k_self api) KServiceClaim (ns, n) = None \<or>
      (\<exists>sc'. objs s' (k_self api) KServiceClaim (ns, n) = Some (OServiceClaim sc') \<and>
         ServiceClaimFinalizer \<notin> set (om_finalizers (sc_meta sc')))"
    by (cases b) (simp_all add: written_def keep_server_fields_def set_version_def)
  moreover have "\<forall>k. objs s' (k_self api) KRegisteredService k = objs s2 (k_self api) KRegisteredService k"
    using kube_store.update_others [OF assms(1), OF u] by (simp add: same_but_def)
  with del s1 have "released (objs s) (objs s') (k_self api) (find (deletion_match sc) (deletion_list api (ns, n) s))"
    by (auto intro: released_keep simp del: split_paired_All)
  moreover have "\<forall>k. k \<noteq> (ns, n) \<longrightarrow> objs s' (k_self api) KServiceClaim k = objs s2 (k_self api) KServiceClaim k"
    using kube_store.update_others [OF assms(1), OF u, unfolded key'] by (simp add: same_but_def)
  ultimately show ?thesis using del s1 by (simp del: split_paired_All split_paired_Ex)
qed

text \<open>C36: When a claim that is marked for deletion and still has its finalizer is reconciled without an error,
  the finalizer is taken away (or the claim is gone), every other claim stays as it is, and of the
  registered services exactly one becomes available, if one matches: the first, in the list that the
  server answers with after the claim is read (every registered service of the namespace, once), whose
  class identity includes the claim's and that has no constraints or constraints which admit the claim's
  environment tag, whether or not the claim is bound to it. Nothing of it but its state and version
  changes, every other registered service stays exactly as it is, and when none matches, all of them do.\<close>

theorem ReconcileClaim_deletes:
  assumes "kube_store api objs"
    and "run_state (ReconcileClaim api (ns, n)) s = (None, s')"
    and "objs s (k_self api) KServiceClaim (ns, n) = Some (OServiceClaim sc)"
    and "om_deletion (sc_meta sc)" and "ServiceClaimFinalizer \<in> set (om_finalizers (sc_meta sc))"
  shows "(objs s' (k_self api) KServiceClaim (ns, n) = None \<or>
      (\<exists>sc'. objs s' (k_self api) KServiceClaim (ns, n) = Some (OServiceClaim sc') \<and>
         ServiceClaimFinalizer \<notin> set (om_finalizers (sc_meta sc')))) \<and>
    (\<forall>k. k \<noteq> (ns, n) \<longrightarrow> objs s' (k_self api) KServiceClaim k = objs s (k_self api) KServiceClaim k) \<and>
    listed_services (objs s) (k_self api) ns (deletion_list api (ns, n) s) \<and>
    (case find (deletion_match sc) (deletion_list api (ns, n) s) of
       None \<Rightarrow> \<forall>k. objs s' (k_self api) KRegisteredService k = objs s (k_self api) KRegisteredService k
     | Some rs \<Rightarrow>
         objs s (k_self api) KRegisteredService (meta_key (rs_meta rs)) = Some (ORegisteredService rs) \<and>
         (\<exists>v. objs s' (k_self api) KRegisteredService (meta_key (rs_meta rs)) = Some (ORegisteredService
            (rs\<lparr>rs_meta := (rs_meta rs)\<lparr>om_resourceVersion := v\<rparr>, rs_State := RSAvailable\<rparr>))) \<and>
         (\<forall>k. k \<noteq> meta_key (rs_meta rs) \<longrightarrow>
            objs s' (k_self api) KRegisteredService k = objs s (k_self api) KRegisteredService k))"
  using reconciled_deletion [OF assms] unfolding released_def .

text \<open>Two services match; the claim is bound to the second one, and the first one is released.\<close>

definition bound_claim :: ServiceClaim where
  "bound_claim = (claim_of ''claim'' prod_target)
     \<lparr>sc_meta := (new_meta ''sys'' ''claim'')\<lparr>om_resourceVersion := ''1'', om_deletion := True,
        om_finalizers := [ServiceClaimFinalizer]\<rparr>,
      sc_Status := \<lparr>scst_State = ClaimResolved, scst_ClaimID = ''id'',
        scst_RegisteredService = Some \<lparr>ref_Name = ''db2'', ref_UID = ''u-db2''\<rparr>, scst_Conditions = []\<rparr>\<rparr>"

definition deletion_state :: mem where
  "deletion_state = mem_of [(0, OServiceClaim bound_claim), (0, ORegisteredService (db_service ''db1'' RSClaimed)),
     (0, ORegisteredService (db_service ''db2'' RSClaimed))]"

theorem ReconcileClaim_deletes_witness:
  "\<exists>s'. run_state (ReconcileClaim (mem_api [] 0) (''sys'', ''claim'')) deletion_state = (None, s') \<and>
     map_option rs_State (service_in s' (''sys'', ''db1'')) = Some RSAvailable \<and>
     map_option rs_State (service_in s' (''sys'', ''db2'')) = Some RSClaimed \<and>
     (mem_objs s' 0 KServiceClaim (''sys'', ''claim'') = None \<or>
      (\<exists>sc'. mem_objs s' 0 KServiceClaim (''sys'', ''claim'') = Some (OServiceClaim sc') \<and>
         ServiceClaimFinalizer \<notin> set (om_finalizers (sc_meta sc'))))"
proof -
  let ?api = "mem_api [] 0"
  define s' where "s' = snd (run_state (ReconcileClaim ?api (''sys'', ''claim'')) deletion_state)"
  have "fst (run_state (ReconcileClaim ?api (''sys'', ''claim'')) deletion_state) = None" by code_simp
  then have run: "run_state (ReconcileClaim ?api (''sys'', ''claim'')) deletion_state = (None, s')"
    unfolding s'_def by (metis prod.collapse)
  have st: "mem_objs deletion_state (k_self ?api) KServiceClaim (''sys'', ''claim'') = Some (OServiceClaim bound_claim)"
    by code_simp
  have props: "om_deletion (sc_meta bound_claim)" "ServiceClaimFinalizer \<in> set (om_finalizers (sc_meta bound_claim))"
    by (simp_all add: bound_claim_def)
  have facts: "map_option rs_State (service_in s' (''sys'', ''db1'')) = Some RSAvailable"
    "map_option rs_State (service_in s' (''sys'', ''db2'')) = Some RSClaimed"
    unfolding s'_def by code_simp+
  from ReconcileClaim_deletes [OF mem.kube_store_axioms, OF run st props] run facts show ?thesis by simp
qed

end
