(* ===== verification/Informers.thy ===== *)
theory Informers
  imports Controlplane Clustercontext
begin

section \<open>The informers of the control plane\<close>

text \<open>
  \<^verbatim>\<open>controllers/clusterenvironment\_controller\_svcinformers.go\<close> and
  \<^verbatim>\<open>...\_appinformers.go\<close>: with the Pull strategy the control plane watches the registered services and
  the service claims of the worker clusters. The maps \<^verbatim>\<open>svcInformers\<close> and \<^verbatim>\<open>appInformers\<close> are lists of
  their keys. What the code calls of client-go to start an informer is a record of functions, of which
  it uses that they succeed or return an error. The error a handler logs is its result.
\<close>

subsection \<open>Starting an informer\<close>

text \<open>
  \<^verbatim>\<open>dynamic.NewForConfig\<close>, \<^verbatim>\<open>apiutil.GVKForObject\<close> (group, version and kind), \<^verbatim>\<open>RESTMapping\<close>,
  \<^verbatim>\<open>AddEventHandler\<close> on the informer of a resource in a namespace, and running that informer until
  \<^verbatim>\<open>WaitForCacheSync\<close> returns.
\<close>

record 's informer_lib =
  il_dynamic :: "string \<Rightarrow> err option"
  il_gvk :: "okind \<Rightarrow> err + string \<times> string \<times> string"
  il_mapping :: "string \<times> string \<times> string \<Rightarrow> err + string"
  il_handlers :: "string \<Rightarrow> string \<Rightarrow> err option"
  il_sync :: "string \<Rightarrow> string \<Rightarrow> ('s, bool) state"

definition informer_resource :: "'s informer_lib \<Rightarrow> okind \<Rightarrow> string \<Rightarrow> err + string" where
  "informer_resource lib kind config =
     (case il_dynamic lib config of
        Some e \<Rightarrow> Inl e
      | None \<Rightarrow>
          (case il_gvk lib kind of
             Inl e \<Rightarrow> Inl e
           | Inr gvk \<Rightarrow> il_mapping lib gvk))"

definition run_and_sync :: "'s informer_lib \<Rightarrow> string \<Rightarrow> string \<Rightarrow> ('s, err option) state" where
  "run_and_sync lib resource namespace =
     (case il_handlers lib resource namespace of
        Some e \<Rightarrow> ret (Some e)
      | None \<Rightarrow> do {
          synced \<leftarrow> il_sync lib resource namespace;
          ret (if \<not> synced then Some (Plain ''could not sync cache'') else None) })"

definition start_informer :: "'s informer_lib \<Rightarrow> okind \<Rightarrow> string \<Rightarrow> string \<Rightarrow> ('s, err option) state" where
  "start_informer lib kind config namespace =
     (case informer_resource lib kind config of
        Inl e \<Rightarrow> ret (Some e)
      | Inr resource \<Rightarrow> run_and_sync lib resource namespace)"

subsection \<open>Which namespaces are watched\<close>

definition informer_key :: "string \<Rightarrow> string \<Rightarrow> string" where
  "informer_key ceName namespace = ceName @ ''/'' @ namespace"

text \<open>The key that is entered before the cache is synced is deleted again when that fails.\<close>

definition RunInformer ::
  "(string \<Rightarrow> ('s, err option) state) \<Rightarrow> string \<Rightarrow> string \<Rightarrow> string list \<Rightarrow>
     ('s, err option \<times> string list) state" where
  "RunInformer start ceName namespace running =
     (let key = informer_key ceName namespace
      in if key \<in> set running then ret (None, running)
         else do {
           r \<leftarrow> start namespace;
           ret (case r of Some e \<Rightarrow> (Some e, running) | None \<Rightarrow> (None, key # running)) })"

definition RunSvcInformer ::
  "'s informer_lib \<Rightarrow> string \<Rightarrow> string \<Rightarrow> string \<Rightarrow> string list \<Rightarrow> ('s, err option \<times> string list) state" where
  "RunSvcInformer lib config ceName namespace running =
     RunInformer (start_informer lib KRegisteredService config) ceName namespace running"

definition RunAppInformer ::
  "'s informer_lib \<Rightarrow> string \<Rightarrow> string \<Rightarrow> string \<Rightarrow> string list \<Rightarrow> ('s, err option \<times> string list) state" where
  "RunAppInformer lib config ceName namespace running =
     RunInformer (start_informer lib KServiceClaim config) ceName namespace running"

fun run_each ::
  "(string \<Rightarrow> string list \<Rightarrow> ('s, err option \<times> string list) state) \<Rightarrow> string list \<Rightarrow> string list \<Rightarrow>
     ('s, err list \<times> string list) state" where
  "run_each run running [] = ret ([], running)"
| "run_each run running (n # ns) = do {
     (r, running1) \<leftarrow> run n running;
     (es, running2) \<leftarrow> run_each run running1 ns;
     ret (opt_list r @ es, running2) }"

text \<open>
  The code of the two files is the same: the namespaces to watch are the declared ones without those
  that failed; the informers to stop are the running keys that are not among them.
\<close>

definition run_informers ::
  "'s kube \<Rightarrow> (string \<Rightarrow> string list \<Rightarrow> ('s, err option \<times> string list) state) \<Rightarrow> string list \<Rightarrow> string list \<Rightarrow> string list \<Rightarrow>
     ('s, err option \<times> string list) state" where
  "run_informers api run declared failed running = do {
     let snn = delete_keys (insert_keys [] declared) failed;
     let d = delete_keys (insert_keys [] running) snn;
     let running1 = filter (\<lambda>k. k \<notin> set d) running;
     (es, running2) \<leftarrow> run_each run running1 (k_range api snn);
     ret (errors_Join es, running2) }"

definition RunSvcInformers ::
  "'s kube \<Rightarrow> 's informer_lib \<Rightarrow> string \<Rightarrow> ClusterEnvironment \<Rightarrow> string list \<Rightarrow> string list \<Rightarrow>
     ('s, err option \<times> string list) state" where
  "RunSvcInformers api lib cfg ce failedServiceNamespaces svcInformers =
     run_informers api (RunSvcInformer lib cfg (om_name (ce_meta ce))) (cesp_ServiceNamespaces (ce_Spec ce))
       failedServiceNamespaces svcInformers"

definition RunAppInformers ::
  "'s kube \<Rightarrow> 's informer_lib \<Rightarrow> string \<Rightarrow> ClusterEnvironment \<Rightarrow> string list \<Rightarrow> string list \<Rightarrow>
     ('s, err option \<times> string list) state" where
  "RunAppInformers api lib cfg ce failedApplicationNamespaces appInformers =
     run_informers api (RunAppInformer lib cfg (om_name (ce_meta ce))) (cesp_ApplicationNamespaces (ce_Spec ce))
       failedApplicationNamespaces appInformers"

subsection \<open>Registered services\<close>

text \<open>
  A handler is given the watched object, or something else (a deletion that was missed). The conversion
  \<^verbatim>\<open>FromUnstructured\<close> is a parameter.
\<close>

datatype watched = Watched Unstructured | NotUnstructured

definition parseRegisteredService ::
  "(Unstructured \<Rightarrow> err + RegisteredService) \<Rightarrow> watched \<Rightarrow> err + RegisteredService" where
  "parseRegisteredService from_unstructured x =
     (case x of
        NotUnstructured \<Rightarrow> Inl (Plain ''obj is not an instance of unstructured.Unstructured'')
      | Watched u \<Rightarrow> from_unstructured u)"

definition bakeClient :: "'s kube \<Rightarrow> string \<Rightarrow> string \<Rightarrow> ('s, err + cluster) state" where
  "bakeClient api ceName ceNamespace = do {
     g \<leftarrow> get_env api (k_self api) (ceNamespace, ceName);
     case g of
       Inl e \<Rightarrow> ret (Inl e)
     | Inr ce \<Rightarrow> CreateClient api ce }"

definition empty_service :: "string \<Rightarrow> string \<Rightarrow> RegisteredService" where
  "empty_service ns n =
     \<lparr>rs_meta = new_meta ns n,
      rs_Spec = \<lparr>rssp_Constraints = None, rssp_HealthCheck = None, rssp_SLA = '''',
        rssp_ServiceClassIdentity = [], rssp_ServiceEndpointDefinition = []\<rparr>,
      rs_State = RSUnset\<rparr>"

definition copy_service :: "RegisteredService \<Rightarrow> obj \<Rightarrow> err + obj" where
  "copy_service rs x =
     (case x of
        ORegisteredService c \<Rightarrow> Inr (ORegisteredService
          (c\<lparr>rs_meta := (rs_meta c)\<lparr>om_annotations := om_annotations (rs_meta rs), om_labels := om_labels (rs_meta rs)\<rparr>,
             rs_Spec := rs_Spec rs\<rparr>))
      | _ \<Rightarrow> Inl decode_err)"

definition copy_data :: "Secret \<Rightarrow> obj \<Rightarrow> err + obj" where
  "copy_data s x = (case x of OSecret c \<Rightarrow> Inr (OSecret (c\<lparr>sec_Data := sec_Data s\<rparr>)) | _ \<Rightarrow> Inl decode_err)"

definition empty_secret :: "string \<Rightarrow> string \<Rightarrow> Secret" where
  "empty_secret ns n = \<lparr>sec_meta = new_meta ns n, sec_Data = [], sec_StringData = []\<rparr>"

definition createUpdate :: "'s kube \<Rightarrow> RegisteredService \<Rightarrow> string \<Rightarrow> string \<Rightarrow> ('s, err option) state" where
  "createUpdate api rs ceName ceNamespace = do {
     (r, _) \<leftarrow> CreateOrUpdate api (k_self api) (ORegisteredService (empty_service ceNamespace (om_name (rs_meta rs))))
                (copy_service rs);
     case r of
       Inl e \<Rightarrow> ret (Some e)
     | Inr _ \<Rightarrow> do {
         c \<leftarrow> bakeClient api ceName ceNamespace;
         case c of
           Inl e \<Rightarrow> ret (Some e)
         | Inr cli \<Rightarrow> do {
             g \<leftarrow> get_secret api cli (om_namespace (rs_meta rs), om_name (rs_meta rs) @ ''-descriptor'');
             case g of
               Inl e \<Rightarrow> ret (Some e)
             | Inr s \<Rightarrow> do {
                 (q, _) \<leftarrow> CreateOrUpdate api (k_self api)
                   (OSecret (empty_secret ceNamespace (om_name (sec_meta s)))) (copy_data s);
                 ret (err_of q) } } } }"

definition service_upserted ::
  "'s kube \<Rightarrow> string \<Rightarrow> string \<Rightarrow> bool \<Rightarrow> err + RegisteredService \<Rightarrow> ('s, err option) state" where
  "service_upserted api ceName ceNamespace synced parsed =
     (case parsed of
        Inl e \<Rightarrow> ret (Some e)
      | Inr rs \<Rightarrow> if \<not> synced then ret None else createUpdate api rs ceName ceNamespace)"

definition service_deleted ::
  "'s kube \<Rightarrow> string \<Rightarrow> bool \<Rightarrow> err + RegisteredService \<Rightarrow> ('s, err option) state" where
  "service_deleted api ceNamespace synced parsed =
     (case parsed of
        Inl e \<Rightarrow> ret (Some e)
      | Inr rs \<Rightarrow>
          if \<not> synced then ret None
          else do {
            d \<leftarrow> k_delete api (k_self api) KRegisteredService (ceNamespace, om_name (rs_meta rs));
            case d of
              Some e \<Rightarrow> ret (Some e)
            | None \<Rightarrow> do {
                q \<leftarrow> k_delete api (k_self api) KSecret (ceNamespace, om_name (rs_meta rs) @ ''-descriptor'');
                ret (case q of Some e \<Rightarrow> if \<not> IsNotFound e then Some e else None | None \<Rightarrow> None) } })"

subsection \<open>Service claims\<close>

definition parseServiceClaim :: "(Unstructured \<Rightarrow> err + ServiceClaim) \<Rightarrow> watched \<Rightarrow> err + ServiceClaim" where
  "parseServiceClaim from_unstructured x =
     (case x of
        NotUnstructured \<Rightarrow> Inl (Plain ''obj is not an instance of unstructured.Unstructured'')
      | Watched u \<Rightarrow> from_unstructured u)"

definition empty_claim :: "string \<Rightarrow> string \<Rightarrow> ServiceClaim" where
  "empty_claim ns n =
     \<lparr>sc_meta = new_meta ns n,
      sc_Spec = \<lparr>scsp_ServiceClassIdentity = [], scsp_ServiceEndpointDefinitionKeys = [],
        scsp_Application = \<lparr>as_APIVersion = '''', as_Kind = '''', as_Name = '''', as_Selector = None\<rparr>,
        scsp_Target = None, scsp_Envs = []\<rparr>,
      sc_Status = \<lparr>scst_State = ClaimStateUnset, scst_ClaimID = '''', scst_RegisteredService = None, scst_Conditions = []\<rparr>\<rparr>"

definition copy_claim :: "ServiceClaim \<Rightarrow> string \<Rightarrow> string \<Rightarrow> obj \<Rightarrow> err + obj" where
  "copy_claim sc ceName namespace x =
     (case x of
        OServiceClaim c \<Rightarrow> Inr (OServiceClaim (c\<lparr>sc_Spec := (sc_Spec sc)
          \<lparr>scsp_Target := Some \<lparr>sct_EnvironmentTag = '''', sct_ApplicationClusterContext =
             Some \<lparr>acc_ClusterEnvironmentName = ceName, acc_Namespace = namespace\<rparr>\<rparr>\<rparr>\<rparr>))
      | _ \<Rightarrow> Inl decode_err)"

definition claim_added ::
  "'s kube \<Rightarrow> ClusterEnvironment \<Rightarrow> string \<Rightarrow> bool \<Rightarrow> err + ServiceClaim \<Rightarrow> ('s, err option) state" where
  "claim_added api ce namespace synced parsed =
     (if \<not> synced then ret None
      else case parsed of
        Inl e \<Rightarrow> ret (Some e)
      | Inr sc \<Rightarrow>
          if (case scsp_Target (sc_Spec sc) of Some t \<Rightarrow> sct_EnvironmentTag t \<noteq> '''' | None \<Rightarrow> False) then ret None
          else do {
            (r, _) \<leftarrow> CreateOrUpdate api (k_self api)
              (OServiceClaim (empty_claim (om_namespace (ce_meta ce)) (om_name (sc_meta sc))))
              (copy_claim sc (om_name (ce_meta ce)) namespace);
            ret (err_of r) })"

definition claim_deleted ::
  "'s kube \<Rightarrow> ClusterEnvironment \<Rightarrow> bool \<Rightarrow> err + ServiceClaim \<Rightarrow> ('s, err option) state" where
  "claim_deleted api ce synced parsed =
     (if \<not> synced then ret None
      else case parsed of
        Inl e \<Rightarrow> ret (Some e)
      | Inr sc \<Rightarrow> k_delete api (k_self api) KServiceClaim (om_namespace (ce_meta ce), om_name (sc_meta sc)))"

end
