(* ===== verification/ClusterEnvironment_Ctrl.thy ===== *)
theory ClusterEnvironment_Ctrl
  imports Informers Envtag
begin

section \<open>The cluster environment controller: \<^verbatim>\<open>controllers/clusterenvironment\_controller.go\<close>\<close>

text \<open>
  A cluster environment names a worker cluster through its context secret. Each reconciliation tests
  the connection and the permissions, binds and unbinds namespaces, and pushes service classes,
  service bindings and the service catalog; a health monitor repeats the tests for all environments.
  The environment is passed by pointer: every operation that writes it returns what it holds.
\<close>

definition clusterEnvironmentFinalizer :: string where
  "clusterEnvironmentFinalizer = ''clusterenvironment.primaza.io/finalizer''"

definition environment_gvk :: "string \<times> string" where
  "environment_gvk = (''primaza.io/v1alpha1'', ''ClusterEnvironment'')"

record ReconcilerConfig =
  cfg_ControlPlaneNamespace :: string
  cfg_AppAgentImage :: string
  cfg_SvcAgentImage :: string
  cfg_AppAgentManifest :: string
  cfg_SvcAgentManifest :: string
  cfg_AppAgentConfigManifest :: string
  cfg_SvcAgentConfigManifest :: string

definition as_env :: "ClusterEnvironment \<Rightarrow> obj \<Rightarrow> ClusterEnvironment" where
  "as_env c x = (case x of OClusterEnvironment c' \<Rightarrow> c' | _ \<Rightarrow> c)"

definition write_env ::
  "(obj \<Rightarrow> ('s, err + obj) state) \<Rightarrow> ClusterEnvironment \<Rightarrow> ('s, err option \<times> ClusterEnvironment) state" where
  "write_env put ce = do {
     r \<leftarrow> put (OClusterEnvironment ce);
     ret (case r of Inl e \<Rightarrow> (Some e, ce) | Inr x \<Rightarrow> (None, as_env ce x)) }"

definition put_status :: "'s kube \<Rightarrow> ClusterEnvironment \<Rightarrow> ('s, err option \<times> ClusterEnvironment) state" where
  "put_status api ce = write_env (k_status_update api (k_self api)) ce"

subsection \<open>Status and conditions\<close>

definition set_condition :: "'s kube \<Rightarrow> ClusterEnvironment \<Rightarrow> condition \<Rightarrow> ('s, ClusterEnvironment) state" where
  "set_condition api ce c = do {
     now \<leftarrow> k_now api;
     ret (ce\<lparr>ce_Conditions := SetStatusCondition now c (ce_Conditions ce)\<rparr>) }"

definition updateClusterEnvironmentStatus ::
  "'s kube \<Rightarrow> ClusterEnvironment \<Rightarrow> ConnectionStatus \<Rightarrow> ('s, ClusterEnvironment) state" where
  "updateClusterEnvironmentStatus api ce cs =
     set_condition api (ce\<lparr>ce_State := cs_State cs\<rparr>) (Condition cs)"

definition offline :: "ConnectionStatusReason \<Rightarrow> string \<Rightarrow> ConnectionStatus" where
  "offline reason msg = \<lparr>cs_State = CEOffline, cs_Reason = reason, cs_Message = msg\<rparr>"

text \<open>\<^verbatim>\<open>updateClusterEnvironmentStatus\<close> followed by \<^verbatim>\<open>Status().Update\<close>.\<close>

definition report_offline ::
  "'s kube \<Rightarrow> ClusterEnvironment \<Rightarrow> ConnectionStatusReason \<Rightarrow> string \<Rightarrow> ('s, err option \<times> ClusterEnvironment) state" where
  "report_offline api ce reason msg = do {
     ce1 \<leftarrow> updateClusterEnvironmentStatus api ce (offline reason msg);
     put_status api ce1 }"

definition bare_condition :: "string \<Rightarrow> condition_status \<Rightarrow> string \<Rightarrow> string \<Rightarrow> condition" where
  "bare_condition ty st reason msg =
     \<lparr>co_type = ty, co_status = st, co_observedGeneration = 0, co_lastTransitionTime = 0,
      co_reason = reason, co_message = msg\<rparr>"

fun namespaceType_string :: "NamespaceType \<Rightarrow> string" where
  "namespaceType_string ApplicationNamespaceType = ''Application''"
| "namespaceType_string ServiceNamespaceType = ''Service''"

definition permissionRequiredReason :: "NamespaceType \<Rightarrow> string" where
  "permissionRequiredReason t = namespaceType_string t @ ''NamespacePermissionsRequired''"

definition buildPermissionCondition :: "NamespaceType \<Rightarrow> string list \<Rightarrow> condition" where
  "buildPermissionCondition nsType failedNamespaces =
     (if length failedNamespaces > 0
      then bare_condition (permissionRequiredReason nsType) CondTrue ''PermissionsNotGranted''
             (''namespaces missing required permissions: '' @ show_list failedNamespaces)
      else bare_condition (permissionRequiredReason nsType) CondFalse ''PermissionsGranted''
             ''all required permissions are granted'')"

subsection \<open>The context secret\<close>

definition getClusterContextSecret ::
  "'s kube \<Rightarrow> ClusterEnvironment \<Rightarrow> ('s, (err + Secret) \<times> ClusterEnvironment) state" where
  "getClusterContextSecret api ce = do {
     r \<leftarrow> GetClusterContextSecret api ce;
     case r of
       Inr s \<Rightarrow> ret (Inr s, ce)
     | Inl e \<Rightarrow> do {
         (u, ce1) \<leftarrow> report_offline api ce ClientCreationError
                       (''error retrieving the ClusterContext secret: '' @ err_text e);
         ret (Inl (case u of Some e' \<Rightarrow> e' | None \<Rightarrow> e), ce1) } }"

text \<open>The errors of this step are logged only; the secret is what the pointer holds afterwards.\<close>

definition ensureOwnershipOfClusterContextSecret ::
  "'s kube \<Rightarrow> ClusterEnvironment \<Rightarrow> Secret \<Rightarrow> ('s, Secret) state" where
  "ensureOwnershipOfClusterContextSecret api ce s =
     (case SetControllerReference environment_gvk (ce_meta ce) (sec_meta s) of
        Inl e \<Rightarrow> ret s
      | Inr m \<Rightarrow> do {
          let s1 = s\<lparr>sec_meta := m\<rparr>;
          r \<leftarrow> k_update api (k_self api) (OSecret s1);
          ret (case r of Inl e \<Rightarrow> s1 | Inr x \<Rightarrow> as_secret s1 x) })"

definition extractClusterContextRESTConfig ::
  "'s kube \<Rightarrow> ClusterEnvironment \<Rightarrow> Secret \<Rightarrow> ('s, (err + string) \<times> ClusterEnvironment) state" where
  "extractClusterContextRESTConfig api ce s =
     (case ExtractClusterRESTConfig api s of
        Inr cfg \<Rightarrow> ret (Inr cfg, ce)
      | Inl e \<Rightarrow> do {
          (u, ce1) \<leftarrow> report_offline api ce ClientCreationError (''error creating the client: '' @ err_text e);
          ret (Inl (case u of Some e' \<Rightarrow> e' | None \<Rightarrow> e), ce1) })"

definition retrieveClusterContextSecret ::
  "'s kube \<Rightarrow> ClusterEnvironment \<Rightarrow> ('s, (err + string) \<times> ClusterEnvironment) state" where
  "retrieveClusterContextSecret api ce = do {
     (r, ce1) \<leftarrow> getClusterContextSecret api ce;
     case r of
       Inl e \<Rightarrow> ret (Inl e, ce1)
     | Inr s \<Rightarrow> do {
         s1 \<leftarrow> ensureOwnershipOfClusterContextSecret api ce1 s;
         extractClusterContextRESTConfig api ce1 s1 } }"

subsection \<open>The tests\<close>

definition testConnection ::
  "'s kube \<Rightarrow> string \<Rightarrow> ClusterEnvironment \<Rightarrow> ('s, err option \<times> ClusterEnvironment) state" where
  "testConnection api cfg ce = do {
     cr \<leftarrow> TestConnection api cfg;
     ce1 \<leftarrow> updateClusterEnvironmentStatus api ce cr;
     ret (if cs_Reason cr \<noteq> ConnectionSuccessful
          then Some (Plain ''can not connect to target cluster'') else None, ce1) }"

definition excess_step ::
  "'s kube \<Rightarrow> agentPermissionsChecker \<Rightarrow> string list \<Rightarrow> condition \<Rightarrow> ClusterEnvironment \<Rightarrow>
     ('s, err option \<times> ClusterEnvironment) state" where
  "excess_step api pc namespaces m ce = do {
     r \<leftarrow> CheckExcessPermission api pc namespaces;
     case r of
       Inl e \<Rightarrow> ret (Some e, ce)
     | Inr ep \<Rightarrow>
         if length ep > 0 then do { ce1 \<leftarrow> set_condition api ce m; ret (None, ce1) }
         else ret (None, ce) }"

definition checkExcessPermissions ::
  "'s kube \<Rightarrow> string \<Rightarrow> ClusterEnvironment \<Rightarrow> ('s, err option \<times> ClusterEnvironment) state" where
  "checkExcessPermissions api cfg ce = do {
     (e1, ce1) \<leftarrow> excess_step api (NewAgentAppPermissionsChecker cfg) (cesp_ApplicationNamespaces (ce_Spec ce))
       (bare_condition ''ExcessPermissionsInApplicationNamespaces'' CondTrue ''ExcessPermissions''
          ''More permissions than required granted for Application Namespaces'') ce;
     (e2, ce2) \<leftarrow> excess_step api (NewAgentSvcPermissionsChecker cfg) (cesp_ServiceNamespaces (ce_Spec ce))
       (bare_condition ''ExcessPermissionsInServiceNamespaces'' CondFalse ''ExcessPermissions''
          ''More permissions than required granted for Service Namespaces'') ce1;
     ret (errors_Join_opt [e1, e2], ce2) }"

text \<open>The report is a map: the failed namespaces come in the order in which it is iterated.\<close>

definition failed_namespaces :: "(string list \<Rightarrow> string list) \<Rightarrow> (string, NamespacedPermissionsReport) gomap \<Rightarrow> string list" where
  "failed_namespaces order pr =
     filter (\<lambda>ns. case gm_get pr ns of Some rp \<Rightarrow> \<not> AllSatisfied rp | None \<Rightarrow> False) (order (map fst pr))"

definition testTypedNamespacesPermissions ::
  "'s kube \<Rightarrow> ClusterEnvironment \<Rightarrow> NamespaceType \<Rightarrow> agentPermissionsChecker \<Rightarrow> string list \<Rightarrow>
     ('s, (err + string list) \<times> ClusterEnvironment) state" where
  "testTypedNamespacesPermissions api ce nsType pc namespaces = do {
     r \<leftarrow> TestPermissions api pc namespaces;
     case r of
       Inl e \<Rightarrow> ret (Inl e, ce)
     | Inr pr \<Rightarrow> do {
         let failed = failed_namespaces (k_range api) pr;
         ce1 \<leftarrow> set_condition api ce (buildPermissionCondition nsType failed);
         ret (Inr failed, ce1) } }"

definition testNamespacesPermissions ::
  "'s kube \<Rightarrow> string \<Rightarrow> ClusterEnvironment \<Rightarrow> ('s, (err + string list \<times> string list) \<times> ClusterEnvironment) state" where
  "testNamespacesPermissions api cfg ce = do {
     (a, ce1) \<leftarrow> testTypedNamespacesPermissions api ce ApplicationNamespaceType (NewAgentAppPermissionsChecker cfg)
                   (cesp_ApplicationNamespaces (ce_Spec ce));
     case a of
       Inl e \<Rightarrow> ret (Inl e, ce1)
     | Inr ansp \<Rightarrow> do {
         (b, ce2) \<leftarrow> testTypedNamespacesPermissions api ce1 ServiceNamespaceType (NewAgentSvcPermissionsChecker cfg)
                       (cesp_ServiceNamespaces (ce_Spec ce1));
         case b of
           Inl e \<Rightarrow> ret (Inl e, ce2)
         | Inr snsp \<Rightarrow>
             ret (Inr (ansp, snsp),
                  if length ansp > 0 \<or> length snsp > 0 then ce2\<lparr>ce_State := CEPartial\<rparr> else ce2) } }"

subsection \<open>The namespaces\<close>

definition environment_state ::
  "ReconcilerConfig \<Rightarrow> ClusterEnvironment \<Rightarrow> string \<Rightarrow> string list \<Rightarrow> string list \<Rightarrow> ClusterEnvState" where
  "environment_state config ce cfg ans sns =
     \<lparr>ces_Name = om_name (ce_meta ce), ces_Namespace = om_namespace (ce_meta ce), ces_ClusterConfig = cfg,
      ces_ApplicationNamespaces = ans, ces_ServiceNamespaces = sns,
      ces_AppAgentImage = cfg_AppAgentImage config, ces_SvcAgentImage = cfg_SvcAgentImage config,
      ces_AppAgentManifest = cfg_AppAgentManifest config, ces_SvcAgentManifest = cfg_SvcAgentManifest config,
      ces_AppAgentConfigManifest = cfg_AppAgentConfigManifest config,
      ces_SvcAgentConfigManifest = cfg_SvcAgentConfigManifest config,
      ces_Strategy = cesp_SynchronizationStrategy (ce_Spec ce)\<rparr>"

definition reconcileNamespaces ::
  "yaml \<Rightarrow> 's kube \<Rightarrow> ReconcilerConfig \<Rightarrow> string \<Rightarrow> ClusterEnvironment \<Rightarrow> string list \<Rightarrow> string list \<Rightarrow>
     ('s, err option) state" where
  "reconcileNamespaces y api config cfg ce failedApplicationNamespaces failedServiceNamespaces =
     (let ans = Subtract (k_range api) (cesp_ApplicationNamespaces (ce_Spec ce)) failedApplicationNamespaces;
          sns = Subtract (k_range api) (cesp_ServiceNamespaces (ce_Spec ce)) failedServiceNamespaces
      in case NewNamespaceReconciler api (environment_state config ce cfg ans sns) of
           Inl e \<Rightarrow> ret (Some e)
         | Inr nr \<Rightarrow> ReconcileNamespaces y api nr)"

definition class_for_environment :: "ClusterEnvironment \<Rightarrow> ServiceClass \<Rightarrow> bool" where
  "class_for_environment ce sc =
     (clsp_Constraints (cl_Spec sc) \<noteq> None \<and>
      Match (cesp_EnvironmentName (ce_Spec ce)) (class_GetEnvironmentConstraints (cl_Spec sc)))"

definition push_class_to :: "'s kube \<Rightarrow> ClusterEnvironment \<Rightarrow> string list \<Rightarrow> ServiceClass \<Rightarrow> ('s, err option) state" where
  "push_class_to api ce serviceNamespaces sc = do {
     c \<leftarrow> CreateClient api ce;
     case c of
       Inl e \<Rightarrow> ret (Some e)
     | Inr cli \<Rightarrow> do {
         r \<leftarrow> PushServiceClassToNamespaces api cli sc serviceNamespaces;
         ret (case r of
                Some e \<Rightarrow> if IsAlreadyExists e then None
                           else Some (Wrapped (''error pushing service class '' @ quoted (om_name (cl_meta sc)) @
                             '' to cluster environment '' @ quoted (om_name (ce_meta ce))) e)
              | None \<Rightarrow> None) } }"

definition reconcileServiceNamespaces ::
  "'s kube \<Rightarrow> ClusterEnvironment \<Rightarrow> string list \<Rightarrow> ('s, err option) state" where
  "reconcileServiceNamespaces api ce failedServiceNamespaces = do {
     l \<leftarrow> k_list api (k_self api) KServiceClass (om_namespace (ce_meta ce)) [];
     case map_items classes_of l of
       Inl e \<Rightarrow> ret (IgnoreNotFound e)
     | Inr items \<Rightarrow> do {
         let serviceNamespaces = Subtract (k_range api) (cesp_ServiceNamespaces (ce_Spec ce)) failedServiceNamespaces;
         r \<leftarrow> for_collect (push_class_to api ce serviceNamespaces) (filter (class_for_environment ce) items);
         ret (join_collected r) } }"

text \<open>The claims whose environment tag is the environment's name; a claim without a target is a nil dereference.\<close>

fun claims_for_environment :: "ClusterEnvironment \<Rightarrow> ServiceClaim list \<Rightarrow> err + ServiceClaim list" where
  "claims_for_environment ce [] = Inr []"
| "claims_for_environment ce (sc # scs) =
     (case scsp_Target (sc_Spec sc) of
        None \<Rightarrow> Inl (Panic ''nil pointer dereference'')
      | Some t \<Rightarrow>
          (case claims_for_environment ce scs of
             Inl e \<Rightarrow> Inl e
           | Inr rest \<Rightarrow> Inr (if cesp_EnvironmentName (ce_Spec ce) = sct_EnvironmentTag t then sc # rest else rest)))"

text \<open>The secret of this push holds the class identity only.\<close>

definition identity_secret :: "ServiceClaim \<Rightarrow> Secret" where
  "identity_secret sc =
     \<lparr>sec_meta = new_meta (om_namespace (sc_meta sc)) (om_name (sc_meta sc)), sec_Data = [],
      sec_StringData = fold (\<lambda>sci. gm_put (sci_Name sci) (sci_Value sci)) (scsp_ServiceClassIdentity (sc_Spec sc)) []\<rparr>"

definition push_claim_to ::
  "'s kube \<Rightarrow> string \<Rightarrow> ClusterEnvironment \<Rightarrow> string list \<Rightarrow> ServiceClaim \<Rightarrow> ('s, err option) state" where
  "push_claim_to api cfg ce applicationNamespaces sc =
     (case scsp_Target (sc_Spec sc) of
        None \<Rightarrow> ret (Some (Panic ''nil pointer dereference''))
      | Some t \<Rightarrow>
          if sct_EnvironmentTag t = '''' then
            (case sct_ApplicationClusterContext t of
               Some cc \<Rightarrow>
                 if om_name (ce_meta ce) = acc_ClusterEnvironmentName cc then do {
                   (r, _) \<leftarrow> PushServiceBinding api sc (identity_secret sc) (Some (acc_Namespace cc)) applicationNamespaces cfg;
                   ret r }
                 else ret None
             | None \<Rightarrow> ret None)
          else if cesp_EnvironmentName (ce_Spec ce) \<noteq> sct_EnvironmentTag t then ret None
          else do {
            (r, _) \<leftarrow> PushServiceBinding api sc (identity_secret sc) None applicationNamespaces cfg;
            ret r })"

definition reconcileServiceBindingApplicationNamespaces ::
  "'s kube \<Rightarrow> string \<Rightarrow> ClusterEnvironment \<Rightarrow> string list \<Rightarrow> ('s, err option) state" where
  "reconcileServiceBindingApplicationNamespaces api cfg ce applicationNamespaces = do {
     l \<leftarrow> k_list api (k_self api) KServiceClaim (om_namespace (ce_meta ce)) [];
     case map_items claims_of l of
       Inl e \<Rightarrow> ret (IgnoreNotFound e)
     | Inr items \<Rightarrow>
         (case claims_for_environment ce items of
            Inl p \<Rightarrow> ret (Some p)
          | Inr scs \<Rightarrow> do {
              r \<leftarrow> for_collect (push_claim_to api cfg ce applicationNamespaces) scs;
              ret (join_collected r) }) }"

subsection \<open>The service catalog\<close>

definition catalog_service :: "RegisteredService \<Rightarrow> ServiceCatalogService" where
  "catalog_service rs =
     \<lparr>scs_Name = om_name (rs_meta rs), scs_ServiceClassIdentity = rssp_ServiceClassIdentity (rs_Spec rs),
      scs_ServiceEndpointDefinitionKeys = map sed_Name (rssp_ServiceEndpointDefinition (rs_Spec rs))\<rparr>"

definition offered_in :: "string \<Rightarrow> RegisteredService \<Rightarrow> bool" where
  "offered_in env rs =
     (rs_State rs = RSAvailable \<and>
      (case rssp_Constraints (rs_Spec rs) of None \<Rightarrow> True | Some es \<Rightarrow> Match env es))"

definition CreateServiceCatalog :: "'s kube \<Rightarrow> ClusterEnvironment \<Rightarrow> ('s, err option) state" where
  "CreateServiceCatalog api ce = do {
     l \<leftarrow> k_list api (k_self api) KRegisteredService (om_namespace (ce_meta ce)) [];
     case map_items services_of l of
       Inl e \<Rightarrow> ret (Some e)
     | Inr rsl \<Rightarrow> do {
         r \<leftarrow> k_create api (k_self api) (OServiceCatalog
           \<lparr>cat_meta = new_meta (om_namespace (ce_meta ce)) (cesp_EnvironmentName (ce_Spec ce)),
            cat_Spec = \<lparr>cat_Services = map catalog_service (filter (offered_in (cesp_EnvironmentName (ce_Spec ce))) rsl),
              cat_ClaimedByLabels = []\<rparr>\<rparr>);
         ret (case r of Inl e \<Rightarrow> if IsAlreadyExists e then None else Some e | Inr _ \<Rightarrow> None) } }"

definition reconcileServiceCatalogApplicationNamespaces ::
  "'s kube \<Rightarrow> string \<Rightarrow> ClusterEnvironment \<Rightarrow> string list \<Rightarrow> ('s, err option) state" where
  "reconcileServiceCatalogApplicationNamespaces api cfg ce applicationNamespaces = do {
     let key = (om_namespace (ce_meta ce), cesp_EnvironmentName (ce_Spec ce));
     g \<leftarrow> get_catalog api (k_self api) key;
     c \<leftarrow> (case g of
            Inl e \<Rightarrow> if IsNotFound e then CreateServiceCatalog api ce else ret None
          | Inr _ \<Rightarrow> ret None);
     case c of
       Some e \<Rightarrow> ret (Some e)
     | None \<Rightarrow> do {
         g2 \<leftarrow> get_catalog api (k_self api) key;
         case g2 of
           Inl e \<Rightarrow> ret (Some e)
         | Inr servicecatalog \<Rightarrow>
             PushServiceCatalogToApplicationNamespaces api servicecatalog applicationNamespaces cfg } }"

definition reconcileApplicationNamespaces ::
  "'s kube \<Rightarrow> string \<Rightarrow> ClusterEnvironment \<Rightarrow> string list \<Rightarrow> ('s, err option) state" where
  "reconcileApplicationNamespaces api cfg ce failedApplicationNamespaces = do {
     let nns = Subtract (k_range api) (cesp_ApplicationNamespaces (ce_Spec ce)) failedApplicationNamespaces;
     errcm \<leftarrow> reconcileServiceBindingApplicationNamespaces api cfg ce nns;
     if panicked errcm then ret errcm
     else do {
       errct \<leftarrow> reconcileServiceCatalogApplicationNamespaces api cfg ce nns;
       ret (errors_Join_opt [errcm, errct]) } }"

subsection \<open>Deletion\<close>

definition filterClusterEnvironments :: "string \<Rightarrow> ClusterEnvironment list \<Rightarrow> ClusterEnvironment list" where
  "filterClusterEnvironments environmentName =
     filter (\<lambda>ce. cesp_EnvironmentName (ce_Spec ce) = environmentName \<and> \<not> om_deletion (ce_meta ce))"

definition getRelatedClusterEnvironments ::
  "'s kube \<Rightarrow> string \<Rightarrow> string \<Rightarrow> ('s, err + ClusterEnvironment list) state" where
  "getRelatedClusterEnvironments api namespace envname = do {
     l \<leftarrow> k_list api (k_self api) KClusterEnvironment namespace [];
     ret (case map_items envs_of l of
            Inl e \<Rightarrow> Inl e
          | Inr items \<Rightarrow> Inr (filterClusterEnvironments envname items)) }"

definition removeServiceCatalogOnDeletedClusterEnvironment ::
  "'s kube \<Rightarrow> ClusterEnvironment \<Rightarrow> ('s, err option) state" where
  "removeServiceCatalogOnDeletedClusterEnvironment api ce = do {
     ff \<leftarrow> getRelatedClusterEnvironments api (om_namespace (ce_meta ce)) (cesp_EnvironmentName (ce_Spec ce));
     case ff of
       Inl e \<Rightarrow> ret (Some e)
     | Inr ces \<Rightarrow>
         if length ces = 0 then do {
           d \<leftarrow> k_delete api (k_self api) KServiceCatalog (om_namespace (ce_meta ce), cesp_EnvironmentName (ce_Spec ce));
           ret (case d of Some e \<Rightarrow> if \<not> IsNotFound e then Some e else None | None \<Rightarrow> None) }
         else ret None }"

definition finalizeClusterEnvironmentInNamespaces ::
  "yaml \<Rightarrow> 's kube \<Rightarrow> ReconcilerConfig \<Rightarrow> ClusterEnvironment \<Rightarrow> ('s, err option \<times> ClusterEnvironment) state" where
  "finalizeClusterEnvironmentInNamespaces y api config ce = do {
     (r, ce1) \<leftarrow> retrieveClusterContextSecret api ce;
     case r of
       Inl e \<Rightarrow> ret (Some e, ce1)
     | Inr kcfg \<Rightarrow>
         (case NewNamespaceReconciler api (environment_state config ce1 kcfg [] []) of
            Inl e \<Rightarrow> ret (Some e, ce1)
          | Inr nr \<Rightarrow> do { e \<leftarrow> ReconcileNamespaces y api nr; ret (e, ce1) }) }"

definition finalizeClusterEnvironment ::
  "yaml \<Rightarrow> 's kube \<Rightarrow> ReconcilerConfig \<Rightarrow> ClusterEnvironment \<Rightarrow> ('s, err option \<times> ClusterEnvironment) state" where
  "finalizeClusterEnvironment y api config ce = do {
     (e1, ce1) \<leftarrow> finalizeClusterEnvironmentInNamespaces y api config ce;
     if panicked e1 then ret (e1, ce1)
     else do {
       e2 \<leftarrow> removeServiceCatalogOnDeletedClusterEnvironment api ce1;
       ret (errors_Join_opt [e1, e2], ce1) } }"

subsection \<open>Reconcile\<close>

text \<open>The two maps of informers, by their keys.\<close>

record informers =
  svcInformers :: "string list"
  appInformers :: "string list"

definition runInformers ::
  "'s kube \<Rightarrow> 's informer_lib \<Rightarrow> string \<Rightarrow>
     ClusterEnvironment \<Rightarrow> string list \<Rightarrow> string list \<Rightarrow> informers \<Rightarrow> ('s, err option \<times> informers) state" where
  "runInformers api lib cfg ce fsnn fann infs = do {
     (e1, svc) \<leftarrow> RunSvcInformers api lib cfg ce fsnn (svcInformers infs);
     (e2, app) \<leftarrow> RunAppInformers api lib cfg ce fann (appInformers infs);
     ret (errors_Join_opt [e1, e2], \<lparr>svcInformers = svc, appInformers = app\<rparr>) }"

definition finalize_environment ::
  "yaml \<Rightarrow> 's kube \<Rightarrow> ReconcilerConfig \<Rightarrow> ClusterEnvironment \<Rightarrow> ('s, err option) state" where
  "finalize_environment y api config ce =
     (if \<not> ContainsFinalizer (ce_meta ce) clusterEnvironmentFinalizer then ret None
      else do {
        (r, ce1) \<leftarrow> finalizeClusterEnvironment y api config ce;
        case (case r of Some e \<Rightarrow> IgnoreNotFound e | None \<Rightarrow> None) of
          Some _ \<Rightarrow> ret r
        | None \<Rightarrow> do {
            (u, _) \<leftarrow> write_env (k_update api (k_self api))
              (ce1\<lparr>ce_meta := snd (RemoveFinalizer (ce_meta ce1) clusterEnvironmentFinalizer)\<rparr>);
            ret u } })"

definition add_environment_finalizer :: "'s kube \<Rightarrow> ClusterEnvironment \<Rightarrow> ('s, err option \<times> ClusterEnvironment) state" where
  "add_environment_finalizer api ce =
     (case AddFinalizer (ce_meta ce) clusterEnvironmentFinalizer of
        (True, m) \<Rightarrow> write_env (k_update api (k_self api)) (ce\<lparr>ce_meta := m\<rparr>)
      | (False, _) \<Rightarrow> ret (None, ce))"

text \<open>From the tests to the first update of the status; the failed namespaces are returned.\<close>

definition test_environment ::
  "'s kube \<Rightarrow> ClusterEnvironment \<Rightarrow> ('s, (err + string \<times> string list \<times> string list) \<times> ClusterEnvironment) state" where
  "test_environment api ce = do {
     (r, ce1) \<leftarrow> retrieveClusterContextSecret api ce;
     case r of
       Inl e \<Rightarrow> ret (Inl e, ce1)
     | Inr cfg \<Rightarrow> do {
         (t, ce2) \<leftarrow> testConnection api cfg ce1;
         case t of
           Some e \<Rightarrow> ret (Inl e, ce2)
         | None \<Rightarrow> do {
             (_, ce3) \<leftarrow> checkExcessPermissions api cfg ce2;
             (p, ce4) \<leftarrow> testNamespacesPermissions api cfg ce3;
             case p of
               Inl e \<Rightarrow> ret (Inl e, ce4)
             | Inr (fann, fsnn) \<Rightarrow> do {
                 (u, ce5) \<leftarrow> put_status api ce4;
                 ret (case u of Some e \<Rightarrow> Inl e | None \<Rightarrow> Inr (cfg, fann, fsnn), ce5) } } } }"

definition reconcile_namespaces_of ::
  "yaml \<Rightarrow> 's kube \<Rightarrow> ReconcilerConfig \<Rightarrow> string \<Rightarrow> ClusterEnvironment \<Rightarrow> string list \<Rightarrow> string list \<Rightarrow>
     ('s, err option) state" where
  "reconcile_namespaces_of y api config cfg ce fann fsnn = do {
     errns \<leftarrow> reconcileNamespaces y api config cfg ce fann fsnn;
     if panicked errns then ret errns
     else do {
       errsns \<leftarrow> reconcileServiceNamespaces api ce fsnn;
       if panicked errsns then ret errsns
       else do {
         errans \<leftarrow> reconcileApplicationNamespaces api cfg ce fann;
         if panicked errans then ret errans
         else ret (errors_Join_opt [errns, errsns, errans]) } } }"

definition ReconcileEnvironment ::
  "yaml \<Rightarrow> 's kube \<Rightarrow> 's informer_lib \<Rightarrow>
     ReconcilerConfig \<Rightarrow> informers \<Rightarrow> nsname \<Rightarrow> ('s, err option \<times> informers) state" where
  "ReconcileEnvironment y api lib config infs req = do {
     g \<leftarrow> get_env api (k_self api) req;
     case g of
       Inl e \<Rightarrow> ret (IgnoreNotFound e, infs)
     | Inr ce0 \<Rightarrow>
         if om_deletion (ce_meta ce0) then do {
           r \<leftarrow> finalize_environment y api config ce0;
           ret (r, infs) }
         else do {
           (f, ce1) \<leftarrow> add_environment_finalizer api ce0;
           case f of
             Some e \<Rightarrow> ret (Some e, infs)
           | None \<Rightarrow> do {
               (t, ce2) \<leftarrow> test_environment api ce1;
               case t of
                 Inl e \<Rightarrow> ret (Some e, infs)
               | Inr (cfg, fann, fsnn) \<Rightarrow> do {
                   n \<leftarrow> reconcile_namespaces_of y api config cfg ce2 fann fsnn;
                   case n of
                     Some e \<Rightarrow> ret (Some e, infs)
                   | None \<Rightarrow> do {
                       (u, ce3) \<leftarrow> put_status api ce2;
                       case u of
                         Some e \<Rightarrow> ret (Some e, infs)
                       | None \<Rightarrow> do {
                           (i, inf1) \<leftarrow>
                             (if cesp_SynchronizationStrategy (ce_Spec ce3) = SyncPull
                              then runInformers api lib cfg ce3 fsnn fann infs
                              else ret (None, infs));
                           case i of
                             Some e \<Rightarrow> ret (Some e, inf1)
                           | None \<Rightarrow> do {
                               (v, _) \<leftarrow> put_status api ce3;
                               ret (v, inf1) } } } } } } }"

subsection \<open>The health monitor\<close>

text \<open>One turn of the loop over the environments; the errors of the updates are logged.\<close>

definition monitor_environment :: "'s kube \<Rightarrow> ClusterEnvironment \<Rightarrow> ('s, unit) state" where
  "monitor_environment api ce = do {
     (r, ce1) \<leftarrow> retrieveClusterContextSecret api ce;
     case r of
       Inl e \<Rightarrow> do {
         ce2 \<leftarrow> (if errors_is e ErrSecretNotFound then do {
                  (_, ce') \<leftarrow> report_offline api ce1 (OtherReason ''ErrorDuringHealthCheck'')
                                (''error creating the client: '' @ err_text e);
                  ret ce' }
                else ret ce1);
         _ \<leftarrow> report_offline api ce2 (OtherReason ''ErrorDuringHealthCheck'') ''kubeclient config is empty'';
         ret () }
     | Inr cfg \<Rightarrow> do {
         (t, ce2) \<leftarrow> testConnection api cfg ce1;
         (u, ce3) \<leftarrow> (case t of
             Some e \<Rightarrow> report_offline api ce2 (OtherReason ''HealthCheckFailed'') (''connection test failed: '' @ err_text e)
           | None \<Rightarrow> ret (None, ce2));
         if u \<noteq> None then ret ()
         else do {
           (p, ce4) \<leftarrow> testNamespacesPermissions api cfg ce3;
           (w, ce5) \<leftarrow> (case p of
               Inl e \<Rightarrow> report_offline api ce4 (OtherReason ''HealthCheckFailed'') (''permission test failed: '' @ err_text e)
             | Inr _ \<Rightarrow> ret (None, ce4));
           if w \<noteq> None then ret ()
           else do {
             (_, ce6) \<leftarrow> checkExcessPermissions api cfg ce5;
             _ \<leftarrow> put_status api ce6;
             ret () } } } }"

fun monitor_all :: "'s kube \<Rightarrow> ClusterEnvironment list \<Rightarrow> ('s, unit) state" where
  "monitor_all api [] = ret ()"
| "monitor_all api (ce # ces) = do { _ \<leftarrow> monitor_environment api ce; monitor_all api ces }"

definition monitor_round :: "'s kube \<Rightarrow> string \<Rightarrow> ('s, unit) state" where
  "monitor_round api ns = do {
     l \<leftarrow> k_list api (k_self api) KClusterEnvironment ns [];
     monitor_all api (case map_items envs_of l of Inl _ \<Rightarrow> [] | Inr ces \<Rightarrow> ces) }"

text \<open>\<^verbatim>\<open>MonitorHealth\<close> never returns: what it has done after a number of rounds.\<close>

fun MonitorHealth :: "'s kube \<Rightarrow> string \<Rightarrow> nat \<Rightarrow> ('s, unit) state" where
  "MonitorHealth api ns 0 = ret ()"
| "MonitorHealth api ns (Suc n) = do { _ \<leftarrow> monitor_round api ns; MonitorHealth api ns n }"

end
