(* ===== verification/Live_Api.thy ===== *)
theory Live_Api
  imports Mem_Api
begin

section \<open>Servers that answer\<close>

text \<open>
  \<open>kube_store\<close> says what a successful request does, never that one succeeds. \<open>live_store\<close> adds
  the two assumptions under which progress and outages are stated: a cluster that is up answers reads
  and accepts every write that is based on the current version, a cluster that is down answers no
  request, and no request changes which clusters are up or down.
\<close>

definition steady :: "(cluster \<Rightarrow> 's \<Rightarrow> bool) \<Rightarrow> (cluster \<Rightarrow> 's \<Rightarrow> bool) \<Rightarrow> ('s, 'a) state \<Rightarrow> bool" where
  "steady up down m = keeps (\<lambda>s s'. \<forall>c. (up c s \<longrightarrow> up c s') \<and> (down c s \<longrightarrow> down c s')) m"

definition current :: "obj \<Rightarrow> obj \<Rightarrow> bool" where
  "current x old = (om_resourceVersion (obj_meta x) = '''' \<or>
     om_resourceVersion (obj_meta x) = om_resourceVersion (obj_meta old))"

named_theorems steady_intros \<open>rules that a step leaves the clusters up or down as they are\<close>

lemma steady_ret [steady_intros]: "steady up down (ret x)"
  by (simp add: steady_def keeps_ret)

lemma steady_bind [steady_intros]:
  "steady up down m \<Longrightarrow> (\<And>x. steady up down (f x)) \<Longrightarrow> steady up down (State_Monad.bind m f)"
  unfolding steady_def by (rule keeps_bind) blast+

lemma steady_for_collect [steady_intros]:
  "(\<And>x. x \<in> set xs \<Longrightarrow> steady up down (f x)) \<Longrightarrow> steady up down (for_collect f xs)"
  unfolding steady_def by (rule keeps_for_collect) blast+

lemma steady_for_first [steady_intros]:
  "(\<And>x. x \<in> set xs \<Longrightarrow> steady up down (f x)) \<Longrightarrow> steady up down (for_first f xs)"
  unfolding steady_def by (rule keeps_for_first) blast+

lemma steady_run:
  assumes "steady up down m" and "run_state m s = (r, s')"
  shows "up c s \<Longrightarrow> up c s'" and "down c s \<Longrightarrow> down c s'"
  using keeps_run [OF assms(1) [unfolded steady_def] assms(2)] by blast+

locale live_store = kube_store api objs for api :: "'s kube" and objs +
  fixes up :: "cluster \<Rightarrow> 's \<Rightarrow> bool" and down :: "cluster \<Rightarrow> 's \<Rightarrow> bool"
  assumes get_answers: "up c s \<Longrightarrow> run_state (k_get api c k n) s = (Inl e, s') \<Longrightarrow> IsNotFound e"
    and list_answers: "up c s \<Longrightarrow> run_state (k_list api c k ns sel) s \<noteq> (Inl e, s')"
    and create_accepted: "up c s \<Longrightarrow> objs s c (obj_kind x) (obj_key x) = None \<Longrightarrow>
      om_resourceVersion (obj_meta x) = '''' \<Longrightarrow> run_state (k_create api c x) s \<noteq> (Inl e, s')"
    and update_accepted: "up c s \<Longrightarrow> objs s c (obj_kind x) (obj_key x) = Some old \<Longrightarrow> current x old \<Longrightarrow>
      run_state (k_update api c x) s \<noteq> (Inl e, s')"
    and status_accepted: "up c s \<Longrightarrow> objs s c (obj_kind x) (obj_key x) = Some old \<Longrightarrow> current x old \<Longrightarrow>
      run_state (k_status_update api c x) s \<noteq> (Inl e, s')"
    and delete_accepted: "up c s \<Longrightarrow> objs s c k n = Some old \<Longrightarrow>
      run_state (k_delete api c k n) s \<noteq> (Some e, s')"
    and version_fails: "down c s \<Longrightarrow> run_state (k_server_version api c) s \<noteq> (Inr v, s')"
    and access_fails: "down c s \<Longrightarrow> run_state (k_access api c ra) s \<noteq> (Inr b, s')"
    and rules_fail: "down c s \<Longrightarrow> run_state (k_rules api c ns) s \<noteq> (Inr rr, s')"
    and steady_get [steady_intros]: "steady up down (k_get api c k n)"
    and steady_list [steady_intros]: "steady up down (k_list api c k ns sel)"
    and steady_create [steady_intros]: "steady up down (k_create api c x)"
    and steady_update [steady_intros]: "steady up down (k_update api c x)"
    and steady_status [steady_intros]: "steady up down (k_status_update api c x)"
    and steady_delete [steady_intros]: "steady up down (k_delete api c k n)"
    and steady_delete_all [steady_intros]: "steady up down (k_delete_all api c k ns)"
    and steady_now [steady_intros]: "steady up down (k_now api)"
    and steady_uuid [steady_intros]: "steady up down (k_uuid api)"
    and steady_version [steady_intros]: "steady up down (k_server_version api c)"
    and steady_access [steady_intros]: "steady up down (k_access api c ra)"
    and steady_rules [steady_intros]: "steady up down (k_rules api c ns)"
begin

lemma get_present:
  assumes "up c s" and "objs s c k n = Some x"
  shows "\<exists>s'. run_state (k_get api c k n) s = (Inr x, s') \<and> objs s' = objs s"
proof -
  obtain r s' where r: "run_state (k_get api c k n) s = (r, s')" by fastforce
  have "r = Inr x"
  proof (cases r)
    case (Inl e)
    with r have "run_state (k_get api c k n) s = (Inl e, s')" by simp
    with get_answers [OF assms(1) this] get_missing [OF this] assms(2) show ?thesis by simp
  next
    case (Inr y)
    with r have "run_state (k_get api c k n) s = (Inr y, s')" by simp
    from get_found [OF this] Inr assms(2) show ?thesis by simp
  qed
  with r get_reads [OF r] show ?thesis by blast
qed

lemma status_present:
  assumes "up c s" and "objs s c (obj_kind x) (obj_key x) = Some old" and "current x old"
  shows "\<exists>v s'. run_state (k_status_update api c x) s = (Inr (set_version v (copy_status x old)), s') \<and>
    objs s' c (obj_kind x) (obj_key x) = Some (set_version v (copy_status x old))"
proof -
  obtain r s' where r: "run_state (k_status_update api c x) s = (r, s')" by fastforce
  show ?thesis
  proof (cases r)
    case (Inl e)
    with r status_accepted [OF assms, of e s'] show ?thesis by blast
  next
    case (Inr y)
    with r have "run_state (k_status_update api c x) s = (Inr y, s')" by simp
    from status_ok [OF this] assms(2) r Inr show ?thesis by auto
  qed
qed

end

lemma m_down_same [simp]:
  "m_down (mem_remove c k n s) = m_down s" "m_down (mem_store c x s) = m_down s"
  "m_down (mem_mark c x s) = m_down s"
  by (simp_all add: mem_remove_def mem_store_def mem_mark_def)

lemma m_down_fold_mark [simp]: "m_down (fold (mem_mark c) xs s) = m_down s"
  by (induction xs arbitrary: s) simp_all

definition mem_up :: "cluster \<Rightarrow> mem \<Rightarrow> bool" where
  "mem_up c s = (c \<notin> set (m_down s))"

definition mem_down :: "cluster \<Rightarrow> mem \<Rightarrow> bool" where
  "mem_down c s = (c \<in> set (m_down s))"

lemma mem_steadyI:
  "(\<And>s r s'. run_state m s = (r, s') \<Longrightarrow> m_down s' = m_down s) \<Longrightarrow> steady mem_up mem_down m"
  by (simp add: steady_def keeps_def mem_up_def mem_down_def) (metis prod.collapse)

interpretation live: live_store "mem_api cfgs self" mem_objs mem_up mem_down
  by unfold_locales
    (auto intro!: mem_steadyI simp: mem_ops mem_up_def mem_down_def current_def Let_def not_found_def
      split: if_splits option.splits)

end
