(* ===== verification/ClusterEnvironment_Correct.thy ===== *)
theory ClusterEnvironment_Correct
  imports ClusterEnvironment_Ctrl Live_Api
begin

section \<open>Correctness of the cluster environment controller\<close>

text \<open>
  What the tests of an environment report and store, what happens to the stored state when the worker
  cluster does not answer, when the service catalog of an environment is created and removed, and which
  claims stop a reconciliation. Progress and outages are stated over \<open>live_store\<close>.
\<close>

subsection \<open>What each step writes\<close>

context kube_store
begin

lemma modifies_set_condition [frame_intros]: "modifies objs K (set_condition api ce c)"
  unfolding set_condition_def by (intro frame_intros)

lemma modifies_updateStatus [frame_intros]: "modifies objs K (updateClusterEnvironmentStatus api ce cs)"
  unfolding updateClusterEnvironmentStatus_def by (intro frame_intros)

lemma modifies_put_status [frame_intros]:
  "KClusterEnvironment \<in> A \<Longrightarrow> modifies objs (of_kinds A) (put_status api ce)"
  unfolding put_status_def write_env_def by (intro frame_intros) simp

lemma modifies_report_offline [frame_intros]:
  "KClusterEnvironment \<in> A \<Longrightarrow> modifies objs (of_kinds A) (report_offline api ce r m)"
  unfolding report_offline_def by (intro frame_intros)

lemma modifies_ensureOwnership [frame_intros]:
  "KSecret \<in> A \<Longrightarrow> modifies objs (of_kinds A) (ensureOwnershipOfClusterContextSecret api ce sec)"
  unfolding ensureOwnershipOfClusterContextSecret_def Let_def
  by (auto intro!: frame_intros split: sum.split)

lemma modifies_retrieve [frame_intros]:
  "{KClusterEnvironment, KSecret} \<subseteq> A \<Longrightarrow> modifies objs (of_kinds A) (retrieveClusterContextSecret api ce)"
  unfolding retrieveClusterContextSecret_def getClusterContextSecret_def extractClusterContextRESTConfig_def
  by (auto intro!: frame_intros split: sum.split)

lemma modifies_testConnection [frame_intros]: "modifies objs K (testConnection api cfg ce)"
  unfolding testConnection_def by (intro frame_intros)

lemma modifies_AccessList_loop [frame_intros]: "modifies objs K (AccessList_loop api cfg nss pl acc)"
  by (induction nss arbitrary: acc)
    (auto intro!: frame_intros split: sum.split simp: createUnwantedPermissionsList_def)

lemma modifies_checkExcess [frame_intros]: "modifies objs K (checkExcessPermissions api cfg ce)"
  unfolding checkExcessPermissions_def excess_step_def CheckExcessPermission_def AccessList_def
  by (auto intro!: frame_intros split: sum.split prod.split)

lemma modifies_check_loop [frame_intros]: "modifies objs K (check_loop api c r nps)"
  by (induction nps arbitrary: r) (auto intro!: frame_intros simp: checkAccess_def)

lemma modifies_checkPermissions [frame_intros]: "modifies objs K (checkPermissions api c rr nss ps)"
  by (induction nss arbitrary: rr) (auto intro!: frame_intros simp: checkPermissionsInNamespace_def)

lemma modifies_testTyped [frame_intros]: "modifies objs K (testTypedNamespacesPermissions api ce ty pc nss)"
  unfolding testTypedNamespacesPermissions_def TestPermissions_def TestResourcePermissions_def Let_def
  by (auto intro!: frame_intros split: sum.split)

lemma modifies_testNamespaces [frame_intros]: "modifies objs K (testNamespacesPermissions api cfg ce)"
  unfolding testNamespacesPermissions_def by (auto intro!: frame_intros split: sum.split prod.split)

text \<open>A successful update of the status.\<close>

lemma put_status_ok:
  assumes "run_state (put_status api ce) s = ((None, ce'), s')"
  shows "objs s' (k_self api) KClusterEnvironment (meta_key (ce_meta ce)) = Some (OClusterEnvironment ce') \<and>
    ce_State ce' = ce_State ce \<and> ce_Conditions ce' = ce_Conditions ce \<and>
    meta_key (ce_meta ce') = meta_key (ce_meta ce) \<and>
    (\<exists>old. objs s (k_self api) KClusterEnvironment (meta_key (ce_meta ce)) = Some (OClusterEnvironment old) \<and>
       ce_Spec ce' = ce_Spec old)"
proof -
  from assms obtain y where run: "run_state (k_status_update api (k_self api) (OClusterEnvironment ce)) s = (Inr y, s')"
    and ce': "ce' = as_env ce y"
    by (auto simp: put_status_def write_env_def split: prod.splits sum.splits)
  from status_ok [OF run] obtain x v where
    old: "objs s (k_self api) KClusterEnvironment (meta_key (ce_meta ce)) = Some x"
    and y: "y = set_version v (copy_status (OClusterEnvironment ce) x)"
    and new: "objs s' (k_self api) KClusterEnvironment (meta_key (ce_meta ce)) = Some y"
    by (auto simp: obj_key_def)
  from keyed [OF old] obtain o' where x: "x = OClusterEnvironment o'" "meta_key (ce_meta o') = meta_key (ce_meta ce)"
    by (cases x) (auto simp: obj_key_def)
  with old new y ce' show ?thesis
    by (auto simp: as_env_def set_version_def meta_key_def)
qed

end

subsection \<open>The tests of an environment\<close>

text \<open>Every verb of every required permission is granted in the namespace.\<close>

definition namespace_granted ::
  "(ResourceAttributes \<Rightarrow> err + bool) \<Rightarrow> ResourcePermissions list \<Rightarrow> string \<Rightarrow> bool" where
  "namespace_granted ac ps ns =
     (\<forall>p\<in>set ps. \<forall>v\<in>set (rp_Verbs p).
        ac \<lparr>ra_Namespace = ns, ra_Verb = v, ra_Group = rp_Group p, ra_Version = rp_Version p,
            ra_Resource = rp_Resource p, ra_Name = rp_Name p\<rparr> = Inr True)"

lemma permission_condition_type [simp]:
  "co_type (buildPermissionCondition ty failed) = permissionRequiredReason ty"
  by (simp add: buildPermissionCondition_def bare_condition_def)

lemma permission_condition_status:
  "co_status (buildPermissionCondition ty failed) = CondTrue \<longleftrightarrow> failed \<noteq> []"
  by (simp add: buildPermissionCondition_def bare_condition_def)

lemma permission_types_differ [simp]:
  "permissionRequiredReason ApplicationNamespaceType \<noteq> permissionRequiredReason ServiceNamespaceType"
  by (simp add: permissionRequiredReason_def)

lemma testTyped_ok:
  assumes "k_new_client api (apc_cfg pc) = Inr c" and "granting api c ac" and "iteration_order (k_range api)"
    and "run_state (testTypedNamespacesPermissions api ce ty pc nss) s = ((r, ce'), s')"
  shows "\<exists>failed now. r = Inr failed \<and>
    set failed = {ns \<in> set nss. \<not> namespace_granted ac (apc_getResourcePermissions pc) ns} \<and>
    ce' = ce\<lparr>ce_Conditions := SetStatusCondition now (buildPermissionCondition ty failed) (ce_Conditions ce)\<rparr>"
proof -
  from TestResourcePermissions_report [OF assms(1,2), of nss "apc_getResourcePermissions pc" s] obtain rr where
    run: "run_state (TestPermissions api pc nss) s = (Inr rr, s)"
    and keys: "\<And>ns. gm_get rr ns = None \<longleftrightarrow> ns \<notin> set nss"
    and sat: "\<And>ns r. gm_get rr ns = Some r \<Longrightarrow>
      AllSatisfied r \<longleftrightarrow> namespace_granted ac (apc_getResourcePermissions pc) ns"
    unfolding TestPermissions_def namespace_granted_def by blast
  let ?failed = "failed_namespaces (k_range api) rr"
  have dom: "ns \<in> fst ` set rr \<longleftrightarrow> ns \<in> set nss" for ns
    using keys [of ns] by (auto simp: gm_get_def map_of_eq_None_iff)
  have "set ?failed = {ns \<in> set nss. \<not> namespace_granted ac (apc_getResourcePermissions pc) ns}"
    unfolding failed_namespaces_def
    using dom keys sat by (auto simp: iteration_order_set [OF assms(3)] split: option.splits)
  moreover from assms(4) run obtain now where "r = Inr ?failed"
    "ce' = ce\<lparr>ce_Conditions := SetStatusCondition now (buildPermissionCondition ty ?failed) (ce_Conditions ce)\<rparr>"
    by (auto simp: testTypedNamespacesPermissions_def set_condition_def Let_def split: prod.splits)
  ultimately show ?thesis by blast
qed

lemma testNamespaces_ok:
  assumes "k_new_client api cfg = Inr c" and "granting api c ac" and "iteration_order (k_range api)"
    and "run_state (testNamespacesPermissions api cfg ce) s = ((r, ce'), s')"
  shows "\<exists>fann fsnn. r = Inr (fann, fsnn) \<and>
    set fann = {ns \<in> set (cesp_ApplicationNamespaces (ce_Spec ce)).
      \<not> namespace_granted ac GetAgentAppRequiredPermissions ns} \<and>
    set fsnn = {ns \<in> set (cesp_ServiceNamespaces (ce_Spec ce)).
      \<not> namespace_granted ac GetAgentSvcRequiredPermissions ns} \<and>
    ce_State ce' = (if fann = [] \<and> fsnn = [] then ce_State ce else CEPartial) \<and>
    ce_meta ce' = ce_meta ce \<and> ce_Spec ce' = ce_Spec ce \<and>
    (\<exists>a b. condition_of (permissionRequiredReason ApplicationNamespaceType) (ce_Conditions ce') = Some a \<and>
      (co_status a = CondTrue \<longleftrightarrow> fann \<noteq> []) \<and>
      condition_of (permissionRequiredReason ServiceNamespaceType) (ce_Conditions ce') = Some b \<and>
      (co_status b = CondTrue \<longleftrightarrow> fsnn \<noteq> []))"
proof -
  let ?ap = "NewAgentAppPermissionsChecker cfg" and ?sp = "NewAgentSvcPermissionsChecker cfg"
  have cfgs: "k_new_client api (apc_cfg ?ap) = Inr c" "k_new_client api (apc_cfg ?sp) = Inr c"
    using assms(1) by (simp_all add: NewAgentAppPermissionsChecker_def NewAgentSvcPermissionsChecker_def)
  obtain ra ce1 s1 where a: "run_state (testTypedNamespacesPermissions api ce ApplicationNamespaceType ?ap
      (cesp_ApplicationNamespaces (ce_Spec ce))) s = ((ra, ce1), s1)" by (metis prod.collapse)
  from testTyped_ok [OF cfgs(1) assms(2,3) a] obtain fann now1 where fann: "ra = Inr fann"
    "set fann = {ns \<in> set (cesp_ApplicationNamespaces (ce_Spec ce)).
      \<not> namespace_granted ac GetAgentAppRequiredPermissions ns}"
    "ce1 = ce\<lparr>ce_Conditions := SetStatusCondition now1 (buildPermissionCondition ApplicationNamespaceType fann)
      (ce_Conditions ce)\<rparr>"
    by (auto simp: NewAgentAppPermissionsChecker_def)
  obtain rb ce2 s2 where b: "run_state (testTypedNamespacesPermissions api ce1 ServiceNamespaceType ?sp
      (cesp_ServiceNamespaces (ce_Spec ce1))) s1 = ((rb, ce2), s2)" by (metis prod.collapse)
  from testTyped_ok [OF cfgs(2) assms(2,3) b] fann(3) obtain fsnn now2 where fsnn: "rb = Inr fsnn"
    "set fsnn = {ns \<in> set (cesp_ServiceNamespaces (ce_Spec ce)).
      \<not> namespace_granted ac GetAgentSvcRequiredPermissions ns}"
    "ce2 = ce1\<lparr>ce_Conditions := SetStatusCondition now2 (buildPermissionCondition ServiceNamespaceType fsnn)
      (ce_Conditions ce1)\<rparr>"
    by (auto simp: NewAgentSvcPermissionsChecker_def)
  from assms(4) a b fann(1) fsnn(1) have res: "r = Inr (fann, fsnn)"
    "ce' = (if length fann > 0 \<or> length fsnn > 0 then ce2\<lparr>ce_State := CEPartial\<rparr> else ce2)"
    by (auto simp: testNamespacesPermissions_def)
  from condition_of_set_same [of "buildPermissionCondition ServiceNamespaceType fsnn" now2 "ce_Conditions ce1"]
  obtain q where q: "condition_of (permissionRequiredReason ServiceNamespaceType) (ce_Conditions ce2) = Some q"
    "co_status q = CondTrue \<longleftrightarrow> fsnn \<noteq> []"
    using fsnn(3) by (auto simp: permission_condition_status)
  from condition_of_set_same [of "buildPermissionCondition ApplicationNamespaceType fann" now1 "ce_Conditions ce"]
  obtain p where "condition_of (permissionRequiredReason ApplicationNamespaceType) (ce_Conditions ce1) = Some p"
    and p: "co_status p = CondTrue \<longleftrightarrow> fann \<noteq> []"
    using fann(3) by (auto simp: permission_condition_status)
  then have "condition_of (permissionRequiredReason ApplicationNamespaceType) (ce_Conditions ce2) = Some p"
    using fsnn(3) by (simp add: condition_of_set_other)
  with p q res fann fsnn show ?thesis by (intro exI [of _ fann] exI [of _ fsnn]) auto
qed

lemma excess_step_fields:
  "run_state (excess_step api pc nss m ce) s = ((r, ce'), s') \<Longrightarrow>
     ce_State ce' = ce_State ce \<and> ce_meta ce' = ce_meta ce \<and> ce_Spec ce' = ce_Spec ce"
  by (auto simp: excess_step_def set_condition_def split: prod.splits sum.splits if_splits)

lemma checkExcess_fields:
  assumes "run_state (checkExcessPermissions api cfg ce) s = ((r, ce'), s')"
  shows "ce_State ce' = ce_State ce \<and> ce_meta ce' = ce_meta ce \<and> ce_Spec ce' = ce_Spec ce"
  using assms unfolding checkExcessPermissions_def
  by (auto split: prod.splits dest!: excess_step_fields)

lemma retrieve_keeps_env:
  "run_state (retrieveClusterContextSecret api ce) s = ((Inr cfg, ce'), s') \<Longrightarrow> ce' = ce"
  by (auto simp: retrieveClusterContextSecret_def getClusterContextSecret_def extractClusterContextRESTConfig_def
      split: prod.splits sum.splits)

lemma testConnection_ok:
  "run_state (testConnection api cfg ce) s = ((r, ce'), s') \<Longrightarrow>
     (r = None \<and> ce_State ce' = CEOnline \<or> r \<noteq> None \<and> ce_State ce' = CEOffline) \<and>
     ce_meta ce' = ce_meta ce \<and> ce_Spec ce' = ce_Spec ce"
  by (auto simp: testConnection_def updateClusterEnvironmentStatus_def set_condition_def
      split: prod.splits if_splits dest!: TestConnection_states)

subsection \<open>A cluster that does not answer\<close>

text \<open>The context secret of the environment is stored and leads to the cluster \<open>c\<close>.\<close>

definition context_leads_to ::
  "'s kube \<Rightarrow> (cluster \<Rightarrow> okind \<Rightarrow> nsname \<Rightarrow> obj option) \<Rightarrow> ClusterEnvironment \<Rightarrow> cluster \<Rightarrow> bool" where
  "context_leads_to api f ce c =
     (\<exists>sec cfg. f (k_self api) KSecret (om_namespace (ce_meta ce), cesp_ClusterContextSecret (ce_Spec ce)) =
        Some (OSecret sec) \<and> sec_StringData sec = [] \<and>
        ExtractClusterRESTConfig api sec = Inr cfg \<and> k_new_client api cfg = Inr c)"

lemma ownership_keeps_data:
  assumes "kube_store api objs" and "sec_StringData sec = []"
    and "run_state (ensureOwnershipOfClusterContextSecret api ce sec) s = (sec', s')"
  shows "sec_Data sec' = sec_Data sec"
proof -
  have "sec_Data (as_secret x y) = sec_Data sec"
    if "run_state (k_update api (k_self api) (OSecret x)) s = (Inr y, s1)"
      and "sec_Data x = sec_Data sec" and "sec_StringData x = []" for x y s1
    using kube_store.update_ok [OF assms(1) that(1)] that(2,3)
    by (auto simp: written_def keep_server_fields_def set_version_def as_secret_def)
  with assms(2,3) show ?thesis
    by (auto simp: ensureOwnershipOfClusterContextSecret_def Let_def split: sum.splits prod.splits)
qed

context kube_store
begin

lemma modifies_secret_of [frame_intros]: "modifies objs K (GetClusterContextSecret api ce)"
  by (rule modifies_GetClusterContextSecret)

end

context live_store
begin

lemma steady_set_condition [steady_intros]: "steady up down (set_condition api ce c)"
  unfolding set_condition_def by (intro steady_intros)

lemma steady_put_status [steady_intros]: "steady up down (put_status api ce)"
  unfolding put_status_def write_env_def by (intro steady_intros)

lemma steady_report_offline [steady_intros]: "steady up down (report_offline api ce r m)"
  unfolding report_offline_def updateClusterEnvironmentStatus_def by (intro steady_intros)

lemma steady_ensureOwnership [steady_intros]:
  "steady up down (ensureOwnershipOfClusterContextSecret api ce sec)"
  unfolding ensureOwnershipOfClusterContextSecret_def Let_def by (auto intro!: steady_intros split: sum.split)

lemma steady_TestConnection [steady_intros]: "steady up down (TestConnection api cfg)"
  unfolding TestConnection_def by (auto intro!: steady_intros split: sum.split)

lemma steady_testConnection [steady_intros]: "steady up down (testConnection api cfg ce)"
  unfolding testConnection_def updateClusterEnvironmentStatus_def by (intro steady_intros)

lemma steady_check_loop [steady_intros]: "steady up down (check_loop api c r nps)"
  by (induction nps arbitrary: r) (auto intro!: steady_intros simp: checkAccess_def)

lemma steady_checkPermissions [steady_intros]: "steady up down (checkPermissions api c rr nss ps)"
  by (induction nss arbitrary: rr) (auto intro!: steady_intros simp: checkPermissionsInNamespace_def)

lemma steady_testTyped [steady_intros]: "steady up down (testTypedNamespacesPermissions api ce ty pc nss)"
  unfolding testTypedNamespacesPermissions_def TestPermissions_def TestResourcePermissions_def Let_def
  by (auto intro!: steady_intros split: sum.split)

lemma steady_testNamespaces [steady_intros]: "steady up down (testNamespacesPermissions api cfg ce)"
  unfolding testNamespacesPermissions_def by (auto intro!: steady_intros split: sum.split prod.split)

lemma steady_AccessList_loop [steady_intros]: "steady up down (AccessList_loop api cfg nss pl acc)"
  by (induction nss arbitrary: acc)
    (auto intro!: steady_intros split: sum.split simp: createUnwantedPermissionsList_def)

lemma steady_checkExcess [steady_intros]: "steady up down (checkExcessPermissions api cfg ce)"
  unfolding checkExcessPermissions_def excess_step_def CheckExcessPermission_def AccessList_def
  by (auto intro!: steady_intros split: sum.split prod.split)

lemma retrieve_up:
  assumes "up (k_self api) s" and "context_leads_to api (objs s) ce c"
  shows "\<exists>cfg s'. run_state (retrieveClusterContextSecret api ce) s = ((Inr cfg, ce), s') \<and>
    k_new_client api cfg = Inr c \<and> (\<forall>c'. (up c' s \<longrightarrow> up c' s') \<and> (down c' s \<longrightarrow> down c' s')) \<and>
    (\<forall>d n. objs s' d KClusterEnvironment n = objs s d KClusterEnvironment n)"
proof -
  let ?n = "(om_namespace (ce_meta ce), cesp_ClusterContextSecret (ce_Spec ce))"
  from assms(2) obtain sec cfg where sec: "objs s (k_self api) KSecret ?n = Some (OSecret sec)"
    "sec_StringData sec = []" "ExtractClusterRESTConfig api sec = Inr cfg" and c: "k_new_client api cfg = Inr c"
    unfolding context_leads_to_def by blast
  from get_present [OF assms(1) sec(1)] obtain s1 where
    g: "run_state (k_get api (k_self api) KSecret ?n) s = (Inr (OSecret sec), s1)" and o1: "objs s1 = objs s"
    by blast
  obtain sec' s2 where e: "run_state (ensureOwnershipOfClusterContextSecret api ce sec) s1 = (sec', s2)"
    by (metis prod.collapse)
  have "sec_Data sec' = sec_Data sec"
    by (rule ownership_keeps_data [OF kube_store_axioms sec(2) e])
  then have "ExtractClusterRESTConfig api sec' = Inr cfg"
    using sec(3) by (simp add: ExtractClusterRESTConfig_def)
  then have run: "run_state (retrieveClusterContextSecret api ce) s = ((Inr cfg, ce), s2)"
    using g e
    by (simp add: retrieveClusterContextSecret_def getClusterContextSecret_def extractClusterContextRESTConfig_def
        GetClusterContextSecret_def getSecret_def get_secret_def)
  have "same_but (of_kinds {KSecret}) (objs s1) (objs s2)"
    by (rule modifies_run [OF modifies_ensureOwnership e]) simp
  then have "\<forall>d n. objs s2 d KClusterEnvironment n = objs s d KClusterEnvironment n"
    using o1 by (auto dest: same_but_of_kinds)
  moreover have "(up c' s \<longrightarrow> up c' s2) \<and> (down c' s \<longrightarrow> down c' s2)" for c'
    using steady_run [OF steady_get g] steady_run [OF steady_ensureOwnership e] by blast
  ultimately show ?thesis using run c by blast
qed

lemma testConnection_down:
  assumes "k_new_client api cfg = Inr c" and "down c s"
    and "run_state (testConnection api cfg ce) s = ((r, ce'), s')"
  shows "r = Some (Plain ''can not connect to target cluster'')"
proof -
  obtain v s1 where v: "run_state (k_server_version api c) s = (v, s1)" by fastforce
  with version_fails [OF assms(2)] obtain e where "v = Inl e" by (cases v) auto
  with v assms(1,3) show ?thesis
    by (auto simp: testConnection_def TestConnection_def split: prod.splits)
qed

lemma check_loop_down:
  "down c s \<Longrightarrow> run_state (check_loop api c r nps) s = (r', s') \<Longrightarrow> npr_InError r \<noteq> [] \<or> nps \<noteq> [] \<Longrightarrow>
     npr_InError r' \<noteq> []"
proof (induction nps arbitrary: r s)
  case (Cons np nps)
  obtain a s1 where a: "run_state (k_access api c (selfSubjectAccessReview np)) s = (a, s1)" by fastforce
  with access_fails [OF Cons.prems(1)] obtain e where "a = Inl e" by (cases a) auto
  with Cons.prems(2) a have "run_state (check_loop api c (report_inError np e r) nps) s1 = (r', s')"
    by (simp add: checkAccess_def)
  moreover have "npr_InError (report_inError np e r) \<noteq> []" by (simp add: report_inError_def)
  moreover have "down c s1" by (rule steady_run(2) [OF steady_access a Cons.prems(1)])
  ultimately show ?case using Cons.IH by blast
qed simp

lemma checkPermissions_down:
  assumes "down c s" and "\<exists>p\<in>set ps. rp_Verbs p \<noteq> []"
    and "run_state (checkPermissions api c rr nss ps) s = (rr', s')"
  shows "(\<forall>ns\<in>set nss. \<exists>r. gm_get rr' ns = Some r \<and> \<not> AllSatisfied r) \<and>
    (\<forall>ns. (\<exists>r. gm_get rr ns = Some r \<and> \<not> AllSatisfied r) \<longrightarrow> (\<exists>r. gm_get rr' ns = Some r \<and> \<not> AllSatisfied r))"
  using assms(1,3)
proof (induction nss arbitrary: rr s)
  case (Cons ns nss)
  obtain r s1 where r: "run_state (checkPermissionsInNamespace api c ns ps) s = (r, s1)" by fastforce
  have "concat (map (\<lambda>p. toNamespacedPermissions p ns) ps) \<noteq> []"
    using assms(2) by (auto simp: toNamespacedPermissions_def)
  with check_loop_down [OF Cons.prems(1) r [unfolded checkPermissionsInNamespace_def]]
  have bad: "\<not> AllSatisfied r" by (auto simp: AllSatisfied_def)
  have "down c s1"
    by (rule steady_run(2) [OF steady_check_loop r [unfolded checkPermissionsInNamespace_def] Cons.prems(1)])
  moreover from Cons.prems(2) r have "run_state (checkPermissions api c (gm_put ns r rr) nss ps) s1 = (rr', s')"
    by simp
  ultimately have ih: "(\<forall>ns\<in>set nss. \<exists>r. gm_get rr' ns = Some r \<and> \<not> AllSatisfied r) \<and>
      (\<forall>n. (\<exists>q. gm_get (gm_put ns r rr) n = Some q \<and> \<not> AllSatisfied q) \<longrightarrow>
        (\<exists>r. gm_get rr' n = Some r \<and> \<not> AllSatisfied r))"
    by (rule Cons.IH)
  show ?case
  proof (intro conjI ballI allI impI)
    fix n assume "n \<in> set (ns # nss)"
    then show "\<exists>r. gm_get rr' n = Some r \<and> \<not> AllSatisfied r"
      using ih bad by (cases "n = ns") (auto simp: gm_get_put)
  next
    fix n assume "\<exists>r. gm_get rr n = Some r \<and> \<not> AllSatisfied r"
    then show "\<exists>r. gm_get rr' n = Some r \<and> \<not> AllSatisfied r"
      using ih bad by (cases "n = ns") (auto simp: gm_get_put)
  qed
qed auto

end

context live_store
begin

lemma testTyped_down:
  assumes "down c s" and "k_new_client api (apc_cfg pc) = Inr c"
    and "\<exists>p\<in>set (apc_getResourcePermissions pc). rp_Verbs p \<noteq> []" and "iteration_order (k_range api)"
    and "run_state (testTypedNamespacesPermissions api ce ty pc nss) s = ((r, ce'), s')"
  shows "(\<exists>failed. r = Inr failed \<and> (failed = [] \<longrightarrow> nss = [])) \<and>
    ce_State ce' = ce_State ce \<and> ce_meta ce' = ce_meta ce \<and> ce_Spec ce' = ce_Spec ce"
proof -
  obtain rr s1 where rr: "run_state (checkPermissions api c [] nss (apc_getResourcePermissions pc)) s = (rr, s1)"
    by fastforce
  from checkPermissions_down [OF assms(1,3) rr]
  have bad: "\<forall>ns\<in>set nss. \<exists>r. gm_get rr ns = Some r \<and> \<not> AllSatisfied r" by blast
  let ?failed = "failed_namespaces (k_range api) rr"
  have "ns \<in> set ?failed" if "ns \<in> set nss" for ns
  proof -
    from bad that obtain q where q: "gm_get rr ns = Some q" "\<not> AllSatisfied q" by blast
    then have "ns \<in> fst ` set rr" unfolding gm_get_def by (rule_tac image_eqI [of _ _ "(ns, q)"]) (auto dest: map_of_SomeD)
    with q show ?thesis by (simp add: failed_namespaces_def iteration_order_set [OF assms(4)])
  qed
  then have "set nss \<subseteq> set ?failed" by blast
  then have "?failed = [] \<longrightarrow> nss = []" by auto
  with assms(2,5) rr show ?thesis
    by (auto simp: testTypedNamespacesPermissions_def TestPermissions_def TestResourcePermissions_def
        set_condition_def Let_def split: prod.splits)
qed

lemma testNamespaces_down:
  assumes "down c s" and "k_new_client api cfg = Inr c" and "iteration_order (k_range api)"
    and "run_state (testNamespacesPermissions api cfg ce) s = ((r, ce'), s')"
  shows "(\<exists>p. r = Inr p) \<and> ce_meta ce' = ce_meta ce \<and> ce_Spec ce' = ce_Spec ce \<and>
    ce_State ce' = (if cesp_ApplicationNamespaces (ce_Spec ce) = [] \<and> cesp_ServiceNamespaces (ce_Spec ce) = []
      then ce_State ce else CEPartial)"
proof -
  let ?ap = "NewAgentAppPermissionsChecker cfg" and ?sp = "NewAgentSvcPermissionsChecker cfg"
  have cfgs: "k_new_client api (apc_cfg ?ap) = Inr c" "k_new_client api (apc_cfg ?sp) = Inr c"
    "\<exists>p\<in>set (apc_getResourcePermissions ?ap). rp_Verbs p \<noteq> []"
    "\<exists>p\<in>set (apc_getResourcePermissions ?sp). rp_Verbs p \<noteq> []"
    using assms(2) by (simp_all add: NewAgentAppPermissionsChecker_def NewAgentSvcPermissionsChecker_def
        GetAgentAppRequiredPermissions_def GetAgentSvcRequiredPermissions_def required_def)
  obtain ra ce1 s1 where a: "run_state (testTypedNamespacesPermissions api ce ApplicationNamespaceType ?ap
      (cesp_ApplicationNamespaces (ce_Spec ce))) s = ((ra, ce1), s1)" by (metis prod.collapse)
  from testTyped_down [OF assms(1) cfgs(1,3) assms(3) a] obtain fann where fann: "ra = Inr fann"
    "fann = [] \<longrightarrow> cesp_ApplicationNamespaces (ce_Spec ce) = []"
    "ce_State ce1 = ce_State ce" "ce_meta ce1 = ce_meta ce" "ce_Spec ce1 = ce_Spec ce" by auto
  have fann': "cesp_ApplicationNamespaces (ce_Spec ce) = [] \<longrightarrow> fann = []"
    using a fann(1) by (auto simp: testTypedNamespacesPermissions_def TestPermissions_def TestResourcePermissions_def
        failed_namespaces_def Let_def cfgs(1) split: prod.splits)
  have down1: "down c s1" by (rule steady_run(2) [OF steady_testTyped a assms(1)])
  obtain rb ce2 s2 where b: "run_state (testTypedNamespacesPermissions api ce1 ServiceNamespaceType ?sp
      (cesp_ServiceNamespaces (ce_Spec ce1))) s1 = ((rb, ce2), s2)" by (metis prod.collapse)
  from testTyped_down [OF down1 cfgs(2,4) assms(3) b] fann(5) obtain fsnn where fsnn: "rb = Inr fsnn"
    "fsnn = [] \<longrightarrow> cesp_ServiceNamespaces (ce_Spec ce) = []"
    "ce_State ce2 = ce_State ce1" "ce_meta ce2 = ce_meta ce1" "ce_Spec ce2 = ce_Spec ce1" by auto
  have fsnn': "cesp_ServiceNamespaces (ce_Spec ce) = [] \<longrightarrow> fsnn = []"
    using b fsnn(1) fann(5) by (auto simp: testTypedNamespacesPermissions_def TestPermissions_def
        TestResourcePermissions_def failed_namespaces_def Let_def cfgs(2) split: prod.splits)
  from assms(4) a b fann(1) fsnn(1) have "r = Inr (fann, fsnn)"
    "ce' = (if length fann > 0 \<or> length fsnn > 0 then ce2\<lparr>ce_State := CEPartial\<rparr> else ce2)"
    by (auto simp: testNamespacesPermissions_def)
  with fann fsnn fann' fsnn' show ?thesis by auto
qed

lemma put_status_up:
  assumes "up (k_self api) s" and "meta_key (ce_meta old) = meta_key (ce_meta ce)"
    and "om_resourceVersion (ce_meta ce) = om_resourceVersion (ce_meta old)"
    and "objs s (k_self api) KClusterEnvironment (meta_key (ce_meta ce)) = Some (OClusterEnvironment old)"
    and "run_state (put_status api ce) s = ((r, ce'), s')"
  shows "r = None"
proof -
  obtain q s1 where q: "run_state (k_status_update api (k_self api) (OClusterEnvironment ce)) s = (q, s1)" by fastforce
  have "q \<noteq> Inl e" for e
    using status_accepted [OF assms(1), of "OClusterEnvironment ce" "OClusterEnvironment old"] q assms(3,4)
    by (auto simp: obj_key_def current_def)
  then show ?thesis using assms(5) q
    by (cases q) (auto simp: put_status_def write_env_def)
qed

end

subsection \<open>Properties of the tests\<close>

context kube_store
begin

lemma test_environment_steps:
  assumes "run_state (test_environment api ce) s = ((Inr (cfg, fann, fsnn), ce'), s')"
  obtains ce2 ce3 ce4 s1 s2 s3 s4 e where
    "run_state (retrieveClusterContextSecret api ce) s = ((Inr cfg, ce), s1)"
    "run_state (testConnection api cfg ce) s1 = ((None, ce2), s2)"
    "run_state (checkExcessPermissions api cfg ce2) s2 = ((e, ce3), s3)"
    "run_state (testNamespacesPermissions api cfg ce3) s3 = ((Inr (fann, fsnn), ce4), s4)"
    "run_state (put_status api ce4) s4 = ((None, ce'), s')"
proof -
  obtain r ce1 s1 where a: "run_state (retrieveClusterContextSecret api ce) s = ((r, ce1), s1)"
    by (metis prod.collapse)
  with assms obtain cf where r: "r = Inr cf" by (cases r) (auto simp: test_environment_def)
  obtain t ce2 s2 where b: "run_state (testConnection api cf ce1) s1 = ((t, ce2), s2)" by (metis prod.collapse)
  with assms a r have t: "t = None" by (cases t) (auto simp: test_environment_def)
  obtain e ce3 s3 where c: "run_state (checkExcessPermissions api cf ce2) s2 = ((e, ce3), s3)" by (metis prod.collapse)
  obtain p ce4 s4 where d: "run_state (testNamespacesPermissions api cf ce3) s3 = ((p, ce4), s4)" by (metis prod.collapse)
  with assms a b c r t obtain fs where p: "p = Inr fs" by (cases p) (auto simp: test_environment_def)
  obtain u ce5 s5 where f: "run_state (put_status api ce4) s4 = ((u, ce5), s5)" by (metis prod.collapse)
  from assms a b c d f r t p have "u = None" "cf = cfg" "fs = (fann, fsnn)" "ce5 = ce'" "s5 = s'"
    by (cases u; auto simp: test_environment_def split: prod.splits)+
  with a b c d f r t p retrieve_keeps_env [OF a [unfolded r]] show thesis by (intro that) auto
qed

end

text \<open>C29: When the tests of an environment succeed, against a cluster whose answer to an access review (allowed, denied
  or an error) depends on the review only, and with map iterations that visit every key once in some order,
  exactly the namespaces in which a permission the agents need is
  not granted are reported as failed, and the environment is stored as Online, or as Partial if a namespace
  failed, with a condition per kind of namespace that says whether permissions are missing.\<close>

theorem test_environment_reports:
  assumes "kube_store api objs" and "granting api c ac" and "iteration_order (k_range api)"
    and "run_state (test_environment api ce) s = ((Inr (cfg, fann, fsnn), ce'), s')"
    and "k_new_client api cfg = Inr c"
  shows "set fann = {ns \<in> set (cesp_ApplicationNamespaces (ce_Spec ce)).
      \<not> namespace_granted ac GetAgentAppRequiredPermissions ns} \<and>
    set fsnn = {ns \<in> set (cesp_ServiceNamespaces (ce_Spec ce)).
      \<not> namespace_granted ac GetAgentSvcRequiredPermissions ns} \<and>
    objs s' (k_self api) KClusterEnvironment (meta_key (ce_meta ce)) = Some (OClusterEnvironment ce') \<and>
    ce_State ce' = (if fann = [] \<and> fsnn = [] then CEOnline else CEPartial) \<and>
    (\<exists>a b. condition_of (permissionRequiredReason ApplicationNamespaceType) (ce_Conditions ce') = Some a \<and>
      (co_status a = CondTrue \<longleftrightarrow> fann \<noteq> []) \<and>
      condition_of (permissionRequiredReason ServiceNamespaceType) (ce_Conditions ce') = Some b \<and>
      (co_status b = CondTrue \<longleftrightarrow> fsnn \<noteq> []))"
proof -
  from kube_store.test_environment_steps [OF assms(1) assms(4)] obtain ce2 ce3 ce4 s1 s2 s3 s4 e where
    t: "run_state (testConnection api cfg ce) s1 = ((None, ce2), s2)"
    and x: "run_state (checkExcessPermissions api cfg ce2) s2 = ((e, ce3), s3)"
    and n: "run_state (testNamespacesPermissions api cfg ce3) s3 = ((Inr (fann, fsnn), ce4), s4)"
    and u: "run_state (put_status api ce4) s4 = ((None, ce'), s')" by metis
  note put = kube_store.put_status_ok [OF assms(1) u]
  from testConnection_ok [OF t] checkExcess_fields [OF x]
  have ce3: "ce_State ce3 = CEOnline" "ce_Spec ce3 = ce_Spec ce" "ce_meta ce3 = ce_meta ce" by auto
  from testNamespaces_ok [OF assms(5,2,3) n] put show ?thesis unfolding ce3 by auto
qed

definition edge_env :: "ClusterEnvironmentState \<Rightarrow> ClusterEnvironment" where
  "edge_env st =
     \<lparr>ce_meta = (new_meta ''primaza'' ''edge'')\<lparr>om_resourceVersion := ''7'', om_finalizers := [clusterEnvironmentFinalizer]\<rparr>,
      ce_Spec = \<lparr>cesp_EnvironmentName = ''prod'', cesp_ClusterContextSecret = ''edge-kubeconfig'', cesp_Description = '''',
        cesp_Labels = [], cesp_ApplicationNamespaces = [''apps''], cesp_ServiceNamespaces = [''services''],
        cesp_ContactInfo = '''', cesp_SynchronizationStrategy = SyncPush\<rparr>,
      ce_State = st, ce_Conditions = []\<rparr>"

definition edge_secret :: Secret where
  "edge_secret = \<lparr>sec_meta = (new_meta ''primaza'' ''edge-kubeconfig'')\<lparr>om_resourceVersion := ''3''\<rparr>,
     sec_Data = [(''kubeconfig'', ''worker'')], sec_StringData = []\<rparr>"

definition edge_state :: "ClusterEnvironmentState \<Rightarrow> cluster list \<Rightarrow> mem" where
  "edge_state st dead = (mem_of [(0, OClusterEnvironment (edge_env st)), (0, OSecret edge_secret)])\<lparr>m_down := dead\<rparr>"

definition edge_test :: "((err + string \<times> string list \<times> string list) \<times> ClusterEnvironment) \<times> mem" where
  "edge_test = run_state (test_environment (fixed_rules_api [(''apps'', deploy_rule)]) (edge_env CEOffline))
     (edge_state CEOffline [])"

theorem test_environment_reports_witness:
  "\<exists>ce' s'. edge_test = ((Inr (''worker'', [], [''services'']), ce'), s') \<and>
     mem_objs s' 0 KClusterEnvironment (''primaza'', ''edge'') = Some (OClusterEnvironment ce') \<and>
     ce_State ce' = CEPartial"
proof -
  have res: "fst (fst edge_test) = Inr (''worker'', [], [''services''])" by code_simp
  then obtain ce' s' where run: "edge_test = ((Inr (''worker'', [], [''services'']), ce'), s')"
    by (metis prod.collapse)
  have "iteration_order (k_range (fixed_rules_api [(''apps'', deploy_rule)]))"
    by (simp add: fixed_rules_api_def iteration_order_id)
  from test_environment_reports [OF fixed_rules_store, OF fixed_rules_api_granting(1), OF this,
      OF run [unfolded edge_test_def], OF fixed_rules_api_granting(3)]
  have "mem_objs s' (k_self (fixed_rules_api [(''apps'', deploy_rule)])) KClusterEnvironment
      (meta_key (ce_meta (edge_env CEOffline))) = Some (OClusterEnvironment ce') \<and> ce_State ce' = CEPartial"
    by simp
  then have "mem_objs s' 0 KClusterEnvironment (''primaza'', ''edge'') = Some (OClusterEnvironment ce') \<and>
      ce_State ce' = CEPartial"
    by (simp add: fixed_rules_api_def edge_env_def meta_key_def)
  with run show ?thesis by blast
qed

text \<open>C39: Let a cluster environment that is not being deleted and has its finalizer already lead, by its context
  secret, to a cluster that does not answer, while the control plane does. Then a reconciliation of it reports
  that it can not connect, leaves the informers as they are and writes no cluster environment at all: whatever
  state is stored, Online included, stays, although the connection test has computed that the environment is
  offline. (On a first reconciliation the finalizer is added, which writes the environment but not its state.)\<close>

theorem ReconcileEnvironment_unreachable:
  assumes "live_store api objs up down"
    and "up (k_self api) s" and "down c s"
    and "objs s (k_self api) KClusterEnvironment req = Some (OClusterEnvironment ce)"
    and "\<not> om_deletion (ce_meta ce)" and "clusterEnvironmentFinalizer \<in> set (om_finalizers (ce_meta ce))"
    and "context_leads_to api (objs s) ce c"
    and "run_state (ReconcileEnvironment y api lib config infs req) s = ((r, infs'), s')"
  shows "r = Some (Plain ''can not connect to target cluster'') \<and> infs' = infs \<and>
    (\<forall>d n. objs s' d KClusterEnvironment n = objs s d KClusterEnvironment n)"
proof -
  have store: "kube_store api objs" using assms(1) unfolding live_store_def by blast
  from live_store.get_present [OF assms(1,2,4)] obtain s1 where
    g: "run_state (k_get api (k_self api) KClusterEnvironment req) s = (Inr (OClusterEnvironment ce), s1)"
    and o1: "objs s1 = objs s" by blast
  note st1 = live_store.steady_get [OF assms(1)]
  have up1: "up (k_self api) s1" "down c s1"
    by (rule steady_run(1) [OF st1 g assms(2)], rule steady_run(2) [OF st1 g assms(3)])
  have ctx: "context_leads_to api (objs s1) ce c" using assms(7) o1 by simp
  from live_store.retrieve_up [OF assms(1), OF up1(1), OF ctx] obtain cfg s2 where
    q: "run_state (retrieveClusterContextSecret api ce) s1 = ((Inr cfg, ce), s2)"
    and cli: "k_new_client api cfg = Inr c" and down2: "down c s2"
    and o2: "\<forall>d n. objs s2 d KClusterEnvironment n = objs s1 d KClusterEnvironment n"
    using up1 by metis
  obtain t ce2 s3 where t: "run_state (testConnection api cfg ce) s2 = ((t, ce2), s3)" by (metis prod.collapse)
  from live_store.testConnection_down [OF assms(1), OF cli, OF down2, OF t]
  have tv: "t = Some (Plain ''can not connect to target cluster'')" .
  have o3: "objs s3 = objs s2"
    by (rule reads_only [OF _ t], rule kube_store.modifies_testConnection [OF store])
  have "run_state (test_environment api ce) s1 = ((Inl (Plain ''can not connect to target cluster''), ce2), s3)"
    using q t tv by (simp add: test_environment_def)
  moreover have "run_state (add_environment_finalizer api ce) s1 = ((None, ce), s1)"
    using assms(6) by (simp add: add_environment_finalizer_def AddFinalizer_def)
  ultimately have "run_state (ReconcileEnvironment y api lib config infs req) s =
      ((Some (Plain ''can not connect to target cluster''), infs), s3)"
    using g assms(5) by (simp add: ReconcileEnvironment_def get_env_def)
  with assms(8) o1 o2 o3 show ?thesis by simp
qed

definition no_start :: "mem informer_lib" where
  "no_start = \<lparr>il_dynamic = (\<lambda>_. Some (Plain '''')), il_gvk = (\<lambda>_. Inl (Plain '''')), il_mapping = (\<lambda>_. Inl (Plain '''')),
     il_handlers = (\<lambda>_ _. None), il_sync = (\<lambda>_ _. ret True)\<rparr>"

definition sample_config :: ReconcilerConfig where
  "sample_config = \<lparr>cfg_ControlPlaneNamespace = ''primaza'', cfg_AppAgentImage = ''app'', cfg_SvcAgentImage = ''svc'',
     cfg_AppAgentManifest = ''a'', cfg_SvcAgentManifest = ''s'', cfg_AppAgentConfigManifest = ''ac'',
     cfg_SvcAgentConfigManifest = ''sc''\<rparr>"

lemma edge_facts:
  "mem_objs (edge_state st dead) 0 KClusterEnvironment (''primaza'', ''edge'') = Some (OClusterEnvironment (edge_env st))"
  "context_leads_to (mem_api [(''worker'', 1)] 0) (mem_objs (edge_state st dead)) (edge_env st) 1"
  "mem_up 0 (edge_state st [1])" "mem_down 1 (edge_state st [1])"
proof -
  show "mem_objs (edge_state st dead) 0 KClusterEnvironment (''primaza'', ''edge'') = Some (OClusterEnvironment (edge_env st))"
    by (simp add: mem_objs_def edge_state_def mem_of_def is_at_def edge_env_def obj_key_def meta_key_def zombie_def)
  have "mem_objs (edge_state st dead) 0 KSecret (''primaza'', ''edge-kubeconfig'') = Some (OSecret edge_secret)"
    by (simp add: mem_objs_def edge_state_def mem_of_def is_at_def edge_secret_def obj_key_def meta_key_def zombie_def)
  moreover have "ExtractClusterRESTConfig (mem_api [(''worker'', 1)] 0) edge_secret = Inr ''worker''"
    "k_new_client (mem_api [(''worker'', 1)] 0) ''worker'' = Inr 1" "sec_StringData edge_secret = []"
    by (simp_all add: ExtractClusterRESTConfig_def edge_secret_def mem_api_def gm_get_def)
  ultimately show "context_leads_to (mem_api [(''worker'', 1)] 0) (mem_objs (edge_state st dead)) (edge_env st) 1"
    unfolding context_leads_to_def by (auto simp: edge_env_def)
  show "mem_up 0 (edge_state st [1])" "mem_down 1 (edge_state st [1])"
    by (simp_all add: mem_up_def mem_down_def edge_state_def)
qed

theorem ReconcileEnvironment_unreachable_witness:
  "\<exists>r infs s'. run_state (ReconcileEnvironment sample_yaml (mem_api [(''worker'', 1)] 0) no_start
       sample_config \<lparr>svcInformers = [], appInformers = []\<rparr> (''primaza'', ''edge'')) (edge_state CEOnline [1]) =
       ((Some r, infs), s') \<and>
     mem_objs s' 0 KClusterEnvironment (''primaza'', ''edge'') = Some (OClusterEnvironment (edge_env CEOnline))"
proof -
  obtain r infs s' where run: "run_state (ReconcileEnvironment sample_yaml (mem_api [(''worker'', 1)] 0) no_start
      sample_config \<lparr>svcInformers = [], appInformers = []\<rparr> (''primaza'', ''edge'')) (edge_state CEOnline [1]) = ((r, infs), s')"
    by (metis prod.collapse)
  have up: "mem_up (k_self (mem_api [(''worker'', 1)] 0)) (edge_state CEOnline [1])"
    and at: "mem_objs (edge_state CEOnline [1]) (k_self (mem_api [(''worker'', 1)] 0)) KClusterEnvironment
      (''primaza'', ''edge'') = Some (OClusterEnvironment (edge_env CEOnline))"
    using edge_facts by simp_all
  have fin: "\<not> om_deletion (ce_meta (edge_env CEOnline))"
    "clusterEnvironmentFinalizer \<in> set (om_finalizers (ce_meta (edge_env CEOnline)))"
    by (simp_all add: edge_env_def)
  from ReconcileEnvironment_unreachable [OF live.live_store_axioms, OF up, OF edge_facts(4), OF at, OF fin,
      OF edge_facts(2), OF run] run edge_facts(1)
  show ?thesis by auto
qed

subsection \<open>The health monitor\<close>

context live_store
begin

lemma report_offline_up:
  assumes "up (k_self api) s" and "down c s"
    and "objs s (k_self api) KClusterEnvironment (meta_key (ce_meta ce)) = Some (OClusterEnvironment ce)"
    and "ce_meta ce2 = ce_meta ce" and "run_state (report_offline api ce2 r m) s = ((u, ce3), s')"
  shows "u = None \<and> objs s' (k_self api) KClusterEnvironment (meta_key (ce_meta ce)) = Some (OClusterEnvironment ce3) \<and>
    ce_State ce3 = CEOffline \<and> meta_key (ce_meta ce3) = meta_key (ce_meta ce) \<and> ce_Spec ce3 = ce_Spec ce \<and>
    up (k_self api) s' \<and> down c s'"
proof -
  from assms(5) obtain cex sx where x: "run_state (updateClusterEnvironmentStatus api ce2 (offline r m)) s = (cex, sx)"
    and px: "run_state (put_status api cex) sx = ((u, ce3), s')"
    by (auto simp: report_offline_def split: prod.splits)
  from x have cex: "ce_State cex = CEOffline" "ce_meta cex = ce_meta ce"
    by (auto simp: updateClusterEnvironmentStatus_def set_condition_def offline_def assms(4) split: prod.splits)
  have "objs sx = objs s" by (rule reads_only [OF modifies_updateStatus x])
  with assms(3) cex have stored: "objs sx (k_self api) KClusterEnvironment (meta_key (ce_meta cex)) = Some (OClusterEnvironment ce)"
    by simp
  have "up (k_self api) sx"
    using steady_run(1) [OF steady_set_condition] x assms(1) unfolding updateClusterEnvironmentStatus_def by blast
  from put_status_up [OF this _ _ stored px] cex have un: "u = None" by simp
  from put_status_ok [OF px [unfolded un]] stored cex un steady_run [OF steady_report_offline assms(5)] assms(1,2)
  show ?thesis by auto
qed

text \<open>The part of a turn of the monitor that follows the report.\<close>

lemma permission_part_down:
  assumes "up (k_self api) s" and "down c s" and "k_new_client api cfg = Inr c" and "iteration_order (k_range api)"
    and "objs s (k_self api) KClusterEnvironment (meta_key (ce_meta ce)) = Some (OClusterEnvironment ce)"
    and p: "run_state (testNamespacesPermissions api cfg ce) s = ((p, ce4), s1)"
    and e: "run_state (checkExcessPermissions api cfg ce4) s1 = ((e, ce5), s2)"
    and v: "run_state (put_status api ce5) s2 = ((v, ce6), s3)"
  shows "(\<exists>fs. p = Inr fs) \<and>
    objs s3 (k_self api) KClusterEnvironment (meta_key (ce_meta ce)) = Some (OClusterEnvironment ce6) \<and>
    ce_State ce6 = (if cesp_ApplicationNamespaces (ce_Spec ce) = [] \<and> cesp_ServiceNamespaces (ce_Spec ce) = []
      then ce_State ce else CEPartial)"
proof -
  note t = testNamespaces_down [OF assms(2,3,4) p]
  from t checkExcess_fields [OF e] have ce5: "ce_State ce5 = ce_State ce4" "ce_meta ce5 = ce_meta ce" by auto
  have "objs s2 = objs s"
    using reads_only [OF modifies_testNamespaces p] reads_only [OF modifies_checkExcess e] by simp
  with assms(5) ce5 have stored: "objs s2 (k_self api) KClusterEnvironment (meta_key (ce_meta ce5)) = Some (OClusterEnvironment ce)"
    by simp
  have "up (k_self api) s2"
    using steady_run(1) [OF steady_testNamespaces p] steady_run(1) [OF steady_checkExcess e] assms(1) by blast
  from put_status_up [OF this _ _ stored v] ce5 have "v = None" by simp
  with put_status_ok [of ce5 s2 ce6 s3] v t ce5 show ?thesis by auto
qed

end

text \<open>One turn of the health monitor for an environment whose cluster does not answer ends with the
  environment stored as Partial when it has a namespace, although the turn stores Offline first: the
  monitor goes on to the permission tests, which count an unanswered access review as a missing
  permission. Only an environment without namespaces is left Offline.\<close>

theorem monitor_environment_unreachable:
  assumes "live_store api objs up down" and "iteration_order (k_range api)"
    and "up (k_self api) s" and "down c s"
    and "objs s (k_self api) KClusterEnvironment (meta_key (ce_meta ce)) = Some (OClusterEnvironment ce)"
    and "context_leads_to api (objs s) ce c"
    and "run_state (monitor_environment api ce) s = ((), s')"
  shows "\<exists>ce'. objs s' (k_self api) KClusterEnvironment (meta_key (ce_meta ce)) = Some (OClusterEnvironment ce') \<and>
    ce_State ce' = (if cesp_ApplicationNamespaces (ce_Spec ce) = [] \<and> cesp_ServiceNamespaces (ce_Spec ce) = []
      then CEOffline else CEPartial)"
proof -
  have store: "kube_store api objs" using assms(1) unfolding live_store_def by blast
  from live_store.retrieve_up [OF assms(1), OF assms(3), OF assms(6)] obtain cfg s1 where
    q: "run_state (retrieveClusterContextSecret api ce) s = ((Inr cfg, ce), s1)"
    and cli: "k_new_client api cfg = Inr c" and up1: "up (k_self api) s1" "down c s1"
    and o1: "\<forall>d n. objs s1 d KClusterEnvironment n = objs s d KClusterEnvironment n"
    using assms(3,4) by metis
  obtain t ce2 s2 where t: "run_state (testConnection api cfg ce) s1 = ((t, ce2), s2)" by (metis prod.collapse)
  note tc = live_store.testConnection_down [OF assms(1), OF cli, OF up1(2), OF t]
  from testConnection_ok [OF t] tc have ce2: "ce_meta ce2 = ce_meta ce" by auto
  have o2: "objs s2 = objs s1"
    by (rule reads_only [OF _ t], rule kube_store.modifies_testConnection [OF store])
  have up2: "up (k_self api) s2" "down c s2"
    using steady_run [OF live_store.steady_testConnection [OF assms(1)] t] up1 by blast+
  let ?msg = "''connection test failed: '' @ err_text (Plain ''can not connect to target cluster'')"
  obtain u ce3 s3 where u: "run_state (report_offline api ce2 (OtherReason ''HealthCheckFailed'') ?msg) s2 = ((u, ce3), s3)"
    by (metis prod.collapse)
  have "objs s2 (k_self api) KClusterEnvironment (meta_key (ce_meta ce)) = Some (OClusterEnvironment ce)"
    using assms(5) o1 o2 by simp
  note off = live_store.report_offline_up [OF assms(1), OF up2, OF this, OF ce2, OF u]
  obtain p ce4 s4 where p: "run_state (testNamespacesPermissions api cfg ce3) s3 = ((p, ce4), s4)" by (metis prod.collapse)
  obtain e ce5 s5 where e: "run_state (checkExcessPermissions api cfg ce4) s4 = ((e, ce5), s5)" by (metis prod.collapse)
  obtain v ce6 s6 where v: "run_state (put_status api ce5) s5 = ((v, ce6), s6)" by (metis prod.collapse)
  have "up (k_self api) s3" "down c s3"
    "objs s3 (k_self api) KClusterEnvironment (meta_key (ce_meta ce3)) = Some (OClusterEnvironment ce3)"
    using off by auto
  note last = live_store.permission_part_down [OF assms(1), OF this(1,2), OF cli, OF assms(2), OF this(3), OF p, OF e, OF v]
  then have "run_state (monitor_environment api ce) s = ((), s6)"
    using q t tc u off p e v by (auto simp: monitor_environment_def)
  with assms(7) last off show ?thesis by auto
qed

theorem monitor_environment_unreachable_witness:
  "\<exists>s' ce'. run_state (monitor_environment (mem_api [(''worker'', 1)] 0) (edge_env CEOnline)) (edge_state CEOnline [1]) =
       ((), s') \<and>
     mem_objs s' 0 KClusterEnvironment (''primaza'', ''edge'') = Some (OClusterEnvironment ce') \<and>
     ce_State ce' = CEPartial"
proof -
  obtain s' where run: "run_state (monitor_environment (mem_api [(''worker'', 1)] 0) (edge_env CEOnline))
      (edge_state CEOnline [1]) = ((), s')" by (metis (full_types) old.unit.exhaust prod.collapse)
  have key: "meta_key (ce_meta (edge_env CEOnline)) = (''primaza'', ''edge'')"
    by (simp add: edge_env_def meta_key_def)
  have it: "iteration_order (k_range (mem_api [(''worker'', 1)] 0))" by (simp add: iteration_order_id)
  have up: "mem_up (k_self (mem_api [(''worker'', 1)] 0)) (edge_state CEOnline [1])"
    and at: "mem_objs (edge_state CEOnline [1]) (k_self (mem_api [(''worker'', 1)] 0)) KClusterEnvironment
      (meta_key (ce_meta (edge_env CEOnline))) = Some (OClusterEnvironment (edge_env CEOnline))"
    using edge_facts key by simp_all
  from monitor_environment_unreachable [OF live.live_store_axioms, OF it, OF up, OF edge_facts(4), OF at,
      OF edge_facts(2), OF run] run key
  show ?thesis by (auto simp: edge_env_def)
qed

subsection \<open>The service catalog of an environment\<close>


lemma offered_in_iff:
  "offered_in env rs \<longleftrightarrow> rs_State rs = RSAvailable \<and> Match env (GetEnvironmentConstraints (rs_Spec rs))"
  by (auto simp: offered_in_def GetEnvironmentConstraints_def split: option.splits)

lemma distinct_names_in_namespace:
  "distinct (map (\<lambda>rs. meta_key (rs_meta rs)) rss) \<Longrightarrow> (\<And>rs. rs \<in> set rss \<Longrightarrow> om_namespace (rs_meta rs) = ns) \<Longrightarrow>
     distinct (map (\<lambda>rs. om_name (rs_meta rs)) rss)"
  by (induction rss) (auto simp: meta_key_def)

text \<open>A service catalog that is created for an environment lists, once each, exactly the registered
  services of the namespace that are available and whose constraints match the environment: the rule
  by which the registered service controller keeps the catalog up to date afterwards.\<close>

theorem CreateServiceCatalog_lists:
  assumes "kube_store api objs" and "om_namespace (ce_meta ce) \<noteq> ''''"
    and "run_state (CreateServiceCatalog api ce) s = (None, s')"
    and "objs s (k_self api) KServiceCatalog (om_namespace (ce_meta ce), cesp_EnvironmentName (ce_Spec ce)) = None"
  shows "\<exists>sc. objs s' (k_self api) KServiceCatalog (om_namespace (ce_meta ce), cesp_EnvironmentName (ce_Spec ce)) =
      Some (OServiceCatalog sc) \<and>
    distinct (map scs_Name (cat_Services (cat_Spec sc))) \<and>
    (\<forall>n. n \<in> scs_Name ` set (cat_Services (cat_Spec sc)) \<longleftrightarrow>
      (\<exists>rs. objs s (k_self api) KRegisteredService (om_namespace (ce_meta ce), n) = Some (ORegisteredService rs) \<and>
        rs_State rs = RSAvailable \<and> Match (cesp_EnvironmentName (ce_Spec ce)) (GetEnvironmentConstraints (rs_Spec rs))))"
proof -
  let ?ns = "om_namespace (ce_meta ce)" and ?env = "cesp_EnvironmentName (ce_Spec ce)"
  obtain l s1 where l: "run_state (k_list api (k_self api) KRegisteredService ?ns []) s = (l, s1)" by fastforce
  with assms(3) obtain xs where xs: "l = Inr xs" by (cases l) (auto simp: CreateServiceCatalog_def map_items_def)
  note listed = kube_store.list_kind [OF assms(1), OF l [unfolded xs] assms(2)]
  let ?rss = "filter (offered_in ?env) (services_of xs)"
  let ?cat = "\<lparr>cat_meta = new_meta ?ns ?env, cat_Spec = \<lparr>cat_Services = map catalog_service ?rss, cat_ClaimedByLabels = []\<rparr>\<rparr>"
  obtain q s2 where q: "run_state (k_create api (k_self api) (OServiceCatalog ?cat)) s1 = (q, s2)" by fastforce
  have key: "obj_key (OServiceCatalog ?cat) = (?ns, ?env)" by (simp add: obj_key_def)
  have "q \<noteq> Inl e" for e
  proof
    assume "q = Inl e"
    with assms(3) l xs q have "IsAlreadyExists e"
      by (auto simp: CreateServiceCatalog_def map_items_def split: if_splits)
    with kube_store.create_exists [OF assms(1), of _ _ s1 e s2] q \<open>q = Inl e\<close> listed assms(4) key show False by force
  qed
  then obtain y where y: "q = Inr y" by (cases q) auto
  with assms(3) l xs q have s2: "s2 = s'" by (auto simp: CreateServiceCatalog_def map_items_def)
  from kube_store.create_ok [OF assms(1), OF q [unfolded y]] key obtain u v st where
    "objs s' (k_self api) KServiceCatalog (?ns, ?env) = Some y" "y = populated u v (copy_status st (OServiceCatalog ?cat))"
    unfolding s2 by auto
  moreover have "copy_status st (OServiceCatalog ?cat) = OServiceCatalog ?cat" by (cases st) simp_all
  ultimately obtain sc where sc: "objs s' (k_self api) KServiceCatalog (?ns, ?env) = Some (OServiceCatalog sc)"
    "cat_Services (cat_Spec sc) = map catalog_service ?rss"
    by (auto simp: populated_def)
  have rs: "rs \<in> set (services_of xs) \<longleftrightarrow> om_namespace (rs_meta rs) = ?ns \<and>
      objs s (k_self api) KRegisteredService (?ns, om_name (rs_meta rs)) = Some (ORegisteredService rs)" for rs
    using listed by (auto simp: services_of_in obj_key_def meta_key_def)
  have "distinct (map (\<lambda>rs. om_name (rs_meta rs)) (services_of xs))"
    by (rule distinct_names_in_namespace [OF distinct_service_keys]) (use listed rs in auto)
  then have "distinct (map scs_Name (cat_Services (cat_Spec sc)))"
    unfolding sc(2) by (simp add: catalog_service_def comp_def distinct_map_filter)
  moreover have "objs s (k_self api) KRegisteredService (?ns, n) = Some (ORegisteredService rs) \<Longrightarrow>
      om_namespace (rs_meta rs) = ?ns \<and> om_name (rs_meta rs) = n" for n rs
    using kube_store.keyed [OF assms(1)] by (fastforce simp: obj_key_def meta_key_def)
  then have "n \<in> scs_Name ` set (cat_Services (cat_Spec sc)) \<longleftrightarrow>
      (\<exists>rs. objs s (k_self api) KRegisteredService (?ns, n) = Some (ORegisteredService rs) \<and>
        rs_State rs = RSAvailable \<and> Match ?env (GetEnvironmentConstraints (rs_Spec rs)))" for n
    unfolding sc(2) using rs by (auto simp: catalog_service_def image_iff offered_in_iff)
  ultimately show ?thesis using sc(1) by blast
qed

text \<open>C30: Removing the service catalog of a deleted environment, in a named namespace, without an error leaves everything as it is
  while another environment of the same name is alive in the namespace, and otherwise leaves no
  catalog of that name that is not itself being deleted; nothing else is touched.\<close>

theorem removeServiceCatalog_last:
  assumes "kube_store api objs" and "om_namespace (ce_meta ce) \<noteq> ''''"
    and "run_state (removeServiceCatalogOnDeletedClusterEnvironment api ce) s = (None, s')"
    and "alive = (\<exists>n ce'. objs s (k_self api) KClusterEnvironment (om_namespace (ce_meta ce), n) =
        Some (OClusterEnvironment ce') \<and> \<not> om_deletion (ce_meta ce') \<and>
        cesp_EnvironmentName (ce_Spec ce') = cesp_EnvironmentName (ce_Spec ce))"
    and "key = (om_namespace (ce_meta ce), cesp_EnvironmentName (ce_Spec ce))"
  shows "(alive \<longrightarrow> objs s' = objs s) \<and>
    (\<not> alive \<longrightarrow> (\<forall>x. objs s' (k_self api) KServiceCatalog key = Some x \<longrightarrow> om_deletion (obj_meta x)) \<and>
       same_but {(k_self api, KServiceCatalog, key)} (objs s) (objs s'))"
proof -
  let ?ns = "om_namespace (ce_meta ce)" and ?env = "cesp_EnvironmentName (ce_Spec ce)"
  obtain l s1 where l: "run_state (k_list api (k_self api) KClusterEnvironment ?ns []) s = (l, s1)" by fastforce
  with assms(3) obtain xs where xs: "l = Inr xs"
    by (cases l) (auto simp: removeServiceCatalogOnDeletedClusterEnvironment_def getRelatedClusterEnvironments_def map_items_def)
  note listed = kube_store.list_kind [OF assms(1), OF l [unfolded xs] assms(2)]
  have keyed: "objs s (k_self api) KClusterEnvironment (?ns, n) = Some (OClusterEnvironment c) \<Longrightarrow>
      om_namespace (ce_meta c) = ?ns \<and> om_name (ce_meta c) = n" for n c
    using kube_store.keyed [OF assms(1)] by (fastforce simp: obj_key_def meta_key_def)
  have "alive \<longleftrightarrow> filterClusterEnvironments ?env (envs_of xs) \<noteq> []"
    using listed keyed unfolding assms(4)
    by (auto simp: filterClusterEnvironments_def filter_empty_conv envs_of_in obj_key_def meta_key_def) blast
  moreover have "s' = s1 \<or> (\<exists>d. run_state (k_delete api (k_self api) KServiceCatalog key) s1 = (d, s') \<and>
      (d = None \<or> (\<exists>e. d = Some e \<and> IsNotFound e)))"
    if "filterClusterEnvironments ?env (envs_of xs) = []"
    using assms(3,5) l xs that
    by (auto simp: removeServiceCatalogOnDeletedClusterEnvironment_def getRelatedClusterEnvironments_def map_items_def
        split: prod.splits option.splits if_splits)
  ultimately show ?thesis
    using assms(3,5) l xs listed kube_store.delete_ok [OF assms(1), of "k_self api" KServiceCatalog key s1 s']
      kube_store.delete_missing [OF assms(1), of "k_self api" KServiceCatalog key s1 _ s']
      kube_store.delete_others [OF assms(1), of "k_self api" KServiceCatalog key s1 _ s']
    by (auto simp: removeServiceCatalogOnDeletedClusterEnvironment_def getRelatedClusterEnvironments_def map_items_def
        split: if_splits prod.splits option.splits)
qed

definition offered_service :: "string \<Rightarrow> RegisteredServiceState \<Rightarrow> string list option \<Rightarrow> RegisteredService" where
  "offered_service n st cs =
     \<lparr>rs_meta = (new_meta ''primaza'' n)\<lparr>om_resourceVersion := ''5''\<rparr>,
      rs_Spec = \<lparr>rssp_Constraints = cs, rssp_HealthCheck = None, rssp_SLA = '''', rssp_ServiceClassIdentity = [],
        rssp_ServiceEndpointDefinition = []\<rparr>,
      rs_State = st\<rparr>"

definition catalog_state :: mem where
  "catalog_state = mem_of [(0, OClusterEnvironment (edge_env CEOnline)),
     (0, ORegisteredService (offered_service ''db'' RSAvailable (Some [''prod'']))),
     (0, ORegisteredService (offered_service ''cache'' RSAvailable (Some [''!prod'']))),
     (0, ORegisteredService (offered_service ''mq'' RSClaimed None))]"

theorem CreateServiceCatalog_lists_witness:
  "\<exists>s' sc. run_state (CreateServiceCatalog (mem_api [] 0) (edge_env CEOnline)) catalog_state = (None, s') \<and>
     mem_objs s' 0 KServiceCatalog (''primaza'', ''prod'') = Some (OServiceCatalog sc) \<and>
     ''db'' \<in> scs_Name ` set (cat_Services (cat_Spec sc)) \<and> ''cache'' \<notin> scs_Name ` set (cat_Services (cat_Spec sc))"
proof -
  have ns: "om_namespace (ce_meta (edge_env CEOnline)) = ''primaza''"
    and env: "cesp_EnvironmentName (ce_Spec (edge_env CEOnline)) = ''prod''" by (simp_all add: edge_env_def)
  have "fst (run_state (CreateServiceCatalog (mem_api [] 0) (edge_env CEOnline)) catalog_state) = None" by code_simp
  then obtain s' where run: "run_state (CreateServiceCatalog (mem_api [] 0) (edge_env CEOnline)) catalog_state = (None, s')"
    by (metis prod.collapse)
  have fresh: "mem_objs catalog_state (k_self (mem_api [] 0)) KServiceCatalog
      (om_namespace (ce_meta (edge_env CEOnline)), cesp_EnvironmentName (ce_Spec (edge_env CEOnline))) = None" by code_simp
  have at: "mem_objs catalog_state 0 KRegisteredService (''primaza'', ''db'') =
      Some (ORegisteredService (offered_service ''db'' RSAvailable (Some [''prod''])))"
    "mem_objs catalog_state 0 KRegisteredService (''primaza'', ''cache'') =
      Some (ORegisteredService (offered_service ''cache'' RSAvailable (Some [''!prod''])))" by code_simp+
  have m: "Match ''prod'' [''prod'']" "\<not> Match ''prod'' [''!prod'']" by code_simp+
  from CreateServiceCatalog_lists [OF mem.kube_store_axioms, OF _ run fresh] ns env obtain sc where
    sc: "mem_objs s' 0 KServiceCatalog (''primaza'', ''prod'') = Some (OServiceCatalog sc)"
    and "\<And>n. n \<in> scs_Name ` set (cat_Services (cat_Spec sc)) \<longleftrightarrow>
      (\<exists>rs. mem_objs catalog_state 0 KRegisteredService (''primaza'', n) = Some (ORegisteredService rs) \<and>
        rs_State rs = RSAvailable \<and> Match ''prod'' (GetEnvironmentConstraints (rs_Spec rs)))" by auto
  with at m have "''db'' \<in> scs_Name ` set (cat_Services (cat_Spec sc))"
    "''cache'' \<notin> scs_Name ` set (cat_Services (cat_Spec sc))"
    by (simp_all add: offered_service_def GetEnvironmentConstraints_def)
  with run sc show ?thesis by blast
qed

definition dying_env :: ClusterEnvironment where
  "dying_env = (edge_env CEOnline)\<lparr>ce_meta := (ce_meta (edge_env CEOnline))\<lparr>om_name := ''old'', om_deletion := True\<rparr>\<rparr>"

definition two_envs :: "ClusterEnvironment list \<Rightarrow> mem" where
  "two_envs ces = mem_of ((0, OServiceCatalog \<lparr>cat_meta = (new_meta ''primaza'' ''prod'')\<lparr>om_resourceVersion := ''2''\<rparr>,
       cat_Spec = \<lparr>cat_Services = [], cat_ClaimedByLabels = []\<rparr>\<rparr>) # map (\<lambda>ce. (0, OClusterEnvironment ce)) ces)"

theorem removeServiceCatalog_last_witness:
  "(\<exists>s'. run_state (removeServiceCatalogOnDeletedClusterEnvironment (mem_api [] 0) dying_env)
       (two_envs [dying_env, edge_env CEOnline]) = (None, s') \<and>
      mem_objs s' 0 KServiceCatalog (''primaza'', ''prod'') \<noteq> None) \<and>
   (\<exists>s'. run_state (removeServiceCatalogOnDeletedClusterEnvironment (mem_api [] 0) dying_env)
       (two_envs [dying_env]) = (None, s') \<and>
      (\<forall>x. mem_objs s' 0 KServiceCatalog (''primaza'', ''prod'') = Some x \<longrightarrow> om_deletion (obj_meta x)))"
proof -
  have ns: "om_namespace (ce_meta dying_env) = ''primaza''"
    and env: "cesp_EnvironmentName (ce_Spec dying_env) = ''prod''" by (simp_all add: dying_env_def edge_env_def)
  let ?run = "\<lambda>ces. run_state (removeServiceCatalogOnDeletedClusterEnvironment (mem_api [] 0) dying_env) (two_envs ces)"
  have "fst (?run [dying_env, edge_env CEOnline]) = None" "fst (?run [dying_env]) = None" by code_simp+
  then obtain s1 s2 where run: "?run [dying_env, edge_env CEOnline] = (None, s1)" "?run [dying_env] = (None, s2)"
    by (metis prod.collapse)
  note spec = removeServiceCatalog_last [OF mem.kube_store_axioms, OF _ run(1) refl refl]
    removeServiceCatalog_last [OF mem.kube_store_axioms, OF _ run(2) refl refl]
  have "mem_objs (two_envs [dying_env, edge_env CEOnline]) 0 KClusterEnvironment (''primaza'', ''edge'') =
      Some (OClusterEnvironment (edge_env CEOnline))"
    "mem_objs (two_envs [dying_env, edge_env CEOnline]) 0 KServiceCatalog (''primaza'', ''prod'') \<noteq> None" by code_simp+
  moreover have "cesp_EnvironmentName (ce_Spec (edge_env CEOnline)) = ''prod''"
    "\<not> om_deletion (ce_meta (edge_env CEOnline))" by (simp_all add: edge_env_def)
  ultimately have first: "mem_objs s1 0 KServiceCatalog (''primaza'', ''prod'') \<noteq> None"
    using spec(1) ns env by (metis list.distinct(1) mem_api_simps(1))
  have "mem_objs (two_envs [dying_env]) 0 KClusterEnvironment k = Some (OClusterEnvironment c) \<Longrightarrow> c = dying_env" for k c
    by (auto simp: two_envs_def mem_of_def dest!: mem_objs_in)
  moreover have "om_deletion (ce_meta dying_env)" by (simp add: dying_env_def)
  ultimately have "\<forall>x. mem_objs s2 0 KServiceCatalog (''primaza'', ''prod'') = Some x \<longrightarrow> om_deletion (obj_meta x)"
    using spec(2) ns env by fastforce
  with first run show ?thesis by blast
qed

subsection \<open>Claims that stop the reconciliation of an environment\<close>

lemma CreateOrUpdate_mutate_fails:
  assumes "\<And>x. \<exists>e. f x = Inl e"
  shows "\<exists>e y s'. run_state (CreateOrUpdate api c x f) s = ((Inl e, y), s')"
proof -
  obtain g s1 where g: "run_state (k_get api c (obj_kind x) (obj_key x)) s = (g, s1)" by fastforce
  have m: "\<exists>e. mutate f n y = Inl e" for n y using assms [of y] by (auto simp: mutate_def)
  show ?thesis
  proof (cases g)
    case (Inl a)
    obtain e where "mutate f (obj_key x) x = Inl e" using m by blast
    with g Inl show ?thesis by (cases "IsNotFound a") (simp_all add: CreateOrUpdate_def Let_def)
  next
    case (Inr b)
    obtain e where "mutate f (obj_key x) b = Inl e" using m by blast
    with g Inr show ?thesis by (simp add: CreateOrUpdate_def Let_def)
  qed
qed

lemma mutate_binding_unbound:
  "scst_RegisteredService (sc_Status sc) = None \<Longrightarrow> \<exists>e. mutate_binding sc x = Inl e"
  by (auto simp: mutate_binding_def split: obj.splits)

lemma push_unbound_claim_fails:
  assumes "scst_RegisteredService (sc_Status sc) = None" and "nss \<noteq> []"
    and "run_state (PushServiceBinding api sc secret None nss cfg) s = ((r, secret'), s')"
  shows "r \<noteq> None"
proof (cases "k_new_client api cfg")
  case (Inl e)
  with assms(3) show ?thesis by (auto simp: PushServiceBinding_def)
next
  case (Inr c)
  obtain ns rest where nss: "nss = ns # rest" using assms(2) by (cases nss) auto
  from CreateOrUpdate_mutate_fails [where f = "mutate_binding sc" and api = api and c = c
      and x = "OServiceBinding (new_binding sc ns)" and s = s] mutate_binding_unbound [OF assms(1)]
  obtain e y s1 where "run_state (CreateOrUpdate api c (OServiceBinding (new_binding sc ns)) (mutate_binding sc)) s =
      ((Inl e, y), s1)" by blast
  then have "run_state (pushServiceBindingToNamespace api c ns sc secret) s = ((Some e, secret), s1)"
    by (simp add: pushServiceBindingToNamespace_def)
  then show ?thesis using assms(3) Inr nss
    by (auto simp: PushServiceBinding_def join_collected_def errors_Join_def split: prod.splits sum.splits if_splits)
qed

lemma for_collect_failing:
  assumes "x \<in> set xs" and "\<And>s. fst (run_state (f x) s) \<noteq> None"
  shows "fst (run_state (for_collect f xs) s) \<noteq> Inr []"
  using assms(1)
proof (induction xs arbitrary: s)
  case (Cons y ys)
  obtain r s1 where r: "run_state (f y) s = (r, s1)" by fastforce
  show ?case
  proof (cases r)
    case None
    with r assms(2) [of s] Cons.prems have "x \<in> set ys" by auto
    with Cons.IH [of s1] r None show ?thesis by simp
  next
    case (Some e)
    with r show ?thesis by (auto split: prod.splits sum.splits)
  qed
qed simp

lemma claims_for_environment_mem:
  "claims_for_environment ce scs = Inr ys \<Longrightarrow> sc \<in> set scs \<Longrightarrow> scsp_Target (sc_Spec sc) = Some t \<Longrightarrow>
     sct_EnvironmentTag t = cesp_EnvironmentName (ce_Spec ce) \<Longrightarrow> sc \<in> set ys"
  by (induction scs arbitrary: ys) (auto split: option.splits sum.splits)

text \<open>While a claim that no service is bound to yet names an environment as its target, the bindings of
  that environment cannot be reconciled: with at least one application namespace the operation never
  returns without an error, because the push dereferences the missing service of the claim.\<close>

theorem pending_claim_stops_bindings:
  assumes "live_store api objs up down" and "up (k_self api) s" and "om_namespace (ce_meta ce) \<noteq> ''''"
    and "objs s (k_self api) KServiceClaim (om_namespace (ce_meta ce), n) = Some (OServiceClaim sc)"
    and "scst_RegisteredService (sc_Status sc) = None"
    and "scsp_Target (sc_Spec sc) = Some t" and "sct_EnvironmentTag t = cesp_EnvironmentName (ce_Spec ce)"
    and "sct_EnvironmentTag t \<noteq> ''''" and "nss \<noteq> []"
    and "run_state (reconcileServiceBindingApplicationNamespaces api cfg ce nss) s = (r, s')"
  shows "r \<noteq> None"
proof -
  let ?ns = "om_namespace (ce_meta ce)"
  have store: "kube_store api objs" using assms(1) unfolding live_store_def by blast
  obtain l s1 where l: "run_state (k_list api (k_self api) KServiceClaim ?ns []) s = (l, s1)" by fastforce
  with live_store.list_answers [OF assms(1), OF assms(2)] obtain xs where xs: "l = Inr xs" by (cases l) auto
  from kube_store.list_kind [OF store, OF l [unfolded xs] assms(3)] kube_store.keyed [OF store, OF assms(4)] assms(4)
  have mem: "sc \<in> set (claims_of xs)" by (auto simp: claims_of_in)
  show ?thesis
  proof (cases "claims_for_environment ce (claims_of xs)")
    case (Inl p)
    with assms(10) l xs show ?thesis by (auto simp: reconcileServiceBindingApplicationNamespaces_def map_items_def)
  next
    case (Inr scs)
    have "sc \<in> set scs" by (rule claims_for_environment_mem [OF Inr mem assms(6,7)])
    moreover have "fst (run_state (push_claim_to api cfg ce nss sc) s2) \<noteq> None" for s2
      using assms(6-8) push_unbound_claim_fails [OF assms(5,9), of api "identity_secret sc" cfg s2]
      by (auto simp: push_claim_to_def split: prod.splits)
    ultimately have "fst (run_state (for_collect (push_claim_to api cfg ce nss) scs) s1) \<noteq> Inr []"
      by (rule for_collect_failing)
    moreover from assms(10) l xs Inr
    have "r = join_collected (fst (run_state (for_collect (push_claim_to api cfg ce nss) scs) s1))"
      by (auto simp: reconcileServiceBindingApplicationNamespaces_def map_items_def split: prod.splits)
    ultimately show ?thesis by (simp only: join_collected_None_iff not_False_eq_True)
  qed
qed

definition waiting_claim :: ServiceClaim where
  "waiting_claim =
     \<lparr>sc_meta = (new_meta ''primaza'' ''wish'')\<lparr>om_resourceVersion := ''4''\<rparr>,
      sc_Spec = \<lparr>scsp_ServiceClassIdentity = [], scsp_ServiceEndpointDefinitionKeys = [],
        scsp_Application = \<lparr>as_APIVersion = '''', as_Kind = '''', as_Name = '''', as_Selector = None\<rparr>,
        scsp_Target = Some \<lparr>sct_EnvironmentTag = ''prod'', sct_ApplicationClusterContext = None\<rparr>, scsp_Envs = []\<rparr>,
      sc_Status = \<lparr>scst_State = ClaimPending, scst_ClaimID = ''id'', scst_RegisteredService = None, scst_Conditions = []\<rparr>\<rparr>"

theorem pending_claim_stops_bindings_witness:
  "\<exists>e s'. run_state (reconcileServiceBindingApplicationNamespaces (mem_api [(''worker'', 1)] 0) ''worker''
       (edge_env CEOnline) [''apps'']) (mem_of [(0, OServiceClaim waiting_claim)]) = (Some e, s')"
proof -
  let ?s = "mem_of [(0, OServiceClaim waiting_claim)]" and ?api = "mem_api [(''worker'', 1)] 0"
  obtain r s' where run: "run_state (reconcileServiceBindingApplicationNamespaces ?api ''worker'' (edge_env CEOnline)
      [''apps'']) ?s = (r, s')" by fastforce
  have up: "mem_up (k_self ?api) ?s" by (simp add: mem_up_def mem_of_def)
  have at: "mem_objs ?s (k_self ?api) KServiceClaim (om_namespace (ce_meta (edge_env CEOnline)), ''wish'') =
      Some (OServiceClaim waiting_claim)" by code_simp
  have facts: "scst_RegisteredService (sc_Status waiting_claim) = None"
    "scsp_Target (sc_Spec waiting_claim) = Some \<lparr>sct_EnvironmentTag = ''prod'', sct_ApplicationClusterContext = None\<rparr>"
    "om_namespace (ce_meta (edge_env CEOnline)) \<noteq> ''''" "cesp_EnvironmentName (ce_Spec (edge_env CEOnline)) = ''prod''"
    by (simp_all add: waiting_claim_def edge_env_def)
  have "r \<noteq> None"
    by (rule pending_claim_stops_bindings [OF live.live_store_axioms, OF up, OF facts(3), OF at, OF facts(1,2),
          OF _ _ _ run]) (simp_all add: facts)
  with run show ?thesis by (cases r) auto
qed

end
