(* ===== verification/Informers_Correct.thy ===== *)
theory Informers_Correct
  imports Informers
begin

section \<open>Correctness of the informers\<close>

text \<open>
  Which informers run after a reconciliation, and that the copies the handlers make in the control
  plane agree with what is stored in the worker cluster.
\<close>

subsection \<open>Which informers run\<close>

lemma RunInformer_result:
  "run_state (RunInformer start ce n running) s = ((r, running'), s') \<Longrightarrow>
     set running \<subseteq> set running' \<and> set running' \<subseteq> insert (informer_key ce n) (set running) \<and>
     (r = None \<longrightarrow> informer_key ce n \<in> set running')"
  by (auto simp: RunInformer_def Let_def split: prod.splits if_splits option.splits)

lemma run_each_result:
  "run_state (run_each (RunInformer start ce) running ns) s = ((es, running'), s') \<Longrightarrow>
     set running \<subseteq> set running' \<and> set running' \<subseteq> set running \<union> informer_key ce ` set ns \<and>
     (es = [] \<longrightarrow> informer_key ce ` set ns \<subseteq> set running')"
proof (induction ns arbitrary: running s es)
  case (Cons n ns)
  obtain r r1 s1 where a: "run_state (RunInformer start ce n running) s = ((r, r1), s1)" by (metis prod.collapse)
  obtain es2 r2 s2 where b: "run_state (run_each (RunInformer start ce) r1 ns) s1 = ((es2, r2), s2)" by (metis prod.collapse)
  from Cons.prems a b have res: "es = opt_list r @ es2" "running' = r2" by auto
  from Cons.prems a b have last: "run_state (run_each (RunInformer start ce) r1 ns) s1 = ((es2, running'), s')" by simp
  from RunInformer_result [OF a] Cons.IH [OF last] show ?case unfolding res(1) by auto
qed simp

lemma run_informers_result:
  assumes "iteration_order (k_range api)" and "set declared \<inter> set running = {}"
    and "run_state (run_informers api (RunInformer start ce) declared failed running) s = ((r, running'), s')"
  shows "set running' \<subseteq> informer_key ce ` (set declared - set failed) \<and>
    (r = None \<longrightarrow> set running' = informer_key ce ` (set declared - set failed))"
proof -
  let ?snn = "delete_keys (insert_keys [] declared) failed"
  let ?kept = "filter (\<lambda>k. k \<notin> set (delete_keys (insert_keys [] running) ?snn)) running"
  have kept: "set ?kept = {}" using assms(2) by auto
  obtain es r2 s2 where e: "run_state (run_each (RunInformer start ce) ?kept (k_range api ?snn)) s = ((es, r2), s2)"
    by (metis prod.collapse)
  from assms(3) e have "r = errors_Join es" "running' = r2" by (auto simp: run_informers_def Let_def)
  with run_each_result [OF e] kept show ?thesis
    by (auto simp: iteration_order_set [OF assms(1)])
qed

text \<open>C35: The step of a reconciliation that runs the service informers of an environment (RunSvcInformers, reached
  for environments with the Pull strategy only) stops the service informers of every other environment. Let the
  iteration over a Go map visit its keys in some order, let no service namespace of the environment have a slash
  in its name and let every running key have the form environment/namespace. Then the informers running after
  the step are informers of this environment, for its service namespaces that were not reported as failed; and
  all of those run if the step reports no error. The reason is that the running keys carry the name of their
  environment and are compared with bare namespaces. Application informers are not part of the statement.\<close>

theorem RunSvcInformers_only_own:
  assumes "iteration_order (k_range api)"
    and "\<forall>n\<in>set (cesp_ServiceNamespaces (ce_Spec ce)). CHR ''/'' \<notin> set n"
    and "\<forall>k\<in>set running. \<exists>c n. k = informer_key c n"
    and "run_state (RunSvcInformers api lib cfg ce failed running) s = ((r, running'), s')"
  shows "set running' \<subseteq> informer_key (om_name (ce_meta ce)) ` (set (cesp_ServiceNamespaces (ce_Spec ce)) - set failed) \<and>
    (r = None \<longrightarrow> set running' = informer_key (om_name (ce_meta ce)) `
       (set (cesp_ServiceNamespaces (ce_Spec ce)) - set failed))"
proof -
  have "set (cesp_ServiceNamespaces (ce_Spec ce)) \<inter> set running = {}"
    using assms(2,3) by (fastforce simp: informer_key_def)
  moreover have "RunSvcInformer lib cfg ceName = RunInformer (start_informer lib KRegisteredService cfg) ceName" for ceName
    by (simp add: fun_eq_iff RunSvcInformer_def)
  with assms(4) have "run_state (run_informers api (RunInformer (start_informer lib KRegisteredService cfg) (om_name (ce_meta ce)))
      (cesp_ServiceNamespaces (ce_Spec ce)) failed running) s = ((r, running'), s')"
    by (simp add: RunSvcInformers_def)
  ultimately show ?thesis by (rule run_informers_result [OF assms(1)])
qed

text \<open>A client library that starts every informer.\<close>

definition sample_lib :: "mem informer_lib" where
  "sample_lib = \<lparr>il_dynamic = (\<lambda>_. None),
     il_gvk = (\<lambda>k. Inr (''primaza.io'', ''v1alpha1'', if k = KServiceClaim then ''ServiceClaim'' else ''RegisteredService'')),
     il_mapping = (\<lambda>gvk. if snd (snd gvk) = ''ServiceClaim'' then Inr ''serviceclaims'' else Inr ''registeredservices''),
     il_handlers = (\<lambda>_ _. None), il_sync = (\<lambda>_ _. ret True)\<rparr>"

definition watching_env :: ClusterEnvironment where
  "watching_env =
     \<lparr>ce_meta = new_meta ''primaza'' ''west'',
      ce_Spec = \<lparr>cesp_EnvironmentName = ''prod'', cesp_ClusterContextSecret = ''kc'', cesp_Description = '''', cesp_Labels = [],
        cesp_ApplicationNamespaces = [], cesp_ServiceNamespaces = [''db'', ''mq''], cesp_ContactInfo = '''',
        cesp_SynchronizationStrategy = SyncPull\<rparr>,
      ce_State = CEOnline, ce_Conditions = []\<rparr>"

theorem RunSvcInformers_only_own_witness:
  "\<exists>running'. fst (run_state (RunSvcInformers (mem_api [] 0) sample_lib ''worker'' watching_env [''mq'']
       [informer_key ''east'' ''db'']) (mem_of [])) = (None, running') \<and>
     set running' = {informer_key ''west'' ''db''} \<and> informer_key ''east'' ''db'' \<notin> set running'"
proof -
  let ?m = "RunSvcInformers (mem_api [] 0) sample_lib ''worker'' watching_env [''mq''] [informer_key ''east'' ''db'']"
  have "fst (fst (run_state ?m (mem_of []))) = None" by code_simp
  then obtain running' s' where run: "run_state ?m (mem_of []) = ((None, running'), s')" by (metis prod.collapse)
  have it: "iteration_order (k_range (mem_api [] 0))" by (simp add: iteration_order_id)
  have ns: "\<forall>n\<in>set (cesp_ServiceNamespaces (ce_Spec watching_env)). CHR ''/'' \<notin> set n"
    by (simp add: watching_env_def)
  have "set running' = informer_key (om_name (ce_meta watching_env)) `
      (set (cesp_ServiceNamespaces (ce_Spec watching_env)) - set [''mq''])"
    using RunSvcInformers_only_own [OF it, OF ns, OF _ run] by auto
  then have "set running' = {informer_key ''west'' ''db''}" by (auto simp: watching_env_def)
  with run show ?thesis by (simp add: informer_key_def)
qed

subsection \<open>Copies in the control plane\<close>

definition copies_service :: "RegisteredService \<Rightarrow> obj \<Rightarrow> bool" where
  "copies_service rs x = (\<exists>c. x = ORegisteredService c \<and> rs_Spec c = rs_Spec rs \<and>
     om_labels (rs_meta c) = om_labels (rs_meta rs) \<and> om_annotations (rs_meta c) = om_annotations (rs_meta rs))"

definition has_claim_spec :: "ServiceClaimSpec \<Rightarrow> obj \<Rightarrow> bool" where
  "has_claim_spec sp x = (\<exists>c. x = OServiceClaim c \<and> sc_Spec c = sp)"

lemma stable_copy: "storage_stable (copies_service rs)"
proof (unfold storage_stable_def, intro allI impI conjI)
  fix y u v st old assume "copies_service rs y"
  then obtain c where y: "y = ORegisteredService c" "rs_Spec c = rs_Spec rs"
    "om_labels (rs_meta c) = om_labels (rs_meta rs)" "om_annotations (rs_meta c) = om_annotations (rs_meta rs)"
    unfolding copies_service_def by blast
  then show "copies_service rs (populated u v (copy_status st (merge_string_data y)))"
    by (cases st) (simp_all add: copies_service_def populated_def)
  from y show "copies_service rs (written old v y)"
    by (cases old) (simp_all add: copies_service_def written_def keep_server_fields_def set_version_def)
qed

lemma stable_claim: "storage_stable (has_claim_spec sp)"
proof (unfold storage_stable_def, intro allI impI conjI)
  fix y u v st old assume "has_claim_spec sp y"
  then obtain c where y: "y = OServiceClaim c" "sc_Spec c = sp" unfolding has_claim_spec_def by blast
  then show "has_claim_spec sp (populated u v (copy_status st (merge_string_data y)))"
    by (cases st) (simp_all add: has_claim_spec_def populated_def)
  from y show "has_claim_spec sp (written old v y)"
    by (cases old) (simp_all add: has_claim_spec_def written_def keep_server_fields_def set_version_def)
qed

lemma copy_service_mutates: "mutates_to (copies_service rs) (copy_service rs)"
  by (auto simp: mutates_to_def copies_service_def copy_service_def split: obj.splits)

lemma copy_claim_mutates:
  "mutates_to (has_claim_spec ((sc_Spec sc)\<lparr>scsp_Target := Some \<lparr>sct_EnvironmentTag = '''',
     sct_ApplicationClusterContext = Some \<lparr>acc_ClusterEnvironmentName = ceName, acc_Namespace = ns\<rparr>\<rparr>\<rparr>))
   (copy_claim sc ceName ns)"
  by (auto simp: mutates_to_def has_claim_spec_def copy_claim_def split: obj.splits)

lemma keeps_kind_copy_data: "keeps_kind (copy_data s)"
  by (auto simp: keeps_kind_def copy_data_def split: obj.splits)

context kube_store
begin

lemma copy_data_stores:
  assumes "run_state (CreateOrUpdate api c (OSecret (empty_secret ns n)) (copy_data sec)) s = ((Inr op, z), s')"
    and "\<And>x. objs s c KSecret (ns, n) = Some (OSecret x) \<Longrightarrow> sec_StringData x = []"
  shows "\<exists>x. objs s' c KSecret (ns, n) = Some (OSecret x) \<and> sec_Data x = sec_Data sec"
proof -
  have key: "obj_key (OSecret (empty_secret ns n)) = (ns, n)" by (simp add: obj_key_def empty_secret_def)
  from CreateOrUpdate_ok [OF assms(1) keeps_kind_copy_data, unfolded key] show ?thesis
  proof (elim disjE exE conjE)
    fix y u v st
    assume "copy_data sec (OSecret (empty_secret ns n)) = Inr y"
      "z = populated u v (copy_status st (merge_string_data y))"
      "objs s' c (obj_kind (OSecret (empty_secret ns n))) (ns, n) = Some z"
    then show ?thesis by (cases st) (auto simp: copy_data_def empty_secret_def populated_def)
  next
    fix old
    assume "objs s c (obj_kind (OSecret (empty_secret ns n))) (ns, n) = Some old" "copy_data sec old = Inr old"
      "objs s' = objs s"
    then show ?thesis by (cases old) (auto simp: copy_data_def dest: arg_cong [of _ _ sec_Data])
  next
    fix old y v
    assume old: "objs s c (obj_kind (OSecret (empty_secret ns n))) (ns, n) = Some old"
      and y: "copy_data sec old = Inr y" and z: "z = written old v y"
      and s': "objs s' c (obj_kind (OSecret (empty_secret ns n))) (ns, n) =
        (if om_deletion (obj_meta old) \<and> om_finalizers (obj_meta y) = [] then None else Some z)"
    from y obtain x where x: "old = OSecret x" "y = OSecret (x\<lparr>sec_Data := sec_Data sec\<rparr>)"
      by (cases old) (auto simp: copy_data_def)
    with live [OF old] s' have "objs s' c KSecret (ns, n) = Some z" by auto
    moreover have "sec_StringData x = []" using old x assms(2) by simp
    ultimately show ?thesis using z x
      by (auto simp: written_def keep_server_fields_def set_version_def)
  qed
qed

lemma modifies_copy_service [frame_intros]:
  "KRegisteredService \<in> A \<Longrightarrow> modifies objs (of_kinds A)
     (CreateOrUpdate api c (ORegisteredService r) (copy_service rs))"
  by (intro modifies_CreateOrUpdate mutates_to_keeps_kind [OF copy_service_mutates]) simp

lemma modifies_bakeClient [frame_intros]: "modifies objs K (bakeClient api n ns)"
  unfolding bakeClient_def by (auto intro!: frame_intros split: sum.split)

end

text \<open>When a registered service of a worker cluster is added or updated and the handler reports no error,
  the control plane holds a service of that name with the same specification, labels and annotations,
  and a descriptor secret with the same data as the one in the worker cluster.\<close>

theorem service_upserted_mirrors:
  assumes "kube_store api objs"
    and "run_state (service_upserted api ceName ceNamespace True (Inr rs)) s = (None, s')"
    and "\<forall>n x. objs s (k_self api) KSecret n = Some (OSecret x) \<longrightarrow> sec_StringData x = []"
  shows "(\<exists>c. objs s' (k_self api) KRegisteredService (ceNamespace, om_name (rs_meta rs)) = Some (ORegisteredService c) \<and>
      rs_Spec c = rs_Spec rs \<and> om_labels (rs_meta c) = om_labels (rs_meta rs) \<and>
      om_annotations (rs_meta c) = om_annotations (rs_meta rs)) \<and>
    (\<exists>w remote local.
      objs s w KSecret (om_namespace (rs_meta rs), om_name (rs_meta rs) @ ''-descriptor'') = Some (OSecret remote) \<and>
      objs s' (k_self api) KSecret (ceNamespace, om_name (rs_meta rs) @ ''-descriptor'') = Some (OSecret local) \<and>
      sec_Data local = sec_Data remote)"
proof -
  let ?rs = "ORegisteredService (empty_service ceNamespace (om_name (rs_meta rs)))"
  let ?d = "om_name (rs_meta rs) @ ''-descriptor''"
  have key: "obj_key ?rs = (ceNamespace, om_name (rs_meta rs))" by (simp add: obj_key_def empty_service_def)
  obtain r z s1 where a: "run_state (CreateOrUpdate api (k_self api) ?rs (copy_service rs)) s = ((r, z), s1)"
    by (metis prod.collapse)
  with assms(2) obtain op where r: "r = Inr op" by (cases r) (auto simp: service_upserted_def createUpdate_def)
  from kube_store.CreateOrUpdate_stores [OF assms(1), OF a [unfolded r] copy_service_mutates stable_copy] key
  obtain c where c: "objs s1 (k_self api) KRegisteredService (ceNamespace, om_name (rs_meta rs)) = Some (ORegisteredService c)"
    "rs_Spec c = rs_Spec rs" "om_labels (rs_meta c) = om_labels (rs_meta rs)"
    "om_annotations (rs_meta c) = om_annotations (rs_meta rs)" by (auto simp: copies_service_def)
  have k1: "objs s1 d KSecret n = objs s d KSecret n" for d n
    by (rule same_but_of_kinds [OF modifies_run [OF kube_store.modifies_copy_service [OF assms(1)] a], of "{KRegisteredService}"]) simp_all
  obtain q s2 where b: "run_state (bakeClient api ceName ceNamespace) s1 = (q, s2)" by fastforce
  with assms(2) a r obtain w where q: "q = Inr w" by (cases q) (auto simp: service_upserted_def createUpdate_def)
  have o2: "objs s2 = objs s1" by (rule reads_only [OF kube_store.modifies_bakeClient [OF assms(1)] b])
  obtain g s3 where g: "run_state (get_secret api w (om_namespace (rs_meta rs), ?d)) s2 = (g, s3)" by fastforce
  with assms(2) a r b q obtain sec where gv: "g = Inr sec" by (cases g) (auto simp: service_upserted_def createUpdate_def)
  note remote = kube_store.get_secret_found [OF assms(1), OF g [unfolded gv]]
  have o3: "objs s3 = objs s2" by (rule reads_only [OF kube_store.modifies_get_secret [OF assms(1)] g])
  have name: "om_name (sec_meta sec) = ?d"
    using kube_store.keyed [OF assms(1), OF remote] by (simp add: obj_key_def meta_key_def)
  obtain p z2 s4 where e: "run_state (CreateOrUpdate api (k_self api) (OSecret (empty_secret ceNamespace ?d)) (copy_data sec)) s3 =
      ((p, z2), s4)" by (metis prod.collapse)
  from assms(2) a r b q g gv e name have s4: "s4 = s'" and "err_of p = None"
    by (auto simp: service_upserted_def createUpdate_def)
  then obtain op2 where p: "p = Inr op2" by (cases p) (auto simp: err_of_def)
  have "sec_StringData x = []" if "objs s3 (k_self api) KSecret (ceNamespace, ?d) = Some (OSecret x)" for x
    using that assms(3) k1 o2 o3 by auto
  then obtain x where "objs s' (k_self api) KSecret (ceNamespace, ?d) = Some (OSecret x)" "sec_Data x = sec_Data sec"
    using kube_store.copy_data_stores [OF assms(1), OF e [unfolded p]] unfolding s4 by blast
  moreover have "objs s' d KRegisteredService n = objs s3 d KRegisteredService n" for d n
    by (rule same_but_of_kinds [OF modifies_run [OF kube_store.modifies_CreateOrUpdate [OF assms(1)] e [unfolded s4]],
          of "{KSecret}"]) (simp_all add: keeps_kind_copy_data)
  ultimately show ?thesis using c remote k1 o2 o3 by auto
qed

text \<open>C23: Let the informer of an application namespace be synced and let a claim without an environment tag be added
  there, which converts to a claim. When the handler of the addition ends without an error (the code only logs
  its errors), the control plane holds, in the environment's namespace, a claim of that name with the same
  specification except its target, which is the environment and the namespace that the claim came from.\<close>

theorem claim_added_targets_origin:
  assumes "kube_store api objs"
    and "run_state (claim_added api ce ns True (Inr sc)) s = (None, s')"
    and "\<forall>t. scsp_Target (sc_Spec sc) = Some t \<longrightarrow> sct_EnvironmentTag t = ''''"
  shows "\<exists>c. objs s' (k_self api) KServiceClaim (om_namespace (ce_meta ce), om_name (sc_meta sc)) = Some (OServiceClaim c) \<and>
    sc_Spec c = (sc_Spec sc)\<lparr>scsp_Target := Some \<lparr>sct_EnvironmentTag = '''',
      sct_ApplicationClusterContext = Some \<lparr>acc_ClusterEnvironmentName = om_name (ce_meta ce), acc_Namespace = ns\<rparr>\<rparr>\<rparr>"
proof -
  let ?c = "OServiceClaim (empty_claim (om_namespace (ce_meta ce)) (om_name (sc_meta sc)))"
  have key: "obj_key ?c = (om_namespace (ce_meta ce), om_name (sc_meta sc))" by (simp add: obj_key_def empty_claim_def)
  obtain r z s1 where a: "run_state (CreateOrUpdate api (k_self api) ?c (copy_claim sc (om_name (ce_meta ce)) ns)) s = ((r, z), s1)"
    by (metis prod.collapse)
  from assms(2,3) a have s1: "s1 = s'" "err_of r = None" by (auto simp: claim_added_def split: option.splits)
  then obtain op where r: "r = Inr op" by (cases r) (auto simp: err_of_def)
  from kube_store.CreateOrUpdate_stores [OF assms(1), OF a [unfolded r] copy_claim_mutates stable_claim] key s1(1)
  show ?thesis by (auto simp: has_claim_spec_def)
qed

definition plain_secret :: "string \<Rightarrow> string \<Rightarrow> string \<Rightarrow> string \<Rightarrow> Secret" where
  "plain_secret ns n k v =
     \<lparr>sec_meta = (new_meta ns n)\<lparr>om_resourceVersion := ''1''\<rparr>, sec_Data = [(k, v)], sec_StringData = []\<rparr>"

definition remote_db :: RegisteredService where
  "remote_db = (empty_service ''db'' ''pg'')\<lparr>rs_Spec := \<lparr>rssp_Constraints = Some [''prod''], rssp_HealthCheck = None,
     rssp_SLA = ''gold'', rssp_ServiceClassIdentity = [], rssp_ServiceEndpointDefinition = []\<rparr>\<rparr>"

definition mirror_state :: mem where
  "mirror_state = mem_of [(0, OClusterEnvironment watching_env),
     (0, OSecret (plain_secret ''primaza'' ''kc'' ''kubeconfig'' ''worker'')),
     (1, OSecret (plain_secret ''db'' ''pg-descriptor'' ''host'' ''pg.local''))]"

theorem service_upserted_mirrors_witness:
  "\<exists>s' c local. run_state (service_upserted (mem_api [(''worker'', 1)] 0) ''west'' ''primaza'' True (Inr remote_db)) mirror_state =
       (None, s') \<and>
     mem_objs s' 0 KRegisteredService (''primaza'', ''pg'') = Some (ORegisteredService c) \<and> rs_Spec c = rs_Spec remote_db \<and>
     mem_objs s' 0 KSecret (''primaza'', ''pg-descriptor'') = Some (OSecret local) \<and>
     sec_Data local \<in> {sec_Data x | w x. (w, OSecret x) \<in> set (m_objs mirror_state)}"
proof -
  let ?m = "service_upserted (mem_api [(''worker'', 1)] 0) ''west'' ''primaza'' True (Inr remote_db)"
  have "fst (run_state ?m mirror_state) = None" by code_simp
  then obtain s' where run: "run_state ?m mirror_state = (None, s')" by (metis prod.collapse)
  have "\<forall>n x. mem_objs mirror_state (k_self (mem_api [(''worker'', 1)] 0)) KSecret n = Some (OSecret x) \<longrightarrow>
      sec_StringData x = []"
    by (auto simp: mirror_state_def mem_of_def plain_secret_def dest!: mem_objs_in)
  note mirrors = service_upserted_mirrors [OF mem.kube_store_axioms, OF run this]
  have "om_name (rs_meta remote_db) = ''pg''" by (simp add: remote_db_def empty_service_def)
  with mirrors obtain c w remote local where
    "mem_objs s' 0 KRegisteredService (''primaza'', ''pg'') = Some (ORegisteredService c)" "rs_Spec c = rs_Spec remote_db"
    "mem_objs mirror_state w KSecret (om_namespace (rs_meta remote_db), ''pg-descriptor'') = Some (OSecret remote)"
    "mem_objs s' 0 KSecret (''primaza'', ''pg-descriptor'') = Some (OSecret local)" "sec_Data local = sec_Data remote"
    by auto
  with run mem_objs_in show ?thesis by blast
qed

definition far_claim :: ServiceClaim where
  "far_claim = empty_claim ''apps'' ''want''"

theorem claim_added_targets_origin_witness:
  "\<exists>s' c t. run_state (claim_added (mem_api [] 0) watching_env ''apps'' True (Inr far_claim)) (mem_of []) = (None, s') \<and>
     mem_objs s' 0 KServiceClaim (''primaza'', ''want'') = Some (OServiceClaim c) \<and>
     scsp_Target (sc_Spec c) = Some t \<and>
     sct_ApplicationClusterContext t = Some \<lparr>acc_ClusterEnvironmentName = ''west'', acc_Namespace = ''apps''\<rparr>"
proof -
  let ?m = "claim_added (mem_api [] 0) watching_env ''apps'' True (Inr far_claim)"
  have "fst (run_state ?m (mem_of [])) = None" by code_simp
  then obtain s' where run: "run_state ?m (mem_of []) = (None, s')" by (metis prod.collapse)
  have "\<forall>t. scsp_Target (sc_Spec far_claim) = Some t \<longrightarrow> sct_EnvironmentTag t = ''''"
    by (simp add: far_claim_def empty_claim_def)
  from claim_added_targets_origin [OF mem.kube_store_axioms, OF run this] run show ?thesis
    by (auto simp: far_claim_def empty_claim_def watching_env_def)
qed

end
