(* ===== verification/ServiceClass_Ctrl.thy ===== *)
theory ServiceClass_Ctrl
  imports Controlplane Clustercontext Envtag
begin

section \<open>Service catalogs and service classes in the control plane\<close>

text \<open>
  \<^verbatim>\<open>controllers/servicecatalog\_controller.go\<close> pushes a catalog to the environments of its name;
  \<^verbatim>\<open>controllers/serviceclass\_controller.go\<close> pushes a class to the service namespaces of the
  environments its constraints match and removes it from them on deletion.
\<close>

subsection \<open>\<^verbatim>\<open>servicecatalog\_controller.go\<close>\<close>

definition PushServiceCatalog :: "'s kube \<Rightarrow> ServiceCatalog \<Rightarrow> ClusterEnvironment \<Rightarrow> ('s, err option) state" where
  "PushServiceCatalog api sc ce = do {
     c \<leftarrow> GetClusterRESTConfig api (om_namespace (ce_meta ce)) (cesp_ClusterContextSecret (ce_Spec ce));
     case c of
       Inl e \<Rightarrow> ret (Some e)
     | Inr cfg \<Rightarrow>
         PushServiceCatalogToApplicationNamespaces api sc (cesp_ApplicationNamespaces (ce_Spec ce)) cfg }"

definition ReconcileCatalog :: "'s kube \<Rightarrow> nsname \<Rightarrow> ('s, err option) state" where
  "ReconcileCatalog api req = do {
     g \<leftarrow> get_catalog api (k_self api) req;
     case g of
       Inl e \<Rightarrow> ret (if IsNotFound e then None else Some e)
     | Inr sc \<Rightarrow> do {
         l \<leftarrow> k_list api (k_self api) KClusterEnvironment (fst req) [];
         case map_items envs_of l of
           Inl e \<Rightarrow> ret (IgnoreNotFound e)
         | Inr ces \<Rightarrow> do {
             r \<leftarrow> for_collect (PushServiceCatalog api sc)
                    (filter (\<lambda>ce. cesp_EnvironmentName (ce_Spec ce) = om_name (cat_meta sc)) ces);
             ret (join_collected r) } } }"

subsection \<open>\<^verbatim>\<open>serviceclass\_controller.go\<close>\<close>

text \<open>The controller reuses the finalizer of the cluster environments.\<close>

definition class_finalizer :: string where
  "class_finalizer = ''clusterenvironment.primaza.io/finalizer''"

definition filter_envs :: "string list \<Rightarrow> ClusterEnvironment list \<Rightarrow> ClusterEnvironment list" where
  "filter_envs environmentConstraints ces =
     filter (\<lambda>ce. Match (cesp_EnvironmentName (ce_Spec ce)) environmentConstraints) ces"

definition push_to_env :: "'s kube \<Rightarrow> ServiceClass \<Rightarrow> ClusterEnvironment \<Rightarrow> ('s, err option) state" where
  "push_to_env api sc ce = do {
     c \<leftarrow> CreateClient api ce;
     case c of
       Inl e \<Rightarrow> ret (Some e)
     | Inr cli \<Rightarrow> do {
         r \<leftarrow> PushServiceClassToNamespaces api cli sc (cesp_ServiceNamespaces (ce_Spec ce));
         ret (case r of
                Some e \<Rightarrow> Some (Wrapped (''error pushing service class '' @ quoted (om_name (cl_meta sc)) @ '' to cluster environment '' @
                 quoted (om_name (ce_meta ce))) e)
              | None \<Rightarrow> None) } }"

definition reconcileEnvironments :: "'s kube \<Rightarrow> ServiceClass \<Rightarrow> ('s, err option) state" where
  "reconcileEnvironments api sc = do {
     l \<leftarrow> k_list api (k_self api) KClusterEnvironment '''' [];
     case map_items envs_of l of
       Inl e \<Rightarrow> ret (Some e)
     | Inr ces \<Rightarrow> do {
         r \<leftarrow> for_collect (push_to_env api sc) (filter_envs (class_GetEnvironmentConstraints (cl_Spec sc)) ces);
         ret (join_collected r) } }"

definition getRelatedEnvironments :: "'s kube \<Rightarrow> string list \<Rightarrow> ('s, err + ClusterEnvironment list) state" where
  "getRelatedEnvironments api constraints = do {
     l \<leftarrow> k_list api (k_self api) KClusterEnvironment '''' [];
     ret (case map_items envs_of l of Inl e \<Rightarrow> Inl e | Inr ces \<Rightarrow> Inr (filter_envs constraints ces)) }"

text \<open>A client that cannot be created ends the loop; the errors collected before are dropped with it.\<close>

fun remove_loop :: "'s kube \<Rightarrow> ServiceClass \<Rightarrow> ClusterEnvironment list \<Rightarrow> err list \<Rightarrow> ('s, err option) state" where
  "remove_loop api sc [] errs = ret (errors_Join errs)"
| "remove_loop api sc (ce # ces) errs = do {
     c \<leftarrow> CreateClient api ce;
     case c of
       Inl e \<Rightarrow> ret (Some e)
     | Inr cli \<Rightarrow> do {
         r \<leftarrow> DeleteServiceClassFromNamespaces api cli sc (cesp_ServiceNamespaces (ce_Spec ce));
         remove_loop api sc ces (errs @ (case r of
           Some e \<Rightarrow> [Wrapped (''error deleting service class '' @ quoted (om_name (cl_meta sc)) @ '' to cluster environment '' @
             quoted (om_name (ce_meta ce))) e] | None \<Rightarrow> [])) } }"

definition removeFromEnvironments :: "'s kube \<Rightarrow> ServiceClass \<Rightarrow> ('s, err option) state" where
  "removeFromEnvironments api sc =
     (if clsp_Constraints (cl_Spec sc) = None then ret None
      else do {
        r \<leftarrow> getRelatedEnvironments api (class_GetEnvironmentConstraints (cl_Spec sc));
        case r of
          Inl e \<Rightarrow> ret (Some e)
        | Inr ff \<Rightarrow> remove_loop api sc ff [] })"

definition finalize_class :: "'s kube \<Rightarrow> ServiceClass \<Rightarrow> ('s, err option) state" where
  "finalize_class api sc = removeFromEnvironments api sc"

definition as_class :: "ServiceClass \<Rightarrow> obj \<Rightarrow> ServiceClass" where
  "as_class c x = (case x of OServiceClass c' \<Rightarrow> c' | _ \<Rightarrow> c)"

definition ReconcileClass :: "'s kube \<Rightarrow> nsname \<Rightarrow> ('s, err option) state" where
  "ReconcileClass api req = do {
     g \<leftarrow> get_class api (k_self api) req;
     case g of
       Inl e \<Rightarrow> ret (IgnoreNotFound e)
     | Inr sc \<Rightarrow>
         if om_deletion (cl_meta sc) then
           if ContainsFinalizer (cl_meta sc) class_finalizer then do {
             f \<leftarrow> finalize_class api sc;
             case f of
               Some e \<Rightarrow> ret (Some e)
             | None \<Rightarrow> do {
                 u \<leftarrow> k_update api (k_self api)
                   (OServiceClass (sc\<lparr>cl_meta := snd (RemoveFinalizer (cl_meta sc) class_finalizer)\<rparr>));
                 ret (err_of u) } }
           else ret None
         else
           (case AddFinalizer (cl_meta sc) class_finalizer of
              (True, m) \<Rightarrow> do {
                u \<leftarrow> k_update api (k_self api) (OServiceClass (sc\<lparr>cl_meta := m\<rparr>));
                case u of
                  Inl e \<Rightarrow> ret (Some e)
                | Inr x \<Rightarrow> reconcileEnvironments api (as_class sc x) }
            | (False, _) \<Rightarrow> reconcileEnvironments api sc) }"

end
