(* ===== verification/ServiceClass_Correct.thy ===== *)
theory ServiceClass_Correct
  imports ServiceClass_Ctrl
begin

section \<open>Correctness of the catalog and class controllers\<close>

text \<open>
  A reconciliation without an error has delivered the catalog or the class to every environment it is
  for; a deletion without an error has removed the class from them; a copy that is already missing
  keeps a deletion from ever finishing.
\<close>

text \<open>The context secret of the environment leads to a cluster.\<close>

definition leads_to ::
  "'s kube \<Rightarrow> (cluster \<Rightarrow> okind \<Rightarrow> nsname \<Rightarrow> obj option) \<Rightarrow> ClusterEnvironment \<Rightarrow> cluster \<Rightarrow> bool" where
  "leads_to api f ce w =
     (\<exists>sec cfg. f (k_self api) KSecret (om_namespace (ce_meta ce), cesp_ClusterContextSecret (ce_Spec ce)) =
        Some (OSecret sec) \<and> ExtractClusterRESTConfig api sec = Inr cfg \<and> k_new_client api cfg = Inr w)"

lemma leads_to_unique: "leads_to api f ce w \<Longrightarrow> leads_to api f ce w' \<Longrightarrow> w' = w"
  by (auto simp: leads_to_def)

lemma leads_to_frame:
  "(\<And>n. g (k_self api) KSecret n = f (k_self api) KSecret n) \<Longrightarrow> leads_to api g ce w = leads_to api f ce w"
  by (simp add: leads_to_def)

definition holds_class :: "(cluster \<Rightarrow> okind \<Rightarrow> nsname \<Rightarrow> obj option) \<Rightarrow> ServiceClass \<Rightarrow> cluster \<Rightarrow> string \<Rightarrow> bool" where
  "holds_class f sc w ns =
     (\<exists>x. f w KServiceClass (ns, om_name (cl_meta sc)) = Some x \<and> is_class (cl_Spec sc) x)"

definition holds_catalog :: "(cluster \<Rightarrow> okind \<Rightarrow> nsname \<Rightarrow> obj option) \<Rightarrow> ServiceCatalog \<Rightarrow> cluster \<Rightarrow> string \<Rightarrow> bool" where
  "holds_catalog f sc w ns =
     (\<exists>x. f w KServiceCatalog (ns, om_name (cat_meta sc)) = Some x \<and> is_catalog (cat_Spec sc) x)"

text \<open>Nothing is stored but an object that is being deleted.\<close>

definition going :: "(cluster \<Rightarrow> okind \<Rightarrow> nsname \<Rightarrow> obj option) \<Rightarrow> cluster \<Rightarrow> okind \<Rightarrow> nsname \<Rightarrow> bool" where
  "going f c k n = (\<forall>x. f c k n = Some x \<longrightarrow> om_deletion (obj_meta x))"

context kube_store
begin

lemma GetClusterRESTConfig_leads:
  assumes "run_state (GetClusterRESTConfig api (om_namespace (ce_meta ce)) (cesp_ClusterContextSecret (ce_Spec ce))) s = (Inr cfg, s')"
    and "k_new_client api cfg = Inr w"
  shows "objs s' = objs s \<and> leads_to api (objs s) ce w"
proof -
  let ?n = "(om_namespace (ce_meta ce), cesp_ClusterContextSecret (ce_Spec ce))"
  obtain r s1 where r: "run_state (get_secret api (k_self api) ?n) s = (r, s1)" by fastforce
  with assms(1) obtain sec where sec: "r = Inr sec" "ExtractClusterRESTConfig api sec = Inr cfg" "s1 = s'"
    by (cases r) (auto simp: GetClusterRESTConfig_def getSecret_def split: if_splits)
  from get_secret_found [OF r [unfolded sec(1)]] reads_only [OF modifies_get_secret r] sec assms(2)
  show ?thesis by (auto simp: leads_to_def)
qed

lemma CreateClient_leads:
  assumes "run_state (CreateClient api ce) s = (Inr w, s')"
  shows "objs s' = objs s \<and> leads_to api (objs s) ce w"
proof -
  from assms obtain cfg where
    "run_state (GetClusterRESTConfig api (om_namespace (ce_meta ce)) (cesp_ClusterContextSecret (ce_Spec ce))) s = (Inr cfg, s')"
    "k_new_client api cfg = Inr w"
    by (auto simp: CreateClient_def split: prod.splits sum.splits)
  then show ?thesis by (rule GetClusterRESTConfig_leads)
qed

lemma CreateClient_reads: "run_state (CreateClient api ce) s = (r, s') \<Longrightarrow> objs s' = objs s"
  by (rule reads_only [OF modifies_CreateClient])

subsection \<open>Pushing a class\<close>

lemma push_class_namespaces:
  assumes "run_state (PushServiceClassToNamespaces api cli sc nss) s = (None, s')"
  shows "ns \<in> set nss \<Longrightarrow> holds_class (objs s') sc cli ns"
    and "holds_class (objs s) sc w ns \<Longrightarrow> holds_class (objs s') sc w ns"
    and "objs s' d KSecret n = objs s d KSecret n"
proof -
  note est = for_first_establishes [OF push_class_establishes subset_UNIV assms [unfolded PushServiceClassToNamespaces_def]]
  show "ns \<in> set nss \<Longrightarrow> holds_class (objs s') sc cli ns"
    using est by (auto simp: holds_class_def)
  have sb: "same_but {(c, k, n). c = cli \<and> k = KServiceClass} (objs s) (objs s')"
    by (rule modifies_run [OF modifies_PushServiceClass assms]) simp
  then show "objs s' d KSecret n = objs s d KSecret n" by (simp add: same_but_def)
  show "holds_class (objs s) sc w ns \<Longrightarrow> holds_class (objs s') sc w ns"
    using est sb by (cases "w = cli") (auto simp: holds_class_def same_but_def)
qed

lemma push_to_env_ok:
  assumes "run_state (push_to_env api sc ce) s = (None, s')"
  shows "\<exists>w. leads_to api (objs s') ce w \<and> (\<forall>ns\<in>set (cesp_ServiceNamespaces (ce_Spec ce)). holds_class (objs s') sc w ns)"
    and "holds_class (objs s) sc w ns \<Longrightarrow> holds_class (objs s') sc w ns"
    and "leads_to api (objs s') ce' w' = leads_to api (objs s) ce' w'"
proof -
  obtain c s1 where c: "run_state (CreateClient api ce) s = (c, s1)" by fastforce
  with assms obtain cli where cli: "c = Inr cli"
    and p: "run_state (PushServiceClassToNamespaces api cli sc (cesp_ServiceNamespaces (ce_Spec ce))) s1 = (None, s')"
    by (cases c) (auto simp: push_to_env_def split: prod.splits option.splits)
  from CreateClient_leads [OF c [unfolded cli]] have s1: "objs s1 = objs s" "leads_to api (objs s) ce cli" by auto
  note push = push_class_namespaces [OF p]
  show lt: "leads_to api (objs s') ce' w' = leads_to api (objs s) ce' w'" for ce' w'
    using leads_to_frame [of "objs s'" api "objs s"] push(3) s1(1) by simp
  show "\<exists>w. leads_to api (objs s') ce w \<and> (\<forall>ns\<in>set (cesp_ServiceNamespaces (ce_Spec ce)). holds_class (objs s') sc w ns)"
    using push(1) lt s1(2) by blast
  show "holds_class (objs s) sc w ns \<Longrightarrow> holds_class (objs s') sc w ns" using push(2) s1(1) by simp
qed

lemma push_to_env_establishes:
  "establishes (\<lambda>ce s. \<exists>w. leads_to api (objs s) ce w \<and>
     (\<forall>ns\<in>set (cesp_ServiceNamespaces (ce_Spec ce)). holds_class (objs s) sc w ns)) UNIV (push_to_env api sc)"
proof (rule establishesI)
  fix ce s s' assume run: "run_state (push_to_env api sc ce) s = (None, s')"
  show "\<exists>w. leads_to api (objs s') ce w \<and> (\<forall>ns\<in>set (cesp_ServiceNamespaces (ce_Spec ce)). holds_class (objs s') sc w ns)"
    by (rule push_to_env_ok(1) [OF run])
next
  fix ce ce' s s' assume run: "run_state (push_to_env api sc ce) s = (None, s')"
    and "\<exists>w. leads_to api (objs s) ce' w \<and> (\<forall>ns\<in>set (cesp_ServiceNamespaces (ce_Spec ce')). holds_class (objs s) sc w ns)"
  then show "\<exists>w. leads_to api (objs s') ce' w \<and> (\<forall>ns\<in>set (cesp_ServiceNamespaces (ce_Spec ce')). holds_class (objs s') sc w ns)"
    using push_to_env_ok(2,3) [OF run] by blast
qed

text \<open>The environments of all namespaces, as a listing without a namespace returns them.\<close>

lemma list_envs:
  assumes "run_state (k_list api (k_self api) KClusterEnvironment '''' []) s = (l, s')"
    and "map_items envs_of l = Inr ces"
  shows "objs s' = objs s \<and> (\<forall>ce. ce \<in> set ces \<longleftrightarrow>
    objs s (k_self api) KClusterEnvironment (meta_key (ce_meta ce)) = Some (OClusterEnvironment ce))"
proof -
  from assms(2) obtain xs where l: "l = Inr xs" and ces: "ces = envs_of xs" by (cases l) (auto simp: map_items_def)
  have "ce \<in> set ces \<longleftrightarrow>
      objs s (k_self api) KClusterEnvironment (meta_key (ce_meta ce)) = Some (OClusterEnvironment ce)" for ce
    using list_found [OF assms(1) [unfolded l]] keyed unfolding ces
    by (auto simp: envs_of_in obj_key_def) (metis obj_key_def obj_meta.simps(6))
  with list_reads [OF assms(1)] show ?thesis by blast
qed

lemma reconcileEnvironments_ok:
  assumes "run_state (reconcileEnvironments api sc) s = (None, s')"
    and "objs s (k_self api) KClusterEnvironment (meta_key (ce_meta ce)) = Some (OClusterEnvironment ce)"
    and "Match (cesp_EnvironmentName (ce_Spec ce)) (class_GetEnvironmentConstraints (cl_Spec sc))"
  shows "\<exists>w. leads_to api (objs s') ce w \<and>
    (\<forall>ns\<in>set (cesp_ServiceNamespaces (ce_Spec ce)). holds_class (objs s') sc w ns)"
proof -
  obtain l s1 where l: "run_state (k_list api (k_self api) KClusterEnvironment '''' []) s = (l, s1)" by fastforce
  with assms(1) obtain ces where ces: "map_items envs_of l = Inr ces"
    by (cases "map_items envs_of l") (auto simp: reconcileEnvironments_def)
  let ?ff = "filter_envs (class_GetEnvironmentConstraints (cl_Spec sc)) ces"
  from assms(1) l ces have run: "run_state (for_collect (push_to_env api sc) ?ff) s1 = (Inr [], s')"
    by (auto simp: reconcileEnvironments_def split: prod.splits)
  from list_envs [OF l ces] assms(2,3) have "ce \<in> set ?ff" by (auto simp: filter_envs_def)
  with for_collect_establishes [OF push_to_env_establishes subset_UNIV run] show ?thesis by blast
qed

subsection \<open>Pushing a catalog\<close>

lemma PushServiceCatalog_ok:
  assumes "run_state (PushServiceCatalog api sc ce) s = (None, s')"
  shows "\<exists>w. leads_to api (objs s') ce w \<and> (\<forall>ns\<in>set (cesp_ApplicationNamespaces (ce_Spec ce)). holds_catalog (objs s') sc w ns)"
    and "holds_catalog (objs s) sc w ns \<Longrightarrow> holds_catalog (objs s') sc w ns"
    and "leads_to api (objs s') ce' w' = leads_to api (objs s) ce' w'"
proof -
  obtain c s1 where c: "run_state (GetClusterRESTConfig api (om_namespace (ce_meta ce)) (cesp_ClusterContextSecret (ce_Spec ce))) s = (c, s1)"
    by fastforce
  with assms obtain cfg cli where cfg: "c = Inr cfg" "k_new_client api cfg = Inr cli"
    and p: "run_state (for_collect (push_catalog api cli sc) (cesp_ApplicationNamespaces (ce_Spec ce))) s1 = (Inr [], s')"
    by (cases c) (auto simp: PushServiceCatalog_def PushServiceCatalogToApplicationNamespaces_def split: sum.splits prod.splits)
  from GetClusterRESTConfig_leads [OF c [unfolded cfg(1)] cfg(2)]
  have s1: "objs s1 = objs s" "leads_to api (objs s) ce cli" by auto
  note est = for_collect_establishes [OF push_catalog_establishes subset_UNIV p]
  have "modifies objs {(c, k, n). c = cli \<and> k = KServiceCatalog} (for_collect (push_catalog api cli sc) nss)" for nss
    by (intro frame_intros) simp
  note sb = modifies_run [OF this p]
  show lt: "leads_to api (objs s') ce' w' = leads_to api (objs s) ce' w'" for ce' w'
    using leads_to_frame [of "objs s'" api "objs s"] sb s1(1) by (simp add: same_but_def)
  show "\<exists>w. leads_to api (objs s') ce w \<and> (\<forall>ns\<in>set (cesp_ApplicationNamespaces (ce_Spec ce)). holds_catalog (objs s') sc w ns)"
    using est lt s1(2) unfolding holds_catalog_def by blast
  show "holds_catalog (objs s) sc w ns \<Longrightarrow> holds_catalog (objs s') sc w ns"
    using est sb s1(1) by (cases "w = cli") (auto simp: holds_catalog_def same_but_def)
qed

lemma PushServiceCatalog_establishes:
  "establishes (\<lambda>ce s. \<exists>w. leads_to api (objs s) ce w \<and>
     (\<forall>ns\<in>set (cesp_ApplicationNamespaces (ce_Spec ce)). holds_catalog (objs s) sc w ns)) UNIV (PushServiceCatalog api sc)"
proof (rule establishesI)
  fix ce s s' assume run: "run_state (PushServiceCatalog api sc ce) s = (None, s')"
  show "\<exists>w. leads_to api (objs s') ce w \<and> (\<forall>ns\<in>set (cesp_ApplicationNamespaces (ce_Spec ce)). holds_catalog (objs s') sc w ns)"
    by (rule PushServiceCatalog_ok(1) [OF run])
next
  fix ce ce' s s' assume run: "run_state (PushServiceCatalog api sc ce) s = (None, s')"
    and "\<exists>w. leads_to api (objs s) ce' w \<and> (\<forall>ns\<in>set (cesp_ApplicationNamespaces (ce_Spec ce')). holds_catalog (objs s) sc w ns)"
  then show "\<exists>w. leads_to api (objs s') ce' w \<and> (\<forall>ns\<in>set (cesp_ApplicationNamespaces (ce_Spec ce')). holds_catalog (objs s') sc w ns)"
    using PushServiceCatalog_ok(2,3) [OF run] by blast
qed

end

subsection \<open>Removing a class\<close>

context kube_store
begin

lemma delete_leaves_going:
  "run_state (k_delete api c k n) s = (None, s') \<Longrightarrow> going (objs s') c k n"
  by (drule delete_ok) (auto simp: going_def split: if_splits)

lemma delete_keeps_going:
  assumes "run_state (k_delete api c k n) s = (None, s')" and "going (objs s) c' k' n'"
  shows "going (objs s') c' k' n'"
proof (cases "(c', k', n') = (c, k, n)")
  case True
  with delete_leaves_going [OF assms(1)] show ?thesis by simp
next
  case False
  with delete_others [OF assms(1)] assms(2) show ?thesis by (simp add: same_but_def going_def)
qed

lemma delete_establishes:
  "establishes (\<lambda>ns s. going (objs s) c k (ns, n)) UNIV (\<lambda>ns. k_delete api c k (ns, n))"
  by (rule establishesI) (blast intro: delete_leaves_going, blast intro: delete_keeps_going)

lemma DeleteServiceClass_ok:
  assumes "run_state (DeleteServiceClassFromNamespaces api cli sc nss) s = (None, s')"
  shows "ns \<in> set nss \<Longrightarrow> going (objs s') cli KServiceClass (ns, om_name (cl_meta sc))"
    and "going (objs s) w KServiceClass (ns, om_name (cl_meta sc)) \<Longrightarrow> going (objs s') w KServiceClass (ns, om_name (cl_meta sc))"
    and "objs s' d KSecret m = objs s d KSecret m"
proof -
  note est = for_first_establishes [OF delete_establishes subset_UNIV assms [unfolded DeleteServiceClassFromNamespaces_def]]
  show "ns \<in> set nss \<Longrightarrow> going (objs s') cli KServiceClass (ns, om_name (cl_meta sc))" using est by blast
  have sb: "same_but {(c, k, n). c = cli \<and> k = KServiceClass} (objs s) (objs s')"
    by (rule modifies_run [OF modifies_DeleteServiceClass assms]) simp
  then show "objs s' d KSecret m = objs s d KSecret m" by (simp add: same_but_def)
  show "going (objs s) w KServiceClass (ns, om_name (cl_meta sc)) \<Longrightarrow> going (objs s') w KServiceClass (ns, om_name (cl_meta sc))"
    using est sb by (cases "w = cli") (auto simp: same_but_def going_def)
qed

lemma remove_loop_errors: "run_state (remove_loop api sc ces errs) s = (None, s') \<Longrightarrow> errs = []"
  by (induction ces arbitrary: s errs) (auto split: prod.splits sum.splits)

lemma remove_loop_ok:
  "run_state (remove_loop api sc ces []) s = (None, s') \<Longrightarrow>
     (\<forall>ce\<in>set ces. \<exists>w. leads_to api (objs s) ce w \<and>
        (\<forall>ns\<in>set (cesp_ServiceNamespaces (ce_Spec ce)). going (objs s') w KServiceClass (ns, om_name (cl_meta sc)))) \<and>
     (\<forall>w ns. going (objs s) w KServiceClass (ns, om_name (cl_meta sc)) \<longrightarrow>
        going (objs s') w KServiceClass (ns, om_name (cl_meta sc)))"
proof (induction ces arbitrary: s)
  case (Cons ce ces)
  obtain c s1 where c: "run_state (CreateClient api ce) s = (c, s1)" by fastforce
  with Cons.prems obtain cli where cli: "c = Inr cli" by (cases c) auto
  from CreateClient_leads [OF c [unfolded cli]] have s1: "objs s1 = objs s" "leads_to api (objs s) ce cli" by auto
  obtain r s2 where r: "run_state (DeleteServiceClassFromNamespaces api cli sc (cesp_ServiceNamespaces (ce_Spec ce))) s1 = (r, s2)"
    by fastforce
  with Cons.prems c cli have loop: "run_state (remove_loop api sc ces
      (case r of Some e \<Rightarrow> [Wrapped (''error deleting service class '' @ quoted (om_name (cl_meta sc)) @ '' to cluster environment '' @
             quoted (om_name (ce_meta ce))) e] | None \<Rightarrow> [])) s2 = (None, s')"
    by simp
  from remove_loop_errors [OF loop] have rn: "r = None" by (cases r) auto
  note d = DeleteServiceClass_ok [OF r [unfolded rn]]
  have lt: "leads_to api (objs s2) ce' w = leads_to api (objs s) ce' w" for ce' w
    using leads_to_frame [of "objs s2" api "objs s"] d(3) s1(1) by simp
  note ih = Cons.IH [OF loop [unfolded rn option.case]]
  show ?case
  proof (intro conjI ballI allI impI)
    fix x assume "x \<in> set (ce # ces)"
    then show "\<exists>w. leads_to api (objs s) x w \<and>
        (\<forall>ns\<in>set (cesp_ServiceNamespaces (ce_Spec x)). going (objs s') w KServiceClass (ns, om_name (cl_meta sc)))"
      using ih lt s1(2) d(1) by (cases "x = ce") auto
  next
    fix w ns assume "going (objs s) w KServiceClass (ns, om_name (cl_meta sc))"
    with s1(1) have "going (objs s1) w KServiceClass (ns, om_name (cl_meta sc))" by simp
    with d(2) ih show "going (objs s') w KServiceClass (ns, om_name (cl_meta sc))" by blast
  qed
qed simp

text \<open>A copy that is missing when the loop starts is still missing when its turn comes, and its deletion fails.\<close>

lemma delete_missing_fails:
  "objs s c k n = None \<Longrightarrow> fst (run_state (k_delete api c k n) s) \<noteq> None"
  using delete_ok [of c k n s] by (metis option.distinct(1) prod.collapse)

lemma delete_namespaces_missing:
  assumes "objs s w KServiceClass (ns, n) = None" and "cli = w \<longrightarrow> ns \<in> set nss"
    and "run_state (for_first (\<lambda>ns. k_delete api cli KServiceClass (ns, n)) nss) s = (None, s')"
  shows "cli \<noteq> w \<and> objs s' w KServiceClass (ns, n) = None"
proof -
  have "cli \<noteq> w"
  proof
    assume cw: "cli = w"
    with assms have "ns \<in> set nss" "objs s w KServiceClass (ns, n) = None"
      "run_state (for_first (\<lambda>ns. k_delete api w KServiceClass (ns, n)) nss) s = (None, s')" by auto
    then show False
    proof (induction nss arbitrary: s)
      case (Cons m ms)
      obtain r s1 where r: "run_state (k_delete api w KServiceClass (m, n)) s = (r, s1)" by fastforce
      with Cons.prems(3) have rn: "r = None" and rest: "run_state (for_first (\<lambda>ns. k_delete api w KServiceClass (ns, n)) ms) s1 = (None, s')"
        by (auto split: option.splits)
      from delete_missing_fails [OF Cons.prems(2)] r rn have "m \<noteq> ns" by auto
      with Cons.prems delete_others [OF r] rest Cons.IH [of s1] show False by (auto simp: same_but_def)
    qed simp
  qed
  moreover have "same_but {(c, k, m). c = cli} (objs s) (objs s')"
    by (rule modifies_run [OF _ assms(3)]) (intro frame_intros, simp)
  ultimately show ?thesis using assms(1) by (simp add: same_but_def)
qed

lemma remove_loop_missing:
  "run_state (remove_loop api sc ces errs) s = (r, s') \<Longrightarrow> ce \<in> set ces \<Longrightarrow> leads_to api (objs s) ce w \<Longrightarrow>
     ns \<in> set (cesp_ServiceNamespaces (ce_Spec ce)) \<Longrightarrow> objs s w KServiceClass (ns, om_name (cl_meta sc)) = None \<Longrightarrow>
     r \<noteq> None"
proof (induction ces arbitrary: s errs)
  case (Cons x ces)
  let ?del = "\<lambda>c. DeleteServiceClassFromNamespaces api c sc (cesp_ServiceNamespaces (ce_Spec x))"
  obtain c s1 where c: "run_state (CreateClient api x) s = (c, s1)" by fastforce
  show ?case
  proof (cases c)
    case (Inl e)
    with Cons.prems(1) c show ?thesis by auto
  next
    case (Inr cli)
    from CreateClient_leads [OF c [unfolded Inr]] have s1: "objs s1 = objs s" "leads_to api (objs s) x cli" by auto
    obtain q s2 where q: "run_state (?del cli) s1 = (q, s2)" by fastforce
    show ?thesis
    proof (cases q)
      case (Some e)
      with Cons.prems(1) c Inr q have "run_state (remove_loop api sc ces
          (errs @ [Wrapped (''error deleting service class '' @ quoted (om_name (cl_meta sc)) @ '' to cluster environment '' @
             quoted (om_name (ce_meta x))) e])) s2 = (r, s')" by simp
      with remove_loop_errors [of sc ces _ s2 s'] show ?thesis by (cases r) auto
    next
      case None
      have run: "run_state (for_first (\<lambda>ns. k_delete api cli KServiceClass (ns, om_name (cl_meta sc)))
          (cesp_ServiceNamespaces (ce_Spec x))) s1 = (None, s2)"
        using q None by (simp add: DeleteServiceClassFromNamespaces_def)
      have other: "objs s2 w KServiceClass (ns, om_name (cl_meta sc)) = None \<and> x \<noteq> ce"
      proof (cases "x = ce")
        case True
        with leads_to_unique [OF Cons.prems(3)] s1(2) have "cli = w" by blast
        with delete_namespaces_missing [OF _ _ run, of w ns] Cons.prems(4,5) s1(1) True show ?thesis by simp
      next
        case False
        show ?thesis
        proof (cases "cli = w \<longrightarrow> ns \<in> set (cesp_ServiceNamespaces (ce_Spec x))")
          case True
          with delete_namespaces_missing [OF _ True run] Cons.prems(5) s1(1) False show ?thesis by simp
        next
          case elsewhere: False
          have "same_but {(c, k, m). fst m \<in> set (cesp_ServiceNamespaces (ce_Spec x))} (objs s1) (objs s2)"
            by (rule modifies_run [OF _ run]) (intro frame_intros, simp)
          with elsewhere False Cons.prems(5) s1(1) show ?thesis by (simp add: same_but_def)
        qed
      qed
      have "leads_to api (objs s2) ce w"
        using leads_to_frame [of "objs s2" api "objs s"] DeleteServiceClass_ok(3) [OF q [unfolded None]] s1(1) Cons.prems(3)
        by simp
      moreover from Cons.prems(1) c Inr q None have "run_state (remove_loop api sc ces errs) s2 = (r, s')" by simp
      ultimately show ?thesis using Cons.IH [of errs s2] Cons.prems(2,4) other by auto
    qed
  qed
qed simp

end

subsection \<open>Properties\<close>

text \<open>After a reconciliation of a service catalog without an error, every cluster environment of the
  namespace that has the catalog's name can be reached through its context secret, and each of its
  application namespaces holds a catalog of that name with the same content.\<close>

theorem ReconcileCatalog_delivers:
  assumes "kube_store api objs" and "ns \<noteq> ''''"
    and "run_state (ReconcileCatalog api (ns, n)) s = (None, s')"
    and "objs s (k_self api) KServiceCatalog (ns, n) = Some (OServiceCatalog sc)"
    and "objs s (k_self api) KClusterEnvironment (ns, m) = Some (OClusterEnvironment ce)"
    and "cesp_EnvironmentName (ce_Spec ce) = n"
  shows "\<exists>w. leads_to api (objs s') ce w \<and>
    (\<forall>a\<in>set (cesp_ApplicationNamespaces (ce_Spec ce)).
       \<exists>c. objs s' w KServiceCatalog (a, n) = Some (OServiceCatalog c) \<and> cat_Spec c = cat_Spec sc)"
proof -
  obtain g s1 where g: "run_state (get_catalog api (k_self api) (ns, n)) s = (g, s1)" by fastforce
  have "g = Inr sc"
  proof (cases g)
    case (Inl e)
    with assms(3) g have "IsNotFound e" by (auto simp: ReconcileCatalog_def split: if_splits)
    with kube_store.get_catalog_missing [OF assms(1)] g Inl assms(4) show ?thesis by fastforce
  next
    case (Inr x)
    with kube_store.get_catalog_found [OF assms(1)] g assms(4) show ?thesis by fastforce
  qed
  note g' = g [unfolded this]
  have s1: "objs s1 = objs s" by (rule reads_only [OF kube_store.modifies_get_catalog [OF assms(1)] g])
  obtain l s2 where l: "run_state (k_list api (k_self api) KClusterEnvironment ns []) s1 = (l, s2)" by fastforce
  obtain xs where xs: "l = Inr xs"
  proof (cases l)
    case (Inl e)
    with assms(3) g' l have "IsNotFound e" by (auto simp: ReconcileCatalog_def map_items_def IgnoreNotFound_def split: if_splits)
    with kube_store.list_missing [OF assms(1) l [unfolded Inl]] assms(5) s1 show ?thesis by auto
  qed
  note listed = kube_store.list_kind [OF assms(1) l [unfolded xs] assms(2)]
  have name: "om_name (cat_meta sc) = n" using kube_store.keyed [OF assms(1,4)] by (simp add: obj_key_def meta_key_def)
  let ?ces = "filter (\<lambda>ce. cesp_EnvironmentName (ce_Spec ce) = om_name (cat_meta sc)) (envs_of xs)"
  from assms(3) g' l xs have run: "run_state (for_collect (PushServiceCatalog api sc) ?ces) s2 = (Inr [], s')"
    by (auto simp: ReconcileCatalog_def map_items_def split: prod.splits)
  have "ce \<in> set ?ces"
    using listed assms(5,6) name kube_store.keyed [OF assms(1,5)] s1 by (auto simp: envs_of_in)
  with for_collect_establishes [OF kube_store.PushServiceCatalog_establishes [OF assms(1)] subset_UNIV run] name
  show ?thesis unfolding holds_catalog_def is_catalog_def by (metis (no_types, lifting))
qed

context kube_store
begin

lemma get_class_of:
  assumes "run_state (get_class api c n) s = (g, s')" and "objs s c KServiceClass n = Some (OServiceClass sc)"
    and "\<And>e. g = Inl e \<Longrightarrow> IsNotFound e"
  shows "g = Inr sc \<and> objs s' = objs s"
proof (cases g)
  case (Inl e)
  with get_class_missing assms show ?thesis by fastforce
next
  case (Inr x)
  with get_class_found assms(1,2) reads_only [OF modifies_get_class assms(1)] show ?thesis by fastforce
qed

lemma ReconcileClass_live:
  assumes "run_state (ReconcileClass api req) s = (None, s')"
    and "objs s (k_self api) KServiceClass req = Some (OServiceClass sc)" and "\<not> om_deletion (cl_meta sc)"
  obtains sc1 s1 where "run_state (reconcileEnvironments api sc1) s1 = (None, s')" "cl_Spec sc1 = cl_Spec sc"
    "om_name (cl_meta sc1) = om_name (cl_meta sc)"
    "\<And>c n. objs s1 c KClusterEnvironment n = objs s c KClusterEnvironment n"
proof -
  obtain g s1 where g: "run_state (get_class api (k_self api) req) s = (g, s1)" by fastforce
  have "IsNotFound e" if "g = Inl e" for e
    using assms(1) g that by (auto simp: ReconcileClass_def IgnoreNotFound_def split: if_splits)
  from get_class_of [OF g assms(2) this] have gv: "g = Inr sc" and s1: "objs s1 = objs s" by auto
  show thesis
  proof (cases "AddFinalizer (cl_meta sc) class_finalizer")
    case (Pair b m)
    show thesis
    proof (cases b)
      case False
      with assms(1,3) g gv Pair have "run_state (reconcileEnvironments api sc) s1 = (None, s')"
        by (simp add: ReconcileClass_def)
      then show thesis by (rule that) (simp_all add: s1)
    next
      case True
      let ?x = "OServiceClass (sc\<lparr>cl_meta := m\<rparr>)"
      have m: "om_name m = om_name (cl_meta sc)" using Pair by (auto simp: AddFinalizer_def split: if_splits)
      obtain u s2 where u: "run_state (k_update api (k_self api) ?x) s1 = (u, s2)" by fastforce
      with assms(1,3) g gv Pair True obtain y where y: "u = Inr y"
        and run: "run_state (reconcileEnvironments api (as_class sc y)) s2 = (None, s')"
        by (cases u) (auto simp: ReconcileClass_def)
      from update_ok [OF u [unfolded y]] obtain old v where "y = written old v ?x" by auto
      then have "cl_Spec (as_class sc y) = cl_Spec sc" "om_name (cl_meta (as_class sc y)) = om_name (cl_meta sc)"
        using m by (cases old; simp add: as_class_def written_def keep_server_fields_def set_version_def)+
      moreover have "objs s2 c KClusterEnvironment n = objs s c KClusterEnvironment n" for c n
        using update_others [OF u] s1 by (simp add: same_but_def)
      ultimately show thesis using run by (intro that)
    qed
  qed
qed

end


text \<open>Deleting a service class with constraints never succeeds once a copy is missing: if one service
  namespace of an environment that the constraints match holds no copy of the class, every
  reconciliation of the deletion reports an error, so that the finalizer stays, because a missing copy
  counts as a failed deletion.\<close>

theorem ReconcileClass_missing_copy_blocks:
  assumes "kube_store api objs"
    and "objs s (k_self api) KServiceClass (ns, n) = Some (OServiceClass sc)"
    and "om_deletion (cl_meta sc)" and "class_finalizer \<in> set (om_finalizers (cl_meta sc))"
    and "clsp_Constraints (cl_Spec sc) = Some cs"
    and "objs s (k_self api) KClusterEnvironment k = Some (OClusterEnvironment ce)"
    and "Match (cesp_EnvironmentName (ce_Spec ce)) cs"
    and "leads_to api (objs s) ce w" and "a \<in> set (cesp_ServiceNamespaces (ce_Spec ce))"
    and "objs s w KServiceClass (a, n) = None"
    and "run_state (ReconcileClass api (ns, n)) s = (r, s')"
  shows "r \<noteq> None"
proof
  assume rn: "r = None"
  obtain g s1 where g: "run_state (get_class api (k_self api) (ns, n)) s = (g, s1)" by fastforce
  have "IsNotFound e" if "g = Inl e" for e
    using assms(11) rn g that by (auto simp: ReconcileClass_def IgnoreNotFound_def split: if_splits)
  from kube_store.get_class_of [OF assms(1) g assms(2) this] have gv: "g = Inr sc" and s1: "objs s1 = objs s" by auto
  have keys: "meta_key (ce_meta ce) = k" "om_name (cl_meta sc) = n"
    using kube_store.keyed [OF assms(1,6)] kube_store.keyed [OF assms(1,2)] by (auto simp: obj_key_def meta_key_def)
  obtain l s2 where l: "run_state (k_list api (k_self api) KClusterEnvironment '''' []) s1 = (l, s2)" by fastforce
  have rm: "fst (run_state (removeFromEnvironments api sc) s1) = None"
    using assms(3,4,11) rn g gv
    by (auto simp: ReconcileClass_def finalize_class_def ContainsFinalizer_def split: prod.splits option.splits)
  then obtain ces where ces: "map_items envs_of l = Inr ces"
    using l assms(5) by (cases "map_items envs_of l")
      (auto simp: removeFromEnvironments_def getRelatedEnvironments_def)
  from kube_store.list_envs [OF assms(1) l ces] assms(6,7) keys s1
  have ce: "ce \<in> set (filter_envs cs ces)" and s2: "objs s2 = objs s" by (auto simp: filter_envs_def)
  obtain q s3 where q: "run_state (remove_loop api sc (filter_envs cs ces) []) s2 = (q, s3)" by fastforce
  with rm l ces assms(5) have "q = None"
    by (auto simp: removeFromEnvironments_def getRelatedEnvironments_def class_GetEnvironmentConstraints_def)
  moreover from kube_store.remove_loop_missing [OF assms(1) q ce, of w a] assms(8-10) keys s2 have "q \<noteq> None" by simp
  ultimately show False by simp
qed

text \<open>A deletion of a service class that reports no error leaves, in the service namespaces of the matching
  environments, no copy that is not itself being deleted when the class has constraints; a class
  without constraints, which is pushed to every environment, is deleted without touching any copy.\<close>

theorem ReconcileClass_deletes:
  assumes "kube_store api objs"
    and "objs s (k_self api) KServiceClass (ns, n) = Some (OServiceClass sc)"
    and "om_deletion (cl_meta sc)" and "class_finalizer \<in> set (om_finalizers (cl_meta sc))"
    and "run_state (ReconcileClass api (ns, n)) s = (None, s')"
  shows "case clsp_Constraints (cl_Spec sc) of
      None \<Rightarrow> same_but {(k_self api, KServiceClass, (ns, n))} (objs s) (objs s')
    | Some cs \<Rightarrow> \<forall>k ce. objs s (k_self api) KClusterEnvironment k = Some (OClusterEnvironment ce) \<and>
        Match (cesp_EnvironmentName (ce_Spec ce)) cs \<longrightarrow>
        (\<exists>w. leads_to api (objs s) ce w \<and> (\<forall>a\<in>set (cesp_ServiceNamespaces (ce_Spec ce)).
           (w, a, n) \<noteq> (k_self api, ns, n) \<longrightarrow> going (objs s') w KServiceClass (a, n)))"
proof -
  obtain g s1 where g: "run_state (get_class api (k_self api) (ns, n)) s = (g, s1)" by fastforce
  have "IsNotFound e" if "g = Inl e" for e
    using assms(5) g that by (auto simp: ReconcileClass_def IgnoreNotFound_def split: if_splits)
  from kube_store.get_class_of [OF assms(1) g assms(2) this] have gv: "g = Inr sc" and s1: "objs s1 = objs s" by auto
  have key: "meta_key (cl_meta sc) = (ns, n)" using kube_store.keyed [OF assms(1,2)] by (simp add: obj_key_def)
  let ?x = "OServiceClass (sc\<lparr>cl_meta := snd (RemoveFinalizer (cl_meta sc) class_finalizer)\<rparr>)"
  have xk: "obj_key ?x = (ns, n)" using key by (simp add: obj_key_def RemoveFinalizer_def meta_key_def)
  from assms(3,4,5) g gv obtain s2 u where f: "run_state (removeFromEnvironments api sc) s1 = (None, s2)"
    and u: "run_state (k_update api (k_self api) ?x) s2 = (u, s')"
    by (auto simp: ReconcileClass_def finalize_class_def ContainsFinalizer_def split: prod.splits option.splits)
  have sb: "same_but {(k_self api, KServiceClass, (ns, n))} (objs s2) (objs s')"
    using kube_store.update_others [OF assms(1) u] unfolding xk by simp
  show ?thesis
  proof (cases "clsp_Constraints (cl_Spec sc)")
    case None
    with f have "s2 = s1" by (simp add: removeFromEnvironments_def)
    with sb s1 None show ?thesis by simp
  next
    case (Some cs)
    obtain l s3 where l: "run_state (k_list api (k_self api) KClusterEnvironment '''' []) s1 = (l, s3)" by fastforce
    with f Some obtain ces where ces: "map_items envs_of l = Inr ces"
      by (cases "map_items envs_of l") (auto simp: removeFromEnvironments_def getRelatedEnvironments_def)
    from f l ces Some have run: "run_state (remove_loop api sc (filter_envs cs ces) []) s3 = (None, s2)"
      by (auto simp: removeFromEnvironments_def getRelatedEnvironments_def class_GetEnvironmentConstraints_def)
    note listed = kube_store.list_envs [OF assms(1) l ces]
    have "\<exists>w. leads_to api (objs s) ce w \<and> (\<forall>a\<in>set (cesp_ServiceNamespaces (ce_Spec ce)).
        (w, a, n) \<noteq> (k_self api, ns, n) \<longrightarrow> going (objs s') w KServiceClass (a, n))"
      if at: "objs s (k_self api) KClusterEnvironment k = Some (OClusterEnvironment ce)"
        and m: "Match (cesp_EnvironmentName (ce_Spec ce)) cs" for k ce
    proof -
      have "meta_key (ce_meta ce) = k" using kube_store.keyed [OF assms(1) at] by (simp add: obj_key_def)
      with listed at m s1 have "ce \<in> set (filter_envs cs ces)" "objs s3 = objs s" by (auto simp: filter_envs_def)
      with kube_store.remove_loop_ok [OF assms(1) run] key obtain w where
        w: "leads_to api (objs s) ce w" "\<forall>a\<in>set (cesp_ServiceNamespaces (ce_Spec ce)). going (objs s2) w KServiceClass (a, n)"
        by (auto simp: meta_key_def)
      with sb have "\<forall>a\<in>set (cesp_ServiceNamespaces (ce_Spec ce)).
          (w, a, n) \<noteq> (k_self api, ns, n) \<longrightarrow> going (objs s') w KServiceClass (a, n)"
        by (auto simp: same_but_def going_def)
      with w(1) show ?thesis by blast
    qed
    with Some show ?thesis by auto
  qed
qed

subsection \<open>Instances\<close>

definition west_env :: ClusterEnvironment where
  "west_env =
     \<lparr>ce_meta = (new_meta ''primaza'' ''west'')\<lparr>om_resourceVersion := ''1''\<rparr>,
      ce_Spec = \<lparr>cesp_EnvironmentName = ''prod'', cesp_ClusterContextSecret = ''kc'', cesp_Description = '''', cesp_Labels = [],
        cesp_ApplicationNamespaces = [''apps'', ''web''], cesp_ServiceNamespaces = [''db'', ''mq''], cesp_ContactInfo = '''',
        cesp_SynchronizationStrategy = SyncPush\<rparr>,
      ce_State = CEOnline, ce_Conditions = []\<rparr>"

definition west_secret :: Secret where
  "west_secret = \<lparr>sec_meta = (new_meta ''primaza'' ''kc'')\<lparr>om_resourceVersion := ''1''\<rparr>,
     sec_Data = [(''kubeconfig'', ''worker'')], sec_StringData = []\<rparr>"

definition pg_class :: "string \<Rightarrow> string list option \<Rightarrow> bool \<Rightarrow> ServiceClass" where
  "pg_class ns cs dying = (empty_class ns ''pg'')
     \<lparr>cl_meta := (new_meta ns ''pg'')\<lparr>om_resourceVersion := ''1'', om_deletion := dying,
        om_finalizers := (if dying then [class_finalizer] else [])\<rparr>,
      cl_Spec := (cl_Spec (empty_class ns ''pg''))\<lparr>clsp_Constraints := cs\<rparr>\<rparr>"

definition prod_catalog :: ServiceCatalog where
  "prod_catalog = (empty_catalog ''primaza'' ''prod'')
     \<lparr>cat_meta := (new_meta ''primaza'' ''prod'')\<lparr>om_resourceVersion := ''1''\<rparr>,
      cat_Spec := \<lparr>cat_Services = [\<lparr>scs_Name = ''db'', scs_ServiceClassIdentity = [],
        scs_ServiceEndpointDefinitionKeys = [''host'']\<rparr>], cat_ClaimedByLabels = []\<rparr>\<rparr>"

definition west_state :: "(cluster \<times> obj) list \<Rightarrow> mem" where
  "west_state xs = mem_of ((0, OClusterEnvironment west_env) # (0, OSecret west_secret) # xs)"

abbreviation west_api :: "mem kube" where
  "west_api \<equiv> mem_api [(''worker'', 1)] 0"

lemma west_env_stored:
  "mem_objs (west_state xs) (k_self west_api) KClusterEnvironment (''primaza'', ''west'') = Some (OClusterEnvironment west_env)"
  by (simp add: mem_objs_def west_state_def mem_of_def is_at_def west_env_def obj_key_def meta_key_def zombie_def)

lemma west_leads: "leads_to west_api (mem_objs (west_state xs)) west_env 1"
proof -
  have "mem_objs (west_state xs) 0 KSecret (''primaza'', ''kc'') = Some (OSecret west_secret)"
    by (simp add: mem_objs_def west_state_def mem_of_def is_at_def west_secret_def obj_key_def meta_key_def zombie_def)
  then show ?thesis
    by (auto simp: leads_to_def west_env_def west_secret_def ExtractClusterRESTConfig_def mem_api_def gm_get_def)
qed

theorem ReconcileCatalog_delivers_witness:
  "\<exists>s' w c. run_state (ReconcileCatalog west_api (''primaza'', ''prod'')) (west_state [(0, OServiceCatalog prod_catalog)]) =
       (None, s') \<and> mem_objs s' w KServiceCatalog (''web'', ''prod'') = Some (OServiceCatalog c) \<and>
     cat_Spec c = cat_Spec prod_catalog"
proof -
  let ?s = "west_state [(0, OServiceCatalog prod_catalog)]"
  have "fst (run_state (ReconcileCatalog west_api (''primaza'', ''prod'')) ?s) = None" by code_simp
  then obtain s' where run: "run_state (ReconcileCatalog west_api (''primaza'', ''prod'')) ?s = (None, s')"
    by (metis prod.collapse)
  have at: "mem_objs ?s (k_self west_api) KServiceCatalog (''primaza'', ''prod'') = Some (OServiceCatalog prod_catalog)"
    by code_simp
  have "cesp_EnvironmentName (ce_Spec west_env) = ''prod''" "''web'' \<in> set (cesp_ApplicationNamespaces (ce_Spec west_env))"
    by (simp_all add: west_env_def)
  with ReconcileCatalog_delivers [OF mem.kube_store_axioms, OF _ run at west_env_stored] run show ?thesis by blast
qed


theorem ReconcileClass_missing_copy_blocks_witness:
  "\<exists>e s'. run_state (ReconcileClass west_api (''primaza'', ''pg''))
       (west_state [(0, OServiceClass (pg_class ''primaza'' (Some [''prod'']) True)),
                    (1, OServiceClass (pg_class ''db'' (Some [''prod'']) False))]) = (Some e, s')"
proof -
  let ?c = "pg_class ''primaza'' (Some [''prod'']) True"
  let ?s = "west_state [(0, OServiceClass ?c), (1, OServiceClass (pg_class ''db'' (Some [''prod'']) False))]"
  obtain r s' where run: "run_state (ReconcileClass west_api (''primaza'', ''pg'')) ?s = (r, s')" by fastforce
  have at: "mem_objs ?s (k_self west_api) KServiceClass (''primaza'', ''pg'') = Some (OServiceClass ?c)"
    and missing: "mem_objs ?s 1 KServiceClass (''mq'', ''pg'') = None" by code_simp+
  have c: "om_deletion (cl_meta ?c)" "class_finalizer \<in> set (om_finalizers (cl_meta ?c))"
    "clsp_Constraints (cl_Spec ?c) = Some [''prod'']" by (simp_all add: pg_class_def)
  have m: "Match (cesp_EnvironmentName (ce_Spec west_env)) [''prod'']" by code_simp
  have ns: "''mq'' \<in> set (cesp_ServiceNamespaces (ce_Spec west_env))" by (simp add: west_env_def)
  from ReconcileClass_missing_copy_blocks [OF mem.kube_store_axioms, OF at c west_env_stored m west_leads ns missing run]
  have "r \<noteq> None" .
  with run show ?thesis by (cases r) auto
qed

theorem ReconcileClass_deletes_witness:
  "\<exists>s'. run_state (ReconcileClass west_api (''primaza'', ''pg''))
       (west_state [(0, OServiceClass (pg_class ''primaza'' (Some [''prod'']) True)),
                    (1, OServiceClass (pg_class ''db'' (Some [''prod'']) False)),
                    (1, OServiceClass (pg_class ''mq'' (Some [''prod'']) False))]) = (None, s') \<and>
     going (mem_objs s') 1 KServiceClass (''db'', ''pg'') \<and> going (mem_objs s') 1 KServiceClass (''mq'', ''pg'')"
proof -
  let ?c = "pg_class ''primaza'' (Some [''prod'']) True"
  let ?s = "west_state [(0, OServiceClass ?c), (1, OServiceClass (pg_class ''db'' (Some [''prod'']) False)),
    (1, OServiceClass (pg_class ''mq'' (Some [''prod'']) False))]"
  have "fst (run_state (ReconcileClass west_api (''primaza'', ''pg'')) ?s) = None" by code_simp
  then obtain s' where run: "run_state (ReconcileClass west_api (''primaza'', ''pg'')) ?s = (None, s')"
    by (metis prod.collapse)
  have at: "mem_objs ?s (k_self west_api) KServiceClass (''primaza'', ''pg'') = Some (OServiceClass ?c)" by code_simp
  have c: "om_deletion (cl_meta ?c)" "class_finalizer \<in> set (om_finalizers (cl_meta ?c))"
    "clsp_Constraints (cl_Spec ?c) = Some [''prod'']" by (simp_all add: pg_class_def)
  have m: "Match (cesp_EnvironmentName (ce_Spec west_env)) [''prod'']" by code_simp
  note all = ReconcileClass_deletes [OF mem.kube_store_axioms, OF at c(1,2) run, unfolded c(3) option.case]
  from all west_env_stored m obtain w where
    w: "leads_to west_api (mem_objs ?s) west_env w" "\<forall>a\<in>set (cesp_ServiceNamespaces (ce_Spec west_env)).
      (w, a, ''pg'') \<noteq> (k_self west_api, ''primaza'', ''pg'') \<longrightarrow> going (mem_objs s') w KServiceClass (a, ''pg'')"
    by blast
  with leads_to_unique [OF west_leads] run show ?thesis by (fastforce simp: west_env_def)
qed

end
