(* ===== verification/AppBinding_Ctrl.thy ===== *)
theory AppBinding_Ctrl
  imports Mem_Api
begin

section \<open>Binding applications: \<^verbatim>\<open>controllers/agents/app/servicebinding\_controller.go\<close>\<close>

text \<open>
  The application agent mounts the secret of a service binding into every workload the binding selects,
  as a volume and as environment variables, and takes it out again when the binding is deleted. A
  workload is an unstructured object (\<open>Unstructured\<close>); a type assertion on an element that has another
  shape panics. The informers' file watches the workloads with the same operations. Looking up the
  resource of a kind (\<open>mapping\<close>) and starting a client-go informer (\<open>start\<close>) are parameters.
\<close>

subsection \<open>\<^verbatim>\<open>path.Join\<close>\<close>

definition split_path :: "string \<Rightarrow> string list" where
  "split_path s = (let (cur, parts) = foldr (\<lambda>ch (cur, parts).
     if ch = CHR ''/'' then ([], cur # parts) else (ch # cur, parts)) s ([], []) in cur # parts)"

fun clean_parts :: "bool \<Rightarrow> string list \<Rightarrow> string list \<Rightarrow> string list" where
  "clean_parts rooted acc [] = rev acc"
| "clean_parts rooted acc (p # ps) =
     (if p = '''' \<or> p = ''.'' then clean_parts rooted acc ps
      else if p = ''..'' then
        (if acc \<noteq> [] \<and> hd acc \<noteq> ''..'' then clean_parts rooted (tl acc) ps
         else if rooted then clean_parts rooted acc ps
         else clean_parts rooted (''..'' # acc) ps)
      else clean_parts rooted (p # acc) ps)"

fun join_parts :: "string list \<Rightarrow> string" where
  "join_parts [] = ''''"
| "join_parts [p] = p"
| "join_parts (p # ps) = p @ ''/'' @ join_parts ps"

definition path_Clean :: "string \<Rightarrow> string" where
  "path_Clean s =
     (if s = '''' then ''.''
      else let rooted = (hd s = CHR ''/''); body = join_parts (clean_parts rooted [] (split_path s))
           in if rooted then ''/'' @ body else if body = '''' then ''.'' else body)"

definition path_Join :: "string list \<Rightarrow> string" where
  "path_Join elems =
     (let es = filter (\<lambda>e. e \<noteq> '''') elems in if es = [] then '''' else path_Clean (join_parts es))"

subsection \<open>Constants and pointers\<close>

definition ServiceBindingRoot :: string where
  "ServiceBindingRoot = ''SERVICE_BINDING_ROOT''"

definition ServiceBindingFinalizer :: string where
  "ServiceBindingFinalizer = ''servicebindings.primaza.io/finalizer''"

definition binding_gvk :: "string \<times> string" where
  "binding_gvk = (''primaza.io/v1alpha1'', ''ServiceBinding'')"

definition as_binding :: "ServiceBinding \<Rightarrow> obj \<Rightarrow> ServiceBinding" where
  "as_binding b x = (case x of OServiceBinding b' \<Rightarrow> b' | _ \<Rightarrow> b)"

text \<open>\<^verbatim>\<open>unstructured.NestedSlice\<close>: an absent path reads as the empty slice, another value is an error.\<close>

fun nested_slice :: "'a nested \<Rightarrow> err + 'a list" where
  "nested_slice Absent = Inr []"
| "nested_slice NotASlice = Inl (Plain ''accessor error: not a slice'')"
| "nested_slice (Slice xs) = Inr xs"

definition bad_assertion :: err where
  "bad_assertion = Panic ''interface conversion''"

subsection \<open>Binding a container\<close>

definition removeServiceBindingEnvironments :: "EnvVar list \<Rightarrow> ServiceBinding \<Rightarrow> EnvVar list" where
  "removeServiceBindingEnvironments envList sb =
     filter (\<lambda>v. case ev_ValueFrom v of
         Some (SecretKeyRef n k) \<Rightarrow> n \<noteq> sbsp_ServiceEndpointDefinitionSecret (sb_Spec sb)
       | _ \<Rightarrow> False) envList"

definition projected_env :: "string \<Rightarrow> Environment \<Rightarrow> EnvVar" where
  "projected_env secretName e =
     \<lparr>ev_Name = env_Name e, ev_Value = '''', ev_ValueFrom = Some (SecretKeyRef secretName (env_Key e))\<rparr>"

fun put_mount :: "VolumeMount \<Rightarrow> VolumeMount list \<Rightarrow> VolumeMount list" where
  "put_mount v [] = [v]"
| "put_mount v (w # ws) = (if vm_Name w = vm_Name v then v # ws else w # put_mount v ws)"

definition bind_container :: "ServiceBinding \<Rightarrow> string \<Rightarrow> string \<Rightarrow> Secret \<Rightarrow> Container \<Rightarrow> Container" where
  "bind_container sb mountPathDir volumeName psSecret c =
     (let env = removeServiceBindingEnvironments (ctr_Env c) sb @
            map (projected_env (om_name (sec_meta psSecret))) (sbsp_Envs (sb_Spec sb));
          found = (case find (\<lambda>e. ev_Name e = ServiceBindingRoot) env of
            Some e \<Rightarrow> path_Join [ev_Value e, mountPathDir] | None \<Rightarrow> '''');
          (mountPath, env') = (if found = ''''
            then (path_Join [''/bindings'', mountPathDir],
                  env @ [\<lparr>ev_Name = ServiceBindingRoot, ev_Value = ''/bindings'', ev_ValueFrom = None\<rparr>])
            else (found, env))
      in c\<lparr>ctr_Env := env',
          ctr_VolumeMounts := put_mount
            \<lparr>vm_Name = volumeName, vm_MountPath = mountPath, vm_ReadOnly = True, vm_SubPath = ''''\<rparr>
            (ctr_VolumeMounts c)\<rparr>)"

text \<open>The two loops over the containers differ only in what they do to one of them.\<close>

fun each_container :: "(Container \<Rightarrow> err + Container) \<Rightarrow> raw_container list \<Rightarrow> err + raw_container list" where
  "each_container f [] = Inr []"
| "each_container f (BadContainer # cs) = Inl bad_assertion"
| "each_container f (UnconvertibleContainer # cs) = Inl (Plain ''cannot convert the container'')"
| "each_container f (MapContainer c # cs) =
     (case f c of
        Inl e \<Rightarrow> Inl e
      | Inr c' \<Rightarrow> (case each_container f cs of Inl e \<Rightarrow> Inl e | Inr cs' \<Rightarrow> Inr (MapContainer c' # cs')))"

definition updateContainerInfo ::
  "raw_container list \<Rightarrow> ServiceBinding \<Rightarrow> string \<Rightarrow> string \<Rightarrow> Secret \<Rightarrow> err + raw_container list" where
  "updateContainerInfo containers sb mountPathDir volumeName psSecret =
     each_container (\<lambda>c. Inr (bind_container sb mountPathDir volumeName psSecret c)) containers"

text \<open>Both container lists of a workload, in the order of the paths.\<close>

definition on_containers ::
  "(raw_container list \<Rightarrow> err + raw_container list) \<Rightarrow> Unstructured \<Rightarrow> err + Unstructured" where
  "on_containers f u =
     (case nested_slice (u_containers u) of
        Inl e \<Rightarrow> Inl e
      | Inr cs \<Rightarrow>
          (case f cs of
             Inl e \<Rightarrow> Inl e
           | Inr cs' \<Rightarrow>
               (case nested_slice (u_initContainers u) of
                  Inl e \<Rightarrow> Inl e
                | Inr is \<Rightarrow>
                    (case f is of
                       Inl e \<Rightarrow> Inl e
                     | Inr is' \<Rightarrow> Inr (u\<lparr>u_containers := Slice cs', u_initContainers := Slice is'\<rparr>)))))"

subsection \<open>Binding a workload\<close>

fun put_volume :: "Volume \<Rightarrow> raw_volume list \<Rightarrow> err + raw_volume list" where
  "put_volume v [] = Inr [MapVolume v]"
| "put_volume v (BadVolume # ws) = Inl bad_assertion"
| "put_volume v (MapVolume w # ws) =
     (if vol_Name w = vol_Name v then Inr (MapVolume v # ws)
      else case put_volume v ws of Inl e \<Rightarrow> Inl e | Inr ws' \<Rightarrow> Inr (MapVolume w # ws'))"

definition binding_volume :: "ServiceBinding \<Rightarrow> Volume" where
  "binding_volume sb =
     \<lparr>vol_Name = om_name (sb_meta sb),
      vol_Source = SecretVolume (sbsp_ServiceEndpointDefinitionSecret (sb_Spec sb)) False 292\<rparr>"

definition bind_workload :: "ServiceBinding \<Rightarrow> Secret \<Rightarrow> Volume \<Rightarrow> Unstructured \<Rightarrow> err + Unstructured" where
  "bind_workload sb psSecret vol u =
     (case nested_slice (u_volumes u) of
        Inl e \<Rightarrow> Inl e
      | Inr vs \<Rightarrow>
          (case put_volume vol vs of
             Inl e \<Rightarrow> Inl e
           | Inr vs' \<Rightarrow>
               on_containers (\<lambda>cs. updateContainerInfo cs sb (om_name (sb_meta sb)) (om_name (sb_meta sb)) psSecret)
                 (u\<lparr>u_volumes := Slice vs'\<rparr>)))"

definition update_workload :: "'s kube \<Rightarrow> err + Unstructured \<Rightarrow> ('s, err option) state" where
  "update_workload api r =
     (case r of
        Inl e \<Rightarrow> ret (Some e)
      | Inr u \<Rightarrow> do { q \<leftarrow> k_update api (k_self api) (OUnstructured u); ret (err_of q) })"

definition prepareContainerWithMounts ::
  "'s kube \<Rightarrow> ServiceBinding \<Rightarrow> Secret \<Rightarrow> Volume \<Rightarrow> Unstructured \<Rightarrow> ('s, err option) state" where
  "prepareContainerWithMounts api sb psSecret vol application =
     update_workload api (bind_workload sb psSecret vol application)"

subsection \<open>The status of a binding\<close>

definition updateServiceBindingStatus ::
  "'s kube \<Rightarrow> ServiceBinding \<Rightarrow> condition_status \<Rightarrow> string \<Rightarrow> string \<Rightarrow> ServiceBindingState \<Rightarrow>
     ('s, err option \<times> ServiceBinding) state" where
  "updateServiceBindingStatus api sb st reason msg state = do {
     now \<leftarrow> k_now api;
     let c = \<lparr>co_type = ''Bound'', co_status = st, co_observedGeneration = 0, co_lastTransitionTime = now,
              co_reason = reason, co_message = msg\<rparr>;
     let sb1 = sb\<lparr>sb_Status := (sb_Status sb)
       \<lparr>sbst_Conditions := SetStatusCondition now c (sbst_Conditions (sb_Status sb)), sbst_State := state\<rparr>\<rparr>;
     r \<leftarrow> k_status_update api (k_self api) (OServiceBinding sb1);
     ret (case r of Inl e \<Rightarrow> (Some e, sb1) | Inr x \<Rightarrow> (None, as_binding sb1 x)) }"

definition updateServiceBindingStatusWithBindingResult ::
  "'s kube \<Rightarrow> ServiceBinding \<Rightarrow> err list \<Rightarrow> ('s, err option \<times> ServiceBinding) state" where
  "updateServiceBindingStatusWithBindingResult api sb bindingErrors =
     (if length bindingErrors \<noteq> 0
      then updateServiceBindingStatus api sb CondFalse ''Binding Failure'' (err_text (Joined bindingErrors)) SBMalformed
      else updateServiceBindingStatus api sb CondTrue ''Successful'' '''' SBReady)"

definition bindApplications ::
  "'s kube \<Rightarrow> ServiceBinding \<Rightarrow> Secret \<Rightarrow> Volume \<Rightarrow> Unstructured list \<Rightarrow> ('s, err option \<times> ServiceBinding) state" where
  "bindApplications api sb psSecret vol applications = do {
     r \<leftarrow> for_collect (prepareContainerWithMounts api sb psSecret vol) applications;
     case r of
       Inl p \<Rightarrow> ret (Some p, sb)
     | Inr el \<Rightarrow> do {
         (u, sb1) \<leftarrow> updateServiceBindingStatusWithBindingResult api
           (sb\<lparr>sb_Status := (sb_Status sb)\<lparr>sbst_Connections := map (\<lambda>a. om_name (u_meta a)) applications\<rparr>\<rparr>) el;
         ret (case u of Some e \<Rightarrow> Some e | None \<Rightarrow> errors_Join el, sb1) } }"

definition PrepareBinding ::
  "'s kube \<Rightarrow> ServiceBinding \<Rightarrow> Secret \<Rightarrow> Unstructured list \<Rightarrow> ('s, err option \<times> ServiceBinding) state" where
  "PrepareBinding api sb psSecret applications = bindApplications api sb psSecret (binding_volume sb) applications"

subsection \<open>Taking a binding out of a workload\<close>

text \<open>
  \<^verbatim>\<open>for i, x := range xs { if match { xs = append(xs[:i], xs[i+1:]...) } }\<close> ranges over the slice as it was
  when the loop began, while the removal shifts the elements of the shared array: \<open>b\<close> is that array,
  \<open>m\<close> the length of \<^verbatim>\<open>xs\<close>, \<open>n\<close> the number of rounds left from \<open>i\<close> on. A removal past the end of
  the shortened slice panics, and so does an element the test cannot read.
\<close>

fun range_remove_from :: "('a \<Rightarrow> err + bool) \<Rightarrow> nat \<Rightarrow> nat \<Rightarrow> nat \<Rightarrow> 'a list \<Rightarrow> err + 'a list" where
  "range_remove_from test 0 i m b = Inr (take m b)"
| "range_remove_from test (Suc n) i m b =
     (case test (b ! i) of
        Inl e \<Rightarrow> Inl e
      | Inr False \<Rightarrow> range_remove_from test n (Suc i) m b
      | Inr True \<Rightarrow>
          if m < Suc i then Inl (Panic ''slice bounds out of range'')
          else range_remove_from test n (Suc i) (m - 1)
                 (take i b @ drop (Suc i) (take m b) @ drop (m - 1) b))"

definition range_remove :: "('a \<Rightarrow> err + bool) \<Rightarrow> 'a list \<Rightarrow> err + 'a list" where
  "range_remove test xs = range_remove_from test (length xs) 0 (length xs) xs"

definition unbind_container :: "ServiceBinding \<Rightarrow> string \<Rightarrow> Container \<Rightarrow> err + Container" where
  "unbind_container sb volumeName c =
     (case range_remove (\<lambda>v. Inr (vm_Name v = volumeName)) (ctr_VolumeMounts c) of
        Inl e \<Rightarrow> Inl e
      | Inr ms \<Rightarrow>
          (case range_remove (\<lambda>v. Inr (ev_Name v = ServiceBindingRoot)) (ctr_Env c) of
             Inl e \<Rightarrow> Inl e
           | Inr env \<Rightarrow>
               Inr (c\<lparr>ctr_VolumeMounts := ms, ctr_Env := removeServiceBindingEnvironments env sb\<rparr>)))"

definition removeBindingInformationFromContainer ::
  "ServiceBinding \<Rightarrow> raw_container list \<Rightarrow> string \<Rightarrow> err + raw_container list" where
  "removeBindingInformationFromContainer sb containers volumeName =
     each_container (unbind_container sb volumeName) containers"

fun volume_named :: "string \<Rightarrow> raw_volume \<Rightarrow> err + bool" where
  "volume_named n (MapVolume v) = Inr (vol_Name v = n)"
| "volume_named n BadVolume = Inl bad_assertion"

definition unbind_workload :: "ServiceBinding \<Rightarrow> string \<Rightarrow> Unstructured \<Rightarrow> err + Unstructured" where
  "unbind_workload sb volumeName u =
     (case nested_slice (u_volumes u) of
        Inl e \<Rightarrow> Inl e
      | Inr vs \<Rightarrow>
          (case range_remove (volume_named volumeName) vs of
             Inl e \<Rightarrow> Inl e
           | Inr vs' \<Rightarrow>
               on_containers (\<lambda>cs. removeBindingInformationFromContainer sb cs volumeName)
                 (u\<lparr>u_volumes := Slice vs'\<rparr>)))"

definition removeVolumeMountAndEnvironment ::
  "'s kube \<Rightarrow> ServiceBinding \<Rightarrow> string \<Rightarrow> Unstructured \<Rightarrow> ('s, err option) state" where
  "removeVolumeMountAndEnvironment api sb volumeName application =
     (if u_volumes application = Absent then ret None
      else update_workload api (unbind_workload sb volumeName application))"

definition unbindApplications ::
  "'s kube \<Rightarrow> ServiceBinding \<Rightarrow> Unstructured list \<Rightarrow> ('s, err option) state" where
  "unbindApplications api sb applications = do {
     r \<leftarrow> for_collect (removeVolumeMountAndEnvironment api sb (om_name (sb_meta sb))) applications;
     ret (join_collected r) }"

subsection \<open>The workloads and the secret of a binding\<close>

definition lookupWorkload :: "'s kube \<Rightarrow> ServiceBinding \<Rightarrow> string \<Rightarrow> ('s, err + Unstructured) state" where
  "lookupWorkload api sb name =
     get_unstructured api (k_self api) (as_APIVersion (sbsp_Application (sb_Spec sb)))
       (as_Kind (sbsp_Application (sb_Spec sb))) (om_namespace (sb_meta sb), name)"

fun lookup_all :: "'s kube \<Rightarrow> ServiceBinding \<Rightarrow> string list \<Rightarrow> ('s, Unstructured list \<times> err list) state" where
  "lookup_all api sb [] = ret ([], [])"
| "lookup_all api sb (n # ns) = do {
     r \<leftarrow> lookupWorkload api sb n;
     (us, es) \<leftarrow> lookup_all api sb ns;
     ret (case r of Inl e \<Rightarrow> (us, e # es) | Inr u \<Rightarrow> (u # us, es)) }"

definition getBoundApplications ::
  "'s kube \<Rightarrow> ServiceBinding \<Rightarrow> ('s, Unstructured list \<times> err list) state" where
  "getBoundApplications api sb = lookup_all api sb (sbst_Connections (sb_Status sb))"

definition applications_not_found :: err where
  "applications_not_found = Plain ''applications not found''"

definition getApplication :: "'s kube \<Rightarrow> ServiceBinding \<Rightarrow> ('s, err + Unstructured list) state" where
  "getApplication api sb =
     (let app = sbsp_Application (sb_Spec sb) in
      if as_Name app \<noteq> '''' then do {
        r \<leftarrow> lookupWorkload api sb (as_Name app);
        ret (case r of Inl e \<Rightarrow> Inl e | Inr u \<Rightarrow> Inr [u]) }
      else
        (case as_Selector app of
           Some sel \<Rightarrow> do {
             l \<leftarrow> k_list api (k_self api) (KUnstructured (as_APIVersion app) (as_Kind app))
               (om_namespace (sb_meta sb)) (ls_MatchLabels sel);
             ret (case map_items unstructured_of l of
                    Inl e \<Rightarrow> Inl e
                  | Inr us \<Rightarrow> if us = [] then Inl applications_not_found else Inr us) }
         | None \<Rightarrow> ret (Inl applications_not_found)))"

definition GetSecret ::
  "'s kube \<Rightarrow> ServiceBinding \<Rightarrow> Unstructured list \<Rightarrow> ('s, err + Secret) state" where
  "GetSecret api sb applications = do {
     r \<leftarrow> get_secret api (k_self api)
       (om_namespace (sb_meta sb), sbsp_ServiceEndpointDefinitionSecret (sb_Spec sb));
     case r of
       Inr s \<Rightarrow> ret (Inr s)
     | Inl secErr \<Rightarrow> do {
         (e, sb1) \<leftarrow> updateServiceBindingStatus api sb CondFalse ''ErrorFetchSecret'' (err_text secErr) SBMalformed;
         case e of
           Some e' \<Rightarrow> ret (Inl e')
         | None \<Rightarrow> do {
             u \<leftarrow> unbindApplications api sb1 applications;
             ret (Inl (case u of Some e' \<Rightarrow> e' | None \<Rightarrow> secErr)) } } }"

subsection \<open>The informers of the bindings\<close>

text \<open>
  The reconciler keeps one informer per binding name. \<open>mapping\<close> resolves the resource of an API version
  and a kind, \<open>start\<close> creates the informer of a resource in a namespace and waits for its cache.
\<close>

definition ensureInformerIsRunningForResource ::
  "'s kube \<Rightarrow> (string \<Rightarrow> string \<Rightarrow> err option) \<Rightarrow> string list \<Rightarrow> string \<Rightarrow> ServiceBinding \<Rightarrow> err option \<times> string list" where
  "ensureInformerIsRunningForResource api start informers resource sb =
     (if om_name (sb_meta sb) \<in> set informers then (None, informers)
      else case k_in_cluster api of
          Some e \<Rightarrow> (Some e, informers)
        | None \<Rightarrow>
            (case start resource (om_namespace (sb_meta sb)) of
               Some e \<Rightarrow> (Some e, informers)
             | None \<Rightarrow> (None, informers @ [om_name (sb_meta sb)])))"

definition ensureInformerIsRunningForServiceBinding ::
  "'s kube \<Rightarrow> (string \<Rightarrow> string \<Rightarrow> err + string) \<Rightarrow> (string \<Rightarrow> string \<Rightarrow> err option) \<Rightarrow> string list \<Rightarrow>
     ServiceBinding \<Rightarrow> err option \<times> string list" where
  "ensureInformerIsRunningForServiceBinding api mapping start informers sb =
     (case mapping (as_APIVersion (sbsp_Application (sb_Spec sb))) (as_Kind (sbsp_Application (sb_Spec sb))) of
        Inl e \<Rightarrow> (Some e, informers)
      | Inr resource \<Rightarrow> ensureInformerIsRunningForResource api start informers resource sb)"

definition verifyApplicationSatisfiesServiceBindingSpec :: "Unstructured \<Rightarrow> ServiceBinding \<Rightarrow> bool" where
  "verifyApplicationSatisfiesServiceBindingSpec u sb =
     (if as_Name (sbsp_Application (sb_Spec sb)) = om_name (u_meta u) then True
      else case as_Selector (sbsp_Application (sb_Spec sb)) of
          Some sel \<Rightarrow> list_ex (\<lambda>(l, v). gm_get (ls_MatchLabels sel) l = Some v) (om_labels (u_meta u))
        | None \<Rightarrow> False)"

text \<open>
  The handler for an added workload, and the one for an updated one, which has the same body. \<open>sb\<close> is
  the binding as it was when the informer was started.
\<close>

definition prepareAddFunc ::
  "'s kube \<Rightarrow> bool \<Rightarrow> ServiceBinding \<Rightarrow> Unstructured \<Rightarrow> ('s, err option) state" where
  "prepareAddFunc api synced sb u =
     (if \<not> synced \<or> \<not> verifyApplicationSatisfiesServiceBindingSpec u sb then ret None
      else do {
        r \<leftarrow> GetSecret api sb [u];
        case r of
          Inl e \<Rightarrow> ret (Some e)
        | Inr psSecret \<Rightarrow> do {
            g \<leftarrow> get_binding api (k_self api) (meta_key (sb_meta sb));
            case g of
              Inl e \<Rightarrow> ret (Some e)
            | Inr sb' \<Rightarrow> do {
                (e, sb'') \<leftarrow> PrepareBinding api sb' psSecret [u];
                ret e } } })"

definition prepareUpdateFunc ::
  "'s kube \<Rightarrow> bool \<Rightarrow> ServiceBinding \<Rightarrow> Unstructured \<Rightarrow> ('s, err option) state" where
  "prepareUpdateFunc api synced sb future = prepareAddFunc api synced sb future"

definition prepareDeleteFunc ::
  "'s kube \<Rightarrow> bool \<Rightarrow> ServiceBinding \<Rightarrow> Unstructured \<Rightarrow> ('s, err option) state" where
  "prepareDeleteFunc api synced sb u =
     (if \<not> synced then ret None
      else do {
        g \<leftarrow> get_binding api (k_self api) (meta_key (sb_meta sb));
        case g of
          Inl e \<Rightarrow> ret (Some e)
        | Inr sb1 \<Rightarrow>
            if om_name (u_meta u) \<notin> set (sbst_Connections (sb_Status sb1)) then ret None
            else do {
              (e, sb2) \<leftarrow> updateServiceBindingStatus api
                (sb1\<lparr>sb_Status := (sb_Status sb1)\<lparr>sbst_Connections :=
                   filter (\<lambda>b. b \<noteq> om_name (u_meta u)) (sbst_Connections (sb_Status sb1))\<rparr>\<rparr>)
                CondFalse ''NoMatchingWorkloads''
                ''application was bound with the secret but the application got deleted'' SBReady;
              ret e } })"

subsection \<open>Reconciling a binding\<close>

definition finalizeServiceBinding ::
  "'s kube \<Rightarrow> string list \<Rightarrow> ServiceBinding \<Rightarrow> ('s, err option \<times> string list) state" where
  "finalizeServiceBinding api informers sb = do {
     let informers' = filter (\<lambda>n. n \<noteq> om_name (sb_meta sb)) informers;
     (applications, errs) \<leftarrow> getBoundApplications api sb;
     r \<leftarrow> unbindApplications api sb applications;
     ret (case r of Some e \<Rightarrow> Some e | None \<Rightarrow> errors_Join errs, informers') }"

definition bind_binding ::
  "'s kube \<Rightarrow> ServiceBinding \<Rightarrow> ('s, err option) state" where
  "bind_binding api sb = do {
     a \<leftarrow> getApplication api sb;
     case a of
       Inl e \<Rightarrow> do {
         (e', sb1) \<leftarrow> updateServiceBindingStatus api sb CondFalse ''NoMatchingWorkloads'' (err_text e) SBReady;
         ret (case e' of Some x \<Rightarrow> Some x | None \<Rightarrow> Some e) }
     | Inr applications \<Rightarrow> do {
         s \<leftarrow> GetSecret api sb applications;
         case s of
           Inl e \<Rightarrow> ret (Some e)
         | Inr psSecret \<Rightarrow> do {
             (b, sb1) \<leftarrow> PrepareBinding api sb psSecret applications;
             case b of
               Some e \<Rightarrow> ret (Some e)
             | None \<Rightarrow>
                 (case SetControllerReference binding_gvk (sb_meta sb1) (sec_meta psSecret) of
                    Inl e \<Rightarrow> ret (Some e)
                  | Inr m \<Rightarrow> do {
                      u \<leftarrow> k_update api (k_self api) (OSecret (psSecret\<lparr>sec_meta := m\<rparr>));
                      ret (err_of u) }) } } }"

definition ReconcileBinding ::
  "'s kube \<Rightarrow> (string \<Rightarrow> string \<Rightarrow> err + string) \<Rightarrow> (string \<Rightarrow> string \<Rightarrow> err option) \<Rightarrow> string list \<Rightarrow>
     nsname \<Rightarrow> ('s, err option \<times> string list) state" where
  "ReconcileBinding api mapping start informers req = do {
     g \<leftarrow> get_binding api (k_self api) req;
     case g of
       Inl e \<Rightarrow> ret (IgnoreNotFound e, informers)
     | Inr sb \<Rightarrow>
         if om_deletion (sb_meta sb) then
           if ContainsFinalizer (sb_meta sb) ServiceBindingFinalizer then do {
             (f, informers') \<leftarrow> finalizeServiceBinding api informers sb;
             case f of
               Some e \<Rightarrow> ret (Some e, informers')
             | None \<Rightarrow> do {
                 u \<leftarrow> k_update api (k_self api)
                   (OServiceBinding (sb\<lparr>sb_meta := snd (RemoveFinalizer (sb_meta sb) ServiceBindingFinalizer)\<rparr>));
                 ret (err_of u, informers') } }
           else ret (None, informers)
         else do {
           let sb1 = sb\<lparr>sb_meta := snd (AddFinalizer (sb_meta sb) ServiceBindingFinalizer)\<rparr>;
           case ensureInformerIsRunningForServiceBinding api mapping start informers sb1 of
             (Some e, informers') \<Rightarrow> ret (Some e, informers')
           | (None, informers') \<Rightarrow> do {
               r \<leftarrow> bind_binding api sb1;
               ret (r, informers') } } }"

end
