(* ===== verification/AppBinding_Correct.thy ===== *)
theory AppBinding_Correct
  imports AppBinding_Ctrl
begin

section \<open>What binding an application guarantees\<close>

text \<open>
  First the pure part: the removal loop against \<open>filter\<close>, what a bound container and a bound workload
  hold, and that unbinding undoes binding. Then the requests: what a reconciliation of a binding that
  reports no error has stored, what it never stores, and what the handlers of the informers do to the
  connections of a binding.
\<close>

subsection \<open>Removing while ranging\<close>

lemma range_remove_skip:
  "(\<And>j. i \<le> j \<Longrightarrow> j < i + k \<Longrightarrow> test (b ! j) = Inr False) \<Longrightarrow>
     range_remove_from test (k + n) i m b = range_remove_from test n (i + k) m b"
proof (induction k arbitrary: i)
  case (Suc k)
  from Suc.prems [of i] have "test (b ! i) = Inr False" by simp
  then have "range_remove_from test (Suc k + n) i m b = range_remove_from test (k + n) (Suc i) m b" by simp
  also have "\<dots> = range_remove_from test n (Suc i + k) m b"
    by (rule Suc.IH) (use Suc.prems in auto)
  finally show ?case by simp
qed simp

lemma range_remove_none:
  assumes "\<And>x. x \<in> set xs \<Longrightarrow> test x = Inr False"
  shows "range_remove test xs = Inr xs"
  using range_remove_skip [of 0 "length xs" test xs 0 "length xs"] assms by (simp add: range_remove_def)

lemma range_remove_once:
  assumes "test x = Inr True" and "\<And>y. y \<in> set ys \<union> set zs \<Longrightarrow> test y = Inr False"
  shows "range_remove test (ys @ x # zs) = Inr (ys @ zs)"
proof -
  let ?b = "ys @ x # zs" and ?b' = "ys @ zs @ [last (x # zs)]" and ?k = "length ys"
  have last: "drop (?k + length zs) ?b = [last (x # zs)]"
  proof (cases zs rule: rev_cases)
    case (snoc zs' z)
    have "drop (?k + length zs) ?b = drop (length zs) (x # zs)" by simp
    with snoc show ?thesis by simp
  qed simp
  have "range_remove test ?b = range_remove_from test (Suc (length zs)) ?k (length ?b) ?b"
    using range_remove_skip [of 0 ?k test ?b "Suc (length zs)" "length ?b"] assms(2)
    by (simp add: range_remove_def nth_append)
  also have "\<dots> = range_remove_from test (length zs) (Suc ?k) (?k + length zs) ?b'"
    using assms(1) last by (simp add: nth_append)
  also have "\<dots> = range_remove_from test 0 (Suc ?k + length zs) (?k + length zs) ?b'"
  proof -
    have "test (?b' ! j) = Inr False" if "Suc ?k \<le> j" "j < Suc ?k + length zs" for j
    proof -
      have "?b' ! j \<in> set zs"
        using that by (cases zs rule: rev_cases) (auto simp: nth_append nth_Cons' not_less)
      with assms(2) show ?thesis by simp
    qed
    then show ?thesis using range_remove_skip [of "Suc ?k" "length zs" test ?b' 0] by simp
  qed
  finally show ?thesis by simp
qed

lemma range_remove_le1:
  assumes "\<And>x. x \<in> set xs \<Longrightarrow> test x = Inr (P x)" and "length (filter P xs) \<le> 1"
  shows "range_remove test xs = Inr (filter (\<lambda>x. \<not> P x) xs)"
proof (cases "\<exists>x\<in>set xs. P x")
  case False
  with assms range_remove_none [of xs test] show ?thesis by (simp add: filter_id_conv)
next
  case True
  then obtain ys x zs where xs: "xs = ys @ x # zs" "P x" by (meson split_list)
  with assms(2) have none: "filter P ys = []" "filter P zs = []" by auto
  then have no: "\<not> P y" if "y \<in> set ys \<union> set zs" for y
    using that by (auto simp: filter_empty_conv)
  have "range_remove test (ys @ x # zs) = Inr (ys @ zs)"
    by (rule range_remove_once) (use assms(1) xs no in auto)
  moreover have "filter (\<lambda>x. \<not> P x) xs = ys @ zs" using xs no by (simp add: filter_id_conv)
  ultimately show ?thesis using xs by simp
qed

text \<open>The loop that removes from a slice while it ranges over it computes the filter of the slice when at
  most one element matches; on a slice of two matching elements it runs past the shortened slice and
  panics.\<close>

theorem range_remove_filter:
  assumes "\<forall>x\<in>set xs. test x = Inr (P x)"
  shows "(length (filter P xs) \<le> 1 \<longrightarrow> range_remove test xs = Inr (filter (\<lambda>x. \<not> P x) xs)) \<and>
    (\<forall>a b. xs = [a, b] \<and> P a \<and> P b \<longrightarrow> range_remove test xs = Inl (Panic ''slice bounds out of range''))"
proof (intro conjI impI allI)
  assume "length (filter P xs) \<le> 1"
  with assms show "range_remove test xs = Inr (filter (\<lambda>x. \<not> P x) xs)" by (intro range_remove_le1) auto
next
  fix a b assume "xs = [a, b] \<and> P a \<and> P b"
  moreover from this assms have "test a = Inr True" "test b = Inr True" by auto
  ultimately show "range_remove test xs = Inl (Panic ''slice bounds out of range'')"
    by (simp add: range_remove_def)
qed

theorem range_remove_filter_witness:
  "range_remove (\<lambda>v. Inr (v = ''a'')) [''b'', ''a'', ''c''] = Inr [''b'', ''c''] \<and>
   range_remove (\<lambda>v. Inr (v = ''a'')) [''a'', ''a''] = Inl (Panic ''slice bounds out of range'')"
proof
  show "range_remove (\<lambda>v. Inr (v = ''a'')) [''b'', ''a'', ''c''] = Inr [''b'', ''c'']"
    using range_remove_filter [of "[''b'', ''a'', ''c'']" "\<lambda>v. Inr (v = ''a'')" "\<lambda>v. v = ''a''",
      THEN conjunct1] by simp
  show "range_remove (\<lambda>v. Inr (v = ''a'')) [''a'', ''a''] = Inl (Panic ''slice bounds out of range'')"
    by (rule range_remove_filter [of "[''a'', ''a'']" "\<lambda>v. Inr (v = ''a'')" "\<lambda>v. v = ''a''",
      THEN conjunct2, rule_format, of "''a''" "''a''"]) simp_all
qed

subsection \<open>A bound container\<close>

lemma range_remove_snoc:
  assumes "test x = Inr True" and "\<And>y. y \<in> set ys \<Longrightarrow> test y = Inr False"
  shows "range_remove test (ys @ [x]) = Inr ys"
  using range_remove_once [of test x ys "[]"] assms by simp

text \<open>An environment variable that is read from a secret other than the binding's.\<close>

definition foreign_env :: "ServiceBinding \<Rightarrow> EnvVar \<Rightarrow> bool" where
  "foreign_env sb e = (\<exists>n k. ev_ValueFrom e = Some (SecretKeyRef n k) \<and>
     n \<noteq> sbsp_ServiceEndpointDefinitionSecret (sb_Spec sb))"

lemma removeServiceBindingEnvironments_eq:
  "removeServiceBindingEnvironments es sb = filter (foreign_env sb) es"
  unfolding removeServiceBindingEnvironments_def
  by (rule filter_cong) (auto simp: foreign_env_def split: option.splits env_source.splits)

lemma put_mount_new: "\<forall>w\<in>set ms. vm_Name w \<noteq> vm_Name m \<Longrightarrow> put_mount m ms = ms @ [m]"
  by (induction m ms rule: put_mount.induct) auto

lemma put_mount_in: "m \<in> set (put_mount m ms)"
  by (induction m ms rule: put_mount.induct) auto

text \<open>
  The environment of a bound container: the variables read from other secrets, the projected ones, and
  \<^verbatim>\<open>SERVICE\_BINDING\_ROOT\<close> unless one of them has that name and a path.
\<close>

definition root_env :: EnvVar where
  "root_env = \<lparr>ev_Name = ServiceBindingRoot, ev_Value = ''/bindings'', ev_ValueFrom = None\<rparr>"

definition bound_env :: "ServiceBinding \<Rightarrow> Secret \<Rightarrow> EnvVar list \<Rightarrow> EnvVar list" where
  "bound_env sb sec es = filter (foreign_env sb) es @
     map (projected_env (om_name (sec_meta sec))) (sbsp_Envs (sb_Spec sb))"

lemma bind_container_eq:
  "\<exists>root p. bind_container sb d v sec c = c\<lparr>ctr_Env := bound_env sb sec (ctr_Env c) @ root,
       ctr_VolumeMounts := put_mount \<lparr>vm_Name = v, vm_MountPath = p, vm_ReadOnly = True, vm_SubPath = ''''\<rparr>
         (ctr_VolumeMounts c)\<rparr> \<and>
     ((\<forall>e\<in>set (bound_env sb sec (ctr_Env c)). ev_Name e \<noteq> ServiceBindingRoot) \<longrightarrow>
        root = [root_env] \<and> p = path_Join [''/bindings'', d]) \<and> set root \<subseteq> {root_env}"
proof (cases "find (\<lambda>e. ev_Name e = ServiceBindingRoot) (bound_env sb sec (ctr_Env c))")
  case None
  then show ?thesis
    by (intro exI [of _ "[root_env]"] exI [of _ "path_Join [''/bindings'', d]"])
      (simp add: bind_container_def Let_def removeServiceBindingEnvironments_eq bound_env_def root_env_def)
next
  case (Some e)
  from find_Some_holds [OF Some] find_Some_in [OF Some]
  have "\<exists>e\<in>set (bound_env sb sec (ctr_Env c)). ev_Name e = ServiceBindingRoot" by blast
  then have not: "\<not> (\<forall>e\<in>set (bound_env sb sec (ctr_Env c)). ev_Name e \<noteq> ServiceBindingRoot)" by simp
  show ?thesis
  proof (cases "path_Join [ev_Value e, d] = ''''")
    case True
    show ?thesis unfolding not_False_eq_True simp_thms if_cancel using not True Some
      by (intro exI [of _ "[root_env]"] exI [of _ "path_Join [''/bindings'', d]"] conjI)
        (simp_all add: bind_container_def Let_def removeServiceBindingEnvironments_eq bound_env_def root_env_def)
  next
    case False
    have "bind_container sb d v sec c = c\<lparr>ctr_Env := bound_env sb sec (ctr_Env c) @ [],
       ctr_VolumeMounts := put_mount \<lparr>vm_Name = v, vm_MountPath = path_Join [ev_Value e, d], vm_ReadOnly = True, vm_SubPath = ''''\<rparr>
         (ctr_VolumeMounts c)\<rparr>"
      using False Some
      by (simp add: bind_container_def Let_def removeServiceBindingEnvironments_eq bound_env_def)
    with not show ?thesis
      by (intro exI [of _ "[]"] exI [of _ "path_Join [ev_Value e, d]"] conjI) (blast, blast, simp)
  qed
qed

text \<open>A container that has not been bound yet and whose variables all survive a binding.\<close>

definition fresh_container :: "ServiceBinding \<Rightarrow> Container \<Rightarrow> bool" where
  "fresh_container sb c =
     ((\<forall>e\<in>set (ctr_Env c). foreign_env sb e \<and> ev_Name e \<noteq> ServiceBindingRoot) \<and>
      (\<forall>m\<in>set (ctr_VolumeMounts c). vm_Name m \<noteq> om_name (sb_meta sb)))"

definition plain_names :: "ServiceBinding \<Rightarrow> Secret \<Rightarrow> bool" where
  "plain_names sb sec =
     ((\<forall>e\<in>set (sbsp_Envs (sb_Spec sb)). env_Name e \<noteq> ServiceBindingRoot) \<and>
      om_name (sec_meta sec) = sbsp_ServiceEndpointDefinitionSecret (sb_Spec sb))"

lemma unbind_bind_container:
  assumes "fresh_container sb c" and "plain_names sb sec"
  shows "unbind_container sb (om_name (sb_meta sb)) (bind_container sb d (om_name (sb_meta sb)) sec c) = Inr c"
proof -
  let ?v = "om_name (sb_meta sb)"
  let ?proj = "map (projected_env (om_name (sec_meta sec))) (sbsp_Envs (sb_Spec sb))"
  have keep: "filter (foreign_env sb) (ctr_Env c) = ctr_Env c"
    using assms(1) by (auto simp: fresh_container_def filter_id_conv)
  then have env: "bound_env sb sec (ctr_Env c) = ctr_Env c @ ?proj" by (simp add: bound_env_def)
  have noroot: "ev_Name e \<noteq> ServiceBindingRoot" if "e \<in> set (ctr_Env c @ ?proj)" for e
    using that assms by (auto simp: fresh_container_def plain_names_def projected_env_def)
  with bind_container_eq [of sb d ?v sec c] env obtain p where
    b: "bind_container sb d ?v sec c = c\<lparr>ctr_Env := (ctr_Env c @ ?proj) @ [root_env],
       ctr_VolumeMounts := put_mount \<lparr>vm_Name = ?v, vm_MountPath = p, vm_ReadOnly = True, vm_SubPath = ''''\<rparr>
         (ctr_VolumeMounts c)\<rparr>" by auto
  have "range_remove (\<lambda>w. Inr (vm_Name w = ?v)) (ctr_VolumeMounts (bind_container sb d ?v sec c)) = Inr (ctr_VolumeMounts c)"
    unfolding b using assms(1)
    by (simp add: put_mount_new fresh_container_def) (rule range_remove_snoc, auto)
  moreover have "range_remove (\<lambda>w. Inr (ev_Name w = ServiceBindingRoot)) (ctr_Env (bind_container sb d ?v sec c)) =
      Inr (ctr_Env c @ ?proj)"
    unfolding b using noroot by (simp del: append_assoc) (rule range_remove_snoc, auto simp: root_env_def)
  moreover have "filter (foreign_env sb) ?proj = []"
    using assms(2) by (auto simp: foreign_env_def plain_names_def projected_env_def filter_empty_conv)
  ultimately show ?thesis
    by (simp add: unbind_container_def removeServiceBindingEnvironments_eq keep) (simp add: b)
qed

lemma bound_env_again:
  assumes "om_name (sec_meta sec) = sbsp_ServiceEndpointDefinitionSecret (sb_Spec sb)" and "set root \<subseteq> {root_env}"
  shows "bound_env sb sec (bound_env sb sec es @ root) = bound_env sb sec es"
proof -
  have "filter (foreign_env sb) (map (projected_env (om_name (sec_meta sec))) (sbsp_Envs (sb_Spec sb))) = []"
    using assms(1) by (auto simp: foreign_env_def projected_env_def filter_empty_conv)
  moreover have "filter (foreign_env sb) root = []"
    using assms(2) by (auto simp: foreign_env_def root_env_def filter_empty_conv)
  ultimately show ?thesis by (simp add: bound_env_def)
qed

text \<open>What is added to a container depends on its bound environment only.\<close>

definition bound_root :: "ServiceBinding \<Rightarrow> string \<Rightarrow> Secret \<Rightarrow> EnvVar list \<Rightarrow> EnvVar list \<times> string" where
  "bound_root sb d sec es =
     (let found = (case find (\<lambda>e. ev_Name e = ServiceBindingRoot) (bound_env sb sec es) of
            Some e \<Rightarrow> path_Join [ev_Value e, d] | None \<Rightarrow> '''')
      in if found = '''' then ([root_env], path_Join [''/bindings'', d]) else ([], found))"

lemma bind_container_root:
  "bind_container sb d v sec c = (case bound_root sb d sec (ctr_Env c) of (root, p) \<Rightarrow>
     c\<lparr>ctr_Env := bound_env sb sec (ctr_Env c) @ root,
       ctr_VolumeMounts := put_mount \<lparr>vm_Name = v, vm_MountPath = p, vm_ReadOnly = True, vm_SubPath = ''''\<rparr>
         (ctr_VolumeMounts c)\<rparr>)"
  unfolding bound_root_def
  by (simp add: bind_container_def Let_def removeServiceBindingEnvironments_eq bound_env_def root_env_def
    split: option.splits)

lemma bound_root_in: "set (fst (bound_root sb d sec es)) \<subseteq> {root_env}"
  by (simp add: bound_root_def Let_def split: option.splits)

lemma put_mount_idem: "put_mount m (put_mount m ms) = put_mount m ms"
  by (induction m ms rule: put_mount.induct) auto

lemma bind_container_idem:
  assumes "om_name (sec_meta sec) = sbsp_ServiceEndpointDefinitionSecret (sb_Spec sb)"
  shows "bind_container sb d v sec (bind_container sb d v sec c) = bind_container sb d v sec c"
proof -
  obtain root p where r: "bound_root sb d sec (ctr_Env c) = (root, p)" by fastforce
  with bound_root_in [of sb d sec "ctr_Env c"] have root: "set root \<subseteq> {root_env}" by simp
  have "bound_root sb d sec (bound_env sb sec (ctr_Env c) @ root) = (root, p)"
    using r by (simp add: bound_root_def bound_env_again [OF assms root])
  then show ?thesis
    by (simp add: bind_container_root r bound_env_again [OF assms root] put_mount_idem)
qed

subsection \<open>A bound workload\<close>

lemma each_container_all:
  "(\<And>c. c \<in> set cs \<Longrightarrow> f c = Inr (g c)) \<Longrightarrow>
     each_container f (map MapContainer cs) = Inr (map (\<lambda>c. MapContainer (g c)) cs)"
  by (induction cs) auto

lemma each_container_ok:
  "each_container f xs = Inr ys \<Longrightarrow>
     \<exists>cs ds. xs = map MapContainer cs \<and> ys = map MapContainer ds \<and> list_all2 (\<lambda>c d. f c = Inr d) cs ds"
proof (induction f xs arbitrary: ys rule: each_container.induct)
  case (4 f c cs)
  from "4.prems" obtain d ys' where d: "f c = Inr d" "each_container f cs = Inr ys'" "ys = MapContainer d # ys'"
    by (auto split: sum.splits)
  from "4.IH" [OF d(1,2)] obtain cs' ds' where "cs = map MapContainer cs'" "ys' = map MapContainer ds'"
    "list_all2 (\<lambda>c d. f c = Inr d) cs' ds'" by blast
  with d show ?case by (intro exI [of _ "c # cs'"] exI [of _ "d # ds'"]) simp
qed auto

lemma updateContainerInfo_ok:
  assumes "updateContainerInfo xs sb d v sec = Inr ys"
  shows "\<exists>cs. xs = map MapContainer cs \<and> ys = map (\<lambda>c. MapContainer (bind_container sb d v sec c)) cs"
proof -
  from each_container_ok [OF assms [unfolded updateContainerInfo_def]] obtain cs ds where
    cs: "xs = map MapContainer cs" "ys = map MapContainer ds" "list_all2 (\<lambda>c e. bind_container sb d v sec c = e) cs ds"
    by auto
  from cs(3) have "ds = map (bind_container sb d v sec) cs"
    by (simp add: list_all2_conv_all_nth list_eq_iff_nth_eq)
  with cs show ?thesis by auto
qed

lemma put_volume_ok:
  "put_volume v xs = Inr ys \<Longrightarrow> MapVolume v \<in> set ys \<and> put_volume v ys = Inr ys"
proof (induction v xs arbitrary: ys rule: put_volume.induct)
  case (3 v w ws)
  show ?case
  proof (cases "vol_Name w = vol_Name v")
    case True
    with "3.prems" show ?thesis by auto
  next
    case False
    with "3.prems" obtain ws' where ws: "put_volume v ws = Inr ws'" "ys = MapVolume w # ws'" by (auto split: sum.splits)
    from "3.IH" [OF False ws(1)] ws False show ?thesis by simp
  qed
qed auto

lemma put_volume_new:
  "\<forall>w\<in>set ws. vol_Name w \<noteq> vol_Name v \<Longrightarrow> put_volume v (map MapVolume ws) = Inr (map MapVolume (ws @ [v]))"
  by (induction ws) auto

lemma on_containers_ok:
  assumes "on_containers f u = Inr u'"
  shows "\<exists>cs is cs' is'. nested_slice (u_containers u) = Inr cs \<and> nested_slice (u_initContainers u) = Inr is \<and>
    f cs = Inr cs' \<and> f is = Inr is' \<and> u' = u\<lparr>u_containers := Slice cs', u_initContainers := Slice is'\<rparr>"
  using assms unfolding on_containers_def by (auto split: sum.splits)

lemma on_containersI:
  "nested_slice (u_containers u) = Inr cs \<Longrightarrow> nested_slice (u_initContainers u) = Inr is \<Longrightarrow>
    f cs = Inr cs' \<Longrightarrow> f is = Inr is' \<Longrightarrow>
    on_containers f u = Inr (u\<lparr>u_containers := Slice cs', u_initContainers := Slice is'\<rparr>)"
  by (simp add: on_containers_def)

lemma bind_workload_ok:
  assumes "bind_workload sb sec vol u = Inr u'"
  shows "\<exists>vs vs' cs is. nested_slice (u_volumes u) = Inr vs \<and> put_volume vol vs = Inr vs' \<and>
    nested_slice (u_containers u) = Inr (map MapContainer cs) \<and>
    nested_slice (u_initContainers u) = Inr (map MapContainer is) \<and>
    u' = u\<lparr>u_volumes := Slice vs',
      u_containers := Slice (map (\<lambda>c. MapContainer (bind_container sb (om_name (sb_meta sb)) (om_name (sb_meta sb)) sec c)) cs),
      u_initContainers := Slice (map (\<lambda>c. MapContainer (bind_container sb (om_name (sb_meta sb)) (om_name (sb_meta sb)) sec c)) is)\<rparr>"
proof -
  from assms obtain vs vs' where vs: "nested_slice (u_volumes u) = Inr vs" "put_volume vol vs = Inr vs'"
    and o: "on_containers (\<lambda>cs. updateContainerInfo cs sb (om_name (sb_meta sb)) (om_name (sb_meta sb)) sec)
      (u\<lparr>u_volumes := Slice vs'\<rparr>) = Inr u'"
    by (auto simp: bind_workload_def split: sum.splits)
  from on_containers_ok [OF o] obtain cs ks cs' ks' where
    c: "nested_slice (u_containers u) = Inr cs" "nested_slice (u_initContainers u) = Inr ks"
    and f: "updateContainerInfo cs sb (om_name (sb_meta sb)) (om_name (sb_meta sb)) sec = Inr cs'"
      "updateContainerInfo ks sb (om_name (sb_meta sb)) (om_name (sb_meta sb)) sec = Inr ks'"
    and u': "u' = u\<lparr>u_volumes := Slice vs', u_containers := Slice cs', u_initContainers := Slice ks'\<rparr>" by auto
  from updateContainerInfo_ok [OF f(1)] updateContainerInfo_ok [OF f(2)] vs c u' show ?thesis by auto
qed

text \<open>C34: Binding a workload twice is binding it once: when a binding has succeeded, a second one with the same
  volume and secret, the one that the service binding names, succeeds and changes nothing, so that repeated
  reconciliations do not accumulate volumes, mounts or variables.\<close>

theorem bind_workload_idempotent:
  assumes "bind_workload sb sec vol u = Inr u'"
    and "om_name (sec_meta sec) = sbsp_ServiceEndpointDefinitionSecret (sb_Spec sb)"
  shows "bind_workload sb sec vol u' = Inr u'"
proof -
  let ?n = "om_name (sb_meta sb)"
  from bind_workload_ok [OF assms(1)] obtain vs vs' cs ks where vs: "put_volume vol vs = Inr vs'"
    and u': "u' = u\<lparr>u_volumes := Slice vs',
      u_containers := Slice (map (\<lambda>c. MapContainer (bind_container sb ?n ?n sec c)) cs),
      u_initContainers := Slice (map (\<lambda>c. MapContainer (bind_container sb ?n ?n sec c)) ks)\<rparr>" by auto
  have again: "updateContainerInfo (map (\<lambda>c. MapContainer (bind_container sb ?n ?n sec c)) cs) sb ?n ?n sec =
      Inr (map (\<lambda>c. MapContainer (bind_container sb ?n ?n sec c)) cs)" for cs
    using each_container_all [of "map (bind_container sb ?n ?n sec) cs" _ "bind_container sb ?n ?n sec"]
    by (simp add: updateContainerInfo_def bind_container_idem [OF assms(2)] comp_def)
  have "on_containers (\<lambda>cs. updateContainerInfo cs sb ?n ?n sec) (u'\<lparr>u_volumes := Slice vs'\<rparr>) = Inr u'"
    by (simp add: u' on_containers_def again)
  with put_volume_ok [OF vs] u' show ?thesis by (simp add: bind_workload_def)
qed

text \<open>A workload that the binding has not touched yet, of the shape the converters read.\<close>

definition fresh_workload :: "ServiceBinding \<Rightarrow> Unstructured \<Rightarrow> bool" where
  "fresh_workload sb u =
     (\<exists>vs cs is. u_volumes u = Slice (map MapVolume vs) \<and> u_containers u = Slice (map MapContainer cs) \<and>
        u_initContainers u = Slice (map MapContainer is) \<and>
        (\<forall>v\<in>set vs. vol_Name v \<noteq> om_name (sb_meta sb)) \<and> (\<forall>c\<in>set cs \<union> set is. fresh_container sb c))"

lemma unbind_each_container:
  assumes "\<forall>c\<in>set cs. fresh_container sb c" and "plain_names sb sec"
  shows "removeBindingInformationFromContainer sb
      (map (\<lambda>c. MapContainer (bind_container sb d (om_name (sb_meta sb)) sec c)) cs) (om_name (sb_meta sb)) =
    Inr (map MapContainer cs)"
  using assms
  by (induction cs) (simp_all add: removeBindingInformationFromContainer_def unbind_bind_container)

text \<open>C13: Taking a binding out of a workload gives back exactly the workload it was put into, when: the workload has
  its volumes, containers and init containers, each as a list (possibly empty) of readable entries; no volume
  and no mount of a container has the name of the binding; every variable of a container is read from a secret
  other than the binding's, and none is called SERVICE_BINDING_ROOT; no variable of the binding is called
  SERVICE_BINDING_ROOT; and the secret is the one the binding names. (A workload without one of the three lists
  gets it from the binding, so that it does not come back exactly.)\<close>

theorem unbind_bind_workload:
  assumes "fresh_workload sb u" and "plain_names sb sec"
  shows "\<exists>u'. bind_workload sb sec (binding_volume sb) u = Inr u' \<and>
    unbind_workload sb (om_name (sb_meta sb)) u' = Inr u"
proof -
  let ?n = "om_name (sb_meta sb)"
  from assms(1) obtain vs cs ks where u: "u_volumes u = Slice (map MapVolume vs)"
      "u_containers u = Slice (map MapContainer cs)" "u_initContainers u = Slice (map MapContainer ks)"
    and vs: "\<forall>v\<in>set vs. vol_Name v \<noteq> ?n" and cs: "\<forall>c\<in>set cs. fresh_container sb c" "\<forall>c\<in>set ks. fresh_container sb c"
    by (auto simp: fresh_workload_def)
  let ?bind = "\<lambda>cs. map (\<lambda>c. MapContainer (bind_container sb ?n ?n sec c)) cs"
  let ?u' = "u\<lparr>u_volumes := Slice (map MapVolume (vs @ [binding_volume sb])), u_containers := Slice (?bind cs),
    u_initContainers := Slice (?bind ks)\<rparr>"
  have upd: "updateContainerInfo (map MapContainer xs) sb ?n ?n sec = Inr (?bind xs)" for xs
    unfolding updateContainerInfo_def by (rule each_container_all) simp
  have "bind_workload sb sec (binding_volume sb) u = Inr ?u'"
    using vs by (simp add: bind_workload_def u put_volume_new binding_volume_def on_containers_def upd)
  moreover have "range_remove (volume_named ?n) (map MapVolume vs @ [MapVolume (binding_volume sb)]) = Inr (map MapVolume vs)"
    by (rule range_remove_snoc) (use vs in \<open>auto simp: binding_volume_def\<close>)
  then have "unbind_workload sb ?n ?u' = Inr (u\<lparr>u_volumes := Slice (map MapVolume vs),
      u_containers := Slice (map MapContainer cs), u_initContainers := Slice (map MapContainer ks)\<rparr>)"
    by (simp add: unbind_workload_def on_containers_def unbind_each_container [OF cs(1) assms(2)]
      unbind_each_container [OF cs(2) assms(2)])
  moreover have "u\<lparr>u_volumes := Slice (map MapVolume vs),
      u_containers := Slice (map MapContainer cs), u_initContainers := Slice (map MapContainer ks)\<rparr> = u"
    using u by simp
  ultimately show ?thesis by auto
qed

text \<open>
  What a bound container holds: the mount, the projected variables, and of the variables it had only
  those that are read from another secret.
\<close>

definition container_bound :: "ServiceBinding \<Rightarrow> Secret \<Rightarrow> Container \<Rightarrow> bool" where
  "container_bound sb sec c =
     ((\<exists>m\<in>set (ctr_VolumeMounts c). vm_Name m = om_name (sb_meta sb) \<and> vm_ReadOnly m) \<and>
      (\<forall>e\<in>set (sbsp_Envs (sb_Spec sb)). projected_env (om_name (sec_meta sec)) e \<in> set (ctr_Env c)) \<and>
      (\<forall>e\<in>set (ctr_Env c). foreign_env sb e \<or> e = root_env \<or>
         e \<in> projected_env (om_name (sec_meta sec)) ` set (sbsp_Envs (sb_Spec sb))))"

definition workload_bound :: "ServiceBinding \<Rightarrow> Secret \<Rightarrow> Unstructured \<Rightarrow> bool" where
  "workload_bound sb sec u =
     (\<exists>vs cs is. u_volumes u = Slice vs \<and> MapVolume (binding_volume sb) \<in> set vs \<and>
        u_containers u = Slice (map MapContainer cs) \<and> u_initContainers u = Slice (map MapContainer is) \<and>
        (\<forall>c\<in>set cs \<union> set is. container_bound sb sec c))"

lemma container_bound_bind: "container_bound sb sec (bind_container sb d (om_name (sb_meta sb)) sec c)"
proof -
  obtain root p where r: "bound_root sb d sec (ctr_Env c) = (root, p)" by fastforce
  with bound_root_in [of sb d sec "ctr_Env c"] have root: "set root \<subseteq> {root_env}" by simp
  let ?m = "\<lparr>vm_Name = om_name (sb_meta sb), vm_MountPath = p, vm_ReadOnly = True, vm_SubPath = ''''\<rparr>"
  have "?m \<in> set (ctr_VolumeMounts (bind_container sb d (om_name (sb_meta sb)) sec c))"
    by (simp add: bind_container_root r put_mount_in)
  moreover have "set (ctr_Env (bind_container sb d (om_name (sb_meta sb)) sec c)) =
      set (filter (foreign_env sb) (ctr_Env c)) \<union>
      projected_env (om_name (sec_meta sec)) ` set (sbsp_Envs (sb_Spec sb)) \<union> set root"
    by (simp add: bind_container_root r bound_env_def Un_assoc)
  ultimately show ?thesis unfolding container_bound_def using root
    by (intro conjI ballI bexI [of _ ?m]) auto
qed

lemma workload_bound_bind:
  assumes "bind_workload sb sec (binding_volume sb) u = Inr u'"
  shows "workload_bound sb sec u' \<and> u_meta u' = u_meta u \<and> u_APIVersion u' = u_APIVersion u \<and> u_Kind u' = u_Kind u"
proof -
  let ?n = "om_name (sb_meta sb)"
  from bind_workload_ok [OF assms] obtain vs vs' cs ks where vs: "put_volume (binding_volume sb) vs = Inr vs'"
    and u': "u' = u\<lparr>u_volumes := Slice vs',
      u_containers := Slice (map (\<lambda>c. MapContainer (bind_container sb ?n ?n sec c)) cs),
      u_initContainers := Slice (map (\<lambda>c. MapContainer (bind_container sb ?n ?n sec c)) ks)\<rparr>" by auto
  have "workload_bound sb sec u'" unfolding workload_bound_def
    by (rule exI [of _ vs'], rule exI [of _ "map (bind_container sb ?n ?n sec) cs"],
        rule exI [of _ "map (bind_container sb ?n ?n sec) ks"])
      (use put_volume_ok [OF vs] in \<open>auto simp: u' container_bound_bind comp_def\<close>)
  with u' show ?thesis by simp
qed

subsection \<open>Requests\<close>

lemma unstructured_of_keys:
  "distinct (map obj_key xs) \<Longrightarrow> distinct (map (\<lambda>u. obj_key (OUnstructured u)) (unstructured_of xs))"
proof (induction xs)
  case (Cons x xs)
  have "obj_key (OUnstructured u) \<in> obj_key ` set xs" if "u \<in> set (unstructured_of xs)" for u
    using that by (simp add: unstructured_of_in)
  with Cons show ?case
    by (cases x) (auto simp: unstructured_of_def List.map_filter_simps)
qed (simp add: unstructured_of_def List.map_filter_simps)

lemma workload_bound_meta [simp]: "workload_bound sb sec (u\<lparr>u_meta := m\<rparr>) = workload_bound sb sec u"
  by (simp add: workload_bound_def)

definition key_of :: "Unstructured \<Rightarrow> nsname" where
  "key_of u = obj_key (OUnstructured u)"

definition kind_of :: "Unstructured \<Rightarrow> okind" where
  "kind_of u = obj_kind (OUnstructured u)"

text \<open>The workloads a binding is meant for: those of its kind with its application's name in its namespace, or, when
  the application has no name, those that carry the labels of its selector. An empty namespace lists all of them.\<close>

definition selects :: "ServiceBinding \<Rightarrow> Unstructured \<Rightarrow> bool" where
  "selects sb u =
     (let app = sbsp_Application (sb_Spec sb) in
      kind_of u = KUnstructured (as_APIVersion app) (as_Kind app) \<and>
      (if as_Name app \<noteq> '''' then om_namespace (u_meta u) = om_namespace (sb_meta sb) \<and> om_name (u_meta u) = as_Name app
       else (om_namespace (sb_meta sb) = '''' \<or> om_namespace (u_meta u) = om_namespace (sb_meta sb)) \<and>
         (case as_Selector app of Some sel \<Rightarrow> labels_match (ls_MatchLabels sel) (u_meta u) | None \<Rightarrow> False)))"

definition is_bound :: "condition list \<Rightarrow> condition_status \<Rightarrow> bool" where
  "is_bound cs st = (\<exists>c. condition_of ''Bound'' cs = Some c \<and> co_status c = st)"

context kube_store
begin

abbreviation stored :: "'s \<Rightarrow> Unstructured \<Rightarrow> bool" where
  "stored s u \<equiv> objs s (k_self api) (kind_of u) (key_of u) = Some (OUnstructured u)"

lemma get_unstructured_found:
  assumes "run_state (get_unstructured api c av kd n) s = (Inr x, s')"
  shows "objs s c (KUnstructured av kd) n = Some (OUnstructured x)"
proof -
  from assms have "run_state (k_get api c (KUnstructured av kd) n) s = (Inr (OUnstructured x), s')"
    by (auto simp: get_unstructured_def split: prod.splits sum.splits obj.splits)
  then show ?thesis by (rule get_found)
qed

lemma modifies_getApplication [frame_intros]: "modifies objs K (getApplication api sb)"
  unfolding getApplication_def lookupWorkload_def Let_def
  by (cases "as_Selector (sbsp_Application (sb_Spec sb))"; simp; intro conjI impI frame_intros)

lemma getApplication_ok:
  assumes "run_state (getApplication api sb) s = (Inr us, s')"
  shows "us \<noteq> [] \<and> distinct (map key_of us) \<and> objs s' = objs s \<and>
    (\<forall>u. u \<in> set us \<longleftrightarrow> stored s u \<and> selects sb u) \<and>
    (\<forall>u\<in>set us. kind_of u = KUnstructured (as_APIVersion (sbsp_Application (sb_Spec sb))) (as_Kind (sbsp_Application (sb_Spec sb))))"
proof -
  let ?app = "sbsp_Application (sb_Spec sb)"
  have rd: "objs s' = objs s" by (rule reads_only [OF modifies_getApplication assms])
  show ?thesis
  proof (cases "as_Name ?app = ''''")
    case False
    with assms obtain u where us: "us = [u]"
      and g: "run_state (lookupWorkload api sb (as_Name ?app)) s = (Inr u, s')"
      by (auto simp: getApplication_def split: prod.splits sum.splits)
    from get_unstructured_found [OF g [unfolded lookupWorkload_def]]
    have o: "objs s (k_self api) (KUnstructured (as_APIVersion ?app) (as_Kind ?app))
      (om_namespace (sb_meta sb), as_Name ?app) = Some (OUnstructured u)" .
    from keyed [OF o] have u: "kind_of u = KUnstructured (as_APIVersion ?app) (as_Kind ?app)"
      "om_namespace (u_meta u) = om_namespace (sb_meta sb)" "om_name (u_meta u) = as_Name ?app"
      "stored s u" using o by (simp_all add: kind_of_def key_of_def obj_key_def meta_key_def)
    have "v \<in> set us \<longleftrightarrow> stored s v \<and> selects sb v" for v
    proof
      assume "v \<in> set us"
      with us u False show "stored s v \<and> selects sb v" by (simp add: selects_def Let_def)
    next
      assume v: "stored s v \<and> selects sb v"
      with False have "key_of v = (om_namespace (sb_meta sb), as_Name ?app)"
        "kind_of v = KUnstructured (as_APIVersion ?app) (as_Kind ?app)"
        by (simp_all add: selects_def Let_def key_of_def obj_key_def meta_key_def)
      with v o us show "v \<in> set us" by simp
    qed
    with us rd u(1) show ?thesis by (simp add: key_of_def)
  next
    case True
    with assms obtain sel xs where sel: "as_Selector ?app = Some sel"
      and l: "run_state (k_list api (k_self api) (KUnstructured (as_APIVersion ?app) (as_Kind ?app))
        (om_namespace (sb_meta sb)) (ls_MatchLabels sel)) s = (Inr xs, s')"
      and us: "us = unstructured_of xs" "us \<noteq> []"
      by (auto simp: getApplication_def Let_def map_items_def split: prod.splits sum.splits option.splits if_splits)
    from list_found [OF l] have d: "distinct (map obj_key xs)"
      and xs: "set xs = {x. \<exists>n. objs s (k_self api) (KUnstructured (as_APIVersion ?app) (as_Kind ?app)) n = Some x \<and>
        (om_namespace (sb_meta sb) = '''' \<or> fst n = om_namespace (sb_meta sb)) \<and>
        labels_match (ls_MatchLabels sel) (obj_meta x)}" by auto
    have "distinct (map key_of us)" using unstructured_of_keys [OF d] us by (simp add: key_of_def [abs_def])
    moreover have "stored s u \<and> selects sb u \<and> kind_of u = KUnstructured (as_APIVersion ?app) (as_Kind ?app)"
      if "u \<in> set us" for u
    proof -
      from that us xs obtain n where o: "objs s (k_self api) (KUnstructured (as_APIVersion ?app) (as_Kind ?app)) n =
        Some (OUnstructured u)" and n: "om_namespace (sb_meta sb) = '''' \<or> fst n = om_namespace (sb_meta sb)"
        "labels_match (ls_MatchLabels sel) (u_meta u)" by (auto simp: unstructured_of_in)
      from keyed [OF o] have k: "kind_of u = KUnstructured (as_APIVersion ?app) (as_Kind ?app)" "key_of u = n"
        by (simp_all add: kind_of_def key_of_def)
      with n True sel have "selects sb u" by (auto simp: selects_def Let_def key_of_def obj_key_def meta_key_def)
      with o k show ?thesis by simp
    qed
    moreover have "u \<in> set us" if "stored s u" "selects sb u" for u
      using that True sel us xs
      by (auto simp: unstructured_of_in selects_def Let_def key_of_def obj_key_def meta_key_def)
    ultimately show ?thesis using us rd by blast
  qed
qed

lemma update_workload_ok:
  assumes "run_state (update_workload api (bind_workload sb sec (binding_volume sb) u)) s = (None, s')" and "stored s u"
  shows "\<exists>w. objs s' (k_self api) (kind_of u) (key_of u) = Some (OUnstructured w) \<and> workload_bound sb sec w"
proof -
  from assms(1) obtain u' y where b: "bind_workload sb sec (binding_volume sb) u = Inr u'"
    and up: "run_state (k_update api (k_self api) (OUnstructured u')) s = (Inr y, s')"
    by (auto simp: update_workload_def err_of_def split: sum.splits prod.splits)
  from workload_bound_bind [OF b] have w: "workload_bound sb sec u'" "u_meta u' = u_meta u"
    "obj_kind (OUnstructured u') = kind_of u" "obj_key (OUnstructured u') = key_of u"
    by (auto simp: kind_of_def key_of_def obj_key_def)
  from update_ok [OF up] w(3,4) assms(2) obtain v where y: "y = written (OUnstructured u) v (OUnstructured u')"
    and s': "objs s' (k_self api) (kind_of u) (key_of u) =
      (if om_deletion (u_meta u) \<and> om_finalizers (u_meta u') = [] then None else Some y)" by auto
  from live [OF assms(2)] w(2) s' have "objs s' (k_self api) (kind_of u) (key_of u) = Some y" by auto
  moreover have "\<exists>m. y = OUnstructured (u'\<lparr>u_meta := m\<rparr>)"
    by (simp add: y written_def keep_server_fields_def set_version_def) blast
  ultimately show ?thesis using w(1) by (metis workload_bound_meta)
qed

lemma modifies_update_workload [frame_intros]:
  "(\<And>u. r = Inr u \<Longrightarrow> (k_self api, kind_of u, key_of u) \<in> K) \<Longrightarrow> modifies objs K (update_workload api r)"
  unfolding update_workload_def
  by (cases r; simp; intro frame_intros; simp add: kind_of_def key_of_def)

end

context kube_store
begin

lemma prepareContainerWithMounts_others:
  assumes "run_state (prepareContainerWithMounts api sb sec vol u) s = (r, s')"
  shows "same_but {(k_self api, kind_of u, key_of u)} (objs s) (objs s')"
proof (rule modifies_run [OF _ assms], unfold prepareContainerWithMounts_def, rule modifies_update_workload)
  fix u' assume b: "bind_workload sb sec vol u = Inr u'"
  from bind_workload_ok [OF b] have "u_meta u' = u_meta u" "u_APIVersion u' = u_APIVersion u" "u_Kind u' = u_Kind u" by auto
  then show "(k_self api, kind_of u', key_of u') \<in> {(k_self api, kind_of u, key_of u)}"
    by (simp add: kind_of_def key_of_def obj_key_def)
qed

lemma bind_loop_ok:
  assumes "run_state (for_collect (prepareContainerWithMounts api sb sec (binding_volume sb)) us) s = (Inr [], s')"
    and "distinct (map key_of us)" and "\<forall>u\<in>set us. stored s u" and "\<forall>u\<in>set us. kind_of u = K"
  shows "\<forall>u\<in>set us. \<exists>w. objs s' (k_self api) (kind_of u) (key_of u) = Some (OUnstructured w) \<and> workload_bound sb sec w"
proof (rule for_collect_each [OF assms(1), of "\<lambda>u t. stored t u"])
  show "distinct us" using assms(2) by (simp add: distinct_map)
next
  fix u t t' assume "stored t u" "run_state (prepareContainerWithMounts api sb sec (binding_volume sb) u) t = (None, t')"
  then show "\<exists>w. objs t' (k_self api) (kind_of u) (key_of u) = Some (OUnstructured w) \<and> workload_bound sb sec w"
    unfolding prepareContainerWithMounts_def by (rule update_workload_ok [rotated])
next
  fix u v t t' assume uv: "u \<in> set us" "v \<in> set us" "u \<noteq> v"
    and r: "run_state (prepareContainerWithMounts api sb sec (binding_volume sb) u) t = (None, t')"
  from uv assms(2) have "key_of u \<noteq> key_of v" by (auto simp: distinct_map inj_on_def)
  with prepareContainerWithMounts_others [OF r]
  have "objs t' (k_self api) (kind_of v) (key_of v) = objs t (k_self api) (kind_of v) (key_of v)"
    by (simp add: same_but_def)
  then show "(stored t v \<longrightarrow> stored t' v) \<and>
    ((\<exists>w. objs t (k_self api) (kind_of v) (key_of v) = Some (OUnstructured w) \<and> workload_bound sb sec w) \<longrightarrow>
     (\<exists>w. objs t' (k_self api) (kind_of v) (key_of v) = Some (OUnstructured w) \<and> workload_bound sb sec w))" by simp
qed (rule assms(3))

lemma updateServiceBindingStatus_ok:
  assumes "run_state (updateServiceBindingStatus api sb st rs msg state) s = ((None, sb1), s')"
  shows "\<exists>b. objs s' (k_self api) KServiceBinding (meta_key (sb_meta sb)) = Some (OServiceBinding b) \<and>
    sbst_State (sb_Status b) = state \<and> sbst_Connections (sb_Status b) = sbst_Connections (sb_Status sb) \<and>
    is_bound (sbst_Conditions (sb_Status b)) st \<and> sb_meta sb1 = sb_meta b \<and>
    same_but {(k_self api, KServiceBinding, meta_key (sb_meta sb))} (objs s) (objs s')"
proof -
  obtain now s1 where n: "run_state (k_now api) s = (now, s1)" by fastforce
  let ?c = "\<lparr>co_type = ''Bound'', co_status = st, co_observedGeneration = 0, co_lastTransitionTime = now,
    co_reason = rs, co_message = msg\<rparr>"
  let ?x = "sb\<lparr>sb_Status := (sb_Status sb)\<lparr>sbst_Conditions := SetStatusCondition now ?c (sbst_Conditions (sb_Status sb)),
    sbst_State := state\<rparr>\<rparr>"
  from assms n obtain y where u: "run_state (k_status_update api (k_self api) (OServiceBinding ?x)) s1 = (Inr y, s')"
    and sb1: "sb1 = as_binding ?x y"
    by (auto simp: updateServiceBindingStatus_def Let_def split: prod.splits sum.splits)
  from status_ok [OF u] obtain old v where old: "objs s1 (k_self api) KServiceBinding (meta_key (sb_meta sb)) = Some old"
    and y: "y = set_version v (copy_status (OServiceBinding ?x) old)"
    and st: "objs s' (k_self api) KServiceBinding (meta_key (sb_meta sb)) = Some y"
    by (auto simp: obj_key_def)
  from keyed [OF old] obtain b0 where b0: "old = OServiceBinding b0" by (cases old) auto
  from y b0 obtain m where b: "y = OServiceBinding (b0\<lparr>sb_Status := sb_Status ?x, sb_meta := m\<rparr>)"
    by (auto simp: set_version_def)
  have "same_but {(k_self api, KServiceBinding, meta_key (sb_meta sb))} (objs s) (objs s')"
    using same_but_trans [OF _ status_others [OF u]] now_reads [OF n] by (simp add: obj_key_def)
  with st b sb1 condition_of_set_same [of ?c now "sbst_Conditions (sb_Status sb)"] show ?thesis
    by (auto simp: is_bound_def as_binding_def)
qed

lemma PrepareBinding_ok:
  assumes "run_state (PrepareBinding api sb sec us) s = ((None, sb1), s')"
  shows "\<exists>s1 b. run_state (for_collect (prepareContainerWithMounts api sb sec (binding_volume sb)) us) s = (Inr [], s1) \<and>
    objs s' (k_self api) KServiceBinding (meta_key (sb_meta sb)) = Some (OServiceBinding b) \<and>
    sbst_State (sb_Status b) = SBReady \<and> sbst_Connections (sb_Status b) = map (om_name \<circ> u_meta) us \<and>
    is_bound (sbst_Conditions (sb_Status b)) CondTrue \<and> sb_meta sb1 = sb_meta b \<and>
    same_but {(k_self api, KServiceBinding, meta_key (sb_meta sb))} (objs s1) (objs s')"
proof -
  obtain r s1 where r: "run_state (for_collect (prepareContainerWithMounts api sb sec (binding_volume sb)) us) s = (r, s1)"
    by fastforce
  let ?sb = "sb\<lparr>sb_Status := (sb_Status sb)\<lparr>sbst_Connections := map (\<lambda>a. om_name (u_meta a)) us\<rparr>\<rparr>"
  from assms r have "r = Inr [] \<and>
      run_state (updateServiceBindingStatus api ?sb CondTrue ''Successful'' '''' SBReady) s1 = ((None, sb1), s')"
    by (auto simp: PrepareBinding_def bindApplications_def updateServiceBindingStatusWithBindingResult_def
      split: sum.splits prod.splits option.splits if_splits)
  then have "r = Inr []"
    and u: "run_state (updateServiceBindingStatus api ?sb CondTrue ''Successful'' '''' SBReady) s1 = ((None, sb1), s')" by auto
  with updateServiceBindingStatus_ok [OF u] r show ?thesis by (auto simp: comp_def)
qed

end

subsection \<open>Reconciling a binding\<close>

text \<open>What a binding may write: its workloads, its secret and itself.\<close>

definition bound_objects :: "cluster \<Rightarrow> ServiceBinding \<Rightarrow> Unstructured list \<Rightarrow> (cluster \<times> okind \<times> nsname) set" where
  "bound_objects c sb us =
     insert (c, KServiceBinding, meta_key (sb_meta sb))
       (insert (c, KSecret, (om_namespace (sb_meta sb), sbsp_ServiceEndpointDefinitionSecret (sb_Spec sb)))
         {(c, kind_of u, key_of u) | u. u \<in> set us})"

context kube_store
begin

lemma GetSecret_found:
  assumes "run_state (GetSecret api sb us) s = (Inr sec, s')"
  shows "objs s (k_self api) KSecret (om_namespace (sb_meta sb), sbsp_ServiceEndpointDefinitionSecret (sb_Spec sb)) =
      Some (OSecret sec) \<and> objs s' = objs s"
proof -
  obtain g s1 where g: "run_state (get_secret api (k_self api)
    (om_namespace (sb_meta sb), sbsp_ServiceEndpointDefinitionSecret (sb_Spec sb))) s = (g, s1)" by fastforce
  with assms have "g = Inr sec" "s' = s1"
    by (cases g; auto simp: GetSecret_def split: prod.splits option.splits)+
  with get_secret_found g reads_only [OF modifies_get_secret g] show ?thesis by auto
qed

text \<open>The steps of a binding that reports no error.\<close>

lemma bind_binding_steps:
  assumes "run_state (bind_binding api sb) s = (None, s')"
  obtains us s1 sec s2 sb1 s3 m y where "run_state (getApplication api sb) s = (Inr us, s1)"
    and "run_state (GetSecret api sb us) s1 = (Inr sec, s2)"
    and "run_state (PrepareBinding api sb sec us) s2 = ((None, sb1), s3)"
    and "SetControllerReference binding_gvk (sb_meta sb1) (sec_meta sec) = Inr m"
    and "run_state (k_update api (k_self api) (OSecret (sec\<lparr>sec_meta := m\<rparr>))) s3 = (Inr y, s')"
proof -
  obtain a s1 where a: "run_state (getApplication api sb) s = (a, s1)" by fastforce
  from assms a obtain us where us: "a = Inr us"
    by (cases a) (auto simp: bind_binding_def split: prod.splits option.splits)
  obtain q s2 where q: "run_state (GetSecret api sb us) s1 = (q, s2)" by fastforce
  from assms a us q obtain sec where sec: "q = Inr sec" by (cases q) (auto simp: bind_binding_def)
  obtain e sb1 s3 where p: "run_state (PrepareBinding api sb sec us) s2 = ((e, sb1), s3)"
    by (metis prod.collapse)
  from assms a us q sec p have e: "e = None" by (cases e) (auto simp: bind_binding_def)
  from assms a us q sec p e obtain m y where "SetControllerReference binding_gvk (sb_meta sb1) (sec_meta sec) = Inr m"
    "run_state (k_update api (k_self api) (OSecret (sec\<lparr>sec_meta := m\<rparr>))) s3 = (Inr y, s')"
    by (auto simp: bind_binding_def err_of_def split: sum.splits prod.splits)
  with a us q sec p e show thesis by (intro that) simp_all
qed

lemma bind_binding_ok:
  assumes "run_state (bind_binding api sb) s = (None, s')"
  shows "\<exists>us sec b. us \<noteq> [] \<and> (\<forall>u. u \<in> set us \<longleftrightarrow> stored s u \<and> selects sb u) \<and>
    same_but (bound_objects (k_self api) sb us) (objs s) (objs s') \<and>
    objs s (k_self api) KSecret (om_namespace (sb_meta sb), sbsp_ServiceEndpointDefinitionSecret (sb_Spec sb)) =
      Some (OSecret sec) \<and>
    (\<forall>u\<in>set us. \<exists>w. objs s' (k_self api) (kind_of u) (key_of u) = Some (OUnstructured w) \<and> workload_bound sb sec w) \<and>
    objs s' (k_self api) KServiceBinding (meta_key (sb_meta sb)) = Some (OServiceBinding b) \<and>
    sbst_State (sb_Status b) = SBReady \<and> sbst_Connections (sb_Status b) = map (om_name \<circ> u_meta) us \<and>
    is_bound (sbst_Conditions (sb_Status b)) CondTrue"
proof -
  obtain us s1 sec s2 sb1 s3 m y where
    a: "run_state (getApplication api sb) s = (Inr us, s1)" and
    q: "run_state (GetSecret api sb us) s1 = (Inr sec, s2)" and
    p: "run_state (PrepareBinding api sb sec us) s2 = ((None, sb1), s3)" and
    m: "SetControllerReference binding_gvk (sb_meta sb1) (sec_meta sec) = Inr m" and
    up: "run_state (k_update api (k_self api) (OSecret (sec\<lparr>sec_meta := m\<rparr>))) s3 = (Inr y, s')"
    by (rule bind_binding_steps [OF assms])
  note ga = getApplication_ok [OF a] and gs = GetSecret_found [OF q]
  have sec': "objs s' c k n = objs s3 c k n" if "k \<noteq> KSecret" for c k n
    using update_others [OF up] that by (simp add: same_but_def)
  from PrepareBinding_ok [OF p] obtain s4 b where
    loop: "run_state (for_collect (prepareContainerWithMounts api sb sec (binding_volume sb)) us) s2 = (Inr [], s4)"
    and b: "objs s3 (k_self api) KServiceBinding (meta_key (sb_meta sb)) = Some (OServiceBinding b)"
      "sbst_State (sb_Status b) = SBReady" "sbst_Connections (sb_Status b) = map (om_name \<circ> u_meta) us"
      "is_bound (sbst_Conditions (sb_Status b)) CondTrue"
    and fr: "same_but {(k_self api, KServiceBinding, meta_key (sb_meta sb))} (objs s4) (objs s3)" by blast
  from keyed [OF conjunct1 [OF gs]] m
  have sk: "obj_key (OSecret (sec\<lparr>sec_meta := m\<rparr>)) = (om_namespace (sb_meta sb), sbsp_ServiceEndpointDefinitionSecret (sb_Spec sb))"
    by (auto simp: SetControllerReference_def Let_def obj_key_def meta_key_def split: option.splits if_splits)
  have "modifies objs (bound_objects (k_self api) sb us) (for_collect (prepareContainerWithMounts api sb sec (binding_volume sb)) us)"
    by (intro modifies_for_collect modifiesI)
      (erule same_but_mono [OF prepareContainerWithMounts_others], auto simp: bound_objects_def)
  note f1 = modifies_run [OF this loop]
  have "same_but (bound_objects (k_self api) sb us) (objs s4) (objs s3)"
    by (rule same_but_mono [OF fr]) (simp add: bound_objects_def)
  moreover have "same_but (bound_objects (k_self api) sb us) (objs s3) (objs s')"
    by (rule same_but_mono [OF update_others [OF up, unfolded sk]]) (simp add: bound_objects_def)
  moreover have "objs s2 = objs s" using ga gs by simp
  ultimately have frame: "same_but (bound_objects (k_self api) sb us) (objs s) (objs s')"
    using f1 by (metis same_but_trans)
  from ga have us: "distinct (map key_of us)" "\<forall>u\<in>set us. stored s u"
    and kd: "\<forall>u\<in>set us. kind_of u = KUnstructured (as_APIVersion (sbsp_Application (sb_Spec sb))) (as_Kind (sbsp_Application (sb_Spec sb)))"
    and s1: "objs s1 = objs s" by blast+
  from gs s1 have "objs s2 = objs s" by simp
  with us have "\<forall>u\<in>set us. stored s2 u" by simp
  from bind_loop_ok [OF loop us(1) this kd]
  have "\<forall>u\<in>set us. \<exists>w. objs s' (k_self api) (kind_of u) (key_of u) = Some (OUnstructured w) \<and> workload_bound sb sec w"
    using fr by (simp add: sec' kind_of_def same_but_def)
  moreover from ga have "us \<noteq> []" "\<forall>u. u \<in> set us \<longleftrightarrow> stored s u \<and> selects sb u" by blast+
  moreover from ga gs have "objs s (k_self api) KSecret (om_namespace (sb_meta sb),
      sbsp_ServiceEndpointDefinitionSecret (sb_Spec sb)) = Some (OSecret sec)" by simp
  moreover from b have "objs s' (k_self api) KServiceBinding (meta_key (sb_meta sb)) = Some (OServiceBinding b)"
    by (simp add: sec')
  ultimately show ?thesis using b frame by blast
qed

end

lemma reconciled_binding_steps:
  assumes "kube_store api objs"
    and "run_state (ReconcileBinding api mapping start informers (ns, n)) s = ((None, informers'), s')"
    and "objs s (k_self api) KServiceBinding (ns, n) = Some (OServiceBinding sb)" and "\<not> om_deletion (sb_meta sb)"
  obtains sb1 s1 where "sb1 = sb\<lparr>sb_meta := snd (AddFinalizer (sb_meta sb) ServiceBindingFinalizer)\<rparr>"
    and "ensureInformerIsRunningForServiceBinding api mapping start informers sb1 = (None, informers')"
    and "run_state (bind_binding api sb1) s1 = (None, s')" and "objs s1 = objs s"
    and "om_namespace (sb_meta sb1) = ns" and "om_name (sb_meta sb1) = n"
proof -
  obtain g s1 where g: "run_state (get_binding api (k_self api) (ns, n)) s = (g, s1)" by fastforce
  have gv: "g = Inr sb"
  proof (cases g)
    case (Inl e)
    with assms(2) g have "IsNotFound e" by (auto simp: ReconcileBinding_def IgnoreNotFound_def split: if_splits)
    with kube_store.get_binding_missing [OF assms(1)] g Inl assms(3) show ?thesis by fastforce
  next
    case (Inr x)
    with kube_store.get_binding_found [OF assms(1)] g assms(3) show ?thesis by fastforce
  qed
  have s1: "objs s1 = objs s" by (rule reads_only [OF kube_store.modifies_get_binding [OF assms(1)] g])
  let ?sb = "sb\<lparr>sb_meta := snd (AddFinalizer (sb_meta sb) ServiceBindingFinalizer)\<rparr>"
  from assms(2,4) g gv have "ensureInformerIsRunningForServiceBinding api mapping start informers ?sb = (None, informers')"
    and "run_state (bind_binding api ?sb) s1 = (None, s')"
    by (auto simp: ReconcileBinding_def Let_def split: prod.splits option.splits)
  moreover have "om_namespace (sb_meta ?sb) = ns" "om_name (sb_meta ?sb) = n"
    using kube_store.keyed [OF assms(1,3)] by (auto simp: AddFinalizer_def obj_key_def meta_key_def)
  ultimately show thesis using s1 by (intro that [OF refl, of s1])
qed

lemma reconciled_binding_bound:
  assumes "kube_store api objs"
    and "run_state (ReconcileBinding api mapping start informers (ns, n)) s = ((None, informers'), s')"
    and "objs s (k_self api) KServiceBinding (ns, n) = Some (OServiceBinding sb)" and "\<not> om_deletion (sb_meta sb)"
  shows "\<exists>us sec b. us \<noteq> [] \<and>
    (\<forall>u. u \<in> set us \<longleftrightarrow>
       objs s (k_self api) (kind_of u) (key_of u) = Some (OUnstructured u) \<and> selects sb u) \<and>
    same_but (bound_objects (k_self api) sb us) (objs s) (objs s') \<and>
    objs s (k_self api) KSecret (ns, sbsp_ServiceEndpointDefinitionSecret (sb_Spec sb)) = Some (OSecret sec) \<and>
    (\<forall>u\<in>set us. \<exists>w. objs s' (k_self api) (kind_of u) (key_of u) = Some (OUnstructured w) \<and> workload_bound sb sec w) \<and>
    objs s' (k_self api) KServiceBinding (ns, n) = Some (OServiceBinding b) \<and>
    sbst_State (sb_Status b) = SBReady \<and> sbst_Connections (sb_Status b) = map (om_name \<circ> u_meta) us \<and>
    is_bound (sbst_Conditions (sb_Status b)) CondTrue \<and> n \<in> set informers'"
proof -
  let ?sb = "sb\<lparr>sb_meta := snd (AddFinalizer (sb_meta sb) ServiceBindingFinalizer)\<rparr>"
  from reconciled_binding_steps [OF assms] obtain s1 where s1: "objs s1 = objs s"
    and i: "ensureInformerIsRunningForServiceBinding api mapping start informers ?sb = (None, informers')"
    and run: "run_state (bind_binding api ?sb) s1 = (None, s')" by blast
  have meta: "om_namespace (sb_meta ?sb) = ns" "om_name (sb_meta ?sb) = n" "om_name (sb_meta sb) = n" "om_namespace (sb_meta sb) = ns"
    using kube_store.keyed [OF assms(1,3)] by (auto simp: AddFinalizer_def obj_key_def meta_key_def)
  have bound: "workload_bound ?sb sec w = workload_bound sb sec w" for sec w
    using meta by (simp add: workload_bound_def container_bound_def binding_volume_def foreign_env_def)
  have sel: "selects ?sb u = selects sb u" for u using meta by (simp add: selects_def)
  have wr: "bound_objects c ?sb us = bound_objects c sb us" for c us
    using meta by (simp add: bound_objects_def meta_key_def)
  have "n \<in> set informers'" using i meta
    by (auto simp: ensureInformerIsRunningForServiceBinding_def ensureInformerIsRunningForResource_def
      split: sum.splits option.splits if_splits)
  with kube_store.bind_binding_ok [OF assms(1) run] meta show ?thesis
    by (simp add: bound sel wr s1 meta_key_def)
qed


text \<open>Steps that keep the finalizers of every stored object of a kind.\<close>

definition finalizers_at :: "obj option \<Rightarrow> string list option" where
  "finalizers_at = map_option (\<lambda>x. om_finalizers (obj_meta x))"

definition keeps_finalizers :: "('s \<Rightarrow> cluster \<Rightarrow> okind \<Rightarrow> nsname \<Rightarrow> obj option) \<Rightarrow> okind \<Rightarrow> ('s, 'a) state \<Rightarrow> bool" where
  "keeps_finalizers objs k m = keeps (\<lambda>s s'. \<forall>c n. finalizers_at (objs s' c k n) = finalizers_at (objs s c k n)) m"

named_theorems finalizer_intros \<open>rules that a step keeps the finalizers of a kind\<close>

lemma keeps_finalizers_ret [finalizer_intros]: "keeps_finalizers objs k (ret x)"
  by (simp add: keeps_finalizers_def keeps_ret)

lemma keeps_finalizers_bind [finalizer_intros]:
  "keeps_finalizers objs k m \<Longrightarrow> (\<And>x. keeps_finalizers objs k (f x)) \<Longrightarrow> keeps_finalizers objs k (State_Monad.bind m f)"
  unfolding keeps_finalizers_def by (rule keeps_bind) simp_all

lemma keeps_finalizers_for_collect [finalizer_intros]:
  "(\<And>x. x \<in> set xs \<Longrightarrow> keeps_finalizers objs k (f x)) \<Longrightarrow> keeps_finalizers objs k (for_collect f xs)"
  unfolding keeps_finalizers_def by (rule keeps_for_collect) simp_all

lemma keeps_finalizers_other:
  "modifies objs (of_kinds A) m \<Longrightarrow> k \<notin> A \<Longrightarrow> keeps_finalizers objs k m"
  unfolding keeps_finalizers_def modifies_def keeps_def by (auto simp: same_but_def)

lemma keeps_finalizersI:
  "(\<And>s r s' c n. run_state m s = (r, s') \<Longrightarrow> finalizers_at (objs s' c k n) = finalizers_at (objs s c k n)) \<Longrightarrow>
     keeps_finalizers objs k m"
  by (simp add: keeps_finalizers_def keeps_def) (metis prod.collapse)

lemma finalizers_at_status: "obj_kind old = obj_kind x \<Longrightarrow>
    finalizers_at (Some (set_version v (copy_status x old))) = finalizers_at (Some old)"
  by (simp add: finalizers_at_def set_version_def)

context kube_store
begin

lemma keeps_finalizers_status [finalizer_intros]: "keeps_finalizers objs k (k_status_update api c x)"
proof (rule keeps_finalizersI)
  fix s r s' d n assume run: "run_state (k_status_update api c x) s = (r, s')"
  show "finalizers_at (objs s' d k n) = finalizers_at (objs s d k n)"
  proof (cases "(d, k, n) = (c, obj_kind x, obj_key x)")
    case False
    with status_others [OF run] show ?thesis by (simp add: same_but_def)
  next
    case True
    have "objs s' = objs s \<or> (\<exists>old v. objs s c (obj_kind x) (obj_key x) = Some old \<and>
        objs s' c (obj_kind x) (obj_key x) = Some (set_version v (copy_status x old)))"
    proof (cases r)
      case (Inl e)
      with status_failed [of c x s e s'] run show ?thesis by auto
    next
      case (Inr y)
      from status_ok [OF run [unfolded Inr]] show ?thesis by auto
    qed
    with True show ?thesis using finalizers_at_status keyed by fastforce
  qed
qed

lemma keeps_finalizers_update [finalizer_intros]:
  "obj_kind x \<noteq> k \<Longrightarrow> keeps_finalizers objs k (k_update api c x)"
  by (rule keeps_finalizers_other [of _ "{obj_kind x}"]) (intro frame_intros, simp_all)

lemma keeps_finalizers_get [finalizer_intros]: "keeps_finalizers objs k (k_get api c kd n)"
  by (rule keeps_finalizers_other [of _ "{}"]) (intro frame_intros, simp)

lemma keeps_finalizers_list [finalizer_intros]: "keeps_finalizers objs k (k_list api c kd ns sel)"
  by (rule keeps_finalizers_other [of _ "{}"]) (intro frame_intros, simp)

lemma keeps_finalizers_now [finalizer_intros]: "keeps_finalizers objs k (k_now api)"
  by (rule keeps_finalizers_other [of _ "{}"]) (intro frame_intros, simp)

lemma keeps_finalizers_update_workload [finalizer_intros]:
  "keeps_finalizers objs KServiceBinding (update_workload api r)"
  unfolding update_workload_def by (cases r; simp; intro finalizer_intros; simp)

lemma keeps_finalizers_status_of_binding [finalizer_intros]:
  "keeps_finalizers objs k (updateServiceBindingStatus api sb st rs msg state)"
  unfolding updateServiceBindingStatus_def Let_def by (intro finalizer_intros)

lemma keeps_finalizers_PrepareBinding [finalizer_intros]:
  "keeps_finalizers objs KServiceBinding (PrepareBinding api sb sec us)"
  unfolding PrepareBinding_def bindApplications_def prepareContainerWithMounts_def
    updateServiceBindingStatusWithBindingResult_def
  by (intro finalizer_intros allI impI; (split sum.splits prod.splits if_splits, intro conjI allI impI finalizer_intros)+)

end

context kube_store
begin

lemma keeps_finalizers_reads [finalizer_intros]:
  "keeps_finalizers objs k (get_secret api c n)" "keeps_finalizers objs k (get_binding api c n)"
  "keeps_finalizers objs k (getApplication api sb)"
  by (rule keeps_finalizers_other [of _ "{}"], intro frame_intros, simp)+

lemma keeps_finalizers_unbindApplications [finalizer_intros]:
  "keeps_finalizers objs KServiceBinding (unbindApplications api sb us)"
  unfolding unbindApplications_def removeVolumeMountAndEnvironment_def
  by (intro finalizer_intros; (split if_splits, intro conjI impI finalizer_intros)?)

lemma keeps_finalizers_GetSecret [finalizer_intros]:
  "keeps_finalizers objs KServiceBinding (GetSecret api sb us)"
  unfolding GetSecret_def
  by (intro finalizer_intros;
    (split sum.splits prod.splits option.splits, intro conjI allI impI finalizer_intros)+)

lemma keeps_finalizers_bind_binding [finalizer_intros]:
  "keeps_finalizers objs KServiceBinding (bind_binding api sb)"
  unfolding bind_binding_def
  by (intro finalizer_intros;
    (split sum.splits prod.splits option.splits, intro conjI allI impI finalizer_intros; simp?)+)

end

text \<open>Reconciling a binding that is not being deleted never changes the finalizers it is stored with, whatever
  the reconciliation reports: the finalizer is added to the object in memory only, and the status update
  does not write it, so that nothing delays the deletion of a binding until its workloads are unbound.\<close>

theorem ReconcileBinding_stores_no_finalizer:
  assumes "kube_store api objs"
    and "run_state (ReconcileBinding api mapping start informers (ns, n)) s = (r, s')"
    and "objs s (k_self api) KServiceBinding (ns, n) = Some (OServiceBinding sb)" and "\<not> om_deletion (sb_meta sb)"
    and "objs s' (k_self api) KServiceBinding (ns, n) = Some (OServiceBinding b)"
  shows "om_finalizers (sb_meta b) = om_finalizers (sb_meta sb)"
proof -
  obtain g s1 where g: "run_state (get_binding api (k_self api) (ns, n)) s = (g, s1)" by fastforce
  have s1: "objs s1 = objs s" by (rule reads_only [OF kube_store.modifies_get_binding [OF assms(1)] g])
  have "finalizers_at (objs s' (k_self api) KServiceBinding (ns, n)) = finalizers_at (objs s (k_self api) KServiceBinding (ns, n))"
  proof (cases g)
    case (Inl e)
    with assms(2) g have "s' = s1" by (auto simp: ReconcileBinding_def)
    with s1 show ?thesis by simp
  next
    case (Inr x)
    with kube_store.get_binding_found [OF assms(1)] g assms(3) have x: "x = sb" by fastforce
    let ?sb = "sb\<lparr>sb_meta := snd (AddFinalizer (sb_meta sb) ServiceBindingFinalizer)\<rparr>"
    obtain e inf' where i: "ensureInformerIsRunningForServiceBinding api mapping start informers ?sb = (e, inf')"
      by fastforce
    show ?thesis
    proof (cases e)
      case (Some e')
      with assms(2,4) g Inr x i have "s' = s1" by (auto simp: ReconcileBinding_def Let_def)
      with s1 show ?thesis by simp
    next
      case None
      obtain q s2 where q: "run_state (bind_binding api ?sb) s1 = (q, s2)" by fastforce
      with assms(2,4) g Inr x i None have "s' = s2" by (auto simp: ReconcileBinding_def Let_def)
      moreover from keeps_run [OF kube_store.keeps_finalizers_bind_binding [OF assms(1), unfolded keeps_finalizers_def] q]
      have "finalizers_at (objs s2 (k_self api) KServiceBinding (ns, n)) =
        finalizers_at (objs s1 (k_self api) KServiceBinding (ns, n))" by blast
      ultimately show ?thesis using s1 by simp
    qed
  qed
  with assms(3,5) show ?thesis by (simp add: finalizers_at_def)
qed

text \<open>When a workload appears or changes, the handler that binds it without an error leaves that workload as
  the only connection of the binding, whatever the connections were, so that the workloads that were
  bound before are no longer known to be bound.\<close>

theorem prepareAddFunc_forgets_others:
  assumes "kube_store api objs" and "verifyApplicationSatisfiesServiceBindingSpec u sb"
    and "run_state (prepareAddFunc api True sb u) s = (None, s')"
  shows "\<exists>b. objs s' (k_self api) KServiceBinding (meta_key (sb_meta sb)) = Some (OServiceBinding b) \<and>
    sbst_State (sb_Status b) = SBReady \<and> sbst_Connections (sb_Status b) = [om_name (u_meta u)]"
proof -
  from assms(2,3) obtain sec s1 sb' s2 e sb'' where
    g: "run_state (get_binding api (k_self api) (meta_key (sb_meta sb))) s1 = (Inr sb', s2)"
    and p: "run_state (PrepareBinding api sb' sec [u]) s2 = ((None, sb''), s')"
    by (auto simp: prepareAddFunc_def split: prod.splits sum.splits)
  from kube_store.get_binding_found [OF assms(1) g] kube_store.keyed [OF assms(1)]
  have "meta_key (sb_meta sb') = meta_key (sb_meta sb)" by (fastforce simp: obj_key_def)
  with kube_store.PrepareBinding_ok [OF assms(1) p] show ?thesis by auto
qed

subsection \<open>Instances\<close>

definition orders_binding :: ServiceBinding where
  "orders_binding =
     \<lparr>sb_meta = (new_meta ''apps'' ''db'')\<lparr>om_resourceVersion := ''1''\<rparr>,
      sb_Spec = \<lparr>sbsp_ServiceEndpointDefinitionSecret = ''db-secret'',
        sbsp_Application = \<lparr>as_APIVersion = ''apps/v1'', as_Kind = ''Deployment'', as_Name = '''',
          as_Selector = Some \<lparr>ls_MatchLabels = [(''tier'', ''web'')], ls_MatchExpressions = []\<rparr>\<rparr>,
        sbsp_Envs = [\<lparr>env_Name = ''HOST'', env_Key = ''host''\<rparr>]\<rparr>,
      sb_Status = \<lparr>sbst_Conditions = [], sbst_State = SBStateUnset, sbst_Connections = [''old'']\<rparr>\<rparr>"

definition db_secret :: Secret where
  "db_secret = \<lparr>sec_meta = (new_meta ''apps'' ''db-secret'')\<lparr>om_resourceVersion := ''1''\<rparr>,
     sec_Data = [(''host'', ''h'')], sec_StringData = []\<rparr>"

definition web_container :: Container where
  "web_container = \<lparr>ctr_Name = ''web'',
     ctr_Env = [\<lparr>ev_Name = ''TOKEN'', ev_Value = '''', ev_ValueFrom = Some (SecretKeyRef ''tokens'' ''t'')\<rparr>],
     ctr_VolumeMounts = [], ctr_Other = ''image''\<rparr>"

definition web_deployment :: "string \<Rightarrow> Unstructured" where
  "web_deployment n = \<lparr>u_APIVersion = ''apps/v1'', u_Kind = ''Deployment'',
     u_meta = (new_meta ''apps'' n)\<lparr>om_resourceVersion := ''1'', om_labels := [(''tier'', ''web'')]\<rparr>,
     u_volumes = Slice [MapVolume \<lparr>vol_Name = ''data'', vol_Source = OtherVolume ''pvc''\<rparr>],
     u_containers = Slice [MapContainer web_container], u_initContainers = Slice [], u_content = ''''\<rparr>"

definition orders_state :: mem where
  "orders_state = \<lparr>m_objs = [(0, OServiceBinding orders_binding), (0, OSecret db_secret),
     (0, OUnstructured (web_deployment ''shop'')), (0, OUnstructured (web_deployment ''cart''))],
     m_tick = 0, m_down = [], m_rules = []\<rparr>"

definition deployments :: "string \<Rightarrow> string \<Rightarrow> err + string" where
  "deployments av k = (if k = ''Deployment'' then Inr ''deployments'' else Inl (Plain ''no match''))"

abbreviation reconcile_orders :: "(mem, err option \<times> string list) state" where
  "reconcile_orders \<equiv> ReconcileBinding (mem_api [] 0) deployments (\<lambda>_ _. None) [] (''apps'', ''db'')"

lemma orders_at: "mem_objs orders_state (k_self (mem_api [] 0)) KServiceBinding (''apps'', ''db'') =
    Some (OServiceBinding orders_binding)"
  by code_simp

lemma orders_live: "\<not> om_deletion (sb_meta orders_binding)"
  by (simp add: orders_binding_def)

lemma orders_run: "\<exists>inf s'. run_state reconcile_orders orders_state = ((None, inf), s')"
proof -
  have "fst (fst (run_state reconcile_orders orders_state)) = None" by code_simp
  then show ?thesis by (metis prod.collapse)
qed

theorem bind_workload_idempotent_witness:
  "\<exists>u. bind_workload orders_binding db_secret (binding_volume orders_binding) (web_deployment ''shop'') = Inr u \<and>
     bind_workload orders_binding db_secret (binding_volume orders_binding) u = Inr u"
proof -
  have "\<exists>u. bind_workload orders_binding db_secret (binding_volume orders_binding) (web_deployment ''shop'') = Inr u"
    by (rule exI [of _ "projr (bind_workload orders_binding db_secret (binding_volume orders_binding) (web_deployment ''shop''))"])
      code_simp
  then obtain u where u: "bind_workload orders_binding db_secret (binding_volume orders_binding) (web_deployment ''shop'') = Inr u" ..
  have "om_name (sec_meta db_secret) = sbsp_ServiceEndpointDefinitionSecret (sb_Spec orders_binding)" by code_simp
  from bind_workload_idempotent [OF u this] u show ?thesis by blast
qed

theorem unbind_bind_workload_witness:
  "\<exists>u. bind_workload orders_binding db_secret (binding_volume orders_binding) (web_deployment ''shop'') = Inr u \<and>
     unbind_workload orders_binding ''db'' u = Inr (web_deployment ''shop'')"
proof -
  have "fresh_workload orders_binding (web_deployment ''shop'')"
    unfolding fresh_workload_def
    by (rule exI [of _ "[\<lparr>vol_Name = ''data'', vol_Source = OtherVolume ''pvc''\<rparr>]"], rule exI [of _ "[web_container]"],
        rule exI [of _ "[]"])
      (simp add: web_deployment_def web_container_def fresh_container_def foreign_env_def orders_binding_def ServiceBindingRoot_def)
  moreover have "plain_names orders_binding db_secret" by code_simp
  moreover have "om_name (sb_meta orders_binding) = ''db''" by (simp add: orders_binding_def)
  ultimately show ?thesis using unbind_bind_workload [of orders_binding "web_deployment ''shop''" db_secret] by simp
qed


theorem ReconcileBinding_stores_no_finalizer_witness:
  "\<exists>r s' b. run_state reconcile_orders orders_state = (r, s') \<and>
     mem_objs s' 0 KServiceBinding (''apps'', ''db'') = Some (OServiceBinding b) \<and> om_finalizers (sb_meta b) = []"
proof -
  obtain inf s' where run: "run_state reconcile_orders orders_state = ((None, inf), s')" using orders_run by blast
  have "\<exists>b. mem_objs (snd (run_state reconcile_orders orders_state)) 0 KServiceBinding (''apps'', ''db'') = Some (OServiceBinding b)"
    by (rule exI [of _ "as_binding orders_binding
      (the (mem_objs (snd (run_state reconcile_orders orders_state)) 0 KServiceBinding (''apps'', ''db'')))"]) code_simp
  with run obtain b where b: "mem_objs s' (k_self (mem_api [] 0)) KServiceBinding (''apps'', ''db'') = Some (OServiceBinding b)"
    by auto
  from ReconcileBinding_stores_no_finalizer [OF mem.kube_store_axioms, OF run orders_at orders_live b]
  have "om_finalizers (sb_meta b) = []" by (simp add: orders_binding_def)
  with run b show ?thesis by auto
qed

theorem prepareAddFunc_forgets_others_witness:
  "\<exists>s' b. run_state (prepareAddFunc (mem_api [] 0) True orders_binding (web_deployment ''cart'')) orders_state = (None, s') \<and>
     mem_objs s' 0 KServiceBinding (''apps'', ''db'') = Some (OServiceBinding b) \<and>
     sbst_Connections (sb_Status b) = [''cart''] \<and> sbst_Connections (sb_Status orders_binding) = [''old'']"
proof -
  let ?m = "prepareAddFunc (mem_api [] 0) True orders_binding (web_deployment ''cart'')"
  have "fst (run_state ?m orders_state) = None" by code_simp
  then obtain s' where run: "run_state ?m orders_state = (None, s')" by (metis prod.collapse)
  have v: "verifyApplicationSatisfiesServiceBindingSpec (web_deployment ''cart'') orders_binding" by code_simp
  have k: "meta_key (sb_meta orders_binding) = (''apps'', ''db'')" "om_name (u_meta (web_deployment ''cart'')) = ''cart''"
    "sbst_Connections (sb_Status orders_binding) = [''old'']" by code_simp+
  from prepareAddFunc_forgets_others [OF mem.kube_store_axioms, OF v run] run k show ?thesis by auto
qed


end
