(* ===== verification/Agents_Ctrl.thy ===== *)
theory Agents_Ctrl
  imports Workercluster
begin

section \<open>The agents of a worker cluster: \<^verbatim>\<open>controllers/agents\<close>\<close>

text \<open>
  The controllers of the agents that only pass resources on: the application agent's copy of a service
  claim to the control plane, its ownership of the catalogs, and the clean-up of both agents when their
  deployment is deleted. What a process finds in its container is the record \<open>agent_env\<close>: the mounted
  files of \<^verbatim>\<open>GetPrimazaKubeconfig\<close>, the in-cluster configuration and the environment variables.
\<close>

record agent_env =
  ae_kubeconfig :: "err + string" \<comment> \<open>\<^verbatim>\<open>/etc/primaza/kubeconfig\<close> as \<^verbatim>\<open>BuildConfigFromFlags\<close> reads it\<close>
  ae_namespace :: "err + string" \<comment> \<open>\<^verbatim>\<open>/etc/primaza/namespace\<close>\<close>
  ae_in_cluster :: "err + string" \<comment> \<open>\<^verbatim>\<open>rest.InClusterConfig\<close>\<close>
  ae_environment :: string \<comment> \<open>\<^verbatim>\<open>PRIMAZA\_CLUSTER\_ENVIRONMENT\<close>\<close>

definition ApplicationAgentDeploymentName :: string where
  "ApplicationAgentDeploymentName = ''primaza-app-agent''"

definition ServiceAgentDeploymentName :: string where
  "ServiceAgentDeploymentName = ''primaza-svc-agent''"

definition GetPrimazaKubeconfig :: "agent_env \<Rightarrow> err + string \<times> string" where
  "GetPrimazaKubeconfig ae =
     (case ae_kubeconfig ae of
        Inl e \<Rightarrow> Inl e
      | Inr config \<Rightarrow> (case ae_namespace ae of Inl e \<Rightarrow> Inl e | Inr ns \<Rightarrow> Inr (config, ns)))"

text \<open>\<^verbatim>\<open>os.Exit(1)\<close> ends the process: like a panic, nothing after it runs.\<close>

definition exit_process :: err where
  "exit_process = Panic ''exit status 1''"

text \<open>The agent's own deployment; an agent that does not find itself exits.\<close>

definition own_deployment :: "'s kube \<Rightarrow> string \<Rightarrow> string \<Rightarrow> ('s, err + Deployment) state" where
  "own_deployment api ns name = do {
     r \<leftarrow> get_deployment api (k_self api) (ns, name);
     ret (case r of Inl e \<Rightarrow> Inl (if IsNotFound e then exit_process else e) | Inr d \<Rightarrow> Inr d) }"

subsection \<open>\<^verbatim>\<open>app/serviceclaim\_controller.go\<close>\<close>

definition agent_ServiceClaimFinalizer :: string where
  "agent_ServiceClaimFinalizer = ''serviceclaims.primaza.io/finalizer''"

definition strings_Contains :: "string \<Rightarrow> string \<Rightarrow> bool" where
  "strings_Contains s sub = list_ex (\<lambda>i. has_prefix (drop i s) sub) [0..<Suc (length s)]"

definition createServiceClaimCopy :: "ServiceClaim \<Rightarrow> Deployment \<Rightarrow> string \<Rightarrow> ServiceClaim" where
  "createServiceClaimCopy sclaim deployment remote_namespace =
     sclaim\<lparr>sc_Spec := (sc_Spec sclaim)\<lparr>scsp_Target := Some \<lparr>sct_EnvironmentTag = '''',
         sct_ApplicationClusterContext = Some
           \<lparr>acc_ClusterEnvironmentName =
              (case gm_get (om_labels (dep_meta deployment)) PrimazaClusterEnvironmentLabel of Some l \<Rightarrow> l | None \<Rightarrow> ''''),
            acc_Namespace = om_namespace (sc_meta sclaim)\<rparr>\<rparr>\<rparr>,
       sc_meta := (sc_meta sclaim)\<lparr>om_namespace := remote_namespace, om_resourceVersion := ''''\<rparr>\<rparr>"

definition deleteExternalResources :: "'s kube \<Rightarrow> ServiceClaim \<Rightarrow> cluster \<Rightarrow> ('s, err option) state" where
  "deleteExternalResources api sclaim cli = k_delete api cli KServiceClaim (meta_key (sc_meta sclaim))"

definition as_claim :: "ServiceClaim \<Rightarrow> obj \<Rightarrow> ServiceClaim" where
  "as_claim c x = (case x of OServiceClaim c' \<Rightarrow> c' | _ \<Rightarrow> c)"

definition denied_by_webhook :: string where
  "denied_by_webhook = ''admission webhook \"vserviceclaim.kb.io\" denied the request''"

fun put_claim_spec :: "ServiceClaimSpec \<Rightarrow> obj \<Rightarrow> err + obj" where
  "put_claim_spec sp (OServiceClaim c) = Inr (OServiceClaim (c\<lparr>sc_Spec := sp\<rparr>))"
| "put_claim_spec sp x = Inl decode_err"

definition forward_claim ::
  "'s kube \<Rightarrow> cluster \<Rightarrow> ServiceClaim \<Rightarrow> Deployment \<Rightarrow> string \<Rightarrow> ('s, err option) state" where
  "forward_claim api cli sclaim deployment remote_namespace = do {
     let sclaimCopy = createServiceClaimCopy sclaim deployment remote_namespace;
     (r, _) \<leftarrow> CreateOrUpdate api cli (OServiceClaim sclaimCopy) (put_claim_spec (sc_Spec sclaimCopy));
     case r of
       Inr _ \<Rightarrow> ret None
     | Inl e \<Rightarrow>
         if strings_Contains (err_text e) denied_by_webhook then do {
           now \<leftarrow> k_now api;
           let c = \<lparr>co_type = ''Ready'', co_status = CondFalse, co_observedGeneration = 0,
                    co_lastTransitionTime = now, co_reason = ''ValidationError'', co_message = err_text e\<rparr>;
           u \<leftarrow> k_status_update api (k_self api) (OServiceClaim (sclaim\<lparr>sc_Status := (sc_Status sclaim)
             \<lparr>scst_Conditions := SetStatusCondition now c (scst_Conditions (sc_Status sclaim)),
              scst_State := ClaimInvalid\<rparr>\<rparr>));
           ret (err_of u) }
         else ret (Some e) }"

definition with_claim_finalizer :: "'s kube \<Rightarrow> ServiceClaim \<Rightarrow> ('s, err + ServiceClaim) state" where
  "with_claim_finalizer api sclaim =
     (if \<not> ContainsFinalizer (sc_meta sclaim) agent_ServiceClaimFinalizer then do {
        let sclaim1 = sclaim\<lparr>sc_meta := snd (AddFinalizer (sc_meta sclaim) agent_ServiceClaimFinalizer)\<rparr>;
        u \<leftarrow> k_update api (k_self api) (OServiceClaim sclaim1);
        ret (case u of Inl e \<Rightarrow> Inl e | Inr x \<Rightarrow> Inr (as_claim sclaim1 x)) }
      else ret (Inr sclaim))"

definition remove_claim ::
  "'s kube \<Rightarrow> cluster \<Rightarrow> ServiceClaim \<Rightarrow> Deployment \<Rightarrow> string \<Rightarrow> ('s, err option) state" where
  "remove_claim api cli sclaim deployment remote_namespace =
     (if ContainsFinalizer (sc_meta sclaim) agent_ServiceClaimFinalizer then do {
        d \<leftarrow> deleteExternalResources api (createServiceClaimCopy sclaim deployment remote_namespace) cli;
        case d of
          Some e \<Rightarrow> ret (Some e)
        | None \<Rightarrow> do {
            u \<leftarrow> k_update api (k_self api) (OServiceClaim (sclaim\<lparr>sc_meta :=
              snd (RemoveFinalizer (sc_meta sclaim) agent_ServiceClaimFinalizer)\<rparr>));
            ret (err_of u) } }
      else ret None)"

definition ReconcileLocalClaim :: "'s kube \<Rightarrow> agent_env \<Rightarrow> nsname \<Rightarrow> ('s, err option) state" where
  "ReconcileLocalClaim api ae req = do {
     g \<leftarrow> get_claim api (k_self api) req;
     case g of
       Inl e \<Rightarrow> ret (if IsNotFound e then None else Some e)
     | Inr sclaim \<Rightarrow>
         (case GetPrimazaKubeconfig ae of
            Inl e \<Rightarrow> ret (Some e)
          | Inr (config, remote_namespace) \<Rightarrow>
              (case k_new_client api config of
                 Inl e \<Rightarrow> ret (Some e)
               | Inr cli \<Rightarrow> do {
                   d \<leftarrow> own_deployment api (fst req) ApplicationAgentDeploymentName;
                   case d of
                     Inl e \<Rightarrow> ret (Some e)
                   | Inr deployment \<Rightarrow>
                       if \<not> om_deletion (sc_meta sclaim) \<and> \<not> om_deletion (dep_meta deployment) then do {
                         w \<leftarrow> with_claim_finalizer api sclaim;
                         case w of
                           Inl e \<Rightarrow> ret (Some e)
                         | Inr sclaim1 \<Rightarrow> forward_claim api cli sclaim1 deployment remote_namespace }
                       else remove_claim api cli sclaim deployment remote_namespace })) }"

subsection \<open>\<^verbatim>\<open>app/servicecatalog\_controller.go\<close>\<close>

definition deployment_gvk :: "string \<times> string" where
  "deployment_gvk = (''apps/v1'', ''Deployment'')"

definition own_catalog ::
  "'s kube \<Rightarrow> ServiceCatalog \<Rightarrow> string \<Rightarrow> ('s, err + ServiceCatalog) state" where
  "own_catalog api scat namespace = do {
     g \<leftarrow> get_deployment api (k_self api) (namespace, ApplicationAgentDeploymentName);
     ret (case g of
            Inl e \<Rightarrow> if IsNotFound e then Inr scat else Inl e
          | Inr deployment \<Rightarrow>
              (case SetControllerReference deployment_gvk (dep_meta deployment) (cat_meta scat) of
                 Inl e \<Rightarrow> Inl e
               | Inr m \<Rightarrow> Inr (scat\<lparr>cat_meta := m\<rparr>))) }"

definition ReconcileLocalCatalog :: "'s kube \<Rightarrow> nsname \<Rightarrow> ('s, err option) state" where
  "ReconcileLocalCatalog api req = do {
     g \<leftarrow> get_catalog api (k_self api) req;
     case g of
       Inl e \<Rightarrow> ret None
     | Inr scat \<Rightarrow> do {
         o1 \<leftarrow> own_catalog api scat (fst req);
         case o1 of
           Inl e \<Rightarrow> ret (Some e)
         | Inr scat1 \<Rightarrow> do {
             u \<leftarrow> k_update api (k_self api) (OServiceCatalog scat1);
             ret (err_of u) } } }"

subsection \<open>The deployments: \<^verbatim>\<open>app/agentapp\_controller.go\<close> and \<^verbatim>\<open>svc/agentsvc\_controller.go\<close>\<close>

definition agentappfinalizer :: string where
  "agentappfinalizer = ''agentapp.primaza.io/finalizer''"

definition agentsvcfinalizer :: string where
  "agentsvcfinalizer = ''agent.primaza.io/finalizer''"

definition delete_all_of :: "'s kube \<Rightarrow> okind \<Rightarrow> string \<Rightarrow> ('s, err option) state" where
  "delete_all_of api k ns = do {
     r \<leftarrow> k_delete_all api (k_self api) k ns;
     ret (case r of Some e \<Rightarrow> IgnoreNotFound e | None \<Rightarrow> None) }"

definition removeServiceCatalog :: "'s kube \<Rightarrow> nsname \<Rightarrow> ('s, err option) state" where
  "removeServiceCatalog api req = delete_all_of api KServiceCatalog (fst req)"

definition removeServiceBinding :: "'s kube \<Rightarrow> nsname \<Rightarrow> ('s, err option) state" where
  "removeServiceBinding api req = delete_all_of api KServiceBinding (fst req)"

definition removePrimazaResources :: "'s kube \<Rightarrow> nsname \<Rightarrow> ('s, err option) state" where
  "removePrimazaResources api req = do {
     r1 \<leftarrow> removeServiceCatalog api req;
     r2 \<leftarrow> removeServiceBinding api req;
     ret (errors_Join_opt [r1, r2]) }"

definition drop_finalizer :: "'s kube \<Rightarrow> string \<Rightarrow> Deployment \<Rightarrow> ('s, err option) state" where
  "drop_finalizer api f d =
     (case RemoveFinalizer (dep_meta d) f of
        (False, _) \<Rightarrow> ret None
      | (True, m) \<Rightarrow> do {
          u \<leftarrow> k_update api (k_self api) (ODeployment (d\<lparr>dep_meta := m\<rparr>));
          ret (err_of u) })"

definition take_finalizer :: "'s kube \<Rightarrow> string \<Rightarrow> Deployment \<Rightarrow> ('s, err option) state" where
  "take_finalizer api f d =
     (case AddFinalizer (dep_meta d) f of
        (False, _) \<Rightarrow> ret None
      | (True, m) \<Rightarrow> do {
          u \<leftarrow> k_update api (k_self api) (ODeployment (d\<lparr>dep_meta := m\<rparr>));
          ret (err_of u) })"

definition ReconcileApplicationAgent :: "'s kube \<Rightarrow> nsname \<Rightarrow> ('s, err option) state" where
  "ReconcileApplicationAgent api req = do {
     g \<leftarrow> own_deployment api (fst req) ApplicationAgentDeploymentName;
     case g of
       Inl e \<Rightarrow> ret (Some e)
     | Inr d \<Rightarrow>
         if om_deletion (dep_meta d) then do {
           r \<leftarrow> removePrimazaResources api req;
           case r of
             Some e \<Rightarrow> ret (Some e)
           | None \<Rightarrow> drop_finalizer api agentappfinalizer d }
         else take_finalizer api agentappfinalizer d }"

definition removeServiceClasses :: "'s kube \<Rightarrow> nsname \<Rightarrow> ('s, err option) state" where
  "removeServiceClasses api req = delete_all_of api KServiceClass (fst req)"

text \<open>The second component says whether a requeue after a delay is asked for.\<close>

definition ReconcileServiceAgent :: "'s kube \<Rightarrow> nsname \<Rightarrow> ('s, err option \<times> bool) state" where
  "ReconcileServiceAgent api req = do {
     g \<leftarrow> own_deployment api (fst req) ServiceAgentDeploymentName;
     case g of
       Inl e \<Rightarrow> ret (Some e, False)
     | Inr d \<Rightarrow>
         if om_deletion (dep_meta d) then do {
           r \<leftarrow> removeServiceClasses api req;
           case r of
             Some e \<Rightarrow> ret (Some e, False)
           | None \<Rightarrow> do {
               l \<leftarrow> k_list api (k_self api) KServiceClass (fst req) [];
               case map_items classes_of l of
                 Inl e \<Rightarrow> ret (Some e, False)
               | Inr scc \<Rightarrow>
                   if scc \<noteq> [] then ret (Some (Plain ''waiting for Service Classes deletion''), True)
                   else do {
                     u \<leftarrow> drop_finalizer api agentsvcfinalizer d;
                     ret (u, False) } } }
         else do {
           u \<leftarrow> take_finalizer api agentsvcfinalizer d;
           ret (u, False) } }"

end
