(* ===== verification/Agents_Correct.thy ===== *)
theory Agents_Correct
  imports Agents_Ctrl Live_Api
begin

section \<open>What the agents guarantee\<close>

text \<open>
  The copy of a claim on the control plane names the environment and the namespace it comes from; a
  claim that has no copy cannot be deleted; the service agent keeps its deployment until every service
  class of its namespace is gone.
\<close>

definition is_claim :: "ServiceClaimSpec \<Rightarrow> obj \<Rightarrow> bool" where
  "is_claim S x = (\<exists>c. x = OServiceClaim c \<and> sc_Spec c = S)"

lemma stable_local_claim: "storage_stable (is_claim S)"
  unfolding storage_stable_def
proof (intro allI impI conjI)
  fix y u v st old assume "is_claim S y"
  then obtain c where "y = OServiceClaim c" "sc_Spec c = S" by (auto simp: is_claim_def)
  then show "is_claim S (populated u v (copy_status st (merge_string_data y)))" "is_claim S (written old v y)"
    by (cases st; cases old; simp add: is_claim_def populated_def written_def keep_server_fields_def set_version_def)+
qed

lemma put_claim_spec_mutates: "mutates_to (is_claim S) (put_claim_spec S)"
  unfolding mutates_to_def
proof (intro allI impI)
  fix w y assume "put_claim_spec S w = Inr y"
  then show "obj_kind y = obj_kind w \<and> is_claim S y \<and> om_finalizers (obj_meta y) = om_finalizers (obj_meta w)"
    by (cases w) (auto simp: is_claim_def)
qed

text \<open>The specification of the copy of a claim.\<close>

definition forwarded :: "ServiceClaimSpec \<Rightarrow> string \<Rightarrow> string \<Rightarrow> ServiceClaimSpec" where
  "forwarded sp env ns = sp\<lparr>scsp_Target := Some \<lparr>sct_EnvironmentTag = '''',
     sct_ApplicationClusterContext = Some \<lparr>acc_ClusterEnvironmentName = env, acc_Namespace = ns\<rparr>\<rparr>\<rparr>"

lemma createServiceClaimCopy_simps:
  "sc_Spec (createServiceClaimCopy c d rns) = forwarded (sc_Spec c)
     (case gm_get (om_labels (dep_meta d)) PrimazaClusterEnvironmentLabel of Some l \<Rightarrow> l | None \<Rightarrow> '''')
     (om_namespace (sc_meta c))"
  "meta_key (sc_meta (createServiceClaimCopy c d rns)) = (rns, om_name (sc_meta c))"
  by (simp_all add: createServiceClaimCopy_def forwarded_def meta_key_def)

context kube_store
begin

lemma get_claim_of:
  assumes "run_state (get_claim api c n) s = (g, s')" and "objs s c KServiceClaim n = Some (OServiceClaim sc)"
    and "\<And>e. g = Inl e \<Longrightarrow> IsNotFound e"
  shows "g = Inr sc \<and> objs s' = objs s"
proof (cases g)
  case (Inl e)
  with get_claim_missing assms show ?thesis by fastforce
next
  case (Inr x)
  with get_claim_found assms(1,2) reads_only [OF modifies_get_claim assms(1)] show ?thesis by fastforce
qed

lemma own_deployment_reads: "modifies objs K (own_deployment api ns n)"
  unfolding own_deployment_def by (intro frame_intros modifies_get_deployment)

lemma own_deployment_found:
  assumes "run_state (own_deployment api ns n) s = (Inr d, s')"
  shows "objs s (k_self api) KDeployment (ns, n) = Some (ODeployment d) \<and> objs s' = objs s"
proof -
  from assms have "run_state (get_deployment api (k_self api) (ns, n)) s = (Inr d, s')"
    by (auto simp: own_deployment_def split: prod.splits sum.splits if_splits)
  from get_deployment_found [OF this] reads_only [OF own_deployment_reads assms] show ?thesis by blast
qed

text \<open>A reconciliation without an error, read up to the branch on the deletion.\<close>

lemma ReconcileLocalClaim_branch:
  assumes "run_state (ReconcileLocalClaim api ae (ns, n)) s = (None, s')"
    and "objs s (k_self api) KServiceClaim (ns, n) = Some (OServiceClaim sc)"
  obtains config rns cli d s1 where "GetPrimazaKubeconfig ae = Inr (config, rns)" "k_new_client api config = Inr cli"
    "objs s (k_self api) KDeployment (ns, ApplicationAgentDeploymentName) = Some (ODeployment d)" "objs s1 = objs s"
    "run_state (if \<not> om_deletion (sc_meta sc) \<and> \<not> om_deletion (dep_meta d) then do {
        w \<leftarrow> with_claim_finalizer api sc;
        case w of Inl e \<Rightarrow> ret (Some e) | Inr sc1 \<Rightarrow> forward_claim api cli sc1 d rns }
      else remove_claim api cli sc d rns) s1 = (None, s')"
proof -
  obtain g s1 where g: "run_state (get_claim api (k_self api) (ns, n)) s = (g, s1)" by fastforce
  have "IsNotFound e" if "g = Inl e" for e
    using assms(1) g that by (auto simp: ReconcileLocalClaim_def split: if_splits)
  from get_claim_of [OF g assms(2) this] have gv: "g = Inr sc" and s1: "objs s1 = objs s" by auto
  from assms(1) g gv obtain config rns cli where c: "GetPrimazaKubeconfig ae = Inr (config, rns)" "k_new_client api config = Inr cli"
    by (auto simp: ReconcileLocalClaim_def split: sum.splits prod.splits)
  obtain q s2 where q: "run_state (own_deployment api ns ApplicationAgentDeploymentName) s1 = (q, s2)" by fastforce
  from assms(1) g gv c q obtain d where d: "q = Inr d" by (cases q) (auto simp: ReconcileLocalClaim_def)
  from own_deployment_found [OF q [unfolded d]] s1 have
    "objs s (k_self api) KDeployment (ns, ApplicationAgentDeploymentName) = Some (ODeployment d)" "objs s2 = objs s" by auto
  from that [OF c this] assms(1) g gv c q d show thesis by (simp add: ReconcileLocalClaim_def)
qed

lemma with_claim_finalizer_ok:
  assumes "run_state (with_claim_finalizer api sc) s = (Inr sc1, s')"
  shows "sc_Spec sc1 = sc_Spec sc \<and> meta_key (sc_meta sc1) = meta_key (sc_meta sc)"
proof (cases "ContainsFinalizer (sc_meta sc) agent_ServiceClaimFinalizer")
  case True
  with assms show ?thesis by (simp add: with_claim_finalizer_def)
next
  case False
  let ?x = "OServiceClaim (sc\<lparr>sc_meta := snd (AddFinalizer (sc_meta sc) agent_ServiceClaimFinalizer)\<rparr>)"
  from assms False obtain y where u: "run_state (k_update api (k_self api) ?x) s = (Inr y, s')"
    and sc1: "sc1 = as_claim (sc\<lparr>sc_meta := snd (AddFinalizer (sc_meta sc) agent_ServiceClaimFinalizer)\<rparr>) y"
    by (auto simp: with_claim_finalizer_def Let_def split: prod.splits sum.splits)
  from update_ok [OF u] obtain old v where "y = written old v ?x" by auto
  with sc1 show ?thesis
    by (cases old) (auto simp: as_claim_def written_def keep_server_fields_def set_version_def AddFinalizer_def meta_key_def)
qed

lemma forward_claim_ok:
  assumes "run_state (forward_claim api cli sc d rns) s = (None, s')"
  shows "(\<exists>c. objs s' cli KServiceClaim (rns, om_name (sc_meta sc)) = Some (OServiceClaim c) \<and>
      sc_Spec c = sc_Spec (createServiceClaimCopy sc d rns)) \<or>
    (\<exists>c. objs s' (k_self api) KServiceClaim (meta_key (sc_meta sc)) = Some (OServiceClaim c) \<and>
      scst_State (sc_Status c) = ClaimInvalid)"
proof -
  let ?copy = "createServiceClaimCopy sc d rns"
  obtain r x s1 where r: "run_state (CreateOrUpdate api cli (OServiceClaim ?copy) (put_claim_spec (sc_Spec ?copy))) s = ((r, x), s1)"
    by (metis prod.collapse)
  show ?thesis
  proof (cases r)
    case (Inr op)
    with assms r have "s' = s1" by (simp add: forward_claim_def Let_def)
    with CreateOrUpdate_stores [OF r [unfolded Inr] put_claim_spec_mutates stable_local_claim] show ?thesis
      by (auto simp: is_claim_def obj_key_def createServiceClaimCopy_simps)
  next
    case (Inl e)
    obtain now s2 where n: "run_state (k_now api) s1 = (now, s2)" by fastforce
    from assms r Inl n obtain cs y where
      u: "run_state (k_status_update api (k_self api) (OServiceClaim (sc\<lparr>sc_Status := (sc_Status sc)
        \<lparr>scst_Conditions := cs, scst_State := ClaimInvalid\<rparr>\<rparr>))) s2 = (Inr y, s')"
      by (auto simp: forward_claim_def Let_def err_of_def split: if_splits sum.splits prod.splits)
    from status_ok [OF u] obtain old v where o: "objs s2 (k_self api) KServiceClaim (meta_key (sc_meta sc)) = Some old"
      and y: "y = set_version v (copy_status (OServiceClaim (sc\<lparr>sc_Status := (sc_Status sc)
        \<lparr>scst_Conditions := cs, scst_State := ClaimInvalid\<rparr>\<rparr>)) old)"
      and st: "objs s' (k_self api) KServiceClaim (meta_key (sc_meta sc)) = Some y"
      by (auto simp: obj_key_def)
    from keyed [OF o] obtain c0 where "old = OServiceClaim c0" by (cases old) auto
    with y st show ?thesis by (auto simp: set_version_def)
  qed
qed

end

text \<open>C17: Let a claim that is not being deleted be reconciled without an error by the application agent, whose
  deployment is stored in the claim's namespace, is not being deleted and carries the label of its cluster
  environment (with a deletion mark on the claim or the deployment, the copy is removed instead). Then the
  control plane's namespace holds a claim of that name with the claim's specification, aimed at the namespace it
  comes from in the environment of the label, or the local claim is Invalid.\<close>

theorem ReconcileLocalClaim_forwards:
  assumes "kube_store api objs"
    and "run_state (ReconcileLocalClaim api ae (ns, n)) s = (None, s')"
    and "objs s (k_self api) KServiceClaim (ns, n) = Some (OServiceClaim sc)" and "\<not> om_deletion (sc_meta sc)"
    and "objs s (k_self api) KDeployment (ns, ApplicationAgentDeploymentName) = Some (ODeployment d)"
    and "\<not> om_deletion (dep_meta d)" and "gm_get (om_labels (dep_meta d)) PrimazaClusterEnvironmentLabel = Some env"
  shows "\<exists>config rns cli. GetPrimazaKubeconfig ae = Inr (config, rns) \<and> k_new_client api config = Inr cli \<and>
    ((\<exists>c. objs s' cli KServiceClaim (rns, n) = Some (OServiceClaim c) \<and> sc_Spec c = forwarded (sc_Spec sc) env ns) \<or>
     (\<exists>c. objs s' (k_self api) KServiceClaim (ns, n) = Some (OServiceClaim c) \<and> scst_State (sc_Status c) = ClaimInvalid))"
proof (rule kube_store.ReconcileLocalClaim_branch [OF assms(1-3)])
  fix config rns cli d' s1
  assume c: "GetPrimazaKubeconfig ae = Inr (config, rns)" "k_new_client api config = Inr cli"
    and d': "objs s (k_self api) KDeployment (ns, ApplicationAgentDeploymentName) = Some (ODeployment d')"
    and run: "run_state (if \<not> om_deletion (sc_meta sc) \<and> \<not> om_deletion (dep_meta d') then do {
        w \<leftarrow> with_claim_finalizer api sc;
        case w of Inl e \<Rightarrow> ret (Some e) | Inr sc1 \<Rightarrow> forward_claim api cli sc1 d' rns }
      else remove_claim api cli sc d' rns) s1 = (None, s')"
  from d' assms(5) have d: "d' = d" by simp
  from run assms(4,6) d obtain sc1 s2 where w: "run_state (with_claim_finalizer api sc) s1 = (Inr sc1, s2)"
    and wr: "run_state (forward_claim api cli sc1 d rns) s2 = (None, s')"
    by (auto split: prod.splits sum.splits)
  from kube_store.keyed [OF assms(1,3)] kube_store.with_claim_finalizer_ok [OF assms(1) w]
  have "meta_key (sc_meta sc1) = (ns, n)" "om_name (sc_meta sc1) = n" "om_namespace (sc_meta sc1) = ns"
    "sc_Spec sc1 = sc_Spec sc" by (auto simp: obj_key_def meta_key_def)
  with kube_store.forward_claim_ok [OF assms(1) wr] assms(7) c show ?thesis
    by (simp add: createServiceClaimCopy_simps)
qed

text \<open>A claim whose copy is missing on the control plane cannot be deleted: every reconciliation of its
  deletion reports an error and leaves the claim with its finalizer as it is.\<close>

theorem ReconcileLocalClaim_missing_copy_blocks:
  assumes "kube_store api objs"
    and "run_state (ReconcileLocalClaim api ae (ns, n)) s = (r, s')"
    and "objs s (k_self api) KServiceClaim (ns, n) = Some (OServiceClaim sc)" and "om_deletion (sc_meta sc)"
    and "agent_ServiceClaimFinalizer \<in> set (om_finalizers (sc_meta sc))"
    and "GetPrimazaKubeconfig ae = Inr (config, rns)" and "k_new_client api config = Inr cli"
    and "objs s cli KServiceClaim (rns, n) = None"
  shows "r \<noteq> None \<and> objs s' (k_self api) KServiceClaim (ns, n) = Some (OServiceClaim sc)"
proof -
  obtain g s1 where g: "run_state (get_claim api (k_self api) (ns, n)) s = (g, s1)" by fastforce
  have s1: "objs s1 = objs s" by (rule reads_only [OF kube_store.modifies_get_claim [OF assms(1)] g])
  show ?thesis
  proof (cases "g = Inr sc")
    case False
    with kube_store.get_claim_of [OF assms(1) g assms(3)] obtain e where e: "g = Inl e" "\<not> IsNotFound e" by blast
    with assms(2) g s1 assms(3) show ?thesis by (auto simp: ReconcileLocalClaim_def)
  next
    case True
    obtain q s2 where q: "run_state (own_deployment api ns ApplicationAgentDeploymentName) s1 = (q, s2)" by fastforce
    have s2: "objs s2 = objs s" using reads_only [OF kube_store.own_deployment_reads [OF assms(1)] q] s1 by simp
    show ?thesis
    proof (cases q)
      case (Inl e)
      with assms(2,3,6,7) g True q s2 show ?thesis by (auto simp: ReconcileLocalClaim_def)
    next
      case (Inr d)
      obtain del s3 where del: "run_state (k_delete api cli KServiceClaim (rns, n)) s2 = (del, s3)" by fastforce
      obtain e where e: "del = Some e"
      proof (cases del)
        case None
        from kube_store.delete_ok [OF assms(1) del [unfolded None]] s2 assms(8) show ?thesis by simp
      qed
      have "om_name (sc_meta sc) = n" using kube_store.keyed [OF assms(1,3)] by (simp add: obj_key_def meta_key_def)
      with assms(2,4-7) g True q Inr del e have "r = Some e" "s' = s3"
        by (simp_all add: ReconcileLocalClaim_def remove_claim_def ContainsFinalizer_def deleteExternalResources_def
          createServiceClaimCopy_simps)
      moreover have "(k_self api, KServiceClaim, (ns, n)) \<noteq> (cli, KServiceClaim, (rns, n))" using assms(3,8) by auto
      ultimately show ?thesis using kube_store.delete_others [OF assms(1) del] s2 assms(3) by (auto simp: same_but_def)
    qed
  qed
qed

context kube_store
begin

lemma no_class_listed:
  assumes "run_state (k_list api c KServiceClass ns []) s = (Inr xs, s')" and "classes_of xs = []" and "ns \<noteq> ''''"
  shows "objs s c KServiceClass (ns, m) = None"
proof (rule ccontr)
  assume "objs s c KServiceClass (ns, m) \<noteq> None"
  then obtain y where y: "objs s c KServiceClass (ns, m) = Some y" by auto
  from keyed [OF y] obtain cl where "y = OServiceClass cl" by (cases y) auto
  with list_kind [OF assms(1,3)] y keyed [OF y] assms(2)
  show False by (metis classes_of_in empty_iff fst_conv list.set(1))
qed

lemma modifies_drop_finalizer:
  "modifies objs {(k_self api, KDeployment, meta_key (dep_meta d))} (drop_finalizer api f d)"
  unfolding drop_finalizer_def RemoveFinalizer_def
  by (cases "f \<in> set (om_finalizers (dep_meta d))") (auto intro!: frame_intros simp: obj_key_def meta_key_def)

end

text \<open>C32: The service agent never gives up its deployment early: as long as a service class is left in its (named)
  namespace after a reconciliation of the stored deployment that is marked for deletion, the reconciliation has
  reported an error and the deployment is stored as it was, with its finalizers.\<close>

theorem ReconcileServiceAgent_waits:
  assumes "kube_store api objs"
    and "run_state (ReconcileServiceAgent api (ns, n)) s = ((r, again), s')" and "ns \<noteq> ''''"
    and "objs s (k_self api) KDeployment (ns, ServiceAgentDeploymentName) = Some (ODeployment d)"
    and "om_deletion (dep_meta d)"
    and "objs s' (k_self api) KServiceClass (ns, m) = Some x"
  shows "r \<noteq> None \<and> objs s' (k_self api) KDeployment (ns, ServiceAgentDeploymentName) = Some (ODeployment d)"
proof -
  obtain q s1 where q: "run_state (own_deployment api ns ServiceAgentDeploymentName) s = (q, s1)" by fastforce
  have s1: "objs s1 = objs s" by (rule reads_only [OF kube_store.own_deployment_reads [OF assms(1)] q])
  show ?thesis
  proof (cases q)
    case (Inl e)
    with assms(2,4) q s1 show ?thesis by (auto simp: ReconcileServiceAgent_def)
  next
    case (Inr d')
    from kube_store.own_deployment_found [OF assms(1) q [unfolded Inr]] assms(4) have d': "d' = d" by simp
    obtain e s2 where e: "run_state (removeServiceClasses api (ns, n)) s1 = (e, s2)" by fastforce
    have "modifies objs {(k_self api, KServiceClass, m) | m. fst m = ns} (removeServiceClasses api (ns, n))"
      unfolding removeServiceClasses_def delete_all_of_def
      by (intro frame_intros kube_store.modifies_delete_all [OF assms(1)]) simp
    from modifies_run [OF this e] s1 assms(4)
    have dep: "objs s2 (k_self api) KDeployment (ns, ServiceAgentDeploymentName) = Some (ODeployment d)"
      by (simp add: same_but_def)
    show ?thesis
    proof (cases e)
      case (Some e')
      with assms(2,5) q Inr d' e dep show ?thesis by (auto simp: ReconcileServiceAgent_def)
    next
      case None
      obtain l s3 where l: "run_state (k_list api (k_self api) KServiceClass ns []) s2 = (l, s3)" by fastforce
      have s3: "objs s3 = objs s2" by (rule kube_store.list_reads [OF assms(1) l])
      show ?thesis
      proof (cases "map_items classes_of l = Inr []")
        case False
        with assms(2,5) q Inr d' e None l dep s3 show ?thesis
          by (auto simp: ReconcileServiceAgent_def split: sum.splits if_splits)
      next
        case True
        then obtain xs where xs: "l = Inr xs" "classes_of xs = []" by (auto simp: map_items_def split: sum.splits)
        have "objs s2 (k_self api) KServiceClass (ns, m) = None"
          by (rule kube_store.no_class_listed [OF assms(1) l [unfolded xs(1)] xs(2) assms(3)])
        moreover obtain u s4 where u: "run_state (drop_finalizer api agentsvcfinalizer d) s3 = (u, s4)" by fastforce
        from modifies_run [OF kube_store.modifies_drop_finalizer [OF assms(1)] u] s3 have "objs s4 (k_self api) KServiceClass (ns, m) = objs s2 (k_self api) KServiceClass (ns, m)"
          by (simp add: same_but_def)
        moreover have "s' = s4" using assms(2,5) q Inr d' e None l True u by (simp add: ReconcileServiceAgent_def)
        ultimately show ?thesis using assms(6) by simp
      qed
    qed
  qed
qed

subsection \<open>The agents' deployments settle\<close>

text \<open>Every write of a deployment queues it again: the same reconciliation, a number of times.\<close>

primrec rounds :: "nat \<Rightarrow> ('s, 'a) state \<Rightarrow> ('s, unit) state" where
  "rounds 0 m = ret ()"
| "rounds (Suc k) m = do { _ \<leftarrow> m; rounds k m }"

definition settled :: "cluster \<Rightarrow> nsname \<Rightarrow> string \<Rightarrow> (cluster \<Rightarrow> okind \<Rightarrow> nsname \<Rightarrow> obj option) \<Rightarrow> bool" where
  "settled c key f g = (\<exists>d. g c KDeployment key = Some (ODeployment d) \<and>
     \<not> om_deletion (dep_meta d) \<and> f \<in> set (om_finalizers (dep_meta d)))"

lemma rounds_settled:
  assumes "\<And>s r s'. P (objs s) \<Longrightarrow> run_state m s = (r, s') \<Longrightarrow> objs s' = objs s"
    and "P (objs s)" and "run_state (rounds k m) s = (u, s')"
  shows "objs s' = objs s"
  using assms(2,3)
proof (induction k arbitrary: s)
  case (Suc k)
  obtain r t where r: "run_state m s = (r, t)" by fastforce
  from assms(1) [OF Suc.prems(1) r] have "objs t = objs s" .
  with Suc.IH [of t] Suc.prems r show ?case by simp
qed simp

context kube_store
begin

lemma take_finalizer_settles:
  assumes "run_state (take_finalizer api f d) s = (None, s')" and "\<not> om_deletion (dep_meta d)"
    and "objs s (k_self api) KDeployment key = Some (ODeployment d)"
  shows "settled (k_self api) key f (objs s')"
proof (cases "f \<in> set (om_finalizers (dep_meta d))")
  case True
  with assms show ?thesis by (auto simp: take_finalizer_def AddFinalizer_def settled_def)
next
  case False
  let ?d = "d\<lparr>dep_meta := (dep_meta d)\<lparr>om_finalizers := om_finalizers (dep_meta d) @ [f]\<rparr>\<rparr>"
  from assms(1) False obtain y where u: "run_state (k_update api (k_self api) (ODeployment ?d)) s = (Inr y, s')"
    by (auto simp: take_finalizer_def AddFinalizer_def err_of_def split: prod.splits sum.splits)
  from keyed [OF assms(3)] have key: "obj_key (ODeployment ?d) = key" by (simp add: obj_key_def meta_key_def)
  from update_ok [OF u] assms(2,3) key obtain v where
    "y = written (ODeployment d) v (ODeployment ?d)" "objs s' (k_self api) KDeployment key = Some y" by auto
  with assms(2) show ?thesis
    by (auto simp: settled_def written_def keep_server_fields_def set_version_def)
qed

lemma own_deployment_settled:
  assumes "settled (k_self api) (ns, n) f (objs s)" and "run_state (own_deployment api ns n) s = (Inr d, s')"
  shows "take_finalizer api f d = ret None \<and> \<not> om_deletion (dep_meta d)"
  using own_deployment_found [OF assms(2)] assms(1)
  by (auto simp: settled_def take_finalizer_def AddFinalizer_def)

lemma application_agent_settled:
  assumes "settled (k_self api) (ns, ApplicationAgentDeploymentName) agentappfinalizer (objs s)"
    and "run_state (ReconcileApplicationAgent api (ns, n)) s = (r, s')"
  shows "objs s' = objs s"
proof -
  obtain g s1 where g: "run_state (own_deployment api ns ApplicationAgentDeploymentName) s = (g, s1)" by fastforce
  have "s' = s1" using assms own_deployment_settled [OF assms(1)] g
    by (cases g) (auto simp: ReconcileApplicationAgent_def)
  with reads_only [OF own_deployment_reads g] show ?thesis by simp
qed

lemma service_agent_settled:
  assumes "settled (k_self api) (ns, ServiceAgentDeploymentName) agentsvcfinalizer (objs s)"
    and "run_state (ReconcileServiceAgent api (ns, n)) s = (r, s')"
  shows "objs s' = objs s"
proof -
  obtain g s1 where g: "run_state (own_deployment api ns ServiceAgentDeploymentName) s = (g, s1)" by fastforce
  have "s' = s1" using assms own_deployment_settled [OF assms(1)] g
    by (cases g) (auto simp: ReconcileServiceAgent_def)
  with reads_only [OF own_deployment_reads g] show ?thesis by simp
qed

lemma application_agent_takes:
  assumes "run_state (ReconcileApplicationAgent api (ns, n)) s = (None, s')"
    and "objs s (k_self api) KDeployment (ns, ApplicationAgentDeploymentName) = Some (ODeployment d)" "\<not> om_deletion (dep_meta d)"
  shows "settled (k_self api) (ns, ApplicationAgentDeploymentName) agentappfinalizer (objs s')"
proof -
  obtain g s1 where g: "run_state (own_deployment api ns ApplicationAgentDeploymentName) s = (g, s1)" by fastforce
  with assms(1) obtain d' where d': "g = Inr d'" by (cases g) (auto simp: ReconcileApplicationAgent_def)
  from own_deployment_found [OF g [unfolded d']] assms(2) have "d' = d" and s1: "objs s1 = objs s" by auto
  with assms(1,3) g d' have "run_state (take_finalizer api agentappfinalizer d) s1 = (None, s')"
    by (simp add: ReconcileApplicationAgent_def)
  from take_finalizer_settles [OF this assms(3)] assms(2) s1 show ?thesis by simp
qed

lemma service_agent_takes:
  assumes "run_state (ReconcileServiceAgent api (ns, n)) s = ((None, False), s')"
    and "objs s (k_self api) KDeployment (ns, ServiceAgentDeploymentName) = Some (ODeployment d)" "\<not> om_deletion (dep_meta d)"
  shows "settled (k_self api) (ns, ServiceAgentDeploymentName) agentsvcfinalizer (objs s')"
proof -
  obtain g s1 where g: "run_state (own_deployment api ns ServiceAgentDeploymentName) s = (g, s1)" by fastforce
  with assms(1) obtain d' where d': "g = Inr d'" by (cases g) (auto simp: ReconcileServiceAgent_def)
  from own_deployment_found [OF g [unfolded d']] assms(2) have "d' = d" and s1: "objs s1 = objs s" by auto
  with assms(1,3) g d' have "run_state (take_finalizer api agentsvcfinalizer d) s1 = (None, s')"
    by (auto simp: ReconcileServiceAgent_def split: prod.splits)
  from take_finalizer_settles [OF this assms(3)] assms(2) s1 show ?thesis by simp
qed

end

text \<open>C31: The reconciliations of an agent's deployment end: one that returns no error (and, for the service agent,
  does not ask to be repeated) for a stored deployment that is not being deleted leaves its finalizer in place,
  and however often it is repeated, by the event of its own write or by any other, nothing is written again.\<close>

theorem agent_deployments_settle:
  assumes "kube_store api objs"
  shows "(\<forall>d s1 k u s2.
      objs s (k_self api) KDeployment (ns, ApplicationAgentDeploymentName) = Some (ODeployment d) \<and> \<not> om_deletion (dep_meta d) \<and>
      run_state (ReconcileApplicationAgent api (ns, n)) s = (None, s1) \<and>
      run_state (rounds k (ReconcileApplicationAgent api (ns, n))) s1 = (u, s2) \<longrightarrow>
        settled (k_self api) (ns, ApplicationAgentDeploymentName) agentappfinalizer (objs s1) \<and> objs s2 = objs s1) \<and>
    (\<forall>d s1 k u s2.
      objs s (k_self api) KDeployment (ns, ServiceAgentDeploymentName) = Some (ODeployment d) \<and> \<not> om_deletion (dep_meta d) \<and>
      run_state (ReconcileServiceAgent api (ns, n)) s = ((None, False), s1) \<and>
      run_state (rounds k (ReconcileServiceAgent api (ns, n))) s1 = (u, s2) \<longrightarrow>
        settled (k_self api) (ns, ServiceAgentDeploymentName) agentsvcfinalizer (objs s1) \<and> objs s2 = objs s1)"
proof (intro conjI allI impI; elim conjE)
  fix d s1 k u s2
  assume d: "objs s (k_self api) KDeployment (ns, ApplicationAgentDeploymentName) = Some (ODeployment d)" "\<not> om_deletion (dep_meta d)"
    and r: "run_state (ReconcileApplicationAgent api (ns, n)) s = (None, s1)"
    and m: "run_state (rounds k (ReconcileApplicationAgent api (ns, n))) s1 = (u, s2)"
  from kube_store.application_agent_takes [OF assms, OF r d]
  show st: "settled (k_self api) (ns, ApplicationAgentDeploymentName) agentappfinalizer (objs s1)" .
  show "objs s2 = objs s1"
    by (rule rounds_settled [where P = "settled (k_self api) (ns, ApplicationAgentDeploymentName) agentappfinalizer" and objs = objs, OF _ st, OF _ m])
      (rule kube_store.application_agent_settled [OF assms])
next
  fix d s1 k u s2
  assume d: "objs s (k_self api) KDeployment (ns, ServiceAgentDeploymentName) = Some (ODeployment d)" "\<not> om_deletion (dep_meta d)"
    and r: "run_state (ReconcileServiceAgent api (ns, n)) s = ((None, False), s1)"
    and m: "run_state (rounds k (ReconcileServiceAgent api (ns, n))) s1 = (u, s2)"
  from kube_store.service_agent_takes [OF assms, OF r d]
  show st: "settled (k_self api) (ns, ServiceAgentDeploymentName) agentsvcfinalizer (objs s1)" .
  show "objs s2 = objs s1"
    by (rule rounds_settled [where P = "settled (k_self api) (ns, ServiceAgentDeploymentName) agentsvcfinalizer" and objs = objs, OF _ st, OF _ m])
      (rule kube_store.service_agent_settled [OF assms])
qed

subsection \<open>Instances\<close>

definition local_claim :: "bool \<Rightarrow> ServiceClaim" where
  "local_claim dying =
     \<lparr>sc_meta = (new_meta ''apps'' ''db'')\<lparr>om_resourceVersion := ''1'', om_deletion := dying,
        om_finalizers := (if dying then [agent_ServiceClaimFinalizer] else [])\<rparr>,
      sc_Spec = \<lparr>scsp_ServiceClassIdentity = [\<lparr>sci_Name = ''type'', sci_Value = ''pg''\<rparr>],
        scsp_ServiceEndpointDefinitionKeys = [''host''],
        scsp_Application = \<lparr>as_APIVersion = ''apps/v1'', as_Kind = ''Deployment'', as_Name = ''shop'', as_Selector = None\<rparr>,
        scsp_Target = None, scsp_Envs = []\<rparr>,
      sc_Status = \<lparr>scst_State = ClaimStateUnset, scst_ClaimID = '''', scst_RegisteredService = None, scst_Conditions = []\<rparr>\<rparr>"

definition agent_deployment :: "string \<Rightarrow> string \<Rightarrow> bool \<Rightarrow> Deployment" where
  "agent_deployment ns n dying =
     \<lparr>dep_meta = (new_meta ns n)\<lparr>om_resourceVersion := ''1'', om_deletion := dying,
        om_finalizers := (if dying then [agentsvcfinalizer] else []),
        om_labels := [(PrimazaClusterEnvironmentLabel, ''edge'')]\<rparr>,
      dep_Images = [''agent''], dep_TemplateLabels = []\<rparr>"

definition edge_agent :: agent_env where
  "edge_agent = \<lparr>ae_kubeconfig = Inr ''primaza'', ae_namespace = Inr ''control'', ae_in_cluster = Inr ''self'', ae_environment = ''edge''\<rparr>"

definition agent_state :: "(cluster \<times> obj) list \<Rightarrow> mem" where
  "agent_state xs = \<lparr>m_objs = xs, m_tick = 0, m_down = [], m_rules = []\<rparr>"

abbreviation agent_api :: "mem kube" where
  "agent_api \<equiv> mem_api [(''primaza'', 1)] 0"

theorem ReconcileLocalClaim_forwards_witness:
  "\<exists>s'. run_state (ReconcileLocalClaim agent_api edge_agent (''apps'', ''db''))
      (agent_state [(0, OServiceClaim (local_claim False)),
        (0, ODeployment (agent_deployment ''apps'' ApplicationAgentDeploymentName False))]) = (None, s') \<and>
    ((\<exists>c. mem_objs s' 1 KServiceClaim (''control'', ''db'') = Some (OServiceClaim c) \<and>
       sc_Spec c = forwarded (sc_Spec (local_claim False)) ''edge'' ''apps'') \<or>
     (\<exists>c. mem_objs s' 0 KServiceClaim (''apps'', ''db'') = Some (OServiceClaim c) \<and> scst_State (sc_Status c) = ClaimInvalid))"
proof -
  let ?d = "agent_deployment ''apps'' ApplicationAgentDeploymentName False"
  let ?s = "agent_state [(0, OServiceClaim (local_claim False)), (0, ODeployment ?d)]"
  have "fst (run_state (ReconcileLocalClaim agent_api edge_agent (''apps'', ''db'')) ?s) = None" by code_simp
  then obtain s' where run: "run_state (ReconcileLocalClaim agent_api edge_agent (''apps'', ''db'')) ?s = (None, s')"
    by (metis prod.collapse)
  have c: "mem_objs ?s (k_self agent_api) KServiceClaim (''apps'', ''db'') = Some (OServiceClaim (local_claim False))"
    and d: "mem_objs ?s (k_self agent_api) KDeployment (''apps'', ApplicationAgentDeploymentName) = Some (ODeployment ?d)"
    and l: "gm_get (om_labels (dep_meta ?d)) PrimazaClusterEnvironmentLabel = Some ''edge''" by code_simp+
  have nd: "\<not> om_deletion (sc_meta (local_claim False))" "\<not> om_deletion (dep_meta ?d)" by code_simp+
  have cfg: "GetPrimazaKubeconfig edge_agent = Inr (''primaza'', ''control'')" "k_new_client agent_api ''primaza'' = Inr 1"
    by code_simp+
  from ReconcileLocalClaim_forwards [OF mem.kube_store_axioms, OF run c nd(1) d nd(2) l] cfg run show ?thesis
    by auto
qed

theorem ReconcileLocalClaim_missing_copy_blocks_witness:
  "\<exists>e s'. run_state (ReconcileLocalClaim agent_api edge_agent (''apps'', ''db''))
      (agent_state [(0, OServiceClaim (local_claim True)),
        (0, ODeployment (agent_deployment ''apps'' ApplicationAgentDeploymentName False))]) = (Some e, s') \<and>
    mem_objs s' 0 KServiceClaim (''apps'', ''db'') = Some (OServiceClaim (local_claim True))"
proof -
  let ?d = "agent_deployment ''apps'' ApplicationAgentDeploymentName False"
  let ?s = "agent_state [(0, OServiceClaim (local_claim True)), (0, ODeployment ?d)]"
  obtain r s' where run: "run_state (ReconcileLocalClaim agent_api edge_agent (''apps'', ''db'')) ?s = (r, s')" by fastforce
  have c: "mem_objs ?s (k_self agent_api) KServiceClaim (''apps'', ''db'') = Some (OServiceClaim (local_claim True))"
    and none: "mem_objs ?s 1 KServiceClaim (''control'', ''db'') = None" by code_simp+
  have dying: "om_deletion (sc_meta (local_claim True))"
    and fin: "agent_ServiceClaimFinalizer \<in> set (om_finalizers (sc_meta (local_claim True)))" by code_simp+
  have cfg: "GetPrimazaKubeconfig edge_agent = Inr (''primaza'', ''control'')" "k_new_client agent_api ''primaza'' = Inr 1"
    by code_simp+
  from ReconcileLocalClaim_missing_copy_blocks [OF mem.kube_store_axioms, OF run c dying fin cfg none] run
  show ?thesis by (cases r) auto
qed

theorem ReconcileServiceAgent_waits_witness:
  "\<exists>e q s'. run_state (ReconcileServiceAgent agent_api (''svc'', ''primaza-svc-agent''))
      (agent_state [(0, ODeployment (agent_deployment ''svc'' ServiceAgentDeploymentName True)),
        (0, OServiceClass \<lparr>cl_meta = (new_meta ''svc'' ''pg'')\<lparr>om_resourceVersion := ''1'', om_finalizers := [''f'']\<rparr>,
           cl_Spec = \<lparr>clsp_Constraints = None, clsp_HealthCheck = None,
             clsp_Resource = \<lparr>scr_APIVersion = ''v1'', scr_Kind = ''DB'', scr_ResourceFields = [], scr_SecretRefFields = []\<rparr>,
             clsp_ServiceClassIdentity = []\<rparr>, cl_Conditions = []\<rparr>)]) = ((Some e, q), s') \<and>
    mem_objs s' 0 KDeployment (''svc'', ServiceAgentDeploymentName) =
      Some (ODeployment (agent_deployment ''svc'' ServiceAgentDeploymentName True))"
proof -
  let ?d = "agent_deployment ''svc'' ServiceAgentDeploymentName True"
  let ?c = "\<lparr>cl_meta = (new_meta ''svc'' ''pg'')\<lparr>om_resourceVersion := ''1'', om_finalizers := [''f'']\<rparr>,
           cl_Spec = \<lparr>clsp_Constraints = None, clsp_HealthCheck = None,
             clsp_Resource = \<lparr>scr_APIVersion = ''v1'', scr_Kind = ''DB'', scr_ResourceFields = [], scr_SecretRefFields = []\<rparr>,
             clsp_ServiceClassIdentity = []\<rparr>, cl_Conditions = []\<rparr>"
  let ?s = "agent_state [(0, ODeployment ?d), (0, OServiceClass ?c)]"
  let ?m = "ReconcileServiceAgent agent_api (''svc'', ''primaza-svc-agent'')"
  obtain r q s' where run: "run_state ?m ?s = ((r, q), s')" by (metis prod.collapse)
  have left: "mem_objs (snd (run_state ?m ?s)) (k_self agent_api) KServiceClass (''svc'', ''pg'') \<noteq> None" by code_simp
  with run obtain x where x: "mem_objs s' (k_self agent_api) KServiceClass (''svc'', ''pg'') = Some x" by auto
  have d: "mem_objs ?s (k_self agent_api) KDeployment (''svc'', ServiceAgentDeploymentName) = Some (ODeployment ?d)"
    by code_simp
  have dying: "om_deletion (dep_meta ?d)" and ns: "''svc'' \<noteq> ''''" by code_simp+
  from ReconcileServiceAgent_waits [OF mem.kube_store_axioms, OF run ns d dying x] run show ?thesis by (cases r) auto
qed


theorem agent_deployments_settle_witness:
  "\<exists>s1. run_state (ReconcileApplicationAgent agent_api (''apps'', ''x''))
      (agent_state [(0, ODeployment (agent_deployment ''apps'' ApplicationAgentDeploymentName False))]) = (None, s1) \<and>
    mem_objs (snd (run_state (rounds 3 (ReconcileApplicationAgent agent_api (''apps'', ''x''))) s1)) = mem_objs s1"
proof -
  let ?d = "agent_deployment ''apps'' ApplicationAgentDeploymentName False"
  let ?s = "agent_state [(0, ODeployment ?d)]"
  have "fst (run_state (ReconcileApplicationAgent agent_api (''apps'', ''x'')) ?s) = None" by code_simp
  then obtain s1 where run: "run_state (ReconcileApplicationAgent agent_api (''apps'', ''x'')) ?s = (None, s1)"
    by (metis prod.collapse)
  have d: "mem_objs ?s (k_self agent_api) KDeployment (''apps'', ApplicationAgentDeploymentName) = Some (ODeployment ?d)"
    "\<not> om_deletion (dep_meta ?d)" by code_simp+
  obtain u s2 where r: "run_state (rounds 3 (ReconcileApplicationAgent agent_api (''apps'', ''x''))) s1 = (u, s2)"
    by (metis prod.collapse)
  from conjunct1 [OF agent_deployments_settle [OF mem.kube_store_axioms, where s = ?s and ns = "''apps''" and n = "''x''"]] d run r
  have "mem_objs s2 = mem_objs s1" by blast
  with run r show ?thesis by auto
qed

end
