(* ===== verification/AgentClass_Ctrl.thy ===== *)
theory AgentClass_Ctrl
  imports Agents_Ctrl Sed
begin

section \<open>Service discovery: \<^verbatim>\<open>controllers/agents/svc/serviceclass\_controller.go\<close>\<close>

text \<open>
  The service agent turns every resource a service class names into a registered service, with a secret
  for the endpoint values that must not be in the clear, and writes both to the control plane, or to its own
  cluster when it is to be pulled. \<open>mapping\<close> resolves the resource of an API version and a kind, \<open>start\<close>
  creates the informer of a resource in a namespace and waits for its cache; the informer's handlers are
  \<open>CreateOrUpdateRegisteredService\<close> and \<open>DeleteRegisteredService\<close>.
\<close>

definition class_agent_finalizer :: string where
  "class_agent_finalizer = ''serviceclasses.primaza.io/finalizer''"

definition registered_service_gvk :: "string \<times> string" where
  "registered_service_gvk = (''primaza.io/v1alpha1'', ''RegisteredService'')"

definition as_local_class :: "ServiceClass \<Rightarrow> obj \<Rightarrow> ServiceClass" where
  "as_local_class c x = (case x of OServiceClass c' \<Rightarrow> c' | _ \<Rightarrow> c)"

definition as_registered :: "RegisteredService \<Rightarrow> obj \<Rightarrow> RegisteredService" where
  "as_registered r x = (case x of ORegisteredService r' \<Rightarrow> r' | _ \<Rightarrow> r)"

subsection \<open>Writing and deleting a registered service\<close>

fun put_service_spec :: "RegisteredServiceSpec \<Rightarrow> obj \<Rightarrow> err + obj" where
  "put_service_spec sp (ORegisteredService r) = Inr (ORegisteredService (r\<lparr>rs_Spec := sp\<rparr>))"
| "put_service_spec sp x = Inl decode_err"

fun own_descriptor :: "RegisteredService \<Rightarrow> (string, string) gomap \<Rightarrow> obj \<Rightarrow> err + obj" where
  "own_descriptor rs data (OSecret s) =
     (case SetOwnerReference registered_service_gvk (rs_meta rs) (sec_meta s) of
        Inl e \<Rightarrow> Inl e
      | Inr m \<Rightarrow> Inr (OSecret (s\<lparr>sec_StringData := data, sec_meta := m\<rparr>)))"
| "own_descriptor rs data x = Inl decode_err"

text \<open>The list holds a nil for every write that succeeded. The secret is owned by what the first write left.\<close>

definition updateRegisteredService ::
  "'s kube \<Rightarrow> cluster \<Rightarrow> RegisteredService \<Rightarrow> Secret option \<Rightarrow> ('s, err option list) state" where
  "updateRegisteredService api cli rs secret = do {
     (r, x) \<leftarrow> CreateOrUpdate api cli (ORegisteredService rs) (put_service_spec (rs_Spec rs));
     case secret of
       None \<Rightarrow> ret [err_of r]
     | Some sec \<Rightarrow> do {
         (r2, _) \<leftarrow> CreateOrUpdate api cli (OSecret sec) (own_descriptor (as_registered rs x) (sec_StringData sec));
         ret [err_of r, err_of r2] } }"

definition deleteRegisteredService ::
  "'s kube \<Rightarrow> cluster \<Rightarrow> RegisteredService \<Rightarrow> Secret option \<Rightarrow> ('s, err option list) state" where
  "deleteRegisteredService api cli rs secret = do {
     r \<leftarrow> k_delete api cli KRegisteredService (meta_key (rs_meta rs));
     ret (case r of
            Some e \<Rightarrow> if IsNotFound e then [] else [Some e]
          | None \<Rightarrow> []) }"

definition GetResources ::
  "'s kube \<Rightarrow> (string \<Rightarrow> string \<Rightarrow> err + string) \<Rightarrow> ServiceClass \<Rightarrow> ('s, err + Unstructured list) state" where
  "GetResources api mapping sc =
     (case mapping (scr_APIVersion (clsp_Resource (cl_Spec sc))) (scr_Kind (clsp_Resource (cl_Spec sc))) of
        Inl e \<Rightarrow> ret (Inl e)
      | Inr resource \<Rightarrow> do {
          l \<leftarrow> k_list api (k_self api)
            (KUnstructured (scr_APIVersion (clsp_Resource (cl_Spec sc))) (scr_Kind (clsp_Resource (cl_Spec sc))))
            (om_namespace (cl_meta sc)) [];
          ret (map_items unstructured_of l) })"

definition getTargetClient :: "agent_env \<Rightarrow> SynchronizationStrategy \<Rightarrow> string \<Rightarrow> err + string \<times> string" where
  "getTargetClient ae strategy namespace =
     (case strategy of
        SyncPush \<Rightarrow> GetPrimazaKubeconfig ae
      | SyncPull \<Rightarrow> (case ae_in_cluster ae of Inl e \<Rightarrow> Inl e | Inr cfg \<Rightarrow> Inr (cfg, namespace)))"

subsection \<open>From a resource to a registered service\<close>

fun resource_mappings ::
  "jsonpath \<Rightarrow> Unstructured \<Rightarrow> ServiceClassResourceFieldMapping list \<Rightarrow> err + 's SEDMapping list" where
  "resource_mappings jp u [] = Inr []"
| "resource_mappings jp u (f # fs) =
     (case NewSEDResourceMapping jp u f of
        Inl e \<Rightarrow> Inl e
      | Inr m \<Rightarrow> (case resource_mappings jp u fs of Inl e \<Rightarrow> Inl e | Inr ms \<Rightarrow> Inr (resource_mapping jp m # ms)))"

definition ServiceEndpointDefinitionMapping ::
  "jsonpath \<Rightarrow> 's kube \<Rightarrow> Unstructured \<Rightarrow> ServiceClass \<Rightarrow> err + 's SEDMapping list" where
  "ServiceEndpointDefinitionMapping jp api u sc =
     (case resource_mappings jp u (scr_ResourceFields (clsp_Resource (cl_Spec sc))) of
        Inl e \<Rightarrow> Inl e
      | Inr ms \<Rightarrow> Inr (ms @ map (\<lambda>f. secret_mapping jp api (k_self api)
            (NewSEDSecretRefMapping (om_namespace (cl_meta sc)) u f)) (scr_SecretRefFields (clsp_Resource (cl_Spec sc)))))"

fun lookup_values ::
  "'s SEDMapping list \<Rightarrow> string \<Rightarrow> ('s, ServiceEndpointDefinitionItem list \<times> (string, string) gomap \<times> err list) state" where
  "lookup_values [] secretName = ret ([], [], [])"
| "lookup_values (m # ms) secretName = do {
     r \<leftarrow> sm_ReadKey m;
     (items, data, errs) \<leftarrow> lookup_values ms secretName;
     ret (case r of
            Inl e \<Rightarrow> (items, data, e # errs)
          | Inr value \<Rightarrow>
              if sm_InSecret m then
                (\<lparr>sed_Name = sm_Key m, sed_Value = '''',
                  sed_ValueFromSecret = Some \<lparr>ssr_Name = secretName, ssr_Key = sm_Key m\<rparr>\<rparr> # items,
                 (if gm_get data (sm_Key m) = None then gm_put (sm_Key m) value data else data), errs)
              else (\<lparr>sed_Name = sm_Key m, sed_Value = value, sed_ValueFromSecret = None\<rparr> # items, data, errs)) }"

definition LookupServiceEndpointDescriptor ::
  "'s SEDMapping list \<Rightarrow> Unstructured \<Rightarrow> ('s, err + ServiceEndpointDefinitionItem list \<times> Secret option) state" where
  "LookupServiceEndpointDescriptor mappings service = do {
     let name = om_name (u_meta service) @ ''-descriptor'';
     (items, data, errs) \<leftarrow> lookup_values mappings name;
     ret (case errors_Join errs of
            Some e \<Rightarrow> Inl e
          | None \<Rightarrow> Inr (items, if data = [] then None
              else Some \<lparr>sec_meta = new_meta '''' name, sec_Data = [], sec_StringData = data\<rparr>)) }"

definition service_annotations :: "agent_env \<Rightarrow> ServiceClass \<Rightarrow> Unstructured \<Rightarrow> (string, string) gomap" where
  "service_annotations ae sc data = gm_of_list
     [(''primaza.io/service-apiversion'', scr_APIVersion (clsp_Resource (cl_Spec sc))),
      (''primaza.io/service-kind'', scr_Kind (clsp_Resource (cl_Spec sc))),
      (''primaza.io/service-name'', om_name (u_meta data)),
      (''primaza.io/service-namespace'', om_namespace (u_meta data)),
      (''primaza.io/service-uid'', om_uid (u_meta data)),
      (''primaza.io/cluster-environment'', ae_environment ae)]"

definition PrepareRegisteredService ::
  "agent_env \<Rightarrow> ServiceClass \<Rightarrow> 's SEDMapping list \<Rightarrow> Unstructured \<Rightarrow> string \<Rightarrow>
     ('s, err + RegisteredService \<times> Secret option) state" where
  "PrepareRegisteredService ae sc mappings data target_namespace = do {
     l \<leftarrow> LookupServiceEndpointDescriptor mappings data;
     ret (case l of
            Inl e \<Rightarrow> Inl e
          | Inr (sedMappings, secret) \<Rightarrow> Inr
              (\<lparr>rs_meta = (new_meta target_namespace (om_name (u_meta data)))
                  \<lparr>om_annotations := service_annotations ae sc data\<rparr>,
                rs_Spec = \<lparr>rssp_Constraints = Some (class_GetEnvironmentConstraints (cl_Spec sc)),
                  rssp_HealthCheck = clsp_HealthCheck (cl_Spec sc), rssp_SLA = '''',
                  rssp_ServiceClassIdentity = clsp_ServiceClassIdentity (cl_Spec sc),
                  rssp_ServiceEndpointDefinition = sedMappings\<rparr>,
                rs_State = RSUnset\<rparr>,
               map_option (\<lambda>s. s\<lparr>sec_meta := (sec_meta s)\<lparr>om_namespace := target_namespace\<rparr>\<rparr>) secret)) }"

subsection \<open>All resources of a class\<close>

text \<open>A mapping that cannot be made ends the loop; the errors collected before are dropped with it.\<close>

fun handle_services ::
  "jsonpath \<Rightarrow> 's kube \<Rightarrow> agent_env \<Rightarrow> (RegisteredService \<Rightarrow> Secret option \<Rightarrow> ('s, err option list) state) \<Rightarrow>
     ServiceClass \<Rightarrow> string \<Rightarrow> Unstructured list \<Rightarrow> err option list \<Rightarrow> ('s, err option) state" where
  "handle_services jp api ae handle sc ns [] errs = ret (errors_Join_opt errs)"
| "handle_services jp api ae handle sc ns (u # us) errs =
     (case ServiceEndpointDefinitionMapping jp api u sc of
        Inl e \<Rightarrow> ret (Some e)
      | Inr mappings \<Rightarrow> do {
          p \<leftarrow> PrepareRegisteredService ae sc mappings u ns;
          case p of
            Inl e \<Rightarrow> handle_services jp api ae handle sc ns us (errs @ [Some e])
          | Inr (rs, secret) \<Rightarrow> do {
              es \<leftarrow> handle rs secret;
              handle_services jp api ae handle sc ns us (errs @ es) } })"

fun connection_status :: "ClusterEnvironmentState \<Rightarrow> condition_status" where
  "connection_status CEOnline = CondTrue"
| "connection_status CEOffline = CondFalse"
| "connection_status _ = CondUnknown"

definition HandleRegisteredServices ::
  "jsonpath \<Rightarrow> 's kube \<Rightarrow> agent_env \<Rightarrow> SynchronizationStrategy \<Rightarrow>
     (cluster \<Rightarrow> RegisteredService \<Rightarrow> Secret option \<Rightarrow> ('s, err option list) state) \<Rightarrow>
     ServiceClass \<Rightarrow> Unstructured list \<Rightarrow> ('s, err option \<times> ServiceClass) state" where
  "HandleRegisteredServices jp api ae strategy handle sc services =
     (case getTargetClient ae strategy (om_namespace (cl_meta sc)) of
        Inl e \<Rightarrow> ret (Some e, sc)
      | Inr (config, target_namespace) \<Rightarrow> do {
          st \<leftarrow> TestConnection api config;
          now \<leftarrow> k_now api;
          let sc1 = sc\<lparr>cl_Conditions := SetStatusCondition now
            \<lparr>co_type = ''Connection'', co_status = connection_status (cs_State st), co_observedGeneration = 0,
             co_lastTransitionTime = 0, co_reason = reason_string (cs_Reason st), co_message = cs_Message st\<rparr>
            (cl_Conditions sc)\<rparr>;
          if cs_State st = CEOffline then ret (Some (Plain ''Failed to connect to cluster''), sc1)
          else (case k_new_client api config of
              Inl e \<Rightarrow> ret (Some e, sc1)
            | Inr cli \<Rightarrow> do {
                r \<leftarrow> handle_services jp api ae (handle cli) sc1 target_namespace services [];
                ret (r, sc1) }) })"

subsection \<open>The informers\<close>

definition CreateOrUpdateRegisteredService ::
  "jsonpath \<Rightarrow> 's kube \<Rightarrow> agent_env \<Rightarrow> SynchronizationStrategy \<Rightarrow> Unstructured \<Rightarrow> ServiceClass \<Rightarrow> ('s, err option) state" where
  "CreateOrUpdateRegisteredService jp api ae strategy u sc =
     (case ServiceEndpointDefinitionMapping jp api u sc of
        Inl e \<Rightarrow> ret (Some e)
      | Inr mappings \<Rightarrow>
          (case getTargetClient ae strategy (om_namespace (cl_meta sc)) of
             Inl e \<Rightarrow> ret (Some e)
           | Inr (config, target_namespace) \<Rightarrow>
               (case k_new_client api config of
                  Inl e \<Rightarrow> ret (Some e)
                | Inr cli \<Rightarrow> do {
                    p \<leftarrow> PrepareRegisteredService ae sc mappings u target_namespace;
                    case p of
                      Inl e \<Rightarrow> ret (Some e)
                    | Inr (rs, secret) \<Rightarrow> do {
                        es \<leftarrow> updateRegisteredService api cli rs secret;
                        ret (errors_Join_opt es) } })))"

text \<open>The registered service to delete is named after the class, and its namespace is not set.\<close>

definition DeleteRegisteredService ::
  "'s kube \<Rightarrow> agent_env \<Rightarrow> SynchronizationStrategy \<Rightarrow> ServiceClass \<Rightarrow> ('s, err option) state" where
  "DeleteRegisteredService api ae strategy sc =
     (case getTargetClient ae strategy (om_namespace (cl_meta sc)) of
        Inl e \<Rightarrow> ret (Some e)
      | Inr (config, _) \<Rightarrow>
          (case k_new_client api config of
             Inl e \<Rightarrow> ret (Some e)
           | Inr cli \<Rightarrow> do {
               r \<leftarrow> k_delete api cli KRegisteredService ('''', om_name (cl_meta sc));
               ret (case r of Some e \<Rightarrow> IgnoreNotFound e | None \<Rightarrow> None) }))"

text \<open>What the informer of a class does with an added or updated resource, and with a deleted one.\<close>

definition resource_upserted ::
  "jsonpath \<Rightarrow> 's kube \<Rightarrow> agent_env \<Rightarrow> SynchronizationStrategy \<Rightarrow> ServiceClass \<Rightarrow> bool \<Rightarrow> Unstructured \<Rightarrow> ('s, err option) state" where
  "resource_upserted jp api ae strategy sc synced u =
     (if \<not> synced then ret None else CreateOrUpdateRegisteredService jp api ae strategy u sc)"

definition resource_deleted ::
  "'s kube \<Rightarrow> agent_env \<Rightarrow> SynchronizationStrategy \<Rightarrow> ServiceClass \<Rightarrow> bool \<Rightarrow> Unstructured \<Rightarrow> ('s, err option) state" where
  "resource_deleted api ae strategy sc synced u =
     (if \<not> synced then ret None else DeleteRegisteredService api ae strategy sc)"

definition RunClassInformer ::
  "agent_env \<Rightarrow> (string \<Rightarrow> string \<Rightarrow> err option) \<Rightarrow> string list \<Rightarrow> string \<Rightarrow> ServiceClass \<Rightarrow> err option \<times> string list" where
  "RunClassInformer ae start informers resource sc =
     (if om_name (cl_meta sc) \<in> set informers then (None, informers)
      else case ae_in_cluster ae of
          Inl e \<Rightarrow> (Some (Panic ''in-cluster configuration''), informers)
        | Inr _ \<Rightarrow>
            (case start resource (om_namespace (cl_meta sc)) of
               Some e \<Rightarrow> (Some e, informers)
             | None \<Rightarrow> (None, informers @ [om_name (cl_meta sc)])))"

definition SetWatchersForResources ::
  "agent_env \<Rightarrow> (string \<Rightarrow> string \<Rightarrow> err + string) \<Rightarrow> (string \<Rightarrow> string \<Rightarrow> err option) \<Rightarrow> string list \<Rightarrow>
     ServiceClass \<Rightarrow> err option \<times> string list" where
  "SetWatchersForResources ae mapping start informers sc =
     (case mapping (scr_APIVersion (clsp_Resource (cl_Spec sc))) (scr_Kind (clsp_Resource (cl_Spec sc))) of
        Inl e \<Rightarrow> (Some e, informers)
      | Inr resource \<Rightarrow> RunClassInformer ae start informers resource sc)"

subsection \<open>Reconciling a class\<close>

definition own_class :: "'s kube \<Rightarrow> ServiceClass \<Rightarrow> Deployment \<Rightarrow> ('s, err + ServiceClass) state" where
  "own_class api sc owner =
     (case SetControllerReference deployment_gvk (dep_meta owner) (cl_meta sc) of
        Inl e \<Rightarrow> ret (Inl e)
      | Inr m \<Rightarrow> do {
          u \<leftarrow> k_update api (k_self api) (OServiceClass (sc\<lparr>cl_meta := m\<rparr>));
          ret (case u of Inl e \<Rightarrow> Inl e | Inr x \<Rightarrow> Inr (as_local_class sc x)) })"

definition write_class_status :: "'s kube \<Rightarrow> ServiceClass \<Rightarrow> err option \<Rightarrow> ('s, err option) state" where
  "write_class_status api sc e = do {
     u \<leftarrow> k_status_update api (k_self api) (OServiceClass sc);
     ret (errors_Join_opt [e, err_of u]) }"

definition register_services ::
  "jsonpath \<Rightarrow> 's kube \<Rightarrow> agent_env \<Rightarrow> SynchronizationStrategy \<Rightarrow> ServiceClass \<Rightarrow> Unstructured list \<Rightarrow> ('s, err option) state" where
  "register_services jp api ae strategy sc services = do {
     f \<leftarrow> (case AddFinalizer (cl_meta sc) class_agent_finalizer of
            (False, _) \<Rightarrow> ret (Inr sc)
          | (True, m) \<Rightarrow> do {
              u \<leftarrow> k_update api (k_self api) (OServiceClass (sc\<lparr>cl_meta := m\<rparr>));
              ret (case u of Inl e \<Rightarrow> Inl e | Inr x \<Rightarrow> Inr (as_local_class sc x)) });
     case f of
       Inl e \<Rightarrow> ret (Some e)
     | Inr sc1 \<Rightarrow> do {
         (e, sc2) \<leftarrow> HandleRegisteredServices jp api ae strategy (updateRegisteredService api) sc1 services;
         write_class_status api sc2 e } }"

definition unregister_services ::
  "jsonpath \<Rightarrow> 's kube \<Rightarrow> agent_env \<Rightarrow> SynchronizationStrategy \<Rightarrow> ServiceClass \<Rightarrow> Unstructured list \<Rightarrow> ('s, err option) state" where
  "unregister_services jp api ae strategy sc services = do {
     (e, sc1) \<leftarrow> HandleRegisteredServices jp api ae strategy (deleteRegisteredService api) sc services;
     u \<leftarrow> k_update api (k_self api)
       (OServiceClass (sc1\<lparr>cl_meta := snd (RemoveFinalizer (cl_meta sc1) class_agent_finalizer)\<rparr>));
     case u of
       Inl e' \<Rightarrow> ret (Some e')
     | Inr x \<Rightarrow> write_class_status api (as_local_class sc1 x) e }"

definition ReconcileLocalClass ::
  "jsonpath \<Rightarrow> 's kube \<Rightarrow> agent_env \<Rightarrow> SynchronizationStrategy \<Rightarrow> (string \<Rightarrow> string \<Rightarrow> err + string) \<Rightarrow>
     (string \<Rightarrow> string \<Rightarrow> err option) \<Rightarrow> string list \<Rightarrow> nsname \<Rightarrow> ('s, err option \<times> string list) state" where
  "ReconcileLocalClass jp api ae strategy mapping start informers req = do {
     g \<leftarrow> get_class api (k_self api) req;
     case g of
       Inl e \<Rightarrow> ret (if IsNotFound e then None else Some e, informers)
     | Inr sc0 \<Rightarrow> do {
         d \<leftarrow> own_deployment api (om_namespace (cl_meta sc0)) ServiceAgentDeploymentName;
         case d of
           Inl e \<Rightarrow> ret (Some e, informers)
         | Inr controller \<Rightarrow> do {
             c \<leftarrow> own_class api sc0 controller;
             case c of
               Inl e \<Rightarrow> ret (Some e, informers)
             | Inr sc \<Rightarrow>
                 (case SetWatchersForResources ae mapping start informers sc of
                    (Some e, informers') \<Rightarrow> ret (Some e, informers')
                  | (None, informers') \<Rightarrow> do {
                      l \<leftarrow> GetResources api mapping sc;
                      case l of
                        Inl e \<Rightarrow> ret (Some e, informers')
                      | Inr services \<Rightarrow>
                          if \<not> om_deletion (cl_meta sc) \<and> \<not> om_deletion (dep_meta controller) then do {
                            r \<leftarrow> register_services jp api ae strategy sc services;
                            ret (r, informers') }
                          else if ContainsFinalizer (cl_meta sc) class_agent_finalizer then do {
                            r \<leftarrow> unregister_services jp api ae strategy sc services;
                            ret (r, filter (\<lambda>n. n \<noteq> om_name (cl_meta sc)) informers') }
                          else ret (None, informers') }) } } }"

end
