(* ===== verification/AgentClass_Correct.thy ===== *)
theory AgentClass_Correct
  imports AgentClass_Ctrl Controlplane Live_Api
begin

section \<open>What the service agent guarantees\<close>

text \<open>
  The values of a registered service are the ones its resource holds, and a value that belongs in a
  secret is never part of the service itself; a reconciliation without an error has registered every
  resource of the class. Deletion is weaker: the informer's handler never deletes the service of a
  resource, and a class is let go although its services could not be deleted.
\<close>

subsection \<open>Reading the values\<close>

text \<open>The values that the mappings yield, read one after the other from a state.\<close>

fun reads :: "'s SEDMapping list \<Rightarrow> string list \<Rightarrow> 's \<Rightarrow> bool" where
  "reads [] [] s = True"
| "reads (m # ms) (v # vs) s =
     (case run_state (sm_ReadKey m) s of (Inr w, s') \<Rightarrow> w = v \<and> reads ms vs s' | _ \<Rightarrow> False)"
| "reads _ _ s = False"

fun_cases readsE: "reads (m # ms) vs s"

lemma reads_length: "reads ms vs s \<Longrightarrow> length vs = length ms"
  by (induction ms vs s rule: reads.induct) (auto split: prod.splits sum.splits)

lemma reads_unique: "reads ms vs s \<Longrightarrow> reads ms ws s \<Longrightarrow> vs = ws"
proof (induction ms vs s arbitrary: ws rule: reads.induct)
  case (2 m ms v vs s)
  from "2.prems"(1) obtain s1 where r: "run_state (sm_ReadKey m) s = (Inr v, s1)" "reads ms vs s1"
    by (auto split: prod.splits sum.splits)
  from "2.prems"(2) r obtain ws' where "ws = v # ws'" "reads ms ws' s1"
    by (cases ws) (auto split: prod.splits sum.splits)
  with "2.IH" r show ?case by fastforce
qed (auto elim: reads.elims)

definition item_for :: "string \<Rightarrow> 's SEDMapping \<Rightarrow> string \<Rightarrow> ServiceEndpointDefinitionItem" where
  "item_for secretName m v =
     (if sm_InSecret m
      then \<lparr>sed_Name = sm_Key m, sed_Value = '''', sed_ValueFromSecret = Some \<lparr>ssr_Name = secretName, ssr_Key = sm_Key m\<rparr>\<rparr>
      else \<lparr>sed_Name = sm_Key m, sed_Value = v, sed_ValueFromSecret = None\<rparr>)"

lemma item_for_name [simp]: "sed_Name (item_for n m v) = sm_Key m"
  by (simp add: item_for_def)

lemma lookup_values_ok:
  assumes "run_state (lookup_values ms n) s = ((items, data, []), s')"
  shows "\<exists>vs. reads ms vs s \<and> items = map2 (item_for n) ms vs \<and> gm_wf data \<and>
    (\<forall>k. gm_get data k = None \<longleftrightarrow> (\<forall>m\<in>set ms. sm_InSecret m \<longrightarrow> sm_Key m \<noteq> k)) \<and>
    (distinct (map sm_Key ms) \<longrightarrow> (\<forall>(m, v)\<in>set (zip ms vs). sm_InSecret m \<longrightarrow> gm_get data (sm_Key m) = Some v))"
  using assms
proof (induction ms arbitrary: s items data s')
  case Nil
  then show ?case by (intro exI [of _ "[]"]) (auto simp: gm_wf_def)
next
  case (Cons m ms)
  obtain r s1 where r: "run_state (sm_ReadKey m) s = (r, s1)" by fastforce
  obtain items' data' errs' s2 where rest: "run_state (lookup_values ms n) s1 = ((items', data', errs'), s2)"
    by (metis prod.collapse)
  from Cons.prems r rest obtain v where v: "r = Inr v" and errs: "errs' = []"
    and items: "items = item_for n m v # items'"
    and data: "data = (if sm_InSecret m \<and> gm_get data' (sm_Key m) = None then gm_put (sm_Key m) v data' else data')"
    by (cases r) (auto simp: item_for_def split: if_splits)
  from Cons.IH [OF rest [unfolded errs]] obtain vs where
    vs: "reads ms vs s1" "items' = map2 (item_for n) ms vs" "gm_wf data'"
    and dom: "\<forall>k. gm_get data' k = None \<longleftrightarrow> (\<forall>m\<in>set ms. sm_InSecret m \<longrightarrow> sm_Key m \<noteq> k)"
    and val: "distinct (map sm_Key ms) \<longrightarrow> (\<forall>(m, v)\<in>set (zip ms vs). sm_InSecret m \<longrightarrow> gm_get data' (sm_Key m) = Some v)"
    by blast
  have "reads (m # ms) (v # vs) s" using r v vs(1) by simp
  moreover have "items = map2 (item_for n) (m # ms) (v # vs)" using items vs(2) by simp
  moreover have "gm_wf data" using data vs(3) by (simp add: gm_wf_put)
  moreover have g: "gm_get data k = (if sm_InSecret m \<and> gm_get data' (sm_Key m) = None \<and> k = sm_Key m then Some v
      else gm_get data' k)" for k by (simp add: data gm_get_put)
  moreover have "gm_get data k = None \<longleftrightarrow> (\<forall>m\<in>set (m # ms). sm_InSecret m \<longrightarrow> sm_Key m \<noteq> k)" for k
  proof -
    have "gm_get data k = None \<longleftrightarrow> (sm_InSecret m \<longrightarrow> sm_Key m \<noteq> k) \<and> gm_get data' k = None"
      by (simp only: g) auto
    also have "\<dots> \<longleftrightarrow> (sm_InSecret m \<longrightarrow> sm_Key m \<noteq> k) \<and> (\<forall>m\<in>set ms. sm_InSecret m \<longrightarrow> sm_Key m \<noteq> k)"
      by (simp only: dom)
    finally show ?thesis by simp
  qed
  moreover have "gm_get data (sm_Key m') = Some v'"
    if d: "distinct (map sm_Key (m # ms))" and i: "(m', v') \<in> set (zip (m # ms) (v # vs))" "sm_InSecret m'" for m' v'
  proof (cases "(m', v') = (m, v)")
    case True
    from d have "\<forall>m'\<in>set ms. sm_InSecret m' \<longrightarrow> sm_Key m' \<noteq> sm_Key m"
      by (metis distinct.simps(2) image_eqI list.simps(9) set_map)
    then have "gm_get data' (sm_Key m) = None" unfolding spec [OF dom, of "sm_Key m"] .
    with True i(2) show ?thesis by (simp add: g)
  next
    case False
    with i(1) have z: "(m', v') \<in> set (zip ms vs)" by auto
    then have "m' \<in> set ms" by (rule set_zip_leftD)
    with d have "sm_Key m' \<noteq> sm_Key m" by (metis distinct.simps(2) image_eqI list.simps(9) set_map)
    with d val z i(2) show ?thesis by (auto simp: g)
  qed
  ultimately show ?case by (intro exI [of _ "v # vs"]) blast
qed

definition descriptor_name :: "Unstructured \<Rightarrow> string" where
  "descriptor_name u = om_name (u_meta u) @ ''-descriptor''"

lemma LookupServiceEndpointDescriptor_ok:
  assumes "run_state (LookupServiceEndpointDescriptor ms u) s = (Inr (items, secret), s')"
  shows "\<exists>vs. reads ms vs s \<and> items = map2 (item_for (descriptor_name u)) ms vs \<and>
    (secret = None \<longleftrightarrow> (\<forall>m\<in>set ms. \<not> sm_InSecret m)) \<and>
    (\<forall>sec. secret = Some sec \<longrightarrow> sec_meta sec = new_meta '''' (descriptor_name u) \<and> gm_wf (sec_StringData sec) \<and>
       (distinct (map sm_Key ms) \<longrightarrow>
         (\<forall>(m, v)\<in>set (zip ms vs). sm_InSecret m \<longrightarrow> gm_get (sec_StringData sec) (sm_Key m) = Some v)))"
proof -
  obtain items' data errs s1 where l: "run_state (lookup_values ms (descriptor_name u)) s = ((items', data, errs), s1)"
    by (metis prod.collapse)
  with assms have errs: "errs = []" and res: "items' = items"
      "secret = (if data = [] then None else Some \<lparr>sec_meta = new_meta '''' (descriptor_name u), sec_Data = [], sec_StringData = data\<rparr>)"
    by (auto simp: LookupServiceEndpointDescriptor_def descriptor_name_def Let_def split: option.splits)
  from lookup_values_ok [OF l [unfolded errs]] obtain vs where
    vs: "reads ms vs s" "items' = map2 (item_for (descriptor_name u)) ms vs" "gm_wf data"
    and dom: "\<forall>k. gm_get data k = None \<longleftrightarrow> (\<forall>m\<in>set ms. sm_InSecret m \<longrightarrow> sm_Key m \<noteq> k)"
    and val: "distinct (map sm_Key ms) \<longrightarrow> (\<forall>(m, v)\<in>set (zip ms vs). sm_InSecret m \<longrightarrow> gm_get data (sm_Key m) = Some v)"
    by blast
  have "data = [] \<longleftrightarrow> (\<forall>k. gm_get data k = None)" by (cases data) (auto simp: gm_get_def intro: exI)
  with dom have "data = [] \<longleftrightarrow> (\<forall>m\<in>set ms. \<not> sm_InSecret m)" by auto
  with vs val res show ?thesis by (intro exI [of _ vs]) auto
qed

subsection \<open>Registering the resources of a class\<close>

text \<open>What a registered service says about the class it was made for.\<close>

definition describes :: "ServiceClass \<Rightarrow> RegisteredServiceSpec \<Rightarrow> bool" where
  "describes sc sp =
     (rssp_ServiceClassIdentity sp = clsp_ServiceClassIdentity (cl_Spec sc) \<and>
      rssp_Constraints sp = Some (class_GetEnvironmentConstraints (cl_Spec sc)) \<and>
      rssp_HealthCheck sp = clsp_HealthCheck (cl_Spec sc) \<and>
      map sed_Name (rssp_ServiceEndpointDefinition sp) =
        map rf_Name (scr_ResourceFields (clsp_Resource (cl_Spec sc))) @
        map srf_Name (scr_SecretRefFields (clsp_Resource (cl_Spec sc))))"

definition is_service :: "(RegisteredServiceSpec \<Rightarrow> bool) \<Rightarrow> obj \<Rightarrow> bool" where
  "is_service P x = (\<exists>r. x = ORegisteredService r \<and> P (rs_Spec r))"

lemma stable_service: "storage_stable (is_service P)"
  unfolding storage_stable_def
proof (intro allI impI conjI)
  fix y u v st old assume "is_service P y"
  then obtain r where "y = ORegisteredService r" "P (rs_Spec r)" by (auto simp: is_service_def)
  then show "is_service P (populated u v (copy_status st (merge_string_data y)))" "is_service P (written old v y)"
    by (cases st; cases old; simp add: is_service_def populated_def written_def keep_server_fields_def set_version_def)+
qed

lemma put_service_spec_mutates: "P sp \<Longrightarrow> mutates_to (is_service P) (put_service_spec sp)"
  unfolding mutates_to_def
proof (intro allI impI)
  fix w y assume "P sp" "put_service_spec sp w = Inr y"
  then show "obj_kind y = obj_kind w \<and> is_service P y \<and> om_finalizers (obj_meta y) = om_finalizers (obj_meta w)"
    by (cases w) (auto simp: is_service_def)
qed

lemma SetOwnerReference_meta:
  "SetOwnerReference gvk a m = Inr m' \<Longrightarrow> \<exists>ow. m' = m\<lparr>om_owners := ow\<rparr>"
  by (auto simp: SetOwnerReference_def Let_def split: option.splits)

lemma own_descriptor_mutates:
  assumes "gm_wf d" shows "mutates_to (is_secret_with d) (own_descriptor rs d)"
  unfolding mutates_to_def
proof (intro allI impI)
  fix w y assume y: "own_descriptor rs d w = Inr y"
  then obtain s m where w: "w = OSecret s" and o: "SetOwnerReference registered_service_gvk (rs_meta rs) (sec_meta s) = Inr m"
    and ys: "y = OSecret (s\<lparr>sec_StringData := d, sec_meta := m\<rparr>)"
    by (cases w) (auto split: sum.splits)
  from SetOwnerReference_meta [OF o] have m: "om_finalizers m = om_finalizers (sec_meta s)" by auto
  have "set_string_data d w = Inr (OSecret (s\<lparr>sec_StringData := d\<rparr>))" by (simp add: w set_string_data_def)
  with set_string_data_mutates [OF assms] have "is_secret_with d (OSecret (s\<lparr>sec_StringData := d\<rparr>))"
    by (simp add: mutates_to_def)
  with ys w m show "obj_kind y = obj_kind w \<and> is_secret_with d y \<and> om_finalizers (obj_meta y) = om_finalizers (obj_meta w)"
    by (simp add: is_secret_with_def secret_content_def)
qed

lemma resource_mappings_keys:
  "resource_mappings jp u fs = Inr ms \<Longrightarrow> map sm_Key ms = map rf_Name fs"
  by (induction jp u fs arbitrary: ms rule: resource_mappings.induct)
    (auto simp: resource_mapping_def NewSEDResourceMapping_def split: sum.splits option.splits)

lemma ServiceEndpointDefinitionMapping_keys:
  "ServiceEndpointDefinitionMapping jp api u sc = Inr ms \<Longrightarrow>
     map sm_Key ms = map rf_Name (scr_ResourceFields (clsp_Resource (cl_Spec sc))) @
       map srf_Name (scr_SecretRefFields (clsp_Resource (cl_Spec sc)))"
  by (auto simp: ServiceEndpointDefinitionMapping_def secret_mapping_def NewSEDSecretRefMapping_def
    dest: resource_mappings_keys split: sum.splits)

lemma map2_item_for_names: "length vs = length ms \<Longrightarrow> map sed_Name (map2 (item_for n) ms vs) = map sm_Key ms"
  by (rule nth_equalityI) simp_all

lemma PrepareRegisteredService_ok:
  assumes "run_state (PrepareRegisteredService ae sc ms u ns) s = (Inr (rs, secret), s')"
  shows "\<exists>vs sec. run_state (LookupServiceEndpointDescriptor ms u) s =
      (Inr (rssp_ServiceEndpointDefinition (rs_Spec rs), sec), s') \<and> reads ms vs s \<and>
    rssp_ServiceEndpointDefinition (rs_Spec rs) = map2 (item_for (descriptor_name u)) ms vs \<and>
    secret = map_option (\<lambda>s. s\<lparr>sec_meta := (sec_meta s)\<lparr>om_namespace := ns\<rparr>\<rparr>) sec \<and>
    meta_key (rs_meta rs) = (ns, om_name (u_meta u)) \<and> om_resourceVersion (rs_meta rs) = '''' \<and>
    rssp_ServiceClassIdentity (rs_Spec rs) = clsp_ServiceClassIdentity (cl_Spec sc) \<and>
    rssp_Constraints (rs_Spec rs) = Some (class_GetEnvironmentConstraints (cl_Spec sc)) \<and>
    rssp_HealthCheck (rs_Spec rs) = clsp_HealthCheck (cl_Spec sc)"
proof -
  from assms obtain items sec where l: "run_state (LookupServiceEndpointDescriptor ms u) s = (Inr (items, sec), s')"
    and rs: "rssp_ServiceEndpointDefinition (rs_Spec rs) = items"
      "secret = map_option (\<lambda>s. s\<lparr>sec_meta := (sec_meta s)\<lparr>om_namespace := ns\<rparr>\<rparr>) sec"
      "meta_key (rs_meta rs) = (ns, om_name (u_meta u))" "om_resourceVersion (rs_meta rs) = ''''"
      "rssp_ServiceClassIdentity (rs_Spec rs) = clsp_ServiceClassIdentity (cl_Spec sc)"
      "rssp_Constraints (rs_Spec rs) = Some (class_GetEnvironmentConstraints (cl_Spec sc))"
      "rssp_HealthCheck (rs_Spec rs) = clsp_HealthCheck (cl_Spec sc)"
    by (auto simp: PrepareRegisteredService_def meta_key_def split: prod.splits sum.splits)
  from LookupServiceEndpointDescriptor_ok [OF l] obtain vs where
    "reads ms vs s" "items = map2 (item_for (descriptor_name u)) ms vs" by blast
  with l rs show ?thesis by (intro exI [of _ vs] exI [of _ sec]) simp
qed

lemma PrepareRegisteredService_describes:
  assumes "ServiceEndpointDefinitionMapping jp api u sc = Inr ms"
    and "run_state (PrepareRegisteredService ae sc ms u ns) s = (Inr (rs, secret), s')"
  shows "describes sc (rs_Spec rs) \<and> obj_key (ORegisteredService rs) = (ns, om_name (u_meta u))"
proof -
  from PrepareRegisteredService_ok [OF assms(2)] obtain vs where vs: "reads ms vs s"
    "rssp_ServiceEndpointDefinition (rs_Spec rs) = map2 (item_for (descriptor_name u)) ms vs"
    and rest: "meta_key (rs_meta rs) = (ns, om_name (u_meta u))"
      "rssp_ServiceClassIdentity (rs_Spec rs) = clsp_ServiceClassIdentity (cl_Spec sc)"
      "rssp_Constraints (rs_Spec rs) = Some (class_GetEnvironmentConstraints (cl_Spec sc))"
      "rssp_HealthCheck (rs_Spec rs) = clsp_HealthCheck (cl_Spec sc)" by blast
  from vs reads_length [OF vs(1)] map2_item_for_names ServiceEndpointDefinitionMapping_keys [OF assms(1)]
  have "map sed_Name (rssp_ServiceEndpointDefinition (rs_Spec rs)) =
      map rf_Name (scr_ResourceFields (clsp_Resource (cl_Spec sc))) @
      map srf_Name (scr_SecretRefFields (clsp_Resource (cl_Spec sc)))" by metis
  with rest show ?thesis by (simp add: describes_def obj_key_def)
qed

context kube_store
begin

lemma updateRegisteredService_ok:
  assumes "run_state (updateRegisteredService api cli rs secret) s = (es, s')" and "\<forall>e\<in>set es. e = None"
    and "P (rs_Spec rs)"
  shows "\<exists>r. objs s' cli KRegisteredService (obj_key (ORegisteredService rs)) = Some (ORegisteredService r) \<and> P (rs_Spec r)"
    and "\<And>sec. secret = Some sec \<Longrightarrow> gm_wf (sec_StringData sec) \<Longrightarrow>
      \<exists>x. objs s' cli KSecret (obj_key (OSecret sec)) = Some x \<and> is_secret_with (sec_StringData sec) x"
proof -
  obtain r x s1 where r: "run_state (CreateOrUpdate api cli (ORegisteredService rs) (put_service_spec (rs_Spec rs))) s = ((r, x), s1)"
    by (metis prod.collapse)
  from assms(1,2) r obtain op where op: "r = Inr op"
    by (cases r) (auto simp: updateRegisteredService_def err_of_def split: option.splits prod.splits)
  note st = CreateOrUpdate_stores [OF r [unfolded op] put_service_spec_mutates [of P, OF assms(3)] stable_service]
  have sec: "(\<forall>sec. secret = Some sec \<longrightarrow> gm_wf (sec_StringData sec) \<longrightarrow>
        (\<exists>x. objs s' cli KSecret (obj_key (OSecret sec)) = Some x \<and> is_secret_with (sec_StringData sec) x)) \<and>
      objs s' cli KRegisteredService (obj_key (ORegisteredService rs)) = objs s1 cli KRegisteredService (obj_key (ORegisteredService rs))"
  proof (cases secret)
    case None
    with assms(1) r show ?thesis by (simp add: updateRegisteredService_def)
  next
    case (Some sec)
    let ?f = "own_descriptor (as_registered rs x) (sec_StringData sec)"
    obtain r2 x2 s2 where r2: "run_state (CreateOrUpdate api cli (OSecret sec) ?f) s1 = ((r2, x2), s2)" by (metis prod.collapse)
    from assms(1,2) r Some r2 obtain op2 where op2: "r2 = Inr op2" and s': "s' = s2"
      by (cases r2) (auto simp: updateRegisteredService_def err_of_def)
    have "keeps_kind ?f" unfolding keeps_kind_def
    proof (intro allI impI)
      fix w y assume "?f w = Inr y" then show "obj_kind y = obj_kind w" by (cases w) (auto split: sum.splits)
    qed
    from modifies_run [OF modifies_CreateOrUpdate [OF _ this, of cli _ "{(cli, KSecret, obj_key (OSecret sec))}"] r2]
    have "objs s2 cli KRegisteredService n = objs s1 cli KRegisteredService n" for n by (simp add: same_but_def)
    with CreateOrUpdate_stores [OF r2 [unfolded op2] own_descriptor_mutates stable_secret] Some s' show ?thesis by auto
  qed
  from st sec show "\<exists>r. objs s' cli KRegisteredService (obj_key (ORegisteredService rs)) = Some (ORegisteredService r) \<and> P (rs_Spec r)"
    by (auto simp: is_service_def)
  from sec show "\<And>sec. secret = Some sec \<Longrightarrow> gm_wf (sec_StringData sec) \<Longrightarrow>
      \<exists>x. objs s' cli KSecret (obj_key (OSecret sec)) = Some x \<and> is_secret_with (sec_StringData sec) x" by blast
qed

lemma modifies_updateRegisteredService [frame_intros]:
  assumes "(cli, KRegisteredService, obj_key (ORegisteredService rs)) \<in> K"
    and "\<And>sec. secret = Some sec \<Longrightarrow> (cli, KSecret, obj_key (OSecret sec)) \<in> K"
  shows "modifies objs K (updateRegisteredService api cli rs secret)"
proof -
  have "keeps_kind (put_service_spec sp)" for sp
    unfolding keeps_kind_def
  proof (intro allI impI)
    fix w y assume "put_service_spec sp w = Inr y" then show "obj_kind y = obj_kind w" by (cases w) auto
  qed
  moreover have "keeps_kind (own_descriptor r d)" for r d
    unfolding keeps_kind_def
  proof (intro allI impI)
    fix w y assume "own_descriptor r d w = Inr y" then show "obj_kind y = obj_kind w" by (cases w) (auto split: sum.splits)
  qed
  ultimately show ?thesis unfolding updateRegisteredService_def using assms
    by (cases secret) (auto intro!: frame_intros modifies_CreateOrUpdate split: prod.split)
qed

end

text \<open>A mapping of the service agent only reads.\<close>

lemma resource_mappings_in:
  "resource_mappings jp u fs = Inr ms \<Longrightarrow> m \<in> set ms \<Longrightarrow> \<exists>x. m = resource_mapping jp x"
  by (induction jp u fs arbitrary: ms rule: resource_mappings.induct) (auto split: sum.splits)

context kube_store
begin

lemma modifies_mapping:
  assumes "ServiceEndpointDefinitionMapping jp api u sc = Inr ms" and "m \<in> set ms"
  shows "modifies objs K (sm_ReadKey m)"
proof -
  from assms obtain ms1 where ms1: "resource_mappings jp u (scr_ResourceFields (clsp_Resource (cl_Spec sc))) = Inr ms1"
    and "ms = ms1 @ map (\<lambda>f. secret_mapping jp api (k_self api)
      (NewSEDSecretRefMapping (om_namespace (cl_meta sc)) u f)) (scr_SecretRefFields (clsp_Resource (cl_Spec sc)))"
    by (auto simp: ServiceEndpointDefinitionMapping_def split: sum.splits)
  with assms(2) have "m \<in> set ms1 \<or> (\<exists>f. m = secret_mapping jp api (k_self api) f)" by auto
  then show ?thesis
  proof
    assume "m \<in> set ms1"
    from resource_mappings_in [OF ms1 this] obtain x where "m = resource_mapping jp x" ..
    then show ?thesis by (simp add: sed_mapping.modifies_ReadKey [OF resource_mapping.sed_mapping_axioms])
  next
    assume "\<exists>f. m = secret_mapping jp api (k_self api) f"
    then show ?thesis using sed_mapping.modifies_ReadKey [OF secret_mapping_read_only] by blast
  qed
qed

end

context kube_store
begin

lemma modifies_lookup_values:
  "(\<And>m. m \<in> set ms \<Longrightarrow> modifies objs K (sm_ReadKey m)) \<Longrightarrow> modifies objs K (lookup_values ms n)"
  by (induction ms) (auto intro!: frame_intros split: prod.split)

lemma modifies_PrepareRegisteredService:
  assumes "ServiceEndpointDefinitionMapping jp api u sc' = Inr ms"
  shows "modifies objs K (PrepareRegisteredService ae sc ms u ns)"
  unfolding PrepareRegisteredService_def LookupServiceEndpointDescriptor_def Let_def
  by (auto intro!: frame_intros modifies_lookup_values modifies_mapping [OF assms] split: prod.split)

abbreviation registered :: "ServiceClass \<Rightarrow> cluster \<Rightarrow> string \<Rightarrow> string \<Rightarrow> 's \<Rightarrow> bool" where
  "registered sc cli ns n s \<equiv>
     \<exists>r. objs s cli KRegisteredService (ns, n) = Some (ORegisteredService r) \<and> describes sc (rs_Spec r)"

lemma handle_services_ok:
  assumes "run_state (handle_services jp api ae (updateRegisteredService api cli) sc ns us errs) s = (None, s')"
  shows "(\<forall>e\<in>set errs. e = None) \<and> (\<forall>n. registered sc cli ns n s \<or> (\<exists>u\<in>set us. om_name (u_meta u) = n) \<longrightarrow>
    registered sc cli ns n s')"
  using assms
proof (induction us arbitrary: errs s)
  case Nil
  then show ?case by simp
next
  case (Cons u us)
  from Cons.prems obtain ms where ms: "ServiceEndpointDefinitionMapping jp api u sc = Inr ms"
    by (auto split: sum.splits)
  obtain p s1 where p: "run_state (PrepareRegisteredService ae sc ms u ns) s = (p, s1)" by fastforce
  have s1: "objs s1 = objs s" by (rule reads_only [OF modifies_PrepareRegisteredService [OF ms] p])
  show ?case
  proof (cases p)
    case (Inl e)
    with Cons.prems ms p have "run_state (handle_services jp api ae (updateRegisteredService api cli) sc ns us (errs @ [Some e])) s1 = (None, s')"
      by simp
    from Cons.IH [OF this] show ?thesis by simp
  next
    case (Inr q)
    obtain rs sec where q: "q = (rs, sec)" by fastforce
    note prep = PrepareRegisteredService_describes [OF ms p [unfolded Inr q]]
    obtain es s2 where es: "run_state (updateRegisteredService api cli rs sec) s1 = (es, s2)" by fastforce
    from Cons.prems ms p Inr q es have
      "run_state (handle_services jp api ae (updateRegisteredService api cli) sc ns us (errs @ es)) s2 = (None, s')" by simp
    from Cons.IH [OF this] have none: "\<forall>e\<in>set errs. e = None" "\<forall>e\<in>set es. e = None"
      and keep: "\<And>n. registered sc cli ns n s2 \<or> (\<exists>u\<in>set us. om_name (u_meta u) = n) \<Longrightarrow> registered sc cli ns n s'"
      by auto
    from updateRegisteredService_ok(1) [OF es none(2), of "describes sc"] prep
    have here: "registered sc cli ns (om_name (u_meta u)) s2" by simp
    have "same_but ({(cli, KRegisteredService, (ns, om_name (u_meta u)))} \<union> {(c, k, n). k = KSecret}) (objs s1) (objs s2)"
      by (rule modifies_run [OF modifies_updateRegisteredService es]) (simp_all add: prep)
    then have "registered sc cli ns n s2" if "registered sc cli ns n s" for n
      using that here s1 by (cases "n = om_name (u_meta u)") (auto simp: same_but_def)
    with here none(1) keep show ?thesis by auto
  qed
qed

lemma HandleRegisteredServices_ok:
  assumes "run_state (HandleRegisteredServices jp api ae strategy (updateRegisteredService api) sc us) s = ((None, sc1), s')"
  shows "\<exists>config tns cli. getTargetClient ae strategy (om_namespace (cl_meta sc)) = Inr (config, tns) \<and>
    k_new_client api config = Inr cli \<and> (\<forall>u\<in>set us. registered sc cli tns (om_name (u_meta u)) s')"
proof -
  from assms obtain config tns where c: "getTargetClient ae strategy (om_namespace (cl_meta sc)) = Inr (config, tns)"
    by (auto simp: HandleRegisteredServices_def split: sum.splits)
  obtain st s1 where st: "run_state (TestConnection api config) s = (st, s1)" by fastforce
  obtain now s2 where n: "run_state (k_now api) s1 = (now, s2)" by fastforce
  from assms c st n obtain cli where cli: "k_new_client api config = Inr cli"
    and sp: "cl_Spec sc1 = cl_Spec sc"
    and h: "run_state (handle_services jp api ae (updateRegisteredService api cli) sc1 tns us []) s2 = (None, s')"
    by (auto simp: HandleRegisteredServices_def Let_def split: sum.splits if_splits prod.splits)
  from handle_services_ok [OF h] have "\<forall>u\<in>set us. registered sc1 cli tns (om_name (u_meta u)) s'" by blast
  moreover have "describes sc1 = describes sc" by (intro ext) (simp add: describes_def sp)
  ultimately show ?thesis using c cli by auto
qed

lemma GetResources_ok:
  assumes "run_state (GetResources api mapping sc) s = (Inr us, s')" and "om_namespace (cl_meta sc) \<noteq> ''''"
    and "objs s (k_self api) (KUnstructured (scr_APIVersion (clsp_Resource (cl_Spec sc))) (scr_Kind (clsp_Resource (cl_Spec sc))))
      (om_namespace (cl_meta sc), m) = Some (OUnstructured u)"
  shows "u \<in> set us \<and> om_name (u_meta u) = m \<and> objs s' = objs s"
proof -
  let ?k = "KUnstructured (scr_APIVersion (clsp_Resource (cl_Spec sc))) (scr_Kind (clsp_Resource (cl_Spec sc)))"
  from assms(1) obtain xs where l: "run_state (k_list api (k_self api) ?k (om_namespace (cl_meta sc)) []) s = (Inr xs, s')"
    and us: "us = unstructured_of xs"
    by (auto simp: GetResources_def map_items_def split: sum.splits prod.splits)
  from list_kind [OF l assms(2)] keyed [OF assms(3)] assms(3) us show ?thesis
    by (auto simp: unstructured_of_in obj_key_def meta_key_def)
qed

lemma own_class_ok:
  assumes "run_state (own_class api sc d) s = (Inr sc1, s')"
    and "objs s (k_self api) KServiceClass (meta_key (cl_meta sc)) = Some (OServiceClass sc)"
  shows "cl_Spec sc1 = cl_Spec sc \<and> meta_key (cl_meta sc1) = meta_key (cl_meta sc) \<and>
    om_deletion (cl_meta sc1) = om_deletion (cl_meta sc) \<and> om_finalizers (cl_meta sc1) = om_finalizers (cl_meta sc) \<and>
    same_but {(k_self api, KServiceClass, meta_key (cl_meta sc))} (objs s) (objs s') \<and>
    objs s' (k_self api) KServiceClass (meta_key (cl_meta sc)) = Some (OServiceClass sc1)"
proof -
  from assms(1) obtain m y where m: "SetControllerReference deployment_gvk (dep_meta d) (cl_meta sc) = Inr m"
    and u: "run_state (k_update api (k_self api) (OServiceClass (sc\<lparr>cl_meta := m\<rparr>))) s = (Inr y, s')"
    and sc1: "sc1 = as_local_class sc y"
    by (auto simp: own_class_def split: sum.splits prod.splits)
  from m obtain ow where ow: "m = (cl_meta sc)\<lparr>om_owners := ow\<rparr>"
    by (auto simp: SetControllerReference_def Let_def split: option.splits if_splits)
  then have k: "obj_key (OServiceClass (sc\<lparr>cl_meta := m\<rparr>)) = meta_key (cl_meta sc)" by (simp add: obj_key_def meta_key_def)
  from update_ok [OF u] assms(2) k obtain v where y: "y = written (OServiceClass sc) v (OServiceClass (sc\<lparr>cl_meta := m\<rparr>))"
    and st: "objs s' (k_self api) KServiceClass (meta_key (cl_meta sc)) =
      (if om_deletion (cl_meta sc) \<and> om_finalizers m = [] then None else Some y)" by auto
  from live [OF assms(2)] ow have "\<not> (om_deletion (cl_meta sc) \<and> om_finalizers m = [])" by auto
  with st have "objs s' (k_self api) KServiceClass (meta_key (cl_meta sc)) = Some y" by auto
  with y sc1 ow update_others [OF u] k show ?thesis
    by (auto simp: as_local_class_def written_def keep_server_fields_def set_version_def meta_key_def)
qed

end

context kube_store
begin

lemma modifies_own_class:
  "modifies objs {(k_self api, KServiceClass, meta_key (cl_meta sc))} (own_class api sc d)"
proof -
  have "obj_key (OServiceClass (sc\<lparr>cl_meta := m\<rparr>)) = meta_key (cl_meta sc)"
    if "SetControllerReference deployment_gvk (dep_meta d) (cl_meta sc) = Inr m" for m
  proof -
    from that obtain ow where "m = (cl_meta sc)\<lparr>om_owners := ow\<rparr>"
      by (auto simp: SetControllerReference_def Let_def split: option.splits if_splits)
    then show ?thesis by (simp add: obj_key_def meta_key_def)
  qed
  then show ?thesis unfolding own_class_def by (auto intro!: frame_intros split: sum.split)
qed

text \<open>A reconciliation of a stored class, up to the branch on the deletion.\<close>

lemma ReconcileLocalClass_branch:
  assumes "run_state (ReconcileLocalClass jp api ae strategy mapping start informers (ns, n)) s = ((r, informers'), s')"
    and "objs s (k_self api) KServiceClass (ns, n) = Some (OServiceClass sc)"
    and "objs s (k_self api) KDeployment (ns, ServiceAgentDeploymentName) = Some (ODeployment d)"
  shows "r \<noteq> None \<or> (\<exists>sc1 us s1 s2. cl_Spec sc1 = cl_Spec sc \<and> meta_key (cl_meta sc1) = (ns, n) \<and>
    om_deletion (cl_meta sc1) = om_deletion (cl_meta sc) \<and> om_finalizers (cl_meta sc1) = om_finalizers (cl_meta sc) \<and>
    same_but {(k_self api, KServiceClass, (ns, n))} (objs s) (objs s1) \<and> objs s2 = objs s1 \<and>
    objs s1 (k_self api) KServiceClass (ns, n) = Some (OServiceClass sc1) \<and>
    run_state (GetResources api mapping sc1) s1 = (Inr us, s2) \<and>
    run_state (if \<not> om_deletion (cl_meta sc1) \<and> \<not> om_deletion (dep_meta d) then register_services jp api ae strategy sc1 us
      else if ContainsFinalizer (cl_meta sc1) class_agent_finalizer then unregister_services jp api ae strategy sc1 us
      else ret None) s2 = (r, s'))"
proof (cases "r = None")
  case r: True
  have key: "meta_key (cl_meta sc) = (ns, n)" "om_namespace (cl_meta sc) = ns"
    using keyed [OF assms(2)] by (auto simp: obj_key_def meta_key_def)
  obtain g t1 where g: "run_state (get_class api (k_self api) (ns, n)) s = (g, t1)" by fastforce
  have t1: "objs t1 = objs s" by (rule reads_only [OF modifies_get_class g])
  have gv: "g = Inr sc"
  proof (cases g)
    case (Inl e)
    with assms(1) r g have "IsNotFound e" by (auto simp: ReconcileLocalClass_def split: if_splits)
    with get_class_missing [of "k_self api" "(ns, n)" s e] g Inl assms(2) show ?thesis by auto
  next
    case (Inr x)
    with get_class_found [of "k_self api" "(ns, n)" s x] g assms(2) show ?thesis by auto
  qed
  obtain q t2 where q: "run_state (own_deployment api ns ServiceAgentDeploymentName) t1 = (q, t2)" by fastforce
  have "modifies objs {} (own_deployment api ns ServiceAgentDeploymentName)"
    unfolding own_deployment_def by (intro frame_intros modifies_get_deployment)
  from reads_only [OF this q] t1 have t2: "objs t2 = objs s" by simp
  have qv: "q = Inr d"
  proof (cases q)
    case (Inl e)
    with assms(1) r g gv q key show ?thesis by (simp add: ReconcileLocalClass_def)
  next
    case (Inr d')
    from q Inr have "run_state (get_deployment api (k_self api) (ns, ServiceAgentDeploymentName)) t1 = (Inr d', t2)"
      by (auto simp: own_deployment_def split: prod.splits sum.splits if_splits)
    from get_deployment_found [OF this] t1 assms(3) Inr show ?thesis by simp
  qed
  obtain c s1 where c: "run_state (own_class api sc d) t2 = (c, s1)" by fastforce
  from assms(1) r g gv q qv key c obtain sc1 where cv: "c = Inr sc1" by (cases c) (simp_all add: ReconcileLocalClass_def)
  have "objs t2 (k_self api) KServiceClass (meta_key (cl_meta sc)) = Some (OServiceClass sc)" using t2 assms(2) key by simp
  note own = own_class_ok [OF c [unfolded cv] this]
  obtain l s2 where l: "run_state (GetResources api mapping sc1) s1 = (l, s2)" by fastforce
  have "modifies objs {} (GetResources api mapping sc1)"
    unfolding GetResources_def by (auto intro!: frame_intros split: sum.split)
  from reads_only [OF this l] have s2: "objs s2 = objs s1" .
  obtain w inf where w: "SetWatchersForResources ae mapping start informers sc1 = (w, inf)" by fastforce
  from assms(1) r g gv q qv key c cv l w obtain us where us: "l = Inr us"
    and run: "run_state (if \<not> om_deletion (cl_meta sc1) \<and> \<not> om_deletion (dep_meta d) then register_services jp api ae strategy sc1 us
      else if ContainsFinalizer (cl_meta sc1) class_agent_finalizer then unregister_services jp api ae strategy sc1 us
      else ret None) s2 = (r, s')"
    by (cases w; cases l) (auto simp: ReconcileLocalClass_def split: prod.splits if_splits)
  with own key t2 s2 l show ?thesis
    by (intro disjI2 exI [of _ sc1] exI [of _ us] exI [of _ s1] exI [of _ s2]) simp
qed simp

lemma register_services_ok:
  assumes "run_state (register_services jp api ae strategy sc us) s = (None, s')"
  shows "\<exists>sc1 sc2 s1 s2. cl_Spec sc1 = cl_Spec sc \<and> om_namespace (cl_meta sc1) = om_namespace (cl_meta sc) \<and>
    run_state (HandleRegisteredServices jp api ae strategy (updateRegisteredService api) sc1 us) s1 = ((None, sc2), s2) \<and>
    (\<forall>c n. objs s' c KRegisteredService n = objs s2 c KRegisteredService n)"
proof -
  have tail: ?thesis if h: "run_state (do {
      (e, sc2) \<leftarrow> HandleRegisteredServices jp api ae strategy (updateRegisteredService api) sc1 us;
      write_class_status api sc2 e }) s1 = (None, s')"
    and sp: "cl_Spec sc1 = cl_Spec sc" "om_namespace (cl_meta sc1) = om_namespace (cl_meta sc)" for sc1 s1
  proof -
    from h obtain e sc2 s2 where h1: "run_state (HandleRegisteredServices jp api ae strategy (updateRegisteredService api) sc1 us) s1 = ((e, sc2), s2)"
      and w: "run_state (write_class_status api sc2 e) s2 = (None, s')"
      by (auto split: prod.splits)
    obtain y s3 where y: "run_state (k_status_update api (k_self api) (OServiceClass sc2)) s2 = (y, s3)" by fastforce
    with w have "e = None" "s' = s3" by (auto simp: write_class_status_def)
    moreover have "objs s3 c KRegisteredService n = objs s2 c KRegisteredService n" for c n
      using status_others [OF y] by (simp add: same_but_def)
    ultimately show ?thesis using h1 sp by blast
  qed
  obtain b m where a: "AddFinalizer (cl_meta sc) class_agent_finalizer = (b, m)" by fastforce
  show ?thesis
  proof (cases b)
    case False
    with assms a show ?thesis by (intro tail [of sc s]) (simp_all add: register_services_def)
  next
    case True
    obtain u s1 where u: "run_state (k_update api (k_self api) (OServiceClass (sc\<lparr>cl_meta := m\<rparr>))) s = (u, s1)" by fastforce
    with assms a True obtain x where x: "u = Inr x" by (cases u) (simp_all add: register_services_def)
    from update_ok [OF u [unfolded x]] obtain old v where "x = written old v (OServiceClass (sc\<lparr>cl_meta := m\<rparr>))" by auto
    then have "cl_Spec (as_local_class sc x) = cl_Spec sc" "om_namespace (cl_meta (as_local_class sc x)) = om_namespace (cl_meta sc)"
      using a by (cases old; auto simp: as_local_class_def written_def keep_server_fields_def set_version_def AddFinalizer_def split: if_splits)+
    with assms a True u x show ?thesis by (intro tail [of "as_local_class sc x" s1]) (simp_all add: register_services_def)
  qed
qed

end

text \<open>C16: Let a service class in a named namespace, not being deleted, be reconciled without an error by the service
  agent, whose deployment is stored in that namespace and not being deleted either (otherwise the services are
  unregistered). Then every resource of the class's kind that the namespace holds is registered: the agent's
  target cluster can be reached, and the target namespace holds a registered service of the resource's name
  with the class's identity, constraints and health check and with one endpoint item for each mapping of the
  class, in their order.\<close>

theorem ReconcileLocalClass_registers:
  assumes "kube_store api objs"
    and "run_state (ReconcileLocalClass jp api ae strategy mapping start informers (ns, n)) s = ((None, informers'), s')"
    and "objs s (k_self api) KServiceClass (ns, n) = Some (OServiceClass sc)" and "\<not> om_deletion (cl_meta sc)"
    and "objs s (k_self api) KDeployment (ns, ServiceAgentDeploymentName) = Some (ODeployment d)"
    and "\<not> om_deletion (dep_meta d)" and "ns \<noteq> ''''"
    and "objs s (k_self api) (KUnstructured (scr_APIVersion (clsp_Resource (cl_Spec sc)))
      (scr_Kind (clsp_Resource (cl_Spec sc)))) (ns, m) = Some (OUnstructured u)"
  shows "\<exists>config tns cli r. getTargetClient ae strategy ns = Inr (config, tns) \<and> k_new_client api config = Inr cli \<and>
    objs s' cli KRegisteredService (tns, m) = Some (ORegisteredService r) \<and> describes sc (rs_Spec r)"
proof -
  from kube_store.ReconcileLocalClass_branch [OF assms(1), OF assms(2,3,5)] assms(4,6)
  obtain sc1 us s1 s2 where sp: "cl_Spec sc1 = cl_Spec sc" and key: "meta_key (cl_meta sc1) = (ns, n)"
    and fr: "same_but {(k_self api, KServiceClass, (ns, n))} (objs s) (objs s1)"
    and l: "run_state (GetResources api mapping sc1) s1 = (Inr us, s2)"
    and run: "run_state (register_services jp api ae strategy sc1 us) s2 = (None, s')"
    by auto
  from key have ns: "om_namespace (cl_meta sc1) = ns" by (simp add: meta_key_def)
  have u: "objs s1 (k_self api) (KUnstructured (scr_APIVersion (clsp_Resource (cl_Spec sc1)))
      (scr_Kind (clsp_Resource (cl_Spec sc1)))) (om_namespace (cl_meta sc1), m) = Some (OUnstructured u)"
    using assms(8) fr sp ns by (simp add: same_but_def)
  from kube_store.GetResources_ok [OF assms(1) l] ns assms(7) u have u: "u \<in> set us" "om_name (u_meta u) = m" by blast+
  from kube_store.register_services_ok [OF assms(1) run] obtain sc2 sc3 s3 s4 where
    sp2: "cl_Spec sc2 = cl_Spec sc" "om_namespace (cl_meta sc2) = ns"
    and h: "run_state (HandleRegisteredServices jp api ae strategy (updateRegisteredService api) sc2 us) s3 = ((None, sc3), s4)"
    and s': "\<And>c n. objs s' c KRegisteredService n = objs s4 c KRegisteredService n"
    using sp ns by auto
  from kube_store.HandleRegisteredServices_ok [OF assms(1) h] u obtain config tns cli r where
    t: "getTargetClient ae strategy ns = Inr (config, tns)" "k_new_client api config = Inr cli"
    and r: "objs s4 cli KRegisteredService (tns, m) = Some (ORegisteredService r)" "describes sc2 (rs_Spec r)"
    unfolding sp2 by blast
  from r(2) have "describes sc (rs_Spec r)" by (simp add: describes_def sp2)
  with t r(1) s' show ?thesis by auto
qed

text \<open>When the informer sees that a resource is gone, its handler deletes no registered service of any
  namespace: it asks for the service that is named after the class and lies in no namespace.\<close>

theorem resource_deleted_keeps_services:
  assumes "kube_store api objs"
    and "run_state (resource_deleted api ae strategy sc synced u) s = (r, s')" and "ns \<noteq> ''''"
  shows "objs s' c KRegisteredService (ns, n) = objs s c KRegisteredService (ns, n)"
proof -
  have "modifies objs {(c, KRegisteredService, ('''', n)) | c n. True} (resource_deleted api ae strategy sc synced u)"
    unfolding resource_deleted_def DeleteRegisteredService_def
    by (auto intro!: frame_intros kube_store.modifies_delete [OF assms(1)] split: sum.split)
  from modifies_run [OF this assms(2)] assms(3) show ?thesis by (simp add: same_but_def)
qed

subsection \<open>Letting a class go\<close>

context live_store
begin

lemma update_present:
  assumes "up c s" and "objs s c (obj_kind x) (obj_key x) = Some old" and "current x old"
  shows "\<exists>v s'. run_state (k_update api c x) s = (Inr (written old v x), s') \<and>
    objs s' c (obj_kind x) (obj_key x) =
      (if om_deletion (obj_meta old) \<and> om_finalizers (obj_meta x) = [] then None else Some (written old v x))"
proof -
  obtain r s' where r: "run_state (k_update api c x) s = (r, s')" by fastforce
  show ?thesis
  proof (cases r)
    case (Inl e)
    with r update_accepted [OF assms, of e s'] show ?thesis by blast
  next
    case (Inr y)
    from update_ok [OF r [unfolded Inr]] assms(2) r Inr show ?thesis by auto
  qed
qed

lemma get_class_present:
  assumes "up c s" and "objs s c KServiceClass n = Some (OServiceClass sc)"
  shows "\<exists>s'. run_state (get_class api c n) s = (Inr sc, s') \<and> objs s' = objs s"
  using get_present [OF assms] by (auto simp: get_class_def)

lemma own_deployment_present:
  assumes "up (k_self api) s" and "objs s (k_self api) KDeployment (ns, n) = Some (ODeployment d)"
  shows "\<exists>s'. run_state (own_deployment api ns n) s = (Inr d, s') \<and> objs s' = objs s"
  using get_present [OF assms] by (auto simp: own_deployment_def get_deployment_def)

lemma own_class_present:
  assumes "up (k_self api) s" and "objs s (k_self api) KServiceClass (meta_key (cl_meta sc)) = Some (OServiceClass sc)"
    and "om_owners (cl_meta sc) = []" and "om_namespace (dep_meta d) = om_namespace (cl_meta sc)" and "om_namespace (cl_meta sc) \<noteq> ''''"
  shows "\<exists>sc1 s'. run_state (own_class api sc d) s = (Inr sc1, s')"
proof -
  let ?m = "(cl_meta sc)\<lparr>om_owners := [\<lparr>or_apiVersion = fst deployment_gvk, or_kind = snd deployment_gvk,
    or_name = om_name (dep_meta d), or_uid = om_uid (dep_meta d), or_controller = True\<rparr>]\<rparr>"
  have m: "SetControllerReference deployment_gvk (dep_meta d) (cl_meta sc) = Inr ?m"
    using assms(3-5) by (simp add: SetControllerReference_def validateOwner_def Let_def)
  have k: "obj_key (OServiceClass (sc\<lparr>cl_meta := ?m\<rparr>)) = meta_key (cl_meta sc)" by (simp add: obj_key_def meta_key_def)
  have "current (OServiceClass (sc\<lparr>cl_meta := ?m\<rparr>)) (OServiceClass sc)" by (simp add: current_def)
  with update_present [OF assms(1), of "OServiceClass (sc\<lparr>cl_meta := ?m\<rparr>)" "OServiceClass sc"] assms(2) k m
  show ?thesis by (auto simp: own_class_def)
qed

lemma GetResources_present:
  assumes "up (k_self api) s" and "mapping (scr_APIVersion (clsp_Resource (cl_Spec sc))) (scr_Kind (clsp_Resource (cl_Spec sc))) = Inr rsc"
  shows "\<exists>us s'. run_state (GetResources api mapping sc) s = (Inr us, s') \<and> objs s' = objs s"
proof -
  obtain l s' where l: "run_state (k_list api (k_self api) (KUnstructured (scr_APIVersion (clsp_Resource (cl_Spec sc)))
      (scr_Kind (clsp_Resource (cl_Spec sc)))) (om_namespace (cl_meta sc)) []) s = (l, s')" by fastforce
  with list_answers [OF assms(1)] obtain xs where "l = Inr xs" by (cases l) auto
  with l assms(2) list_reads [OF l] show ?thesis by (simp add: GetResources_def map_items_def)
qed

lemma HandleRegisteredServices_down:
  assumes "getTargetClient ae strategy (om_namespace (cl_meta sc)) = Inr (config, tns)" and "k_new_client api config = Inr cli"
    and "down cli s"
  shows "\<exists>e cs s'. run_state (HandleRegisteredServices jp api ae strategy h sc us) s =
    ((Some e, sc\<lparr>cl_Conditions := cs\<rparr>), s') \<and> objs s' = objs s \<and> (\<forall>c. up c s \<longrightarrow> up c s')"
proof -
  obtain v s1 where v: "run_state (k_server_version api cli) s = (v, s1)" by fastforce
  with version_fails [OF assms(3)] obtain e where e: "v = Inl e" by (cases v) auto
  obtain st where st: "run_state (TestConnection api config) s = (st, s1)" "cs_State st = CEOffline"
    using assms(2) v e by (simp add: TestConnection_def)
  obtain now s2 where n: "run_state (k_now api) s1 = (now, s2)" by fastforce
  from steady_run(1) [OF steady_version v] steady_run(1) [OF steady_now n] have "\<forall>c. up c s \<longrightarrow> up c s2" by blast
  with st n assms(1) now_reads [OF n] version_reads [OF v] show ?thesis
    by (simp add: HandleRegisteredServices_def Let_def) blast
qed

lemma steady_local_class [steady_intros]:
  "steady up down (get_class api c n)" "steady up down (own_deployment api ns m)"
  "steady up down (own_class api sc d)" "steady up down (GetResources api mapping sc)"
  unfolding get_class_def own_deployment_def get_deployment_def own_class_def GetResources_def
  by (auto intro!: steady_intros split: sum.split)

end

context live_store
begin

lemma unregister_services_down:
  assumes "getTargetClient ae strategy (om_namespace (cl_meta sc)) = Inr (config, tns)" and "k_new_client api config = Inr cli"
    and "down cli s" and "up (k_self api) s"
    and "objs s (k_self api) KServiceClass (meta_key (cl_meta sc)) = Some (OServiceClass sc)"
    and "om_deletion (cl_meta sc)" and "om_finalizers (cl_meta sc) = [class_agent_finalizer]"
    and "run_state (unregister_services jp api ae strategy sc us) s = (r, s')"
  shows "r \<noteq> None \<and> objs s' (k_self api) KServiceClass (meta_key (cl_meta sc)) = None \<and>
    (\<forall>c n. objs s' c KRegisteredService n = objs s c KRegisteredService n)"
proof -
  let ?key = "meta_key (cl_meta sc)"
  from HandleRegisteredServices_down [OF assms(1-3), of jp "deleteRegisteredService api" us] assms(4) obtain e cs s1 where
    h: "run_state (HandleRegisteredServices jp api ae strategy (deleteRegisteredService api) sc us) s =
      ((Some e, sc\<lparr>cl_Conditions := cs\<rparr>), s1)" and s1: "objs s1 = objs s" and up1: "up (k_self api) s1"
    by blast
  let ?x = "OServiceClass (sc\<lparr>cl_Conditions := cs, cl_meta := snd (RemoveFinalizer (cl_meta sc) class_agent_finalizer)\<rparr>)"
  have k: "obj_key ?x = ?key" and fin: "om_finalizers (obj_meta ?x) = []"
    using assms(7) by (simp_all add: obj_key_def meta_key_def RemoveFinalizer_def)
  have cur: "current ?x (OServiceClass sc)" by (simp add: current_def RemoveFinalizer_def)
  have at: "objs s1 (k_self api) (obj_kind ?x) (obj_key ?x) = Some (OServiceClass sc)"
    unfolding k using assms(5) s1 by simp
  from update_present [OF up1 at cur] assms(6) fin obtain v s2 where
    u: "run_state (k_update api (k_self api) ?x) s1 = (Inr (written (OServiceClass sc) v ?x), s2)"
    and gone: "objs s2 (k_self api) KServiceClass ?key = None" using k by auto
  let ?y = "as_local_class (sc\<lparr>cl_Conditions := cs\<rparr>) (written (OServiceClass sc) v ?x)"
  have ky: "obj_key (OServiceClass ?y) = ?key"
    by (simp add: as_local_class_def written_def keep_server_fields_def set_version_def obj_key_def meta_key_def RemoveFinalizer_def)
  obtain q s3 where q: "run_state (k_status_update api (k_self api) (OServiceClass ?y)) s2 = (q, s3)" by fastforce
  from assms(8) h u q have r: "r = errors_Join_opt [Some e, err_of q]" and s': "s' = s3"
    by (simp_all add: unregister_services_def write_class_status_def)
  have "objs s3 (k_self api) KServiceClass ?key = None"
  proof (cases q)
    case (Inl e')
    from status_failed [OF q [unfolded Inl]] gone ky show ?thesis by auto
  next
    case (Inr z)
    from status_ok [OF q [unfolded Inr]] gone ky show ?thesis by auto
  qed
  moreover have "objs s3 c KRegisteredService n = objs s c KRegisteredService n" for c n
    using status_others [OF q] update_others [OF u] s1 by (simp add: same_but_def)
  ultimately show ?thesis using r s' by (auto simp: errors_Join_opt_def errors_Join_def)
qed

end

text \<open>A service class that is being deleted is let go although its registered services cannot be deleted: when
  the target cluster is down and the agent's own cluster is up, the reconciliation reports an error, but
  it has removed the finalizer, so that the class is gone while every registered service is still there
  and nothing is left to delete them.\<close>

theorem ReconcileLocalClass_lets_go:
  assumes "live_store api objs up down"
    and "run_state (ReconcileLocalClass jp api ae strategy mapping start informers (ns, n)) s = ((r, informers'), s')"
    and "objs s (k_self api) KServiceClass (ns, n) = Some (OServiceClass sc)" and "om_deletion (cl_meta sc)"
    and "om_finalizers (cl_meta sc) = [class_agent_finalizer]" and "om_owners (cl_meta sc) = []" and "ns \<noteq> ''''"
    and "objs s (k_self api) KDeployment (ns, ServiceAgentDeploymentName) = Some (ODeployment d)"
    and "mapping (scr_APIVersion (clsp_Resource (cl_Spec sc))) (scr_Kind (clsp_Resource (cl_Spec sc))) = Inr rsc"
    and "n \<in> set informers"
    and "getTargetClient ae strategy ns = Inr (config, tns)" and "k_new_client api config = Inr cli"
    and "down cli s" and "up (k_self api) s"
  shows "r \<noteq> None \<and> objs s' (k_self api) KServiceClass (ns, n) = None \<and>
    (\<forall>c m. objs s' c KRegisteredService m = objs s c KRegisteredService m)"
proof -
  have ks: "kube_store api objs" using assms(1) unfolding live_store_def by blast
  have key: "meta_key (cl_meta sc) = (ns, n)" "om_namespace (cl_meta sc) = ns" "om_namespace (dep_meta d) = ns"
    using kube_store.keyed [OF ks assms(3)] kube_store.keyed [OF ks assms(8)] by (auto simp: obj_key_def meta_key_def)
  from live_store.get_class_present [OF assms(1), OF assms(14,3)] obtain t1 where
    g: "run_state (get_class api (k_self api) (ns, n)) s = (Inr sc, t1)" and t1: "objs t1 = objs s" by blast
  note up1 = steady_run(1) [OF live_store.steady_local_class(1) [OF assms(1)] g assms(14)]
  note down1 = steady_run(2) [OF live_store.steady_local_class(1) [OF assms(1)] g assms(13)]
  from live_store.own_deployment_present [OF assms(1), OF up1, of ns ServiceAgentDeploymentName d] assms(8) t1 obtain t2 where
    q: "run_state (own_deployment api ns ServiceAgentDeploymentName) t1 = (Inr d, t2)" and t2: "objs t2 = objs s" by auto
  note up2 = steady_run(1) [OF live_store.steady_local_class(2) [OF assms(1)] q up1]
  note down2 = steady_run(2) [OF live_store.steady_local_class(2) [OF assms(1)] q down1]
  have at: "objs t2 (k_self api) KServiceClass (meta_key (cl_meta sc)) = Some (OServiceClass sc)" using t2 assms(3) key by simp
  from live_store.own_class_present [OF assms(1), OF up2 at assms(6), of d] key assms(7) obtain sc1 t3 where
    c: "run_state (own_class api sc d) t2 = (Inr sc1, t3)" by auto
  note own = kube_store.own_class_ok [OF ks, OF c at]
  note up3 = steady_run(1) [OF live_store.steady_local_class(3) [OF assms(1)] c up2]
  note down3 = steady_run(2) [OF live_store.steady_local_class(3) [OF assms(1)] c down2]
  from own have sp: "cl_Spec sc1 = cl_Spec sc" and key1: "meta_key (cl_meta sc1) = (ns, n)"
    "om_namespace (cl_meta sc1) = ns" "om_name (cl_meta sc1) = n"
    using key by (auto simp: meta_key_def)
  have "mapping (scr_APIVersion (clsp_Resource (cl_Spec sc1))) (scr_Kind (clsp_Resource (cl_Spec sc1))) = Inr rsc"
    using assms(9) sp by simp
  from live_store.GetResources_present [OF assms(1), of t3 mapping sc1 rsc, OF up3 this] obtain us t4 where
    l: "run_state (GetResources api mapping sc1) t3 = (Inr us, t4)" and t4: "objs t4 = objs t3" by blast
  note up4 = steady_run(1) [OF live_store.steady_local_class(4) [OF assms(1)] l up3]
  note down4 = steady_run(2) [OF live_store.steady_local_class(4) [OF assms(1)] l down3]
  have w: "SetWatchersForResources ae mapping start informers sc1 = (None, informers)"
    using assms(9,10) sp key1 by (simp add: SetWatchersForResources_def RunClassInformer_def)
  obtain r' s1 where u: "run_state (unregister_services jp api ae strategy sc1 us) t4 = (r', s1)" by fastforce
  have "r' = r" "s1 = s'"
    using assms(2,4,5) g q c l w u own key by (simp_all add: ReconcileLocalClass_def ContainsFinalizer_def)
  moreover have "objs t4 (k_self api) KServiceClass (meta_key (cl_meta sc1)) = Some (OServiceClass sc1)"
    using own t4 key key1 by simp
  from live_store.unregister_services_down [OF assms(1), OF _ assms(12) down4 up4 this _ _ u, of tns] assms(4,5,11) own key1
  have "r' \<noteq> None \<and> objs s1 (k_self api) KServiceClass (ns, n) = None \<and>
      (\<forall>c m. objs s1 c KRegisteredService m = objs t4 c KRegisteredService m)" by simp
  moreover have "objs t4 c KRegisteredService m = objs s c KRegisteredService m" for c m
    using own t2 t4 by (simp add: same_but_def)
  ultimately show ?thesis by simp
qed

subsection \<open>Instances\<close>

text \<open>Every JSONPath leads to the content of the resource.\<close>

definition content_path :: jsonpath where
  "content_path = \<lparr>jp_parse = (\<lambda>_. None), jp_find = (\<lambda>_ u. Inr [[u_content u]])\<rparr>"

definition orders_db :: Unstructured where
  "orders_db = \<lparr>u_APIVersion = ''db/v1'', u_Kind = ''DB'', u_meta = (new_meta ''svc'' ''orders'')\<lparr>om_resourceVersion := ''1''\<rparr>,
     u_volumes = Absent, u_containers = Absent, u_initContainers = Absent, u_content = ''db.example''\<rparr>"

definition db_class :: "bool \<Rightarrow> ServiceClass" where
  "db_class dying =
     \<lparr>cl_meta = (new_meta ''svc'' ''pg'')\<lparr>om_resourceVersion := ''1'', om_deletion := dying,
        om_finalizers := (if dying then [class_agent_finalizer] else [])\<rparr>,
      cl_Spec = \<lparr>clsp_Constraints = Some [''prod''], clsp_HealthCheck = None,
        clsp_Resource = \<lparr>scr_APIVersion = ''db/v1'', scr_Kind = ''DB'',
          scr_ResourceFields = [\<lparr>rf_Name = ''host'', rf_JsonPath = ''.host'', rf_Secret = False\<rparr>,
            \<lparr>rf_Name = ''password'', rf_JsonPath = ''.password'', rf_Secret = True\<rparr>],
          scr_SecretRefFields = []\<rparr>,
        clsp_ServiceClassIdentity = [\<lparr>sci_Name = ''type'', sci_Value = ''pg''\<rparr>]\<rparr>,
      cl_Conditions = []\<rparr>"

definition svc_agent :: agent_env where
  "svc_agent = \<lparr>ae_kubeconfig = Inr ''primaza'', ae_namespace = Inr ''control'', ae_in_cluster = Inr ''self'', ae_environment = ''edge''\<rparr>"

definition svc_deployment :: Deployment where
  "svc_deployment = \<lparr>dep_meta = (new_meta ''svc'' ServiceAgentDeploymentName)\<lparr>om_uid := ''u'', om_resourceVersion := ''1''\<rparr>,
     dep_Images = [''agent''], dep_TemplateLabels = []\<rparr>"

definition orders_service :: RegisteredService where
  "orders_service = \<lparr>rs_meta = (new_meta ''control'' ''orders'')\<lparr>om_resourceVersion := ''1''\<rparr>,
     rs_Spec = \<lparr>rssp_Constraints = None, rssp_HealthCheck = None, rssp_SLA = '''', rssp_ServiceClassIdentity = [],
       rssp_ServiceEndpointDefinition = []\<rparr>, rs_State = RSAvailable\<rparr>"

definition svc_state :: "bool \<Rightarrow> cluster list \<Rightarrow> mem" where
  "svc_state dying dead = \<lparr>m_objs = [(0, OServiceClass (db_class dying)), (0, ODeployment svc_deployment),
     (0, OUnstructured orders_db), (1, ORegisteredService orders_service)], m_tick = 0, m_down = dead, m_rules = []\<rparr>"

definition db_resource :: "string \<Rightarrow> string \<Rightarrow> err + string" where
  "db_resource av k = (if k = ''DB'' then Inr ''dbs'' else Inl (Plain ''no match''))"

abbreviation svc_api :: "mem kube" where
  "svc_api \<equiv> mem_api [(''primaza'', 1)] 0"

abbreviation reconcile_pg :: "string list \<Rightarrow> (mem, err option \<times> string list) state" where
  "reconcile_pg informers \<equiv> ReconcileLocalClass content_path svc_api svc_agent SyncPush db_resource (\<lambda>_ _. None) informers (''svc'', ''pg'')"

lemma svc_stored:
  "mem_objs (svc_state dying dead) (k_self svc_api) KServiceClass (''svc'', ''pg'') = Some (OServiceClass (db_class dying))"
  "mem_objs (svc_state dying dead) (k_self svc_api) KDeployment (''svc'', ServiceAgentDeploymentName) = Some (ODeployment svc_deployment)"
  "mem_objs (svc_state dying dead) (k_self svc_api) (KUnstructured ''db/v1'' ''DB'') (''svc'', ''orders'') = Some (OUnstructured orders_db)"
  by (simp_all add: mem_objs_def svc_state_def is_at_def db_class_def svc_deployment_def orders_db_def obj_key_def meta_key_def
    zombie_def ServiceAgentDeploymentName_def)

theorem ReconcileLocalClass_registers_witness:
  "\<exists>inf s' r. run_state (reconcile_pg []) (svc_state False []) = ((None, inf), s') \<and>
     mem_objs s' 1 KRegisteredService (''control'', ''orders'') = Some (ORegisteredService r) \<and>
     describes (db_class False) (rs_Spec r)"
proof -
  have "fst (fst (run_state (reconcile_pg []) (svc_state False []))) = None" by code_simp
  then obtain inf s' where run: "run_state (reconcile_pg []) (svc_state False []) = ((None, inf), s')"
    by (metis prod.collapse)
  have nd: "\<not> om_deletion (cl_meta (db_class False))" "\<not> om_deletion (dep_meta svc_deployment)" "''svc'' \<noteq> ''''"
    by (simp_all add: db_class_def svc_deployment_def)
  have res: "mem_objs (svc_state False []) (k_self svc_api) (KUnstructured (scr_APIVersion (clsp_Resource (cl_Spec (db_class False))))
      (scr_Kind (clsp_Resource (cl_Spec (db_class False))))) (''svc'', ''orders'') = Some (OUnstructured orders_db)"
    using svc_stored(3) [of False "[]"] by (simp add: db_class_def)
  have cfg: "getTargetClient svc_agent SyncPush ''svc'' = Inr (''primaza'', ''control'')" "k_new_client svc_api ''primaza'' = Inr 1"
    by code_simp+
  from ReconcileLocalClass_registers [OF mem.kube_store_axioms, OF run svc_stored(1) nd(1) svc_stored(2) nd(2,3) res] run cfg
  show ?thesis by auto
qed

theorem resource_deleted_keeps_services_witness:
  "\<exists>r s'. run_state (resource_deleted svc_api svc_agent SyncPush (db_class False) True orders_db) (svc_state False []) = (r, s') \<and>
     mem_objs s' 1 KRegisteredService (''control'', ''orders'') = Some (ORegisteredService orders_service)"
proof -
  obtain r s' where run: "run_state (resource_deleted svc_api svc_agent SyncPush (db_class False) True orders_db)
      (svc_state False []) = (r, s')" by fastforce
  have ns: "''control'' \<noteq> ''''" by simp
  have "mem_objs (svc_state False []) 1 KRegisteredService (''control'', ''orders'') = Some (ORegisteredService orders_service)"
    by code_simp
  with resource_deleted_keeps_services [OF mem.kube_store_axioms, OF run ns] run show ?thesis by metis
qed

theorem ReconcileLocalClass_lets_go_witness:
  "\<exists>e inf s'. run_state (reconcile_pg [''pg'']) (svc_state True [1]) = ((Some e, inf), s') \<and>
     mem_objs s' 0 KServiceClass (''svc'', ''pg'') = None \<and>
     mem_objs s' 1 KRegisteredService (''control'', ''orders'') = Some (ORegisteredService orders_service)"
proof -
  let ?s = "svc_state True [1]"
  obtain r inf s' where run: "run_state (reconcile_pg [''pg'']) ?s = ((r, inf), s')" by (metis prod.collapse)
  have c: "om_deletion (cl_meta (db_class True))" "om_finalizers (cl_meta (db_class True)) = [class_agent_finalizer]"
    "om_owners (cl_meta (db_class True)) = []" "''svc'' \<noteq> ''''" "''pg'' \<in> set [''pg'']" by (simp_all add: db_class_def)
  have m: "db_resource (scr_APIVersion (clsp_Resource (cl_Spec (db_class True)))) (scr_Kind (clsp_Resource (cl_Spec (db_class True)))) = Inr ''dbs''"
    by code_simp
  have cfg: "getTargetClient svc_agent SyncPush ''svc'' = Inr (''primaza'', ''control'')" "k_new_client svc_api ''primaza'' = Inr 1"
    by code_simp+
  have ud: "mem_down 1 ?s" "mem_up (k_self svc_api) ?s" by code_simp+
  have rs: "mem_objs ?s 1 KRegisteredService (''control'', ''orders'') = Some (ORegisteredService orders_service)" by code_simp
  from ReconcileLocalClass_lets_go [OF live.live_store_axioms, OF run svc_stored(1) c(1-4) svc_stored(2) m c(5) cfg ud] rs run
  show ?thesis by (cases r) auto
qed


end
