(* ===== verification/Discovery.thy ===== *)
theory Discovery
  imports AgentClass_Correct ServiceClaim_Correct
begin

section \<open>From a discovered resource to a claim\<close>

text \<open>
  The service agent writes the values it reads into a registered service and its descriptor secret
  (\<open>AgentClass_Ctrl\<close>); the control plane reads them back when it answers a claim (\<open>ServiceClaim_Ctrl\<close>). The
  two meet in the namespace of the control plane: here are the properties of the composition.
\<close>

lemma sed_of_key:
  assumes "distinct (map sm_Key ms)" and "length vs = length ms" and "(m, v) \<in> set (zip ms vs)"
    and "sed \<in> set (map2 (item_for dn) ms vs)" and "sed_Name sed = sm_Key m"
  shows "sed = item_for dn m v"
proof -
  from assms(4) obtain m' v' where z: "(m', v') \<in> set (zip ms vs)" and sed: "sed = item_for dn m' v'" by auto
  from z assms(3) obtain i j where ij: "i < length ms" "j < length ms" "ms ! i = m'" "vs ! i = v'" "ms ! j = m" "vs ! j = v"
    using assms(2) by (auto simp: set_zip)
  with sed assms(5) have "map sm_Key ms ! i = map sm_Key ms ! j" by simp
  with assms(1) ij have "i = j" by (simp only: nth_eq_iff_index_eq length_map)
  with ij sed show ?thesis by simp
qed

lemma stored_descriptor:
  assumes "is_secret_with d x" and "\<And>s. x = OSecret s \<Longrightarrow> sec_StringData s = []"
  shows "\<exists>s. x = OSecret s \<and> (\<forall>k v. gm_get d k = Some v \<longrightarrow> gm_get (sec_Data s) k = Some v)"
  using assms by (auto simp: is_secret_with_def secret_content_def)

text \<open>The keys of the descriptor secret are the keys of the secret mappings.\<close>

lemma descriptor_keys:
  assumes "run_state (LookupServiceEndpointDescriptor ms u) s = (Inr (items, Some sec), s')"
  shows "gm_get (sec_StringData sec) k = None \<longleftrightarrow> (\<forall>m\<in>set ms. sm_InSecret m \<longrightarrow> sm_Key m \<noteq> k)"
proof -
  obtain items' data errs s1 where l: "run_state (lookup_values ms (descriptor_name u)) s = ((items', data, errs), s1)"
    by (metis prod.collapse)
  with assms have "errs = []" "sec_StringData sec = data"
    by (auto simp: LookupServiceEndpointDescriptor_def descriptor_name_def Let_def split: option.splits if_splits)
  with lookup_values_ok [OF l [unfolded \<open>errs = []\<close>]] show ?thesis by blast
qed

text \<open>
  An endpoint definition is well-formed with the mappings it comes from, the values read and a descriptor
  secret: an item has the mapping's key as its name and carries the value itself, or, for a mapping that
  reads from a secret, no value but a reference to the key of the descriptor secret.
\<close>

definition well_formed_item ::
  "'s SEDMapping list \<Rightarrow> Secret option \<Rightarrow> 's SEDMapping \<times> string \<Rightarrow> ServiceEndpointDefinitionItem \<Rightarrow> bool" where
  "well_formed_item ms secret p i =
     (sed_Name i = sm_Key (fst p) \<and>
      (if sm_InSecret (fst p)
       then sed_Value i = '''' \<and>
         (\<exists>sec v. secret = Some sec \<and> sed_ValueFromSecret i = Some \<lparr>ssr_Name = om_name (sec_meta sec), ssr_Key = sm_Key (fst p)\<rparr> \<and>
            gm_get (sec_StringData sec) (sm_Key (fst p)) = Some v \<and> (distinct (map sm_Key ms) \<longrightarrow> v = snd p))
       else sed_Value i = snd p \<and> sed_ValueFromSecret i = None))"

definition well_formed_service ::
  "'s SEDMapping list \<Rightarrow> string list \<Rightarrow> RegisteredService \<Rightarrow> Secret option \<Rightarrow> bool" where
  "well_formed_service ms vs rs secret =
     (list_all2 (well_formed_item ms secret) (zip ms vs) (rssp_ServiceEndpointDefinition (rs_Spec rs)) \<and>
      (secret = None \<longleftrightarrow> (\<forall>m\<in>set ms. \<not> sm_InSecret m)) \<and>
      (\<forall>sec. secret = Some sec \<longrightarrow> om_namespace (sec_meta sec) = om_namespace (rs_meta rs) \<and>
         gm_wf (sec_StringData sec) \<and>
         (\<forall>k. gm_get (sec_StringData sec) k \<noteq> None \<longleftrightarrow> (\<exists>m\<in>set ms. sm_InSecret m \<and> sm_Key m = k))))"

lemma list_all2_map2I:
  "length vs = length ms \<Longrightarrow> (\<And>m v. (m, v) \<in> set (zip ms vs) \<Longrightarrow> P (m, v) (f m v)) \<Longrightarrow> list_all2 P (zip ms vs) (map2 f ms vs)"
  by (auto simp: list_all2_conv_all_nth set_zip)

text \<open>C18: What the service agent prepares for a resource, when it reports no error, is well-formed. There is a
  value read for every mapping, in the mappings' order, and an item of the endpoint definition for every
  mapping, in the same order and with the mapping's key as its name. For a mapping that does not read from
  a secret the item has the value read (which may be empty) and no reference; for one that does, the item
  has no value, but refers to its key in the descriptor secret, by the secret's name, and the secret has a
  value under this key: the one read, when no two mappings have the same key. The secret is made exactly
  when some mapping reads from a secret, lies in the service's namespace and has no other keys than those
  of these mappings.\<close>

theorem PrepareRegisteredService_well_formed:
  assumes "run_state (PrepareRegisteredService ae sc ms u ns) s = (Inr (rs, secret), s')"
  shows "\<exists>vs. reads ms vs s \<and> length vs = length ms \<and> well_formed_service ms vs rs secret"
proof -
  from PrepareRegisteredService_ok [OF assms] obtain sec where
    l: "run_state (LookupServiceEndpointDescriptor ms u) s = (Inr (rssp_ServiceEndpointDefinition (rs_Spec rs), sec), s')"
    and secret: "secret = map_option (\<lambda>s. s\<lparr>sec_meta := (sec_meta s)\<lparr>om_namespace := ns\<rparr>\<rparr>) sec"
    and ns: "om_namespace (rs_meta rs) = ns" by (auto simp: meta_key_def)
  from LookupServiceEndpointDescriptor_ok [OF l] obtain vs where vs: "reads ms vs s"
    and sed: "rssp_ServiceEndpointDefinition (rs_Spec rs) = map2 (item_for (descriptor_name u)) ms vs"
    and none: "sec = None \<longleftrightarrow> (\<forall>m\<in>set ms. \<not> sm_InSecret m)"
    and some: "\<And>x. sec = Some x \<Longrightarrow> sec_meta x = new_meta '''' (descriptor_name u) \<and> gm_wf (sec_StringData x) \<and>
      (distinct (map sm_Key ms) \<longrightarrow>
         (\<forall>(m, v)\<in>set (zip ms vs). sm_InSecret m \<longrightarrow> gm_get (sec_StringData x) (sm_Key m) = Some v))" by auto
  have keys: "gm_get (sec_StringData x) k \<noteq> None \<longleftrightarrow> (\<exists>m\<in>set ms. sm_InSecret m \<and> sm_Key m = k)"
    if "sec = Some x" for x k unfolding descriptor_keys [OF l [unfolded that]] by blast
  have item: "well_formed_item ms secret (m, v) (item_for (descriptor_name u) m v)" if z: "(m, v) \<in> set (zip ms vs)" for m v
  proof (cases "sm_InSecret m")
    case True
    from z have m: "m \<in> set ms" by (rule set_zip_leftD)
    with True none obtain x where x: "sec = Some x" by auto
    from keys [OF x] m True obtain w where w: "gm_get (sec_StringData x) (sm_Key m) = Some w" by blast
    from some [OF x] z True w have "distinct (map sm_Key ms) \<longrightarrow> w = v" by auto
    with w x some [OF x] True secret show ?thesis by (simp add: well_formed_item_def item_for_def new_meta_def)
  qed (simp add: well_formed_item_def item_for_def)
  have "list_all2 (well_formed_item ms secret) (zip ms vs) (map2 (item_for (descriptor_name u)) ms vs)"
    by (rule list_all2_map2I [OF reads_length [OF vs]]) (rule item)
  moreover have "om_namespace (sec_meta y) = om_namespace (rs_meta rs) \<and> gm_wf (sec_StringData y) \<and>
      (\<forall>k. gm_get (sec_StringData y) k \<noteq> None \<longleftrightarrow> (\<exists>m\<in>set ms. sm_InSecret m \<and> sm_Key m = k))" if y: "secret = Some y" for y
  proof -
    from secret y obtain x where x: "sec = Some x" "y = x\<lparr>sec_meta := (sec_meta x)\<lparr>om_namespace := ns\<rparr>\<rparr>"
      by (cases sec) simp_all
    with keys [OF x(1)] some [OF x(1)] ns show ?thesis by simp
  qed
  ultimately have "well_formed_service ms vs rs secret"
    unfolding well_formed_service_def sed using none secret by simp
  with vs reads_length [OF vs] show ?thesis by blast
qed

text \<open>A secret endpoint value reads as what was registered.\<close>

lemma registered_secret_read:
  assumes "kube_store api objs"
    and "run_state (updateRegisteredService api (k_self cp) rs secret) s1 = (es, s2)" and "\<forall>e\<in>set es. e = None"
    and "secret = Some (x\<lparr>sec_meta := (sec_meta x)\<lparr>om_namespace := ns\<rparr>\<rparr>)"
    and "sec_meta x = new_meta '''' (descriptor_name u)" and "gm_wf (sec_StringData x)"
    and "gm_get (sec_StringData x) (sm_Key m) = Some v"
    and "\<forall>x. objs s2 (k_self cp) KSecret (ns, descriptor_name u) = Some (OSecret x) \<longrightarrow> sec_StringData x = []"
    and "sm_InSecret m" and "sed_value_in objs (k_self cp) ns s2 (item_for (descriptor_name u) m v) w"
  shows "w = v"
proof -
  let ?x = "x\<lparr>sec_meta := (sec_meta x)\<lparr>om_namespace := ns\<rparr>\<rparr>"
  have k: "obj_key (OSecret ?x) = (ns, descriptor_name u)" by (simp add: obj_key_def meta_key_def assms(5))
  from kube_store.updateRegisteredService_ok(2) [OF assms(1-3), of "\<lambda>_. True" ?x] assms(4,6) k obtain y where
    y: "objs s2 (k_self cp) KSecret (ns, descriptor_name u) = Some y" "is_secret_with (sec_StringData x) y" by auto
  from stored_descriptor [OF y(2)] y(1) assms(7,8) obtain t where "y = OSecret t" "gm_get (sec_Data t) (sm_Key m) = Some v"
    by blast
  with assms(9,10) y(1) show ?thesis by (simp add: sed_value_in_def item_for_def)
qed

text \<open>C8: What the service agent reads is what a claim gets. Let the agent prepare the registered service of a
  resource from mappings with distinct keys, such that every item has a value or a reference, and write it with
  its descriptor to the namespace of the control plane without an error (the stored descriptor holding no
  unmerged string data, as the API server keeps it). When the control plane then extracts all these keys into
  an empty secret and counts as many values as there are mappings, every key has the value that the agent read
  from the resource, and the stored service has the specification prepared.\<close>

theorem register_then_extract:
  assumes "kube_store api objs" and "kube_store cp objs"
    and "run_state (PrepareRegisteredService ae sc ms u ns) s = (Inr (rs, secret), s1)"
    and "run_state (updateRegisteredService api (k_self cp) rs secret) s1 = (es, s2)" and "\<forall>e\<in>set es. e = None"
    and "distinct (map sm_Key ms)"
    and "\<forall>i\<in>set (rssp_ServiceEndpointDefinition (rs_Spec rs)). sed_Value i \<noteq> '''' \<or> sed_ValueFromSecret i \<noteq> None"
    and "\<forall>x. objs s2 (k_self cp) KSecret (ns, descriptor_name u) = Some (OSecret x) \<longrightarrow> sec_StringData x = []"
    and "run_state (extractServiceEndpointDefinition cp ns rs (map sm_Key ms) dest) s2 = (Inr (n, dest'), s3)"
    and "sec_StringData dest = []" and "int (length ms) \<le> n"
  shows "\<exists>vs. reads ms vs s \<and> (\<forall>(m, v)\<in>set (zip ms vs). gm_get (sec_StringData dest') (sm_Key m) = Some v) \<and>
    (\<exists>r. objs s2 (k_self cp) KRegisteredService (ns, om_name (u_meta u)) = Some (ORegisteredService r) \<and> rs_Spec r = rs_Spec rs)"
proof -
  from PrepareRegisteredService_ok [OF assms(3)] obtain vs sec where vs: "reads ms vs s"
    and sed: "rssp_ServiceEndpointDefinition (rs_Spec rs) = map2 (item_for (descriptor_name u)) ms vs"
    and sec: "secret = map_option (\<lambda>s. s\<lparr>sec_meta := (sec_meta s)\<lparr>om_namespace := ns\<rparr>\<rparr>) sec"
    and l: "run_state (LookupServiceEndpointDescriptor ms u) s = (Inr (rssp_ServiceEndpointDefinition (rs_Spec rs), sec), s1)"
    and key: "meta_key (rs_meta rs) = (ns, om_name (u_meta u))" by blast
  from LookupServiceEndpointDescriptor_ok [OF l] obtain vs' where vs': "reads ms vs' s"
    and sed': "map2 (item_for (descriptor_name u)) ms vs = map2 (item_for (descriptor_name u)) ms vs'"
    and d: "\<forall>x. sec = Some x \<longrightarrow> sec_meta x = new_meta '''' (descriptor_name u) \<and> gm_wf (sec_StringData x) \<and>
       (distinct (map sm_Key ms) \<longrightarrow> (\<forall>(m, v)\<in>set (zip ms vs'). sm_InSecret m \<longrightarrow> gm_get (sec_StringData x) (sm_Key m) = Some v))"
    and none: "sec = None \<longleftrightarrow> (\<forall>m\<in>set ms. \<not> sm_InSecret m)"
    unfolding sed by blast
  note len = reads_length [OF vs']
  from assms(9,10) have "run_state (extract_loop cp ns (map sm_Key ms) (map2 (item_for (descriptor_name u)) ms vs') 0 []) s2 =
      (Inr (n, sec_StringData dest'), s3)"
    using sed sed' by (auto simp: extractServiceEndpointDefinition_def split: prod.splits sum.splits)
  from conjunct2 [OF kube_store.extract_loop_ok [OF assms(2) this]]
  have ex: "extracted (sed_value_in objs (k_self cp) ns s2) (map sm_Key ms) 0 [] (map2 (item_for (descriptor_name u)) ms vs') n
      (sec_StringData dest')" .
  have names: "map sed_Name (map2 (item_for (descriptor_name u)) ms vs') = map sm_Key ms"
    by (rule map2_item_for_names [OF len])
  have "gm_get (sec_StringData dest') (sm_Key m) = Some v" if z: "(m, v) \<in> set (zip ms vs')" for m v
  proof -
    from z have m: "m \<in> set ms" by (rule set_zip_leftD)
    from extracted_complete [OF ex] names assms(6,11) m have "sm_Key m \<in> fst ` set (sec_StringData dest')" by simp
    from gm_get_key [OF this] obtain w where w: "gm_get (sec_StringData dest') (sm_Key m) = Some w" ..
    from spec [OF spec [OF conjunct1 [OF ex [unfolded extracted_def]]], of "sm_Key m" w] w
    obtain i where i: "i \<in> set (map2 (item_for (descriptor_name u)) ms vs')" "sed_Name i = sm_Key m"
      and val: "sed_value_in objs (k_self cp) ns s2 i w" unfolding gm_get_Nil by blast
    from sed_of_key [OF assms(6) len z i] have im: "i = item_for (descriptor_name u) m v" .
    have "w = v"
    proof (cases "sm_InSecret m")
      case False
      from assms(7) i(1) have "sed_Value i \<noteq> '''' \<or> sed_ValueFromSecret i \<noteq> None" unfolding sed sed' by (rule bspec)
      with im False have "sed_Value i \<noteq> ''''" by (simp add: item_for_def)
      with val im False show ?thesis by (simp add: sed_value_in_def item_for_def)
    next
      case True
      with none m obtain x where x: "sec = Some x" by auto
      with d True assms(6) z have dx: "sec_meta x = new_meta '''' (descriptor_name u)" "gm_wf (sec_StringData x)"
        "gm_get (sec_StringData x) (sm_Key m) = Some v" by auto
      from sec x have "secret = Some (x\<lparr>sec_meta := (sec_meta x)\<lparr>om_namespace := ns\<rparr>\<rparr>)" by simp
      from registered_secret_read [OF assms(1,4,5) this dx assms(8) True val [unfolded im]] show ?thesis .
    qed
    with w show ?thesis by simp
  qed
  moreover from kube_store.updateRegisteredService_ok(1) [OF assms(1) assms(4,5), of "\<lambda>sp. sp = rs_Spec rs"] key
  have "\<exists>r. objs s2 (k_self cp) KRegisteredService (ns, om_name (u_meta u)) = Some (ORegisteredService r) \<and> rs_Spec r = rs_Spec rs"
    by (simp add: obj_key_def)
  ultimately show ?thesis using vs' by blast
qed

lemma extract_loop_panics:
  "\<exists>sed\<in>set seds. sed_Value sed = '''' \<and> sed_ValueFromSecret sed = None \<Longrightarrow>
     fst (run_state (extract_loop api ns keys seds n d) s) = Inl nil_deref"
proof (induction seds arbitrary: n d s)
  case (Cons x seds)
  show ?case
  proof (cases "sed_Value x = '''' \<and> sed_ValueFromSecret x = None")
    case False
    with Cons.prems have "\<exists>sed\<in>set seds. sed_Value sed = '''' \<and> sed_ValueFromSecret sed = None" by auto
    note ih = Cons.IH [OF this]
    show ?thesis
    proof (cases "sed_Value x = ''''")
      case empty: True
      with False obtain r where "sed_ValueFromSecret x = Some r" by auto
      with empty ih show ?thesis by (auto split: prod.splits sum.splits)
    qed (simp add: ih)
  qed simp
qed simp

text \<open>An endpoint value that is not secret and empty in the resource makes the control plane panic: the agent
  writes it as an item with neither a value nor a secret, and every extraction from the registered
  service dereferences the missing secret reference.\<close>

theorem empty_value_panics:
  assumes "run_state (PrepareRegisteredService ae sc ms u ns) s = (Inr (rs, secret), s1)"
    and "reads ms vs s" and "(m, '''') \<in> set (zip ms vs)" and "\<not> sm_InSecret m"
    and "rs_Spec rs' = rs_Spec rs"
  shows "fst (run_state (extractServiceEndpointDefinition cp ns' rs' keys dest) t) = Inl nil_deref"
proof -
  from PrepareRegisteredService_ok [OF assms(1)] obtain vs' where v: "reads ms vs' s"
    and sed: "rssp_ServiceEndpointDefinition (rs_Spec rs) = map2 (item_for (descriptor_name u)) ms vs'" by blast
  from reads_unique [OF v assms(2)] have "vs' = vs" .
  with sed assms(3,5) have "item_for (descriptor_name u) m '''' \<in> set (rssp_ServiceEndpointDefinition (rs_Spec rs'))"
    by (metis (no_types, lifting) case_prod_conv image_eqI set_map)
  with assms(4) have "\<exists>i\<in>set (rssp_ServiceEndpointDefinition (rs_Spec rs')). sed_Value i = '''' \<and> sed_ValueFromSecret i = None"
    by (intro bexI [of _ "item_for (descriptor_name u) m ''''"]) (simp_all add: item_for_def)
  note panics = extract_loop_panics [OF this]
  obtain r t' where r: "run_state (extract_loop cp ns' keys (rssp_ServiceEndpointDefinition (rs_Spec rs')) 0 (sec_StringData dest)) t = (r, t')"
    by fastforce
  with panics have "r = Inl nil_deref" by (metis fst_conv)
  with r show ?thesis by (simp add: extractServiceEndpointDefinition_def)
qed

subsection \<open>Instances\<close>

definition pg_mappings :: "mem SEDMapping list" where
  "pg_mappings = projr (ServiceEndpointDefinitionMapping content_path svc_api orders_db (db_class False))"

abbreviation control_api :: "mem kube" where
  "control_api \<equiv> mem_api [] 1"

definition blank_secret :: Secret where
  "blank_secret = \<lparr>sec_meta = new_meta ''control'' ''claim'', sec_Data = [], sec_StringData = []\<rparr>"

definition blank_db :: Unstructured where
  "blank_db = orders_db\<lparr>u_content := ''''\<rparr>"

definition prepared_orders :: "(err + RegisteredService \<times> Secret option) \<times> mem" where
  "prepared_orders = run_state (PrepareRegisteredService svc_agent (db_class False) pg_mappings orders_db ''control'') (svc_state False [])"

definition blank_orders :: "(err + RegisteredService \<times> Secret option) \<times> mem" where
  "blank_orders = run_state (PrepareRegisteredService svc_agent (db_class False)
     (projr (ServiceEndpointDefinitionMapping content_path svc_api blank_db (db_class False))) blank_db ''control'') (svc_state False [])"

theorem register_then_extract_witness:
  "\<exists>rs secret s1 s2 dest s3 vs. prepared_orders = (Inr (rs, secret), s1) \<and>
     run_state (updateRegisteredService svc_api 1 rs secret) s1 = ([None, None], s2) \<and>
     run_state (extractServiceEndpointDefinition control_api ''control'' rs [''host'', ''password''] blank_secret) s2 = (Inr (2, dest), s3) \<and>
     reads pg_mappings vs (svc_state False []) \<and>
     (\<forall>(m, v)\<in>set (zip pg_mappings vs). gm_get (sec_StringData dest) (sm_Key m) = Some v)"
proof -
  define rs where "rs = fst (projr (fst prepared_orders))"
  define secret where "secret = snd (projr (fst prepared_orders))"
  define s1 where "s1 = snd prepared_orders"
  define s2 where "s2 = snd (run_state (updateRegisteredService svc_api 1 rs secret) s1)"
  define out where "out = run_state (extractServiceEndpointDefinition control_api ''control'' rs [''host'', ''password''] blank_secret) s2"
  have "isl (fst prepared_orders) = False" by code_simp
  then have p: "prepared_orders = (Inr (rs, secret), s1)"
    unfolding rs_def secret_def s1_def by (metis prod.collapse sum.collapse(2))
  then have p': "run_state (PrepareRegisteredService svc_agent (db_class False) pg_mappings orders_db ''control'') (svc_state False []) =
      (Inr (rs, secret), s1)" by (simp add: prepared_orders_def)
  have "fst (run_state (updateRegisteredService svc_api 1 rs secret) s1) = [None, None]"
    unfolding rs_def secret_def s1_def by code_simp
  then have u: "run_state (updateRegisteredService svc_api (k_self control_api) rs secret) s1 = ([None, None], s2)"
    unfolding s2_def by (simp add: prod_eq_iff)
  have "case fst out of Inr (n, _) \<Rightarrow> n = 2 | Inl _ \<Rightarrow> False"
    unfolding out_def s2_def rs_def secret_def s1_def by code_simp
  then obtain dest s3 where out: "out = (Inr (2, dest), s3)" by (cases out) (auto split: sum.splits)
  have keys: "map sm_Key pg_mappings = [''host'', ''password'']" and n: "length pg_mappings = 2" by code_simp+
  from out have x: "run_state (extractServiceEndpointDefinition control_api ''control'' rs (map sm_Key pg_mappings) blank_secret) s2 =
      (Inr (2, dest), s3)" unfolding out_def keys .
  have d: "distinct (map sm_Key pg_mappings)" unfolding keys by simp
  have v: "\<forall>i\<in>set (rssp_ServiceEndpointDefinition (rs_Spec rs)). sed_Value i \<noteq> '''' \<or> sed_ValueFromSecret i \<noteq> None"
    unfolding rs_def by code_simp
  have "case mem_objs s2 1 KSecret (''control'', descriptor_name orders_db) of Some (OSecret x) \<Rightarrow> sec_StringData x = [] | _ \<Rightarrow> True"
    unfolding s2_def rs_def secret_def s1_def by code_simp
  then have m: "\<forall>x. mem_objs s2 (k_self control_api) KSecret (''control'', descriptor_name orders_db) = Some (OSecret x) \<longrightarrow>
      sec_StringData x = []" by auto
  have e: "\<forall>e\<in>set [None, None :: err option]. e = None" "sec_StringData blank_secret = []" "int (length pg_mappings) \<le> 2"
    using n by (simp_all add: blank_secret_def)
  from register_then_extract [OF mem.kube_store_axioms mem.kube_store_axioms, OF p' u e(1) d v m x e(2,3)]
  obtain vs where "reads pg_mappings vs (svc_state False [])"
    "\<forall>(m, v)\<in>set (zip pg_mappings vs). gm_get (sec_StringData dest) (sm_Key m) = Some v" by blast
  moreover have "run_state (updateRegisteredService svc_api 1 rs secret) s1 = ([None, None], s2)"
    using u by simp
  moreover have "run_state (extractServiceEndpointDefinition control_api ''control'' rs [''host'', ''password''] blank_secret) s2 =
      (Inr (2, dest), s3)" using out unfolding out_def .
  ultimately show ?thesis using p by blast
qed

theorem PrepareRegisteredService_well_formed_witness:
  "\<exists>vs rs secret s1. prepared_orders = (Inr (rs, Some secret), s1) \<and>
     well_formed_service pg_mappings vs rs (Some secret) \<and> gm_get (sec_StringData secret) ''password'' \<noteq> None"
proof -
  have "case fst prepared_orders of Inr (rs, Some x) \<Rightarrow> gm_get (sec_StringData x) ''password'' \<noteq> None | _ \<Rightarrow> False"
    by code_simp
  then obtain rs secret where p: "fst prepared_orders = Inr (rs, Some secret)" "gm_get (sec_StringData secret) ''password'' \<noteq> None"
    by (auto split: sum.splits prod.splits option.splits)
  then have r: "prepared_orders = (Inr (rs, Some secret), snd prepared_orders)" by (metis prod.collapse)
  from PrepareRegisteredService_well_formed [OF r [unfolded prepared_orders_def]] p(2) r show ?thesis by blast
qed

theorem empty_value_panics_witness:
  "\<exists>rs secret s1. blank_orders = (Inr (rs, secret), s1) \<and>
     fst (run_state (extractServiceEndpointDefinition control_api ''control'' rs [''password''] blank_secret) s1) = Inl nil_deref"
proof -
  let ?ms = "projr (ServiceEndpointDefinitionMapping content_path svc_api blank_db (db_class False)) :: mem SEDMapping list"
  define rs where "rs = fst (projr (fst blank_orders))"
  define secret where "secret = snd (projr (fst blank_orders))"
  have "isl (fst blank_orders) = False" by code_simp
  then have p: "blank_orders = (Inr (rs, secret), snd blank_orders)"
    unfolding rs_def secret_def by (metis prod.collapse sum.collapse(2))
  then have p': "run_state (PrepareRegisteredService svc_agent (db_class False) ?ms blank_db ''control'') (svc_state False []) =
      (Inr (rs, secret), snd blank_orders)" by (simp add: blank_orders_def)
  have r: "reads ?ms ['''', ''''] (svc_state False [])" by code_simp
  have m: "(hd ?ms, '''') \<in> set (zip ?ms ['''', ''''])"
  proof -
    have "length ?ms = 2" by code_simp
    then obtain a b where "?ms = [a, b]" by (auto simp: numeral_2_eq_2 length_Suc_conv)
    then show ?thesis by simp
  qed
  have c: "\<not> sm_InSecret (hd ?ms)" by code_simp
  from p empty_value_panics [OF p' r m c refl] show ?thesis by (intro exI conjI)
qed


end
