(* ===== verification/ServiceClaim_Exclusive.thy ===== *)
theory ServiceClaim_Exclusive
  imports ServiceClaim_Correct
begin

section \<open>A service is bound to at most one claim\<close>

text \<open>
  The invariant of the service claim controller: every resolved claim of the control plane's namespace
  names a registered service that is claimed, and no two resolved claims name the same one. The
  lemmas say what each step of a reconciliation does to the references of the claims; the properties
  say that every sequence of reconciliations keeps the invariant, whatever the API server answers,
  and that the deletion of a claim breaks it when the services that match the claim belong to other claims.
\<close>

subsection \<open>The invariant\<close>


text \<open>The service a resolved claim refers to; \<open>None\<close> when the claim is not resolved.\<close>

definition resolved_ref :: "ServiceClaim \<Rightarrow> string option option" where
  "resolved_ref sc =
     (if scst_State (sc_Status sc) = ClaimResolved
      then Some (map_option ref_Name (scst_RegisteredService (sc_Status sc))) else None)"

fun claim_ref :: "obj option \<Rightarrow> string option option" where
  "claim_ref (Some (OServiceClaim sc)) = resolved_ref sc"
| "claim_ref _ = None"

definition is_claimed :: "obj option \<Rightarrow> bool" where
  "is_claimed x = (\<exists>rs. x = Some (ORegisteredService rs) \<and> rs_State rs = RSClaimed)"

definition exclusive :: "cluster \<Rightarrow> string \<Rightarrow> objects \<Rightarrow> bool" where
  "exclusive c ns f =
     ((\<forall>n x. claim_ref (f c KServiceClaim (ns, n)) = Some x \<longrightarrow>
         (\<exists>w. x = Some w \<and> is_claimed (f c KRegisteredService (ns, w)))) \<and>
      (\<forall>n m x. claim_ref (f c KServiceClaim (ns, n)) = Some x \<and>
         claim_ref (f c KServiceClaim (ns, m)) = Some x \<longrightarrow> n = m))"

text \<open>\<open>claims_but c ns n f g\<close>: of the claims of the namespace at most \<open>n\<close> differs.\<close>

definition claims_but :: "cluster \<Rightarrow> string \<Rightarrow> string \<Rightarrow> objects \<Rightarrow> objects \<Rightarrow> bool" where
  "claims_but c ns n f g = (\<forall>m. m \<noteq> n \<longrightarrow> g c KServiceClaim (ns, m) = f c KServiceClaim (ns, m))"

definition same_services :: "cluster \<Rightarrow> string \<Rightarrow> objects \<Rightarrow> objects \<Rightarrow> bool" where
  "same_services c ns f g = (\<forall>w. g c KRegisteredService (ns, w) = f c KRegisteredService (ns, w))"

lemma claims_but_trans: "claims_but c ns n f g \<Longrightarrow> claims_but c ns n g h \<Longrightarrow> claims_but c ns n f h"
  by (simp add: claims_but_def)

lemma same_services_trans: "same_services c ns f g \<Longrightarrow> same_services c ns g h \<Longrightarrow> same_services c ns f h"
  by (simp add: same_services_def)

lemma same_services_kinds:
  "same_but (of_kinds K) (objs s) (objs s') \<Longrightarrow> KRegisteredService \<notin> K \<Longrightarrow> same_services c ns (objs s) (objs s')"
  by (simp add: same_services_def same_but_of_kinds)

text \<open>A claim that takes a service nobody else refers to, or none, keeps the invariant.\<close>

lemma exclusive_claim:
  assumes "exclusive c ns f" and "same_services c ns f g" and "claims_but c ns n f g"
    and "claim_ref (g c KServiceClaim (ns, n)) \<in> {None, claim_ref (f c KServiceClaim (ns, n))} \<or>
      (\<exists>w. claim_ref (g c KServiceClaim (ns, n)) = Some (Some w) \<and> is_claimed (f c KRegisteredService (ns, w)) \<and>
        (\<forall>m. m \<noteq> n \<longrightarrow> claim_ref (f c KServiceClaim (ns, m)) \<noteq> Some (Some w)))"
  shows "exclusive c ns g"
proof -
  have other: "claim_ref (g c KServiceClaim (ns, m)) = claim_ref (f c KServiceClaim (ns, m))" if "m \<noteq> n" for m
    using that assms(3) by (simp add: claims_but_def)
  have sv: "is_claimed (g c KRegisteredService (ns, w)) = is_claimed (f c KRegisteredService (ns, w))" for w
    using assms(2) by (simp add: same_services_def)
  show ?thesis
    unfolding exclusive_def
  proof (intro conjI allI impI)
    fix m x
    assume "claim_ref (g c KServiceClaim (ns, m)) = Some x"
    then show "\<exists>w. x = Some w \<and> is_claimed (g c KRegisteredService (ns, w))"
      using assms(1,4) other [of m] unfolding sv exclusive_def by (cases "m = n") auto
  next
    fix m k x
    assume a: "claim_ref (g c KServiceClaim (ns, m)) = Some x \<and> claim_ref (g c KServiceClaim (ns, k)) = Some x"
    show "m = k"
    proof (cases "m = n \<or> k = n")
      case False
      with a other assms(1) show ?thesis unfolding exclusive_def by metis
    next
      case True
      with a assms(1,4) other show ?thesis unfolding exclusive_def
        by (elim disjE) (metis insertE option.distinct(1) option.inject singletonD)+
    qed
  qed
qed

text \<open>So does a service that becomes claimed, or that nobody refers to.\<close>

lemma exclusive_service:
  assumes "exclusive c ns f" and "\<And>n. g c KServiceClaim (ns, n) = f c KServiceClaim (ns, n)"
    and "\<And>v. v \<noteq> w \<Longrightarrow> g c KRegisteredService (ns, v) = f c KRegisteredService (ns, v)"
    and "g c KRegisteredService (ns, w) = f c KRegisteredService (ns, w) \<or>
      is_claimed (g c KRegisteredService (ns, w)) \<or> (\<forall>n. claim_ref (f c KServiceClaim (ns, n)) \<noteq> Some (Some w))"
  shows "exclusive c ns g"
  unfolding exclusive_def assms(2)
proof (intro conjI allI impI)
  fix n x
  assume x: "claim_ref (f c KServiceClaim (ns, n)) = Some x"
  with assms(1) obtain v where v: "x = Some v" "is_claimed (f c KRegisteredService (ns, v))"
    unfolding exclusive_def by blast
  with x assms(3) [of v] assms(4) show "\<exists>w. x = Some w \<and> is_claimed (g c KRegisteredService (ns, w))"
    by (cases "v = w") auto
next
  fix n m x
  assume "claim_ref (f c KServiceClaim (ns, n)) = Some x \<and> claim_ref (f c KServiceClaim (ns, m)) = Some x"
  with assms(1) show "n = m" unfolding exclusive_def by blast
qed

lemma exclusive_held:
  "exclusive c ns f \<Longrightarrow> claim_ref (f c KServiceClaim (ns, n)) = Some (Some w) \<Longrightarrow>
     is_claimed (f c KRegisteredService (ns, w))"
  unfolding exclusive_def by blast

lemma exclusive_unheld:
  "exclusive c ns f \<Longrightarrow> \<not> is_claimed (f c KRegisteredService (ns, w)) \<Longrightarrow>
     claim_ref (f c KServiceClaim (ns, n)) \<noteq> Some (Some w)"
  using exclusive_held by blast

subsection \<open>The writes of a claim's status\<close>

text \<open>
  \<open>sets_ref c ns n x f g\<close>: the step writes claim \<open>n\<close> at most, leaves the services, and the claim refers
  to what it did before or to \<open>x\<close>.
\<close>

definition sets_ref :: "cluster \<Rightarrow> string \<Rightarrow> string \<Rightarrow> string option option \<Rightarrow> objects \<Rightarrow> objects \<Rightarrow> bool" where
  "sets_ref c ns n x f g = (claims_but c ns n f g \<and> same_services c ns f g \<and>
     claim_ref (g c KServiceClaim (ns, n)) \<in> {x, claim_ref (f c KServiceClaim (ns, n))})"

lemma sets_ref_refl [simp]: "sets_ref c ns n x f f"
  by (simp add: sets_ref_def claims_but_def same_services_def)

lemma sets_ref_trans: "sets_ref c ns n x f g \<Longrightarrow> sets_ref c ns n x g h \<Longrightarrow> sets_ref c ns n x f h"
  unfolding sets_ref_def by (auto intro: claims_but_trans same_services_trans)

lemma sets_ref_settled:
  "sets_ref c ns n x f g \<Longrightarrow> claim_ref (f c KServiceClaim (ns, n)) = x \<Longrightarrow> claim_ref (g c KServiceClaim (ns, n)) = x"
  by (simp add: sets_ref_def)

lemma exclusive_sets_none: "exclusive c ns f \<Longrightarrow> sets_ref c ns n None f g \<Longrightarrow> exclusive c ns g"
  by (rule exclusive_claim) (auto simp: sets_ref_def)

lemma exclusive_sets_held:
  assumes "exclusive c ns f" and "sets_ref c ns n (Some (Some w)) f g"
    and "is_claimed (f c KRegisteredService (ns, w))"
    and "\<And>m. m \<noteq> n \<Longrightarrow> claim_ref (f c KServiceClaim (ns, m)) \<noteq> Some (Some w)"
  shows "exclusive c ns g"
  by (rule exclusive_claim [OF assms(1)]) (use assms in \<open>auto simp: sets_ref_def\<close>)


lemma claim_ref_set_version [simp]: "claim_ref (Some (set_version v x)) = claim_ref (Some x)"
  by (cases x) (simp_all add: set_version_def resolved_ref_def)

lemma claim_ref_copy_status:
  "claim_ref (Some (copy_status (OServiceClaim sc) old)) = (case old of OServiceClaim _ \<Rightarrow> resolved_ref sc | _ \<Rightarrow> claim_ref (Some old))"
  by (cases old) (simp_all add: resolved_ref_def)

lemma claim_ref_written:
  "obj_kind old = KServiceClaim \<Longrightarrow> claim_ref (Some (written old v (OServiceClaim sc))) = claim_ref (Some old)"
  by (cases old) (simp_all add: written_def keep_server_fields_def resolved_ref_def)

context kube_store
begin

lemma claims_but_write:
  assumes "same_but {(c', KServiceClaim, (ns', n))} (objs s) (objs s')"
  shows "claims_but c ns n (objs s) (objs s')" and "same_services c ns (objs s) (objs s')"
  using assms by (simp_all add: same_but_def claims_but_def same_services_def)

text \<open>A status update of a claim, whatever the server answers, in any cluster.\<close>

lemma sets_ref_status:
  assumes "run_state (k_status_update api c' (OServiceClaim sc)) s = (r, s')"
    and "om_name (sc_meta sc) = n"
  shows "sets_ref c ns n (resolved_ref sc) (objs s) (objs s')"
proof -
  let ?key = "meta_key (sc_meta sc)"
  have key: "?key = (om_namespace (sc_meta sc), n)" using assms(2) by (simp add: meta_key_def)
  have others: "same_but {(c', KServiceClaim, ?key)} (objs s) (objs s')"
    using status_others [OF assms(1)] by (simp add: obj_key_def)
  have "objs s' c' KServiceClaim ?key = objs s c' KServiceClaim ?key \<or>
      claim_ref (objs s' c' KServiceClaim ?key) = resolved_ref sc"
  proof -
    have copied: "claim_ref (Some (set_version v (copy_status (OServiceClaim sc) old))) = resolved_ref sc"
      if "objs s c' KServiceClaim ?key = Some old" for old v
    proof -
      from keyed [OF that] obtain x where "old = OServiceClaim x" by (cases old) auto
      then show ?thesis by (simp add: claim_ref_copy_status del: copy_status.simps)
    qed
    show ?thesis
    proof (cases r)
      case (Inl e)
      from status_failed [OF assms(1) [unfolded Inl]] copied show ?thesis by (auto simp: obj_key_def)
    next
      case (Inr y)
      from status_ok [OF assms(1) [unfolded Inr]] copied show ?thesis by (auto simp: obj_key_def)
    qed
  qed
  moreover have "objs s' c KServiceClaim (ns, n) = objs s c KServiceClaim (ns, n)"
    if "c \<noteq> c' \<or> ns \<noteq> om_namespace (sc_meta sc)"
    using others that key by (auto simp: same_but_def)
  ultimately have "claim_ref (objs s' c KServiceClaim (ns, n)) \<in> {resolved_ref sc, claim_ref (objs s c KServiceClaim (ns, n))}"
    unfolding key by (metis insertCI)
  with claims_but_write [OF others [unfolded key]] show ?thesis by (simp add: sets_ref_def)
qed

lemma sets_ref_status_ok:
  assumes "run_state (k_status_update api c (OServiceClaim sc)) s = (Inr y, s')" and "meta_key (sc_meta sc) = (ns, n)"
  shows "claim_ref (objs s' c KServiceClaim (ns, n)) = resolved_ref sc"
proof -
  from status_ok [OF assms(1)] assms(2) obtain old v where old: "objs s c KServiceClaim (ns, n) = Some old"
    and st: "objs s' c KServiceClaim (ns, n) = Some (set_version v (copy_status (OServiceClaim sc) old))"
    by (auto simp: obj_key_def)
  from keyed [OF old] obtain x where "old = OServiceClaim x" by (cases old) auto
  with st show ?thesis by (simp add: claim_ref_copy_status del: copy_status.simps)
qed

text \<open>An update of a claim leaves its status.\<close>

lemma sets_ref_update:
  assumes "run_state (k_update api c (OServiceClaim sc)) s = (r, s')" and "meta_key (sc_meta sc) = (ns, n)"
  shows "sets_ref c ns n None (objs s) (objs s')"
proof -
  have others: "same_but {(c, KServiceClaim, (ns, n))} (objs s) (objs s')"
    using update_others [OF assms(1)] assms(2) by (simp add: obj_key_def)
  have kept: "claim_ref (Some (written old v (OServiceClaim sc))) = claim_ref (objs s c KServiceClaim (ns, n))"
    if "objs s c KServiceClaim (ns, n) = Some old" for old v
    using keyed [OF that] that by (simp add: claim_ref_written)
  have "claim_ref (objs s' c KServiceClaim (ns, n)) \<in> {None, claim_ref (objs s c KServiceClaim (ns, n))}"
  proof (cases r)
    case (Inl e)
    from update_failed [OF assms(1) [unfolded Inl]] kept assms(2) show ?thesis by (auto simp: obj_key_def split: if_splits)
  next
    case (Inr y)
    from update_ok [OF assms(1) [unfolded Inr]] kept assms(2) show ?thesis by (auto simp: obj_key_def split: if_splits)
  qed
  with claims_but_write [OF others] show ?thesis by (simp add: sets_ref_def)
qed

lemma sets_ref_updateRemote:
  assumes "run_state (updateRemoteServiceClaimStatusIfNeeded api sc) s = (r, s')"
    and "om_name (sc_meta sc) = n"
  shows "sets_ref c ns n (resolved_ref sc) (objs s) (objs s')"
proof (rule updateRemote_cases [OF assms(1)])
  assume "objs s' = objs s"
  then show ?thesis by simp
next
  fix cli rsc q s1 assume s1: "objs s1 = objs s" "om_name (sc_meta rsc) = om_name (sc_meta sc)"
    and u: "run_state (k_status_update api cli (OServiceClaim (told_claim sc rsc))) s1 = (q, s')"
  have "resolved_ref (told_claim sc rsc) = resolved_ref sc" "om_name (sc_meta (told_claim sc rsc)) = n"
    using s1 assms(2) by (simp_all add: resolved_ref_def told_claim_def)
  with sets_ref_status [OF u, of n c ns] s1 show ?thesis by simp
qed

lemma sets_ref_updateStatus:
  assumes "run_state (updateServiceClaimStatus api sc) s = ((u, sc'), s')" and "meta_key (sc_meta sc) = (ns, n)"
  shows "sets_ref (k_self api) ns n (resolved_ref sc) (objs s) (objs s') \<and>
    (u = None \<longrightarrow> claim_ref (objs s' (k_self api) KServiceClaim (ns, n)) = resolved_ref sc \<and>
       meta_key (sc_meta sc') = (ns, n))"
proof -
  have name: "om_name (sc_meta sc) = n" using assms(2) by (simp add: meta_key_def)
  obtain w s1 where w: "run_state (k_status_update api (k_self api) (OServiceClaim sc)) s = (w, s1)" by fastforce
  note one = sets_ref_status [OF w name, of "k_self api" ns]
  show ?thesis
  proof (cases w)
    case (Inl e)
    with assms(1) w have "u \<noteq> None" "s' = s1" by (auto simp: updateServiceClaimStatus_def write_claim_def)
    with one show ?thesis by auto
  next
    case (Inr y)
    let ?sc1 = "as_claim sc y"
    from Inr w have wc: "run_state (write_claim (k_status_update api (k_self api)) sc) s = ((None, ?sc1), s1)"
      by (simp add: write_claim_def)
    from status_claim_ok [OF wc] assms(2) have st: "sc_Status ?sc1 = sc_Status sc" "meta_key (sc_meta ?sc1) = (ns, n)" by auto
    then have same: "resolved_ref ?sc1 = resolved_ref sc" "om_name (sc_meta ?sc1) = n"
      by (simp_all add: resolved_ref_def meta_key_def)
    obtain q where q: "run_state (updateRemoteServiceClaimStatusIfNeeded api ?sc1) s1 = (q, s')" and out: "sc' = ?sc1"
      using assms(1) wc by (auto simp: updateServiceClaimStatus_def split: prod.splits)
    note two = sets_ref_updateRemote [OF q same(2), of "k_self api" ns, unfolded same(1)]
    from sets_ref_status_ok [OF w [unfolded Inr] assms(2)] sets_ref_settled [OF two] out st(2)
      sets_ref_trans [OF one two] show ?thesis by simp
  qed
qed

lemma resolved_ref_with_service [simp]:
  "resolved_ref (with_service st rs sc) = (if st = ClaimResolved then Some (Some (om_name (rs_meta rs))) else None)"
  by (simp add: resolved_ref_def with_service_def)

lemma with_service_meta [simp]: "sc_meta (with_service st rs sc) = sc_meta sc"
  by (simp add: with_service_def)

text \<open>A change of a service's state writes that service only, and what it writes has that state.\<close>

lemma changeServiceState_exclusive:
  assumes "run_state (changeServiceState api rs st) s = (r, s')" and "meta_key (rs_meta rs) = (ns, w)"
    and "exclusive (k_self api) ns (objs s)"
    and "st = RSClaimed \<or> (\<forall>n. claim_ref (objs s (k_self api) KServiceClaim (ns, n)) \<noteq> Some (Some w))"
  shows "exclusive (k_self api) ns (objs s')"
proof -
  have "modifies objs {(k_self api, KRegisteredService, (ns, w))} (changeServiceState api rs st)"
    by (intro frame_intros) (simp add: assms(2))
  note others = modifies_run [OF this assms(1)]
  show ?thesis
  proof (rule exclusive_service [OF assms(3), of "objs s'" w])
    show "objs s' (k_self api) KServiceClaim (ns, n) = objs s (k_self api) KServiceClaim (ns, n)" for n
      using others by (simp add: same_but_def)
    show "objs s' (k_self api) KRegisteredService (ns, v) = objs s (k_self api) KRegisteredService (ns, v)"
      if "v \<noteq> w" for v
      using others that by (simp add: same_but_def)
    show "objs s' (k_self api) KRegisteredService (ns, w) = objs s (k_self api) KRegisteredService (ns, w) \<or>
      is_claimed (objs s' (k_self api) KRegisteredService (ns, w)) \<or>
      (\<forall>n. claim_ref (objs s (k_self api) KServiceClaim (ns, n)) \<noteq> Some (Some w))"
      using assms(4)
    proof
      assume st: "st = RSClaimed"
      show ?thesis
      proof (cases "objs s (k_self api) KRegisteredService (ns, w)")
        case None
        obtain q where "run_state (k_status_update api (k_self api) (ORegisteredService (rs\<lparr>rs_State := st\<rparr>))) s = (q, s')"
          using assms(1) by (auto simp: changeServiceState_def split: prod.splits)
        with status_failed status_ok None assms(2) show ?thesis by (cases q) (fastforce simp: obj_key_def)+
      next
        case (Some old)
        from keyed [OF Some] obtain x where x: "old = ORegisteredService x" by (cases old) auto
        from changeServiceState_cases [OF assms(1), of x] Some x assms(2) st show ?thesis
          by (auto simp: is_claimed_def)
      qed
    qed blast
  qed
qed

lemma changeServiceState_claimed:
  assumes "run_state (changeServiceState api rs RSClaimed) s = (None, s')" and "meta_key (rs_meta rs) = (ns, w)"
    and "objs s (k_self api) KRegisteredService (ns, w) = Some (ORegisteredService old)"
  shows "is_claimed (objs s' (k_self api) KRegisteredService (ns, w))"
  using changeServiceState_ok [OF assms(1), of old] assms(2,3) by (auto simp: is_claimed_def)

end


subsection \<open>Every reconciliation keeps the invariant\<close>

context kube_store
begin

text \<open>Binding a claim to a service that no other claim refers to.\<close>

lemma bind_claim_exclusive:
  assumes run: "run_state (bind_claim api h sc rs secret) s = (r, s')"
    and key: "meta_key (sc_meta sc) = (ns, n)" "meta_key (rs_meta rs) = (ns, w)"
    and stored: "objs s (k_self api) KRegisteredService (ns, w) = Some (ORegisteredService old)"
    and inv: "exclusive (k_self api) ns (objs s)"
    and free: "\<forall>m. m \<noteq> n \<longrightarrow> claim_ref (objs s (k_self api) KServiceClaim (ns, m)) \<noteq> Some (Some w)"
  shows "exclusive (k_self api) ns (objs s')"
proof (rule bind_claim_cases [OF run])
  let ?c = "k_self api"
  fix u sc1 s1 c s2 p s3
  assume r1: "run_state (updateServiceClaimStatus api (with_service ClaimPending rs sc)) s = ((u, sc1), s1)"
    and r2: "run_state (changeServiceState api rs RSClaimed) s1 = (c, s2)"
    and r3: "run_state (pushToClusterEnvironments api (with_service ClaimResolved rs sc1) secret) s2 = (p, s3)"
    and stop: "u \<noteq> None \<and> s' = s1 \<or> u = None \<and> c \<noteq> None \<and> s' = s2 \<or> u = None \<and> c = None \<and> p \<noteq> None \<and> s' = s3 \<or>
     u = None \<and> c = None \<and> p \<noteq> None \<and> (\<exists>q. run_state (changeServiceState api rs RSAvailable) s3 = (q, s')) \<or>
     u = None \<and> c = None \<and> p = None \<and>
       (\<exists>v sc2. run_state (updateServiceClaimStatus api (with_service ClaimResolved rs sc1)) s3 = ((v, sc2), s'))"
  have name: "om_name (rs_meta rs) = w" using key(2) by (simp add: meta_key_def)
  from sets_ref_updateStatus [OF r1, of ns n] key(1) have one: "sets_ref ?c ns n None (objs s) (objs s1)"
    and pending: "u = None \<Longrightarrow> claim_ref (objs s1 ?c KServiceClaim (ns, n)) = None \<and> meta_key (sc_meta sc1) = (ns, n)"
    by auto
  from inv one have inv1: "exclusive ?c ns (objs s1)" by (rule exclusive_sets_none)
  from one stored free have stored1: "objs s1 ?c KRegisteredService (ns, w) = Some (ORegisteredService old)"
    and free1: "\<forall>m. m \<noteq> n \<longrightarrow> claim_ref (objs s1 ?c KServiceClaim (ns, m)) \<noteq> Some (Some w)"
    by (simp_all add: sets_ref_def same_services_def claims_but_def)
  have inv2: "exclusive ?c ns (objs s2)"
    by (rule changeServiceState_exclusive [OF r2 key(2) inv1]) simp
  have "modifies objs {(?c, KRegisteredService, (ns, w))} (changeServiceState api rs RSClaimed)"
    by (intro frame_intros) (simp add: key(2))
  from modifies_run [OF this r2] modifies_run [OF modifies_pushToClusterEnvironments r3]
  have claims3: "objs s3 ?c KServiceClaim (ns, m) = objs s1 ?c KServiceClaim (ns, m)"
    and services3: "objs s3 ?c KRegisteredService (ns, v) = objs s2 ?c KRegisteredService (ns, v)"
    and claims23: "objs s3 ?c KServiceClaim (ns, m) = objs s2 ?c KServiceClaim (ns, m)" for m v
    by (simp_all add: same_but_def of_kinds_def)
  have inv3: "exclusive ?c ns (objs s3)"
    by (rule exclusive_claim [OF inv2, of _ n]) (simp_all add: same_services_def claims_but_def services3 claims23)
  have reverted: "exclusive ?c ns (objs s')"
    if "u = None" "run_state (changeServiceState api rs RSAvailable) s3 = (q, s')" for q
  proof -
    have "claim_ref (objs s3 ?c KServiceClaim (ns, m)) \<noteq> Some (Some w)" for m
      using free1 pending that(1) claims3 by (cases "m = n") auto
    then show ?thesis by (intro changeServiceState_exclusive [OF that(2) key(2) inv3]) simp
  qed
  have resolved: "exclusive ?c ns (objs s')"
    if "u = None" "c = None" "run_state (updateServiceClaimStatus api (with_service ClaimResolved rs sc1)) s3 = ((v, sc2), s')" for v sc2
  proof -
    from sets_ref_updateStatus [OF that(3), of ns n] pending that(1) name
    have set: "sets_ref ?c ns n (Some (Some w)) (objs s3) (objs s')" by auto
    have "is_claimed (objs s3 ?c KRegisteredService (ns, w))"
      using changeServiceState_claimed [OF r2 [unfolded that(2)] key(2) stored1] by (simp add: services3)
    moreover have "claim_ref (objs s3 ?c KServiceClaim (ns, m)) \<noteq> Some (Some w)" if "m \<noteq> n" for m
      using free1 that claims3 by simp
    ultimately show ?thesis by (intro exclusive_sets_held [OF inv3 set])
  qed
  from stop inv1 inv2 inv3 reverted resolved show ?thesis by (elim disjE conjE exE) simp_all
qed

lemma reject_claim_exclusive:
  assumes "run_state (reject_claim api sc msg) s = (r, s')" and "meta_key (sc_meta sc) = (ns, n)"
    and "exclusive (k_self api) ns (objs s)"
  shows "exclusive (k_self api) ns (objs s')"
proof -
  obtain now s1 where now: "run_state (k_now api) s = (now, s1)" by fastforce
  let ?sc = "sc\<lparr>sc_Status := (sc_Status sc)\<lparr>scst_Conditions := SetStatusCondition now
      \<lparr>co_type = ''Ready'', co_status = CondFalse, co_observedGeneration = 0, co_lastTransitionTime = now,
       co_reason = ''NoMatchingServiceFound'', co_message = msg\<rparr> (scst_Conditions (sc_Status sc)), scst_State := ClaimPending\<rparr>\<rparr>"
  from assms(1) now obtain u sc' where "run_state (updateServiceClaimStatus api ?sc) s1 = ((u, sc'), s')"
    by (auto simp: reject_claim_def Let_def split: prod.splits option.splits)
  from conjunct1 [OF sets_ref_updateStatus [OF this, of ns n]] assms(2) now_reads [OF now]
  have "sets_ref (k_self api) ns n None (objs s) (objs s')" by (simp add: resolved_ref_def)
  with assms(3) show ?thesis by (rule exclusive_sets_none)
qed

end


context kube_store
begin

lemma processServiceClaim_exclusive:
  assumes run: "run_state (processServiceClaim api rsl sc) s = (r, s')"
    and key: "meta_key (sc_meta sc) = (ns, n)"
    and rsl: "\<And>rs. rs \<in> set rsl \<Longrightarrow> om_namespace (rs_meta rs) = ns \<and>
      objs s (k_self api) KRegisteredService (meta_key (rs_meta rs)) = Some (ORegisteredService rs)"
    and inv: "exclusive (k_self api) ns (objs s)"
  shows "exclusive (k_self api) ns (objs s')"
  using run
proof (cases rule: processServiceClaim_steps)
  case failed
  with inv show ?thesis by simp
next
  case (rejected msg s1)
  from reject_claim_exclusive [OF rejected(2) key] inv rejected(1) show ?thesis by simp
next
  case (bound env rs k secret s1 s2)
  from rsl [OF bound(2)] have rk: "meta_key (rs_meta rs) = (ns, om_name (rs_meta rs))" by (simp add: meta_key_def)
  with rsl [OF bound(2)] bound(6)
  have st: "objs s2 (k_self api) KRegisteredService (ns, om_name (rs_meta rs)) = Some (ORegisteredService rs)" by simp
  with bound(3) have "\<not> is_claimed (objs s2 (k_self api) KRegisteredService (ns, om_name (rs_meta rs)))"
    by (simp add: is_claimed_def)
  with exclusive_unheld inv bound(6)
  have "\<forall>m. m \<noteq> n \<longrightarrow> claim_ref (objs s2 (k_self api) KServiceClaim (ns, m)) \<noteq> Some (Some (om_name (rs_meta rs)))"
    by metis
  from bind_claim_exclusive [OF bound(9) key rk st _ this] inv bound(6) show ?thesis by simp
qed

lemma modifies_getServiceEndpointDefinition [frame_intros]:
  "modifies objs K (getServiceEndpointDefinition api sc rs)"
  unfolding getServiceEndpointDefinition_def by (auto intro!: frame_intros split: sum.split)

lemma processResolvedServiceClaim_exclusive:
  assumes run: "run_state (processResolvedServiceClaim api sc) s = (r, s')"
    and key: "meta_key (sc_meta sc) = (ns, n)" and stored: "claim_stored objs (k_self api) s sc"
    and resolved: "scst_State (sc_Status sc) = ClaimResolved"
    and inv: "exclusive (k_self api) ns (objs s)"
  shows "exclusive (k_self api) ns (objs s')"
proof (cases "scst_RegisteredService (sc_Status sc)")
  case None
  with run inv show ?thesis by (simp add: processResolvedServiceClaim_def)
next
  case (Some ref)
  have held: "claim_ref (objs s (k_self api) KServiceClaim (ns, n)) = Some (Some (ref_Name ref))"
    using stored resolved Some key by (simp add: claim_stored_def resolved_ref_def)
  obtain g s1 where g: "run_state (get_service api (k_self api) (om_namespace (sc_meta sc), ref_Name ref)) s = (g, s1)"
    by fastforce
  have s1: "objs s1 = objs s" by (rule reads_only [OF modifies_get_service g])
  show ?thesis
  proof (cases g)
    case (Inl e)
    with run Some g s1 inv show ?thesis by (simp add: processResolvedServiceClaim_def)
  next
    case rs: (Inr rs)
    obtain d s2 where d: "run_state (getServiceEndpointDefinition api sc rs) s1 = (d, s2)" by fastforce
    have s2: "objs s2 = objs s" using reads_only [OF modifies_getServiceEndpointDefinition d] s1 by simp
    show ?thesis
    proof (cases d)
      case (Inl e)
      with run Some g rs d s2 inv show ?thesis by (simp add: processResolvedServiceClaim_def)
    next
      case (Inr secret)
      with run Some g rs d have b: "run_state (bind_claim api Some sc rs secret) s2 = (r, s')"
        by (simp add: processResolvedServiceClaim_def)
      have ns: "om_namespace (sc_meta sc) = ns" using key by (simp add: meta_key_def)
      from get_service_found [OF g [unfolded rs]] ns
      have st: "objs s (k_self api) KRegisteredService (ns, ref_Name ref) = Some (ORegisteredService rs)" by simp
      from keyed [OF st] have rk: "meta_key (rs_meta rs) = (ns, ref_Name ref)" by (simp add: obj_key_def)
      from inv held have "\<forall>m. m \<noteq> n \<longrightarrow> claim_ref (objs s (k_self api) KServiceClaim (ns, m)) \<noteq> Some (Some (ref_Name ref))"
        unfolding exclusive_def by blast
      with bind_claim_exclusive [OF b key rk] st s2 inv show ?thesis by simp
    qed
  qed
qed

lemma list_in_namespace:
  assumes "run_state (k_list api c k ns sel) s = (Inr xs, s')" and "ns \<noteq> ''''" and "x \<in> set xs"
  shows "fst (obj_key x) = ns"
proof -
  from conjunct2 [OF list_found [OF assms(1)]] assms(3) obtain n where
    "objs s c k n = Some x" "ns = '''' \<or> fst n = ns" by blast
  with keyed [OF this(1)] assms(2) show ?thesis by simp
qed

lemma processClaim_exclusive:
  assumes run: "run_state (processClaim api ns sc) s = (r, s')" and ns: "ns \<noteq> ''''"
    and key: "meta_key (sc_meta sc) = (ns, n)" and inv: "exclusive (k_self api) ns (objs s)"
  shows "exclusive (k_self api) ns (objs s')"
proof -
  obtain l s1 where l: "run_state (k_list api (k_self api) KRegisteredService ns []) s = (l, s1)" by fastforce
  have s1: "objs s1 = objs s" by (rule list_reads [OF l])
  show ?thesis
  proof (cases "map_items services_of l")
    case (Inl e)
    with run l s1 inv show ?thesis by (simp add: processClaim_def)
  next
    case (Inr rsl)
    with run l have p: "run_state (processServiceClaim api rsl sc) s1 = (r, s')" by (simp add: processClaim_def)
    have rsl: "om_namespace (rs_meta rs) = ns \<and>
        objs s1 (k_self api) KRegisteredService (meta_key (rs_meta rs)) = Some (ORegisteredService rs)"
      if "rs \<in> set rsl" for rs
    proof
      from Inr obtain xs where xs: "l = Inr xs" "rsl = services_of xs" by (cases l) (auto simp: map_items_def)
      with that services_of_in have "ORegisteredService rs \<in> set xs" by blast
      from list_in_namespace [OF l [unfolded xs(1)] ns this] show "om_namespace (rs_meta rs) = ns"
        by (simp add: obj_key_def meta_key_def)
      from list_services(2) [OF l Inr that] s1
      show "objs s1 (k_self api) KRegisteredService (meta_key (rs_meta rs)) = Some (ORegisteredService rs)" by simp
    qed
    from processServiceClaim_exclusive [OF p key rsl] inv s1 show ?thesis by simp
  qed
qed

lemma ensure_finalizer_exclusive:
  assumes "run_state (ensure_finalizer api sc) s = ((f, sc'), s')" and "meta_key (sc_meta sc) = (ns, n)"
    and "exclusive (k_self api) ns (objs s)"
  shows "exclusive (k_self api) ns (objs s')"
proof (cases "fst (AddFinalizer (sc_meta sc) ServiceClaimFinalizer)")
  case True
  then have a: "AddFinalizer (sc_meta sc) ServiceClaimFinalizer =
      (True, (sc_meta sc)\<lparr>om_finalizers := om_finalizers (sc_meta sc) @ [ServiceClaimFinalizer]\<rparr>)"
    by (auto simp: AddFinalizer_def split: if_splits)
  with assms(1) obtain r where "run_state (k_update api (k_self api) (OServiceClaim
      (sc\<lparr>sc_meta := (sc_meta sc)\<lparr>om_finalizers := om_finalizers (sc_meta sc) @ [ServiceClaimFinalizer]\<rparr>\<rparr>))) s = (r, s')"
    by (auto simp: ensure_finalizer_def write_claim_def split: prod.splits)
  from sets_ref_update [OF this, of ns n] assms(2) have "sets_ref (k_self api) ns n None (objs s) (objs s')"
    by (simp add: meta_key_def)
  with assms(3) show ?thesis by (rule exclusive_sets_none)
next
  case False
  with assms show ?thesis by (cases "AddFinalizer (sc_meta sc) ServiceClaimFinalizer") (simp add: ensure_finalizer_def)
qed

lemma ensure_initialized_exclusive:
  assumes "run_state (ensureServiceClaimIsInitialized api sc) s = ((i, sc'), s')" and "meta_key (sc_meta sc) = (ns, n)"
    and "exclusive (k_self api) ns (objs s)"
  shows "exclusive (k_self api) ns (objs s')"
proof (cases "scst_ClaimID (sc_Status sc) = ''''")
  case False
  with assms show ?thesis by (simp add: ensureServiceClaimIsInitialized_def)
next
  case True
  obtain u s1 where u: "run_state (k_uuid api) s = (u, s1)" by fastforce
  let ?sc = "sc\<lparr>sc_Status := (sc_Status sc)\<lparr>scst_ClaimID := u, scst_State := ClaimPending\<rparr>\<rparr>"
  from assms(1) True u obtain r where "run_state (k_status_update api (k_self api) (OServiceClaim ?sc)) s1 = (r, s')"
    by (auto simp: ensureServiceClaimIsInitialized_def write_claim_def split: prod.splits)
  from sets_ref_status [OF this, of n "k_self api" ns] assms(2) uuid_reads [OF u]
  have "sets_ref (k_self api) ns n None (objs s) (objs s')" by (simp add: resolved_ref_def meta_key_def)
  with assms(3) show ?thesis by (rule exclusive_sets_none)
qed

text \<open>A reconciliation of a claim that is not being deleted, whatever it returns.\<close>

lemma ReconcileClaim_exclusive:
  assumes run: "run_state (ReconcileClaim api (ns, n)) s = (r, s')" and ns: "ns \<noteq> ''''"
    and live: "\<And>sc. objs s (k_self api) KServiceClaim (ns, n) = Some (OServiceClaim sc) \<Longrightarrow> \<not> om_deletion (sc_meta sc)"
    and inv: "exclusive (k_self api) ns (objs s)"
  shows "exclusive (k_self api) ns (objs s')"
proof (cases "objs s (k_self api) KServiceClaim (ns, n)")
  case None
  obtain g s1 where g: "run_state (get_claim api (k_self api) (ns, n)) s = (g, s1)" by (metis prod.collapse)
  have s1: "objs s1 = objs s" by (rule reads_only [OF modifies_get_claim g])
  from get_claim_found g None obtain e where "g = Inl e" by (cases g) fastforce+
  with run g s1 inv show ?thesis by (simp add: ReconcileClaim_def)
next
  case (Some x)
  from keyed [OF Some] obtain sc where x: "x = OServiceClaim sc" by (cases x) auto
  note st = Some [unfolded x]
  from keyed [OF st] have key: "meta_key (sc_meta sc) = (ns, n)" by (simp add: obj_key_def)
  show ?thesis
    using run st live [OF st]
  proof (cases rule: ReconcileClaim_steps)
    case get_failed
    with inv show ?thesis by simp
  next
    case (finalizer_failed e s1 sc1)
    from ensure_finalizer_exclusive [OF finalizer_failed(3) key] inv finalizer_failed(2) show ?thesis by simp
  next
    case (init_failed e s1 sc1 s2 sc2)
    from ensure_finalizer_exclusive [OF init_failed(3) key] inv init_failed(2)
    have "exclusive (k_self api) ns (objs s2)" by simp
    from ensure_initialized_exclusive [OF init_failed(6) init_failed(5) this] show ?thesis .
  next
    case (prepared s1 sc1 s2 sc2 s3)
    from ensure_finalizer_exclusive [OF prepared(2) key] inv prepared(1)
    have "exclusive (k_self api) ns (objs s2)" by simp
    from ensure_initialized_exclusive [OF prepared(7) prepared(4) this] have inv3: "exclusive (k_self api) ns (objs s3)" .
    show ?thesis
    proof (cases "scst_State (sc_Status sc2) = ClaimResolved")
      case True
      with prepared(11) processResolvedServiceClaim_exclusive [OF _ prepared(9,8) True inv3] show ?thesis by simp
    next
      case False
      with prepared(11) processClaim_exclusive [OF _ ns prepared(9) inv3] show ?thesis by simp
    qed
  qed
qed

end


subsection \<open>Histories\<close>

text \<open>
  What happens in the control plane's namespace: reconciliations of claims that are not being
  deleted, with any outcome, and steps of anybody else (users creating claims and services, the
  other controllers) that resolve no claim and take no service away.
\<close>

definition keeps_bindings :: "cluster \<Rightarrow> string \<Rightarrow> objects \<Rightarrow> objects \<Rightarrow> bool" where
  "keeps_bindings c ns f g =
     ((\<forall>n. claim_ref (g c KServiceClaim (ns, n)) \<in> {None, claim_ref (f c KServiceClaim (ns, n))}) \<and>
      (\<forall>w. is_claimed (f c KRegisteredService (ns, w)) \<longrightarrow> is_claimed (g c KRegisteredService (ns, w))))"

inductive claims_reach ::
  "'s kube \<Rightarrow> ('s \<Rightarrow> objects) \<Rightarrow> string \<Rightarrow> 's \<Rightarrow> 's \<Rightarrow> bool" for api objs ns s where
  start: "claims_reach api objs ns s s"
| reconciled: "claims_reach api objs ns s t \<Longrightarrow>
    \<forall>sc. objs t (k_self api) KServiceClaim (ns, n) = Some (OServiceClaim sc) \<longrightarrow> \<not> om_deletion (sc_meta sc) \<Longrightarrow>
    run_state (ReconcileClaim api (ns, n)) t = (r, u) \<Longrightarrow> claims_reach api objs ns s u"
| others: "claims_reach api objs ns s t \<Longrightarrow> keeps_bindings (k_self api) ns (objs t) (objs u) \<Longrightarrow>
    claims_reach api objs ns s u"

inductive_cases claims_reachE: "claims_reach api objs ns s u"

lemma exclusive_keeps_bindings:
  assumes "exclusive c ns f" and "keeps_bindings c ns f g"
  shows "exclusive c ns g"
  unfolding exclusive_def
proof (intro conjI allI impI)
  have old: "claim_ref (f c KServiceClaim (ns, n)) = Some x"
    if "claim_ref (g c KServiceClaim (ns, n)) = Some x" for n x
    using that assms(2) unfolding keeps_bindings_def by (metis insertE option.distinct(1) singletonD)
  show "\<exists>w. x = Some w \<and> is_claimed (g c KRegisteredService (ns, w))"
    if "claim_ref (g c KServiceClaim (ns, n)) = Some x" for n x
    using old [OF that] assms unfolding exclusive_def keeps_bindings_def by blast
  show "n = m" if x: "claim_ref (g c KServiceClaim (ns, n)) = Some x \<and> claim_ref (g c KServiceClaim (ns, m)) = Some x" for n m x
  proof -
    from old [OF conjunct1 [OF x]] old [OF conjunct2 [OF x]] assms(1) show ?thesis
      unfolding exclusive_def by metis
  qed
qed

text \<open>C1: In a state of a named namespace where every resolved claim names a claimed registered service and no two
  name the same one, this stays so: however many claims are reconciled, in whatever order and with whatever
  errors of the API servers, as long as no claim that is reconciled is being deleted, and whatever others do in
  between that resolves no claim, changes the service of none and takes no service's claimed mark away.\<close>

theorem claims_stay_exclusive:
  assumes "kube_store api objs" and "ns \<noteq> ''''" and "claims_reach api objs ns s u"
    and "exclusive (k_self api) ns (objs s)"
  shows "exclusive (k_self api) ns (objs u)"
  using assms(3)
proof (induction rule: claims_reach.induct)
  case start
  show ?case by (rule assms(4))
next
  case (reconciled t n r u)
  show ?case
  proof (rule kube_store.ReconcileClaim_exclusive [OF assms(1), OF reconciled(3) assms(2)])
    show "\<not> om_deletion (sc_meta sc)" if "objs t (k_self api) KServiceClaim (ns, n) = Some (OServiceClaim sc)" for sc
      using reconciled(2) that by blast
  qed (rule reconciled.IH)
next
  case (others t u)
  from others.IH others(2) show ?case by (rule exclusive_keeps_bindings)
qed

subsection \<open>Instances\<close>

definition second_claim :: ServiceClaim where
  "second_claim = (claim_of ''second'' prod_target)
     \<lparr>sc_Status := \<lparr>scst_State = ClaimResolved, scst_ClaimID = ''id2'',
        scst_RegisteredService = Some \<lparr>ref_Name = ''db1'', ref_UID = ''u-db1''\<rparr>, scst_Conditions = []\<rparr>\<rparr>"

definition two_claims :: mem where
  "two_claims = mem_of [(0, OServiceClaim bound_claim), (0, OServiceClaim second_claim),
     (0, ORegisteredService (db_service ''db1'' RSClaimed)), (0, ORegisteredService (db_service ''db2'' RSClaimed))]"

text \<open>In a state with finitely many objects the invariant is a property of the claims among them.\<close>

lemma exclusive_mem:
  assumes "\<And>n x. claim_ref (mem_objs s c KServiceClaim (ns, n)) = Some x \<Longrightarrow> (n, x) \<in> set refs"
    and "distinct (map snd refs)" and "distinct (map fst refs)"
    and "\<And>x. x \<in> snd ` set refs \<Longrightarrow> \<exists>w. x = Some w \<and> is_claimed (mem_objs s c KRegisteredService (ns, w))"
  shows "exclusive c ns (mem_objs s)"
  unfolding exclusive_def
proof (intro conjI allI impI)
  show "\<exists>w. x = Some w \<and> is_claimed (mem_objs s c KRegisteredService (ns, w))"
    if "claim_ref (mem_objs s c KServiceClaim (ns, n)) = Some x" for n x
    using assms(1) [OF that] assms(4) by force
  show "n = m" if "claim_ref (mem_objs s c KServiceClaim (ns, n)) = Some x \<and> claim_ref (mem_objs s c KServiceClaim (ns, m)) = Some x" for n m x
    using that assms(1,2) by (metis distinct_map inj_onD prod.inject snd_conv)
qed

lemma claim_ref_in_mem:
  "claim_ref (mem_objs s c KServiceClaim (ns, n)) = Some x \<Longrightarrow>
     \<exists>sc. (c, OServiceClaim sc) \<in> set (m_objs s) \<and> meta_key (sc_meta sc) = (ns, n) \<and> resolved_ref sc = Some x"
proof -
  assume a: "claim_ref (mem_objs s c KServiceClaim (ns, n)) = Some x"
  then obtain y where y: "mem_objs s c KServiceClaim (ns, n) = Some y" by (cases "mem_objs s c KServiceClaim (ns, n)") auto
  from mem_objs_keyed [OF y] obtain sc where "y = OServiceClaim sc" "meta_key (sc_meta sc) = (ns, n)"
    by (cases y) (auto simp: obj_key_def)
  with mem_objs_in [OF y] a y show ?thesis by auto
qed

lemma two_claims_exclusive: "exclusive 0 ''sys'' (mem_objs two_claims)"
proof (rule exclusive_mem [where refs = "[(''claim'', Some ''db2''), (''second'', Some ''db1'')]"])
  show "(n, x) \<in> set [(''claim'', Some ''db2''), (''second'', Some ''db1'')]"
    if "claim_ref (mem_objs two_claims 0 KServiceClaim (''sys'', n)) = Some x" for n x
    using claim_ref_in_mem [OF that]
    by (auto simp: two_claims_def mem_of_def resolved_ref_def bound_claim_def second_claim_def claim_of_def meta_key_def)
  have c: "is_claimed (mem_objs two_claims 0 KRegisteredService (''sys'', ''db1''))"
    "is_claimed (mem_objs two_claims 0 KRegisteredService (''sys'', ''db2''))"
  proof -
    have "mem_objs two_claims 0 KRegisteredService (''sys'', ''db1'') = Some (ORegisteredService (db_service ''db1'' RSClaimed))"
      "mem_objs two_claims 0 KRegisteredService (''sys'', ''db2'') = Some (ORegisteredService (db_service ''db2'' RSClaimed))"
      by code_simp+
    then show "is_claimed (mem_objs two_claims 0 KRegisteredService (''sys'', ''db1''))"
      "is_claimed (mem_objs two_claims 0 KRegisteredService (''sys'', ''db2''))"
      by (simp_all add: is_claimed_def db_service_def)
  qed
  show "\<exists>w. x = Some w \<and> is_claimed (mem_objs two_claims 0 KRegisteredService (''sys'', w))"
    if "x \<in> snd ` set [(''claim'', Some ''db2''), (''second'', Some ''db1'')]" for x
    using that c by auto
qed simp_all

theorem claims_stay_exclusive_witness:
  "\<exists>u. claims_reach (mem_api [] 0) mem_objs ''sys'' two_claims u \<and>
     run_state (ReconcileClaim (mem_api [] 0) (''sys'', ''second'')) two_claims = (None, u) \<and>
     exclusive 0 ''sys'' (mem_objs u)"
proof -
  let ?api = "mem_api [] 0"
  define u where "u = snd (run_state (ReconcileClaim ?api (''sys'', ''second'')) two_claims)"
  have "case fst (run_state (ReconcileClaim ?api (''sys'', ''second'')) two_claims) of None \<Rightarrow> True | Some _ \<Rightarrow> False" by code_simp
  then have run: "run_state (ReconcileClaim ?api (''sys'', ''second'')) two_claims = (None, u)"
    unfolding u_def by (auto simp: prod_eq_iff split: option.splits)
  have "mem_objs two_claims 0 KServiceClaim (''sys'', ''second'') = Some (OServiceClaim second_claim)" by code_simp
  then have live: "\<forall>sc. mem_objs two_claims (k_self ?api) KServiceClaim (''sys'', ''second'') = Some (OServiceClaim sc) \<longrightarrow>
      \<not> om_deletion (sc_meta sc)"
    by (simp add: second_claim_def claim_of_def new_meta_def)
  have reach: "claims_reach ?api mem_objs ''sys'' two_claims u"
    using claims_reach.reconciled [where api = ?api and objs = mem_objs and n = "''second''" and r = None,
        OF claims_reach.start, OF live, OF run] .
  have ex: "exclusive (k_self ?api) ''sys'' (mem_objs two_claims)" using two_claims_exclusive by simp
  from claims_stay_exclusive [OF mem.kube_store_axioms, OF _ reach ex] reach run show ?thesis by auto
qed

subsection \<open>What a deletion does to the invariant\<close>

text \<open>A list that holds the services of a namespace has a first match when one of them matches.\<close>

lemma first_listed_match:
  assumes "listed_services f c ns items" and "ns \<noteq> ''''"
    and "f c KRegisteredService (ns, w) = Some (ORegisteredService rs)" and "deletion_match sc rs"
  obtains rs1 k where "find (deletion_match sc) items = Some rs1" "deletion_match sc rs1"
    "f c KRegisteredService (ns, k) = Some (ORegisteredService rs1)"
proof (cases "find (deletion_match sc) items")
  case None
  from assms(1,3) have "rs \<in> set items" by (auto simp: listed_services_def intro!: exI [of _ "(ns, w)"])
  with None assms(4) have False by (auto simp: find_None_iff)
  then show ?thesis ..
next
  case (Some rs1)
  from find_Some_in [OF Some] find_Some_holds [OF Some] assms(1,2) that Some show ?thesis
    by (fastforce simp: listed_services_def)
qed

text \<open>C37: Deletion breaks the exclusive binding of services: let a claim be marked for deletion, with its
  finalizer, and reconciled without an error (in any state of the API server, whatever the claim itself
  is bound to, pending claims included), let some registered service of its namespace match it, and let
  every matching service be the one that another resolved claim of the namespace names. Then after the
  reconciliation one of those services is available again while another claim is still resolved with
  it, so that the exclusive binding does not hold.\<close>

theorem deletion_takes_service_away:
  assumes "kube_store api objs"
    and "run_state (ReconcileClaim api (ns, n)) s = (None, s')"
    and "objs s (k_self api) KServiceClaim (ns, n) = Some (OServiceClaim sc)"
    and "om_deletion (sc_meta sc)" and "ServiceClaimFinalizer \<in> set (om_finalizers (sc_meta sc))"
    and "ns \<noteq> ''''"
    and "objs s (k_self api) KRegisteredService (ns, w) = Some (ORegisteredService rs)" and "deletion_match sc rs"
    and "\<And>w rs. objs s (k_self api) KRegisteredService (ns, w) = Some (ORegisteredService rs) \<Longrightarrow> deletion_match sc rs \<Longrightarrow>
      \<exists>m. m \<noteq> n \<and> claim_ref (objs s (k_self api) KServiceClaim (ns, m)) = Some (Some w)"
  shows "(\<exists>w rs m. objs s' (k_self api) KRegisteredService (ns, w) = Some (ORegisteredService rs) \<and>
      rs_State rs = RSAvailable \<and> deletion_match sc rs \<and>
      m \<noteq> n \<and> claim_ref (objs s' (k_self api) KServiceClaim (ns, m)) = Some (Some w)) \<and>
    \<not> exclusive (k_self api) ns (objs s')"
proof -
  note del = reconciled_deletion [OF assms(1-5)]
  from first_listed_match [OF conjunct1 [OF conjunct2 [OF conjunct2 [OF del]]] assms(6-8)]
  obtain rs1 k where first: "find (deletion_match sc) (deletion_list api (ns, n) s) = Some rs1" "deletion_match sc rs1"
    and at: "objs s (k_self api) KRegisteredService (ns, k) = Some (ORegisteredService rs1)" .
  from kube_store.keyed [OF assms(1), OF at] have key: "meta_key (rs_meta rs1) = (ns, k)" by (simp add: obj_key_def)
  from del first(1) key obtain v where
    rs': "objs s' (k_self api) KRegisteredService (ns, k) = Some (ORegisteredService
      (rs1\<lparr>rs_meta := (rs_meta rs1)\<lparr>om_resourceVersion := v\<rparr>, rs_State := RSAvailable\<rparr>))"
    by (auto simp: released_def)
  have match: "deletion_match sc (rs1\<lparr>rs_meta := m, rs_State := st\<rparr>)" for m st
    using first(2) by (simp add: deletion_match_def)
  from assms(9) [OF at first(2)] obtain m where
    m: "m \<noteq> n" "claim_ref (objs s (k_self api) KServiceClaim (ns, m)) = Some (Some k)" by blast
  with del have ref: "claim_ref (objs s' (k_self api) KServiceClaim (ns, m)) = Some (Some k)" by simp
  from rs' have "\<not> is_claimed (objs s' (k_self api) KRegisteredService (ns, k))" by (simp add: is_claimed_def)
  with ref have "\<not> exclusive (k_self api) ns (objs s')" using exclusive_held by blast
  with rs' match m(1) ref show ?thesis
    by (intro conjI exI [of _ k] exI [of _ m] exI) (assumption | simp)+
qed

text \<open>A claim that never got a service is deleted: the service of another claim is available again.\<close>

definition pending_claim :: ServiceClaim where
  "pending_claim = bound_claim\<lparr>sc_Status :=
     \<lparr>scst_State = ClaimPending, scst_ClaimID = '''', scst_RegisteredService = None, scst_Conditions = []\<rparr>\<rparr>"

definition pending_deleted :: mem where
  "pending_deleted = mem_of [(0, OServiceClaim pending_claim), (0, OServiceClaim second_claim),
     (0, ORegisteredService (db_service ''db1'' RSClaimed))]"

theorem deletion_takes_service_away_witness:
  "exclusive 0 ''sys'' (mem_objs pending_deleted) \<and>
   (\<exists>u. run_state (ReconcileClaim (mem_api [] 0) (''sys'', ''claim'')) pending_deleted = (None, u) \<and>
      \<not> exclusive 0 ''sys'' (mem_objs u))"
proof
  let ?api = "mem_api [] 0" and ?s = pending_deleted and ?db = "db_service ''db1'' RSClaimed"
  have st: "mem_objs ?s 0 KServiceClaim (''sys'', ''claim'') = Some (OServiceClaim pending_claim)"
    "mem_objs ?s 0 KRegisteredService (''sys'', ''db1'') = Some (ORegisteredService ?db)" by code_simp+
  have ref: "claim_ref (mem_objs ?s 0 KServiceClaim (''sys'', ''second'')) = Some (Some ''db1'')" by code_simp
  show "exclusive 0 ''sys'' (mem_objs ?s)"
  proof (rule exclusive_mem [where refs = "[(''second'', Some ''db1'')]"])
    show "(n, x) \<in> set [(''second'', Some ''db1'')]" if "claim_ref (mem_objs ?s 0 KServiceClaim (''sys'', n)) = Some x" for n x
      using claim_ref_in_mem [OF that]
      by (auto simp: pending_deleted_def mem_of_def resolved_ref_def pending_claim_def bound_claim_def second_claim_def
          claim_of_def meta_key_def)
    show "\<exists>w. x = Some w \<and> is_claimed (mem_objs ?s 0 KRegisteredService (''sys'', w))"
      if "x \<in> snd ` set [(''second'', Some ''db1'')]" for x
      using that st(2) by (simp add: is_claimed_def db_service_def)
  qed simp_all
  have "fst (run_state (ReconcileClaim ?api (''sys'', ''claim'')) ?s) = None" by code_simp
  then obtain u where run: "run_state (ReconcileClaim ?api (''sys'', ''claim'')) ?s = (None, u)" by (metis prod.collapse)
  have props: "om_deletion (sc_meta pending_claim)" "ServiceClaimFinalizer \<in> set (om_finalizers (sc_meta pending_claim))"
    "''sys'' \<noteq> ''''" by (simp_all add: pending_claim_def bound_claim_def)
  have "checkSCISubset (scsp_ServiceClassIdentity (sc_Spec pending_claim)) (rssp_ServiceClassIdentity (rs_Spec ?db))"
    "Match (sct_EnvironmentTag prod_target) [''prod'']" by code_simp+
  then have match: "deletion_match pending_claim ?db"
    unfolding deletion_match_def checkSCISubset_iff [symmetric]
    by (simp add: db_service_def pending_claim_def bound_claim_def claim_of_def)
  have all: "\<exists>m. m \<noteq> ''claim'' \<and> claim_ref (mem_objs ?s (k_self ?api) KServiceClaim (''sys'', m)) = Some (Some w)"
    if "mem_objs ?s (k_self ?api) KRegisteredService (''sys'', w) = Some (ORegisteredService rs)" for w rs
  proof -
    from mem_objs_in [OF that] mem_objs_keyed [OF that] have "w = ''db1''"
      by (auto simp: pending_deleted_def mem_of_def db_service_def obj_key_def meta_key_def)
    with ref show ?thesis by (intro exI [of _ "''second''"]) simp
  qed
  have "\<not> exclusive (k_self ?api) ''sys'' (mem_objs u)"
    by (rule conjunct2 [OF deletion_takes_service_away [OF mem.kube_store_axioms, OF run _ props _ match]])
      (use st all in \<open>simp_all\<close>)
  with run show "\<exists>u. run_state (ReconcileClaim ?api (''sys'', ''claim'')) ?s = (None, u) \<and> \<not> exclusive 0 ''sys'' (mem_objs u)"
    by auto
qed

end
