(* ===== verification/ServiceClaim_Progress.thy ===== *)
theory ServiceClaim_Progress
  imports ServiceClaim_Correct Live_Api
begin

section \<open>A claim that can be served is served\<close>

text \<open>
  The other half of the correctness of the service claim controller: with servers that answer, a
  claim of an application for which an available service matches, all of whose matching services
  provide the requested keys, is resolved by one reconciliation, which returns no error. Each
  operation of a reconciliation has a lemma that says it succeeds on a store that answers
  (\<open>live_store\<close>), what it returns and what it leaves as it was.
\<close>

subsection \<open>What the steps rely on\<close>

text \<open>The clusters of the claim answer, its cluster environment leads to the application's cluster, and
  the claim of the application is there to be told the status.\<close>

definition served ::
  "'s kube \<Rightarrow> ('s \<Rightarrow> cluster \<Rightarrow> okind \<Rightarrow> nsname \<Rightarrow> obj option) \<Rightarrow> (cluster \<Rightarrow> 's \<Rightarrow> bool) \<Rightarrow>
     ServiceClaimApplicationClusterContext \<Rightarrow> nsname \<Rightarrow> ClusterEnvironment \<Rightarrow> cluster \<Rightarrow> 's \<Rightarrow> bool" where
  "served api objs up acc key ce cli s =
     (up (k_self api) s \<and> up cli s \<and>
      environment_client api (objs s) (fst key, acc_ClusterEnvironmentName acc) ce cli \<and>
      om_namespace (ce_meta ce) = fst key \<and>
      (\<exists>rc. objs s cli KServiceClaim (acc_Namespace acc, snd key) = Some (OServiceClaim rc)))"

text \<open>What a reconciliation writes: the claim and services in the control plane, the binding and the
  secret in the application's namespace.\<close>

definition written_by_claim :: "cluster \<Rightarrow> nsname \<Rightarrow> cluster \<Rightarrow> string \<Rightarrow> (cluster \<times> okind \<times> nsname) set" where
  "written_by_claim self key cli appns =
     {(self, KServiceClaim, key)} \<union> {(self, KRegisteredService, k) | k. True} \<union>
     {(cli, KServiceBinding, (appns, snd key)), (cli, KSecret, (appns, snd key))}"

definition same_up :: "(cluster \<Rightarrow> 's \<Rightarrow> bool) \<Rightarrow> 's \<Rightarrow> 's \<Rightarrow> bool" where
  "same_up up s s' = (\<forall>c. up c s \<longrightarrow> up c s')"

lemma same_up_refl [simp]: "same_up up s s"
  by (simp add: same_up_def)

lemma same_up_trans: "same_up up s t \<Longrightarrow> same_up up t u \<Longrightarrow> same_up up s u"
  by (simp add: same_up_def)

lemma same_upD: "same_up up s t \<Longrightarrow> up c s \<Longrightarrow> up c t"
  by (simp add: same_up_def)

lemma served_keeps:
  assumes "served api objs up acc key ce cli s" and "same_up up s s'"
    and "same_but (written_by_claim (k_self api) key cli (acc_Namespace acc)) (objs s) (objs s')"
    and "(cli, acc_Namespace acc) \<noteq> (k_self api, fst key)"
  shows "served api objs up acc key ce cli s'"
proof -
  have env: "objs s' (k_self api) KClusterEnvironment k = objs s (k_self api) KClusterEnvironment k" for k
    using assms(3) by (simp add: same_but_def written_by_claim_def)
  have ctx: "objs s' (k_self api) KSecret (fst key, m) = objs s (k_self api) KSecret (fst key, m)" for m
    using assms(3,4) by (auto simp: same_but_def written_by_claim_def)
  have rem: "objs s' cli KServiceClaim (acc_Namespace acc, snd key) = objs s cli KServiceClaim (acc_Namespace acc, snd key)"
    using assms(3,4) by (cases key) (auto simp: same_but_def written_by_claim_def)
  from assms(1,2) show ?thesis
    by (auto simp: served_def environment_client_def env ctx rem dest: same_upD)
qed

text \<open>Two states that differ at most in \<open>K\<close>, the second with at least the clusters of the first up.\<close>

definition moves ::
  "('s \<Rightarrow> cluster \<Rightarrow> okind \<Rightarrow> nsname \<Rightarrow> obj option) \<Rightarrow> (cluster \<Rightarrow> 's \<Rightarrow> bool) \<Rightarrow>
     (cluster \<times> okind \<times> nsname) set \<Rightarrow> 's \<Rightarrow> 's \<Rightarrow> bool" where
  "moves objs up K s s' = (same_but K (objs s) (objs s') \<and> same_up up s s')"

lemma moves_trans: "moves objs up K s t \<Longrightarrow> moves objs up K t u \<Longrightarrow> moves objs up K s u"
  unfolding moves_def by (blast intro: same_but_trans same_up_trans)

lemma moves_mono: "moves objs up K s t \<Longrightarrow> K \<subseteq> L \<Longrightarrow> moves objs up L s t"
  unfolding moves_def by (blast intro: same_but_mono)

lemma moves_up: "moves objs up K s t \<Longrightarrow> up c s \<Longrightarrow> up c t"
  by (simp add: moves_def same_up_def)

lemma moves_at: "moves objs up K s t \<Longrightarrow> (c, k, n) \<notin> K \<Longrightarrow> objs t c k n = objs s c k n"
  by (simp add: moves_def same_but_def)

lemma moves_reads: "moves objs up {} s t \<Longrightarrow> objs t = objs s"
  by (simp add: moves_def same_but_def fun_eq_iff)

lemma moves_refl [simp]: "moves objs up K s s"
  by (simp add: moves_def same_but_def)

context live_store
begin

lemma answered:
  assumes "run_state m s = (r, s')" and "modifies objs K m" and "steady up down m"
  shows "moves objs up K s s'"
  using modifies_run [OF assms(2,1)] steady_run(1) [OF assms(3,1)] by (simp add: moves_def same_up_def)

lemma get_answer:
  assumes "up c s" and "objs s c k n = Some x"
  shows "\<exists>s'. run_state (k_get api c k n) s = (Inr x, s') \<and> moves objs up {} s s'"
  using get_present [OF assms] answered [OF _ modifies_get steady_get] by blast

lemma get_claim_answer:
  assumes "up c s" and "objs s c KServiceClaim n = Some (OServiceClaim x)"
  shows "\<exists>s'. run_state (get_claim api c n) s = (Inr x, s') \<and> moves objs up {} s s'"
  using get_answer [OF assms] by (auto simp: get_claim_def)

lemma get_env_answer:
  assumes "up c s" and "objs s c KClusterEnvironment n = Some (OClusterEnvironment x)"
  shows "\<exists>s'. run_state (get_env api c n) s = (Inr x, s') \<and> moves objs up {} s s'"
  using get_answer [OF assms] by (auto simp: get_env_def)

lemma get_secret_answer:
  assumes "up c s" and "objs s c KSecret n = Some (OSecret x)"
  shows "\<exists>s'. run_state (get_secret api c n) s = (Inr x, s') \<and> moves objs up {} s s'"
  using get_answer [OF assms] by (auto simp: get_secret_def)

lemma get_binding_answer:
  assumes "up c s" and "objs s c KServiceBinding n = Some x"
  shows "\<exists>b s'. run_state (get_binding api c n) s = (Inr b, s') \<and> moves objs up {} s s'"
proof -
  from keyed [OF assms(2)] obtain b where "x = OServiceBinding b" by (cases x) auto
  with get_answer [OF assms] show ?thesis by (auto simp: get_binding_def)
qed

lemma list_answer:
  assumes "up c s"
  shows "\<exists>xs s'. run_state (k_list api c k ns sel) s = (Inr xs, s') \<and> moves objs up {} s s'"
proof -
  obtain l s' where l: "run_state (k_list api c k ns sel) s = (l, s')" by fastforce
  with list_answers [OF assms] obtain xs where "l = Inr xs" by (cases l) auto
  with l answered [OF l modifies_list steady_list] show ?thesis by blast
qed

lemma status_answer:
  assumes "up c s" and "objs s c (obj_kind x) (obj_key x) = Some old"
    and "om_resourceVersion (obj_meta x) = om_resourceVersion (obj_meta old)"
  shows "\<exists>v s'. run_state (k_status_update api c x) s = (Inr (set_version v (copy_status x old)), s') \<and>
    objs s' c (obj_kind x) (obj_key x) = Some (set_version v (copy_status x old)) \<and>
    moves objs up {(c, obj_kind x, obj_key x)} s s'"
  using status_present [OF assms(1,2)] assms(3) answered [OF _ modifies_status steady_status]
  by (auto simp: current_def)

lemma update_answer:
  assumes "up c s" and "objs s c (obj_kind x) (obj_key x) = Some old"
    and "om_resourceVersion (obj_meta x) = om_resourceVersion (obj_meta old)"
  shows "\<exists>y s'. run_state (k_update api c x) s = (Inr y, s') \<and> moves objs up {(c, obj_kind x, obj_key x)} s s'"
proof -
  obtain r s' where r: "run_state (k_update api c x) s = (r, s')" by fastforce
  with update_accepted [OF assms(1,2)] assms(3) obtain y where "r = Inr y"
    by (cases r) (auto simp: current_def)
  with r answered [OF r modifies_update steady_update] show ?thesis by blast
qed

lemma create_answer:
  assumes "up c s" and "objs s c (obj_kind x) (obj_key x) = None" and "om_resourceVersion (obj_meta x) = ''''"
  shows "\<exists>y s'. run_state (k_create api c x) s = (Inr y, s') \<and> moves objs up {(c, obj_kind x, obj_key x)} s s'"
proof -
  obtain r s' where r: "run_state (k_create api c x) s = (r, s')" by fastforce
  with create_accepted [OF assms] obtain y where "r = Inr y" by (cases r) auto
  with r answered [OF r modifies_create steady_create] show ?thesis by blast
qed

text \<open>\<^verbatim>\<open>CreateOrUpdate\<close> succeeds when the mutation does and keeps the identity of what it is given.\<close>

lemma CreateOrUpdate_answer:
  assumes "up c s" and "om_resourceVersion (obj_meta x) = ''''"
    and f: "\<And>w. obj_kind w = obj_kind x \<Longrightarrow> obj_key w = obj_key x \<Longrightarrow>
      \<exists>y. f w = Inr y \<and> obj_kind y = obj_kind x \<and> obj_key y = obj_key x \<and>
        om_resourceVersion (obj_meta y) = om_resourceVersion (obj_meta w)"
  shows "\<exists>op z s'. run_state (CreateOrUpdate api c x f) s = ((Inr op, z), s') \<and>
    moves objs up {(c, obj_kind x, obj_key x)} s s'"
proof -
  let ?K = "{(c, obj_kind x, obj_key x)}"
  obtain g s1 where g: "run_state (k_get api c (obj_kind x) (obj_key x)) s = (g, s1)" by fastforce
  have m1: "moves objs up {} s s1" by (rule answered [OF g modifies_get steady_get])
  note up1 = moves_up [OF m1 assms(1)] and o1 = moves_reads [OF m1]
  have then_moves: "moves objs up ?K s s'" if "moves objs up ?K s1 s'" for s'
    by (rule moves_trans [OF moves_mono [OF m1] that]) simp
  show ?thesis
  proof (cases g)
    case (Inl e)
    with get_answers [OF assms(1)] g have nf: "IsNotFound e" by blast
    with get_missing g Inl o1 have none: "objs s1 c (obj_kind x) (obj_key x) = None" by metis
    from f [OF refl refl] obtain y where y: "f x = Inr y" "obj_kind y = obj_kind x" "obj_key y = obj_key x"
      "om_resourceVersion (obj_meta y) = ''''" using assms(2) by auto
    from create_answer [OF up1, of y] none y obtain z s' where
      "run_state (k_create api c y) s1 = (Inr z, s')" "moves objs up ?K s1 s'" by auto
    with then_moves g Inl nf y show ?thesis by (auto simp: CreateOrUpdate_def mutate_def Let_def)
  next
    case (Inr old)
    with g get_found o1 have old: "objs s1 c (obj_kind x) (obj_key x) = Some old" by metis
    from f keyed [OF old] obtain y where y: "f old = Inr y" "obj_kind y = obj_kind x" "obj_key y = obj_key x"
      "om_resourceVersion (obj_meta y) = om_resourceVersion (obj_meta old)" by blast
    show ?thesis
    proof (cases "old = y")
      case True
      with g Inr y m1 show ?thesis by (auto simp: CreateOrUpdate_def mutate_def Let_def intro: moves_mono)
    next
      case False
      from update_answer [OF up1, of y old] old y obtain z s' where
        "run_state (k_update api c y) s1 = (Inr z, s')" "moves objs up ?K s1 s'" by auto
      with then_moves g Inr y False show ?thesis by (auto simp: CreateOrUpdate_def mutate_def Let_def)
    qed
  qed
qed

text \<open>The client of the claim's cluster environment.\<close>

lemma environment_answer:
  assumes "up (k_self api) s" and "environment_client api (objs s) (ns, en) ce cli"
  shows "\<exists>s'. run_state (getEnvironmentFromClusterEnvironment api ns en) s = (Inr ce, s') \<and> moves objs up {} s s'"
  using get_env_answer [OF assms(1), of "(ns, en)" ce] assms(2)
  by (simp add: getEnvironmentFromClusterEnvironment_def environment_client_def)

lemma config_answer:
  assumes "up (k_self api) s" and "environment_client api (objs s) (ns, en) ce cli"
  shows "\<exists>cf s'. run_state (GetClusterRESTConfig api (om_namespace (ce_meta ce)) (cesp_ClusterContextSecret (ce_Spec ce))) s =
    (Inr cf, s') \<and> k_new_client api cf = Inr cli \<and> moves objs up {} s s'"
proof -
  from assms(2) obtain sec cf where
    sec: "objs s (k_self api) KSecret (om_namespace (ce_meta ce), cesp_ClusterContextSecret (ce_Spec ce)) = Some (OSecret sec)"
    and cf: "ExtractClusterRESTConfig api sec = Inr cf" "k_new_client api cf = Inr cli"
    unfolding environment_client_def by blast
  from get_secret_answer [OF assms(1) sec] cf show ?thesis
    by (auto simp: GetClusterRESTConfig_def getSecret_def)
qed

text \<open>The environment and the client together, as the operations read them.\<close>

lemma served_answers:
  assumes "served api objs up acc key ce cli s"
  obtains s1 cf s2 where
    "run_state (getEnvironmentFromClusterEnvironment api (fst key) (acc_ClusterEnvironmentName acc)) s = (Inr ce, s1)"
    "run_state (GetClusterRESTConfig api (om_namespace (ce_meta ce)) (cesp_ClusterContextSecret (ce_Spec ce))) s1 = (Inr cf, s2)"
    "k_new_client api cf = Inr cli" "moves objs up {} s s1" "moves objs up {} s s2"
proof -
  from assms have up: "up (k_self api) s"
    and env: "environment_client api (objs s) (fst key, acc_ClusterEnvironmentName acc) ce cli"
    by (auto simp: served_def)
  from environment_answer [OF up env] obtain s1 where
    e: "run_state (getEnvironmentFromClusterEnvironment api (fst key) (acc_ClusterEnvironmentName acc)) s = (Inr ce, s1)"
      "moves objs up {} s s1" by blast
  have env1: "environment_client api (objs s1) (fst key, acc_ClusterEnvironmentName acc) ce cli"
    using env moves_reads [OF e(2)] by simp
  from config_answer [OF moves_up [OF e(2) up] env1] obtain cf s2 where
    c: "run_state (GetClusterRESTConfig api (om_namespace (ce_meta ce)) (cesp_ClusterContextSecret (ce_Spec ce))) s1 = (Inr cf, s2)"
      "k_new_client api cf = Inr cli" "moves objs up {} s1 s2" by blast
  from that [OF e(1) c(1,2) e(2) moves_trans [OF e(2) c(3)]] show thesis .
qed

end


subsection \<open>Telling the claim and its copy the status\<close>

text \<open>The claim in the application's namespace says the same as the one in the control plane.\<close>

definition told :: "(cluster \<Rightarrow> okind \<Rightarrow> nsname \<Rightarrow> obj option) \<Rightarrow> cluster \<Rightarrow> nsname \<Rightarrow> ServiceClaim \<Rightarrow> bool" where
  "told f cli k sc = (\<exists>rc. f cli KServiceClaim k = Some (OServiceClaim rc) \<and>
     scst_State (sc_Status rc) = scst_State (sc_Status sc) \<and>
     scst_RegisteredService (sc_Status rc) = scst_RegisteredService (sc_Status sc))"

lemma served_moves:
  assumes "served api objs up acc key ce cli s" and "moves objs up K s s'"
    and "K \<subseteq> written_by_claim (k_self api) key cli (acc_Namespace acc)"
    and "(cli, acc_Namespace acc) \<noteq> (k_self api, fst key)"
  shows "served api objs up acc key ce cli s'"
  using served_keeps [OF assms(1) _ _ assms(4)] moves_mono [OF assms(2,3)] by (simp add: moves_def)

context live_store
begin

lemma updateRemote_answer:
  assumes srv: "served api objs up acc key ce cli s" and "meta_key (sc_meta sc) = key"
    and t: "scsp_Target (sc_Spec sc) = Some t" "sct_ApplicationClusterContext t = Some acc"
  shows "\<exists>s'. run_state (updateRemoteServiceClaimStatusIfNeeded api sc) s = (None, s') \<and>
    moves objs up {(cli, KServiceClaim, (acc_Namespace acc, snd key))} s s' \<and>
    told (objs s') cli (acc_Namespace acc, snd key) sc"
proof -
  let ?rk = "(acc_Namespace acc, snd key)"
  let ?K = "{(cli, KServiceClaim, ?rk)}"
  from srv obtain rc where up: "up cli s" and rc: "objs s cli KServiceClaim ?rk = Some (OServiceClaim rc)"
    unfolding served_def by blast
  have names: "om_namespace (sc_meta sc) = fst key" "om_name (sc_meta sc) = snd key"
    using assms(2) by (auto simp: meta_key_def)
  from served_answers [OF srv] obtain s1 cf s2 where
    e: "run_state (getEnvironmentFromClusterEnvironment api (fst key) (acc_ClusterEnvironmentName acc)) s = (Inr ce, s1)" and
    c: "run_state (GetClusterRESTConfig api (om_namespace (ce_meta ce)) (cesp_ClusterContextSecret (ce_Spec ce))) s1 = (Inr cf, s2)"
      "k_new_client api cf = Inr cli" "moves objs up {} s s2" by blast
  from get_claim_answer [OF moves_up [OF c(3) up], of ?rk rc] rc moves_reads [OF c(3)] obtain s3 where
    g: "run_state (get_claim api cli ?rk) s2 = (Inr rc, s3)" "moves objs up {} s2 s3" by auto
  note m3 = moves_trans [OF c(3) g(2)]
  have rc3: "objs s3 cli KServiceClaim ?rk = Some (OServiceClaim rc)" using rc moves_reads [OF m3] by simp
  show ?thesis
  proof (cases "remote_differs (sc_Status rc) (sc_Status sc)")
    case False
    then have "run_state (updateRemoteServiceClaimStatusIfNeeded api sc) s = (None, s3)"
      by (simp add: updateRemoteServiceClaimStatusIfNeeded_def t names e c g)
    moreover have "told (objs s3) cli ?rk sc" using rc3 False by (auto simp: told_def remote_differs_def)
    ultimately show ?thesis using moves_mono [OF m3] by blast
  next
    case True
    let ?x = "OServiceClaim (told_claim sc rc)"
    from keyed [OF rc] have key: "obj_key ?x = ?rk" "om_resourceVersion (sc_meta (told_claim sc rc)) = om_resourceVersion (sc_meta rc)"
      by (simp_all add: obj_key_def told_claim_def)
    from status_answer [OF moves_up [OF m3 up], of ?x "OServiceClaim rc"] key rc3 obtain v s' where
      u: "run_state (k_status_update api cli ?x) s3 = (Inr (set_version v (copy_status ?x (OServiceClaim rc))), s')"
      and at: "objs s' cli KServiceClaim ?rk = Some (set_version v (copy_status ?x (OServiceClaim rc)))"
      and m: "moves objs up ?K s3 s'" by auto
    from True u have "run_state (updateRemoteServiceClaimStatusIfNeeded api sc) s = (None, s')"
      by (simp add: updateRemoteServiceClaimStatusIfNeeded_def t names e c g told_claim_def)
    moreover have "moves objs up ?K s s'" by (rule moves_trans [OF moves_mono [OF m3] m]) simp
    moreover have "told (objs s') cli ?rk sc" using at by (simp add: told_def set_version_def told_claim_def)
    ultimately show ?thesis by blast
  qed
qed

lemma updateServiceClaimStatus_answer:
  assumes srv: "served api objs up acc key ce cli s" and st: "claim_stored objs (k_self api) s old"
    and sc: "sc_meta sc = sc_meta old" "sc_Spec sc = sc_Spec old" and key: "meta_key (sc_meta old) = key"
    and t: "scsp_Target (sc_Spec old) = Some t" "sct_ApplicationClusterContext t = Some acc"
    and apart: "(cli, acc_Namespace acc) \<noteq> (k_self api, fst key)"
  shows "\<exists>sc' s'. run_state (updateServiceClaimStatus api sc) s = ((None, sc'), s') \<and>
    moves objs up {(k_self api, KServiceClaim, key), (cli, KServiceClaim, (acc_Namespace acc, snd key))} s s' \<and>
    served api objs up acc key ce cli s' \<and> claim_stored objs (k_self api) s' sc' \<and>
    sc_Spec sc' = sc_Spec old \<and> sc_Status sc' = sc_Status sc \<and> meta_key (sc_meta sc') = key \<and>
    told (objs s') cli (acc_Namespace acc, snd key) sc'"
proof -
  let ?K = "{(k_self api, KServiceClaim, key), (cli, KServiceClaim, (acc_Namespace acc, snd key))}"
  from srv have up: "up (k_self api) s" by (simp add: served_def)
  have at: "objs s (k_self api) KServiceClaim key = Some (OServiceClaim old)" using st key by (simp add: claim_stored_def)
  have ok: "obj_key (OServiceClaim sc) = key" using sc key by (simp add: obj_key_def)
  from status_answer [OF up, of "OServiceClaim sc" "OServiceClaim old"] at ok sc obtain v s1 where
    u: "run_state (k_status_update api (k_self api) (OServiceClaim sc)) s =
      (Inr (set_version v (copy_status (OServiceClaim sc) (OServiceClaim old))), s1)"
    and m1: "moves objs up {(k_self api, KServiceClaim, key)} s s1" by auto
  from u obtain sc' where w: "run_state (write_claim (k_status_update api (k_self api)) sc) s = ((None, sc'), s1)"
    by (simp add: write_claim_def)
  from status_claim_ok [OF w] at sc key have
    one: "claim_stored objs (k_self api) s1 sc'" "sc_Status sc' = sc_Status sc" "meta_key (sc_meta sc') = key"
      "sc_Spec sc' = sc_Spec old" by auto
  have srv1: "served api objs up acc key ce cli s1"
    by (rule served_moves [OF srv m1 _ apart]) (simp add: written_by_claim_def)
  have t': "scsp_Target (sc_Spec sc') = Some t" using t one by simp
  from updateRemote_answer [OF srv1 one(3) t' t(2)] obtain s' where
    r: "run_state (updateRemoteServiceClaimStatusIfNeeded api sc') s1 = (None, s')"
    and m2: "moves objs up {(cli, KServiceClaim, (acc_Namespace acc, snd key))} s1 s'"
    and tell: "told (objs s') cli (acc_Namespace acc, snd key) sc'" by blast
  then have rem: "\<exists>rc. objs s' cli KServiceClaim (acc_Namespace acc, snd key) = Some (OServiceClaim rc)"
    unfolding told_def by blast
  have run: "run_state (updateServiceClaimStatus api sc) s = ((None, sc'), s')"
    by (simp add: updateServiceClaimStatus_def w r)
  have m: "moves objs up ?K s s'"
    by (rule moves_trans [OF moves_mono [OF m1] moves_mono [OF m2]]) auto
  have same: "objs s' c k n = objs s1 c k n" if "(c, k, n) \<noteq> (cli, KServiceClaim, (acc_Namespace acc, snd key))" for c k n
    using moves_at [OF m2] that by simp
  have "(k_self api, KServiceClaim, key) \<noteq> (cli, KServiceClaim, (acc_Namespace acc, snd key))"
    using apart by (cases key) auto
  from same [OF this] one have st': "claim_stored objs (k_self api) s' sc'" by (simp add: claim_stored_def)
  have "served api objs up acc key ce cli s'"
    using srv1 rem moves_up [OF m2] same by (auto simp: served_def environment_client_def)
  with run m st' one tell show ?thesis by blast
qed

lemma changeServiceState_answer:
  assumes "up (k_self api) s"
    and "objs s (k_self api) KRegisteredService (meta_key (rs_meta rs)) = Some (ORegisteredService rs)"
  shows "\<exists>s'. run_state (changeServiceState api rs st) s = (None, s') \<and>
    moves objs up {(k_self api, KRegisteredService, meta_key (rs_meta rs))} s s'"
proof -
  let ?x = "ORegisteredService (rs\<lparr>rs_State := st\<rparr>)"
  from status_answer [OF assms(1), of ?x "ORegisteredService rs"] assms(2) obtain y s' where
    "run_state (k_status_update api (k_self api) ?x) s = (Inr y, s')"
    "moves objs up {(k_self api, KRegisteredService, meta_key (rs_meta rs))} s s'" by (auto simp: obj_key_def)
  then show ?thesis by (auto simp: changeServiceState_def err_of_def)
qed

end


subsection \<open>Delivering the endpoint definition\<close>

text \<open>A claim bound to a service, and a secret that has no version yet.\<close>

context live_store
begin

lemma push_binding_answer:
  assumes "up cli s" and "scst_RegisteredService (sc_Status sc) = Some ref"
    and "om_resourceVersion (sec_meta secret) = ''''" and "om_name (sec_meta secret) = om_name (sc_meta sc)"
  shows "\<exists>secret' s'. run_state (pushServiceBindingToNamespace api cli ns sc secret) s = ((None, secret'), s') \<and>
    moves objs up {(cli, KServiceBinding, (ns, om_name (sc_meta sc))), (cli, KSecret, (ns, om_name (sc_meta sc)))} s s'"
proof -
  let ?b = "OServiceBinding (new_binding sc ns)" and ?n = "om_name (sc_meta sc)"
  have mut: "\<exists>y. mutate_binding sc w = Inr y \<and> obj_kind y = obj_kind ?b \<and> obj_key y = obj_key ?b \<and>
      om_resourceVersion (obj_meta y) = om_resourceVersion (obj_meta w)"
    if "obj_kind w = obj_kind ?b" "obj_key w = obj_key ?b" for w
    using that assms(2) by (cases w) (auto simp: mutate_binding_def obj_key_def meta_key_def)
  have "om_resourceVersion (obj_meta ?b) = ''''" by (simp add: new_binding_def new_meta_def)
  from CreateOrUpdate_answer [OF assms(1) this mut] obtain op z s1 where
    c: "run_state (CreateOrUpdate api cli ?b (mutate_binding sc)) s = ((Inr op, z), s1)"
    and m1: "moves objs up {(cli, KServiceBinding, (ns, ?n))} s s1"
    by (auto simp: new_binding_key)
  from CreateOrUpdate_stores [OF c mutate_binding_mutates stable_binding]
  have z: "objs s1 cli KServiceBinding (ns, ?n) = Some z" by (simp add: new_binding_key)
  from get_binding_answer [OF moves_up [OF m1 assms(1)] z] obtain b s2 where
    g: "run_state (get_binding api cli (ns, ?n)) s1 = (Inr b, s2)" and m2: "moves objs up {} s1 s2" by blast
  define secret1 where "secret1 = secret\<lparr>sec_meta := (sec_meta secret)
     \<lparr>om_owners := [\<lparr>or_apiVersion = ''primaza.io/v1alpha1'', or_kind = ''ServiceBinding'',
         or_name = ?n, or_uid = om_uid (sb_meta b), or_controller = False\<rparr>], om_namespace := ns\<rparr>\<rparr>"
  have key: "obj_kind (OSecret secret1) = KSecret" "obj_key (OSecret secret1) = (ns, ?n)"
    by (simp_all add: secret1_def obj_key_def meta_key_def assms(4))
  have mut2: "\<exists>y. set_string_data (sec_StringData secret1) w = Inr y \<and> obj_kind y = obj_kind (OSecret secret1) \<and>
      obj_key y = obj_key (OSecret secret1) \<and> om_resourceVersion (obj_meta y) = om_resourceVersion (obj_meta w)"
    if "obj_kind w = obj_kind (OSecret secret1)" "obj_key w = obj_key (OSecret secret1)" for w
    using that by (cases w) (auto simp: set_string_data_def obj_key_def)
  have "om_resourceVersion (obj_meta (OSecret secret1)) = ''''" by (simp add: secret1_def assms(3))
  from CreateOrUpdate_answer [OF moves_up [OF m2 moves_up [OF m1 assms(1)]] this mut2] obtain op2 x s' where
    c2: "run_state (CreateOrUpdate api cli (OSecret secret1) (set_string_data (sec_StringData secret1))) s2 = ((Inr op2, x), s')"
    and m3: "moves objs up {(cli, KSecret, (ns, ?n))} s2 s'"
    by (auto simp: key)
  have "run_state (pushServiceBindingToNamespace api cli ns sc secret) s = ((None, as_secret secret1 x), s')"
    using c2 unfolding secret1_def
    by (simp add: pushServiceBindingToNamespace_def c g Let_def err_of_def)
  moreover have "moves objs up {(cli, KServiceBinding, (ns, ?n)), (cli, KSecret, (ns, ?n))} s s'"
    by (rule moves_trans [OF moves_mono [OF m1] moves_trans [OF moves_mono [OF m2] moves_mono [OF m3]]]) auto
  ultimately show ?thesis by blast
qed

lemma push_bindings_answer:
  assumes "up cli s" and "scst_RegisteredService (sc_Status sc) = Some ref"
    and "om_resourceVersion (sec_meta secret) = ''''" and "om_name (sec_meta secret) = om_name (sc_meta sc)"
    and "distinct nss"
  shows "\<exists>secret' s'. run_state (push_bindings_loop api cli sc (Some ns) secret nss) s = ((Inr [], secret'), s') \<and>
    moves objs up {(cli, KServiceBinding, (ns, om_name (sc_meta sc))), (cli, KSecret, (ns, om_name (sc_meta sc)))} s s'"
  using assms(5)
proof (induction nss)
  case Nil
  show ?case by (intro exI conjI) (simp, simp)
next
  case (Cons m nss)
  show ?case
  proof (cases "m = ns")
    case True
    from push_binding_answer [OF assms(1-4), of ns] obtain secret' s' where
      p: "run_state (pushServiceBindingToNamespace api cli ns sc secret) s = ((None, secret'), s')"
        "moves objs up {(cli, KServiceBinding, (ns, om_name (sc_meta sc))), (cli, KSecret, (ns, om_name (sc_meta sc)))} s s'"
      by blast
    have "run_state (push_bindings_loop api cli sc (Some ns) secret (m # nss)) s = ((Inr [], secret'), s')"
      using Cons.prems by (simp add: True p run_push_loop_skip)
    with p(2) show ?thesis by blast
  next
    case False
    have "distinct nss" using Cons.prems by simp
    from Cons.IH [OF this] False show ?thesis by simp
  qed
qed

lemma push_answer:
  assumes srv: "served api objs up acc key ce cli s" and key: "meta_key (sc_meta sc) = key"
    and t: "scsp_Target (sc_Spec sc) = Some t" "sct_ApplicationClusterContext t = Some acc"
    and sb: "scst_RegisteredService (sc_Status sc) = Some ref"
    and sec: "om_resourceVersion (sec_meta secret) = ''''" "om_name (sec_meta secret) = snd key"
    and nss: "distinct (cesp_ApplicationNamespaces (ce_Spec ce))"
  shows "\<exists>s'. run_state (pushToClusterEnvironments api sc secret) s = (None, s') \<and>
    moves objs up {(cli, KServiceBinding, (acc_Namespace acc, snd key)), (cli, KSecret, (acc_Namespace acc, snd key))} s s'"
proof -
  have names: "om_namespace (sc_meta sc) = fst key" "om_name (sc_meta sc) = snd key"
    using key by (auto simp: meta_key_def)
  from served_answers [OF srv] obtain s1 cf s2 where
    e: "run_state (getEnvironmentFromClusterEnvironment api (fst key) (acc_ClusterEnvironmentName acc)) s = (Inr ce, s1)" and
    c: "run_state (GetClusterRESTConfig api (om_namespace (ce_meta ce)) (cesp_ClusterContextSecret (ce_Spec ce))) s1 = (Inr cf, s2)"
      "k_new_client api cf = Inr cli" and m2: "moves objs up {} s s2" by blast
  have up: "up cli s2" using srv by (intro moves_up [OF m2]) (simp add: served_def)
  have nm: "om_name (sec_meta secret) = om_name (sc_meta sc)" using sec names by simp
  from push_bindings_answer [OF up sb sec(1) nm nss, of "acc_Namespace acc"] names obtain secret' s' where
    p: "run_state (push_bindings_loop api cli sc (Some (acc_Namespace acc)) secret (cesp_ApplicationNamespaces (ce_Spec ce))) s2
      = ((Inr [], secret'), s')" and
    m: "moves objs up {(cli, KServiceBinding, (acc_Namespace acc, snd key)), (cli, KSecret, (acc_Namespace acc, snd key))} s2 s'"
    by auto
  have "run_state (pushToClusterEnvironments api sc secret) s = (None, s')"
    by (simp add: pushToClusterEnvironments_def t names e c PushServiceBinding_def p join_collected_def errors_Join_def)
  with moves_trans [OF moves_mono [OF m2] m] show ?thesis by blast
qed

end


subsection \<open>Reading the endpoint definition\<close>

text \<open>An item has a value that can be read: its own, or that of a secret that is there.\<close>

definition readable_item ::
  "(cluster \<Rightarrow> okind \<Rightarrow> nsname \<Rightarrow> obj option) \<Rightarrow> cluster \<Rightarrow> string \<Rightarrow> ServiceEndpointDefinitionItem \<Rightarrow> bool" where
  "readable_item f c ns sed =
     (sed_Value sed \<noteq> '''' \<or>
      (\<exists>ref sec. sed_ValueFromSecret sed = Some ref \<and> ssr_Key ref \<noteq> '''' \<and>
         f c KSecret (ns, ssr_Name ref) = Some (OSecret sec)))"

text \<open>A service provides the keys: no item is without a source, and each key has a readable item.\<close>

definition provides ::
  "(cluster \<Rightarrow> okind \<Rightarrow> nsname \<Rightarrow> obj option) \<Rightarrow> cluster \<Rightarrow> string \<Rightarrow> string list \<Rightarrow> RegisteredService \<Rightarrow> bool" where
  "provides f c ns keys rs =
     ((\<forall>sed\<in>set (rssp_ServiceEndpointDefinition (rs_Spec rs)). sed_Value sed \<noteq> '''' \<or> sed_ValueFromSecret sed \<noteq> None) \<and>
      (\<forall>k\<in>set keys. \<exists>sed\<in>set (rssp_ServiceEndpointDefinition (rs_Spec rs)). sed_Name sed = k \<and> readable_item f c ns sed))"

lemma readable_item_cong:
  "(\<And>n. g c KSecret n = f c KSecret n) \<Longrightarrow> readable_item g c ns sed = readable_item f c ns sed"
  by (simp add: readable_item_def)

lemma provides_cong:
  "(\<And>n. g c KSecret n = f c KSecret n) \<Longrightarrow> provides g c ns keys rs = provides f c ns keys rs"
  unfolding provides_def by (simp add: readable_item_cong [of g c f])

context live_store
begin

lemma read_moves:
  assumes "s1 = s \<or> (\<exists>k g. run_state (get_secret api (k_self api) (ns, k)) s = (g, s1))"
  shows "moves objs up {} s s1"
proof -
  have "steady up down (get_secret api (k_self api) (ns, k))" for k
    unfolding get_secret_def by (intro steady_intros)
  with assms answered [OF _ modifies_get_secret] show ?thesis by (auto intro: moves_refl)
qed

lemma extract_answer:
  assumes "up (k_self api) s"
    and "\<forall>sed\<in>set seds. sed_Value sed \<noteq> '''' \<or> sed_ValueFromSecret sed \<noteq> None"
  shows "\<exists>n' d' s'. run_state (extract_loop api ns keys seds n d) s = (Inr (n', d'), s') \<and> moves objs up {} s s' \<and>
    fst ` set d \<subseteq> fst ` set d' \<and>
    (\<forall>sed\<in>set seds. sed_Name sed \<in> set keys \<and> readable_item (objs s) (k_self api) ns sed \<longrightarrow> sed_Name sed \<in> fst ` set d')"
  using assms
proof (induction seds arbitrary: n d s)
  case Nil
  then show ?case by auto
next
  case (Cons sed seds)
  let ?R = "readable_item (objs s) (k_self api) ns"
  have rest: "\<forall>x\<in>set seds. sed_Value x \<noteq> '''' \<or> sed_ValueFromSecret x \<noteq> None" using Cons.prems by simp
  have go: ?case if eq: "run_state (extract_loop api ns keys (sed # seds) n d) s = run_state (extract_loop api ns keys seds m d1) s1"
    and m1: "moves objs up {} s s1" and sub: "fst ` set d \<subseteq> fst ` set d1"
    and new: "sed_Name sed \<in> set keys \<and> ?R sed \<longrightarrow> sed_Name sed \<in> fst ` set d1" for m d1 s1
  proof -
    from Cons.IH [OF moves_up [OF m1 Cons.prems(1)] rest, of m d1] obtain n' d' s' where
      r: "run_state (extract_loop api ns keys seds m d1) s1 = (Inr (n', d'), s')" "moves objs up {} s1 s'"
      "fst ` set d1 \<subseteq> fst ` set d'"
      "\<forall>sed\<in>set seds. sed_Name sed \<in> set keys \<and> readable_item (objs s1) (k_self api) ns sed \<longrightarrow> sed_Name sed \<in> fst ` set d'"
      by blast
    have "\<forall>x\<in>set (sed # seds). sed_Name x \<in> set keys \<and> ?R x \<longrightarrow> sed_Name x \<in> fst ` set d'"
      using r(3,4) new moves_reads [OF m1] by auto
    with r(1,3) eq sub moves_trans [OF m1 r(2)] show ?thesis by (intro exI conjI) (assumption | simp | blast)+
  qed
  show ?case
  proof (cases rule: extract_loop_step [of ns keys sed seds n d s])
    case stop
    with Cons.prems(2) show ?thesis by simp
  next
    case (skip s1)
    have "\<not> ?R sed" if key: "sed_Name sed \<in> set keys"
    proof
      assume R: "?R sed"
      from skip(3) [OF key] obtain ref where ref: "sed_Value sed = ''''" "sed_ValueFromSecret sed = Some ref"
        "ssr_Key ref = '''' \<or> (\<exists>e. run_state (get_secret api (k_self api) (ns, ssr_Name ref)) s = (Inl e, s1))" by blast
      with R obtain sec where "objs s (k_self api) KSecret (ns, ssr_Name ref) = Some (OSecret sec)" "ssr_Key ref \<noteq> ''''"
        by (auto simp: readable_item_def)
      with get_secret_answer [OF Cons.prems(1) this(1)] ref(3) show False by auto
    qed
    then show ?thesis by (intro go [OF skip(1) read_moves [OF skip(2)]]) auto
  next
    case (put v s1)
    show ?thesis by (rule go [OF put(1) read_moves [OF put(2)]]) (auto simp: keys_gm_put)
  qed
qed

text \<open>All requested keys are counted.\<close>

lemma extract_counts:
  assumes up: "up (k_self api) s" and prov: "provides (objs s) (k_self api) ns keys rs" and "distinct keys"
  shows "\<exists>n secret' s'. run_state (extractServiceEndpointDefinition api ns rs keys (claim_secret sc)) s = (Inr (n, secret'), s') \<and>
    moves objs up {} s s' \<and> int (length keys) \<le> n \<and> sec_meta secret' = sec_meta (claim_secret sc)"
proof -
  let ?seds = "rssp_ServiceEndpointDefinition (rs_Spec rs)"
  have "\<forall>sed\<in>set ?seds. sed_Value sed \<noteq> '''' \<or> sed_ValueFromSecret sed \<noteq> None" using prov by (simp add: provides_def)
  from extract_answer [OF up this, of ns keys 0 "[]"] obtain n' d' s' where
    r: "run_state (extract_loop api ns keys ?seds 0 []) s = (Inr (n', d'), s')" "moves objs up {} s s'"
    and all: "\<forall>sed\<in>set ?seds. sed_Name sed \<in> set keys \<and> readable_item (objs s) (k_self api) ns sed \<longrightarrow> sed_Name sed \<in> fst ` set d'"
    by blast
  from extract_loop_ok [OF r(1)] obtain names where
    names: "n' = int (length names)" "fst ` set d' = set names"
    unfolding extracted_def by auto
  have "set keys \<subseteq> set names"
  proof
    fix k assume "k \<in> set keys"
    with prov obtain sed where "sed \<in> set ?seds" "sed_Name sed = k" "readable_item (objs s) (k_self api) ns sed"
      unfolding provides_def by blast
    with all \<open>k \<in> set keys\<close> names(2) show "k \<in> set names" by blast
  qed
  then have "card (set keys) \<le> card (set names)" by (intro card_mono) simp_all
  with card_length [of names] distinct_card [OF \<open>distinct keys\<close>] names(1) have "int (length keys) \<le> n'" by simp
  with r show ?thesis
    by (simp add: extractServiceEndpointDefinition_def claim_secret_def)
qed

end


subsection \<open>Binding\<close>

context live_store
begin

lemma bind_claim_answer:
  assumes srv: "served api objs up acc key ce cli s" and st: "claim_stored objs (k_self api) s sc"
    and key: "meta_key (sc_meta sc) = key"
    and rs: "objs s (k_self api) KRegisteredService (meta_key (rs_meta rs)) = Some (ORegisteredService rs)"
    and t: "scsp_Target (sc_Spec sc) = Some t" "sct_ApplicationClusterContext t = Some acc"
    and sec: "om_resourceVersion (sec_meta secret) = ''''" "om_name (sec_meta secret) = snd key"
    and nss: "distinct (cesp_ApplicationNamespaces (ce_Spec ce))"
    and apart: "(cli, acc_Namespace acc) \<noteq> (k_self api, fst key)"
  shows "\<exists>s' x. run_state (bind_claim api h sc rs secret) s = (None, s') \<and>
    objs s' (k_self api) KServiceClaim key = Some (OServiceClaim x) \<and> scst_State (sc_Status x) = ClaimResolved \<and>
    told (objs s') cli (acc_Namespace acc, snd key) x"
proof -
  let ?K = "{(k_self api, KServiceClaim, key), (cli, KServiceClaim, (acc_Namespace acc, snd key))}"
  let ?c1 = "with_service ClaimPending rs sc"
  have c1: "sc_meta ?c1 = sc_meta sc" "sc_Spec ?c1 = sc_Spec sc" by (simp_all add: with_service_def)
  from updateServiceClaimStatus_answer [OF srv st c1 key t apart] obtain sc1 s1 where
    r1: "run_state (updateServiceClaimStatus api ?c1) s = ((None, sc1), s1)" and m1: "moves objs up ?K s s1"
    and srv1: "served api objs up acc key ce cli s1" and st1: "claim_stored objs (k_self api) s1 sc1"
    and sc1: "sc_Spec sc1 = sc_Spec sc" "meta_key (sc_meta sc1) = key" by blast
  have rs1: "objs s1 (k_self api) KRegisteredService (meta_key (rs_meta rs)) = Some (ORegisteredService rs)"
    using moves_at [OF m1] rs by simp
  have up1: "up (k_self api) s1" using srv1 by (simp add: served_def)
  from changeServiceState_answer [OF up1 rs1] obtain s2 where
    r2: "run_state (changeServiceState api rs RSClaimed) s1 = (None, s2)" and
    m2: "moves objs up {(k_self api, KRegisteredService, meta_key (rs_meta rs))} s1 s2" by blast
  have srv2: "served api objs up acc key ce cli s2"
    by (rule served_moves [OF srv1 m2 _ apart]) (simp add: written_by_claim_def)
  have st2: "claim_stored objs (k_self api) s2 sc1" using st1 moves_at [OF m2] by (simp add: claim_stored_def)
  let ?c2 = "with_service ClaimResolved rs sc1"
  have c2: "sc_meta ?c2 = sc_meta sc1" "sc_Spec ?c2 = sc_Spec sc1" by (simp_all add: with_service_def)
  have t1: "scsp_Target (sc_Spec sc1) = Some t" "scsp_Target (sc_Spec ?c2) = Some t" using t sc1 c2 by simp_all
  have bound: "scst_RegisteredService (sc_Status ?c2) = Some \<lparr>ref_Name = om_name (rs_meta rs), ref_UID = om_uid (rs_meta rs)\<rparr>"
    by (simp add: with_service_def)
  have k2: "meta_key (sc_meta ?c2) = key" using c2 sc1 by simp
  from push_answer [OF srv2 k2 t1(2) t(2) bound sec nss] obtain s3 where
    r3: "run_state (pushToClusterEnvironments api ?c2 secret) s2 = (None, s3)" and
    m3: "moves objs up {(cli, KServiceBinding, (acc_Namespace acc, snd key)), (cli, KSecret, (acc_Namespace acc, snd key))} s2 s3"
    by blast
  have srv3: "served api objs up acc key ce cli s3"
    by (rule served_moves [OF srv2 m3 _ apart]) (simp add: written_by_claim_def)
  have st3: "claim_stored objs (k_self api) s3 sc1" using st2 moves_at [OF m3] by (simp add: claim_stored_def)
  from updateServiceClaimStatus_answer [OF srv3 st3 c2 sc1(2) t1(1) t(2) apart] obtain x s' where
    r4: "run_state (updateServiceClaimStatus api ?c2) s3 = ((None, x), s')"
    and x: "claim_stored objs (k_self api) s' x" "sc_Status x = sc_Status ?c2" "meta_key (sc_meta x) = key"
      "told (objs s') cli (acc_Namespace acc, snd key) x" by blast
  have "run_state (bind_claim api h sc rs secret) s = (None, s')"
    by (simp add: bind_claim_def r1 r2 r3 r4 Let_def)
  with x show ?thesis by (auto simp: claim_stored_def with_service_def)
qed

lemma processServiceClaim_answer:
  assumes srv: "served api objs up acc key ce cli s" and st: "claim_stored objs (k_self api) s sc"
    and key: "meta_key (sc_meta sc) = key"
    and t: "scsp_Target (sc_Spec sc) = Some t" "sct_ApplicationClusterContext t = Some acc"
    and nss: "distinct (cesp_ApplicationNamespaces (ce_Spec ce))"
    and apart: "(cli, acc_Namespace acc) \<noteq> (k_self api, fst key)"
    and rsl: "\<And>rs. rs \<in> set rsl \<Longrightarrow>
      objs s (k_self api) KRegisteredService (meta_key (rs_meta rs)) = Some (ORegisteredService rs)"
    and some: "\<exists>rs\<in>set rsl. candidate (objs s) (k_self api) sc rs"
    and all: "\<And>rs. rs \<in> set rsl \<Longrightarrow> candidate (objs s) (k_self api) sc rs \<Longrightarrow>
      provides (objs s) (k_self api) (fst key) (scsp_ServiceEndpointDefinitionKeys (sc_Spec sc)) rs"
    and keys: "distinct (scsp_ServiceEndpointDefinitionKeys (sc_Spec sc))"
  shows "\<exists>s' x. run_state (processServiceClaim api rsl sc) s = (None, s') \<and>
    objs s' (k_self api) KServiceClaim key = Some (OServiceClaim x) \<and> scst_State (sc_Status x) = ClaimResolved \<and>
    told (objs s') cli (acc_Namespace acc, snd key) x"
proof -
  let ?keys = "scsp_ServiceEndpointDefinitionKeys (sc_Spec sc)" and ?env = "cesp_EnvironmentName (ce_Spec ce)"
  have names: "om_namespace (sc_meta sc) = fst key" "om_name (sc_meta sc) = snd key"
    using key by (auto simp: meta_key_def)
  from served_answers [OF srv] obtain s1 where
    e: "run_state (getEnvironmentFromClusterEnvironment api (fst key) (acc_ClusterEnvironmentName acc)) s = (Inr ce, s1)"
    and m1: "moves objs up {} s s1" by blast
  from srv have stored_env: "objs s (k_self api) KClusterEnvironment (fst key, acc_ClusterEnvironmentName acc) =
      Some (OClusterEnvironment ce)" by (simp add: served_def environment_client_def)
  have v: "run_state (claim_environment api sc) s = (Inr ?env, s1)"
    by (simp add: claim_environment_def t names e)
  have cand: "candidate (objs s) (k_self api) sc rs \<longleftrightarrow> rs_State rs = RSAvailable \<and> service_matches sc ?env rs" for rs
    using t names stored_env by (simp add: candidate_def service_matches_def checkSCISubset_iff env_of_claim_def)
  from some obtain rs where f: "find (\<lambda>rs. rs_State rs = RSAvailable \<and> service_matches sc ?env rs) rsl = Some rs"
    by (cases "find (\<lambda>rs. rs_State rs = RSAvailable \<and> service_matches sc ?env rs) rsl") (auto simp: find_None_iff cand)
  from find_Some_in [OF f] find_Some_holds [OF f] have rs: "rs \<in> set rsl" "candidate (objs s) (k_self api) sc rs"
    by (simp_all add: cand)
  from srv have up: "up (k_self api) s" by (simp add: served_def)
  have "provides (objs s1) (k_self api) (fst key) ?keys rs" using all [OF rs] moves_reads [OF m1] by simp
  from extract_counts [OF moves_up [OF m1 up] this keys, of sc] names obtain n secret s2 where
    x: "run_state (extractServiceEndpointDefinition api (om_namespace (sc_meta sc)) rs ?keys (claim_secret sc)) s1 =
      (Inr (n, secret), s2)" and m2: "moves objs up {} s1 s2" and n: "int (length ?keys) \<le> n"
    and sec: "sec_meta secret = sec_meta (claim_secret sc)" by auto
  note m = moves_trans [OF m1 m2]
  have srv2: "served api objs up acc key ce cli s2" by (rule served_moves [OF srv m _ apart]) simp
  have st2: "claim_stored objs (k_self api) s2 sc" using st moves_reads [OF m] by (simp add: claim_stored_def)
  have rs2: "objs s2 (k_self api) KRegisteredService (meta_key (rs_meta rs)) = Some (ORegisteredService rs)"
    using rsl [OF rs(1)] moves_reads [OF m] by simp
  let ?secret = "add_identity sc secret"
  have "om_resourceVersion (sec_meta ?secret) = ''''" "om_name (sec_meta ?secret) = snd key"
    by (simp_all add: add_identity_def sec claim_secret_def new_meta_def names)
  from bind_claim_answer [OF srv2 st2 key rs2 t this nss apart, of IgnoreNotFound] obtain s' x where
    b: "run_state (bind_claim api IgnoreNotFound sc rs ?secret) s2 = (None, s')"
      "objs s' (k_self api) KServiceClaim key = Some (OServiceClaim x)" "scst_State (sc_Status x) = ClaimResolved"
      "told (objs s') cli (acc_Namespace acc, snd key) x" by blast
  have "run_state (processServiceClaim api rsl sc) s = (None, s')"
    using n by (simp add: processServiceClaim_def v f x b(1))
  with b show ?thesis by blast
qed

end


subsection \<open>Preparing the claim\<close>

context live_store
begin

lemma ensure_finalizer_answer:
  assumes up: "up (k_self api) s" and st: "claim_stored objs (k_self api) s sc" and alive: "\<not> om_deletion (sc_meta sc)"
  shows "\<exists>sc' s'. run_state (ensure_finalizer api sc) s = ((None, sc'), s') \<and>
    moves objs up {(k_self api, KServiceClaim, meta_key (sc_meta sc))} s s'"
proof (cases "ServiceClaimFinalizer \<in> set (om_finalizers (sc_meta sc))")
  case True
  then show ?thesis by (simp add: ensure_finalizer_def AddFinalizer_def)
next
  case False
  let ?m = "(sc_meta sc)\<lparr>om_finalizers := om_finalizers (sc_meta sc) @ [ServiceClaimFinalizer]\<rparr>"
  let ?x = "OServiceClaim (sc\<lparr>sc_meta := ?m\<rparr>)"
  have k: "obj_kind ?x = KServiceClaim" "obj_key ?x = meta_key (sc_meta sc)" by (simp_all add: obj_key_def meta_key_def)
  from update_answer [OF up, of ?x "OServiceClaim sc"] st k obtain y s' where
    "run_state (k_update api (k_self api) ?x) s = (Inr y, s')"
    "moves objs up {(k_self api, KServiceClaim, meta_key (sc_meta sc))} s s'" by (auto simp: claim_stored_def)
  with False show ?thesis by (simp add: ensure_finalizer_def AddFinalizer_def write_claim_def)
qed

lemma ensure_initialized_answer:
  assumes up: "up (k_self api) s" and st: "claim_stored objs (k_self api) s sc"
  shows "\<exists>sc' s'. run_state (ensureServiceClaimIsInitialized api sc) s = ((None, sc'), s') \<and>
    moves objs up {(k_self api, KServiceClaim, meta_key (sc_meta sc))} s s'"
proof (cases "scst_ClaimID (sc_Status sc) = ''''")
  case False
  then show ?thesis by (simp add: ensureServiceClaimIsInitialized_def)
next
  case True
  obtain u s1 where u: "run_state (k_uuid api) s = (u, s1)" by fastforce
  have m1: "moves objs up {} s s1" by (rule answered [OF u modifies_uuid steady_uuid])
  let ?x = "OServiceClaim (sc\<lparr>sc_Status := (sc_Status sc)\<lparr>scst_ClaimID := u, scst_State := ClaimPending\<rparr>\<rparr>)"
  have k: "obj_kind ?x = KServiceClaim" "obj_key ?x = meta_key (sc_meta sc)" by (simp_all add: obj_key_def)
  from status_answer [OF moves_up [OF m1 up], of ?x "OServiceClaim sc"] st k moves_reads [OF m1] obtain y s' where
    w: "run_state (k_status_update api (k_self api) ?x) s1 = (Inr y, s')"
    and m2: "moves objs up {(k_self api, KServiceClaim, meta_key (sc_meta sc))} s1 s'" by (auto simp: claim_stored_def)
  have "moves objs up {(k_self api, KServiceClaim, meta_key (sc_meta sc))} s s'"
    by (rule moves_trans [OF moves_mono [OF m1] m2]) simp
  with True u w show ?thesis by (simp add: ensureServiceClaimIsInitialized_def write_claim_def)
qed

lemma ReconcileClaim_answer:
  assumes srv: "served api objs up acc (ns, n) ce cli s"
    and stored: "objs s (k_self api) KServiceClaim (ns, n) = Some (OServiceClaim sc)"
    and alive: "\<not> om_deletion (sc_meta sc)" and pending: "scst_State (sc_Status sc) \<noteq> ClaimResolved"
    and t: "scsp_Target (sc_Spec sc) = Some t" "sct_ApplicationClusterContext t = Some acc"
    and nss: "distinct (cesp_ApplicationNamespaces (ce_Spec ce))"
    and apart: "(cli, acc_Namespace acc) \<noteq> (k_self api, ns)" and ns: "ns \<noteq> ''''"
    and some: "\<exists>m rs. objs s (k_self api) KRegisteredService (ns, m) = Some (ORegisteredService rs) \<and> candidate (objs s) (k_self api) sc rs"
    and all: "\<And>m rs. objs s (k_self api) KRegisteredService (ns, m) = Some (ORegisteredService rs) \<Longrightarrow>
      candidate (objs s) (k_self api) sc rs \<Longrightarrow>
      provides (objs s) (k_self api) ns (scsp_ServiceEndpointDefinitionKeys (sc_Spec sc)) rs"
    and keys: "distinct (scsp_ServiceEndpointDefinitionKeys (sc_Spec sc))"
  shows "\<exists>s' x. run_state (ReconcileClaim api (ns, n)) s = (None, s') \<and>
    objs s' (k_self api) KServiceClaim (ns, n) = Some (OServiceClaim x) \<and> scst_State (sc_Status x) = ClaimResolved \<and>
    told (objs s') cli (acc_Namespace acc, n) x"
proof -
  let ?K = "{(k_self api, KServiceClaim, (ns, n))}"
  have up: "up (k_self api) s" using srv by (simp add: served_def)
  from keyed [OF stored] have key: "meta_key (sc_meta sc) = (ns, n)" by (simp add: obj_key_def)
  from get_claim_answer [OF up stored] obtain s1 where
    g: "run_state (get_claim api (k_self api) (ns, n)) s = (Inr sc, s1)" and m1: "moves objs up {} s s1" by blast
  have st1: "claim_stored objs (k_self api) s1 sc" using stored moves_reads [OF m1] key by (simp add: claim_stored_def)
  from ensure_finalizer_answer [OF moves_up [OF m1 up] st1 alive] key obtain sc1 s2 where
    f: "run_state (ensure_finalizer api sc) s1 = ((None, sc1), s2)" and m2: "moves objs up ?K s1 s2" by auto
  from ensure_finalizer_ok [OF f st1 alive] key have
    sc1: "claim_stored objs (k_self api) s2 sc1" "sc_Spec sc1 = sc_Spec sc" "sc_Status sc1 = sc_Status sc"
      "meta_key (sc_meta sc1) = (ns, n)" by auto
  from ensure_initialized_answer [OF moves_up [OF m2 moves_up [OF m1 up]] sc1(1)] sc1(4) obtain sc2 s3 where
    i: "run_state (ensureServiceClaimIsInitialized api sc1) s2 = ((None, sc2), s3)" and m3: "moves objs up ?K s2 s3" by auto
  from ensure_initialized_ok [OF i sc1(1)] sc1 key have
    sc2: "claim_stored objs (k_self api) s3 sc2" "prepared sc sc2" by (auto simp: prepared_def)
  from sc2(2) pending key have sc2': "sc_Spec sc2 = sc_Spec sc" "meta_key (sc_meta sc2) = (ns, n)"
    "scst_State (sc_Status sc2) \<noteq> ClaimResolved" by (auto simp: prepared_def)
  have m13: "moves objs up ?K s s3"
    by (rule moves_trans [OF moves_mono [OF m1] moves_trans [OF m2 m3]]) simp
  from list_answer [OF moves_up [OF m13 up]] obtain xs s4 where
    l: "run_state (k_list api (k_self api) KRegisteredService ns []) s3 = (Inr xs, s4)" and m4: "moves objs up {} s3 s4" by blast
  have m: "moves objs up ?K s s4" by (rule moves_trans [OF m13 moves_mono [OF m4]]) simp
  have same: "objs s4 c k n = objs s c k n" if "k \<noteq> KServiceClaim" for c k n using moves_at [OF m] that by simp
  have srv4: "served api objs up acc (ns, n) ce cli s4"
    by (rule served_moves [OF srv m]) (use apart in \<open>simp_all add: written_by_claim_def\<close>)
  have st4: "claim_stored objs (k_self api) s4 sc2" using sc2(1) moves_reads [OF m4] by (simp add: claim_stored_def)
  have mi: "map_items services_of (Inr xs :: err + obj list) = Inr (services_of xs)" by (simp add: map_items_def)
  have in_list: "rs \<in> set (services_of xs) \<longleftrightarrow>
      (\<exists>m. objs s (k_self api) KRegisteredService (ns, m) = Some (ORegisteredService rs))" for rs
    using conjunct2 [OF list_found [OF l]] ns same moves_reads [OF m4] by (auto simp: services_of_in)
  have cand: "candidate (objs s4) (k_self api) sc2 rs = candidate (objs s) (k_self api) sc rs" for rs
    by (rule candidate_prepared [OF sc2(2)]) (simp add: same)
  have t2: "scsp_Target (sc_Spec sc2) = Some t" using t sc2' by simp
  have "\<exists>s' x. run_state (processServiceClaim api (services_of xs) sc2) s4 = (None, s') \<and>
    objs s' (k_self api) KServiceClaim (ns, n) = Some (OServiceClaim x) \<and> scst_State (sc_Status x) = ClaimResolved \<and>
    told (objs s') cli (acc_Namespace acc, n) x"
  proof (rule processServiceClaim_answer [OF srv4 st4 sc2'(2) t2 t(2) nss, unfolded snd_conv])
    show "(cli, acc_Namespace acc) \<noteq> (k_self api, fst (ns, n))" using apart by simp
    show "objs s4 (k_self api) KRegisteredService (meta_key (rs_meta rs)) = Some (ORegisteredService rs)"
      if "rs \<in> set (services_of xs)" for rs
      using list_services(2) [OF l mi that] moves_reads [OF m4] by simp
    show "\<exists>rs\<in>set (services_of xs). candidate (objs s4) (k_self api) sc2 rs" using some in_list cand by blast
    show "distinct (scsp_ServiceEndpointDefinitionKeys (sc_Spec sc2))" using keys sc2' by simp
    fix rs assume "rs \<in> set (services_of xs)" "candidate (objs s4) (k_self api) sc2 rs"
    with all in_list cand have "provides (objs s) (k_self api) ns (scsp_ServiceEndpointDefinitionKeys (sc_Spec sc)) rs" by blast
    with provides_cong [of "objs s4" "k_self api" "objs s"] same sc2'
    show "provides (objs s4) (k_self api) (fst (ns, n)) (scsp_ServiceEndpointDefinitionKeys (sc_Spec sc2)) rs" by simp
  qed
  then show ?thesis
    using alive sc2' by (simp add: ReconcileClaim_def g f i processClaim_def l mi)
qed

end

subsection \<open>Properties\<close>

text \<open>C5: A claim that can be served is served. Let the control plane and the application's cluster answer; let the
  claim, in a named namespace, have an application cluster context and be neither deleted nor resolved, and ask
  for no key twice; let its cluster environment lead to the application's cluster and list no application
  namespace twice; let the claim's application namespace, which is not the control plane's namespace itself,
  hold the claim that was forwarded from there; let some available service of the namespace match the claim and
  every available service that matches provide all requested keys readably, without an endpoint item that has
  neither a value nor a secret reference. Then one reconciliation returns no error and leaves the claim resolved,
  and the application's copy of the claim is resolved with the same service.\<close>

theorem ReconcileClaim_progress:
  assumes "live_store api objs up down" and "served api objs up acc (ns, n) ce cli s"
    and "objs s (k_self api) KServiceClaim (ns, n) = Some (OServiceClaim sc)"
    and "\<not> om_deletion (sc_meta sc)" and "scst_State (sc_Status sc) \<noteq> ClaimResolved"
    and "scsp_Target (sc_Spec sc) = Some t" and "sct_ApplicationClusterContext t = Some acc"
    and "distinct (cesp_ApplicationNamespaces (ce_Spec ce))"
    and "(cli, acc_Namespace acc) \<noteq> (k_self api, ns)" and "ns \<noteq> ''''"
    and "\<exists>m rs. objs s (k_self api) KRegisteredService (ns, m) = Some (ORegisteredService rs) \<and>
      candidate (objs s) (k_self api) sc rs"
    and "\<And>m rs. objs s (k_self api) KRegisteredService (ns, m) = Some (ORegisteredService rs) \<Longrightarrow>
      candidate (objs s) (k_self api) sc rs \<Longrightarrow>
      provides (objs s) (k_self api) ns (scsp_ServiceEndpointDefinitionKeys (sc_Spec sc)) rs"
    and "distinct (scsp_ServiceEndpointDefinitionKeys (sc_Spec sc))"
  shows "\<exists>s' x. run_state (ReconcileClaim api (ns, n)) s = (None, s') \<and>
    objs s' (k_self api) KServiceClaim (ns, n) = Some (OServiceClaim x) \<and> scst_State (sc_Status x) = ClaimResolved \<and>
    told (objs s') cli (acc_Namespace acc, n) x"
  by (rule live_store.ReconcileClaim_answer [OF assms(1-11) _ assms(13)]) (rule assms(12))

lemma claim_state_served:
  "served (mem_api [(''kc'', 1)] 0) mem_objs mem_up
     \<lparr>acc_ClusterEnvironmentName = ''ce'', acc_Namespace = ''apps''\<rparr> (''sys'', ''claim'') prod_env 1 claim_state"
proof -
  let ?api = "mem_api [(''kc'', 1)] 0"
  have up: "mem_up 0 claim_state" "mem_up 1 claim_state" by (simp_all add: mem_up_def claim_state_def mem_of_def)
  have "mem_objs claim_state 0 KSecret (''sys'', ''ctx'') = Some (OSecret (data_secret ''ctx'' ''kubeconfig'' ''kc''))"
    by code_simp
  moreover have "ExtractClusterRESTConfig ?api (data_secret ''ctx'' ''kubeconfig'' ''kc'') = Inr ''kc''" by code_simp
  moreover have "k_new_client ?api ''kc'' = Inr 1" by code_simp
  ultimately have "environment_client ?api (mem_objs claim_state) (''sys'', ''ce'') prod_env 1"
    using claim_state_has by (simp add: environment_client_def prod_env_def)
  moreover have "\<exists>rc. mem_objs claim_state 1 KServiceClaim (''apps'', ''claim'') = Some (OServiceClaim rc)"
  proof -
    have "case mem_objs claim_state 1 KServiceClaim (''apps'', ''claim'') of Some (OServiceClaim rc) \<Rightarrow> True | _ \<Rightarrow> False"
      by code_simp
    then show ?thesis by (auto split: option.splits obj.splits)
  qed
  ultimately show ?thesis using up by (simp add: served_def prod_env_def)
qed

theorem ReconcileClaim_progress_witness:
  "\<exists>s' x. run_state (ReconcileClaim (mem_api [(''kc'', 1)] 0) (''sys'', ''claim'')) claim_state = (None, s') \<and>
     mem_objs s' 0 KServiceClaim (''sys'', ''claim'') = Some (OServiceClaim x) \<and> scst_State (sc_Status x) = ClaimResolved \<and>
     told (mem_objs s') 1 (''apps'', ''claim'') x"
proof -
  let ?api = "mem_api [(''kc'', 1)] 0" and ?c = "claim_of ''claim'' app_target" and ?rs = "db_service ''db'' RSAvailable"
  let ?acc = "\<lparr>acc_ClusterEnvironmentName = ''ce'', acc_Namespace = ''apps''\<rparr>"
  have st: "mem_objs claim_state (k_self ?api) KServiceClaim (''sys'', ''claim'') = Some (OServiceClaim ?c)"
    using claim_state_has by simp
  have props: "\<not> om_deletion (sc_meta ?c)" "scst_State (sc_Status ?c) \<noteq> ClaimResolved"
    "scsp_Target (sc_Spec ?c) = Some app_target" "sct_ApplicationClusterContext app_target = Some ?acc"
    "distinct (cesp_ApplicationNamespaces (ce_Spec prod_env))" "(1, acc_Namespace ?acc) \<noteq> (k_self ?api, ''sys'')"
    "''sys'' \<noteq> ''''" "distinct (scsp_ServiceEndpointDefinitionKeys (sc_Spec ?c))"
    by (simp_all add: claim_of_def app_target_def prod_env_def)
  have rs: "mem_objs claim_state 0 KRegisteredService (''sys'', ''db'') = Some (ORegisteredService ?rs)" by code_simp
  have only: "r = ?rs" if "mem_objs claim_state (k_self ?api) KRegisteredService (''sys'', m) = Some (ORegisteredService r)" for m r
    using mem_objs_in [OF that] by (auto simp: claim_state_def claim_objects_def mem_of_def)
  have "env_of_claim (mem_objs claim_state) 0 ?c ''prod''"
    using claim_state_has by (simp add: env_of_claim_def claim_of_def app_target_def prod_env_def)
  moreover have "Match ''prod'' [''prod'']" by code_simp
  ultimately have cand: "candidate (mem_objs claim_state) (k_self ?api) ?c ?rs"
    by (auto simp: candidate_def db_service_def claim_of_def)
  have some: "\<exists>m rs. mem_objs claim_state (k_self ?api) KRegisteredService (''sys'', m) = Some (ORegisteredService rs) \<and>
      candidate (mem_objs claim_state) (k_self ?api) ?c rs"
    using rs cand by auto
  have "mem_objs claim_state 0 KSecret (''sys'', ''db-secret'') = Some (OSecret (data_secret ''db-secret'' ''pw'' ''s3cr3t''))"
    by code_simp
  then have "provides (mem_objs claim_state) (k_self ?api) ''sys'' (scsp_ServiceEndpointDefinitionKeys (sc_Spec ?c)) ?rs"
    by (simp add: provides_def readable_item_def db_service_def claim_of_def)
  with only have all: "provides (mem_objs claim_state) (k_self ?api) ''sys'' (scsp_ServiceEndpointDefinitionKeys (sc_Spec ?c)) r"
    if "mem_objs claim_state (k_self ?api) KRegisteredService (''sys'', m) = Some (ORegisteredService r)" for m r
    using that by blast
  from ReconcileClaim_progress [OF live.live_store_axioms, OF claim_state_served st props(1-7) some all props(8)]
  show ?thesis by simp
qed


end
