(* ===== verification/ServiceClaim_Resolved.thy ===== *)
theory ServiceClaim_Resolved
  imports ServiceClaim_Correct
begin

section \<open>Resolved claims: the \<^verbatim>\<open>Resolved\<close> branch of \<^verbatim>\<open>Reconcile\<close> in \<^verbatim>\<open>serviceclaim\_controller.go\<close>\<close>

text \<open>
  A claim that is resolved is reconciled again when its service changes (the watch that
  \<open>reconcileOnRegisteredServiceUpdate\<close> maps). It is bound once more to the service its status names:
  the service is not matched again, and when it is gone nothing is written.
\<close>

subsection \<open>Lemmas\<close>

lemma gm_get_fold_put_other:
  assumes "k \<notin> f ` set xs"
  shows "gm_get (fold (\<lambda>x. gm_put (f x) (g x)) xs d) k = gm_get d k"
  using assms by (induction xs arbitrary: d) simp_all

lemma gm_get_add_identity:
  assumes "k \<notin> sci_Name ` set (scsp_ServiceClassIdentity (sc_Spec sc))"
  shows "gm_get (sec_StringData (add_identity sc secret)) k = gm_get (sec_StringData secret) k"
  using gm_get_fold_put_other [OF assms] by (simp add: add_identity_def)

context kube_store
begin

text \<open>A literal value that is asked for ends up in the data, whatever the other items do.\<close>

lemma extract_loop_keeps:
  assumes "run_state (extract_loop api ns keys seds n d) s = (Inr (n', d'), s')" and "k \<notin> sed_Name ` set seds"
  shows "gm_get d' k = gm_get d k"
  using assms
proof (induction seds arbitrary: n d s)
  case (Cons sed seds)
  have k: "k \<notin> sed_Name ` set seds" "k \<noteq> sed_Name sed" using Cons.prems(2) by auto
  show ?case
  proof (cases rule: extract_loop_step [of ns keys sed seds n d s])
    case stop
    with Cons.prems(1) show ?thesis by simp
  next
    case (skip s1)
    show ?thesis by (rule Cons.IH [OF Cons.prems(1) [unfolded skip(1)] k(1)])
  next
    case (put v s1)
    from Cons.IH [OF Cons.prems(1) [unfolded put(1)] k(1)] k(2) show ?thesis by simp
  qed
qed simp

lemma extract_loop_literal:
  assumes "run_state (extract_loop api ns keys seds n d) s = (Inr (n', d'), s')"
    and "distinct (map sed_Name seds)" and "sed \<in> set seds" and "sed_Value sed \<noteq> ''''" and "sed_Name sed \<in> set keys"
  shows "gm_get d' (sed_Name sed) = Some (sed_Value sed)"
  using assms
proof (induction seds arbitrary: n d s)
  case (Cons x seds)
  show ?case
  proof (cases "sed = x")
    case True
    with Cons.prems have "run_state (extract_loop api ns keys seds (n + 1) (gm_put (sed_Name sed) (sed_Value sed) d)) s =
        (Inr (n', d'), s')" by simp
    from extract_loop_keeps [OF this, of "sed_Name sed"] True Cons.prems(2) show ?thesis by simp
  next
    case False
    with Cons.prems have "sed \<in> set seds" "distinct (map sed_Name seds)" by simp_all
    note IH = Cons.IH [OF _ this(2,1) Cons.prems(4,5)]
    show ?thesis
    proof (cases rule: extract_loop_step [of ns keys x seds n d s])
      case stop
      with Cons.prems(1) show ?thesis by simp
    next
      case (skip s1)
      show ?thesis by (rule IH [OF Cons.prems(1) [unfolded skip(1)]])
    next
      case (put v s1)
      show ?thesis by (rule IH [OF Cons.prems(1) [unfolded put(1)]])
    qed
  qed
qed simp

lemma bind_claim_succeeds:
  assumes "run_state (bind_claim api Some sc rs secret) s = (None, s')"
  shows "\<exists>x. objs s' (k_self api) KServiceClaim (meta_key (sc_meta sc)) = Some (OServiceClaim x) \<and>
    scst_State (sc_Status x) = ClaimResolved"
proof -
  from assms obtain sc1 s1 s3 w where
    r1: "run_state (updateServiceClaimStatus api (with_service ClaimPending rs sc)) s = ((None, sc1), s1)" and
    r4: "run_state (updateServiceClaimStatus api (with_service ClaimResolved rs sc1)) s3 = ((None, w), s')"
    by (auto simp: bind_claim_def Let_def split: prod.splits option.splits if_splits)
  from updateServiceClaimStatus_ok [OF r1] have "meta_key (sc_meta sc1) = meta_key (sc_meta sc)"
    by (simp add: with_service_def)
  with updateServiceClaimStatus_ok [OF r4] show ?thesis by (auto simp: with_service_def)
qed

lemma getServiceEndpointDefinition_ok:
  assumes "run_state (getServiceEndpointDefinition api sc rs) s = (Inr secret, s')"
  shows "objs s' = objs s" and "gm_wf (sec_StringData secret)" and "om_name (sec_meta secret) = om_name (sc_meta sc)"
    and "distinct (map sci_Name (scsp_ServiceClassIdentity (sc_Spec sc))) \<Longrightarrow>
      \<forall>i\<in>set (scsp_ServiceClassIdentity (sc_Spec sc)). gm_get (sec_StringData secret) (sci_Name i) = Some (sci_Value i)"
    and "distinct (map sed_Name (rssp_ServiceEndpointDefinition (rs_Spec rs))) \<Longrightarrow>
      \<forall>sed\<in>set (rssp_ServiceEndpointDefinition (rs_Spec rs)). sed_Value sed \<noteq> '''' \<and>
        sed_Name sed \<in> set (scsp_ServiceEndpointDefinitionKeys (sc_Spec sc)) \<and>
        sed_Name sed \<notin> sci_Name ` set (scsp_ServiceClassIdentity (sc_Spec sc)) \<longrightarrow>
          gm_get (sec_StringData secret) (sed_Name sed) = Some (sed_Value sed)"
proof -
  from assms obtain m d where
    l: "run_state (extract_loop api (om_namespace (sc_meta sc)) (scsp_ServiceEndpointDefinitionKeys (sc_Spec sc))
      (rssp_ServiceEndpointDefinition (rs_Spec rs)) 0 []) s = (Inr (m, d), s')"
    and secret: "secret = add_identity sc ((claim_secret sc)\<lparr>sec_StringData := d\<rparr>)"
    by (auto simp: getServiceEndpointDefinition_def extractServiceEndpointDefinition_def claim_secret_def
        split: prod.splits sum.splits)
  from extract_loop_ok [OF l] show "objs s' = objs s" and "gm_wf (sec_StringData secret)"
    by (simp_all add: secret add_identity_def gm_wf_fold_put extracted_def)
  show "om_name (sec_meta secret) = om_name (sc_meta sc)" by (simp add: secret add_identity_def claim_secret_def)
  show "\<forall>i\<in>set (scsp_ServiceClassIdentity (sc_Spec sc)). gm_get (sec_StringData secret) (sci_Name i) = Some (sci_Value i)"
    if "distinct (map sci_Name (scsp_ServiceClassIdentity (sc_Spec sc)))"
    using identity_value [OF that] by (simp add: secret add_identity_def)
  show "\<forall>sed\<in>set (rssp_ServiceEndpointDefinition (rs_Spec rs)). sed_Value sed \<noteq> '''' \<and>
      sed_Name sed \<in> set (scsp_ServiceEndpointDefinitionKeys (sc_Spec sc)) \<and>
      sed_Name sed \<notin> sci_Name ` set (scsp_ServiceClassIdentity (sc_Spec sc)) \<longrightarrow>
        gm_get (sec_StringData secret) (sed_Name sed) = Some (sed_Value sed)"
    if "distinct (map sed_Name (rssp_ServiceEndpointDefinition (rs_Spec rs)))"
    using extract_loop_literal [OF l that] by (simp add: secret gm_get_add_identity)
qed

text \<open>The reconciliation of a resolved claim processes the claim as it is stored.\<close>

lemma ReconcileClaim_resolved_branch:
  assumes run: "run_state (ReconcileClaim api (ns, n)) s = (r, s')"
    and stored: "objs s (k_self api) KServiceClaim (ns, n) = Some (OServiceClaim sc)"
    and sc: "\<not> om_deletion (sc_meta sc)" "scst_State (sc_Status sc) = ClaimResolved" "scst_ClaimID (sc_Status sc) \<noteq> ''''"
  obtains "r \<noteq> None" "same_but (of_kinds {KServiceClaim}) (objs s) (objs s')"
      "ServiceClaimFinalizer \<in> set (om_finalizers (sc_meta sc)) \<longrightarrow> objs s' = objs s"
    | sc1 s1 where "run_state (processResolvedServiceClaim api sc1) s1 = (r, s')"
      "claim_stored objs (k_self api) s1 sc1" "sc_Spec sc1 = sc_Spec sc" "sc_Status sc1 = sc_Status sc"
      "meta_key (sc_meta sc1) = (ns, n)" "same_but (of_kinds {KServiceClaim}) (objs s) (objs s1)"
      "ServiceClaimFinalizer \<in> set (om_finalizers (sc_meta sc)) \<longrightarrow> objs s1 = objs s"
  using run stored sc(1)
proof (cases rule: ReconcileClaim_steps)
  case get_failed
  then show thesis by (intro that(1)) simp_all
next
  case (finalizer_failed e s1 sc1)
  with modifies_run [OF modifies_ensure_finalizer finalizer_failed(3)] show thesis
    by (intro that(1)) (auto simp: ensure_finalizer_def AddFinalizer_def)
next
  case (init_failed e s1 sc1 s2 sc2)
  from ensure_finalizer_ok [OF init_failed(3)] stored sc init_failed(2) keyed [OF stored]
  have "sc_Status sc1 = sc_Status sc" by (simp add: claim_stored_def obj_key_def)
  with init_failed(6) sc(3) show thesis by (simp add: ensureServiceClaimIsInitialized_def)
next
  case (prepared s1 sc1 s2 sc2 s3)
  from prepared(6,7) sc(3) have same: "sc2 = sc1" "s3 = s2" by (simp_all add: ensureServiceClaimIsInitialized_def)
  have fin: "ServiceClaimFinalizer \<in> set (om_finalizers (sc_meta sc)) \<longrightarrow> objs s2 = objs s"
    using prepared(1,2) by (auto simp: ensure_finalizer_def AddFinalizer_def)
  have "same_but (of_kinds {KServiceClaim}) (objs s) (objs s2)"
    using modifies_run [OF modifies_ensure_finalizer prepared(2)] prepared(1) by simp
  with prepared same fin sc(2) show thesis by (intro that(2) [of sc1 s2]) simp_all
qed

end

subsection \<open>What reconciling a resolved claim achieves\<close>


text \<open>C38: When the service that a resolved claim names is gone, and the claim is not being deleted and has its claim
  identifier and finalizer, as a resolved claim has, the reconciliation that this triggers returns an error and
  writes nothing, so the claim stays resolved with a service that does not exist.\<close>

theorem ReconcileClaim_service_gone:
  assumes "kube_store api objs"
    and "run_state (ReconcileClaim api (ns, n)) s = (r, s')"
    and "objs s (k_self api) KServiceClaim (ns, n) = Some (OServiceClaim sc)"
    and "\<not> om_deletion (sc_meta sc)" and "scst_State (sc_Status sc) = ClaimResolved"
    and "scst_ClaimID (sc_Status sc) \<noteq> ''''" and "ServiceClaimFinalizer \<in> set (om_finalizers (sc_meta sc))"
    and "scst_RegisteredService (sc_Status sc) = Some ref"
    and "objs s (k_self api) KRegisteredService (ns, ref_Name ref) = None"
  shows "r \<noteq> None \<and> objs s' = objs s"
proof (rule kube_store.ReconcileClaim_resolved_branch [OF assms(1), OF assms(2-6)])
  assume "r \<noteq> None" "ServiceClaimFinalizer \<in> set (om_finalizers (sc_meta sc)) \<longrightarrow> objs s' = objs s"
  with assms(7) show ?thesis by simp
next
  fix sc1 s1
  assume p: "run_state (processResolvedServiceClaim api sc1) s1 = (r, s')" and st: "sc_Status sc1 = sc_Status sc"
    and key: "meta_key (sc_meta sc1) = (ns, n)"
    and same: "ServiceClaimFinalizer \<in> set (om_finalizers (sc_meta sc)) \<longrightarrow> objs s1 = objs s"
  obtain g s2 where g: "run_state (get_service api (k_self api) (ns, ref_Name ref)) s1 = (g, s2)" by (metis prod.collapse)
  have s2: "objs s2 = objs s1" by (rule reads_only [OF kube_store.modifies_get_service [OF assms(1)] g])
  have s1: "objs s1 = objs s" using same assms(7) by simp
  have "\<exists>e. g = Inl e"
  proof (cases g)
    case (Inr rs)
    with kube_store.get_service_found [OF assms(1), OF g [unfolded Inr]] s1 assms(9) show ?thesis by simp
  qed simp
  with p g st assms(8) key s1 s2 show ?thesis by (auto simp: processResolvedServiceClaim_def meta_key_def)
qed

lemma reconciled_claim_refreshed:
  assumes "kube_store api objs"
    and "run_state (ReconcileClaim api (ns, n)) s = (None, s')"
    and "objs s (k_self api) KServiceClaim (ns, n) = Some (OServiceClaim sc)"
    and "\<not> om_deletion (sc_meta sc)" and "scst_State (sc_Status sc) = ClaimResolved"
    and "scst_ClaimID (sc_Status sc) \<noteq> ''''"
    and "scsp_Target (sc_Spec sc) = Some t" and "sct_ApplicationClusterContext t = Some acc"
    and "objs s (k_self api) KClusterEnvironment (ns, acc_ClusterEnvironmentName acc) = Some (OClusterEnvironment ce)"
    and "acc_Namespace acc \<in> set (cesp_ApplicationNamespaces (ce_Spec ce))"
    and "distinct (cesp_ApplicationNamespaces (ce_Spec ce))"
    and "distinct (map sci_Name (scsp_ServiceClassIdentity (sc_Spec sc)))"
  shows "\<exists>ref rs rs' sc' cli x. scst_RegisteredService (sc_Status sc) = Some ref \<and>
    objs s (k_self api) KRegisteredService (ns, ref_Name ref) = Some (ORegisteredService rs) \<and>
    objs s' (k_self api) KRegisteredService (ns, ref_Name ref) = Some (ORegisteredService rs') \<and>
    rs_State rs' = RSClaimed \<and> rs_Spec rs' = rs_Spec rs \<and>
    objs s' (k_self api) KServiceClaim (ns, n) = Some (OServiceClaim sc') \<and>
    scst_State (sc_Status sc') = ClaimResolved \<and>
    scst_RegisteredService (sc_Status sc') = Some \<lparr>ref_Name = ref_Name ref, ref_UID = om_uid (rs_meta rs)\<rparr> \<and>
    environment_client api (objs s) (ns, acc_ClusterEnvironmentName acc) ce cli \<and>
    objs s' cli KSecret (acc_Namespace acc, n) = Some (OSecret x) \<and>
    (\<forall>i\<in>set (scsp_ServiceClassIdentity (sc_Spec sc)). gm_get (secret_content x) (sci_Name i) = Some (sci_Value i)) \<and>
    (distinct (map sed_Name (rssp_ServiceEndpointDefinition (rs_Spec rs))) \<longrightarrow>
      (\<forall>sed\<in>set (rssp_ServiceEndpointDefinition (rs_Spec rs)). sed_Value sed \<noteq> '''' \<and>
        sed_Name sed \<in> set (scsp_ServiceEndpointDefinitionKeys (sc_Spec sc)) \<and>
        sed_Name sed \<notin> sci_Name ` set (scsp_ServiceClassIdentity (sc_Spec sc)) \<longrightarrow>
          gm_get (secret_content x) (sed_Name sed) = Some (sed_Value sed)))"
proof (rule kube_store.ReconcileClaim_resolved_branch [OF assms(1), OF assms(2-6)])
  assume "(None :: err option) \<noteq> None" then show ?thesis by simp
next
  fix sc1 s1
  let ?self = "k_self api"
  assume p: "run_state (processResolvedServiceClaim api sc1) s1 = (None, s')"
    and st1: "claim_stored objs ?self s1 sc1" and sp: "sc_Spec sc1 = sc_Spec sc" and st: "sc_Status sc1 = sc_Status sc"
    and key: "meta_key (sc_meta sc1) = (ns, n)" and sb: "same_but (of_kinds {KServiceClaim}) (objs s) (objs s1)"
  have names: "om_namespace (sc_meta sc1) = ns" "om_name (sc_meta sc1) = n" using key by (simp_all add: meta_key_def)
  from p names obtain ref rs s2 secret s3 where ref: "scst_RegisteredService (sc_Status sc1) = Some ref"
    and g: "run_state (get_service api ?self (ns, ref_Name ref)) s1 = (Inr rs, s2)"
    and d: "run_state (getServiceEndpointDefinition api sc1 rs) s2 = (Inr secret, s3)"
    and b: "run_state (bind_claim api Some sc1 rs secret) s3 = (None, s')"
    by (auto simp: processResolvedServiceClaim_def split: prod.splits option.splits sum.splits)
  note sec = kube_store.getServiceEndpointDefinition_ok [OF assms(1), OF d]
  have s3: "objs s3 = objs s1"
    using reads_only [OF kube_store.modifies_get_service [OF assms(1)] g] sec(1) by simp
  have same: "objs s3 c k m = objs s c k m" if "k \<noteq> KServiceClaim" for c k m
    using same_but_of_kinds [OF sb] that s3 by simp
  from kube_store.get_service_found [OF assms(1), OF g] s3
  have rs3: "objs s3 ?self KRegisteredService (ns, ref_Name ref) = Some (ORegisteredService rs)" by simp
  from kube_store.keyed [OF assms(1), OF rs3] have rk: "meta_key (rs_meta rs) = (ns, ref_Name ref)" by (simp add: obj_key_def)
  have st3: "claim_stored objs ?self s3 sc1" using st1 s3 by (simp add: claim_stored_def)
  from kube_store.bind_claim_succeeds [OF assms(1), OF b] obtain sc' where
    sc': "objs s' ?self KServiceClaim (meta_key (sc_meta sc1)) = Some (OServiceClaim sc')" "scst_State (sc_Status sc') = ClaimResolved"
    by blast
  note res = kube_store.bind_claim_resolved [OF assms(1), OF b st3 rs3 [folded rk] assms(7) [folded sp] assms(8) sec(2,3) sc']
  from res(3) obtain ce' cli where ce': "environment_client api (objs s3) (ns, acc_ClusterEnvironmentName acc) ce' cli"
    "acc_Namespace acc \<in> set (cesp_ApplicationNamespaces (ce_Spec ce')) \<and> distinct (cesp_ApplicationNamespaces (ce_Spec ce')) \<longrightarrow>
       delivered (objs s') cli (acc_Namespace acc) sc1 (sec_StringData secret)"
    unfolding names by blast
  have env: "environment_client api (objs s) (ns, acc_ClusterEnvironmentName acc) ce' cli"
    using ce'(1) by (simp add: environment_client_def same)
  with assms(9) have "ce' = ce" by (simp add: environment_client_def)
  with ce'(2) assms(10,11) names obtain x where
    x: "objs s' cli KSecret (acc_Namespace acc, n) = Some (OSecret x)"
      "\<And>k v. gm_get (sec_StringData secret) k = Some v \<Longrightarrow> gm_get (secret_content x) k = Some v"
    by (auto simp: delivered_def)
  from res(2) obtain rs' where rs': "objs s' ?self KRegisteredService (ns, ref_Name ref) = Some (ORegisteredService rs')"
    "rs_State rs' = RSClaimed" "rs_Spec rs' = rs_Spec rs" unfolding rk by fastforce
  show ?thesis
    using ref st rs3 same rs' sc' key res(1) rk env \<open>ce' = ce\<close> x sec(4,5) assms(12) sp
    by (intro exI [of _ ref] exI [of _ rs] exI [of _ rs'] exI [of _ sc'] exI [of _ cli] exI [of _ x]) (simp add: meta_key_def)
qed

text \<open>C6: A reconciliation without an error refreshes a resolved claim. Let the claim not be deleted, have a claim
  identifier and an application cluster context whose environment is stored, lists the application namespace and
  lists no namespace twice, and let it name no identity item twice. Then the claim stays resolved with the
  service that its status names, whether or not that service still matches the claim, and the service is
  marked as claimed, with an unchanged specification. The application's secret holds the claim's identity and,
  if the service defines no endpoint name twice, every endpoint value that the service has now as a literal,
  that the claim requests and that no identity item of the same name overrides (values that the service takes
  from secrets are not part of the statement).\<close>

theorem ReconcileClaim_refreshes:
  assumes "kube_store api objs"
    and "run_state (ReconcileClaim api (ns, n)) s = (None, s')"
    and "objs s (k_self api) KServiceClaim (ns, n) = Some (OServiceClaim sc)"
    and "\<not> om_deletion (sc_meta sc)" and "scst_State (sc_Status sc) = ClaimResolved"
    and "scst_ClaimID (sc_Status sc) \<noteq> ''''"
    and "scsp_Target (sc_Spec sc) = Some t" and "sct_ApplicationClusterContext t = Some acc"
    and "objs s (k_self api) KClusterEnvironment (ns, acc_ClusterEnvironmentName acc) = Some (OClusterEnvironment ce)"
    and "acc_Namespace acc \<in> set (cesp_ApplicationNamespaces (ce_Spec ce))"
    and "distinct (cesp_ApplicationNamespaces (ce_Spec ce))"
    and "distinct (map sci_Name (scsp_ServiceClassIdentity (sc_Spec sc)))"
  shows "\<exists>ref rs rs' sc' cli x. scst_RegisteredService (sc_Status sc) = Some ref \<and>
    objs s (k_self api) KRegisteredService (ns, ref_Name ref) = Some (ORegisteredService rs) \<and>
    objs s' (k_self api) KRegisteredService (ns, ref_Name ref) = Some (ORegisteredService rs') \<and>
    rs_State rs' = RSClaimed \<and> rs_Spec rs' = rs_Spec rs \<and>
    objs s' (k_self api) KServiceClaim (ns, n) = Some (OServiceClaim sc') \<and>
    scst_State (sc_Status sc') = ClaimResolved \<and>
    scst_RegisteredService (sc_Status sc') = Some \<lparr>ref_Name = ref_Name ref, ref_UID = om_uid (rs_meta rs)\<rparr> \<and>
    environment_client api (objs s) (ns, acc_ClusterEnvironmentName acc) ce cli \<and>
    objs s' cli KSecret (acc_Namespace acc, n) = Some (OSecret x) \<and>
    (\<forall>i\<in>set (scsp_ServiceClassIdentity (sc_Spec sc)). gm_get (secret_content x) (sci_Name i) = Some (sci_Value i)) \<and>
    (distinct (map sed_Name (rssp_ServiceEndpointDefinition (rs_Spec rs))) \<longrightarrow>
      (\<forall>sed\<in>set (rssp_ServiceEndpointDefinition (rs_Spec rs)). sed_Value sed \<noteq> '''' \<and>
        sed_Name sed \<in> set (scsp_ServiceEndpointDefinitionKeys (sc_Spec sc)) \<and>
        sed_Name sed \<notin> sci_Name ` set (scsp_ServiceClassIdentity (sc_Spec sc)) \<longrightarrow>
          gm_get (secret_content x) (sed_Name sed) = Some (sed_Value sed)))"
  by (rule reconciled_claim_refreshed [OF assms])

subsection \<open>A resolved claim whose service was taken away or changed\<close>

definition served_claim :: ServiceClaim where
  "served_claim = (claim_of ''claim'' app_target)
     \<lparr>sc_meta := (new_meta ''sys'' ''claim'')\<lparr>om_resourceVersion := ''1'', om_finalizers := [ServiceClaimFinalizer]\<rparr>,
      sc_Status := \<lparr>scst_State = ClaimResolved, scst_ClaimID = ''id'',
        scst_RegisteredService = Some \<lparr>ref_Name = ''db'', ref_UID = ''u-db''\<rparr>, scst_Conditions = []\<rparr>\<rparr>"

definition gone_state :: mem where
  "gone_state = mem_of [(0, OServiceClaim served_claim)]"

text \<open>The service has moved to another host and to another type, which the claim does not ask for.\<close>

definition moved_service :: RegisteredService where
  "moved_service = (db_service ''db'' RSClaimed)\<lparr>rs_Spec := (rs_Spec (db_service ''db'' RSClaimed))
     \<lparr>rssp_ServiceClassIdentity := [\<lparr>sci_Name = ''type'', sci_Value = ''nosql''\<rparr>],
      rssp_ServiceEndpointDefinition := [\<lparr>sed_Name = ''host'', sed_Value = ''new.local'', sed_ValueFromSecret = None\<rparr>]\<rparr>\<rparr>"

definition moved_state :: mem where
  "moved_state = mem_of
     [(0, OSecret (data_secret ''ctx'' ''kubeconfig'' ''kc'')), (0, OServiceClaim served_claim),
      (0, ORegisteredService moved_service), (0, OClusterEnvironment prod_env),
      (1, OServiceClaim (served_claim\<lparr>sc_meta := (new_meta ''apps'' ''claim'')\<lparr>om_resourceVersion := ''1''\<rparr>\<rparr>))]"

lemma served_claim_props:
  "\<not> om_deletion (sc_meta served_claim)" "scst_State (sc_Status served_claim) = ClaimResolved"
  "scst_ClaimID (sc_Status served_claim) \<noteq> ''''" "ServiceClaimFinalizer \<in> set (om_finalizers (sc_meta served_claim))"
  "scst_RegisteredService (sc_Status served_claim) = Some \<lparr>ref_Name = ''db'', ref_UID = ''u-db''\<rparr>"
  "scsp_Target (sc_Spec served_claim) = Some app_target"
  "distinct (map sci_Name (scsp_ServiceClassIdentity (sc_Spec served_claim)))"
  by (simp_all add: served_claim_def claim_of_def)

theorem ReconcileClaim_service_gone_witness:
  "\<exists>e s'. run_state (ReconcileClaim (mem_api [] 0) (''sys'', ''claim'')) gone_state = (Some e, s') \<and> IsNotFound e \<and>
     map_option (\<lambda>c. scst_State (sc_Status c)) (claim_in s' (''sys'', ''claim'')) = Some ClaimResolved"
proof -
  let ?run = "run_state (ReconcileClaim (mem_api [] 0) (''sys'', ''claim'')) gone_state"
  have "case fst ?run of Some e \<Rightarrow> IsNotFound e | None \<Rightarrow> False" by code_simp
  then obtain e s' where run: "?run = (Some e, s')" and e: "IsNotFound e"
    by (cases ?run) (auto split: option.splits)
  have st: "mem_objs gone_state (k_self (mem_api [] 0)) KServiceClaim (''sys'', ''claim'') = Some (OServiceClaim served_claim)"
    "mem_objs gone_state (k_self (mem_api [] 0)) KRegisteredService
      (''sys'', ref_Name \<lparr>ref_Name = ''db'', ref_UID = ''u-db''\<rparr>) = None" by code_simp+
  from ReconcileClaim_service_gone [OF mem.kube_store_axioms, OF run st(1) served_claim_props(1-5) st(2)]
  have "claim_in s' (''sys'', ''claim'') = Some served_claim" using st(1) by (simp add: claim_in_def)
  with run e show ?thesis by (simp add: served_claim_props)
qed

theorem ReconcileClaim_refreshes_witness:
  "\<exists>s' x. run_state (ReconcileClaim (mem_api [(''kc'', 1)] 0) (''sys'', ''claim'')) moved_state = (None, s') \<and>
     map_option (\<lambda>c. scst_State (sc_Status c)) (claim_in s' (''sys'', ''claim'')) = Some ClaimResolved \<and>
     \<not> checkSCISubset (scsp_ServiceClassIdentity (sc_Spec served_claim)) (rssp_ServiceClassIdentity (rs_Spec moved_service)) \<and>
     (\<exists>cli. mem_objs s' cli KSecret (''apps'', ''claim'') = Some (OSecret x)) \<and>
     gm_get (secret_content x) ''host'' = Some ''new.local'' \<and> gm_get (secret_content x) ''type'' = Some ''sql''"
proof -
  let ?api = "mem_api [(''kc'', 1)] 0" and ?acc = "\<lparr>acc_ClusterEnvironmentName = ''ce'', acc_Namespace = ''apps''\<rparr>"
  have "fst (run_state (ReconcileClaim ?api (''sys'', ''claim'')) moved_state) = None" by code_simp
  then obtain s' where run: "run_state (ReconcileClaim ?api (''sys'', ''claim'')) moved_state = (None, s')" by (metis prod.collapse)
  have st: "mem_objs moved_state (k_self ?api) KServiceClaim (''sys'', ''claim'') = Some (OServiceClaim served_claim)"
    "mem_objs moved_state (k_self ?api) KClusterEnvironment (''sys'', acc_ClusterEnvironmentName ?acc) =
      Some (OClusterEnvironment prod_env)"
    "mem_objs moved_state (k_self ?api) KRegisteredService (''sys'', ''db'') = Some (ORegisteredService moved_service)"
    by code_simp+
  have acc: "sct_ApplicationClusterContext app_target = Some ?acc" by (simp add: app_target_def)
  have ns: "acc_Namespace ?acc \<in> set (cesp_ApplicationNamespaces (ce_Spec prod_env))"
    "distinct (cesp_ApplicationNamespaces (ce_Spec prod_env))" by (simp_all add: prod_env_def)
  have no_match: "\<not> checkSCISubset (scsp_ServiceClassIdentity (sc_Spec served_claim))
      (rssp_ServiceClassIdentity (rs_Spec moved_service))" by code_simp
  from ReconcileClaim_refreshes [OF mem.kube_store_axioms, OF run st(1) served_claim_props(1-3,6) acc st(2) ns
      served_claim_props(7)] st(3)
  obtain sc' cli x where "mem_objs s' 0 KServiceClaim (''sys'', ''claim'') = Some (OServiceClaim sc')"
    "scst_State (sc_Status sc') = ClaimResolved" "mem_objs s' cli KSecret (''apps'', ''claim'') = Some (OSecret x)"
    "gm_get (secret_content x) ''type'' = Some ''sql''" "gm_get (secret_content x) ''host'' = Some ''new.local''"
    by (auto simp: served_claim_props) (auto simp: served_claim_def claim_of_def moved_service_def)
  with run no_match show ?thesis by (intro exI [of _ s'] exI [of _ x]) (auto simp: claim_in_def)
qed

end
