(* ===== verification/Service_Mirror.thy ===== *)
theory Service_Mirror
  imports Informers_Correct
begin

section \<open>The registered services of a worker cluster and their copies\<close>

text \<open>
  An informer of a service namespace hands the events of that namespace to its handlers one after the
  other. The abstract state is the map from names to the registered services of the namespace; the
  handlers' writes in the control plane follow it, whatever other controllers do in between to the
  fields that are not copied.
\<close>

subsection \<open>Events\<close>

datatype service_event = ServiceAdded watched | ServiceUpdated watched | ServiceDeleted watched

text \<open>The three functions that \<^verbatim>\<open>RunSvcInformer\<close> registers; \<open>conv\<close> is the conversion of unstructured objects.\<close>

fun handle_service_event ::
  "(Unstructured \<Rightarrow> err + RegisteredService) \<Rightarrow> 's kube \<Rightarrow> string \<Rightarrow> string \<Rightarrow> bool \<Rightarrow> service_event \<Rightarrow>
     ('s, err option) state" where
  "handle_service_event conv api ceName ceNamespace synced (ServiceAdded obj) =
     service_upserted api ceName ceNamespace synced (parseRegisteredService conv obj)"
| "handle_service_event conv api ceName ceNamespace synced (ServiceUpdated future) =
     service_upserted api ceName ceNamespace synced (parseRegisteredService conv future)"
| "handle_service_event conv api ceName ceNamespace synced (ServiceDeleted obj) =
     service_deleted api ceNamespace synced (parseRegisteredService conv obj)"

text \<open>What an event says of the namespace that is watched.\<close>

definition set_service ::
  "err + RegisteredService \<Rightarrow> (RegisteredService \<Rightarrow> RegisteredService option) \<Rightarrow>
     (string \<rightharpoonup> RegisteredService) \<Rightarrow> string \<rightharpoonup> RegisteredService" where
  "set_service parsed v M = (case parsed of Inl e \<Rightarrow> M | Inr rs \<Rightarrow> M(om_name (rs_meta rs) := v rs))"

fun apply_event ::
  "(Unstructured \<Rightarrow> err + RegisteredService) \<Rightarrow> service_event \<Rightarrow> (string \<rightharpoonup> RegisteredService) \<Rightarrow> string \<rightharpoonup> RegisteredService" where
  "apply_event conv (ServiceAdded obj) M = set_service (parseRegisteredService conv obj) Some M"
| "apply_event conv (ServiceUpdated obj) M = set_service (parseRegisteredService conv obj) Some M"
| "apply_event conv (ServiceDeleted obj) M = set_service (parseRegisteredService conv obj) (\<lambda>_. None) M"

text \<open>The fields of a stored service that are copied, with its finalizers; a copy has none, so that its
  deletion is immediate.\<close>

type_synonym service_fields = "RegisteredServiceSpec \<times> (string, string) gomap \<times> (string, string) gomap \<times> string list"

definition stored_fields :: "obj \<Rightarrow> service_fields option" where
  "stored_fields x = (case x of
       ORegisteredService c \<Rightarrow> Some (rs_Spec c, om_labels (rs_meta c), om_annotations (rs_meta c), om_finalizers (rs_meta c))
     | _ \<Rightarrow> None)"

definition copy_fields :: "RegisteredService \<Rightarrow> service_fields option" where
  "copy_fields rs = Some (rs_Spec rs, om_labels (rs_meta rs), om_annotations (rs_meta rs), [])"

text \<open>The control plane's registered services in a namespace are copies of those of \<open>M\<close>, and there are no others.\<close>

definition mirrors :: "cluster \<Rightarrow> string \<Rightarrow> (string \<rightharpoonup> RegisteredService) \<Rightarrow> (cluster \<Rightarrow> okind \<Rightarrow> nsname \<Rightarrow> obj option) \<Rightarrow> bool" where
  "mirrors c ns M f =
     (\<forall>n. map_option stored_fields (f c KRegisteredService (ns, n)) = map_option copy_fields (M n))"

definition same_copies :: "cluster \<Rightarrow> string \<Rightarrow> (cluster \<Rightarrow> okind \<Rightarrow> nsname \<Rightarrow> obj option) \<Rightarrow>
    (cluster \<Rightarrow> okind \<Rightarrow> nsname \<Rightarrow> obj option) \<Rightarrow> bool" where
  "same_copies c ns f g = (\<forall>n. map_option stored_fields (g c KRegisteredService (ns, n)) =
     map_option stored_fields (f c KRegisteredService (ns, n)))"

lemma mirrors_same_copies: "mirrors c ns M f \<Longrightarrow> same_copies c ns f g \<Longrightarrow> mirrors c ns M g"
  by (simp add: mirrors_def same_copies_def)

lemma mirrors_upd:
  assumes "mirrors c ns M f" and "\<And>m. m \<noteq> n \<Longrightarrow> g c KRegisteredService (ns, m) = f c KRegisteredService (ns, m)"
    and "map_option stored_fields (g c KRegisteredService (ns, n)) = map_option copy_fields v"
  shows "mirrors c ns (M(n := v)) g"
  using assms by (simp add: mirrors_def)

lemma mirrors_plain:
  assumes "mirrors c ns M f" and "f c KRegisteredService (ns, n) = Some (ORegisteredService r)"
  shows "om_finalizers (rs_meta r) = []"
proof -
  from assms(1) have "map_option stored_fields (f c KRegisteredService (ns, n)) = map_option copy_fields (M n)"
    by (simp add: mirrors_def)
  with assms(2) show ?thesis by (cases "M n") (simp_all add: stored_fields_def copy_fields_def)
qed

subsection \<open>Histories\<close>

text \<open>Events that are handled without an error, between steps of others that leave the copied fields alone.\<close>

inductive mirror_run :: "(Unstructured \<Rightarrow> err + RegisteredService) \<Rightarrow> 's kube \<Rightarrow> ('s \<Rightarrow> cluster \<Rightarrow> okind \<Rightarrow> nsname \<Rightarrow> obj option) \<Rightarrow> string \<Rightarrow> string \<Rightarrow>
    service_event list \<Rightarrow> 's \<Rightarrow> 's \<Rightarrow> bool"
  for conv api objs ceName ns where
  start: "mirror_run conv api objs ceName ns [] s s"
| handled: "mirror_run conv api objs ceName ns es s t \<Longrightarrow>
    run_state (handle_service_event conv api ceName ns True e) t = (None, u) \<Longrightarrow> mirror_run conv api objs ceName ns (es @ [e]) s u"
| others: "mirror_run conv api objs ceName ns es s t \<Longrightarrow> same_copies (k_self api) ns (objs t) (objs u) \<Longrightarrow>
    mirror_run conv api objs ceName ns es s u"

context kube_store
begin

lemma copy_service_stores:
  assumes run: "run_state (CreateOrUpdate api c (ORegisteredService (empty_service ns n)) (copy_service rs)) s = ((Inr op, z), s')"
    and plain: "\<And>x. objs s c KRegisteredService (ns, n) = Some x \<Longrightarrow> om_finalizers (obj_meta x) = []"
  shows "\<exists>x. objs s' c KRegisteredService (ns, n) = Some x \<and> stored_fields x = copy_fields rs"
proof -
  let ?e = "ORegisteredService (empty_service ns n)"
  have key: "obj_kind ?e = KRegisteredService" "obj_key ?e = (ns, n)" by (simp_all add: obj_key_def empty_service_def)
  from CreateOrUpdate_stores [OF run copy_service_mutates stable_copy] key
  have z: "objs s' c KRegisteredService (ns, n) = Some z" "copies_service rs z" by auto
  have "om_finalizers (obj_meta z) = []"
    using CreateOrUpdate_ok [OF run mutates_to_keeps_kind [OF copy_service_mutates], unfolded key]
  proof (elim disjE exE conjE)
    fix y u v st assume "copy_service rs ?e = Inr y" "z = populated u v (copy_status st (merge_string_data y))"
    then show ?thesis by (cases st) (auto simp: copy_service_def empty_service_def populated_def new_meta_def)
  next
    fix old assume "objs s c KRegisteredService (ns, n) = Some old" "z = old"
    with plain show ?thesis by simp
  next
    fix old y v assume o: "objs s c KRegisteredService (ns, n) = Some old" "copy_service rs old = Inr y" "z = written old v y"
    from o(2) obtain c where c: "old = ORegisteredService c" "y = ORegisteredService (c
        \<lparr>rs_meta := (rs_meta c)\<lparr>om_annotations := om_annotations (rs_meta rs), om_labels := om_labels (rs_meta rs)\<rparr>,
         rs_Spec := rs_Spec rs\<rparr>)" by (cases old) (auto simp: copy_service_def)
    with plain [OF o(1)] o(3) show ?thesis by (simp add: written_def keep_server_fields_def set_version_def)
  qed
  with z show ?thesis by (auto simp: copies_service_def stored_fields_def copy_fields_def)
qed

lemma service_upserted_copies:
  assumes run: "run_state (service_upserted api ceName ns True (Inr rs)) s = (None, s')"
    and m: "mirrors (k_self api) ns M (objs s)"
  shows "mirrors (k_self api) ns (M(om_name (rs_meta rs) \<mapsto> rs)) (objs s')"
proof -
  let ?n = "om_name (rs_meta rs)" and ?e = "ORegisteredService (empty_service ns (om_name (rs_meta rs)))"
  have key: "obj_kind ?e = KRegisteredService" "obj_key ?e = (ns, ?n)" by (simp_all add: obj_key_def empty_service_def)
  obtain r z s1 where a: "run_state (CreateOrUpdate api (k_self api) ?e (copy_service rs)) s = ((r, z), s1)"
    by (metis prod.collapse)
  with run obtain op where r: "r = Inr op" by (cases r) (auto simp: service_upserted_def createUpdate_def)
  have plain: "om_finalizers (obj_meta x) = []" if "objs s (k_self api) KRegisteredService (ns, ?n) = Some x" for x
  proof -
    from keyed [OF that] obtain c where "x = ORegisteredService c" by (cases x) auto
    with mirrors_plain [OF m] that show ?thesis by simp
  qed
  from copy_service_stores [OF a [unfolded r] plain] obtain x where
    x: "objs s1 (k_self api) KRegisteredService (ns, ?n) = Some x" "stored_fields x = copy_fields rs" by blast
  have "modifies objs {(k_self api, KRegisteredService, (ns, ?n))} (CreateOrUpdate api (k_self api) ?e (copy_service rs))"
    by (intro modifies_CreateOrUpdate mutates_to_keeps_kind [OF copy_service_mutates]) (simp add: key)
  from modifies_run [OF this a] have others: "objs s1 (k_self api) KRegisteredService (ns, m) =
      objs s (k_self api) KRegisteredService (ns, m)" if "m \<noteq> ?n" for m
    using that by (simp add: same_but_def)
  define rest where "rest = do {
     c \<leftarrow> bakeClient api ceName ns;
     case c of
       Inl e \<Rightarrow> ret (Some e)
     | Inr cli \<Rightarrow> do {
         g \<leftarrow> get_secret api cli (om_namespace (rs_meta rs), ?n @ ''-descriptor'');
         case g of
           Inl e \<Rightarrow> ret (Some e)
         | Inr s \<Rightarrow> do {
             (q, _) \<leftarrow> CreateOrUpdate api (k_self api) (OSecret (empty_secret ns (om_name (sec_meta s)))) (copy_data s);
             ret (err_of q) } } }"
  from run a r have "run_state rest s1 = (None, s')"
    by (simp add: service_upserted_def createUpdate_def rest_def)
  moreover have "modifies objs (of_kinds {KSecret}) rest"
    unfolding rest_def by (auto intro!: frame_intros keeps_kind_copy_data split: sum.split prod.split)
  ultimately have "objs s' (k_self api) KRegisteredService k = objs s1 (k_self api) KRegisteredService k" for k
    by (auto dest!: modifies_run simp: same_but_def)
  with x others show ?thesis by (intro mirrors_upd [OF m]) simp_all
qed

lemma service_deleted_copies:
  assumes run: "run_state (service_deleted api ns True (Inr rs)) s = (None, s')"
    and m: "mirrors (k_self api) ns M (objs s)"
  shows "mirrors (k_self api) ns (M(om_name (rs_meta rs) := None)) (objs s')"
proof -
  let ?n = "om_name (rs_meta rs)"
  from run obtain s1 q where d: "run_state (k_delete api (k_self api) KRegisteredService (ns, ?n)) s = (None, s1)"
    and q: "run_state (k_delete api (k_self api) KSecret (ns, ?n @ ''-descriptor'')) s1 = (q, s')"
    by (auto simp: service_deleted_def split: prod.splits option.splits)
  from delete_ok [OF d] obtain old where old: "objs s (k_self api) KRegisteredService (ns, ?n) = Some old"
    "if om_finalizers (obj_meta old) = [] then objs s1 (k_self api) KRegisteredService (ns, ?n) = None
     else \<exists>y. objs s1 (k_self api) KRegisteredService (ns, ?n) = Some y \<and> om_deletion (obj_meta y)" by blast
  from keyed [OF old(1)] obtain c where c: "old = ORegisteredService c" by (cases old) auto
  with mirrors_plain [OF m] old have "objs s1 (k_self api) KRegisteredService (ns, ?n) = None" by simp
  with delete_others [OF d] delete_others [OF q] show ?thesis
    by (intro mirrors_upd [OF m]) (auto simp: same_but_def)
qed

lemma handled_event_mirrors:
  assumes "run_state (handle_service_event conv api ceName ns True e) s = (None, s')" and "mirrors (k_self api) ns M (objs s)"
  shows "mirrors (k_self api) ns (apply_event conv e M) (objs s')"
proof -
  have parsed: "\<exists>rs. parseRegisteredService conv obj = Inr rs" if "e \<in> {ServiceAdded obj, ServiceUpdated obj, ServiceDeleted obj}" for obj
    using that assms(1) by (cases "parseRegisteredService conv obj") (auto simp: service_upserted_def service_deleted_def)
  show ?thesis
  proof (cases e)
    case (ServiceAdded obj)
    with parsed [of obj] assms show ?thesis by (auto simp: set_service_def service_upserted_copies)
  next
    case (ServiceUpdated obj)
    with parsed [of obj] assms show ?thesis by (auto simp: set_service_def service_upserted_copies)
  next
    case (ServiceDeleted obj)
    with parsed [of obj] assms show ?thesis by (auto simp: set_service_def service_deleted_copies)
  qed
qed

lemma mirror_run_mirrors:
  assumes "mirror_run conv api objs ceName ns es s t" and "mirrors (k_self api) ns M (objs s)"
  shows "mirrors (k_self api) ns (fold (apply_event conv) es M) (objs t)"
  using assms
proof (induction rule: mirror_run.induct)
  case (handled es s t e u)
  then show ?case using handled_event_mirrors by simp
next
  case (others es s t u)
  then show ?case using mirrors_same_copies by blast
qed simp

end

subsection \<open>Properties\<close>


text \<open>Watched objects and their conversion: the content of an object tells which service it is.\<close>

definition silver_db :: RegisteredService where
  "silver_db = remote_db\<lparr>rs_Spec := (rs_Spec remote_db)\<lparr>rssp_SLA := ''silver''\<rparr>\<rparr>"

definition other_db :: RegisteredService where
  "other_db = remote_db\<lparr>rs_meta := (rs_meta remote_db)\<lparr>om_namespace := ''mq''\<rparr>\<rparr>"

definition watched_object :: "string \<Rightarrow> watched" where
  "watched_object v = Watched \<lparr>u_APIVersion = ''primaza.io/v1alpha1'', u_Kind = ''RegisteredService'', u_meta = new_meta ''db'' ''pg'',
     u_volumes = Absent, u_containers = Absent, u_initContainers = Absent, u_content = v\<rparr>"

definition sample_conv :: "Unstructured \<Rightarrow> err + RegisteredService" where
  "sample_conv u =
     (if u_content u = ''gold'' then Inr remote_db
      else if u_content u = ''silver'' then Inr silver_db
      else if u_content u = ''other'' then Inr other_db else Inl (Plain ''cannot convert''))"

text \<open>Events handled one after the other, with nothing in between.\<close>

lemma mirror_run_handle:
  assumes "mirror_run conv api objs ceName ns es s t"
    and "run_state (for_collect (handle_service_event conv api ceName ns True) es') t = (Inr [], u)"
  shows "mirror_run conv api objs ceName ns (es @ es') s u"
  using assms
proof (induction es' arbitrary: es t)
  case (Cons e es')
  from Cons.prems(2) obtain t' where e: "run_state (handle_service_event conv api ceName ns True e) t = (None, t')"
    "run_state (for_collect (handle_service_event conv api ceName ns True) es') t' = (Inr [], u)"
    by (auto split: prod.splits option.splits sum.splits if_splits)
  from Cons.IH [OF mirror_run.handled [OF Cons.prems(1) e(1)] e(2)] show ?case by simp
qed simp

lemma mirrors_nothing: "(\<And>c x. (c, x) \<in> set (m_objs s) \<Longrightarrow> obj_kind x \<noteq> KRegisteredService) \<Longrightarrow>
    mirrors c ns Map.empty (mem_objs s)"
  unfolding mirrors_def by (metis mem_objs_in mem_objs_keyed not_None_eq option.map_disc_iff)

lemma mirror_state_empty: "mirrors c ns Map.empty (mem_objs mirror_state)"
  by (rule mirrors_nothing) (auto simp: mirror_state_def mem_of_def)


text \<open>
  Two watched namespaces with services of one name share one copy: the deletion of one service takes
  the copy of the other away.
\<close>

lemma same_name_services_collide:
  "let es = [ServiceAdded (watched_object ''gold''), ServiceAdded (watched_object ''other''), ServiceDeleted (watched_object ''other'')];
       s = mirror_state\<lparr>m_objs := m_objs mirror_state @ [(1, OSecret (plain_secret ''mq'' ''pg-descriptor'' ''host'' ''x''))]\<rparr>;
       r = run_state (for_collect (handle_service_event sample_conv (mem_api [(''worker'', 1)] 0) ''west'' ''primaza'' True) es) s
   in fst r = Inr [] \<and> mem_objs (snd r) 0 KRegisteredService (''primaza'', ''pg'') = None"
  unfolding Let_def
proof
  let ?es = "[ServiceAdded (watched_object ''gold''), ServiceAdded (watched_object ''other''), ServiceDeleted (watched_object ''other'')]"
  let ?s = "mirror_state\<lparr>m_objs := m_objs mirror_state @ [(1, OSecret (plain_secret ''mq'' ''pg-descriptor'' ''host'' ''x''))]\<rparr>"
  let ?m = "for_collect (handle_service_event sample_conv (mem_api [(''worker'', 1)] 0) ''west'' ''primaza'' True) ?es"
  have "case fst (run_state ?m ?s) of Inr [] \<Rightarrow> True | _ \<Rightarrow> False" by code_simp
  then show ok: "fst (run_state ?m ?s) = Inr []" by (auto split: sum.splits list.splits)
  have "case mem_objs (snd (run_state ?m ?s)) 0 KRegisteredService (''primaza'', ''pg'') of None \<Rightarrow> True | _ \<Rightarrow> False" by code_simp
  then show "mem_objs (snd (run_state ?m ?s)) 0 KRegisteredService (''primaza'', ''pg'') = None" by (auto split: option.splits)
qed

end
