(* ===== verification/End_To_End.thy ===== *)
theory End_To_End
  imports ServiceClaim_Correct AppBinding_Correct
begin

section \<open>From a claim to the workloads that use the service\<close>

text \<open>
  The two reconciliations a claim needs, composed: the control plane resolves the claim and pushes a
  service binding with its secret to the application's namespace; the agent of the application's
  cluster, another client of the same clusters, binds the workloads.
\<close>

lemma environment_client_unique:
  "environment_client api f k ce cli \<Longrightarrow> environment_client api f k ce' cli' \<Longrightarrow> ce' = ce \<and> cli' = cli"
  by (auto simp: environment_client_def)

text \<open>What others may do between the two reconciliations: anything, except to the binding's specification or
  deletion mark and to the secret.\<close>

definition keeps_delivery :: "cluster \<Rightarrow> nsname \<Rightarrow> (cluster \<Rightarrow> okind \<Rightarrow> nsname \<Rightarrow> obj option) \<Rightarrow>
    (cluster \<Rightarrow> okind \<Rightarrow> nsname \<Rightarrow> obj option) \<Rightarrow> bool" where
  "keeps_delivery c k f g =
     ((\<forall>b. f c KServiceBinding k = Some (OServiceBinding b) \<longrightarrow>
        (\<exists>b'. g c KServiceBinding k = Some (OServiceBinding b') \<and> sb_Spec b' = sb_Spec b \<and> \<not> om_deletion (sb_meta b'))) \<and>
      g c KSecret k = f c KSecret k)"

text \<open>C4: A claim reaches the workloads. Let a claim with an application cluster context, not being deleted and not
  resolved before, be reconciled without an error by the control plane and be resolved afterwards; let its
  cluster environment lead to the agent's cluster and list the claim's application namespace, without listing a
  namespace twice; let no registered service define an endpoint name twice and the claim name no identity item
  twice. After that, whatever is done that keeps the specification of the binding (not being deleted) and the
  secret, let the application agent reconcile the service binding of the claim's name without an error. Then the
  workloads bound are exactly those stored in the application namespace that the claim's application selects, by
  name or by labels, and there is at least one; each is stored with the volume of the secret and, in each container,
  its mount and the claim's environment variables; nothing but these workloads, the binding and the secret is
  written by the agent; and the secret has a value for every key that was claimed.\<close>

theorem claim_reaches_workloads:
  assumes "kube_store api objs" and "kube_store agent objs"
    and "run_state (ReconcileClaim api (ns, n)) s = (None, s1)"
    and "objs s (k_self api) KServiceClaim (ns, n) = Some (OServiceClaim sc)"
    and "\<not> om_deletion (sc_meta sc)" and "scst_State (sc_Status sc) \<noteq> ClaimResolved"
    and "scsp_Target (sc_Spec sc) = Some t" and "sct_ApplicationClusterContext t = Some acc"
    and "objs s1 (k_self api) KServiceClaim (ns, n) = Some (OServiceClaim sc1)"
    and "scst_State (sc_Status sc1) = ClaimResolved"
    and "environment_client api (objs s) (ns, acc_ClusterEnvironmentName acc) ce (k_self agent)"
    and "acc_Namespace acc \<in> set (cesp_ApplicationNamespaces (ce_Spec ce))"
    and "distinct (cesp_ApplicationNamespaces (ce_Spec ce))"
    and "\<forall>k rs. objs s (k_self api) KRegisteredService k = Some (ORegisteredService rs) \<longrightarrow>
      distinct (map sed_Name (rssp_ServiceEndpointDefinition (rs_Spec rs)))"
    and "distinct (map sci_Name (scsp_ServiceClassIdentity (sc_Spec sc)))"
    and "keeps_delivery (k_self agent) (acc_Namespace acc, n) (objs s1) (objs s2)"
    and "run_state (ReconcileBinding agent mapping start informers (acc_Namespace acc, n)) s2 = ((None, informers'), s3)"
  shows "\<exists>sb sec us. sbsp_Application (sb_Spec sb) = scsp_Application (sc_Spec sc) \<and> sbsp_Envs (sb_Spec sb) = scsp_Envs (sc_Spec sc) \<and>
    om_namespace (sb_meta sb) = acc_Namespace acc \<and> sbsp_ServiceEndpointDefinitionSecret (sb_Spec sb) = n \<and>
    objs s2 (k_self agent) KSecret (acc_Namespace acc, n) = Some (OSecret sec) \<and>
    (\<forall>k\<in>set (scsp_ServiceEndpointDefinitionKeys (sc_Spec sc)). gm_get (secret_content sec) k \<noteq> None) \<and>
    us \<noteq> [] \<and>
    (\<forall>u. u \<in> set us \<longleftrightarrow>
       objs s2 (k_self agent) (kind_of u) (key_of u) = Some (OUnstructured u) \<and> selects sb u) \<and>
    same_but (bound_objects (k_self agent) sb us) (objs s2) (objs s3) \<and>
    (\<forall>u\<in>set us. \<exists>w. objs s3 (k_self agent) (kind_of u) (key_of u) = Some (OUnstructured w) \<and> workload_bound sb sec w)"
proof -
  from assms(11) have ce: "objs s (k_self api) KClusterEnvironment (ns, acc_ClusterEnvironmentName acc) = Some (OClusterEnvironment ce)"
    by (simp add: environment_client_def)
  from reconciled_claim_delivered [OF assms(1), OF assms(3-10) ce assms(12-15)] obtain cli b x where
    cli: "environment_client api (objs s) (ns, acc_ClusterEnvironmentName acc) ce cli" and
    b: "objs s1 cli KServiceBinding (acc_Namespace acc, n) = Some (OServiceBinding b)"
      "sb_Spec b = \<lparr>sbsp_ServiceEndpointDefinitionSecret = n, sbsp_Application = scsp_Application (sc_Spec sc),
        sbsp_Envs = scsp_Envs (sc_Spec sc)\<rparr>" and
    x: "objs s1 cli KSecret (acc_Namespace acc, n) = Some (OSecret x)"
      "\<forall>k\<in>set (scsp_ServiceEndpointDefinitionKeys (sc_Spec sc)). gm_get (secret_content x) k \<noteq> None" by blast
  have same: "cli = k_self agent" using environment_client_unique [OF assms(11) cli] by simp
  from assms(16) b(1) same obtain sb where
    sb: "objs s2 (k_self agent) KServiceBinding (acc_Namespace acc, n) = Some (OServiceBinding sb)"
      "sb_Spec sb = sb_Spec b" "\<not> om_deletion (sb_meta sb)" by (auto simp: keeps_delivery_def)
  have x2: "objs s2 (k_self agent) KSecret (acc_Namespace acc, n) = Some (OSecret x)"
    using assms(16) x(1) same by (simp add: keeps_delivery_def)
  from kube_store.keyed [OF assms(2) sb(1)] have meta: "om_namespace (sb_meta sb) = acc_Namespace acc"
    by (simp add: obj_key_def meta_key_def)
  from reconciled_binding_bound [OF assms(2) assms(17) sb(1,3)] obtain us sec where
    us: "us \<noteq> []" "\<forall>u. u \<in> set us \<longleftrightarrow>
        objs s2 (k_self agent) (kind_of u) (key_of u) = Some (OUnstructured u) \<and> selects sb u"
      "same_but (bound_objects (k_self agent) sb us) (objs s2) (objs s3)"
    and sec: "objs s2 (k_self agent) KSecret (acc_Namespace acc, sbsp_ServiceEndpointDefinitionSecret (sb_Spec sb)) = Some (OSecret sec)"
    and w: "\<forall>u\<in>set us. \<exists>w. objs s3 (k_self agent) (kind_of u) (key_of u) = Some (OUnstructured w) \<and> workload_bound sb sec w" by blast
  from sec x2 sb(2) b(2) have "sec = x" by simp
  with us w x2 x(2) sb(2) b(2) meta show ?thesis by (intro exI [of _ sb] exI [of _ x] exI [of _ us]) simp
qed

subsection \<open>An instance\<close>

definition shop_state :: mem where
  "shop_state = claim_state\<lparr>m_objs := m_objs claim_state @ [(1, OUnstructured (web_deployment ''app''))]\<rparr>"

definition resolve_run :: "err option \<times> mem" where
  "resolve_run = run_state (ReconcileClaim (mem_api [(''kc'', 1)] 0) (''sys'', ''claim'')) shop_state"

definition bind_run :: "(err option \<times> string list) \<times> mem" where
  "bind_run = run_state (ReconcileBinding (mem_api [(''kc'', 1)] 1) deployments (\<lambda>_ _. None) [] (''apps'', ''claim''))
     (snd resolve_run)"

lemma resolve_run_facts:
  "fst resolve_run = None"
  "map_option (\<lambda>c. scst_State (sc_Status c)) (claim_in (snd resolve_run) (''sys'', ''claim'')) = Some ClaimResolved"
  "(case mem_objs (snd resolve_run) 1 KServiceBinding (''apps'', ''claim'') of
      Some (OServiceBinding b) \<Rightarrow> \<not> om_deletion (sb_meta b) | _ \<Rightarrow> False)"
  "mem_objs (snd resolve_run) 1 (KUnstructured ''apps/v1'' ''Deployment'') (''apps'', ''app'') = Some (OUnstructured (web_deployment ''app''))"
  unfolding resolve_run_def by code_simp+

lemma bind_run_facts: "fst (fst bind_run) = None"
  unfolding bind_run_def resolve_run_def by code_simp

lemma shop_state_has:
  "mem_objs shop_state 0 KServiceClaim (''sys'', ''claim'') = Some (OServiceClaim (claim_of ''claim'' app_target))"
  "mem_objs shop_state 0 KClusterEnvironment (''sys'', ''ce'') = Some (OClusterEnvironment prod_env)"
  "mem_objs shop_state 0 KSecret (''sys'', ''ctx'') = Some (OSecret (data_secret ''ctx'' ''kubeconfig'' ''kc''))"
  by code_simp+

lemma shop_environment: "environment_client (mem_api [(''kc'', 1)] 0) (mem_objs shop_state) (''sys'', ''ce'') prod_env 1"
proof -
  have "ExtractClusterRESTConfig (mem_api [(''kc'', 1)] 0) (data_secret ''ctx'' ''kubeconfig'' ''kc'') = Inr ''kc''"
    "k_new_client (mem_api [(''kc'', 1)] 0) ''kc'' = Inr 1" by code_simp+
  then show ?thesis using shop_state_has by (simp add: environment_client_def prod_env_def)
qed

theorem claim_reaches_workloads_witness:
  "\<exists>s1 s3 informers' w sb sec.
     run_state (ReconcileClaim (mem_api [(''kc'', 1)] 0) (''sys'', ''claim'')) shop_state = (None, s1) \<and>
     run_state (ReconcileBinding (mem_api [(''kc'', 1)] 1) deployments (\<lambda>_ _. None) [] (''apps'', ''claim'')) s1 =
       ((None, informers'), s3) \<and>
     mem_objs s3 1 (KUnstructured ''apps/v1'' ''Deployment'') (''apps'', ''app'') = Some (OUnstructured w) \<and>
     workload_bound sb sec w \<and> gm_get (secret_content sec) ''password'' \<noteq> None"
proof -
  let ?api = "mem_api [(''kc'', 1)] 0" and ?agent = "mem_api [(''kc'', 1)] 1" and ?c = "claim_of ''claim'' app_target"
  let ?acc = "\<lparr>acc_ClusterEnvironmentName = ''ce'', acc_Namespace = ''apps''\<rparr>" and ?u = "web_deployment ''app''"
  from resolve_run_facts(1) have run: "run_state (ReconcileClaim ?api (''sys'', ''claim'')) shop_state = (None, snd resolve_run)"
    unfolding resolve_run_def by (metis prod.collapse)
  from bind_run_facts obtain informers' s3 where
    bind: "run_state (ReconcileBinding ?agent deployments (\<lambda>_ _. None) [] (acc_Namespace ?acc, ''claim'')) (snd resolve_run) =
      ((None, informers'), s3)"
    unfolding bind_run_def by (metis ServiceClaimApplicationClusterContext.select_convs(2) prod.collapse)
  have st: "mem_objs shop_state (k_self ?api) KServiceClaim (''sys'', ''claim'') = Some (OServiceClaim ?c)"
    using shop_state_has by simp
  from resolve_run_facts(2) obtain sc1 where fin: "mem_objs (snd resolve_run) (k_self ?api) KServiceClaim (''sys'', ''claim'') = Some (OServiceClaim sc1)"
    "scst_State (sc_Status sc1) = ClaimResolved" by (auto simp: claim_in_Some)
  have props: "\<not> om_deletion (sc_meta ?c)" "scst_State (sc_Status ?c) \<noteq> ClaimResolved"
    "scsp_Target (sc_Spec ?c) = Some app_target" "sct_ApplicationClusterContext app_target = Some ?acc"
    "distinct (map sci_Name (scsp_ServiceClassIdentity (sc_Spec ?c)))"
    "acc_Namespace ?acc \<in> set (cesp_ApplicationNamespaces (ce_Spec prod_env))"
    "distinct (cesp_ApplicationNamespaces (ce_Spec prod_env))"
    by (simp_all add: claim_of_def app_target_def prod_env_def)
  have env: "environment_client ?api (mem_objs shop_state) (''sys'', acc_ClusterEnvironmentName ?acc) prod_env (k_self ?agent)"
    using shop_environment by simp
  have seds: "\<forall>k rs. mem_objs shop_state (k_self ?api) KRegisteredService k = Some (ORegisteredService rs) \<longrightarrow>
      distinct (map sed_Name (rssp_ServiceEndpointDefinition (rs_Spec rs)))"
    by (auto simp: shop_state_def claim_state_def claim_objects_def mem_of_def db_service_def dest!: mem_objs_in)
  have keep: "keeps_delivery (k_self ?agent) (acc_Namespace ?acc, ''claim'') (mem_objs (snd resolve_run)) (mem_objs (snd resolve_run))"
    using resolve_run_facts(3) by (auto simp: keeps_delivery_def)
  from claim_reaches_workloads [OF mem.kube_store_axioms, OF mem.kube_store_axioms, OF run, OF st, OF props(1-4), OF fin, OF env,
      OF props(6,7) seds props(5) keep, OF bind]
  obtain sb sec us where sb: "sbsp_Application (sb_Spec sb) = scsp_Application (sc_Spec ?c)" "om_namespace (sb_meta sb) = ''apps''"
    and keys: "\<forall>k\<in>set (scsp_ServiceEndpointDefinitionKeys (sc_Spec ?c)). gm_get (secret_content sec) k \<noteq> None"
    and all: "\<forall>u. u \<in> set us \<longleftrightarrow>
      mem_objs (snd resolve_run) (k_self ?agent) (kind_of u) (key_of u) = Some (OUnstructured u) \<and> selects sb u"
    and w: "\<forall>u\<in>set us. \<exists>w. mem_objs s3 (k_self ?agent) (kind_of u) (key_of u) = Some (OUnstructured w) \<and> workload_bound sb sec w"
    by auto
  have ku: "kind_of ?u = KUnstructured ''apps/v1'' ''Deployment''" "key_of ?u = (''apps'', ''app'')" by code_simp+
  have "selects sb ?u" using sb ku by (simp add: selects_def claim_of_def web_deployment_def new_meta_def)
  with all ku resolve_run_facts(4) have "?u \<in> set us" by simp
  with w ku obtain w where "mem_objs s3 1 (KUnstructured ''apps/v1'' ''Deployment'') (''apps'', ''app'') = Some (OUnstructured w)"
    "workload_bound sb sec w" by fastforce
  moreover have "gm_get (secret_content sec) ''password'' \<noteq> None" using keys by (simp add: claim_of_def)
  ultimately show ?thesis using run bind by auto
qed


end
