(* ===== verification/Startup.thy ===== *)
theory Startup
  imports Prelude Api_Types "HOL-Library.Word"
begin

section \<open>Starting the three programs\<close>

text \<open>
  \<^verbatim>\<open>cmd/primaza/main.go\<close>, \<^verbatim>\<open>cmd/agents/app/main.go\<close> and \<^verbatim>\<open>cmd/agents/svc/main.go\<close>: what the
  control plane and the two agents read from the environment, and the actions \<^verbatim>\<open>main\<close> performs on
  the controller manager, in order, up to the first one that fails. The environment is a partial
  function; whether an action of the manager fails is a parameter. Command-line flags, the
  registration of the API types and the logger are left out.
\<close>

type_synonym environ = "string \<Rightarrow> string option"

definition Getenv :: "environ \<Rightarrow> string \<Rightarrow> string" where
  "Getenv env k = (case env k of Some v \<Rightarrow> v | None \<Rightarrow> '''')"

subsection \<open>\<^verbatim>\<open>strconv.Atoi\<close>\<close>

text \<open>
  A sign, then decimal digits, read with the checks of \<^verbatim>\<open>strconv.ParseUint\<close> and
  \<^verbatim>\<open>strconv.ParseInt\<close> at 64 bits: the accumulator must stay below \<open>2 ^ 64\<close>, the result within the
  signed range. Only the cause of the \<^verbatim>\<open>NumError\<close> is kept: the sources log it and look no further.
\<close>

abbreviation ErrSyntax :: err where
  "ErrSyntax \<equiv> Sentinel ''invalid syntax''"

abbreviation ErrRange :: err where
  "ErrRange \<equiv> Sentinel ''value out of range''"

definition digit_of :: "char \<Rightarrow> nat option" where
  "digit_of c = (let d = (of_char c + 208) mod 256 in if d > 9 then None else Some d)"

fun read_digits :: "nat \<Rightarrow> string \<Rightarrow> err + nat" where
  "read_digits n [] = Inr n"
| "read_digits n (c # cs) =
     (case digit_of c of
        None \<Rightarrow> Inl ErrSyntax
      | Some d \<Rightarrow> if 10 * n + d \<ge> 2 ^ 64 then Inl ErrRange else read_digits (10 * n + d) cs)"

definition ParseUint :: "string \<Rightarrow> err + nat" where
  "ParseUint s = (if s = [] then Inl ErrSyntax else read_digits 0 s)"

definition Atoi :: "string \<Rightarrow> err + int" where
  "Atoi s =
     (let neg = has_prefix s ''-'';
          digits = (if neg \<or> has_prefix s ''+'' then drop 1 s else s)
      in case ParseUint digits of
           Inl e \<Rightarrow> Inl e
         | Inr n \<Rightarrow>
             if \<not> neg \<and> n \<ge> 2 ^ 63 \<or> neg \<and> n > 2 ^ 63 then Inl ErrRange
             else Inr (if neg then - int n else int n))"

subsection \<open>The configuration of the control plane\<close>

definition DefaultHealthCheckInterval :: int where
  "DefaultHealthCheckInterval = 600"

definition MinimumHealtCheckInterval :: int where
  "MinimumHealtCheckInterval = 10"

definition getHealthCheckIntervalFromEnv :: "environ \<Rightarrow> int" where
  "getHealthCheckIntervalFromEnv env =
     (case Atoi (Getenv env ''HEALTH_CHECK_INTERVAL'') of
        Inl _ \<Rightarrow> DefaultHealthCheckInterval
      | Inr hci \<Rightarrow> if hci < MinimumHealtCheckInterval then MinimumHealtCheckInterval else hci)"

definition getRequiredEnv :: "environ \<Rightarrow> string \<Rightarrow> err + string" where
  "getRequiredEnv env k =
     (let ns = Getenv env k
      in if ns = '''' then Inl (Plain (''environment variable '' @ k @ '' not found'')) else Inr ns)"

record config =
  cfg_WatchNamespace :: string
  cfg_AppImage :: string
  cfg_SvcImage :: string
  cfg_HealthCheckInterval :: int
  cfg_AppAgentManifest :: string
  cfg_SvcAgentManifest :: string
  cfg_AppAgentConfigManifest :: string
  cfg_SvcAgentConfigManifest :: string

definition getConfig :: "environ \<Rightarrow> err + config" where
  "getConfig env =
     (case getRequiredEnv env ''WATCH_NAMESPACE'' of Inl e \<Rightarrow> Inl e | Inr ns \<Rightarrow>
      case getRequiredEnv env ''AGENT_APP_IMAGE'' of Inl e \<Rightarrow> Inl e | Inr ai \<Rightarrow>
      case getRequiredEnv env ''AGENT_SVC_IMAGE'' of Inl e \<Rightarrow> Inl e | Inr si \<Rightarrow>
      let hci = getHealthCheckIntervalFromEnv env in
      case getRequiredEnv env ''AGENT_APP_MANIFEST'' of Inl e \<Rightarrow> Inl e | Inr as' \<Rightarrow>
      case getRequiredEnv env ''AGENT_SVC_MANIFEST'' of Inl e \<Rightarrow> Inl e | Inr ss \<Rightarrow>
      case getRequiredEnv env ''AGENT_APP_CONFIG_MANIFEST'' of Inl e \<Rightarrow> Inl e | Inr acm \<Rightarrow>
      case getRequiredEnv env ''AGENT_SVC_CONFIG_MANIFEST'' of Inl e \<Rightarrow> Inl e | Inr scm \<Rightarrow>
      Inr \<lparr>cfg_WatchNamespace = ns, cfg_AppImage = ai, cfg_SvcImage = si,
           cfg_HealthCheckInterval = hci, cfg_AppAgentManifest = as', cfg_SvcAgentManifest = ss,
           cfg_AppAgentConfigManifest = acm, cfg_SvcAgentConfigManifest = scm\<rparr>)"

text \<open>
  The pause between two rounds of \<^verbatim>\<open>MonitorHealth\<close>: \<^verbatim>\<open>time.Duration(hci) * time.Second\<close> is a
  64-bit product of nanoseconds, and \<^verbatim>\<open>time.Sleep\<close> returns at once for a duration that is not
  positive.
\<close>

definition monitor_pause :: "int \<Rightarrow> 64 word" where
  "monitor_pause hci = word_of_int hci * 1000000000"

definition slept :: "64 word \<Rightarrow> int" where
  "slept d = (if sint d \<le> 0 then 0 else sint d)"

subsection \<open>The actions of \<^verbatim>\<open>main\<close>\<close>

datatype setup_action =
    NewManager string string \<comment> \<open>watched namespace, leader election id\<close>
  | ClusterEnvironmentController config
  | Controller string
  | ServiceClassController SynchronizationStrategy
  | Webhook_for string
  | AddHealthzCheck
  | AddReadyzCheck
  | AddHealthMonitor string int
  | StartManager

text \<open>The actions up to the first failure, which exits with status 1, and the exit status.\<close>

fun perform :: "(setup_action \<Rightarrow> bool) \<Rightarrow> setup_action list \<Rightarrow> setup_action list \<times> nat" where
  "perform fails [] = ([], 0)"
| "perform fails (a # as) =
     (if fails a then ([a], 1) else (let (l, c) = perform fails as in (a # l, c)))"

definition main_control :: "environ \<Rightarrow> (setup_action \<Rightarrow> bool) \<Rightarrow> setup_action list \<times> nat" where
  "main_control env fails =
     (case getConfig env of
        Inl _ \<Rightarrow> ([], 1)
      | Inr cfg \<Rightarrow>
          perform fails
            [NewManager (cfg_WatchNamespace cfg) ''859ca7e5.primaza.io'',
             ClusterEnvironmentController cfg,
             Controller ''ServiceClaim'',
             Controller ''ServiceClass'',
             Webhook_for ''ServiceClass'',
             Controller ''RegisteredService'',
             Controller ''ServiceCatalog'',
             AddHealthzCheck,
             AddReadyzCheck,
             AddHealthMonitor (cfg_WatchNamespace cfg) (cfg_HealthCheckInterval cfg),
             StartManager])"

definition getWatchNamespaceFromEnv :: "environ \<Rightarrow> err + string" where
  "getWatchNamespaceFromEnv env =
     (let ns = Getenv env ''WATCH_NAMESPACE''
      in if ns = '''' then Inl (Plain ''environment variable WATCH_NAMESPACE not found'') else Inr ns)"

definition getSynchronizationStrategyFromEnv :: "environ \<Rightarrow> err + SynchronizationStrategy" where
  "getSynchronizationStrategyFromEnv env =
     (case env ''SYNCHRONIZATION_STRATEGY'' of
        None \<Rightarrow> Inl (Plain ''synchronization strategy environment variable is not defined: SYNCHRONIZATION_STRATEGY'')
      | Some s \<Rightarrow> ParseSynchronizationStrategy s)"

text \<open>
  The application agent logs that its namespace is missing and goes on with the empty string;
  the service agent exits.
\<close>

definition main_agent_app :: "environ \<Rightarrow> (setup_action \<Rightarrow> bool) \<Rightarrow> setup_action list \<times> nat" where
  "main_agent_app env fails =
     (let ns = (case getWatchNamespaceFromEnv env of Inl _ \<Rightarrow> '''' | Inr ns \<Rightarrow> ns)
      in case getSynchronizationStrategyFromEnv env of
           Inl _ \<Rightarrow> ([], 1)
         | Inr s \<Rightarrow>
             perform fails
               ([NewManager ns ''859ca7e5.agentapp.primaza.io'', Controller ''ServiceBinding''] @
                (if s = SyncPush then [Controller ''ServiceClaim''] else []) @
                [Controller ''ServiceCatalog'', Controller ''Agent Service'',
                 AddHealthzCheck, AddReadyzCheck, StartManager]))"

definition main_agent_svc :: "environ \<Rightarrow> (setup_action \<Rightarrow> bool) \<Rightarrow> setup_action list \<times> nat" where
  "main_agent_svc env fails =
     (case getWatchNamespaceFromEnv env of
        Inl _ \<Rightarrow> ([], 1)
      | Inr ns \<Rightarrow>
          case getSynchronizationStrategyFromEnv env of
            Inl _ \<Rightarrow> ([], 1)
          | Inr s \<Rightarrow>
              perform fails
                [NewManager ns ''859ca7e5.agentsvc.primaza.io'', ServiceClassController s,
                 Webhook_for ''ServiceClass'', Controller ''Agent Service'',
                 AddHealthzCheck, AddReadyzCheck, StartManager])"

section \<open>Lemmas\<close>

subsection \<open>Numbers\<close>

lemma digit_of_digit_char: "d < 10 \<Longrightarrow> digit_of (digit_char d) = Some d"
proof -
  assume "d < 10"
  then have "d \<in> {0, 1, 2, 3, 4, 5, 6, 7, 8, 9}" by auto
  then show ?thesis by (auto simp: digit_of_def digit_char_def Let_def)
qed

lemma foldl_decimal_mono: "a \<le> foldl (\<lambda>v d. 10 * v + d) a ds" for a :: nat
proof (induction ds arbitrary: a)
  case (Cons d ds)
  have "a \<le> 10 * a + d" by simp
  also have "\<dots> \<le> foldl (\<lambda>v d. 10 * v + d) (10 * a + d) ds" by (rule Cons.IH)
  finally show ?case by simp
qed simp

lemma read_digits_map:
  assumes "\<forall>d\<in>set ds. d < 10" and "foldl (\<lambda>v d. 10 * v + d) n ds < 2 ^ 64"
  shows "read_digits n (map digit_char ds) = Inr (foldl (\<lambda>v d. 10 * v + d) n ds)"
  using assms
proof (induction ds arbitrary: n)
  case (Cons d ds)
  have "10 * n + d < 2 ^ 64"
    using foldl_decimal_mono [of "10 * n + d" ds] Cons.prems(2) by (simp del: One_nat_def)
  with Cons show ?case by (simp add: digit_of_digit_char)
qed simp

lemma decimal_digits_nonempty: "decimal_digits n \<noteq> []"
proof -
  have "incr_digits ds \<noteq> []" for ds by (cases ds) simp_all
  then show ?thesis by (induction n) simp_all
qed

lemma ParseUint_show_nat: "n < 2 ^ 64 \<Longrightarrow> ParseUint (show_nat n) = Inr n"
proof -
  assume "n < 2 ^ 64"
  moreover have "foldl (\<lambda>v d. 10 * v + d) 0 (rev (decimal_digits n)) = n"
    using decimal_digits_value [of n] by (simp add: foldl_conv_foldr add.commute)
  ultimately show ?thesis
    using decimal_digits_value [of n] decimal_digits_nonempty [of n]
    by (simp add: ParseUint_def show_nat_def read_digits_map)
qed

lemma show_nat_unsigned: "\<not> has_prefix (show_nat n) ''-''" "\<not> has_prefix (show_nat n) ''+''"
proof -
  have "c \<in> digit_char ` {..<10}" if "c \<in> set (show_nat n)" for c
    using that decimal_digits_value [of n] by (auto simp: show_nat_def)
  then have d: "digit_of c \<noteq> None" if "c \<in> set (show_nat n)" for c
    using that digit_of_digit_char by fastforce
  have "digit_of (CHR ''-'') = None" "digit_of (CHR ''+'') = None" by (simp_all add: digit_of_def)
  with d have "CHR ''-'' \<notin> set (show_nat n)" "CHR ''+'' \<notin> set (show_nat n)" by metis+
  then show "\<not> has_prefix (show_nat n) ''-''" "\<not> has_prefix (show_nat n) ''+''"
    by (auto simp: has_prefix_iff)
qed

lemma Atoi_show_nat: "n < 2 ^ 63 \<Longrightarrow> Atoi (show_nat n) = Inr (int n)"
  using ParseUint_show_nat [of n] by (simp add: Atoi_def show_nat_unsigned)

lemma Atoi_bounds: "Atoi s = Inr k \<Longrightarrow> - (2 ^ 63) \<le> k \<and> k < 2 ^ 63"
  by (auto simp: Atoi_def Let_def split: sum.splits if_splits)

subsection \<open>Runs of \<^verbatim>\<open>main\<close>\<close>

lemma perform_prefix: "set (fst (perform fails as)) \<subseteq> set as"
  by (induction as) (auto split: prod.splits)

lemmas performed = subsetD [OF perform_prefix]

lemma perform_complete: "snd (perform fails as) = 0 \<Longrightarrow> fst (perform fails as) = as"
  by (induction as) (auto split: prod.splits if_splits)

lemma getRequiredEnv_Inr: "getRequiredEnv env k = Inr v \<longleftrightarrow> env k = Some v \<and> v \<noteq> ''''"
  by (auto simp: getRequiredEnv_def Getenv_def Let_def split: option.splits)


lemma getConfig_Inr:
  assumes "getConfig env = Inr cfg"
  shows "env ''WATCH_NAMESPACE'' = Some (cfg_WatchNamespace cfg) \<and> cfg_WatchNamespace cfg \<noteq> ''''"
    and "cfg_HealthCheckInterval cfg = getHealthCheckIntervalFromEnv env"
  using assms by (auto simp: getConfig_def Let_def getRequiredEnv_Inr split: sum.splits)

lemma interval_bounds:
  "10 \<le> getHealthCheckIntervalFromEnv env \<and> getHealthCheckIntervalFromEnv env < 2 ^ 63"
  using Atoi_bounds [of "Getenv env ''HEALTH_CHECK_INTERVAL''"]
  by (auto simp: getHealthCheckIntervalFromEnv_def DefaultHealthCheckInterval_def
      MinimumHealtCheckInterval_def split: sum.splits)

lemma interval_show_nat:
  "env ''HEALTH_CHECK_INTERVAL'' = Some (show_nat n) \<Longrightarrow> n < 2 ^ 63 \<Longrightarrow>
     getHealthCheckIntervalFromEnv env = int (max 10 n)"
  by (simp add: getHealthCheckIntervalFromEnv_def Getenv_def Atoi_show_nat MinimumHealtCheckInterval_def)

lemma sint_monitor_pause:
  "sint (monitor_pause k) = signed_take_bit 63 (k * 1000000000)"
proof -
  have "monitor_pause k = word_of_int (k * 1000000000)" by (simp add: monitor_pause_def)
  then show ?thesis by (simp only: sint_sbintrunc') simp
qed

lemma slept_exact:
  assumes "10 \<le> k" and "k \<le> 9223372036"
  shows "slept (monitor_pause k) = k * 1000000000"
proof -
  have "signed_take_bit 63 (k * 1000000000) = k * 1000000000"
    using assms by (intro signed_take_bit_int_eq_self) simp_all
  with assms show ?thesis by (simp add: slept_def sint_monitor_pause)
qed

lemma slept_wraps:
  assumes "9223372037 \<le> k" and "k \<le> 18446744073"
  shows "slept (monitor_pause k) = 0"
proof -
  have "signed_take_bit 63 (k * 1000000000) = signed_take_bit 63 (k * 1000000000 - 2 ^ 64)"
    by (simp add: signed_take_bit_eq_iff_take_bit_eq take_bit_eq_mod)
  also have "\<dots> = k * 1000000000 - 2 ^ 64"
    using assms by (intro signed_take_bit_int_eq_self) simp_all
  finally show ?thesis using assms by (simp add: slept_def sint_monitor_pause)
qed

subsection \<open>What the programs promise\<close>

text \<open>Every health monitor the control plane starts watches the configured namespace and has an
  interval of at least ten seconds that fits an int, whatever the environment holds.\<close>

theorem health_monitor_bounds:
  "\<forall>ns k. AddHealthMonitor ns k \<in> set (fst (main_control env fails)) \<longrightarrow>
     env ''WATCH_NAMESPACE'' = Some ns \<and> ns \<noteq> '''' \<and> 10 \<le> k \<and> k < 2 ^ 63"
proof (intro allI impI)
  fix ns k
  assume a: "AddHealthMonitor ns k \<in> set (fst (main_control env fails))"
  then obtain cfg where cfg: "getConfig env = Inr cfg"
    by (auto simp: main_control_def split: sum.splits)
  with a have "ns = cfg_WatchNamespace cfg" "k = cfg_HealthCheckInterval cfg"
    by (auto simp: main_control_def simp del: perform.simps dest!: performed)
  with getConfig_Inr [OF cfg] interval_bounds [of env]
  show "env ''WATCH_NAMESPACE'' = Some ns \<and> ns \<noteq> '''' \<and> 10 \<le> k \<and> k < 2 ^ 63" by metis
qed

text \<open>C33: When the configuration is read and the interval is set to the decimal number \<open>n\<close>, the monitor pauses for \<open>n\<close> seconds, at
  least ten, as long as \<open>n\<close> seconds fit a 64-bit number of nanoseconds; just above that bound the
  product is negative and the monitor does not pause at all.\<close>

theorem monitor_pause_configured:
  assumes "getConfig env = Inr cfg" and "env ''HEALTH_CHECK_INTERVAL'' = Some (show_nat n)"
  shows "(n \<le> 9223372036 \<longrightarrow>
           slept (monitor_pause (cfg_HealthCheckInterval cfg)) = int (max 10 n) * 1000000000) \<and>
         (9223372037 \<le> n \<and> n \<le> 18446744073 \<longrightarrow>
           slept (monitor_pause (cfg_HealthCheckInterval cfg)) = 0)"
proof (intro conjI impI)
  assume n: "n \<le> 9223372036"
  then have "cfg_HealthCheckInterval cfg = int (max 10 n)"
    using getConfig_Inr(2) [OF assms(1)] interval_show_nat [where env = env, OF assms(2)] by simp
  with n show "slept (monitor_pause (cfg_HealthCheckInterval cfg)) = int (max 10 n) * 1000000000"
    by (simp only:, intro slept_exact) simp_all
next
  assume n: "9223372037 \<le> n \<and> n \<le> 18446744073"
  then have "cfg_HealthCheckInterval cfg = int n"
    using getConfig_Inr(2) [OF assms(1)] interval_show_nat [where env = env, OF assms(2)] by simp
  with n show "slept (monitor_pause (cfg_HealthCheckInterval cfg)) = 0"
    by (simp only:, intro slept_wraps) simp_all
qed

text \<open>The service agent never starts without a namespace to watch; the application agent does:
  with a valid strategy and no namespace its manager watches the empty namespace, which is all of
  them. The application agent runs the claim controller exactly under the strategy Push.\<close>

theorem agents_watch_namespace:
  "(\<forall>ns i. NewManager ns i \<in> set (fst (main_agent_svc env fails)) \<longrightarrow>
      env ''WATCH_NAMESPACE'' = Some ns \<and> ns \<noteq> '''') \<and>
   (env ''WATCH_NAMESPACE'' = None \<and> env ''SYNCHRONIZATION_STRATEGY'' \<in> {Some ''Push'', Some ''Pull''} \<longrightarrow>
      hd (fst (main_agent_app env fails)) = NewManager '''' ''859ca7e5.agentapp.primaza.io'') \<and>
   (snd (main_agent_app env fails) = 0 \<longrightarrow>
      (Controller ''ServiceClaim'' \<in> set (fst (main_agent_app env fails)) \<longleftrightarrow>
       env ''SYNCHRONIZATION_STRATEGY'' = Some ''Push''))"
proof (intro conjI)
  show "\<forall>ns i. NewManager ns i \<in> set (fst (main_agent_svc env fails)) \<longrightarrow>
      env ''WATCH_NAMESPACE'' = Some ns \<and> ns \<noteq> ''''"
    by (auto simp: main_agent_svc_def getWatchNamespaceFromEnv_def Getenv_def Let_def
        simp del: perform.simps split: sum.splits option.splits if_splits dest!: performed)
  have s: "getSynchronizationStrategyFromEnv env = Inr p \<longleftrightarrow>
      env ''SYNCHRONIZATION_STRATEGY'' = Some (case p of SyncPush \<Rightarrow> ''Push'' | SyncPull \<Rightarrow> ''Pull'')" for p
    by (cases p) (auto simp: getSynchronizationStrategyFromEnv_def ParseSynchronizationStrategy_def
        synchronizationStrategies_def split: option.splits if_splits)
  show "env ''WATCH_NAMESPACE'' = None \<and> env ''SYNCHRONIZATION_STRATEGY'' \<in> {Some ''Push'', Some ''Pull''} \<longrightarrow>
      hd (fst (main_agent_app env fails)) = NewManager '''' ''859ca7e5.agentapp.primaza.io''"
    using s [of SyncPush] s [of SyncPull]
    by (auto simp: main_agent_app_def getWatchNamespaceFromEnv_def Getenv_def split: prod.splits)
  show "snd (main_agent_app env fails) = 0 \<longrightarrow>
      (Controller ''ServiceClaim'' \<in> set (fst (main_agent_app env fails)) \<longleftrightarrow>
       env ''SYNCHRONIZATION_STRATEGY'' = Some ''Push'')"
  proof
    assume z: "snd (main_agent_app env fails) = 0"
    then obtain p where p: "getSynchronizationStrategyFromEnv env = Inr p"
      by (auto simp: main_agent_app_def split: sum.splits)
    with z have "Controller ''ServiceClaim'' \<in> set (fst (main_agent_app env fails)) \<longleftrightarrow> p = SyncPush"
      by (simp add: main_agent_app_def perform_complete del: perform.simps)
    with p s [of p] show "Controller ''ServiceClaim'' \<in> set (fst (main_agent_app env fails)) \<longleftrightarrow>
       env ''SYNCHRONIZATION_STRATEGY'' = Some ''Push''" by (cases p) auto
  qed
qed

subsection \<open>Instances\<close>

definition control_environ :: "string \<Rightarrow> environ" where
  "control_environ hci = map_of
     [(''WATCH_NAMESPACE'', ''primaza-system''), (''AGENT_APP_IMAGE'', ''app''), (''AGENT_SVC_IMAGE'', ''svc''),
      (''AGENT_APP_MANIFEST'', ''a''), (''AGENT_SVC_MANIFEST'', ''s''), (''AGENT_APP_CONFIG_MANIFEST'', ''ac''),
      (''AGENT_SVC_CONFIG_MANIFEST'', ''sc''), (''HEALTH_CHECK_INTERVAL'', hci)]"

lemma control_environ_values:
  "control_environ h ''WATCH_NAMESPACE'' = Some ''primaza-system''"
  "control_environ h ''AGENT_APP_IMAGE'' = Some ''app''"
  "control_environ h ''AGENT_SVC_IMAGE'' = Some ''svc''"
  "control_environ h ''AGENT_APP_MANIFEST'' = Some ''a''"
  "control_environ h ''AGENT_SVC_MANIFEST'' = Some ''s''"
  "control_environ h ''AGENT_APP_CONFIG_MANIFEST'' = Some ''ac''"
  "control_environ h ''AGENT_SVC_CONFIG_MANIFEST'' = Some ''sc''"
  "control_environ h ''HEALTH_CHECK_INTERVAL'' = Some h"
  by (simp_all add: control_environ_def)

theorem health_monitor_bounds_witness:
  "AddHealthMonitor ''primaza-system'' 10 \<in> set (fst (main_control (control_environ ''3'') (\<lambda>_. False))) \<and> (10::int) < 2 ^ 63"
proof -
  have "show_nat 3 = ''3''" by (simp add: show_nat_def digit_char_def numeral_3_eq_3)
  then have "control_environ ''3'' ''HEALTH_CHECK_INTERVAL'' = Some (show_nat 3)"
    by (simp add: control_environ_values)
  from interval_show_nat [where env = "control_environ ''3''", OF this]
  have "getHealthCheckIntervalFromEnv (control_environ ''3'') = 10" by simp
  then have "AddHealthMonitor ''primaza-system'' 10 \<in> set (fst (main_control (control_environ ''3'') (\<lambda>_. False)))"
    by (simp add: main_control_def getConfig_def getRequiredEnv_def Getenv_def control_environ_values)
  with health_monitor_bounds [of "control_environ ''3''" "\<lambda>_. False"] show ?thesis by blast
qed

theorem monitor_pause_configured_witness:
  "\<exists>cfg. getConfig (control_environ (show_nat 42)) = Inr cfg \<and>
     slept (monitor_pause (cfg_HealthCheckInterval cfg)) = 42000000000"
proof -
  have "\<exists>cfg. getConfig (control_environ (show_nat 42)) = Inr cfg"
    by (simp add: getConfig_def getRequiredEnv_def Getenv_def control_environ_values)
  then obtain cfg where cfg: "getConfig (control_environ (show_nat 42)) = Inr cfg" ..
  have "control_environ (show_nat 42) ''HEALTH_CHECK_INTERVAL'' = Some (show_nat 42)"
    by (simp add: control_environ_values)
  from monitor_pause_configured [OF cfg this] cfg show ?thesis by auto
qed

theorem agents_watch_namespace_witness:
  "hd (fst (main_agent_app [''SYNCHRONIZATION_STRATEGY'' \<mapsto> ''Pull''] (\<lambda>_. False))) =
     NewManager '''' ''859ca7e5.agentapp.primaza.io''"
  using agents_watch_namespace [of "[''SYNCHRONIZATION_STRATEGY'' \<mapsto> ''Pull'']" "\<lambda>_. False"] by simp


end
