(* ===== verification/Permission_List.thy ===== *)
theory Permission_List
  imports Authz AppBinding_Ctrl
begin

section \<open>The permission list generator: \<^verbatim>\<open>hack/permissionlist/permissionlist.go\<close>\<close>

text \<open>
  A build-time program reads the RBAC roles of an agent and writes the Go file with the agent's
  permission list. Reading a file (\<open>read\<close>: its bytes, none when that fails, since the error is dropped),
  decoding YAML into the role at hand (\<open>unmarshal\<close>, of the YAML package, its error dropped too) and
  writing the file (\<open>write\<close>) are parameters. Executing a template on a list of strings into a string
  builder does not fail, so the program logs nothing. Arguments are ASCII.
\<close>

record role_rule =
  ru_APIGroups :: "string list"
  ru_Resources :: "string list"
  ru_Verbs :: "string list"
  ru_ResourceNames :: "string list"

record Role =
  ro_Name :: string
  ro_Namespace :: string
  ro_Rules :: "role_rule list"

abbreviation newline :: string where
  "newline \<equiv> [CHR 0x0A]"

definition in_quotes :: "string \<Rightarrow> string" where
  "in_quotes v = CHR 0x22 # v @ [CHR 0x22]"

subsection \<open>The templates\<close>

fun template_items :: "string list \<Rightarrow> string" where
  "template_items [] = ''''"
| "template_items [v] = in_quotes v"
| "template_items (v # vs) = in_quotes v @ '', '' @ template_items vs"

definition list_template :: "string \<Rightarrow> string list \<Rightarrow> string" where
  "list_template field vs = newline @ field @ '': []string{'' @ template_items vs @ ''},''"

definition value_template :: "string \<Rightarrow> string \<Rightarrow> string" where
  "value_template field v = field @ '': '' @ in_quotes v @ '',''"

definition write_rule :: "Role \<Rightarrow> role_rule \<Rightarrow> string" where
  "write_rule role r =
     ''{'' @ list_template ''APIGroups'' (ru_APIGroups r) @ list_template ''Resources'' (ru_Resources r) @
     list_template ''ResourceNames'' (ru_ResourceNames r) @ newline @
     value_template ''Namespace'' (ro_Namespace role) @ newline @
     value_template ''Name'' (ro_Name role) @ list_template ''Verbs'' (ru_Verbs r) @ newline @ ''},'' @ newline"

subsection \<open>\<^verbatim>\<open>main\<close>\<close>

fun write_rules :: "Role \<Rightarrow> role_rule list \<Rightarrow> string \<Rightarrow> string" where
  "write_rules role [] out = out"
| "write_rules role (r # rs) out = write_rules role rs (out @ write_rule role r)"

text \<open>One role variable serves all files: a field that a file leaves out keeps its value.\<close>

fun write_files ::
  "(string \<Rightarrow> string) \<Rightarrow> (string \<Rightarrow> Role \<Rightarrow> Role) \<Rightarrow> string list \<Rightarrow> Role \<Rightarrow> string \<Rightarrow> string" where
  "write_files read unmarshal [] role out = out"
| "write_files read unmarshal (f # fs) role out =
     (let role' = unmarshal (read (path_Clean f)) role
      in write_files read unmarshal fs role' (write_rules role' (ro_Rules role') out))"

definition empty_role :: Role where
  "empty_role = \<lparr>ro_Name = '''', ro_Namespace = '''', ro_Rules = []\<rparr>"

definition file_header :: "string \<Rightarrow> string" where
  "file_header agentType =
     ''package authz'' @ newline @ newline @ ''var '' @ agentType @ ''PermissionList = []Permission{'' @ newline"

definition lower_char :: "char \<Rightarrow> char" where
  "lower_char ch = (let n = of_char ch :: nat in if 65 \<le> n \<and> n \<le> 90 then char_of (n + 32) else ch)"

definition ToLower :: "string \<Rightarrow> string" where
  "ToLower s = map lower_char s"

definition permissionlist_main ::
  "(string \<Rightarrow> string) \<Rightarrow> (string \<Rightarrow> Role \<Rightarrow> Role) \<Rightarrow> (string \<Rightarrow> string \<Rightarrow> err option) \<Rightarrow> string list \<Rightarrow>
     err + string \<times> string" where
  "permissionlist_main read unmarshal write args =
     (case args of
        prog # agentType # goProgramDir # files \<Rightarrow>
          let out = write_files read unmarshal files empty_role (file_header agentType) @ ''}'' @ newline;
              goProgram = path_Join [goProgramDir, ''permission_list_'' @ ToLower agentType @ ''.go'']
          in (case write goProgram out of Some e \<Rightarrow> Inl e | None \<Rightarrow> Inr (goProgram, out))
      | _ \<Rightarrow> Inl (Panic ''index out of range''))"

subsection \<open>What the generated file says\<close>

text \<open>The permissions a role asks for, and how one of them is written.\<close>

definition role_permissions :: "Role \<Rightarrow> Permission list" where
  "role_permissions role = map (\<lambda>r.
     \<lparr>pm_APIGroups = ru_APIGroups r, pm_Resources = ru_Resources r, pm_ResourceNames = ru_ResourceNames r,
      pm_Namespace = ro_Namespace role, pm_Name = ro_Name role, pm_Verbs = ru_Verbs r\<rparr>) (ro_Rules role)"

definition permission_literal :: "Permission \<Rightarrow> string" where
  "permission_literal p =
     write_rule \<lparr>ro_Name = pm_Name p, ro_Namespace = pm_Namespace p, ro_Rules = []\<rparr>
       \<lparr>ru_APIGroups = pm_APIGroups p, ru_Resources = pm_Resources p, ru_Verbs = pm_Verbs p,
        ru_ResourceNames = pm_ResourceNames p\<rparr>"

definition permission_file :: "string \<Rightarrow> Permission list \<Rightarrow> string" where
  "permission_file agentType ps =
     file_header agentType @ concat (map permission_literal ps) @ ''}'' @ newline"

lemma write_rules_eq: "write_rules role rs out = out @ concat (map (write_rule role) rs)"
  by (induction rs arbitrary: out) auto

lemma role_literals:
  "concat (map permission_literal (role_permissions role)) = concat (map (write_rule role) (ro_Rules role))"
  by (simp add: role_permissions_def permission_literal_def write_rule_def comp_def cong: map_cong)

lemma write_files_eq:
  assumes "\<forall>f \<in> set files. \<forall>role. unmarshal (read (path_Clean f)) role = parsed f"
  shows "write_files read unmarshal files role out =
    out @ concat (map permission_literal (concat (map (\<lambda>f. role_permissions (parsed f)) files)))"
  using assms
  by (induction files arbitrary: role out) (auto simp: Let_def write_rules_eq role_literals)

text \<open>When every file sets all fields of the role, the file lists the permissions of the roles in order.\<close>

lemma generator_lists_permissions:
  assumes "\<forall>f \<in> set files. \<forall>role. unmarshal (read (path_Clean f)) role = parsed f"
    and "\<forall>path out. write path out = None"
  shows "permissionlist_main read unmarshal write (prog # agentType # dir # files) =
    Inr (path_Join [dir, ''permission_list_'' @ ToLower agentType @ ''.go''],
         permission_file agentType (concat (map (\<lambda>f. role_permissions (parsed f)) files)))"
  using assms
  by (simp add: permissionlist_main_def Let_def permission_file_def
      write_files_eq [where read = read and unmarshal = unmarshal and parsed = parsed])

text \<open>
  A file that cannot be read has no bytes, and an empty document changes nothing, so the rules of the
  previous role are written a second time and the program still succeeds.
\<close>

lemma unreadable_role_repeats_previous:
  assumes "\<forall>role. unmarshal (read (path_Clean good)) role = parsed"
    and "read (path_Clean bad) = ''''" and "\<forall>role. unmarshal '''' role = role"
    and "\<forall>path out. write path out = None"
  shows "permissionlist_main read unmarshal write [prog, agentType, dir, good, bad] =
    Inr (path_Join [dir, ''permission_list_'' @ ToLower agentType @ ''.go''],
         permission_file agentType (role_permissions parsed @ role_permissions parsed))"
  using assms
  by (simp add: permissionlist_main_def Let_def write_rules_eq role_literals permission_file_def)

subsection \<open>The generated text determines the permissions\<close>

definition quote_free :: "string \<Rightarrow> bool" where
  "quote_free v = (CHR 0x22 \<notin> set v)"

definition clean_permission :: "Permission \<Rightarrow> bool" where
  "clean_permission p = (quote_free (pm_Namespace p) \<and> quote_free (pm_Name p) \<and>
     list_all quote_free (pm_APIGroups p) \<and> list_all quote_free (pm_Resources p) \<and>
     list_all quote_free (pm_ResourceNames p) \<and> list_all quote_free (pm_Verbs p))"

lemma until_quote:
  assumes "v @ CHR 0x22 # xs = w @ CHR 0x22 # ys" and "quote_free v" and "quote_free w"
  shows "v = w \<and> xs = ys"
  using assms
proof (induction v arbitrary: w)
  case Nil
  then show ?case by (cases w) (auto simp: quote_free_def)
next
  case (Cons ch v)
  then show ?case by (cases w) (auto simp: quote_free_def)
qed

lemma template_items_Cons:
  "template_items (v # vs) =
     CHR 0x22 # v @ CHR 0x22 # (if vs = [] then '''' else '', '' @ template_items vs)"
  by (cases vs) (simp_all add: in_quotes_def)

lemma template_items_inject:
  assumes "template_items vs @ CHR ''}'' # xs = template_items ws @ CHR ''}'' # ys"
    and "list_all quote_free vs" and "list_all quote_free ws"
  shows "vs = ws \<and> xs = ys"
  using assms
proof (induction vs arbitrary: ws)
  case Nil
  then show ?case by (cases ws) (auto simp: template_items_Cons simp del: template_items.simps(2,3))
next
  case (Cons v vs)
  then obtain w ws' where ws: "ws = w # ws'"
    by (cases ws) (auto simp: template_items_Cons simp del: template_items.simps(2,3))
  have "v @ CHR 0x22 # (if vs = [] then '''' else '', '' @ template_items vs) @ CHR ''}'' # xs =
      w @ CHR 0x22 # (if ws' = [] then '''' else '', '' @ template_items ws') @ CHR ''}'' # ys"
    using Cons.prems(1) by (simp add: ws template_items_Cons del: template_items.simps(2,3))
  from until_quote [OF this] have "v = w"
    and rest: "(if vs = [] then '''' else '', '' @ template_items vs) @ CHR ''}'' # xs =
      (if ws' = [] then '''' else '', '' @ template_items ws') @ CHR ''}'' # ys"
    using Cons.prems(2,3) by (simp_all add: ws)
  moreover from rest have "vs = ws' \<and> xs = ys"
    using Cons.IH [of ws'] Cons.prems(2,3) by (auto simp: ws split: if_splits)
  ultimately show ?case by (simp add: ws)
qed

lemma permission_literal_inject:
  assumes "permission_literal p @ xs = permission_literal q @ ys"
    and "clean_permission p" and "clean_permission q"
  shows "p = q \<and> xs = ys"
proof -
  note clean = assms(2,3) [unfolded clean_permission_def]
  have eq: "template_items (pm_APIGroups p) @ CHR ''}'' # CHR '','' # newline @ ''Resources: []string{'' @
      template_items (pm_Resources p) @ CHR ''}'' # CHR '','' # newline @ ''ResourceNames: []string{'' @
      template_items (pm_ResourceNames p) @ CHR ''}'' # CHR '','' # newline @ ''Namespace: '' @
      CHR 0x22 # pm_Namespace p @ CHR 0x22 # CHR '','' # newline @ ''Name: '' @
      CHR 0x22 # pm_Name p @ CHR 0x22 # CHR '','' # newline @ ''Verbs: []string{'' @
      template_items (pm_Verbs p) @ CHR ''}'' # CHR '','' # newline @ ''},'' @ newline @ xs =
    template_items (pm_APIGroups q) @ CHR ''}'' # CHR '','' # newline @ ''Resources: []string{'' @
      template_items (pm_Resources q) @ CHR ''}'' # CHR '','' # newline @ ''ResourceNames: []string{'' @
      template_items (pm_ResourceNames q) @ CHR ''}'' # CHR '','' # newline @ ''Namespace: '' @
      CHR 0x22 # pm_Namespace q @ CHR 0x22 # CHR '','' # newline @ ''Name: '' @
      CHR 0x22 # pm_Name q @ CHR 0x22 # CHR '','' # newline @ ''Verbs: []string{'' @
      template_items (pm_Verbs q) @ CHR ''}'' # CHR '','' # newline @ ''},'' @ newline @ ys"
    using assms(1)
    by (simp add: permission_literal_def write_rule_def list_template_def value_template_def in_quotes_def)
  have g: "pm_APIGroups p = pm_APIGroups q"
    using template_items_inject [OF eq] clean by simp
  note eq2 = eq [unfolded g, simplified]
  have r: "pm_Resources p = pm_Resources q"
    using template_items_inject [OF eq2] clean by simp
  note eq3 = eq2 [unfolded r, simplified]
  have n: "pm_ResourceNames p = pm_ResourceNames q"
    using template_items_inject [OF eq3] clean by simp
  note eq4 = eq3 [unfolded n, simplified]
  have s: "pm_Namespace p = pm_Namespace q"
    using until_quote [OF eq4] clean by simp
  note eq5 = eq4 [unfolded s, simplified]
  have m: "pm_Name p = pm_Name q"
    using until_quote [OF eq5] clean by simp
  note eq6 = eq5 [unfolded m, simplified]
  have v: "pm_Verbs p = pm_Verbs q"
    using template_items_inject [OF eq6] clean by simp
  from eq6 [unfolded v, simplified] show ?thesis
    using g r n s m v by simp
qed

lemma permission_literal_opens: "\<exists>t. permission_literal p = CHR ''{'' # t"
  by (simp add: permission_literal_def write_rule_def)

lemma permission_literals_inject:
  assumes "concat (map permission_literal ps) @ ''}'' @ newline = concat (map permission_literal qs) @ ''}'' @ newline"
    and "list_all clean_permission ps" and "list_all clean_permission qs"
  shows "ps = qs"
  using assms
proof (induction ps arbitrary: qs)
  case Nil
  show ?case
  proof (cases qs)
    case (Cons q qs')
    then show ?thesis using Nil.prems permission_literal_opens [of q] by auto
  qed simp
next
  case (Cons p ps)
  then obtain q qs' where qs: "qs = q # qs'"
    by (cases qs) (use permission_literal_opens [of p] in auto)
  have "permission_literal p @ concat (map permission_literal ps) @ ''}'' @ newline =
      permission_literal q @ concat (map permission_literal qs') @ ''}'' @ newline"
    using Cons.prems(1) by (simp add: qs)
  from permission_literal_inject [OF this] Cons.prems(2,3) Cons.IH [of qs'] show ?case
    by (simp add: qs)
qed

lemma permission_file_inject:
  assumes "permission_file agentType ps = permission_file agentType qs"
    and "list_all clean_permission ps" and "list_all clean_permission qs"
  shows "ps = qs"
  using assms permission_literals_inject unfolding permission_file_def by blast


subsection \<open>The roles of the agents\<close>

definition manager_rule :: "string \<Rightarrow> string list \<Rightarrow> string list \<Rightarrow> string list \<Rightarrow> role_rule" where
  "manager_rule grp resources verbs names =
     \<lparr>ru_APIGroups = [grp], ru_Resources = resources, ru_Verbs = verbs, ru_ResourceNames = names\<rparr>"

definition app_manager_role :: Role where
  "app_manager_role = \<lparr>ro_Name = ''primaza:app:manager'', ro_Namespace = ''system'', ro_Rules =
    [manager_rule ''primaza.io'' [''servicebindings'', ''serviceclaims'', ''servicecatalogs'']
       [''get'', ''list'', ''watch'', ''update'', ''patch'', ''delete'', ''deletecollection''] [],
     manager_rule ''primaza.io'' [''serviceclaims/status''] [''get'', ''list'', ''watch'', ''update''] [],
     manager_rule ''primaza.io'' [''servicebindings/status''] [''get'', ''list'', ''watch'', ''update''] [],
     manager_rule ''apps'' [''deployments''] [''get'', ''list'', ''watch'', ''update'', ''patch''] [],
     manager_rule ''apps'' [''deployments'', ''deployments/finalizers''] [''update''] [''primaza-app-agent''],
     manager_rule '''' [''secrets''] [''list'', ''get'', ''delete'', ''watch'', ''update''] [],
     manager_rule ''primaza.io'' [''servicebindings/finalizers''] [''update''] []]\<rparr>"

definition app_leader_election_role :: Role where
  "app_leader_election_role =
    \<lparr>ro_Name = ''primaza:app:leader-election'', ro_Namespace = ''system'', ro_Rules =
    [manager_rule ''coordination.k8s.io'' [''leases'']
       [''get'', ''list'', ''watch'', ''create'', ''update'', ''patch'', ''delete''] [],
     manager_rule '''' [''events''] [''create'', ''patch''] []]\<rparr>"

definition svc_manager_role :: Role where
  "svc_manager_role = \<lparr>ro_Name = ''primaza:svc:manager'', ro_Namespace = ''system'', ro_Rules =
    [manager_rule ''primaza.io'' [''serviceclasses'', ''registeredservices'']
       [''create'', ''delete'', ''deletecollection'', ''get'', ''list'', ''patch'', ''update'', ''watch''] [],
     manager_rule ''primaza.io'' [''serviceclasses/status''] [''get'', ''patch'', ''update''] [],
     manager_rule '''' [''secrets''] [''create'', ''delete'', ''update'', ''get'', ''list'', ''watch''] [],
     manager_rule ''apps'' [''deployments''] [''get'', ''list'', ''watch''] [],
     manager_rule ''apps'' [''deployments'', ''deployments/finalizers''] [''update''] [''primaza-svc-agent'']]\<rparr>"

definition svc_leader_election_role :: Role where
  "svc_leader_election_role =
    \<lparr>ro_Name = ''primaza:svc:leader-election'', ro_Namespace = ''system'', ro_Rules =
    [manager_rule '''' [''configmaps'']
       [''get'', ''list'', ''watch'', ''create'', ''update'', ''patch'', ''delete''] [],
     manager_rule ''coordination.k8s.io'' [''leases'']
       [''get'', ''list'', ''watch'', ''create'', ''update'', ''patch'', ''delete''] [],
     manager_rule '''' [''events''] [''create'', ''patch''] []]\<rparr>"

text \<open>The lists that the access checks use are those the generator makes of the roles, in order.\<close>

lemma published_lists_match_roles:
  "role_permissions app_manager_role @ role_permissions app_leader_election_role = GetAppPermissionList"
  "role_permissions svc_manager_role @ role_permissions svc_leader_election_role = GetSvcPermissionList"
  by (simp_all add: role_permissions_def app_manager_role_def app_leader_election_role_def
      svc_manager_role_def svc_leader_election_role_def manager_rule_def perm_def
      GetAppPermissionList_def AppPermissionList_def GetSvcPermissionList_def SvcPermissionList_def)

lemma generated_list_is_published:
  assumes "\<forall>role. unmarshal (read ''config/agents/app/rbac/manager_role.yaml'') role = app_manager_role"
    and "\<forall>role. unmarshal (read ''config/agents/app/rbac/leader_election_role.yaml'') role =
      app_leader_election_role"
    and "\<forall>path out. write path out = None"
  shows "permissionlist_main read unmarshal write
      [''permissionlist'', ''App'', ''pkg/authz/'', ''config/agents/app/rbac/manager_role.yaml'',
       ''config/agents/app/rbac/leader_election_role.yaml''] =
    Inr (''pkg/authz/permission_list_app.go'', permission_file ''App'' GetAppPermissionList)"
proof -
  have "path_Clean ''config/agents/app/rbac/manager_role.yaml'' = ''config/agents/app/rbac/manager_role.yaml''"
    "path_Clean ''config/agents/app/rbac/leader_election_role.yaml'' =
      ''config/agents/app/rbac/leader_election_role.yaml''"
    "path_Join [''pkg/authz/'', ''permission_list_'' @ ToLower ''App'' @ ''.go''] =
      ''pkg/authz/permission_list_app.go''"
    by code_simp+
  then show ?thesis
    using assms
    by (simp add: permissionlist_main_def Let_def write_rules_eq role_literals permission_file_def
        flip: published_lists_match_roles(1))
qed

end
