(* ===== verification/Go_Memory.thy ===== *)
theory Go_Memory
  imports Prelude
begin

section \<open>Go memory: pointers, slices and maps\<close>

text \<open>
  The other theories treat Go structs as values, which is right as long as no two of them share memory.
  Deep copies are about this sharing, so here a struct holds addresses. A pointer leads to a cell with
  one value, a slice to a part of an array, a map to its entries; strings, numbers and times are scalars.
  The shape of a type (its fields and what they refer to) directs what a value means (\<open>view\<close>: the tree
  of what it refers to) and which addresses belong to it (\<open>footprint\<close>).
\<close>

type_synonym addr = nat

datatype gval =
    Scalar string
  | Struct "gval list"                       \<comment> \<open>its fields, in the order of their declaration\<close>
  | Pointer "addr option"
  | SliceHdr "(addr \<times> nat \<times> nat) option"    \<comment> \<open>array, offset and length\<close>
  | MapHdr "addr option"

datatype cell = Pointee gval | Elements "gval list" | Entries "(string \<times> gval) list"

record memory =
  cells :: "addr \<Rightarrow> cell option"
  free :: addr

datatype shape =
    SPlain
  | SStruct "shape list"
  | SPtr shape
  | SSlice shape
  | SMap shape

datatype tree =
    TLeaf string
  | TStruct "tree list"
  | TNil
  | TPtr tree
  | TSlice "tree list"
  | TMap "(string \<times> tree) list"

type_synonym copier = "gval \<Rightarrow> (memory, gval) state"

subsection \<open>What a value means and where it lies\<close>

definition slice_elements :: "memory \<Rightarrow> addr \<times> nat \<times> nat \<Rightarrow> gval list option" where
  "slice_elements m h = (case h of (a, off, n) \<Rightarrow>
     (case cells m a of
        Some (Elements xs) \<Rightarrow> if off + n \<le> length xs then Some (take n (drop off xs)) else None
      | _ \<Rightarrow> None))"

definition map_entries :: "memory \<Rightarrow> addr \<Rightarrow> (string \<times> gval) list option" where
  "map_entries m a = (case cells m a of Some (Entries kvs) \<Rightarrow> Some kvs | _ \<Rightarrow> None)"

definition pointee :: "memory \<Rightarrow> addr \<Rightarrow> gval option" where
  "pointee m a = (case cells m a of Some (Pointee v) \<Rightarrow> Some v | _ \<Rightarrow> None)"

definition view_all :: "(gval \<Rightarrow> tree option) list \<Rightarrow> gval list \<Rightarrow> tree list option" where
  "view_all fs vs = (if length vs = length fs then those (map2 (\<lambda>f v. f v) fs vs) else None)"

primrec view :: "shape \<Rightarrow> memory \<Rightarrow> gval \<Rightarrow> tree option" where
  "view SPlain = (\<lambda>m v. case v of Scalar x \<Rightarrow> Some (TLeaf x) | _ \<Rightarrow> None)"
| "view (SStruct ss) = (\<lambda>m v. case v of
     Struct vs \<Rightarrow> map_option TStruct (view_all (map (\<lambda>w. w m) (map view ss)) vs) | _ \<Rightarrow> None)"
| "view (SPtr s) = (\<lambda>m v. case v of
     Pointer None \<Rightarrow> Some TNil
   | Pointer (Some a) \<Rightarrow> Option.bind (pointee m a) (\<lambda>w. map_option TPtr (view s m w))
   | _ \<Rightarrow> None)"
| "view (SSlice s) = (\<lambda>m v. case v of
     SliceHdr None \<Rightarrow> Some TNil
   | SliceHdr (Some h) \<Rightarrow>
       Option.bind (slice_elements m h) (\<lambda>xs. map_option TSlice (view_all (replicate (length xs) (view s m)) xs))
   | _ \<Rightarrow> None)"
| "view (SMap s) = (\<lambda>m v. case v of
     MapHdr None \<Rightarrow> Some TNil
   | MapHdr (Some a) \<Rightarrow> Option.bind (map_entries m a) (\<lambda>kvs.
       map_option (\<lambda>ts. TMap (zip (map fst kvs) ts)) (view_all (replicate (length kvs) (view s m)) (map snd kvs)))
   | _ \<Rightarrow> None)"

primrec footprint :: "shape \<Rightarrow> memory \<Rightarrow> gval \<Rightarrow> addr list" where
  "footprint SPlain = (\<lambda>m v. [])"
| "footprint (SStruct ss) = (\<lambda>m v. case v of
     Struct vs \<Rightarrow> concat (map2 (\<lambda>f v. f m v) (map footprint ss) vs) | _ \<Rightarrow> [])"
| "footprint (SPtr s) = (\<lambda>m v. case v of
     Pointer (Some a) \<Rightarrow> a # (case pointee m a of Some w \<Rightarrow> footprint s m w | None \<Rightarrow> []) | _ \<Rightarrow> [])"
| "footprint (SSlice s) = (\<lambda>m v. case v of
     SliceHdr (Some h) \<Rightarrow> fst h # (case slice_elements m h of
       Some xs \<Rightarrow> concat (map (footprint s m) xs) | None \<Rightarrow> []) | _ \<Rightarrow> [])"
| "footprint (SMap s) = (\<lambda>m v. case v of
     MapHdr (Some a) \<Rightarrow> a # (case map_entries m a of
       Some kvs \<Rightarrow> concat (map (\<lambda>e. footprint s m (snd e)) kvs) | None \<Rightarrow> []) | _ \<Rightarrow> [])"

text \<open>Shapes without references: an assignment copies such a value.\<close>

primrec flat :: "shape \<Rightarrow> bool" where
  "flat SPlain = True"
| "flat (SStruct ss) = list_all id (map flat ss)"
| "flat (SPtr s) = False"
| "flat (SSlice s) = False"
| "flat (SMap s) = False"

subsection \<open>The statements of a copy function\<close>

definition alloc :: "cell \<Rightarrow> (memory, addr) state" where
  "alloc c = do {
     m \<leftarrow> State_Monad.get;
     _ \<leftarrow> State_Monad.set \<lparr>cells = (cells m)(free m \<mapsto> c), free = Suc (free m)\<rparr>;
     ret (free m) }"

text \<open>Several values one after the other, each with its copier.\<close>

fun copy_seq :: "copier list \<Rightarrow> gval list \<Rightarrow> (memory, gval list) state" where
  "copy_seq (c # cs) (v # vs) = do { w \<leftarrow> c v; ws \<leftarrow> copy_seq cs vs; ret (w # ws) }"
| "copy_seq cs vs = ret vs"

definition copy_each :: "copier \<Rightarrow> gval list \<Rightarrow> (memory, gval list) state" where
  "copy_each c vs = copy_seq (replicate (length vs) c) vs"

text \<open>
  \<open>new_copy\<close>: \<^verbatim>\<open>*out = new(T)\<close>, then the copy of the target (\<open>ret\<close> for \<^verbatim>\<open>**out = **in\<close>). The model takes the
  address when the content is complete; nothing refers to it before. A value that is not of the
  expected kind has no address to follow and is left as it is.
\<close>

definition new_copy :: "copier \<Rightarrow> copier" where
  "new_copy c v = do {
     m \<leftarrow> State_Monad.get;
     case v of
       Pointer (Some a) \<Rightarrow> (case pointee m a of
           Some x \<Rightarrow> do { y \<leftarrow> c x; b \<leftarrow> alloc (Pointee y); ret (Pointer (Some b)) }
         | None \<Rightarrow> ret v)
     | _ \<Rightarrow> ret v }"

text \<open>\<^verbatim>\<open>*out = make([]T, len(*in))\<close> and the copies of the elements (\<open>ret\<close> for \<^verbatim>\<open>copy(*out, *in)\<close>).\<close>

definition make_slice :: "copier \<Rightarrow> copier" where
  "make_slice c v = do {
     m \<leftarrow> State_Monad.get;
     case v of
       SliceHdr (Some h) \<Rightarrow> (case slice_elements m h of
           Some xs \<Rightarrow> do { ys \<leftarrow> copy_each c xs; b \<leftarrow> alloc (Elements ys); ret (SliceHdr (Some (b, 0, length ys))) }
         | None \<Rightarrow> ret v)
     | _ \<Rightarrow> ret v }"

text \<open>\<^verbatim>\<open>*out = make(map[string]T, len(*in))\<close> and the entries one by one.\<close>

definition make_map :: "copier \<Rightarrow> copier" where
  "make_map c v = do {
     m \<leftarrow> State_Monad.get;
     case v of
       MapHdr (Some a) \<Rightarrow> (case map_entries m a of
           Some kvs \<Rightarrow> do { ys \<leftarrow> copy_each c (map snd kvs); b \<leftarrow> alloc (Entries (zip (map fst kvs) ys)); ret (MapHdr (Some b)) }
         | None \<Rightarrow> ret v)
     | _ \<Rightarrow> ret v }"

text \<open>
  A struct type is the list of its fields. \<open>copy_into fields st\<close>: \<^verbatim>\<open>*out = *in\<close>, then the statements \<open>st\<close>, each
  for one field and in the order of the fields; a field without a statement stays as assigned.
\<close>

type_synonym fields = "(string \<times> shape) list"

definition struct :: "fields \<Rightarrow> shape" where
  "struct fs = SStruct (map snd fs)"

definition statement_of :: "(string \<times> copier) list \<Rightarrow> string \<Rightarrow> copier" where
  "statement_of st f = (case map_of st f of Some c \<Rightarrow> c | None \<Rightarrow> ret)"

definition copy_into :: "fields \<Rightarrow> (string \<times> copier) list \<Rightarrow> copier" where
  "copy_into fs st v = (case v of
     Struct vs \<Rightarrow> do { ws \<leftarrow> copy_seq (map (\<lambda>f. statement_of st (fst f)) fs) vs; ret (Struct ws) }
   | _ \<Rightarrow> ret v)"

subsection \<open>Memory only grows\<close>

definition wf_memory :: "memory \<Rightarrow> bool" where
  "wf_memory m = (\<forall>a. cells m a \<noteq> None \<longrightarrow> a < free m)"

definition extends :: "memory \<Rightarrow> memory \<Rightarrow> bool" where
  "extends m m' = (wf_memory m' \<and> free m \<le> free m' \<and> (\<forall>a<free m. cells m' a = cells m a))"

lemma extends_refl [simp]: "wf_memory m \<Longrightarrow> extends m m"
  by (simp add: extends_def)

lemma extends_trans: "extends m m1 \<Longrightarrow> extends m1 m2 \<Longrightarrow> extends m m2"
  by (simp add: extends_def)

lemma alloc_run [simp]:
  "run_state (alloc c) m = (free m, \<lparr>cells = (cells m)(free m \<mapsto> c), free = Suc (free m)\<rparr>)"
  by (simp add: alloc_def)

lemma alloc_extends:
  assumes "wf_memory m"
  shows "extends m \<lparr>cells = (cells m)(free m \<mapsto> c), free = Suc (free m)\<rparr>"
  using assms by (auto simp: extends_def wf_memory_def less_Suc_eq)

subsection \<open>Views depend on footprints\<close>

lemma view_all_Nil: "view_all [] vs = Some ts \<longleftrightarrow> vs = [] \<and> ts = []"
  by (auto simp: view_all_def)

lemma view_all_Cons:
  "view_all (f # fs) vs = Some ts \<longleftrightarrow>
     (\<exists>v vs' t ts'. vs = v # vs' \<and> ts = t # ts' \<and> f v = Some t \<and> view_all fs vs' = Some ts')"
  by (cases vs) (auto simp: view_all_def split: option.splits)

lemma view_all_length: "view_all fs vs = Some ts \<Longrightarrow> length vs = length fs \<and> length ts = length fs"
  by (induction fs arbitrary: vs ts) (auto simp: view_all_Nil view_all_Cons)

lemma map2_replicate: "map2 f (replicate (length xs) s) xs = map (f s) xs"
  by (induction xs) simp_all

lemma view_all_cong:
  assumes "\<And>s v. (s, v) \<in> set (zip ss vs) \<Longrightarrow> f s v = g s v"
  shows "view_all (map f ss) vs = view_all (map g ss) vs"
proof -
  have "map2 (\<lambda>h v. h v) (map f ss) vs = map2 (\<lambda>h v. h v) (map g ss) vs"
    using assms by (auto simp: zip_map1)
  then show ?thesis by (simp add: view_all_def)
qed

lemma cells_cong:
  assumes "cells m' a = cells m a"
  shows "pointee m' a = pointee m a" and "slice_elements m' (a, n) = slice_elements m (a, n)"
    and "map_entries m' a = map_entries m a"
  using assms by (simp_all add: pointee_def slice_elements_def map_entries_def)

definition same_view :: "shape \<Rightarrow> memory \<Rightarrow> memory \<Rightarrow> gval \<Rightarrow> bool" where
  "same_view s m m' v = (view s m' v = view s m v \<and> footprint s m' v = footprint s m v)"

lemma same_view_all:
  assumes "\<And>s v. (s, v) \<in> set (zip ss vs) \<Longrightarrow> same_view s m m' v"
  shows "view_all (map (\<lambda>s. view s m') ss) vs = view_all (map (\<lambda>s. view s m) ss) vs"
    and "map2 (\<lambda>s v. footprint s m' v) ss vs = map2 (\<lambda>s v. footprint s m v) ss vs"
proof -
  show "view_all (map (\<lambda>s. view s m') ss) vs = view_all (map (\<lambda>s. view s m) ss) vs"
    by (rule view_all_cong) (use assms in \<open>simp add: same_view_def\<close>)
  show "map2 (\<lambda>s v. footprint s m' v) ss vs = map2 (\<lambda>s v. footprint s m v) ss vs"
    using assms by (auto simp: same_view_def)
qed


lemma view_struct:
  "view (SStruct ss) m (Struct vs) = map_option TStruct (view_all (map (\<lambda>s. view s m) ss) vs)"
  by (simp add: comp_def)

lemma footprint_struct:
  "footprint (SStruct ss) m (Struct vs) = concat (map2 (\<lambda>s v. footprint s m v) ss vs)"
  by (simp add: zip_map1 comp_def case_prod_unfold)

lemma view_SPtr_Some:
  "view (SPtr s) m (Pointer (Some a)) = Some t \<longleftrightarrow> (\<exists>x u. pointee m a = Some x \<and> view s m x = Some u \<and> t = TPtr u)"
  by (auto simp: bind_eq_Some_conv)

lemma same_view_each:
  assumes "\<And>x. x \<in> set xs \<Longrightarrow> same_view s m m' x"
  shows "view_all (replicate (length xs) (view s m')) xs = view_all (replicate (length xs) (view s m)) xs"
proof -
  have "same_view t m m' x" if "(t, x) \<in> set (zip (replicate (length xs) s) xs)" for t x
    using assms set_zip_leftD [OF that] set_zip_rightD [OF that] by (simp add: in_set_replicate)
  from same_view_all(1) [of "replicate (length xs) s" xs m m', OF this] show ?thesis by simp
qed

text \<open>A value reads the same in a memory that agrees on its footprint.\<close>

lemma same_view_agree:
  assumes "\<And>a. a \<in> set (footprint s m v) \<Longrightarrow> cells m' a = cells m a"
  shows "same_view s m m' v"
  using assms
proof (induction s arbitrary: v)
  case SPlain
  then show ?case by (simp add: same_view_def)
next
  case (SStruct ss)
  show ?case
  proof (cases v)
    case (Struct vs)
    have sv: "same_view s m m' w" if "(s, w) \<in> set (zip ss vs)" for s w
    proof (rule SStruct.IH)
      show "s \<in> set ss" using that by (rule set_zip_leftD)
      fix a assume "a \<in> set (footprint s m w)"
      with that have "a \<in> set (footprint (SStruct ss) m v)" by (auto simp: Struct footprint_struct simp del: footprint.simps)
      then show "cells m' a = cells m a" by (rule SStruct.prems)
    qed
    show ?thesis unfolding same_view_def Struct view_struct footprint_struct
      by (simp only: same_view_all [of ss vs m m', OF sv] simp_thms)
  qed (simp_all add: same_view_def)
next
  case (SPtr s)
  show ?case
  proof (cases "\<exists>a. v = Pointer (Some a)")
    case True
    then obtain a where v: "v = Pointer (Some a)" ..
    note eq = cells_cong [OF SPtr.prems [of a, unfolded v, simplified]]
    show ?thesis
    proof (cases "pointee m a")
      case None
      with eq show ?thesis by (simp add: v same_view_def)
    next
      case (Some x)
      have "same_view s m m' x" by (rule SPtr.IH) (rule SPtr.prems, simp add: v Some)
      with eq Some show ?thesis by (simp add: v same_view_def)
    qed
  qed (auto simp: same_view_def split: gval.splits option.splits)
next
  case (SSlice s)
  show ?case
  proof (cases "\<exists>h. v = SliceHdr (Some h)")
    case True
    then obtain a p where v: "v = SliceHdr (Some (a, p))" by (auto simp: ex_simps split_paired_Ex)
    note eq = cells_cong [OF SSlice.prems [of a, unfolded v, simplified]]
    show ?thesis
    proof (cases "slice_elements m (a, p)")
      case None
      with eq show ?thesis by (simp add: v same_view_def)
    next
      case (Some xs)
      have sv: "same_view s m m' x" if "x \<in> set xs" for x
        by (rule SSlice.IH) (rule SSlice.prems, use that in \<open>auto simp: v Some\<close>)
      have "view_all (replicate (length xs) (view s m')) xs = view_all (replicate (length xs) (view s m)) xs"
        by (rule same_view_each) (rule sv)
      moreover have "map (footprint s m') xs = map (footprint s m) xs" using sv by (simp add: same_view_def)
      ultimately show ?thesis using eq Some by (simp add: v same_view_def cong: map_cong)
    qed
  qed (auto simp: same_view_def split: gval.splits option.splits)
next
  case (SMap s)
  show ?case
  proof (cases "\<exists>a. v = MapHdr (Some a)")
    case True
    then obtain a where v: "v = MapHdr (Some a)" ..
    note eq = cells_cong [OF SMap.prems [of a, unfolded v, simplified]]
    show ?thesis
    proof (cases "map_entries m a")
      case None
      with eq show ?thesis by (simp add: v same_view_def)
    next
      case (Some kvs)
      have sv: "same_view s m m' (snd e)" if "e \<in> set kvs" for e
        by (rule SMap.IH) (rule SMap.prems, use that in \<open>auto simp: v Some\<close>)
      have "view_all (replicate (length kvs) (view s m')) (map snd kvs) = view_all (replicate (length kvs) (view s m)) (map snd kvs)"
        using same_view_each [of "map snd kvs" s m m'] sv by fastforce
      moreover have "map (\<lambda>e. footprint s m' (snd e)) kvs = map (\<lambda>e. footprint s m (snd e)) kvs"
        using sv by (simp add: same_view_def)
      ultimately show ?thesis using eq Some by (simp add: v same_view_def cong: map_cong)
    qed
  qed (auto simp: same_view_def split: gval.splits option.splits)
qed


text \<open>What belongs to a value that can be read is allocated.\<close>

lemma view_all_nth:
  assumes "view_all (map g ss) vs = Some ts" and "(s, w) \<in> set (zip ss vs)"
  shows "\<exists>u. g s w = Some u"
  using assms
  by (induction ss arbitrary: vs ts) (auto simp: view_all_Cons view_all_Nil)

lemma footprint_allocated:
  assumes "view s m v = Some t" and "a \<in> set (footprint s m v)"
  shows "cells m a \<noteq> None"
  using assms
proof (induction s arbitrary: v t)
  case SPlain
  then show ?case by simp
next
  case (SStruct ss)
  from SStruct.prems(1) obtain vs where v: "v = Struct vs" by (auto split: gval.splits)
  from SStruct.prems(2) obtain s w where sw: "(s, w) \<in> set (zip ss vs)" "a \<in> set (footprint s m w)"
    unfolding v footprint_struct by auto
  from SStruct.prems(1) obtain ts where "view_all (map (\<lambda>s. view s m) ss) vs = Some ts"
    unfolding v view_struct by auto
  from view_all_nth [OF this sw(1)] SStruct.IH [OF set_zip_leftD [OF sw(1)] _ sw(2)] show ?case by auto
next
  case (SPtr s)
  then show ?case
    by (auto simp: bind_eq_Some_conv pointee_def split: gval.splits option.splits cell.splits)
next
  case (SSlice s)
  from SSlice.prems obtain b p xs ts where v: "v = SliceHdr (Some (b, p))" "slice_elements m (b, p) = Some xs"
    "view_all (map (\<lambda>_. view s m) xs) xs = Some ts"
    by (auto simp: bind_eq_Some_conv map_replicate_const split: gval.splits option.splits)
  have "cells m b \<noteq> None" using v(2) by (auto simp: slice_elements_def split: option.splits prod.splits)
  moreover have "\<exists>u. view s m x = Some u" if "x \<in> set xs" for x
  proof -
    have "(x, x) \<in> set (zip xs xs)" using that by (auto simp: zip_same)
    from view_all_nth [OF v(3) this] show ?thesis .
  qed
  ultimately show ?case using SSlice.prems(2) v SSlice.IH by fastforce
next
  case (SMap s)
  from SMap.prems obtain b kvs ts where v: "v = MapHdr (Some b)" "map_entries m b = Some kvs"
    "view_all (map (\<lambda>_. view s m) (map snd kvs)) (map snd kvs) = Some ts"
    by (auto simp: bind_eq_Some_conv map_replicate_const split: gval.splits option.splits)
  have "cells m b \<noteq> None" using v(2) by (auto simp: map_entries_def split: option.splits)
  moreover have "\<exists>u. view s m (snd e) = Some u" if "e \<in> set kvs" for e
  proof -
    have "(snd e, snd e) \<in> set (zip (map snd kvs) (map snd kvs))" using that by (auto simp: zip_same)
    from view_all_nth [OF v(3) this] show ?thesis .
  qed
  ultimately show ?case using SMap.prems(2) v SMap.IH by fastforce
qed

lemma view_extends:
  assumes "wf_memory m" and "view s m v = Some t" and "extends m m'"
  shows "view s m' v = Some t" and "footprint s m' v = footprint s m v"
proof -
  have "cells m' a = cells m a" if "a \<in> set (footprint s m v)" for a
    using footprint_allocated [OF assms(2) that] assms(1,3) by (auto simp: wf_memory_def extends_def)
  from same_view_agree [OF this] assms(2) show "view s m' v = Some t" "footprint s m' v = footprint s m v"
    by (simp_all add: same_view_def)
qed

lemma flat_footprint: "flat s \<Longrightarrow> footprint s m v = []"
proof (induction s arbitrary: v)
  case (SStruct ss)
  then show ?case
    by (cases v) (auto simp: list_all_iff zip_map1 dest!: set_zip_leftD)
qed simp_all

subsection \<open>Copiers\<close>

definition copied :: "shape \<Rightarrow> memory \<Rightarrow> tree \<Rightarrow> gval \<times> memory \<Rightarrow> bool" where
  "copied s m t r = (case r of (v', m') \<Rightarrow>
     extends m m' \<and> view s m' v' = Some t \<and> (\<forall>a\<in>set (footprint s m' v'). free m \<le> a))"

text \<open>\<open>copies s c\<close>: \<open>c\<close> makes a copy with the same content and no address in common.\<close>

definition copies :: "shape \<Rightarrow> copier \<Rightarrow> bool" where
  "copies s c = (\<forall>m v t. wf_memory m \<longrightarrow> view s m v = Some t \<longrightarrow> copied s m t (run_state (c v) m))"

lemma copiesD:
  assumes "copies s c" and "wf_memory m" and "view s m v = Some t" and "run_state (c v) m = (v', m')"
  shows "extends m m'" and "view s m' v' = Some t" and "\<forall>a\<in>set (footprint s m' v'). free m \<le> a"
  using assms by (fastforce simp: copies_def copied_def)+

lemma copies_ret: "flat s \<Longrightarrow> copies s ret"
  by (simp add: copies_def copied_def flat_footprint)

lemma copy_seq_copies:
  assumes "list_all2 copies ss cs" and "wf_memory m" and "view_all (map (\<lambda>s. view s m) ss) vs = Some ts"
    and "run_state (copy_seq cs vs) m = (vs', m')"
  shows "extends m m' \<and> view_all (map (\<lambda>s. view s m') ss) vs' = Some ts \<and>
    (\<forall>a\<in>set (concat (map2 (\<lambda>s v. footprint s m' v) ss vs')). free m \<le> a)"
  using assms
proof (induction ss cs arbitrary: vs ts m vs' m' rule: list_all2_induct)
  case Nil
  then show ?case by (auto simp: view_all_Nil)
next
  case (Cons s ss c cs)
  from Cons.prems(2) obtain v ws t us where v: "vs = v # ws" "ts = t # us" "view s m v = Some t"
    "view_all (map (\<lambda>s. view s m) ss) ws = Some us" by (auto simp: view_all_Cons)
  obtain v' m1 where c: "run_state (c v) m = (v', m1)" by (metis prod.collapse)
  note one = copiesD [OF Cons.hyps(1) Cons.prems(1) v(3) c]
  obtain ws' m2 where r: "run_state (copy_seq cs ws) m1 = (ws', m2)" by (metis prod.collapse)
  have "view_all (map (\<lambda>s. view s m1) ss) ws = view_all (map (\<lambda>s. view s m) ss) ws"
  proof (rule view_all_cong)
    fix s w assume "(s, w) \<in> set (zip ss ws)"
    from view_all_nth [OF v(4) this] view_extends(1) [OF Cons.prems(1) _ one(1)] show "view s m1 w = view s m w" by force
  qed
  then have "view_all (map (\<lambda>s. view s m1) ss) ws = Some us" using v(4) by simp
  from Cons.IH [OF _ this r] one(1) have two: "extends m1 m2" "view_all (map (\<lambda>s. view s m2) ss) ws' = Some us"
    "\<forall>a\<in>set (concat (map2 (\<lambda>s v. footprint s m2 v) ss ws')). free m1 \<le> a" by (simp_all add: extends_def)
  have le: "free m \<le> free m1" and wf1: "wf_memory m1" using one(1) by (simp_all add: extends_def)
  from Cons.prems(3) c r v(1) have eq: "vs' = v' # ws'" "m' = m2" by simp_all
  from view_extends [OF wf1 one(2) two(1)] one two(2,3) le extends_trans [OF one(1) two(1)] show ?case
    by (auto simp: eq v(2) view_all_Cons intro: le_trans)
qed


text \<open>A new cell for a copy: what it refers to stays readable, and its address is new.\<close>

lemma alloc_view:
  assumes "wf_memory m" and "view s m v = Some t"
  shows "view s \<lparr>cells = (cells m)(free m \<mapsto> c), free = Suc (free m)\<rparr> v = Some t"
    and "footprint s \<lparr>cells = (cells m)(free m \<mapsto> c), free = Suc (free m)\<rparr> v = footprint s m v"
  using view_extends [OF assms alloc_extends [OF assms(1)]] by simp_all

lemma copies_new_copy:
  assumes "copies s c"
  shows "copies (SPtr s) (new_copy c)"
  unfolding copies_def
proof (intro allI impI)
  fix m v t assume wf: "wf_memory m" and v: "view (SPtr s) m v = Some t"
  show "copied (SPtr s) m t (run_state (new_copy c v) m)"
  proof (cases "\<exists>a. v = Pointer (Some a)")
    case True
    then obtain a where a: "v = Pointer (Some a)" ..
    with v obtain x u where x: "pointee m a = Some x" "view s m x = Some u" "t = TPtr u"
      by (auto simp: bind_eq_Some_conv)
    obtain y m1 where c: "run_state (c x) m = (y, m1)" by (metis prod.collapse)
    note y = copiesD [OF assms wf x(2) c]
    let ?m2 = "\<lparr>cells = (cells m1)(free m1 \<mapsto> Pointee y), free = Suc (free m1)\<rparr>"
    have wf1: "wf_memory m1" and le: "free m \<le> free m1" using y(1) by (simp_all add: extends_def)
    have run: "run_state (new_copy c v) m = (Pointer (Some (free m1)), ?m2)" by (simp add: new_copy_def a x(1) c)
    have "pointee ?m2 (free m1) = Some y" by (simp add: pointee_def)
    with alloc_view [OF wf1 y(2), of "Pointee y"] y(3) le extends_trans [OF y(1) alloc_extends [OF wf1]]
    show ?thesis by (simp add: copied_def run x(3))
  next
    case False
    with v have "v = Pointer None" "t = TNil" by (auto split: gval.splits option.splits)
    with wf show ?thesis by (simp add: new_copy_def copied_def)
  qed
qed

lemma copy_each_copies:
  assumes "copies s c" and "wf_memory m" and "view_all (replicate (length vs) (view s m)) vs = Some ts"
    and "run_state (copy_each c vs) m = (vs', m')"
  shows "extends m m'" and "length vs' = length vs" and "view_all (replicate (length vs) (view s m')) vs' = Some ts"
    and "\<forall>v\<in>set vs'. \<forall>a\<in>set (footprint s m' v). free m \<le> a"
proof -
  have "list_all2 copies (replicate (length vs) s) (replicate (length vs) c)"
    using assms(1) by (simp add: list_all2_conv_all_nth)
  from copy_seq_copies [OF this assms(2) _ assms(4) [unfolded copy_each_def]] assms(3)
  have all: "extends m m'" "view_all (replicate (length vs) (view s m')) vs' = Some ts"
    "\<forall>a\<in>set (concat (map2 (\<lambda>s v. footprint s m' v) (replicate (length vs) s) vs')). free m \<le> a" by simp_all
  from view_all_length [OF all(2)] have len: "length vs' = length vs" by simp
  from all(3) have "\<forall>v\<in>set vs'. \<forall>a\<in>set (footprint s m' v). free m \<le> a"
    by (simp add: map2_replicate flip: len)
  with all(1,2) len show "extends m m'" "length vs' = length vs"
    "view_all (replicate (length vs) (view s m')) vs' = Some ts"
    "\<forall>v\<in>set vs'. \<forall>a\<in>set (footprint s m' v). free m \<le> a" by simp_all
qed

lemma view_each_extends:
  assumes "wf_memory m" and "view_all (replicate (length vs) (view s m)) vs = Some ts" and "extends m m'"
  shows "view_all (replicate (length vs) (view s m')) vs = Some ts" and "\<forall>v\<in>set vs. footprint s m' v = footprint s m v"
proof -
  have v: "\<exists>u. view s m x = Some u" if "x \<in> set vs" for x
    using view_all_nth [of "\<lambda>_. view s m" vs vs ts x x] assms(2) that by (simp add: map_replicate_const zip_same)
  show "\<forall>v\<in>set vs. footprint s m' v = footprint s m v"
    using v view_extends(2) [OF assms(1) _ assms(3)] by blast
  have "view_all (map (\<lambda>_. view s m') vs) vs = view_all (map (\<lambda>_. view s m) vs) vs"
    by (rule view_all_cong) (use v view_extends(1) [OF assms(1) _ assms(3)] in \<open>force dest: set_zip_rightD\<close>)
  with assms(2) show "view_all (replicate (length vs) (view s m')) vs = Some ts" by (simp add: map_replicate_const)
qed

lemma copies_make_slice:
  assumes "copies s c"
  shows "copies (SSlice s) (make_slice c)"
  unfolding copies_def
proof (intro allI impI)
  fix m v t assume wf: "wf_memory m" and v: "view (SSlice s) m v = Some t"
  show "copied (SSlice s) m t (run_state (make_slice c v) m)"
  proof (cases "\<exists>h. v = SliceHdr (Some h)")
    case True
    then obtain h where h: "v = SliceHdr (Some h)" ..
    with v obtain xs ts where x: "slice_elements m h = Some xs" "view_all (replicate (length xs) (view s m)) xs = Some ts"
      "t = TSlice ts" by (auto simp: bind_eq_Some_conv)
    obtain ys m1 where c: "run_state (copy_each c xs) m = (ys, m1)" by (metis prod.collapse)
    note y = copy_each_copies [OF assms wf x(2) c]
    let ?m2 = "\<lparr>cells = (cells m1)(free m1 \<mapsto> Elements ys), free = Suc (free m1)\<rparr>"
    have wf1: "wf_memory m1" and le: "free m \<le> free m1" using y(1) by (simp_all add: extends_def)
    have run: "run_state (make_slice c v) m = (SliceHdr (Some (free m1, 0, length ys)), ?m2)"
      by (simp add: make_slice_def h x(1) c)
    have "slice_elements ?m2 (free m1, 0, length ys) = Some ys" by (simp add: slice_elements_def)
    moreover note view_each_extends [OF wf1 y(3) [folded y(2)] alloc_extends [OF wf1, of "Elements ys"]]
    ultimately show ?thesis
      using y(4) le extends_trans [OF y(1) alloc_extends [OF wf1]] by (simp add: copied_def run x(3)) blast
  next
    case False
    with v have "v = SliceHdr None" "t = TNil" by (auto split: gval.splits option.splits)
    with wf show ?thesis by (simp add: make_slice_def copied_def)
  qed
qed

lemma copies_make_map:
  assumes "copies s c"
  shows "copies (SMap s) (make_map c)"
  unfolding copies_def
proof (intro allI impI)
  fix m v t assume wf: "wf_memory m" and v: "view (SMap s) m v = Some t"
  show "copied (SMap s) m t (run_state (make_map c v) m)"
  proof (cases "\<exists>a. v = MapHdr (Some a)")
    case True
    then obtain a where a: "v = MapHdr (Some a)" ..
    with v obtain kvs ts where x: "map_entries m a = Some kvs"
      "view_all (replicate (length (map snd kvs)) (view s m)) (map snd kvs) = Some ts"
      "t = TMap (zip (map fst kvs) ts)" by (auto simp: bind_eq_Some_conv)
    obtain ys m1 where c: "run_state (copy_each c (map snd kvs)) m = (ys, m1)" by (metis prod.collapse)
    note y = copy_each_copies [OF assms wf x(2) c]
    let ?kvs = "zip (map fst kvs) ys"
    let ?m2 = "\<lparr>cells = (cells m1)(free m1 \<mapsto> Entries ?kvs), free = Suc (free m1)\<rparr>"
    have wf1: "wf_memory m1" and le: "free m \<le> free m1" using y(1) by (simp_all add: extends_def)
    have kvs: "map fst ?kvs = map fst kvs" "map snd ?kvs = ys" "length ?kvs = length ys"
      using y(2) by (simp_all add: map_fst_zip map_snd_zip)
    have run: "run_state (make_map c v) m = (MapHdr (Some (free m1)), ?m2)"
      by (simp add: make_map_def a x(1) c)
    have "map_entries ?m2 (free m1) = Some ?kvs" by (simp add: map_entries_def)
    moreover note view_each_extends [OF wf1 y(3) [folded y(2)] alloc_extends [OF wf1, of "Entries ?kvs"]]
    moreover have "snd e \<in> set ys" if "e \<in> set ?kvs" for e using that by (metis kvs(2) in_set_zipE image_eqI list.set_map)
    ultimately show ?thesis
      using y(4) le kvs(1-3) extends_trans [OF y(1) alloc_extends [OF wf1, of "Entries ?kvs"]]
      by (simp add: copied_def run x(3) del: zip_map1) blast
  next
    case False
    with v have "v = MapHdr None" "t = TNil" by (auto split: gval.splits option.splits)
    with wf show ?thesis by (simp add: make_map_def copied_def)
  qed
qed

text \<open>A copy function is right when each field is either flat or has a statement that copies it.\<close>

lemma copies_into:
  assumes "list_all (\<lambda>(f, s). copies s (statement_of st f)) fs"
  shows "copies (struct fs) (copy_into fs st)"
  unfolding copies_def
proof (intro allI impI)
  fix m v t assume wf: "wf_memory m" and v: "view (struct fs) m v = Some t"
  from v obtain vs where vs: "v = Struct vs" by (auto simp: struct_def split: gval.splits)
  with v obtain ts where ts: "view_all (map (\<lambda>s. view s m) (map snd fs)) vs = Some ts" "t = TStruct ts"
    by (auto simp: struct_def view_struct simp del: view.simps)
  obtain ws m' where c: "run_state (copy_seq (map (\<lambda>f. statement_of st (fst f)) fs) vs) m = (ws, m')" by (metis prod.collapse)
  have "list_all2 copies (map snd fs) (map (\<lambda>f. statement_of st (fst f)) fs)"
    using assms by (induction fs) auto
  from copy_seq_copies [OF this wf ts(1) c] show "copied (struct fs) m t (run_state (copy_into fs st v) m)"
    by (simp add: copied_def copy_into_def struct_def vs c ts(2) view_struct footprint_struct del: view.simps footprint.simps)
qed

end
