(* ===== verification/Deepcopy.thy ===== *)
theory Deepcopy
  imports Go_Memory
begin

section \<open>Deep copies: \<^verbatim>\<open>api/v1alpha1/zz\_generated.deepcopy.go\<close>\<close>

text \<open>
  The types of the API as they lie in memory (\<open>T_fields\<close>: the fields of the struct \<open>T\<close> in
  \<^verbatim>\<open>api/v1alpha1/*\_types.go\<close>, in order) and the copy functions that controller-gen generates from them
  (\<open>T_DeepCopyInto\<close>: the statements of the function, \<open>T_DeepCopy\<close>, \<open>T_DeepCopyObject\<close>), with the functions of
  the Kubernetes packages that they call. The shapes and the statements come from different files, and
  the proof that every copy function makes a separate copy checks one against the other: a reference
  field added to a type without generating the copy functions again has no statement, and fails it.
  A \<^verbatim>\<open>metav1.Time\<close> is a scalar: its location is shared by design and never written.
\<close>

named_theorems copy_rules \<open>types that are copied separately, and flat types\<close>

type_synonym object_copier = "gval \<Rightarrow> (memory, gval option) state"

text \<open>
  \<^verbatim>\<open>DeepCopy\<close> of a pointer is \<open>new_copy\<close>: nil for nil, otherwise a new target that \<^verbatim>\<open>DeepCopyInto\<close> fills.
  \<^verbatim>\<open>DeepCopyObject\<close> returns the nil interface instead of a nil pointer.
\<close>

definition as_object :: "copier \<Rightarrow> object_copier" where
  "as_object copy v = do { c \<leftarrow> copy v; ret (if c \<noteq> Pointer None then Some c else None) }"

subsection \<open>Kubernetes types\<close>

definition Time_DeepCopyInto :: copier where
  "Time_DeepCopyInto = ret"

definition Time_DeepCopy :: copier where
  "Time_DeepCopy = new_copy Time_DeepCopyInto"

definition TypeMeta_fields :: fields where
  "TypeMeta_fields =
     [(''Kind'', SPlain), (''APIVersion'', SPlain)]"

definition ListMeta_fields :: fields where
  "ListMeta_fields =
     [(''SelfLink'', SPlain), (''ResourceVersion'', SPlain), (''Continue'', SPlain),
      (''RemainingItemCount'', SPtr SPlain)]"

definition ListMeta_DeepCopyInto :: copier where
  "ListMeta_DeepCopyInto = copy_into ListMeta_fields
     [(''RemainingItemCount'', new_copy ret)]"

definition OwnerReference_fields :: fields where
  "OwnerReference_fields =
     [(''APIVersion'', SPlain), (''Kind'', SPlain), (''Name'', SPlain), (''UID'', SPlain),
      (''Controller'', SPtr SPlain), (''BlockOwnerDeletion'', SPtr SPlain)]"

definition OwnerReference_DeepCopyInto :: copier where
  "OwnerReference_DeepCopyInto = copy_into OwnerReference_fields
     [(''Controller'', new_copy ret), (''BlockOwnerDeletion'', new_copy ret)]"

definition FieldsV1_fields :: fields where
  "FieldsV1_fields =
     [(''Raw'', SSlice SPlain)]"

definition FieldsV1_DeepCopyInto :: copier where
  "FieldsV1_DeepCopyInto = copy_into FieldsV1_fields
     [(''Raw'', make_slice ret)]"

definition ManagedFieldsEntry_fields :: fields where
  "ManagedFieldsEntry_fields =
     [(''Manager'', SPlain), (''Operation'', SPlain), (''APIVersion'', SPlain), (''Time'', SPtr SPlain),
      (''FieldsType'', SPlain), (''FieldsV1'', SPtr (struct FieldsV1_fields)), (''Subresource'', SPlain)]"

definition ManagedFieldsEntry_DeepCopyInto :: copier where
  "ManagedFieldsEntry_DeepCopyInto = copy_into ManagedFieldsEntry_fields
     [(''Time'', Time_DeepCopy), (''FieldsV1'', new_copy FieldsV1_DeepCopyInto)]"

definition ObjectMeta_fields :: fields where
  "ObjectMeta_fields =
     [(''Name'', SPlain), (''GenerateName'', SPlain), (''Namespace'', SPlain), (''SelfLink'', SPlain),
      (''UID'', SPlain), (''ResourceVersion'', SPlain), (''Generation'', SPlain),
      (''CreationTimestamp'', SPlain), (''DeletionTimestamp'', SPtr SPlain),
      (''DeletionGracePeriodSeconds'', SPtr SPlain), (''Labels'', SMap SPlain),
      (''Annotations'', SMap SPlain), (''OwnerReferences'', SSlice (struct OwnerReference_fields)),
      (''Finalizers'', SSlice SPlain), (''ManagedFields'', SSlice (struct ManagedFieldsEntry_fields))]"

definition ObjectMeta_DeepCopyInto :: copier where
  "ObjectMeta_DeepCopyInto = copy_into ObjectMeta_fields
     [(''CreationTimestamp'', Time_DeepCopyInto), (''DeletionTimestamp'', Time_DeepCopy),
      (''DeletionGracePeriodSeconds'', new_copy ret), (''Labels'', make_map ret),
      (''Annotations'', make_map ret), (''OwnerReferences'', make_slice OwnerReference_DeepCopyInto),
      (''Finalizers'', make_slice ret), (''ManagedFields'', make_slice ManagedFieldsEntry_DeepCopyInto)]"

definition Condition_fields :: fields where
  "Condition_fields =
     [(''Type'', SPlain), (''Status'', SPlain), (''ObservedGeneration'', SPlain),
      (''LastTransitionTime'', SPlain), (''Reason'', SPlain), (''Message'', SPlain)]"

definition Condition_DeepCopyInto :: copier where
  "Condition_DeepCopyInto = copy_into Condition_fields
     [(''LastTransitionTime'', Time_DeepCopyInto)]"

definition LabelSelectorRequirement_fields :: fields where
  "LabelSelectorRequirement_fields =
     [(''Key'', SPlain), (''Operator'', SPlain), (''Values'', SSlice SPlain)]"

definition LabelSelectorRequirement_DeepCopyInto :: copier where
  "LabelSelectorRequirement_DeepCopyInto = copy_into LabelSelectorRequirement_fields
     [(''Values'', make_slice ret)]"

definition LabelSelector_fields :: fields where
  "LabelSelector_fields =
     [(''MatchLabels'', SMap SPlain),
      (''MatchExpressions'', SSlice (struct LabelSelectorRequirement_fields))]"

definition LabelSelector_DeepCopyInto :: copier where
  "LabelSelector_DeepCopyInto = copy_into LabelSelector_fields
     [(''MatchLabels'', make_map ret),
      (''MatchExpressions'', make_slice LabelSelectorRequirement_DeepCopyInto)]"

definition ObjectReference_fields :: fields where
  "ObjectReference_fields =
     [(''Kind'', SPlain), (''Namespace'', SPlain), (''Name'', SPlain), (''UID'', SPlain),
      (''APIVersion'', SPlain), (''ResourceVersion'', SPlain), (''FieldPath'', SPlain)]"

definition ObjectReference_DeepCopyInto :: copier where
  "ObjectReference_DeepCopyInto = copy_into ObjectReference_fields []"

subsection \<open>The types of Primaza\<close>

definition ClusterEnvironmentSpec_fields :: fields where
  "ClusterEnvironmentSpec_fields =
     [(''EnvironmentName'', SPlain), (''ClusterContextSecret'', SPlain), (''Description'', SPlain),
      (''Labels'', SSlice SPlain), (''ApplicationNamespaces'', SSlice SPlain),
      (''ServiceNamespaces'', SSlice SPlain), (''ContactInfo'', SPlain),
      (''SynchronizationStrategy'', SPlain)]"

definition ClusterEnvironmentSpec_DeepCopyInto :: copier where
  "ClusterEnvironmentSpec_DeepCopyInto = copy_into ClusterEnvironmentSpec_fields
     [(''Labels'', make_slice ret), (''ApplicationNamespaces'', make_slice ret),
      (''ServiceNamespaces'', make_slice ret)]"

definition ClusterEnvironmentSpec_DeepCopy :: copier where
  "ClusterEnvironmentSpec_DeepCopy = new_copy ClusterEnvironmentSpec_DeepCopyInto"

definition ClusterEnvironmentStatus_fields :: fields where
  "ClusterEnvironmentStatus_fields =
     [(''State'', SPlain), (''Conditions'', SSlice (struct Condition_fields))]"

definition ClusterEnvironmentStatus_DeepCopyInto :: copier where
  "ClusterEnvironmentStatus_DeepCopyInto = copy_into ClusterEnvironmentStatus_fields
     [(''Conditions'', make_slice Condition_DeepCopyInto)]"

definition ClusterEnvironmentStatus_DeepCopy :: copier where
  "ClusterEnvironmentStatus_DeepCopy = new_copy ClusterEnvironmentStatus_DeepCopyInto"

definition ClusterEnvironment_fields :: fields where
  "ClusterEnvironment_fields =
     [(''TypeMeta'', struct TypeMeta_fields), (''ObjectMeta'', struct ObjectMeta_fields),
      (''Spec'', struct ClusterEnvironmentSpec_fields),
      (''Status'', struct ClusterEnvironmentStatus_fields)]"

definition ClusterEnvironment_DeepCopyInto :: copier where
  "ClusterEnvironment_DeepCopyInto = copy_into ClusterEnvironment_fields
     [(''TypeMeta'', ret), (''ObjectMeta'', ObjectMeta_DeepCopyInto),
      (''Spec'', ClusterEnvironmentSpec_DeepCopyInto), (''Status'', ClusterEnvironmentStatus_DeepCopyInto)]"

definition ClusterEnvironment_DeepCopy :: copier where
  "ClusterEnvironment_DeepCopy = new_copy ClusterEnvironment_DeepCopyInto"

definition ClusterEnvironment_DeepCopyObject :: object_copier where
  "ClusterEnvironment_DeepCopyObject = as_object ClusterEnvironment_DeepCopy"

definition ClusterEnvironmentList_fields :: fields where
  "ClusterEnvironmentList_fields =
     [(''TypeMeta'', struct TypeMeta_fields), (''ListMeta'', struct ListMeta_fields),
      (''Items'', SSlice (struct ClusterEnvironment_fields))]"

definition ClusterEnvironmentList_DeepCopyInto :: copier where
  "ClusterEnvironmentList_DeepCopyInto = copy_into ClusterEnvironmentList_fields
     [(''TypeMeta'', ret), (''ListMeta'', ListMeta_DeepCopyInto),
      (''Items'', make_slice ClusterEnvironment_DeepCopyInto)]"

definition ClusterEnvironmentList_DeepCopy :: copier where
  "ClusterEnvironmentList_DeepCopy = new_copy ClusterEnvironmentList_DeepCopyInto"

definition ClusterEnvironmentList_DeepCopyObject :: object_copier where
  "ClusterEnvironmentList_DeepCopyObject = as_object ClusterEnvironmentList_DeepCopy"

definition RegisteredServiceConstraints_fields :: fields where
  "RegisteredServiceConstraints_fields =
     [(''Environments'', SSlice SPlain)]"

definition RegisteredServiceConstraints_DeepCopyInto :: copier where
  "RegisteredServiceConstraints_DeepCopyInto = copy_into RegisteredServiceConstraints_fields
     [(''Environments'', make_slice ret)]"

definition RegisteredServiceConstraints_DeepCopy :: copier where
  "RegisteredServiceConstraints_DeepCopy = new_copy RegisteredServiceConstraints_DeepCopyInto"

definition ServiceEndpointDefinitionSecretRef_fields :: fields where
  "ServiceEndpointDefinitionSecretRef_fields =
     [(''Name'', SPlain), (''Key'', SPlain)]"

definition ServiceEndpointDefinitionSecretRef_DeepCopyInto :: copier where
  "ServiceEndpointDefinitionSecretRef_DeepCopyInto = copy_into ServiceEndpointDefinitionSecretRef_fields []"

definition ServiceEndpointDefinitionSecretRef_DeepCopy :: copier where
  "ServiceEndpointDefinitionSecretRef_DeepCopy = new_copy ServiceEndpointDefinitionSecretRef_DeepCopyInto"

definition ServiceEndpointDefinitionItem_fields :: fields where
  "ServiceEndpointDefinitionItem_fields =
     [(''Name'', SPlain), (''Value'', SPlain),
      (''ValueFromSecret'', SPtr (struct ServiceEndpointDefinitionSecretRef_fields))]"

definition ServiceEndpointDefinitionItem_DeepCopyInto :: copier where
  "ServiceEndpointDefinitionItem_DeepCopyInto = copy_into ServiceEndpointDefinitionItem_fields
     [(''ValueFromSecret'', new_copy ret)]"

definition ServiceEndpointDefinitionItem_DeepCopy :: copier where
  "ServiceEndpointDefinitionItem_DeepCopy = new_copy ServiceEndpointDefinitionItem_DeepCopyInto"

definition HealthCheckContainer_fields :: fields where
  "HealthCheckContainer_fields =
     [(''Image'', SPlain), (''Command'', SSlice SPlain), (''Minutes'', SPlain)]"

definition HealthCheckContainer_DeepCopyInto :: copier where
  "HealthCheckContainer_DeepCopyInto = copy_into HealthCheckContainer_fields
     [(''Command'', make_slice ret)]"

definition HealthCheckContainer_DeepCopy :: copier where
  "HealthCheckContainer_DeepCopy = new_copy HealthCheckContainer_DeepCopyInto"

definition HealthCheck_fields :: fields where
  "HealthCheck_fields =
     [(''Container'', struct HealthCheckContainer_fields)]"

definition HealthCheck_DeepCopyInto :: copier where
  "HealthCheck_DeepCopyInto = copy_into HealthCheck_fields
     [(''Container'', HealthCheckContainer_DeepCopyInto)]"

definition HealthCheck_DeepCopy :: copier where
  "HealthCheck_DeepCopy = new_copy HealthCheck_DeepCopyInto"

definition ServiceClassIdentityItem_fields :: fields where
  "ServiceClassIdentityItem_fields =
     [(''Name'', SPlain), (''Value'', SPlain)]"

definition ServiceClassIdentityItem_DeepCopyInto :: copier where
  "ServiceClassIdentityItem_DeepCopyInto = copy_into ServiceClassIdentityItem_fields []"

definition ServiceClassIdentityItem_DeepCopy :: copier where
  "ServiceClassIdentityItem_DeepCopy = new_copy ServiceClassIdentityItem_DeepCopyInto"

definition RegisteredServiceSpec_fields :: fields where
  "RegisteredServiceSpec_fields =
     [(''Constraints'', SPtr (struct RegisteredServiceConstraints_fields)),
      (''HealthCheck'', SPtr (struct HealthCheck_fields)), (''SLA'', SPlain),
      (''ServiceClassIdentity'', SSlice (struct ServiceClassIdentityItem_fields)),
      (''ServiceEndpointDefinition'', SSlice (struct ServiceEndpointDefinitionItem_fields))]"

definition RegisteredServiceSpec_DeepCopyInto :: copier where
  "RegisteredServiceSpec_DeepCopyInto = copy_into RegisteredServiceSpec_fields
     [(''Constraints'', new_copy RegisteredServiceConstraints_DeepCopyInto),
      (''HealthCheck'', new_copy HealthCheck_DeepCopyInto), (''ServiceClassIdentity'', make_slice ret),
      (''ServiceEndpointDefinition'', make_slice ServiceEndpointDefinitionItem_DeepCopyInto)]"

definition RegisteredServiceSpec_DeepCopy :: copier where
  "RegisteredServiceSpec_DeepCopy = new_copy RegisteredServiceSpec_DeepCopyInto"

definition RegisteredServiceStatus_fields :: fields where
  "RegisteredServiceStatus_fields =
     [(''State'', SPlain)]"

definition RegisteredServiceStatus_DeepCopyInto :: copier where
  "RegisteredServiceStatus_DeepCopyInto = copy_into RegisteredServiceStatus_fields []"

definition RegisteredServiceStatus_DeepCopy :: copier where
  "RegisteredServiceStatus_DeepCopy = new_copy RegisteredServiceStatus_DeepCopyInto"

definition RegisteredService_fields :: fields where
  "RegisteredService_fields =
     [(''TypeMeta'', struct TypeMeta_fields), (''ObjectMeta'', struct ObjectMeta_fields),
      (''Spec'', struct RegisteredServiceSpec_fields), (''Status'', struct RegisteredServiceStatus_fields)]"

definition RegisteredService_DeepCopyInto :: copier where
  "RegisteredService_DeepCopyInto = copy_into RegisteredService_fields
     [(''TypeMeta'', ret), (''ObjectMeta'', ObjectMeta_DeepCopyInto),
      (''Spec'', RegisteredServiceSpec_DeepCopyInto), (''Status'', ret)]"

definition RegisteredService_DeepCopy :: copier where
  "RegisteredService_DeepCopy = new_copy RegisteredService_DeepCopyInto"

definition RegisteredService_DeepCopyObject :: object_copier where
  "RegisteredService_DeepCopyObject = as_object RegisteredService_DeepCopy"

definition RegisteredServiceList_fields :: fields where
  "RegisteredServiceList_fields =
     [(''TypeMeta'', struct TypeMeta_fields), (''ListMeta'', struct ListMeta_fields),
      (''Items'', SSlice (struct RegisteredService_fields))]"

definition RegisteredServiceList_DeepCopyInto :: copier where
  "RegisteredServiceList_DeepCopyInto = copy_into RegisteredServiceList_fields
     [(''TypeMeta'', ret), (''ListMeta'', ListMeta_DeepCopyInto),
      (''Items'', make_slice RegisteredService_DeepCopyInto)]"

definition RegisteredServiceList_DeepCopy :: copier where
  "RegisteredServiceList_DeepCopy = new_copy RegisteredServiceList_DeepCopyInto"

definition RegisteredServiceList_DeepCopyObject :: object_copier where
  "RegisteredServiceList_DeepCopyObject = as_object RegisteredServiceList_DeepCopy"

definition ApplicationSelector_fields :: fields where
  "ApplicationSelector_fields =
     [(''APIVersion'', SPlain), (''Kind'', SPlain), (''Name'', SPlain),
      (''Selector'', SPtr (struct LabelSelector_fields))]"

definition ApplicationSelector_DeepCopyInto :: copier where
  "ApplicationSelector_DeepCopyInto = copy_into ApplicationSelector_fields
     [(''Selector'', new_copy LabelSelector_DeepCopyInto)]"

definition ApplicationSelector_DeepCopy :: copier where
  "ApplicationSelector_DeepCopy = new_copy ApplicationSelector_DeepCopyInto"

definition Environment_fields :: fields where
  "Environment_fields =
     [(''Name'', SPlain), (''Key'', SPlain)]"

definition Environment_DeepCopyInto :: copier where
  "Environment_DeepCopyInto = copy_into Environment_fields []"

definition Environment_DeepCopy :: copier where
  "Environment_DeepCopy = new_copy Environment_DeepCopyInto"

definition ServiceBindingSpec_fields :: fields where
  "ServiceBindingSpec_fields =
     [(''ServiceEndpointDefinitionSecret'', SPlain), (''Application'', struct ApplicationSelector_fields),
      (''Envs'', SSlice (struct Environment_fields))]"

definition ServiceBindingSpec_DeepCopyInto :: copier where
  "ServiceBindingSpec_DeepCopyInto = copy_into ServiceBindingSpec_fields
     [(''Application'', ApplicationSelector_DeepCopyInto), (''Envs'', make_slice ret)]"

definition ServiceBindingSpec_DeepCopy :: copier where
  "ServiceBindingSpec_DeepCopy = new_copy ServiceBindingSpec_DeepCopyInto"

definition BoundWorkload_fields :: fields where
  "BoundWorkload_fields =
     [(''Name'', SPlain)]"

definition BoundWorkload_DeepCopyInto :: copier where
  "BoundWorkload_DeepCopyInto = copy_into BoundWorkload_fields []"

definition BoundWorkload_DeepCopy :: copier where
  "BoundWorkload_DeepCopy = new_copy BoundWorkload_DeepCopyInto"

definition ServiceBindingStatus_fields :: fields where
  "ServiceBindingStatus_fields =
     [(''Conditions'', SSlice (struct Condition_fields)), (''State'', SPlain),
      (''Connections'', SSlice (struct BoundWorkload_fields))]"

definition ServiceBindingStatus_DeepCopyInto :: copier where
  "ServiceBindingStatus_DeepCopyInto = copy_into ServiceBindingStatus_fields
     [(''Conditions'', make_slice Condition_DeepCopyInto), (''Connections'', make_slice ret)]"

definition ServiceBindingStatus_DeepCopy :: copier where
  "ServiceBindingStatus_DeepCopy = new_copy ServiceBindingStatus_DeepCopyInto"

definition ServiceBinding_fields :: fields where
  "ServiceBinding_fields =
     [(''TypeMeta'', struct TypeMeta_fields), (''ObjectMeta'', struct ObjectMeta_fields),
      (''Spec'', struct ServiceBindingSpec_fields), (''Status'', struct ServiceBindingStatus_fields)]"

definition ServiceBinding_DeepCopyInto :: copier where
  "ServiceBinding_DeepCopyInto = copy_into ServiceBinding_fields
     [(''TypeMeta'', ret), (''ObjectMeta'', ObjectMeta_DeepCopyInto),
      (''Spec'', ServiceBindingSpec_DeepCopyInto), (''Status'', ServiceBindingStatus_DeepCopyInto)]"

definition ServiceBinding_DeepCopy :: copier where
  "ServiceBinding_DeepCopy = new_copy ServiceBinding_DeepCopyInto"

definition ServiceBinding_DeepCopyObject :: object_copier where
  "ServiceBinding_DeepCopyObject = as_object ServiceBinding_DeepCopy"

definition ServiceBindingList_fields :: fields where
  "ServiceBindingList_fields =
     [(''TypeMeta'', struct TypeMeta_fields), (''ListMeta'', struct ListMeta_fields),
      (''Items'', SSlice (struct ServiceBinding_fields))]"

definition ServiceBindingList_DeepCopyInto :: copier where
  "ServiceBindingList_DeepCopyInto = copy_into ServiceBindingList_fields
     [(''TypeMeta'', ret), (''ListMeta'', ListMeta_DeepCopyInto),
      (''Items'', make_slice ServiceBinding_DeepCopyInto)]"

definition ServiceBindingList_DeepCopy :: copier where
  "ServiceBindingList_DeepCopy = new_copy ServiceBindingList_DeepCopyInto"

definition ServiceBindingList_DeepCopyObject :: object_copier where
  "ServiceBindingList_DeepCopyObject = as_object ServiceBindingList_DeepCopy"

definition ServiceCatalogService_fields :: fields where
  "ServiceCatalogService_fields =
     [(''Name'', SPlain), (''ServiceClassIdentity'', SSlice (struct ServiceClassIdentityItem_fields)),
      (''ServiceEndpointDefinitionKeys'', SSlice SPlain)]"

definition ServiceCatalogService_DeepCopyInto :: copier where
  "ServiceCatalogService_DeepCopyInto = copy_into ServiceCatalogService_fields
     [(''ServiceClassIdentity'', make_slice ret), (''ServiceEndpointDefinitionKeys'', make_slice ret)]"

definition ServiceCatalogService_DeepCopy :: copier where
  "ServiceCatalogService_DeepCopy = new_copy ServiceCatalogService_DeepCopyInto"

definition ServiceCatalogServiceByLabel_fields :: fields where
  "ServiceCatalogServiceByLabel_fields =
     [(''ServiceCatalogService'', struct ServiceCatalogService_fields),
      (''Labels'', SPtr (struct LabelSelector_fields))]"

definition ServiceCatalogServiceByLabel_DeepCopyInto :: copier where
  "ServiceCatalogServiceByLabel_DeepCopyInto = copy_into ServiceCatalogServiceByLabel_fields
     [(''ServiceCatalogService'', ServiceCatalogService_DeepCopyInto),
      (''Labels'', new_copy LabelSelector_DeepCopyInto)]"

definition ServiceCatalogServiceByLabel_DeepCopy :: copier where
  "ServiceCatalogServiceByLabel_DeepCopy = new_copy ServiceCatalogServiceByLabel_DeepCopyInto"

definition ServiceCatalogSpec_fields :: fields where
  "ServiceCatalogSpec_fields =
     [(''Services'', SSlice (struct ServiceCatalogService_fields)),
      (''ClaimedByLabels'', SSlice (struct ServiceCatalogServiceByLabel_fields))]"

definition ServiceCatalogSpec_DeepCopyInto :: copier where
  "ServiceCatalogSpec_DeepCopyInto = copy_into ServiceCatalogSpec_fields
     [(''Services'', make_slice ServiceCatalogService_DeepCopyInto),
      (''ClaimedByLabels'', make_slice ServiceCatalogServiceByLabel_DeepCopyInto)]"

definition ServiceCatalogSpec_DeepCopy :: copier where
  "ServiceCatalogSpec_DeepCopy = new_copy ServiceCatalogSpec_DeepCopyInto"

definition ServiceCatalog_fields :: fields where
  "ServiceCatalog_fields =
     [(''TypeMeta'', struct TypeMeta_fields), (''ObjectMeta'', struct ObjectMeta_fields),
      (''Spec'', struct ServiceCatalogSpec_fields)]"

definition ServiceCatalog_DeepCopyInto :: copier where
  "ServiceCatalog_DeepCopyInto = copy_into ServiceCatalog_fields
     [(''TypeMeta'', ret), (''ObjectMeta'', ObjectMeta_DeepCopyInto),
      (''Spec'', ServiceCatalogSpec_DeepCopyInto)]"

definition ServiceCatalog_DeepCopy :: copier where
  "ServiceCatalog_DeepCopy = new_copy ServiceCatalog_DeepCopyInto"

definition ServiceCatalog_DeepCopyObject :: object_copier where
  "ServiceCatalog_DeepCopyObject = as_object ServiceCatalog_DeepCopy"

definition ServiceCatalogList_fields :: fields where
  "ServiceCatalogList_fields =
     [(''TypeMeta'', struct TypeMeta_fields), (''ListMeta'', struct ListMeta_fields),
      (''Items'', SSlice (struct ServiceCatalog_fields))]"

definition ServiceCatalogList_DeepCopyInto :: copier where
  "ServiceCatalogList_DeepCopyInto = copy_into ServiceCatalogList_fields
     [(''TypeMeta'', ret), (''ListMeta'', ListMeta_DeepCopyInto),
      (''Items'', make_slice ServiceCatalog_DeepCopyInto)]"

definition ServiceCatalogList_DeepCopy :: copier where
  "ServiceCatalogList_DeepCopy = new_copy ServiceCatalogList_DeepCopyInto"

definition ServiceCatalogList_DeepCopyObject :: object_copier where
  "ServiceCatalogList_DeepCopyObject = as_object ServiceCatalogList_DeepCopy"

definition ServiceClaimApplicationClusterContext_fields :: fields where
  "ServiceClaimApplicationClusterContext_fields =
     [(''ClusterEnvironmentName'', SPlain), (''Namespace'', SPlain)]"

definition ServiceClaimApplicationClusterContext_DeepCopyInto :: copier where
  "ServiceClaimApplicationClusterContext_DeepCopyInto = copy_into ServiceClaimApplicationClusterContext_fields []"

definition ServiceClaimApplicationClusterContext_DeepCopy :: copier where
  "ServiceClaimApplicationClusterContext_DeepCopy = new_copy ServiceClaimApplicationClusterContext_DeepCopyInto"

definition ServiceClaimTarget_fields :: fields where
  "ServiceClaimTarget_fields =
     [(''EnvironmentTag'', SPlain),
      (''ApplicationClusterContext'', SPtr (struct ServiceClaimApplicationClusterContext_fields))]"

definition ServiceClaimTarget_DeepCopyInto :: copier where
  "ServiceClaimTarget_DeepCopyInto = copy_into ServiceClaimTarget_fields
     [(''ApplicationClusterContext'', new_copy ret)]"

definition ServiceClaimTarget_DeepCopy :: copier where
  "ServiceClaimTarget_DeepCopy = new_copy ServiceClaimTarget_DeepCopyInto"

definition ServiceClaimSpec_fields :: fields where
  "ServiceClaimSpec_fields =
     [(''ServiceClassIdentity'', SSlice (struct ServiceClassIdentityItem_fields)),
      (''ServiceEndpointDefinitionKeys'', SSlice SPlain),
      (''Application'', struct ApplicationSelector_fields),
      (''Target'', SPtr (struct ServiceClaimTarget_fields)), (''Envs'', SSlice (struct Environment_fields))]"

definition ServiceClaimSpec_DeepCopyInto :: copier where
  "ServiceClaimSpec_DeepCopyInto = copy_into ServiceClaimSpec_fields
     [(''ServiceClassIdentity'', make_slice ret), (''ServiceEndpointDefinitionKeys'', make_slice ret),
      (''Application'', ApplicationSelector_DeepCopyInto),
      (''Target'', new_copy ServiceClaimTarget_DeepCopyInto), (''Envs'', make_slice ret)]"

definition ServiceClaimSpec_DeepCopy :: copier where
  "ServiceClaimSpec_DeepCopy = new_copy ServiceClaimSpec_DeepCopyInto"

definition ServiceClaimStatus_fields :: fields where
  "ServiceClaimStatus_fields =
     [(''State'', SPlain), (''ClaimID'', SPlain),
      (''RegisteredService'', SPtr (struct ObjectReference_fields)),
      (''Conditions'', SSlice (struct Condition_fields))]"

definition ServiceClaimStatus_DeepCopyInto :: copier where
  "ServiceClaimStatus_DeepCopyInto = copy_into ServiceClaimStatus_fields
     [(''RegisteredService'', new_copy ret), (''Conditions'', make_slice Condition_DeepCopyInto)]"

definition ServiceClaimStatus_DeepCopy :: copier where
  "ServiceClaimStatus_DeepCopy = new_copy ServiceClaimStatus_DeepCopyInto"

definition ServiceClaim_fields :: fields where
  "ServiceClaim_fields =
     [(''TypeMeta'', struct TypeMeta_fields), (''ObjectMeta'', struct ObjectMeta_fields),
      (''Spec'', struct ServiceClaimSpec_fields), (''Status'', struct ServiceClaimStatus_fields)]"

definition ServiceClaim_DeepCopyInto :: copier where
  "ServiceClaim_DeepCopyInto = copy_into ServiceClaim_fields
     [(''TypeMeta'', ret), (''ObjectMeta'', ObjectMeta_DeepCopyInto),
      (''Spec'', ServiceClaimSpec_DeepCopyInto), (''Status'', ServiceClaimStatus_DeepCopyInto)]"

definition ServiceClaim_DeepCopy :: copier where
  "ServiceClaim_DeepCopy = new_copy ServiceClaim_DeepCopyInto"

definition ServiceClaim_DeepCopyObject :: object_copier where
  "ServiceClaim_DeepCopyObject = as_object ServiceClaim_DeepCopy"

definition ServiceClaimList_fields :: fields where
  "ServiceClaimList_fields =
     [(''TypeMeta'', struct TypeMeta_fields), (''ListMeta'', struct ListMeta_fields),
      (''Items'', SSlice (struct ServiceClaim_fields))]"

definition ServiceClaimList_DeepCopyInto :: copier where
  "ServiceClaimList_DeepCopyInto = copy_into ServiceClaimList_fields
     [(''TypeMeta'', ret), (''ListMeta'', ListMeta_DeepCopyInto),
      (''Items'', make_slice ServiceClaim_DeepCopyInto)]"

definition ServiceClaimList_DeepCopy :: copier where
  "ServiceClaimList_DeepCopy = new_copy ServiceClaimList_DeepCopyInto"

definition ServiceClaimList_DeepCopyObject :: object_copier where
  "ServiceClaimList_DeepCopyObject = as_object ServiceClaimList_DeepCopy"

definition ServiceClassResourceFieldMapping_fields :: fields where
  "ServiceClassResourceFieldMapping_fields =
     [(''Name'', SPlain), (''JsonPath'', SPlain), (''Secret'', SPlain)]"

definition ServiceClassResourceFieldMapping_DeepCopyInto :: copier where
  "ServiceClassResourceFieldMapping_DeepCopyInto = copy_into ServiceClassResourceFieldMapping_fields []"

definition ServiceClassResourceFieldMapping_DeepCopy :: copier where
  "ServiceClassResourceFieldMapping_DeepCopy = new_copy ServiceClassResourceFieldMapping_DeepCopyInto"

definition FieldMapping_fields :: fields where
  "FieldMapping_fields =
     [(''Constant'', SPtr SPlain), (''JsonPathExpr'', SPtr SPlain)]"

definition FieldMapping_DeepCopyInto :: copier where
  "FieldMapping_DeepCopyInto = copy_into FieldMapping_fields
     [(''Constant'', new_copy ret), (''JsonPathExpr'', new_copy ret)]"

definition FieldMapping_DeepCopy :: copier where
  "FieldMapping_DeepCopy = new_copy FieldMapping_DeepCopyInto"

definition ServiceClassSecretRefFieldMapping_fields :: fields where
  "ServiceClassSecretRefFieldMapping_fields =
     [(''Name'', SPlain), (''SecretName'', struct FieldMapping_fields),
      (''SecretKey'', struct FieldMapping_fields)]"

definition ServiceClassSecretRefFieldMapping_DeepCopyInto :: copier where
  "ServiceClassSecretRefFieldMapping_DeepCopyInto = copy_into ServiceClassSecretRefFieldMapping_fields
     [(''SecretName'', FieldMapping_DeepCopyInto), (''SecretKey'', FieldMapping_DeepCopyInto)]"

definition ServiceClassSecretRefFieldMapping_DeepCopy :: copier where
  "ServiceClassSecretRefFieldMapping_DeepCopy = new_copy ServiceClassSecretRefFieldMapping_DeepCopyInto"

definition ServiceEndpointDefinitionMappings_fields :: fields where
  "ServiceEndpointDefinitionMappings_fields =
     [(''ResourceFields'', SSlice (struct ServiceClassResourceFieldMapping_fields)),
      (''SecretRefFields'', SSlice (struct ServiceClassSecretRefFieldMapping_fields))]"

definition ServiceEndpointDefinitionMappings_DeepCopyInto :: copier where
  "ServiceEndpointDefinitionMappings_DeepCopyInto = copy_into ServiceEndpointDefinitionMappings_fields
     [(''ResourceFields'', make_slice ret),
      (''SecretRefFields'', make_slice ServiceClassSecretRefFieldMapping_DeepCopyInto)]"

definition ServiceEndpointDefinitionMappings_DeepCopy :: copier where
  "ServiceEndpointDefinitionMappings_DeepCopy = new_copy ServiceEndpointDefinitionMappings_DeepCopyInto"

definition ServiceClassResource_fields :: fields where
  "ServiceClassResource_fields =
     [(''APIVersion'', SPlain), (''Kind'', SPlain),
      (''ServiceEndpointDefinitionMappings'', struct ServiceEndpointDefinitionMappings_fields)]"

definition ServiceClassResource_DeepCopyInto :: copier where
  "ServiceClassResource_DeepCopyInto = copy_into ServiceClassResource_fields
     [(''ServiceEndpointDefinitionMappings'', ServiceEndpointDefinitionMappings_DeepCopyInto)]"

definition ServiceClassResource_DeepCopy :: copier where
  "ServiceClassResource_DeepCopy = new_copy ServiceClassResource_DeepCopyInto"

definition EnvironmentConstraints_fields :: fields where
  "EnvironmentConstraints_fields =
     [(''Environments'', SSlice SPlain)]"

definition EnvironmentConstraints_DeepCopyInto :: copier where
  "EnvironmentConstraints_DeepCopyInto = copy_into EnvironmentConstraints_fields
     [(''Environments'', make_slice ret)]"

definition EnvironmentConstraints_DeepCopy :: copier where
  "EnvironmentConstraints_DeepCopy = new_copy EnvironmentConstraints_DeepCopyInto"

definition ServiceClassSpec_fields :: fields where
  "ServiceClassSpec_fields =
     [(''Constraints'', SPtr (struct EnvironmentConstraints_fields)),
      (''HealthCheck'', SPtr (struct HealthCheck_fields)),
      (''Resource'', struct ServiceClassResource_fields),
      (''ServiceClassIdentity'', SSlice (struct ServiceClassIdentityItem_fields))]"

definition ServiceClassSpec_DeepCopyInto :: copier where
  "ServiceClassSpec_DeepCopyInto = copy_into ServiceClassSpec_fields
     [(''Constraints'', new_copy EnvironmentConstraints_DeepCopyInto),
      (''HealthCheck'', new_copy HealthCheck_DeepCopyInto),
      (''Resource'', ServiceClassResource_DeepCopyInto), (''ServiceClassIdentity'', make_slice ret)]"

definition ServiceClassSpec_DeepCopy :: copier where
  "ServiceClassSpec_DeepCopy = new_copy ServiceClassSpec_DeepCopyInto"

definition ServiceClassStatus_fields :: fields where
  "ServiceClassStatus_fields =
     [(''Conditions'', SSlice (struct Condition_fields))]"

definition ServiceClassStatus_DeepCopyInto :: copier where
  "ServiceClassStatus_DeepCopyInto = copy_into ServiceClassStatus_fields
     [(''Conditions'', make_slice Condition_DeepCopyInto)]"

definition ServiceClassStatus_DeepCopy :: copier where
  "ServiceClassStatus_DeepCopy = new_copy ServiceClassStatus_DeepCopyInto"

definition ServiceClass_fields :: fields where
  "ServiceClass_fields =
     [(''TypeMeta'', struct TypeMeta_fields), (''ObjectMeta'', struct ObjectMeta_fields),
      (''Spec'', struct ServiceClassSpec_fields), (''Status'', struct ServiceClassStatus_fields)]"

definition ServiceClass_DeepCopyInto :: copier where
  "ServiceClass_DeepCopyInto = copy_into ServiceClass_fields
     [(''TypeMeta'', ret), (''ObjectMeta'', ObjectMeta_DeepCopyInto),
      (''Spec'', ServiceClassSpec_DeepCopyInto), (''Status'', ServiceClassStatus_DeepCopyInto)]"

definition ServiceClass_DeepCopy :: copier where
  "ServiceClass_DeepCopy = new_copy ServiceClass_DeepCopyInto"

definition ServiceClass_DeepCopyObject :: object_copier where
  "ServiceClass_DeepCopyObject = as_object ServiceClass_DeepCopy"

definition ServiceClassList_fields :: fields where
  "ServiceClassList_fields =
     [(''TypeMeta'', struct TypeMeta_fields), (''ListMeta'', struct ListMeta_fields),
      (''Items'', SSlice (struct ServiceClass_fields))]"

definition ServiceClassList_DeepCopyInto :: copier where
  "ServiceClassList_DeepCopyInto = copy_into ServiceClassList_fields
     [(''TypeMeta'', ret), (''ListMeta'', ListMeta_DeepCopyInto),
      (''Items'', make_slice ServiceClass_DeepCopyInto)]"

definition ServiceClassList_DeepCopy :: copier where
  "ServiceClassList_DeepCopy = new_copy ServiceClassList_DeepCopyInto"

definition ServiceClassList_DeepCopyObject :: object_copier where
  "ServiceClassList_DeepCopyObject = as_object ServiceClassList_DeepCopy"

text \<open>The types that are API objects, with the copy function that the machinery of Kubernetes calls.\<close>

definition api_objects :: "(string \<times> fields \<times> object_copier) list" where
  "api_objects = [
     (''ClusterEnvironment'', ClusterEnvironment_fields, ClusterEnvironment_DeepCopyObject),
     (''ClusterEnvironmentList'', ClusterEnvironmentList_fields, ClusterEnvironmentList_DeepCopyObject),
     (''RegisteredService'', RegisteredService_fields, RegisteredService_DeepCopyObject),
     (''RegisteredServiceList'', RegisteredServiceList_fields, RegisteredServiceList_DeepCopyObject),
     (''ServiceBinding'', ServiceBinding_fields, ServiceBinding_DeepCopyObject),
     (''ServiceBindingList'', ServiceBindingList_fields, ServiceBindingList_DeepCopyObject),
     (''ServiceCatalog'', ServiceCatalog_fields, ServiceCatalog_DeepCopyObject),
     (''ServiceCatalogList'', ServiceCatalogList_fields, ServiceCatalogList_DeepCopyObject),
     (''ServiceClaim'', ServiceClaim_fields, ServiceClaim_DeepCopyObject),
     (''ServiceClaimList'', ServiceClaimList_fields, ServiceClaimList_DeepCopyObject),
     (''ServiceClass'', ServiceClass_fields, ServiceClass_DeepCopyObject),
     (''ServiceClassList'', ServiceClassList_fields, ServiceClassList_DeepCopyObject)]"

subsection \<open>The copies are separate\<close>

lemma copies_statement [copy_rules]:
  "copies SPlain ret" "copies (SPtr SPlain) (new_copy ret)" "copies (SSlice SPlain) (make_slice ret)"
  "copies (SMap SPlain) (make_map ret)"
  "copies s c \<Longrightarrow> copies (SPtr s) (new_copy c)" "copies s c \<Longrightarrow> copies (SSlice s) (make_slice c)"
  "flat s \<Longrightarrow> copies (SPtr s) (new_copy ret)" "flat s \<Longrightarrow> copies (SSlice s) (make_slice ret)"
  "flat s \<Longrightarrow> copies s ret"
  by (simp_all add: copies_ret copies_new_copy copies_make_slice copies_make_map)

lemma flat_struct: "flat (struct fs) = list_all (\<lambda>f. flat (snd f)) fs"
  by (simp add: struct_def list.pred_map comp_def)

text \<open>Types without references, whose values are copied with the struct that holds them.\<close>

lemma flat_types [copy_rules]:
  "flat (struct TypeMeta_fields)"
  "flat (struct Condition_fields)"
  "flat (struct ObjectReference_fields)"
  "flat (struct ServiceEndpointDefinitionSecretRef_fields)"
  "flat (struct ServiceClassIdentityItem_fields)"
  "flat (struct RegisteredServiceStatus_fields)"
  "flat (struct Environment_fields)"
  "flat (struct BoundWorkload_fields)"
  "flat (struct ServiceClaimApplicationClusterContext_fields)"
  "flat (struct ServiceClassResourceFieldMapping_fields)"
  by (simp_all add: flat_struct TypeMeta_fields_def Condition_fields_def ObjectReference_fields_def
    ServiceEndpointDefinitionSecretRef_fields_def ServiceClassIdentityItem_fields_def
    RegisteredServiceStatus_fields_def Environment_fields_def BoundWorkload_fields_def
    ServiceClaimApplicationClusterContext_fields_def ServiceClassResourceFieldMapping_fields_def)

lemma copies_types_0 [copy_rules]:
  "copies (struct ListMeta_fields) ListMeta_DeepCopyInto"
  "copies (struct OwnerReference_fields) OwnerReference_DeepCopyInto"
  "copies (struct FieldsV1_fields) FieldsV1_DeepCopyInto"
  "copies (struct Condition_fields) Condition_DeepCopyInto"
  "copies (struct LabelSelectorRequirement_fields) LabelSelectorRequirement_DeepCopyInto"
  "copies (struct ObjectReference_fields) ObjectReference_DeepCopyInto"
  "copies (struct ClusterEnvironmentSpec_fields) ClusterEnvironmentSpec_DeepCopyInto"
  "copies (struct RegisteredServiceConstraints_fields) RegisteredServiceConstraints_DeepCopyInto"
  "copies (struct ServiceEndpointDefinitionSecretRef_fields) ServiceEndpointDefinitionSecretRef_DeepCopyInto"
  "copies (struct HealthCheckContainer_fields) HealthCheckContainer_DeepCopyInto"
  "copies (struct ServiceClassIdentityItem_fields) ServiceClassIdentityItem_DeepCopyInto"
  "copies (struct RegisteredServiceStatus_fields) RegisteredServiceStatus_DeepCopyInto"
  "copies (struct Environment_fields) Environment_DeepCopyInto"
  "copies (struct BoundWorkload_fields) BoundWorkload_DeepCopyInto"
  "copies (struct ServiceClaimApplicationClusterContext_fields) ServiceClaimApplicationClusterContext_DeepCopyInto"
  "copies (struct ServiceClassResourceFieldMapping_fields) ServiceClassResourceFieldMapping_DeepCopyInto"
  "copies (struct FieldMapping_fields) FieldMapping_DeepCopyInto"
  "copies (struct EnvironmentConstraints_fields) EnvironmentConstraints_DeepCopyInto"
  by (simp_all add: copy_rules copies_into statement_of_def Time_DeepCopyInto_def Time_DeepCopy_def
    ListMeta_fields_def ListMeta_DeepCopyInto_def OwnerReference_fields_def OwnerReference_DeepCopyInto_def
    FieldsV1_fields_def FieldsV1_DeepCopyInto_def Condition_fields_def Condition_DeepCopyInto_def
    LabelSelectorRequirement_fields_def LabelSelectorRequirement_DeepCopyInto_def ObjectReference_fields_def
    ObjectReference_DeepCopyInto_def ClusterEnvironmentSpec_fields_def ClusterEnvironmentSpec_DeepCopyInto_def
    RegisteredServiceConstraints_fields_def RegisteredServiceConstraints_DeepCopyInto_def
    ServiceEndpointDefinitionSecretRef_fields_def ServiceEndpointDefinitionSecretRef_DeepCopyInto_def
    HealthCheckContainer_fields_def HealthCheckContainer_DeepCopyInto_def ServiceClassIdentityItem_fields_def
    ServiceClassIdentityItem_DeepCopyInto_def RegisteredServiceStatus_fields_def
    RegisteredServiceStatus_DeepCopyInto_def Environment_fields_def Environment_DeepCopyInto_def
    BoundWorkload_fields_def BoundWorkload_DeepCopyInto_def ServiceClaimApplicationClusterContext_fields_def
    ServiceClaimApplicationClusterContext_DeepCopyInto_def ServiceClassResourceFieldMapping_fields_def
    ServiceClassResourceFieldMapping_DeepCopyInto_def FieldMapping_fields_def FieldMapping_DeepCopyInto_def
    EnvironmentConstraints_fields_def EnvironmentConstraints_DeepCopyInto_def)

lemma copies_types_1 [copy_rules]:
  "copies (struct ManagedFieldsEntry_fields) ManagedFieldsEntry_DeepCopyInto"
  "copies (struct LabelSelector_fields) LabelSelector_DeepCopyInto"
  "copies (struct ClusterEnvironmentStatus_fields) ClusterEnvironmentStatus_DeepCopyInto"
  "copies (struct ServiceEndpointDefinitionItem_fields) ServiceEndpointDefinitionItem_DeepCopyInto"
  "copies (struct HealthCheck_fields) HealthCheck_DeepCopyInto"
  "copies (struct ServiceBindingStatus_fields) ServiceBindingStatus_DeepCopyInto"
  "copies (struct ServiceCatalogService_fields) ServiceCatalogService_DeepCopyInto"
  "copies (struct ServiceClaimTarget_fields) ServiceClaimTarget_DeepCopyInto"
  "copies (struct ServiceClaimStatus_fields) ServiceClaimStatus_DeepCopyInto"
  "copies (struct ServiceClassSecretRefFieldMapping_fields) ServiceClassSecretRefFieldMapping_DeepCopyInto"
  "copies (struct ServiceClassStatus_fields) ServiceClassStatus_DeepCopyInto"
  by (simp_all add: copy_rules copies_into statement_of_def Time_DeepCopyInto_def Time_DeepCopy_def
    ManagedFieldsEntry_fields_def ManagedFieldsEntry_DeepCopyInto_def LabelSelector_fields_def
    LabelSelector_DeepCopyInto_def ClusterEnvironmentStatus_fields_def ClusterEnvironmentStatus_DeepCopyInto_def
    ServiceEndpointDefinitionItem_fields_def ServiceEndpointDefinitionItem_DeepCopyInto_def
    HealthCheck_fields_def HealthCheck_DeepCopyInto_def ServiceBindingStatus_fields_def
    ServiceBindingStatus_DeepCopyInto_def ServiceCatalogService_fields_def
    ServiceCatalogService_DeepCopyInto_def ServiceClaimTarget_fields_def ServiceClaimTarget_DeepCopyInto_def
    ServiceClaimStatus_fields_def ServiceClaimStatus_DeepCopyInto_def
    ServiceClassSecretRefFieldMapping_fields_def ServiceClassSecretRefFieldMapping_DeepCopyInto_def
    ServiceClassStatus_fields_def ServiceClassStatus_DeepCopyInto_def)

lemma copies_types_2 [copy_rules]:
  "copies (struct ObjectMeta_fields) ObjectMeta_DeepCopyInto"
  "copies (struct RegisteredServiceSpec_fields) RegisteredServiceSpec_DeepCopyInto"
  "copies (struct ApplicationSelector_fields) ApplicationSelector_DeepCopyInto"
  "copies (struct ServiceCatalogServiceByLabel_fields) ServiceCatalogServiceByLabel_DeepCopyInto"
  "copies (struct ServiceEndpointDefinitionMappings_fields) ServiceEndpointDefinitionMappings_DeepCopyInto"
  by (simp_all add: copy_rules copies_into statement_of_def Time_DeepCopyInto_def Time_DeepCopy_def
    ObjectMeta_fields_def ObjectMeta_DeepCopyInto_def RegisteredServiceSpec_fields_def
    RegisteredServiceSpec_DeepCopyInto_def ApplicationSelector_fields_def ApplicationSelector_DeepCopyInto_def
    ServiceCatalogServiceByLabel_fields_def ServiceCatalogServiceByLabel_DeepCopyInto_def
    ServiceEndpointDefinitionMappings_fields_def ServiceEndpointDefinitionMappings_DeepCopyInto_def)

lemma copies_types_3 [copy_rules]:
  "copies (struct ClusterEnvironment_fields) ClusterEnvironment_DeepCopyInto"
  "copies (struct RegisteredService_fields) RegisteredService_DeepCopyInto"
  "copies (struct ServiceBindingSpec_fields) ServiceBindingSpec_DeepCopyInto"
  "copies (struct ServiceCatalogSpec_fields) ServiceCatalogSpec_DeepCopyInto"
  "copies (struct ServiceClaimSpec_fields) ServiceClaimSpec_DeepCopyInto"
  "copies (struct ServiceClassResource_fields) ServiceClassResource_DeepCopyInto"
  by (simp_all add: copy_rules copies_into statement_of_def Time_DeepCopyInto_def Time_DeepCopy_def
    ClusterEnvironment_fields_def ClusterEnvironment_DeepCopyInto_def RegisteredService_fields_def
    RegisteredService_DeepCopyInto_def ServiceBindingSpec_fields_def ServiceBindingSpec_DeepCopyInto_def
    ServiceCatalogSpec_fields_def ServiceCatalogSpec_DeepCopyInto_def ServiceClaimSpec_fields_def
    ServiceClaimSpec_DeepCopyInto_def ServiceClassResource_fields_def ServiceClassResource_DeepCopyInto_def)

lemma copies_types_4 [copy_rules]:
  "copies (struct ClusterEnvironmentList_fields) ClusterEnvironmentList_DeepCopyInto"
  "copies (struct RegisteredServiceList_fields) RegisteredServiceList_DeepCopyInto"
  "copies (struct ServiceBinding_fields) ServiceBinding_DeepCopyInto"
  "copies (struct ServiceCatalog_fields) ServiceCatalog_DeepCopyInto"
  "copies (struct ServiceClaim_fields) ServiceClaim_DeepCopyInto"
  "copies (struct ServiceClassSpec_fields) ServiceClassSpec_DeepCopyInto"
  by (simp_all add: copy_rules copies_into statement_of_def Time_DeepCopyInto_def Time_DeepCopy_def
    ClusterEnvironmentList_fields_def ClusterEnvironmentList_DeepCopyInto_def RegisteredServiceList_fields_def
    RegisteredServiceList_DeepCopyInto_def ServiceBinding_fields_def ServiceBinding_DeepCopyInto_def
    ServiceCatalog_fields_def ServiceCatalog_DeepCopyInto_def ServiceClaim_fields_def
    ServiceClaim_DeepCopyInto_def ServiceClassSpec_fields_def ServiceClassSpec_DeepCopyInto_def)

lemma copies_types_5 [copy_rules]:
  "copies (struct ServiceBindingList_fields) ServiceBindingList_DeepCopyInto"
  "copies (struct ServiceCatalogList_fields) ServiceCatalogList_DeepCopyInto"
  "copies (struct ServiceClaimList_fields) ServiceClaimList_DeepCopyInto"
  "copies (struct ServiceClass_fields) ServiceClass_DeepCopyInto"
  by (simp_all add: copy_rules copies_into statement_of_def Time_DeepCopyInto_def Time_DeepCopy_def
    ServiceBindingList_fields_def ServiceBindingList_DeepCopyInto_def ServiceCatalogList_fields_def
    ServiceCatalogList_DeepCopyInto_def ServiceClaimList_fields_def ServiceClaimList_DeepCopyInto_def
    ServiceClass_fields_def ServiceClass_DeepCopyInto_def)

lemma copies_types_6 [copy_rules]:
  "copies (struct ServiceClassList_fields) ServiceClassList_DeepCopyInto"
  by (simp_all add: copy_rules copies_into statement_of_def Time_DeepCopyInto_def Time_DeepCopy_def
    ServiceClassList_fields_def ServiceClassList_DeepCopyInto_def)

definition copies_object :: "fields \<Rightarrow> object_copier \<Rightarrow> bool" where
  "copies_object fs c = (\<exists>d. c = as_object d \<and> copies (SPtr (struct fs)) d)"

lemma copies_object_as_object: "copies (SPtr (struct fs)) d \<Longrightarrow> copies_object fs (as_object d)"
  by (auto simp: copies_object_def)

lemma api_object_copies: "list_all (\<lambda>(k, fs, c). copies_object fs c) api_objects"
  by (simp add: api_objects_def copies_object_as_object copy_rules
    ClusterEnvironment_DeepCopyObject_def ClusterEnvironment_DeepCopy_def
    ClusterEnvironmentList_DeepCopyObject_def ClusterEnvironmentList_DeepCopy_def
    RegisteredService_DeepCopyObject_def RegisteredService_DeepCopy_def
    RegisteredServiceList_DeepCopyObject_def RegisteredServiceList_DeepCopy_def
    ServiceBinding_DeepCopyObject_def ServiceBinding_DeepCopy_def
    ServiceBindingList_DeepCopyObject_def ServiceBindingList_DeepCopy_def
    ServiceCatalog_DeepCopyObject_def ServiceCatalog_DeepCopy_def
    ServiceCatalogList_DeepCopyObject_def ServiceCatalogList_DeepCopy_def
    ServiceClaim_DeepCopyObject_def ServiceClaim_DeepCopy_def
    ServiceClaimList_DeepCopyObject_def ServiceClaimList_DeepCopy_def
    ServiceClass_DeepCopyObject_def ServiceClass_DeepCopy_def
    ServiceClassList_DeepCopyObject_def ServiceClassList_DeepCopy_def
    ServiceCatalog_DeepCopyObject_def ServiceCatalog_DeepCopy_def)

text \<open>What belongs to a copy is apart from the original, so that no write through the copy changes it.\<close>

lemma copied_apart:
  assumes "wf_memory m" and "view s m v = Some t" and "copied s m t (v', m')"
  shows "view s m' v = Some t" and "set (footprint s m' v') \<inter> set (footprint s m' v) = {}"
    and "(\<forall>a. a \<notin> set (footprint s m' v') \<longrightarrow> cells n a = cells m' a) \<Longrightarrow> view s n v = Some t"
proof -
  from assms(3) have ext: "extends m m'" and new: "\<forall>a\<in>set (footprint s m' v'). free m \<le> a" by (simp_all add: copied_def)
  note same = view_extends [OF assms(1,2) ext]
  then show "view s m' v = Some t" by simp
  have old: "a < free m" if "a \<in> set (footprint s m' v)" for a
    using that footprint_allocated [OF assms(2), of a] assms(1) same(2) by (auto simp: wf_memory_def)
  then show "set (footprint s m' v') \<inter> set (footprint s m' v) = {}" using new by fastforce
  assume "\<forall>a. a \<notin> set (footprint s m' v') \<longrightarrow> cells n a = cells m' a"
  then have "cells n a = cells m' a" if "a \<in> set (footprint s m' v)" for a
    using old [OF that] new by (meson not_le)
  from same_view_agree [OF this] same(1) show "view s n v = Some t" by (simp add: same_view_def)
qed

text \<open>C10: the deep copy of an API object (or of a list of them) reads as the object does and shares no address
  with it, for each of the twelve types: whatever is written to the memory of the copy afterwards, the
  object still reads the same. In particular every reference field of the types has its statement in
  the generated functions.\<close>

theorem deep_copies_are_separate:
  assumes "(kind, fs, copy) \<in> set api_objects"
    and "wf_memory m" and "view (SPtr (struct fs)) m p = Some t" and "p \<noteq> Pointer None"
    and "run_state (copy p) m = (r, m')"
  shows "\<exists>q. r = Some q \<and> view (SPtr (struct fs)) m' q = Some t \<and> view (SPtr (struct fs)) m' p = Some t \<and>
    set (footprint (SPtr (struct fs)) m' q) \<inter> set (footprint (SPtr (struct fs)) m' p) = {} \<and>
    (\<forall>m''. (\<forall>a. a \<notin> set (footprint (SPtr (struct fs)) m' q) \<longrightarrow> cells m'' a = cells m' a) \<longrightarrow>
       view (SPtr (struct fs)) m'' p = Some t)"
proof -
  from api_object_copies assms(1) obtain d where d: "copy = as_object d" "copies (SPtr (struct fs)) d"
    by (auto simp: list_all_iff copies_object_def)
  obtain q m1 where q: "run_state (d p) m = (q, m1)" by (metis prod.collapse)
  from d(2) assms(2,3) q have c: "copied (SPtr (struct fs)) m t (q, m1)" by (metis copies_def)
  then have view: "view (SPtr (struct fs)) m1 q = Some t" by (simp add: copied_def)
  have "q \<noteq> Pointer None"
  proof
    assume "q = Pointer None"
    with view have "t = TNil" by simp
    with assms(3,4) show False by (auto split: gval.splits option.splits simp: bind_eq_Some_conv)
  qed
  with assms(5) q d(1) have r: "r = Some q" "m' = m1" by (auto simp: as_object_def)
  note apart = copied_apart [OF assms(2,3) c]
  show ?thesis using view apart by (intro exI [of _ q]) (auto simp: r simp del: view.simps footprint.simps)
qed

text \<open>A catalog with one service, whose keys lie in an array of their own.\<close>

definition no_meta :: gval where
  "no_meta = Struct ([Scalar ''catalog''] @ replicate 7 (Scalar '''') @
     [Pointer None, Pointer None, MapHdr (Some 4), MapHdr None, SliceHdr None, SliceHdr None, SliceHdr None])"

definition catalog_memory :: memory where
  "catalog_memory = \<lparr>cells = [
     0 \<mapsto> Pointee (Struct [Struct [Scalar ''ServiceCatalog'', Scalar ''primaza.io/v1alpha1''], no_meta,
            Struct [SliceHdr (Some (1, 0, 1)), SliceHdr None]]),
     1 \<mapsto> Elements [Struct [Scalar ''db'', SliceHdr (Some (2, 0, 1)), SliceHdr (Some (3, 1, 2))]],
     2 \<mapsto> Elements [Struct [Scalar ''type'', Scalar ''sql'']],
     3 \<mapsto> Elements [Scalar ''user'', Scalar ''host'', Scalar ''password''],
     4 \<mapsto> Entries [(''app'', Scalar ''x'')]], free = 5\<rparr>"

theorem deep_copies_are_separate_witness:
  "\<exists>b m' t. run_state (ServiceCatalog_DeepCopyObject (Pointer (Some 0))) catalog_memory = (Some (Pointer (Some b)), m') \<and>
     view (SPtr (struct ServiceCatalog_fields)) catalog_memory (Pointer (Some 0)) = Some t \<and>
     view (SPtr (struct ServiceCatalog_fields)) m' (Pointer (Some b)) = Some t \<and>
     (\<forall>c. view (SPtr (struct ServiceCatalog_fields)) (m'\<lparr>cells := (cells m')(b := c)\<rparr>) (Pointer (Some 0)) = Some t)"
proof -
  let ?S = "SPtr (struct ServiceCatalog_fields)"
  let ?run = "run_state (ServiceCatalog_DeepCopyObject (Pointer (Some 0))) catalog_memory"
  have "case fst ?run of Some (Pointer (Some b)) \<Rightarrow> True | _ \<Rightarrow> False" by code_simp
  then obtain b m' where run: "?run = (Some (Pointer (Some b)), m')"
    by (cases ?run) (auto split: option.splits gval.splits)
  have "view ?S catalog_memory (Pointer (Some 0)) \<noteq> None" by code_simp
  then obtain t where t: "view ?S catalog_memory (Pointer (Some 0)) = Some t" by blast
  have wf: "wf_memory catalog_memory" by (auto simp: wf_memory_def catalog_memory_def split: if_splits)
  have mem: "(''ServiceCatalog'', ServiceCatalog_fields, ServiceCatalog_DeepCopyObject) \<in> set api_objects"
    by (simp add: api_objects_def)
  from deep_copies_are_separate [OF mem wf t _ run] have
    copy: "view ?S m' (Pointer (Some b)) = Some t" and
    writes: "\<forall>m''. (\<forall>a. a \<notin> set (footprint ?S m' (Pointer (Some b))) \<longrightarrow> cells m'' a = cells m' a) \<longrightarrow>
      view ?S m'' (Pointer (Some 0)) = Some t" by blast+
  have "view ?S (m'\<lparr>cells := (cells m')(b := c)\<rparr>) (Pointer (Some 0)) = Some t" for c
    by (rule writes [rule_format]) auto
  with run t copy show ?thesis by blast
qed

end
