(* ===== verification/Scheme.thy ===== *)
theory Scheme
  imports Kube Deepcopy
begin

section \<open>The scheme: \<^verbatim>\<open>api/v1alpha1/groupversion\_info.go\<close> and the \<^verbatim>\<open>init\<close> functions\<close>

text \<open>
  A scheme says under which group, version and kind a Go type is stored. The \<^verbatim>\<open>init\<close> functions of
  \<^verbatim>\<open>api/v1alpha1\<close> collect the types of Primaza in \<^verbatim>\<open>SchemeBuilder\<close>, the \<^verbatim>\<open>init\<close> functions of the three programs
  add them to a scheme that holds the types of client-go, which is an argument. The scheme is the list
  of registrations in the order they are made; \<^verbatim>\<open>AddToGroupVersion\<close> registers types of \<^verbatim>\<open>metav1\<close> only,
  which are none of the types below, and is left out.
\<close>

datatype go_type = Item okind | ListOf okind

type_synonym gvk = "string \<times> string \<times> string" \<comment> \<open>group, version and kind\<close>

type_synonym scheme = "(go_type \<times> gvk) list"

fun kind_name :: "okind \<Rightarrow> string" where
  "kind_name KServiceClaim = ''ServiceClaim''"
| "kind_name KRegisteredService = ''RegisteredService''"
| "kind_name KServiceCatalog = ''ServiceCatalog''"
| "kind_name KServiceClass = ''ServiceClass''"
| "kind_name KServiceBinding = ''ServiceBinding''"
| "kind_name KClusterEnvironment = ''ClusterEnvironment''"
| "kind_name KSecret = ''Secret''"
| "kind_name KCronJob = ''CronJob''"
| "kind_name KJob = ''Job''"
| "kind_name KRoleBinding = ''RoleBinding''"
| "kind_name KDeployment = ''Deployment''"
| "kind_name KConfigMap = ''ConfigMap''"
| "kind_name (KUnstructured _ _) = ''Unstructured''"

fun type_Name :: "go_type \<Rightarrow> string" where
  "type_Name (Item k) = kind_name k"
| "type_Name (ListOf k) = kind_name k @ ''List''"

subsection \<open>Group versions\<close>

definition ParseGroupVersion :: "string \<Rightarrow> (string \<times> string) option" where
  "ParseGroupVersion gv =
     (if gv = '''' \<or> gv = ''/'' then Some ('''', '''')
      else case count_list gv (CHR ''/'') of
          0 \<Rightarrow> Some ('''', gv)
        | Suc 0 \<Rightarrow> Some (takeWhile (\<lambda>ch. ch \<noteq> CHR ''/'') gv, tl (dropWhile (\<lambda>ch. ch \<noteq> CHR ''/'') gv))
        | _ \<Rightarrow> None)"

definition GroupVersion_String :: "string \<times> string \<Rightarrow> string" where
  "GroupVersion_String gv = (if fst gv \<noteq> '''' then fst gv @ ''/'' @ snd gv else snd gv)"

subsection \<open>Registration\<close>

definition AddKnownTypeWithName :: "gvk \<Rightarrow> go_type \<Rightarrow> scheme \<Rightarrow> err + scheme" where
  "AddKnownTypeWithName g t sch =
     (if fst (snd g) = '''' then Inl (Panic ''version is required on all types'')
      else if list_ex (\<lambda>(u, h). h = g \<and> u \<noteq> t) sch then Inl (Panic ''Double registration of different types'')
      else Inr (if (t, g) \<in> set sch then sch else sch @ [(t, g)]))"

fun AddKnownTypes :: "string \<times> string \<Rightarrow> go_type list \<Rightarrow> scheme \<Rightarrow> err + scheme" where
  "AddKnownTypes gv [] sch = Inr sch"
| "AddKnownTypes gv (t # ts) sch =
     (case AddKnownTypeWithName (fst gv, snd gv, type_Name t) t sch of
        Inl e \<Rightarrow> Inl e
      | Inr sch' \<Rightarrow> AddKnownTypes gv ts sch')"

type_synonym scheme_builder = "(scheme \<Rightarrow> err + scheme) list"

definition GroupVersion :: "string \<times> string" where
  "GroupVersion = (''primaza.io'', ''v1alpha1'')"

definition Register :: "go_type list \<Rightarrow> scheme_builder \<Rightarrow> scheme_builder" where
  "Register types sb = sb @ [AddKnownTypes GroupVersion types]"

fun run_builder :: "scheme_builder \<Rightarrow> scheme \<Rightarrow> err + scheme" where
  "run_builder [] sch = Inr sch"
| "run_builder (f # fs) sch = (case f sch of Inl e \<Rightarrow> Inl e | Inr sch' \<Rightarrow> run_builder fs sch')"

definition init_clusterenvironment :: "scheme_builder \<Rightarrow> scheme_builder" where
  "init_clusterenvironment = Register [Item KClusterEnvironment, ListOf KClusterEnvironment]"

definition init_registeredservice :: "scheme_builder \<Rightarrow> scheme_builder" where
  "init_registeredservice = Register [Item KRegisteredService, ListOf KRegisteredService]"

definition init_servicebinding :: "scheme_builder \<Rightarrow> scheme_builder" where
  "init_servicebinding = Register [Item KServiceBinding, ListOf KServiceBinding]"

definition init_servicecatalog :: "scheme_builder \<Rightarrow> scheme_builder" where
  "init_servicecatalog = Register [Item KServiceCatalog, ListOf KServiceCatalog]"

definition init_serviceclaim :: "scheme_builder \<Rightarrow> scheme_builder" where
  "init_serviceclaim = Register [Item KServiceClaim, ListOf KServiceClaim]"

definition init_serviceclass :: "scheme_builder \<Rightarrow> scheme_builder" where
  "init_serviceclass = Register [Item KServiceClass, ListOf KServiceClass]"

text \<open>Go runs the \<^verbatim>\<open>init\<close> functions of a package in the order of its files.\<close>

definition SchemeBuilder :: scheme_builder where
  "SchemeBuilder = init_serviceclass (init_serviceclaim (init_servicecatalog
     (init_servicebinding (init_registeredservice (init_clusterenvironment [])))))"

definition AddToScheme :: "scheme \<Rightarrow> err + scheme" where
  "AddToScheme = run_builder SchemeBuilder"

text \<open>The schemes of the three programs; \<open>clientgo\<close> is what \<^verbatim>\<open>clientgoscheme.AddToScheme\<close> leaves.\<close>

definition init_control :: "scheme \<Rightarrow> err + scheme" where
  "init_control clientgo = AddToScheme clientgo"

definition init_agent_app :: "scheme \<Rightarrow> err + scheme" where
  "init_agent_app clientgo = AddToScheme clientgo"

definition init_agent_svc :: "scheme \<Rightarrow> err + scheme" where
  "init_agent_svc clientgo = AddToScheme clientgo"

fun ObjectKinds :: "scheme \<Rightarrow> go_type \<Rightarrow> err + gvk list" where
  "ObjectKinds sch t =
     (let gvks = map snd (filter (\<lambda>(u, _). u = t) sch)
      in if gvks = [] then Inl (Plain ''no kind is registered for the type'') else Inr gvks)"

subsection \<open>What is registered\<close>

lemma ParseGroupVersion_group: "map_option fst (ParseGroupVersion gv) = api_group gv"
  by (auto simp: ParseGroupVersion_def api_group_def split: nat.splits)

definition primaza_kinds :: "okind list" where
  "primaza_kinds = [KClusterEnvironment, KRegisteredService, KServiceBinding, KServiceCatalog, KServiceClaim, KServiceClass]"

definition primaza_types :: scheme where
  "primaza_types = concat (map (\<lambda>k. [(Item k, fst GroupVersion, snd GroupVersion, kind_name k),
     (ListOf k, fst GroupVersion, snd GroupVersion, kind_name k @ ''List'')]) primaza_kinds)"

text \<open>A scheme without types of Primaza's group.\<close>

definition foreign_scheme :: "scheme \<Rightarrow> bool" where
  "foreign_scheme sch = list_all (\<lambda>(t, g). fst g \<noteq> fst GroupVersion \<and> t \<notin> fst ` set primaza_types) sch"

lemma AddKnownTypeWithName_fresh:
  assumes "fst (snd g) \<noteq> ''''" and "g \<notin> snd ` set sch"
  shows "AddKnownTypeWithName g t sch = Inr (sch @ [(t, g)])"
  using assms by (force simp: AddKnownTypeWithName_def list_ex_iff)

lemma AddToScheme_types:
  assumes "foreign_scheme sch"
  shows "AddToScheme sch = Inr (sch @ primaza_types)"
proof -
  have "(''primaza.io'', vk) \<notin> snd ` set sch" for vk
    using assms by (force simp: foreign_scheme_def list_all_iff GroupVersion_def)
  then show ?thesis
    by (simp add: AddToScheme_def SchemeBuilder_def Register_def init_serviceclass_def init_serviceclaim_def
      init_servicecatalog_def init_servicebinding_def init_registeredservice_def init_clusterenvironment_def
      GroupVersion_def AddKnownTypeWithName_fresh primaza_types_def primaza_kinds_def)
qed

lemma ObjectKinds_primaza:
  assumes "foreign_scheme clientgo" and "AddToScheme clientgo = Inr sch" and "k \<in> set primaza_kinds"
  shows "ObjectKinds sch (Item k) = Inr [(''primaza.io'', ''v1alpha1'', kind_name k)]"
proof -
  from assms(1,2) have sch: "sch = clientgo @ primaza_types" by (simp add: AddToScheme_types)
  have "Item k \<in> fst ` set primaza_types" using assms(3) by (auto simp: primaza_types_def primaza_kinds_def)
  with assms(1) have "filter (\<lambda>(u, _). u = Item k) clientgo = []"
    by (auto simp: foreign_scheme_def list_all_iff filter_empty_conv)
  with assms(3) show ?thesis by (auto simp: sch primaza_types_def primaza_kinds_def GroupVersion_def Let_def)
qed

text \<open>The types that are registered are those with a generated \<^verbatim>\<open>DeepCopyObject\<close>.\<close>

lemma registered_types_copy: "set (map (type_Name \<circ> fst) primaza_types) = set (map fst api_objects)"
  by code_simp

end
