(* ===== verification/Watches.thy ===== *)
theory Watches
  imports Scheme Live_Api Agents_Ctrl AppBinding_Ctrl ServiceClaim_Ctrl RegisteredService_Ctrl ClusterEnvironment_Ctrl
begin

section \<open>Watches: which events request which reconciliations\<close>

text \<open>
  Every controller declares in \<^verbatim>\<open>SetupWithManager\<close> what it watches; the controller runtime turns the events of
  these objects into requests, the keys with which \<^verbatim>\<open>Reconcile\<close> is called. The builder, the predicates, the
  handlers and the delivery of an event are translated from the vendored runtime. An event holds the
  objects as the cache saw them, each with its \<^verbatim>\<open>metadata.generation\<close>, which the API server keeps. A nil
  object never reaches a handler (\<^verbatim>\<open>OnAdd\<close>, \<^verbatim>\<open>OnUpdate\<close> and \<^verbatim>\<open>OnDelete\<close> return), no watch of the sources has
  generic events, and the builder's options for single watches are not used. The work queue holds a
  request once: an event's requests are a list without duplicates, whose order after an owner handler is
  that of a Go map.
\<close>

subsection \<open>Events and predicates\<close>

record snapshot =
  sn_obj :: obj
  sn_generation :: int

datatype event = CreateEvent snapshot | UpdateEvent snapshot snapshot | DeleteEvent snapshot

fun event_kind :: "event \<Rightarrow> okind" where
  "event_kind (CreateEvent x) = obj_kind (sn_obj x)"
| "event_kind (UpdateEvent _ x) = obj_kind (sn_obj x)"
| "event_kind (DeleteEvent x) = obj_kind (sn_obj x)"

datatype predicate = GenerationChangedPredicate | Funcs "obj \<Rightarrow> bool"

definition NewPredicateFuncs :: "(obj \<Rightarrow> bool) \<Rightarrow> predicate" where
  "NewPredicateFuncs f = Funcs f"

fun allows :: "event \<Rightarrow> predicate \<Rightarrow> bool" where
  "allows (CreateEvent x) (Funcs f) = f (sn_obj x)"
| "allows (UpdateEvent _ x) (Funcs f) = f (sn_obj x)"
| "allows (DeleteEvent x) (Funcs f) = f (sn_obj x)"
| "allows (UpdateEvent old new) GenerationChangedPredicate = (sn_generation new \<noteq> sn_generation old)"
| "allows _ GenerationChangedPredicate = True"

subsection \<open>Handlers\<close>

text \<open>
  The REST mapper says whether the objects of a group, kind and version live in a namespace; it comes
  from the discovery of the API server and is an argument.
\<close>

type_synonym rest_mapper = "string \<times> string \<Rightarrow> string \<Rightarrow> err + bool"

record owner_handler =
  eo_groupKind :: "string \<times> string"
  eo_isController :: bool

datatype 's handler =
    EnqueueRequestForObject
  | ForOwner owner_handler
  | EnqueueRequestsFromMapFunc "obj \<Rightarrow> ('s, nsname list) state"

definition EnqueueRequestForOwner :: "scheme \<Rightarrow> go_type \<Rightarrow> bool \<Rightarrow> err + 's handler" where
  "EnqueueRequestForOwner sch ownerType onlyController =
     (case ObjectKinds sch ownerType of
        Inl e \<Rightarrow> Inl (Panic (err_text e))
      | Inr kinds \<Rightarrow>
          (case kinds of
             [(g, _, k)] \<Rightarrow> Inr (ForOwner \<lparr>eo_groupKind = (g, k), eo_isController = onlyController\<rparr>)
           | _ \<Rightarrow> Inl (Panic ''expected exactly 1 kind for OwnerType'')))"

definition GetControllerOf :: "object_meta \<Rightarrow> owner_ref option" where
  "GetControllerOf m = find or_controller (om_owners m)"

definition getOwnersReferences :: "owner_handler \<Rightarrow> object_meta \<Rightarrow> owner_ref list" where
  "getOwnersReferences e m =
     (if \<not> eo_isController e then om_owners m
      else case GetControllerOf m of Some r \<Rightarrow> [r] | None \<Rightarrow> [])"

fun owner_requests :: "rest_mapper \<Rightarrow> owner_handler \<Rightarrow> string \<Rightarrow> owner_ref list \<Rightarrow> nsname list" where
  "owner_requests mapper e ns [] = []"
| "owner_requests mapper e ns (r # rs) =
     (case ParseGroupVersion (or_apiVersion r) of
        None \<Rightarrow> []
      | Some refGV \<Rightarrow>
          if or_kind r = snd (eo_groupKind e) \<and> fst refGV = fst (eo_groupKind e) then
            (case mapper (eo_groupKind e) (snd refGV) of
               Inl _ \<Rightarrow> []
             | Inr namespaced \<Rightarrow> (if namespaced then ns else '''', or_name r) # owner_requests mapper e ns rs)
          else owner_requests mapper e ns rs)"

definition getOwnerReconcileRequest :: "rest_mapper \<Rightarrow> owner_handler \<Rightarrow> obj \<Rightarrow> nsname list" where
  "getOwnerReconcileRequest mapper e x =
     owner_requests mapper e (om_namespace (obj_meta x)) (getOwnersReferences e (obj_meta x))"

text \<open>\<^verbatim>\<open>q.Add\<close> of the requests that were not added before.\<close>

definition add_requests :: "nsname list \<Rightarrow> nsname list \<Rightarrow> nsname list" where
  "add_requests reqs qs = fold (\<lambda>q acc. if q \<in> set acc then acc else acc @ [q]) qs reqs"

fun object_requests :: "event \<Rightarrow> nsname list" where
  "object_requests (CreateEvent x) = [obj_key (sn_obj x)]"
| "object_requests (UpdateEvent _ x) = [obj_key (sn_obj x)]"
| "object_requests (DeleteEvent x) = [obj_key (sn_obj x)]"

fun owner_event_requests :: "rest_mapper \<Rightarrow> owner_handler \<Rightarrow> event \<Rightarrow> nsname list" where
  "owner_event_requests mapper e (CreateEvent x) =
     add_requests [] (getOwnerReconcileRequest mapper e (sn_obj x))"
| "owner_event_requests mapper e (UpdateEvent old new) =
     add_requests (add_requests [] (getOwnerReconcileRequest mapper e (sn_obj old)))
       (getOwnerReconcileRequest mapper e (sn_obj new))"
| "owner_event_requests mapper e (DeleteEvent x) =
     add_requests [] (getOwnerReconcileRequest mapper e (sn_obj x))"

fun mapped_requests :: "(obj \<Rightarrow> ('s, nsname list) state) \<Rightarrow> event \<Rightarrow> ('s, nsname list) state" where
  "mapped_requests f (CreateEvent x) = do {
     qs \<leftarrow> f (sn_obj x);
     ret (add_requests [] qs) }"
| "mapped_requests f (UpdateEvent old new) = do {
     qs \<leftarrow> f (sn_obj old);
     qs' \<leftarrow> f (sn_obj new);
     ret (add_requests (add_requests [] qs) qs') }"
| "mapped_requests f (DeleteEvent x) = do {
     qs \<leftarrow> f (sn_obj x);
     ret (add_requests [] qs) }"

fun handle :: "rest_mapper \<Rightarrow> 's handler \<Rightarrow> event \<Rightarrow> ('s, nsname list) state" where
  "handle mapper EnqueueRequestForObject ev = ret (object_requests ev)"
| "handle mapper (ForOwner e) ev = ret (owner_event_requests mapper e ev)"
| "handle mapper (EnqueueRequestsFromMapFunc f) ev = mapped_requests f ev"

subsection \<open>The builder of a controller\<close>

record 's watch =
  w_source :: okind
  w_handler :: "'s handler"
  w_predicates :: "predicate list"

record 's builder =
  bl_for :: "okind option"
  bl_for_err :: "err option"
  bl_owns :: "okind list"
  bl_watches :: "(okind \<times> 's handler) list"
  bl_predicates :: "predicate list"

definition NewControllerManagedBy :: "'s builder" where
  "NewControllerManagedBy =
     \<lparr>bl_for = None, bl_for_err = None, bl_owns = [], bl_watches = [], bl_predicates = []\<rparr>"

definition For :: "okind \<Rightarrow> 's builder \<Rightarrow> 's builder" where
  "For k b =
     (if bl_for b \<noteq> None then b\<lparr>bl_for_err := Some (Plain ''For(...) should only be called once'')\<rparr>
      else b\<lparr>bl_for := Some k\<rparr>)"

definition Owns :: "okind \<Rightarrow> 's builder \<Rightarrow> 's builder" where
  "Owns k b = b\<lparr>bl_owns := bl_owns b @ [k]\<rparr>"

definition Watches :: "okind \<Rightarrow> 's handler \<Rightarrow> 's builder \<Rightarrow> 's builder" where
  "Watches k h b = b\<lparr>bl_watches := bl_watches b @ [(k, h)]\<rparr>"

definition WithEventFilter :: "predicate \<Rightarrow> 's builder \<Rightarrow> 's builder" where
  "WithEventFilter p b = b\<lparr>bl_predicates := bl_predicates b @ [p]\<rparr>"

fun watch_owned :: "scheme \<Rightarrow> okind \<Rightarrow> predicate list \<Rightarrow> okind list \<Rightarrow> err + 's watch list" where
  "watch_owned sch k ps [] = Inr []"
| "watch_owned sch k ps (o' # os) =
     (case EnqueueRequestForOwner sch (Item k) True of
        Inl e \<Rightarrow> Inl e
      | Inr h \<Rightarrow> (case watch_owned sch k ps os of
          Inl e \<Rightarrow> Inl e
        | Inr ws \<Rightarrow> Inr (\<lparr>w_source = o', w_handler = h, w_predicates = ps\<rparr> # ws)))"

definition doWatch :: "scheme \<Rightarrow> 's builder \<Rightarrow> err + 's watch list" where
  "doWatch sch b =
     (let ps = bl_predicates b;
          ws = map (\<lambda>(k, h). \<lparr>w_source = k, w_handler = h, w_predicates = ps\<rparr>) (bl_watches b)
      in case bl_for b of
           None \<Rightarrow>
             if bl_owns b \<noteq> [] then Inl (Plain ''Owns() can only be used together with For()'')
             else if bl_watches b = [] then Inl (Plain ''there are no watches configured'')
             else Inr ws
         | Some k \<Rightarrow>
             (case watch_owned sch k ps (bl_owns b) of
                Inl e \<Rightarrow> Inl e
              | Inr os \<Rightarrow> Inr (\<lparr>w_source = k, w_handler = EnqueueRequestForObject, w_predicates = ps\<rparr> # os @ ws)))"

definition Complete :: "scheme \<Rightarrow> 's builder \<Rightarrow> err + 's watch list" where
  "Complete sch b = (case bl_for_err b of Some e \<Rightarrow> Inl e | None \<Rightarrow> doWatch sch b)"

subsection \<open>Delivery\<close>

definition on_event :: "rest_mapper \<Rightarrow> event \<Rightarrow> 's watch \<Rightarrow> ('s, nsname list) state" where
  "on_event mapper ev w =
     (if list_all (allows ev) (w_predicates w) then handle mapper (w_handler w) ev else ret [])"

text \<open>An event goes to every watch of its kind; they share the queue of the controller.\<close>

fun dispatch :: "rest_mapper \<Rightarrow> 's watch list \<Rightarrow> event \<Rightarrow> ('s, nsname list) state" where
  "dispatch mapper [] ev = ret []"
| "dispatch mapper (w # ws) ev =
     (if w_source w = event_kind ev then do {
        qs \<leftarrow> on_event mapper ev w;
        qs' \<leftarrow> dispatch mapper ws ev;
        ret (add_requests qs qs') }
      else dispatch mapper ws ev)"

subsection \<open>The controllers\<close>

text \<open>The control plane.\<close>

fun bound_claim_request :: "string \<Rightarrow> ServiceClaim list \<Rightarrow> nsname list" where
  "bound_claim_request uid [] = []"
| "bound_claim_request uid (sc # scs) =
     (if scst_State (sc_Status sc) = ClaimResolved \<and>
         (case scst_RegisteredService (sc_Status sc) of Some r \<Rightarrow> ref_UID r = uid | None \<Rightarrow> False)
      then [meta_key (sc_meta sc)]
      else bound_claim_request uid scs)"

definition reconcileOnRegisteredServiceUpdate :: "'s kube \<Rightarrow> obj \<Rightarrow> ('s, nsname list) state" where
  "reconcileOnRegisteredServiceUpdate api a =
     (case a of
        ORegisteredService rs \<Rightarrow>
          if rs_State rs \<noteq> RSClaimed then ret []
          else do {
            r \<leftarrow> k_list api (k_self api) KServiceClaim '''' [];
            ret (case r of
                   Inl e \<Rightarrow> []
                 | Inr items \<Rightarrow> bound_claim_request (om_uid (rs_meta rs)) (claims_of items)) }
      | _ \<Rightarrow> ret [])"

definition setup_serviceclaim :: "'s kube \<Rightarrow> scheme \<Rightarrow> err + 's watch list" where
  "setup_serviceclaim api sch =
     Complete sch (WithEventFilter GenerationChangedPredicate
       (Watches KRegisteredService (EnqueueRequestsFromMapFunc (reconcileOnRegisteredServiceUpdate api))
         (For KServiceClaim NewControllerManagedBy)))"

definition setup_registeredservice :: "scheme \<Rightarrow> err + 's watch list" where
  "setup_registeredservice sch = Complete sch (Owns KCronJob (For KRegisteredService NewControllerManagedBy))"

definition setup_clusterenvironment :: "scheme \<Rightarrow> err + 's watch list" where
  "setup_clusterenvironment sch = Complete sch (Owns KSecret (For KClusterEnvironment NewControllerManagedBy))"

definition setup_servicecatalog :: "scheme \<Rightarrow> err + 's watch list" where
  "setup_servicecatalog sch = Complete sch (For KServiceCatalog NewControllerManagedBy)"

definition setup_serviceclass :: "scheme \<Rightarrow> err + 's watch list" where
  "setup_serviceclass sch = Complete sch (For KServiceClass NewControllerManagedBy)"

text \<open>The application agent.\<close>

definition setup_app_servicebinding :: "scheme \<Rightarrow> err + 's watch list" where
  "setup_app_servicebinding sch = Complete sch (Owns KSecret (For KServiceBinding NewControllerManagedBy))"

definition setup_app_servicecatalog :: "scheme \<Rightarrow> err + 's watch list" where
  "setup_app_servicecatalog sch = Complete sch (For KServiceCatalog NewControllerManagedBy)"

definition setup_app_serviceclaim :: "scheme \<Rightarrow> err + 's watch list" where
  "setup_app_serviceclaim sch = Complete sch (For KServiceClaim NewControllerManagedBy)"

definition setup_agentapp :: "scheme \<Rightarrow> err + 's watch list" where
  "setup_agentapp sch =
     Complete sch (For KDeployment
       (WithEventFilter (NewPredicateFuncs (\<lambda>c. om_name (obj_meta c) = ApplicationAgentDeploymentName))
         NewControllerManagedBy))"

text \<open>The service agent.\<close>

definition setup_svc_serviceclass :: "scheme \<Rightarrow> err + 's watch list" where
  "setup_svc_serviceclass sch = Complete sch (For KServiceClass NewControllerManagedBy)"

definition setup_agentsvc :: "scheme \<Rightarrow> err + 's watch list" where
  "setup_agentsvc sch =
     Complete sch (For KDeployment
       (WithEventFilter (NewPredicateFuncs (\<lambda>c. om_name (obj_meta c) = ServiceAgentDeploymentName))
         NewControllerManagedBy))"

end
