(* ===== verification/Watches_Correct.thy ===== *)
theory Watches_Correct
  imports Watches AppBinding_Correct ServiceClaim_Resolved
begin

section \<open>What the watches achieve\<close>

text \<open>
  An object whose controller reference was set by \<open>SetControllerReference\<close> is routed to its owner, so
  the owner is reconciled when the object changes or disappears; a change of a registered service is
  routed to the claim that is bound to it and propagated to the application.
\<close>

subsection \<open>Controller references\<close>

lemma find_upsert_owner:
  assumes "or_controller r" and "\<And>e. find or_controller os = Some e \<Longrightarrow> referSameObject e r"
  shows "find or_controller (upsert_owner r os) = Some r"
  using assms by (induction os) (auto split: if_splits)

lemma SetControllerReference_controller:
  assumes "SetControllerReference gvk owner m = Inr m'"
  shows "GetControllerOf m' = Some \<lparr>or_apiVersion = fst gvk, or_kind = snd gvk, or_name = om_name owner,
      or_uid = om_uid owner, or_controller = True\<rparr>"
    and "m' = m\<lparr>om_owners := om_owners m'\<rparr>"
  using assms
  by (auto simp: SetControllerReference_def GetControllerOf_def Let_def intro!: find_upsert_owner
      split: option.splits if_splits)

lemma set_add_requests [simp]: "set (add_requests reqs qs) = set reqs \<union> set qs"
  by (induction qs arbitrary: reqs) (auto simp: add_requests_def)

lemma distinct_add_requests: "distinct reqs \<Longrightarrow> distinct (add_requests reqs qs)"
  by (induction qs arbitrary: reqs) (auto simp: add_requests_def)

lemma add_requests_simps [simp]:
  "add_requests reqs [] = reqs"
  "add_requests reqs (q # qs) = add_requests (if q \<in> set reqs then reqs else reqs @ [q]) qs"
  by (simp_all add: add_requests_def)

lemma owner_requests_controller:
  assumes "GetControllerOf (obj_meta x) = Some r" and "or_apiVersion r = ''primaza.io/v1alpha1''"
    and "mapper (''primaza.io'', or_kind r) ''v1alpha1'' = Inr True"
  shows "getOwnerReconcileRequest mapper \<lparr>eo_groupKind = (''primaza.io'', or_kind r), eo_isController = True\<rparr> x =
    [(om_namespace (obj_meta x), or_name r)]"
proof -
  have "ParseGroupVersion ''primaza.io/v1alpha1'' = Some (''primaza.io'', ''v1alpha1'')" by code_simp
  with assms show ?thesis by (simp add: getOwnerReconcileRequest_def getOwnersReferences_def)
qed

text \<open>The watches of a controller that owns objects of another kind.\<close>

lemma Complete_Owns:
  assumes "foreign_scheme clientgo" and "AddToScheme clientgo = Inr sch" and "k \<in> set primaza_kinds"
  shows "Complete sch (Owns own (For k NewControllerManagedBy)) = Inr
    [\<lparr>w_source = k, w_handler = EnqueueRequestForObject, w_predicates = []\<rparr>,
     \<lparr>w_source = own, w_handler = ForOwner \<lparr>eo_groupKind = (''primaza.io'', kind_name k), eo_isController = True\<rparr>,
      w_predicates = []\<rparr>]"
  using ObjectKinds_primaza [OF assms]
  by (simp add: Complete_def Owns_def For_def NewControllerManagedBy_def doWatch_def EnqueueRequestForOwner_def Let_def
    del: ObjectKinds.simps)

definition routed :: "rest_mapper \<Rightarrow> 's watch list \<Rightarrow> obj \<Rightarrow> nsname \<Rightarrow> bool" where
  "routed mapper ws x q =
     (\<forall>g t. (\<forall>y g'. obj_kind y = obj_kind x \<longrightarrow>
         q \<in> set (fst (run_state (dispatch mapper ws (UpdateEvent \<lparr>sn_obj = x, sn_generation = g\<rparr>
               \<lparr>sn_obj = y, sn_generation = g'\<rparr>)) t))) \<and>
       q \<in> set (fst (run_state (dispatch mapper ws (DeleteEvent \<lparr>sn_obj = x, sn_generation = g\<rparr>)) t)))"

lemma owned_routed:
  assumes "foreign_scheme clientgo" and "AddToScheme clientgo = Inr sch" and "k \<in> set primaza_kinds"
    and "Complete sch (Owns (obj_kind x) (For k NewControllerManagedBy)) = Inr ws" and "obj_kind x \<noteq> k"
    and "mapper (''primaza.io'', kind_name k) ''v1alpha1'' = Inr True"
    and "GetControllerOf (obj_meta x) = Some r" and "or_apiVersion r = ''primaza.io/v1alpha1''" and "or_kind r = kind_name k"
  shows "routed mapper ws x (om_namespace (obj_meta x), or_name r)"
proof -
  from trans [OF assms(4) [symmetric] Complete_Owns [OF assms(1-3)]]
  have ws: "ws = [\<lparr>w_source = k, w_handler = EnqueueRequestForObject, w_predicates = []\<rparr>,
     \<lparr>w_source = obj_kind x, w_handler = ForOwner \<lparr>eo_groupKind = (''primaza.io'', kind_name k), eo_isController = True\<rparr>,
      w_predicates = []\<rparr>]" by simp
  have "getOwnerReconcileRequest mapper \<lparr>eo_groupKind = (''primaza.io'', kind_name k), eo_isController = True\<rparr> x =
      [(om_namespace (obj_meta x), or_name r)]"
    using owner_requests_controller [OF assms(7,8), of mapper] assms(6,9) by simp
  with assms(5) show ?thesis by (simp add: routed_def ws on_event_def)
qed

subsection \<open>The secret of a binding\<close>

context kube_store
begin

lemma PrepareBinding_secrets:
  assumes "run_state (PrepareBinding api sb sec us) s = ((None, sb1), s')"
  shows "objs s' c KSecret n = objs s c KSecret n"
proof -
  from PrepareBinding_ok [OF assms] obtain s1 where
    l: "run_state (for_collect (prepareContainerWithMounts api sb sec (binding_volume sb)) us) s = (Inr [], s1)"
    and f: "same_but {(k_self api, KServiceBinding, meta_key (sb_meta sb))} (objs s1) (objs s')" by blast
  have "modifies objs (of_kinds {k. k \<noteq> KSecret}) (for_collect (prepareContainerWithMounts api sb sec (binding_volume sb)) us)"
    unfolding prepareContainerWithMounts_def by (intro frame_intros) (simp add: kind_of_def)
  from same_but_of_kinds [OF modifies_run [OF this l], of KSecret] f show ?thesis by (simp add: same_but_def)
qed

lemma bind_binding_owns:
  assumes "run_state (bind_binding api sb) s = (None, s')"
  shows "\<exists>sec r. objs s' (k_self api) KSecret (om_namespace (sb_meta sb), sbsp_ServiceEndpointDefinitionSecret (sb_Spec sb)) =
      Some (OSecret sec) \<and> GetControllerOf (sec_meta sec) = Some r \<and>
    or_apiVersion r = fst binding_gvk \<and> or_kind r = snd binding_gvk \<and> or_name r = om_name (sb_meta sb)"
proof -
  let ?k = "(om_namespace (sb_meta sb), sbsp_ServiceEndpointDefinitionSecret (sb_Spec sb))"
  obtain us s1 sec s2 sb1 s3 m y where
    q: "run_state (GetSecret api sb us) s1 = (Inr sec, s2)" and
    p: "run_state (PrepareBinding api sb sec us) s2 = ((None, sb1), s3)" and
    m: "SetControllerReference binding_gvk (sb_meta sb1) (sec_meta sec) = Inr m" and
    up: "run_state (k_update api (k_self api) (OSecret (sec\<lparr>sec_meta := m\<rparr>))) s3 = (Inr y, s')"
    by (rule bind_binding_steps [OF assms])
  from GetSecret_found [OF q] PrepareBinding_secrets [OF p]
  have sec: "objs s3 (k_self api) KSecret ?k = Some (OSecret sec)" by simp
  from PrepareBinding_ok [OF p] obtain b where "sb_meta sb1 = sb_meta b"
    "objs s3 (k_self api) KServiceBinding (meta_key (sb_meta sb)) = Some (OServiceBinding b)" by blast
  with keyed [OF this(2)] have name: "om_name (sb_meta sb1) = om_name (sb_meta sb)"
    by (simp add: obj_key_def meta_key_def)
  note c = SetControllerReference_controller [OF m]
  have key: "obj_key (OSecret (sec\<lparr>sec_meta := m\<rparr>)) = ?k"
    using keyed [OF sec] c(2) by (simp add: obj_key_def meta_key_def) (metis object_meta.select_convs(1,2) object_meta.surjective object_meta.update_convs(9))
  from update_ok [OF up] key sec obtain v where y: "y = written (OSecret sec) v (OSecret (sec\<lparr>sec_meta := m\<rparr>))"
    and s': "objs s' (k_self api) KSecret ?k = (if om_deletion (sec_meta sec) \<and> om_finalizers m = [] then None else Some y)"
    by auto
  have "om_finalizers m = om_finalizers (sec_meta sec)" by (subst c(2)) simp
  with live [OF sec] s' have "objs s' (k_self api) KSecret ?k = Some y" by auto
  moreover from y c(1) obtain sec' where "y = OSecret sec'" "GetControllerOf (sec_meta sec') = GetControllerOf m"
    by (auto simp: written_def keep_server_fields_def set_version_def GetControllerOf_def)
  ultimately show ?thesis using c(1) name by auto
qed

end

text \<open>C11: The reconciliation of a binding that is not being deleted, when it reports no error, makes the binding
  the controller of its secret: whenever the secret is changed afterwards, as when the control plane pushes new
  values, or is deleted, the application agent's watches request the reconciliation of the binding again. (The
  scheme of client-go holds no types of this program, and the REST mapper says that bindings are namespaced.)\<close>

theorem bound_secret_requests_binding:
  assumes "kube_store api objs"
    and "run_state (ReconcileBinding api mapping start informers (ns, n)) s = ((None, informers'), s')"
    and "objs s (k_self api) KServiceBinding (ns, n) = Some (OServiceBinding sb)" and "\<not> om_deletion (sb_meta sb)"
    and "foreign_scheme clientgo" and "init_agent_app clientgo = Inr sch" and "setup_app_servicebinding sch = Inr ws"
    and "mapper (''primaza.io'', ''ServiceBinding'') ''v1alpha1'' = Inr True"
  shows "\<exists>sec. objs s' (k_self api) KSecret (ns, sbsp_ServiceEndpointDefinitionSecret (sb_Spec sb)) = Some (OSecret sec) \<and>
    routed mapper ws (OSecret sec) (ns, n)"
proof -
  obtain sb1 s1 where b: "sb1 = sb\<lparr>sb_meta := snd (AddFinalizer (sb_meta sb) ServiceBindingFinalizer)\<rparr>"
    "run_state (bind_binding api sb1) s1 = (None, s')" "om_namespace (sb_meta sb1) = ns" "om_name (sb_meta sb1) = n"
    by (rule reconciled_binding_steps [OF assms(1-4)])
  from kube_store.bind_binding_owns [OF assms(1) b(2)] b(1,3,4) obtain sec r where
    sec: "objs s' (k_self api) KSecret (ns, sbsp_ServiceEndpointDefinitionSecret (sb_Spec sb)) = Some (OSecret sec)"
    and r: "GetControllerOf (sec_meta sec) = Some r" "or_apiVersion r = fst binding_gvk" "or_kind r = snd binding_gvk" "or_name r = n"
    by auto
  from kube_store.keyed [OF assms(1) sec] have ns: "om_namespace (sec_meta sec) = ns" by (simp add: obj_key_def meta_key_def)
  have "routed mapper ws (OSecret sec) (om_namespace (obj_meta (OSecret sec)), or_name r)"
    by (rule owned_routed [OF assms(5) assms(6) [unfolded init_agent_app_def], of KServiceBinding])
      (use assms(7,8) r in \<open>simp_all add: primaza_kinds_def setup_app_servicebinding_def binding_gvk_def\<close>)
  with sec ns r(4) show ?thesis by auto
qed

text \<open>The controller reference that the reconciliation leaves is found when the secret changes.\<close>

theorem bound_secret_requests_binding_witness:
  "\<exists>inf s' sec sch ws. run_state reconcile_orders orders_state = ((None, inf), s') \<and>
     init_agent_app [(Item KSecret, '''', ''v1'', ''Secret'')] = Inr sch \<and> setup_app_servicebinding sch = Inr ws \<and>
     mem_objs s' 0 KSecret (''apps'', ''db-secret'') = Some (OSecret sec) \<and>
     (''apps'', ''db'') \<in> set (fst (run_state (dispatch (\<lambda>_ _. Inr True) ws
        (DeleteEvent \<lparr>sn_obj = OSecret sec, sn_generation = 1\<rparr>)) s'))"
proof -
  obtain inf s' where run: "run_state reconcile_orders orders_state = ((None, inf), s')" using orders_run by blast
  have f: "foreign_scheme [(Item KSecret, '''', ''v1'', ''Secret'')]" by code_simp
  from AddToScheme_types [OF f] obtain sch where sch: "init_agent_app [(Item KSecret, '''', ''v1'', ''Secret'')] = Inr sch"
    by (simp add: init_agent_app_def)
  from Complete_Owns [OF f sch [unfolded init_agent_app_def], of KServiceBinding KSecret]
  obtain ws :: "mem watch list" where ws: "setup_app_servicebinding sch = Inr ws"
    by (simp add: setup_app_servicebinding_def primaza_kinds_def)
  have m: "(\<lambda>_ _. Inr True :: err + bool) (''primaza.io'', ''ServiceBinding'') ''v1alpha1'' = Inr True" by simp
  have name: "sbsp_ServiceEndpointDefinitionSecret (sb_Spec orders_binding) = ''db-secret''" by (simp add: orders_binding_def)
  from bound_secret_requests_binding [OF mem.kube_store_axioms, OF run orders_at orders_live f sch ws m]
  obtain sec where sec: "mem_objs s' (k_self (mem_api [] 0)) KSecret (''apps'', ''db-secret'') = Some (OSecret sec)"
    and r: "routed (\<lambda>_ _. Inr True) ws (OSecret sec) (''apps'', ''db'')" unfolding name by blast
  from r have "(''apps'', ''db'') \<in> set (fst (run_state (dispatch (\<lambda>_ _. Inr True) ws
        (DeleteEvent \<lparr>sn_obj = OSecret sec, sn_generation = 1\<rparr>)) s'))" by (simp add: routed_def)
  with run sch ws sec show ?thesis by (intro exI [of _ inf] exI [of _ s'] exI [of _ sec] exI [of _ sch] exI [of _ ws]) simp
qed

subsection \<open>A change of a registered service\<close>

definition bound_to_uid :: "string \<Rightarrow> ServiceClaim \<Rightarrow> bool" where
  "bound_to_uid uid sc = (scst_State (sc_Status sc) = ClaimResolved \<and>
     map_option ref_UID (scst_RegisteredService (sc_Status sc)) = Some uid)"

definition sole_claim :: "(cluster \<Rightarrow> okind \<Rightarrow> nsname \<Rightarrow> obj option) \<Rightarrow> cluster \<Rightarrow> string \<Rightarrow> nsname \<Rightarrow> bool" where
  "sole_claim f c uid q =
     (\<forall>p x. f c KServiceClaim p = Some (OServiceClaim x) \<and> bound_to_uid uid x \<longrightarrow> p = q)"

lemma bound_claim_request_find:
  "bound_claim_request uid scs = (case find (bound_to_uid uid) scs of Some sc \<Rightarrow> [meta_key (sc_meta sc)] | None \<Rightarrow> [])"
  by (induction scs) (auto simp: bound_to_uid_def split: option.splits)

lemma setup_serviceclaim_watches:
  assumes "setup_serviceclaim api sch = Inr ws"
  shows "ws = [\<lparr>w_source = KServiceClaim, w_handler = EnqueueRequestForObject, w_predicates = [GenerationChangedPredicate]\<rparr>,
     \<lparr>w_source = KRegisteredService, w_handler = EnqueueRequestsFromMapFunc (reconcileOnRegisteredServiceUpdate api),
      w_predicates = [GenerationChangedPredicate]\<rparr>]"
  using assms by (simp add: setup_serviceclaim_def Complete_def doWatch_def WithEventFilter_def Watches_def
      For_def NewControllerManagedBy_def Let_def)

text \<open>On a server that answers, the service's events request the claim that is bound to it.\<close>

context live_store
begin

lemma service_requests_bound_claim:
  fixes rs :: RegisteredService
  assumes "up (k_self api) s" and "objs s (k_self api) KServiceClaim q = Some (OServiceClaim sc)"
    and "bound_to_uid (om_uid (rs_meta rs)) sc" and "sole_claim (objs s) (k_self api) (om_uid (rs_meta rs)) q"
  shows "\<exists>s'. run_state (reconcileOnRegisteredServiceUpdate api (ORegisteredService rs)) s =
    (if rs_State rs = RSClaimed then [q] else [], s') \<and> objs s' = objs s \<and> up (k_self api) s'"
proof (cases "rs_State rs = RSClaimed")
  case False
  with assms(1) show ?thesis by (simp add: reconcileOnRegisteredServiceUpdate_def)
next
  case True
  let ?b = "bound_to_uid (om_uid (rs_meta rs))"
  obtain r s' where r: "run_state (k_list api (k_self api) KServiceClaim '''' []) s = (r, s')" by fastforce
  obtain xs where xs: "r = Inr xs" using r list_answers [OF assms(1)] by (cases r) auto
  have in_xs: "OServiceClaim x \<in> set xs \<longleftrightarrow> (\<exists>p. objs s (k_self api) KServiceClaim p = Some (OServiceClaim x))" for x
    using list_found [OF r [unfolded xs]] by auto
  have "find ?b (claims_of xs) \<noteq> None" using in_xs assms(2,3) by (auto simp: find_None_iff claims_of_in)
  then obtain y where y: "find ?b (claims_of xs) = Some y" by blast
  from find_Some_in [OF y] obtain p where p: "objs s (k_self api) KServiceClaim p = Some (OServiceClaim y)"
    by (auto simp: claims_of_in in_xs)
  from assms(4) p find_Some_holds [OF y] have "p = q" unfolding sole_claim_def by blast
  with keyed [OF p] have "meta_key (sc_meta y) = q" by (simp add: obj_key_def)
  with True r xs y list_reads [OF r] steady_run(1) [OF steady_list r assms(1)] show ?thesis
    by (simp add: reconcileOnRegisteredServiceUpdate_def bound_claim_request_find)
qed

text \<open>Of the events that update a service, those that change its generation request the claim, once.\<close>

lemma service_update_dispatched:
  assumes "up (k_self api) s" and "setup_serviceclaim api sch = Inr ws"
    and "objs s (k_self api) KServiceClaim q = Some (OServiceClaim sc)" and "bound_to_uid (om_uid (rs_meta rs)) sc"
    and "sole_claim (objs s) (k_self api) (om_uid (rs_meta rs)) q"
    and "rs_State rs = RSClaimed" and "om_uid (rs_meta rs0) = om_uid (rs_meta rs)"
  shows "\<exists>s'. run_state (dispatch mapper ws (UpdateEvent \<lparr>sn_obj = ORegisteredService rs0, sn_generation = g0\<rparr>
      \<lparr>sn_obj = ORegisteredService rs, sn_generation = g\<rparr>)) s = (if g = g0 then [] else [q], s') \<and> objs s' = objs s"
proof -
  note ws = setup_serviceclaim_watches [OF assms(2)]
  from service_requests_bound_claim [OF assms(1,3), of rs0] assms(4,5,7) obtain s1 where
    s1: "run_state (reconcileOnRegisteredServiceUpdate api (ORegisteredService rs0)) s =
      (if rs_State rs0 = RSClaimed then [q] else [], s1)" "objs s1 = objs s" "up (k_self api) s1" by auto
  from service_requests_bound_claim [OF s1(3), of q sc rs] s1(2) assms(3-6) obtain s2 where
    "run_state (reconcileOnRegisteredServiceUpdate api (ORegisteredService rs)) s1 = ([q], s2)" "objs s2 = objs s1" by auto
  with s1 show ?thesis by (simp add: ws on_event_def)
qed

end

text \<open>C7: An update of a claimed service reaches the application of its claim. Let the control plane answer and the
  stored service be Claimed, under the identifier it had before the update; let one resolved claim be bound to
  it and no other claim refer to its identifier; let that claim not be deleted, have a claim identifier and an
  application cluster context whose environment is stored, lists the application namespace and lists no
  namespace twice; let the claim name no identity item twice and the service no endpoint twice. When the update
  event changes the service's generation (its specification), the control plane's watches request exactly that
  claim, and when it does not (a status update), nothing. And if the reconciliation of the claim after the event
  reports no error, the application's secret holds every endpoint value that the service has now as a literal,
  that the claim requests and that no identity item of the same name overrides.\<close>

theorem service_update_propagates:
  assumes "live_store api objs up down" and "up (k_self api) s" and "setup_serviceclaim api sch = Inr ws"
    and "objs s (k_self api) KRegisteredService (ns, ref_Name ref) = Some (ORegisteredService rs)"
    and "rs_State rs = RSClaimed" and "om_uid (rs_meta rs0) = om_uid (rs_meta rs)"
    and "objs s (k_self api) KServiceClaim (ns, n) = Some (OServiceClaim sc)"
    and "\<not> om_deletion (sc_meta sc)" and "scst_State (sc_Status sc) = ClaimResolved" and "scst_ClaimID (sc_Status sc) \<noteq> ''''"
    and "scst_RegisteredService (sc_Status sc) = Some ref" and "ref_UID ref = om_uid (rs_meta rs)"
    and "sole_claim (objs s) (k_self api) (om_uid (rs_meta rs)) (ns, n)"
    and "scsp_Target (sc_Spec sc) = Some t" and "sct_ApplicationClusterContext t = Some acc"
    and "objs s (k_self api) KClusterEnvironment (ns, acc_ClusterEnvironmentName acc) = Some (OClusterEnvironment ce)"
    and "acc_Namespace acc \<in> set (cesp_ApplicationNamespaces (ce_Spec ce))"
    and "distinct (cesp_ApplicationNamespaces (ce_Spec ce))"
    and "distinct (map sci_Name (scsp_ServiceClassIdentity (sc_Spec sc)))"
    and "distinct (map sed_Name (rssp_ServiceEndpointDefinition (rs_Spec rs)))"
  shows "\<exists>s1. run_state (dispatch mapper ws (UpdateEvent \<lparr>sn_obj = ORegisteredService rs0, sn_generation = g0\<rparr>
        \<lparr>sn_obj = ORegisteredService rs, sn_generation = g\<rparr>)) s = (if g = g0 then [] else [(ns, n)], s1) \<and>
    (\<forall>s'. run_state (ReconcileClaim api (ns, n)) s1 = (None, s') \<longrightarrow>
      (\<exists>cli x. environment_client api (objs s) (ns, acc_ClusterEnvironmentName acc) ce cli \<and>
        objs s' cli KSecret (acc_Namespace acc, n) = Some (OSecret x) \<and>
        (\<forall>sed\<in>set (rssp_ServiceEndpointDefinition (rs_Spec rs)). sed_Value sed \<noteq> '''' \<and>
          sed_Name sed \<in> set (scsp_ServiceEndpointDefinitionKeys (sc_Spec sc)) \<and>
          sed_Name sed \<notin> sci_Name ` set (scsp_ServiceClassIdentity (sc_Spec sc)) \<longrightarrow>
            gm_get (secret_content x) (sed_Name sed) = Some (sed_Value sed))))"
proof -
  have store: "kube_store api objs" by (rule live_store.axioms(1) [OF assms(1)])
  have "bound_to_uid (om_uid (rs_meta rs)) sc" using assms(9,11,12) by (simp add: bound_to_uid_def)
  from live_store.service_update_dispatched [OF assms(1) assms(2,3,7) this assms(13,5,6)] obtain s1 where
    d: "run_state (dispatch mapper ws (UpdateEvent \<lparr>sn_obj = ORegisteredService rs0, sn_generation = g0\<rparr>
      \<lparr>sn_obj = ORegisteredService rs, sn_generation = g\<rparr>)) s = (if g = g0 then [] else [(ns, n)], s1)"
    and s1: "objs s1 = objs s" by blast
  show ?thesis
  proof (intro exI [of _ s1] conjI allI impI)
    show "run_state (dispatch mapper ws (UpdateEvent \<lparr>sn_obj = ORegisteredService rs0, sn_generation = g0\<rparr>
      \<lparr>sn_obj = ORegisteredService rs, sn_generation = g\<rparr>)) s = (if g = g0 then [] else [(ns, n)], s1)" by (rule d)
  next
    fix s' assume run: "run_state (ReconcileClaim api (ns, n)) s1 = (None, s')"
    from reconciled_claim_refreshed [OF store, OF run, of sc t acc ce] assms(4,7-11,14-20) s1
    show "\<exists>cli x. environment_client api (objs s) (ns, acc_ClusterEnvironmentName acc) ce cli \<and>
        objs s' cli KSecret (acc_Namespace acc, n) = Some (OSecret x) \<and>
        (\<forall>sed\<in>set (rssp_ServiceEndpointDefinition (rs_Spec rs)). sed_Value sed \<noteq> '''' \<and>
          sed_Name sed \<in> set (scsp_ServiceEndpointDefinitionKeys (sc_Spec sc)) \<and>
          sed_Name sed \<notin> sci_Name ` set (scsp_ServiceClassIdentity (sc_Spec sc)) \<longrightarrow>
            gm_get (secret_content x) (sed_Name sed) = Some (sed_Value sed))" by auto
  qed
qed

text \<open>The service of \<open>moved_state\<close>, whose host has changed.\<close>

lemma moved_sole: "sole_claim (mem_objs moved_state) 0 ''u-db'' (''sys'', ''claim'')"
  by (auto simp: sole_claim_def mem_objs_def moved_state_def mem_of_def is_at_def obj_key_def
    meta_key_def served_claim_def claim_of_def split: if_splits)

theorem service_update_propagates_witness:
  "\<exists>ws s1 s' cli x. setup_serviceclaim (mem_api [(''kc'', 1)] 0) [] = Inr ws \<and>
     run_state (dispatch (\<lambda>_ _. Inr True) ws (UpdateEvent
       \<lparr>sn_obj = ORegisteredService (db_service ''db'' RSClaimed), sn_generation = 1\<rparr>
       \<lparr>sn_obj = ORegisteredService moved_service, sn_generation = 2\<rparr>)) moved_state = ([(''sys'', ''claim'')], s1) \<and>
     run_state (ReconcileClaim (mem_api [(''kc'', 1)] 0) (''sys'', ''claim'')) s1 = (None, s') \<and>
     mem_objs s' cli KSecret (''apps'', ''claim'') = Some (OSecret x) \<and>
     gm_get (secret_content x) ''host'' = Some ''new.local''"
proof -
  let ?api = "mem_api [(''kc'', 1)] 0" and ?acc = "\<lparr>acc_ClusterEnvironmentName = ''ce'', acc_Namespace = ''apps''\<rparr>"
  obtain ws where ws: "setup_serviceclaim ?api [] = Inr ws"
    by (simp add: setup_serviceclaim_def Complete_def doWatch_def WithEventFilter_def Watches_def For_def
      NewControllerManagedBy_def Let_def)
  let ?ev = "UpdateEvent \<lparr>sn_obj = ORegisteredService (db_service ''db'' RSClaimed), sn_generation = 1\<rparr>
       \<lparr>sn_obj = ORegisteredService moved_service, sn_generation = 2\<rparr>"
  have st: "mem_objs moved_state (k_self ?api) KServiceClaim (''sys'', ''claim'') = Some (OServiceClaim served_claim)"
    "mem_objs moved_state (k_self ?api) KClusterEnvironment (''sys'', acc_ClusterEnvironmentName ?acc) =
      Some (OClusterEnvironment prod_env)"
    "mem_objs moved_state (k_self ?api) KRegisteredService (''sys'', ref_Name \<lparr>ref_Name = ''db'', ref_UID = ''u-db''\<rparr>) =
      Some (ORegisteredService moved_service)"
    by code_simp+
  have up: "mem_up (k_self ?api) moved_state" by code_simp
  have rs: "rs_State moved_service = RSClaimed" "om_uid (rs_meta (db_service ''db'' RSClaimed)) = om_uid (rs_meta moved_service)"
    "ref_UID \<lparr>ref_Name = ''db'', ref_UID = ''u-db''\<rparr> = om_uid (rs_meta moved_service)"
    "distinct (map sed_Name (rssp_ServiceEndpointDefinition (rs_Spec moved_service)))"
    by (simp_all add: moved_service_def db_service_def)
  have sole: "sole_claim (mem_objs moved_state) (k_self ?api) (om_uid (rs_meta moved_service)) (''sys'', ''claim'')"
    using moved_sole rs(3) by (simp add: mem_api_def)
  have acc: "sct_ApplicationClusterContext app_target = Some ?acc" by (simp add: app_target_def)
  have ns: "acc_Namespace ?acc \<in> set (cesp_ApplicationNamespaces (ce_Spec prod_env))"
    "distinct (cesp_ApplicationNamespaces (ce_Spec prod_env))" by (simp_all add: prod_env_def)
  have g: "\<not> (2::int) = 1" by simp
  note p = service_update_propagates [OF live.live_store_axioms, OF up ws st(3) rs(1,2) st(1) served_claim_props(1-3,5) rs(3) sole
      served_claim_props(6) acc st(2) ns served_claim_props(7) rs(4), of "\<lambda>_ _. Inr True" 1 2, unfolded if_not_P [OF g]]
  let ?post = "\<lambda>s'. \<exists>cli x. environment_client ?api (mem_objs moved_state) (''sys'', acc_ClusterEnvironmentName ?acc) prod_env cli \<and>
    mem_objs s' cli KSecret (acc_Namespace ?acc, ''claim'') = Some (OSecret x) \<and>
    (\<forall>sed\<in>set (rssp_ServiceEndpointDefinition (rs_Spec moved_service)). sed_Value sed \<noteq> '''' \<and>
      sed_Name sed \<in> set (scsp_ServiceEndpointDefinitionKeys (sc_Spec served_claim)) \<and>
      sed_Name sed \<notin> sci_Name ` set (scsp_ServiceClassIdentity (sc_Spec served_claim)) \<longrightarrow>
        gm_get (secret_content x) (sed_Name sed) = Some (sed_Value sed))"
  obtain s1 where d: "run_state (dispatch (\<lambda>_ _. Inr True) ws ?ev) moved_state = ([(''sys'', ''claim'')], s1)"
    and post: "\<forall>s'. run_state (ReconcileClaim ?api (''sys'', ''claim'')) s1 = (None, s') \<longrightarrow> ?post s'"
    using p by (elim exE conjE) (rule that)
  have "case setup_serviceclaim ?api [] of Inl e \<Rightarrow> False | Inr ws \<Rightarrow>
      fst (run_state (ReconcileClaim ?api (''sys'', ''claim'')) (snd (run_state (dispatch (\<lambda>_ _. Inr True) ws ?ev) moved_state))) = None"
    by code_simp
  then have "fst (run_state (ReconcileClaim ?api (''sys'', ''claim'')) s1) = None" unfolding ws sum.case d snd_conv .
  then obtain s' where run: "run_state (ReconcileClaim ?api (''sys'', ''claim'')) s1 = (None, s')" by (metis prod.collapse)
  from post run obtain cli x where x: "mem_objs s' cli KSecret (acc_Namespace ?acc, ''claim'') = Some (OSecret x)"
    and v: "\<forall>sed\<in>set (rssp_ServiceEndpointDefinition (rs_Spec moved_service)). sed_Value sed \<noteq> '''' \<and>
      sed_Name sed \<in> set (scsp_ServiceEndpointDefinitionKeys (sc_Spec served_claim)) \<and>
      sed_Name sed \<notin> sci_Name ` set (scsp_ServiceClassIdentity (sc_Spec served_claim)) \<longrightarrow>
        gm_get (secret_content x) (sed_Name sed) = Some (sed_Value sed)" by blast
  from v have "gm_get (secret_content x) ''host'' = Some ''new.local''"
    by (simp add: served_claim_def claim_of_def moved_service_def)
  with ws d run x show ?thesis by (intro exI conjI) simp_all
qed

subsection \<open>The health check of a registered service\<close>

definition runs_check :: "object_meta \<Rightarrow> HealthCheckContainer \<Rightarrow> CronJob \<Rightarrow> bool" where
  "runs_check m hc cj =
     (cj_Image cj = hc_Image hc \<and> cj_Command cj = hc_Command hc \<and>
      cj_Schedule cj = ''*/'' @ show_nat (hc_Minutes hc) @ '' * * * *'' \<and>
      GetControllerOf (cj_meta cj) = Some \<lparr>or_apiVersion = fst service_gvk, or_kind = snd service_gvk,
        or_name = om_name m, or_uid = om_uid m, or_controller = True\<rparr>)"

definition is_check :: "object_meta \<Rightarrow> HealthCheckContainer \<Rightarrow> obj \<Rightarrow> bool" where
  "is_check m hc x = (\<exists>cj. x = OCronJob cj \<and> runs_check m hc cj)"

lemma is_check_stable: "storage_stable (is_check m hc)"
  unfolding storage_stable_def
proof (intro allI impI conjI)
  fix y assume "is_check m hc y"
  then obtain cj where cj: "y = OCronJob cj" "runs_check m hc cj" by (auto simp: is_check_def)
  fix u v st
  have "copy_status st (OCronJob cj) = OCronJob cj" by (cases st) simp_all
  with cj show "is_check m hc (populated u v (copy_status st (merge_string_data y)))"
    by (simp add: is_check_def populated_def runs_check_def GetControllerOf_def)
next
  fix y old v assume "is_check m hc y"
  then show "is_check m hc (written old v y)"
    by (auto simp: is_check_def written_def keep_server_fields_def set_version_def runs_check_def GetControllerOf_def)
qed

lemma healthcheck_cronjob_checks:
  assumes "rssp_HealthCheck (rs_Spec rs) = Some hc"
  shows "mutates_to (is_check (rs_meta rs) hc) (healthcheck_cronjob rs)"
  unfolding mutates_to_def
proof (intro allI impI)
  fix w y assume f: "healthcheck_cronjob rs w = Inr y"
  with assms obtain cj m where w: "w = OCronJob cj"
    and m: "SetControllerReference service_gvk (rs_meta rs) (cj_meta cj) = Inr m"
    by (auto simp: healthcheck_cronjob_def split: obj.splits sum.splits)
  note c = SetControllerReference_controller [OF m]
  have "om_finalizers m = om_finalizers (cj_meta cj)" by (subst c(2)) simp
  with f assms w m c(1) show "obj_kind y = obj_kind w \<and> is_check (rs_meta rs) hc y \<and>
      om_finalizers (obj_meta y) = om_finalizers (obj_meta w)"
    by (auto simp: healthcheck_cronjob_def is_check_def runs_check_def)
qed

context kube_store
begin

lemma registerHealthcheck_ok:
  assumes "run_state (registerHealthcheck api rs) s = (None, s')" and "rssp_HealthCheck (rs_Spec rs) = Some hc"
  shows "\<exists>cj. objs s' (k_self api) KCronJob (meta_key (rs_meta rs)) = Some (OCronJob cj) \<and> runs_check (rs_meta rs) hc cj"
proof -
  let ?x = "OCronJob (empty_cronjob (om_namespace (rs_meta rs)) (om_name (rs_meta rs)))"
  from assms(1) obtain op z where "run_state (CreateOrUpdate api (k_self api) ?x (healthcheck_cronjob rs)) s = ((Inr op, z), s')"
    by (auto simp: registerHealthcheck_def err_of_def split: prod.splits sum.splits)
  from CreateOrUpdate_stores [OF this healthcheck_cronjob_checks [OF assms(2)] is_check_stable]
  show ?thesis by (auto simp: is_check_def empty_cronjob_def obj_key_def meta_key_def)
qed

lemma check_health_ok:
  assumes "run_state (check_health api rs) s = ((None, rs'), s')" and "rssp_HealthCheck (rs_Spec rs) = Some hc"
  shows "\<exists>cj. objs s' (k_self api) KCronJob (meta_key (rs_meta rs)) = Some (OCronJob cj) \<and> runs_check (rs_meta rs) hc cj"
proof -
  from assms obtain rs1 s1 where "run_state (registerHealthcheck api rs1) s1 = (None, s')"
    "rs_meta rs1 = rs_meta rs" "rs_Spec rs1 = rs_Spec rs"
    by (auto simp: check_health_def handleHealthcheck_def Let_def split: prod.splits sum.splits if_splits)
  with registerHealthcheck_ok [of rs1 s1 s' hc] assms(2) show ?thesis by simp
qed

end

text \<open>C12: A reconciliation without an error of a stored registered service that has a health check leaves a cron job
  that runs the check's image and command in the interval asked for and whose controller is the service: every
  change of the cron job, as when a check is over, and its deletion request the service's reconciliation. (The
  scheme of client-go holds no types of this program, and the REST mapper says that registered services are
  namespaced.)\<close>

theorem health_check_requests_service:
  assumes "kube_store api objs" and "run_state (Reconcile api (ns, n)) s = (None, s')"
    and "objs s (k_self api) KRegisteredService (ns, n) = Some (ORegisteredService rs)"
    and "rssp_HealthCheck (rs_Spec rs) = Some hc"
    and "foreign_scheme clientgo" and "init_control clientgo = Inr sch" and "setup_registeredservice sch = Inr ws"
    and "mapper (''primaza.io'', ''RegisteredService'') ''v1alpha1'' = Inr True"
  shows "\<exists>cj. objs s' (k_self api) KCronJob (ns, n) = Some (OCronJob cj) \<and> runs_check (rs_meta rs) hc cj \<and>
    routed mapper ws (OCronJob cj) (ns, n)"
proof -
  obtain rs1 s1 s2 s3 y where h: "run_state (check_health api rs) s1 = ((None, rs1), s2)"
    and c: "run_state (if rs_State rs1 = RSAvailable then reconcileCatalogs api rs1
        else removeServiceFromCatalogs api ns n) s2 = (None, s3)"
    and u: "run_state (k_status_update api (k_self api) (ORegisteredService rs1)) s3 = (Inr y, s')"
    by (rule kube_store.Reconcile_steps [OF assms(1), OF assms(2,3)])
  from kube_store.keyed [OF assms(1,3)] have key: "om_namespace (rs_meta rs) = ns" "om_name (rs_meta rs) = n"
    by (simp_all add: obj_key_def meta_key_def)
  from kube_store.check_health_ok [OF assms(1), OF h assms(4)] key
    modifies_run [OF kube_store.modifies_offer_service [OF assms(1)] c] kube_store.status_others [OF assms(1), OF u]
  obtain cj where cj: "objs s' (k_self api) KCronJob (ns, n) = Some (OCronJob cj)" and r: "runs_check (rs_meta rs) hc cj"
    by (auto simp: same_but_def meta_key_def)
  from kube_store.keyed [OF assms(1) cj] have cns: "om_namespace (cj_meta cj) = ns" by (simp add: obj_key_def meta_key_def)
  have "routed mapper ws (OCronJob cj) (om_namespace (obj_meta (OCronJob cj)),
      or_name \<lparr>or_apiVersion = fst service_gvk, or_kind = snd service_gvk,
        or_name = om_name (rs_meta rs), or_uid = om_uid (rs_meta rs), or_controller = True\<rparr>)"
    by (rule owned_routed [OF assms(5) assms(6) [unfolded init_control_def], of KRegisteredService])
      (use assms(7,8) r in \<open>simp_all add: primaza_kinds_def setup_registeredservice_def service_gvk_def runs_check_def\<close>)
  with cj r cns key show ?thesis by auto
qed

definition ping :: HealthCheckContainer where
  "ping = \<lparr>hc_Image = ''ping'', hc_Command = [''ping'', ''db''], hc_Minutes = 5\<rparr>"

definition checked_state :: mem where
  "checked_state = mem_of [(0, ORegisteredService (sample_service ''db'' RSUnset (Some ping)))]"

theorem health_check_requests_service_witness:
  "\<exists>s' cj sch ws. run_state (Reconcile (mem_api [] 0) (''sys'', ''db'')) checked_state = (None, s') \<and>
     init_control [] = Inr sch \<and> setup_registeredservice sch = Inr ws \<and>
     mem_objs s' 0 KCronJob (''sys'', ''db'') = Some (OCronJob cj) \<and> cj_Schedule cj = ''*/5 * * * *'' \<and>
     (''sys'', ''db'') \<in> set (fst (run_state (dispatch (\<lambda>_ _. Inr True) ws
        (DeleteEvent \<lparr>sn_obj = OCronJob cj, sn_generation = 1\<rparr>)) s'))"
proof -
  let ?api = "mem_api [] 0"
  have "fst (run_state (Reconcile ?api (''sys'', ''db'')) checked_state) = None" by code_simp
  then obtain s' where run: "run_state (Reconcile ?api (''sys'', ''db'')) checked_state = (None, s')" by (metis prod.collapse)
  have f: "foreign_scheme []" by (simp add: foreign_scheme_def)
  from AddToScheme_types [OF f] obtain sch where sch: "init_control [] = Inr sch" by (simp add: init_control_def)
  from Complete_Owns [OF f sch [unfolded init_control_def], of KRegisteredService KCronJob]
  obtain ws :: "mem watch list" where ws: "setup_registeredservice sch = Inr ws"
    by (simp add: setup_registeredservice_def primaza_kinds_def)
  have m: "(\<lambda>_ _. Inr True :: err + bool) (''primaza.io'', ''RegisteredService'') ''v1alpha1'' = Inr True" by simp
  have st: "mem_objs checked_state (k_self ?api) KRegisteredService (''sys'', ''db'') =
      Some (ORegisteredService (sample_service ''db'' RSUnset (Some ping)))" by code_simp
  have hc: "rssp_HealthCheck (rs_Spec (sample_service ''db'' RSUnset (Some ping))) = Some ping" by (simp add: sample_service_def)
  from health_check_requests_service [OF mem.kube_store_axioms, OF run st hc f sch ws m] obtain cj where
    cj: "mem_objs s' (k_self ?api) KCronJob (''sys'', ''db'') = Some (OCronJob cj)"
    and c: "runs_check (rs_meta (sample_service ''db'' RSUnset (Some ping))) ping cj"
    and r: "routed (\<lambda>_ _. Inr True) ws (OCronJob cj) (''sys'', ''db'')" by blast
  from r have "(''sys'', ''db'') \<in> set (fst (run_state (dispatch (\<lambda>_ _. Inr True) ws
        (DeleteEvent \<lparr>sn_obj = OCronJob cj, sn_generation = 1\<rparr>)) s'))" by (simp add: routed_def)
  moreover have "cj_Schedule cj = ''*/5 * * * *''"
  proof -
    have "''*/'' @ show_nat 5 @ '' * * * *'' = ''*/5 * * * *''" by code_simp
    with c show ?thesis by (simp add: runs_check_def ping_def)
  qed
  ultimately show ?thesis using run sch ws cj
    by (intro exI [of _ s'] exI [of _ cj] exI [of _ sch] exI [of _ ws]) simp
qed

subsection \<open>Which claims a service's events request\<close>

text \<open>Only resolved claims are requested: a claim that is left pending is not retried when a service changes.\<close>

lemma bound_claim_request_resolved:
  "q \<in> set (bound_claim_request uid scs) \<Longrightarrow>
     \<exists>sc\<in>set scs. meta_key (sc_meta sc) = q \<and> scst_State (sc_Status sc) = ClaimResolved"
  by (induction scs) (auto split: if_splits)

lemma service_map_resolved:
  assumes "kube_store api objs" and "run_state (reconcileOnRegisteredServiceUpdate api x) s = (qs, s')"
  shows "objs s' = objs s \<and> (\<forall>q\<in>set qs. \<exists>sc. objs s (k_self api) KServiceClaim q = Some (OServiceClaim sc) \<and>
    scst_State (sc_Status sc) = ClaimResolved)"
proof (cases "\<exists>rs. x = ORegisteredService rs \<and> rs_State rs = RSClaimed")
  case False
  with assms(2) have "qs = [] \<and> s' = s"
    by (cases x) (auto simp: reconcileOnRegisteredServiceUpdate_def split: if_splits)
  then show ?thesis by simp
next
  case True
  then obtain rs where x: "x = ORegisteredService rs" "rs_State rs = RSClaimed" by blast
  obtain r s1 where r: "run_state (k_list api (k_self api) KServiceClaim '''' []) s = (r, s1)" by fastforce
  with assms(2) x have q: "s' = s1"
    "qs = (case r of Inl e \<Rightarrow> [] | Inr items \<Rightarrow> bound_claim_request (om_uid (rs_meta rs)) (claims_of items))"
    by (auto simp: reconcileOnRegisteredServiceUpdate_def)
  have "\<exists>sc. objs s (k_self api) KServiceClaim p = Some (OServiceClaim sc) \<and> scst_State (sc_Status sc) = ClaimResolved"
    if "p \<in> set qs" for p
  proof -
    from that q(2) obtain items where items: "r = Inr items"
      "p \<in> set (bound_claim_request (om_uid (rs_meta rs)) (claims_of items))" by (cases r) auto
    from bound_claim_request_resolved [OF items(2)] obtain sc where sc: "OServiceClaim sc \<in> set items"
      "meta_key (sc_meta sc) = p" "scst_State (sc_Status sc) = ClaimResolved" by (auto simp: claims_of_in)
    from kube_store.list_found [OF assms(1), OF r [unfolded items(1)]] sc(1) obtain m
      where "objs s (k_self api) KServiceClaim m = Some (OServiceClaim sc)" by auto
    with kube_store.keyed [OF assms(1) this] sc(2,3) show ?thesis by (auto simp: obj_key_def)
  qed
  with kube_store.list_reads [OF assms(1), OF r] q(1) show ?thesis by simp
qed

lemma service_events_request_resolved:
  assumes "kube_store api objs" and "setup_serviceclaim api sch = Inr ws" and "event_kind ev = KRegisteredService"
    and "run_state (dispatch mapper ws ev) s = (reqs, s')" and "q \<in> set reqs"
  shows "\<exists>sc. objs s (k_self api) KServiceClaim q = Some (OServiceClaim sc) \<and> scst_State (sc_Status sc) = ClaimResolved"
proof -
  let ?m = "reconcileOnRegisteredServiceUpdate api"
  note ws = setup_serviceclaim_watches [OF assms(2)]
  note m = service_map_resolved [OF assms(1)]
  from assms(3-5) show ?thesis
  proof (cases ev)
    case (CreateEvent x)
    obtain qs s1 where r: "run_state (?m (sn_obj x)) s = (qs, s1)" by fastforce
    with assms(3-5) CreateEvent have "q \<in> set qs" by (auto simp: ws on_event_def split: if_splits)
    with m [OF r] show ?thesis by blast
  next
    case (UpdateEvent x y)
    obtain qs s1 where r: "run_state (?m (sn_obj x)) s = (qs, s1)" by fastforce
    obtain qs' s2 where r': "run_state (?m (sn_obj y)) s1 = (qs', s2)" by fastforce
    from r r' assms(3-5) UpdateEvent have "q \<in> set qs \<union> set qs'" by (auto simp: ws on_event_def split: if_splits)
    with m [OF r] m [OF r'] show ?thesis by auto
  next
    case (DeleteEvent x)
    obtain qs s1 where r: "run_state (?m (sn_obj x)) s = (qs, s1)" by fastforce
    with assms(3-5) DeleteEvent have "q \<in> set qs" by (auto simp: ws on_event_def split: if_splits)
    with m [OF r] show ?thesis by blast
  qed
qed

end
